(* ===== verification/Prelude.thy ===== *)
theory Prelude
  imports Main
begin

text \<open>
  Shared vocabulary of the development: the parts of the JavaScript standard library the
  modelled sources use (character classes of regular expressions, ASCII case mapping,
  \<open>String(n)\<close>, \<open>padStart\<close>, \<open>split(/[,\s]+/)\<close>, \<open>trim\<close>, \<open>join\<close>, \<open>Set\<close> built from a
  list), the collections of simplification rules the component proofs draw on, and the
  generic lemmas on lists, digits and reducers that several components share.

  Strings are \<open>char list\<close>s: code units 0 to 255. JavaScript's \<open>\s\<close> class restricted to those
  units is the seven characters of \<open>isJsSpace\<close>.
\<close>

named_theorems js_simps \<open>evaluation rules of the standard-library helpers\<close>
named_theorems parser_good \<open>every parser operation stays inside its input\<close>

section \<open>Characters\<close>

definition isDigit :: "char \<Rightarrow> bool" where
  "isDigit c \<longleftrightarrow> 48 \<le> (of_char c :: nat) \<and> (of_char c :: nat) \<le> 57"

definition isAlpha :: "char \<Rightarrow> bool" where
  "isAlpha c \<longleftrightarrow>
     65 \<le> (of_char c :: nat) \<and> (of_char c :: nat) \<le> 90 \<or>
     97 \<le> (of_char c :: nat) \<and> (of_char c :: nat) \<le> 122"

definition isLowerOrDigit :: "char \<Rightarrow> bool" where
  "isLowerOrDigit c \<longleftrightarrow> isDigit c \<or> 97 \<le> (of_char c :: nat) \<and> (of_char c :: nat) \<le> 122"

definition isJsSpace :: "char \<Rightarrow> bool" where
  "isJsSpace c \<longleftrightarrow> (of_char c :: nat) \<in> {9, 10, 11, 12, 13, 32, 160}"

definition lowerChar :: "char \<Rightarrow> char" where
  "lowerChar c =
     (if 65 \<le> (of_char c :: nat) \<and> (of_char c :: nat) \<le> 90
      then char_of ((of_char c :: nat) + 32) else c)"

definition upperChar :: "char \<Rightarrow> char" where
  "upperChar c =
     (if 97 \<le> (of_char c :: nat) \<and> (of_char c :: nat) \<le> 122
      then char_of ((of_char c :: nat) - 32) else c)"

definition toLowerCase :: "string \<Rightarrow> string" where
  "toLowerCase s = map lowerChar s"

definition toUpperCase :: "string \<Rightarrow> string" where
  "toUpperCase s = map upperChar s"

section \<open>Decimal numerals\<close>

definition digitChar :: "nat \<Rightarrow> char" where
  "digitChar d = char_of (48 + d)"

definition digitVal :: "char \<Rightarrow> nat" where
  "digitVal c = (of_char c :: nat) - 48"

fun showNat :: "nat \<Rightarrow> string" where
  "showNat n = (if n < 10 then [digitChar n] else showNat (n div 10) @ [digitChar (n mod 10)])"

declare showNat.simps [simp del]

definition showInt :: "int \<Rightarrow> string" where
  "showInt i = (if i < 0 then CHR ''-'' # showNat (nat (- i)) else showNat (nat i))"

definition parseDigits :: "string \<Rightarrow> nat" where
  "parseDigits s = foldl (\<lambda>a c. 10 * a + digitVal c) 0 s"

definition padStart :: "nat \<Rightarrow> char \<Rightarrow> string \<Rightarrow> string" where
  "padStart n c s = replicate (n - length s) c @ s"

section \<open>Strings and lists\<close>

fun join :: "string \<Rightarrow> string list \<Rightarrow> string" where
  "join sep [] = []"
| "join sep [x] = x"
| "join sep (x # y # xs) = x @ sep @ join sep (y # xs)"

definition startsWith :: "string \<Rightarrow> string \<Rightarrow> bool" where
  "startsWith s prefix \<longleftrightarrow> take (length prefix) s = prefix"

definition trim :: "string \<Rightarrow> string" where
  "trim s = rev (dropWhile isJsSpace (rev (dropWhile isJsSpace s)))"

text \<open>\<open>s.split(/[,\s]+/)\<close>: the maximal runs of separators are the cuts.\<close>

definition isListSep :: "char \<Rightarrow> bool" where
  "isListSep c \<longleftrightarrow> c = CHR '','' \<or> isJsSpace c"

fun splitListGo :: "string \<Rightarrow> string \<Rightarrow> string list" where
  "splitListGo cur [] = [rev cur]"
| "splitListGo cur (c # cs) =
     (if isListSep c
      then (case cs of
              [] \<Rightarrow> [rev cur, []]
            | d # ds \<Rightarrow> if isListSep d then splitListGo cur cs else rev cur # splitListGo [] cs)
      else splitListGo (c # cur) cs)"

definition splitList :: "string \<Rightarrow> string list" where
  "splitList s = splitListGo [] s"

text \<open>\<open>new Set(xs)\<close> in insertion order, and its \<open>add\<close>.\<close>

definition setAdd :: "'a \<Rightarrow> 'a list \<Rightarrow> 'a list" where
  "setAdd x xs = (if x \<in> set xs then xs else xs @ [x])"

section \<open>Generic facts\<close>

lemma of_char_char_of_small [js_simps]:
  "n < 256 \<Longrightarrow> (of_char (char_of n :: char) :: nat) = n"
  by (simp add: of_char_of)

lemma isDigit_digitChar [simp, js_simps]: "d < 10 \<Longrightarrow> isDigit (digitChar d)"
  by (simp add: isDigit_def digitChar_def of_char_of)

lemma digitVal_digitChar [simp, js_simps]: "d < 10 \<Longrightarrow> digitVal (digitChar d) = d"
  by (simp add: digitVal_def digitChar_def of_char_of)

lemma showNat_digits: "\<forall>c \<in> set (showNat n). isDigit c"
proof (induction n rule: showNat.induct)
  case (1 n)
  then show ?case by (subst showNat.simps) auto
qed

lemma showNat_nonempty [simp]: "showNat n \<noteq> []"
  by (subst showNat.simps) simp

lemma parseDigits_snoc: "parseDigits (s @ [c]) = 10 * parseDigits s + digitVal c"
  by (simp add: parseDigits_def)

lemma parseDigits_showNat [simp]: "parseDigits (showNat n) = n"
proof (induction n rule: showNat.induct)
  case (1 n)
  show ?case
  proof (cases "n < 10")
    case True
    then show ?thesis by (subst showNat.simps) (simp add: parseDigits_def)
  next
    case False
    with 1 have "parseDigits (showNat (n div 10)) = n div 10" by simp
    with False show ?thesis by (subst showNat.simps) (simp add: parseDigits_snoc)
  qed
qed

lemma takeWhile_append_stop:
  "\<forall>c \<in> set xs. P c \<Longrightarrow> (case ys of [] \<Rightarrow> True | y # _ \<Rightarrow> \<not> P y) \<Longrightarrow> takeWhile P (xs @ ys) = xs"
  by (induction xs) (auto split: list.splits)

lemma set_setAdd [simp]: "set (setAdd x xs) = insert x (set xs)"
  by (auto simp: setAdd_def)

lemma distinct_setAdd [simp]: "distinct (setAdd x xs) = distinct xs"
  by (auto simp: setAdd_def)

lemma take_drop_queue:
  assumes "k < length q"
  shows "set (drop k q) = insert (q ! k) (set (drop (Suc k) q))"
    and "set (take (Suc k) q) = insert (q ! k) (set (take k q))"
  using assms by (simp_all add: Cons_nth_drop_Suc [symmetric] take_Suc_conv_app_nth)

lemma foldl_inv: "P a \<Longrightarrow> (\<And>a x. P a \<Longrightarrow> P (f a x)) \<Longrightarrow> P (foldl f a xs)"
  by (induction xs arbitrary: a) auto

lemma find_append: "find P (xs @ ys) = (case find P xs of None \<Rightarrow> find P ys | Some x \<Rightarrow> Some x)"
  by (induction xs) auto

lemma find_mem: "find P xs = Some x \<Longrightarrow> x \<in> set xs \<and> P x"
  by (auto simp: find_Some_iff)

lemma foldl_inv_on:
  "P a \<Longrightarrow> (\<And>a x. x \<in> set xs \<Longrightarrow> P a \<Longrightarrow> P (f a x)) \<Longrightarrow> P (foldl f a xs)"
  by (induction xs arbitrary: a) auto

lemma foldl_upd_get:
  "foldl (\<lambda>m s. m(f s \<mapsto> g s)) m xs i =
     (case find (\<lambda>s. f s = i) (rev xs) of None \<Rightarrow> m i | Some s \<Rightarrow> Some (g s))"
  by (induction xs arbitrary: m rule: rev_induct) auto

end
