(* ===== verification/Opening_Hours_Ast.thy ===== *)
theory Opening_Hours_Ast
  imports Prelude
begin

text \<open>
  The data model of \<open>packages/core/src/utils/osmOpeningHoursAst.ts\<close>: the abstract syntax of
  the OpenStreetMap \<open>opening_hours\<close> language as the editor and the parser share it. A TypeScript
  interface is a record, a tagged union a datatype, a string-literal union an enumeration with
  a function giving the literal; an optional field is an \<open>option\<close> (or a \<open>bool\<close> for the flags
  that are only ever absent or \<open>true\<close>). Numbers are exact integers, which agree with
  JavaScript's up to \<open>2^53\<close>.
\<close>

section \<open>Literal unions\<close>

datatype OsmWeekday = Mo | Tu | We | Th | Fr | Sa | Su

datatype OsmMonth = Jan | Feb | Mar | Apr | May | Jun | Jul | Aug | Sep | Oct | Nov | Dec

datatype OsmHoliday = PH | SH

datatype OsmSolarEvent = Dawn | Sunrise | Sunset | Dusk

datatype OsmRuleModifier = Open | Closed | Off | Unknown

datatype OsmRuleSeparator = Semicolon | Comma | Fallback

fun weekdayText :: "OsmWeekday \<Rightarrow> string" where
  "weekdayText Mo = ''Mo''"
| "weekdayText Tu = ''Tu''"
| "weekdayText We = ''We''"
| "weekdayText Th = ''Th''"
| "weekdayText Fr = ''Fr''"
| "weekdayText Sa = ''Sa''"
| "weekdayText Su = ''Su''"

fun monthText :: "OsmMonth \<Rightarrow> string" where
  "monthText Jan = ''Jan''"
| "monthText Feb = ''Feb''"
| "monthText Mar = ''Mar''"
| "monthText Apr = ''Apr''"
| "monthText May = ''May''"
| "monthText Jun = ''Jun''"
| "monthText Jul = ''Jul''"
| "monthText Aug = ''Aug''"
| "monthText Sep = ''Sep''"
| "monthText Oct = ''Oct''"
| "monthText Nov = ''Nov''"
| "monthText Dec = ''Dec''"

fun holidayText :: "OsmHoliday \<Rightarrow> string" where
  "holidayText PH = ''PH''"
| "holidayText SH = ''SH''"

fun solarText :: "OsmSolarEvent \<Rightarrow> string" where
  "solarText Dawn = ''dawn''"
| "solarText Sunrise = ''sunrise''"
| "solarText Sunset = ''sunset''"
| "solarText Dusk = ''dusk''"

fun modifierText :: "OsmRuleModifier \<Rightarrow> string" where
  "modifierText Open = ''open''"
| "modifierText Closed = ''closed''"
| "modifierText Off = ''off''"
| "modifierText Unknown = ''unknown''"

definition OSM_WEEKDAYS :: "OsmWeekday list" where
  "OSM_WEEKDAYS = [Mo, Tu, We, Th, Fr, Sa, Su]"

definition OSM_MONTHS :: "OsmMonth list" where
  "OSM_MONTHS = [Jan, Feb, Mar, Apr, May, Jun, Jul, Aug, Sep, Oct, Nov, Dec]"

definition OSM_SOLAR_EVENTS :: "OsmSolarEvent list" where
  "OSM_SOLAR_EVENTS = [Dawn, Sunrise, Sunset, Dusk]"

definition OSM_RULE_MODIFIERS :: "OsmRuleModifier list" where
  "OSM_RULE_MODIFIERS = [Open, Closed, Off, Unknown]"

definition WEEKDAY_MAP :: "string \<rightharpoonup> OsmWeekday" where
  "WEEKDAY_MAP = map_of (map (\<lambda>w. (toLowerCase (weekdayText w), w)) OSM_WEEKDAYS)"

definition MONTH_MAP :: "string \<rightharpoonup> OsmMonth" where
  "MONTH_MAP = map_of (map (\<lambda>m. (toLowerCase (monthText m), m)) OSM_MONTHS)"

definition SOLAR_MAP :: "string \<rightharpoonup> OsmSolarEvent" where
  "SOLAR_MAP = map_of (map (\<lambda>s. (toLowerCase (solarText s), s)) OSM_SOLAR_EVENTS)"

definition MODIFIER_MAP :: "string \<rightharpoonup> OsmRuleModifier" where
  "MODIFIER_MAP = map_of (map (\<lambda>m. (toLowerCase (modifierText m), m)) OSM_RULE_MODIFIERS)"

section \<open>Selectors\<close>

record OsmNthEntry =
  nthFrom :: int
  nthTo :: "int option"

record OsmYearRange =
  yearFrom :: nat
  yearTo :: "nat option"
  yearOpenEnd :: bool
  yearStep :: "nat option"

record OsmDateOffset =
  weekdayOffset :: "(bool \<times> OsmWeekday) option"
  offsetDays :: "int option"

datatype OsmDateEndpoint =
    Calendar "nat option" OsmMonth nat
  | NthWeekday "nat option" OsmMonth OsmWeekday int
  | Easter "nat option"

datatype OsmMonthdayRange =
    Months "nat option" OsmMonth "OsmMonth option"
  | Dates OsmDateEndpoint "OsmDateOffset option" "OsmDateEndpoint option" "OsmDateOffset option" bool

record OsmWeekRange =
  weekFrom :: nat
  weekTo :: "nat option"
  weekStep :: "nat option"

datatype OsmWeekdaySelectorItem =
    WeekdayItem OsmWeekday "OsmWeekday option" "OsmNthEntry list option" "int option"
  | HolidayItem OsmHoliday "int option" bool

datatype OsmTimePoint =
    Clock nat nat
  | Variable OsmSolarEvent "int option"

record OsmTimeSelector =
  timeFrom :: OsmTimePoint
  timeTo :: "OsmTimePoint option"
  timeOpenEnd :: bool
  intervalMinutes :: "nat option"

section \<open>Rules and documents\<close>

record OsmOpeningHoursRule =
  separator :: OsmRuleSeparator
  is24_7 :: bool
  rangeComment :: "string option"
  years :: "OsmYearRange list"
  months :: "OsmMonthdayRange list"
  weeks :: "OsmWeekRange list"
  colonAfterWideRange :: bool
  weekdays :: "OsmWeekdaySelectorItem list"
  times :: "OsmTimeSelector list"
  modifier :: "OsmRuleModifier option"
  comment :: "string option"

type_synonym OsmOpeningHoursDocument = "OsmOpeningHoursRule list"

datatype OsmOpeningHoursParseResult =
    ParseOk OsmOpeningHoursDocument string
  | ParseFail string nat

section \<open>The literal tables\<close>

lemma WEEKDAY_MAP_text [simp]: "WEEKDAY_MAP (toLowerCase (weekdayText w)) = Some w"
  by (cases w) (simp_all add: WEEKDAY_MAP_def OSM_WEEKDAYS_def toLowerCase_def lowerChar_def)

lemma MONTH_MAP_text [simp]: "MONTH_MAP (toLowerCase (monthText m)) = Some m"
  by (cases m) (simp_all add: MONTH_MAP_def OSM_MONTHS_def toLowerCase_def lowerChar_def)

lemma SOLAR_MAP_text [simp]: "SOLAR_MAP (toLowerCase (solarText s)) = Some s"
  by (cases s) (simp_all add: SOLAR_MAP_def OSM_SOLAR_EVENTS_def toLowerCase_def lowerChar_def)

lemma MODIFIER_MAP_text [simp]: "MODIFIER_MAP (toLowerCase (modifierText m)) = Some m"
  by (cases m) (simp_all add: MODIFIER_MAP_def OSM_RULE_MODIFIERS_def toLowerCase_def lowerChar_def)

end
