(* ===== verification/Opening_Hours_Parser.thy ===== *)
theory Opening_Hours_Parser
  imports Opening_Hours_Ast
begin

text \<open>
  The \<open>Parser\<close> class of \<open>packages/core/src/utils/osmOpeningHoursAst.ts\<close>, method by method. The
  object's two fields (the input and the cursor \<open>pos\<close>) are the pair of the input from the
  cursor on and the cursor, so \<open>this.input[this.pos]\<close> is the head of \<open>rest\<close>, saving and
  restoring \<open>this.pos\<close> is keeping the earlier \<open>parser\<close> value, and \<open>advance\<close> moves the cursor.
  A method that can throw returns a \<open>res\<close>: a value and the moved cursor, the \<open>ParseError\<close> with
  its message and position, or \<open>Diverge\<close> for a \<open>while (true)\<close> loop that was cut off. The loops
  take a fuel argument; \<open>Opening_Hours_Total\<close> proves how much is enough, and for which inputs
  no fuel is.
\<close>

section \<open>Cursor and results\<close>

datatype parser = Parser (rest: string) (pos: nat)

datatype 'a res = Ok 'a parser | Throw string nat | Diverge

definition advance :: "nat \<Rightarrow> parser \<Rightarrow> parser" where
  "advance k p = Parser (drop k (rest p)) (pos p + k)"

definition peekChar :: "parser \<Rightarrow> char option" where
  "peekChar p = (case rest p of [] \<Rightarrow> None | c # _ \<Rightarrow> Some c)"

fun bindRes :: "'a res \<Rightarrow> ('a \<Rightarrow> parser \<Rightarrow> 'b res) \<Rightarrow> 'b res" where
  "bindRes (Ok a p) f = f a p"
| "bindRes (Throw m n) f = Throw m n"
| "bindRes Diverge f = Diverge"

definition quoted :: "string \<Rightarrow> string" where
  "quoted s = [CHR 0x27] @ s @ [CHR 0x27]"

section \<open>Lexical methods\<close>

definition isSkipSpace :: "char \<Rightarrow> bool" where
  "isSkipSpace c \<longleftrightarrow> c = CHR '' '' \<or> c = CHR 0x09 \<or> c = CHR 0x0D \<or> c = CHR 0x0A"

definition isAtEnd :: "parser \<Rightarrow> bool" where
  "isAtEnd p \<longleftrightarrow> rest p = []"

definition skipWhitespace :: "parser \<Rightarrow> parser" where
  "skipWhitespace p = advance (length (takeWhile isSkipSpace (rest p))) p"

definition matchChar :: "char \<Rightarrow> parser \<Rightarrow> bool \<times> parser" where
  "matchChar c p =
     (let p1 = skipWhitespace p
      in if peekChar p1 = Some c then (True, advance 1 p1) else (False, p1))"

definition matchLiteral :: "string \<Rightarrow> parser \<Rightarrow> bool \<times> parser" where
  "matchLiteral lit p =
     (let p1 = skipWhitespace p
      in if take (length lit) (rest p1) = lit then (True, advance (length lit) p1)
         else (False, p1))"

definition readWord :: "parser \<Rightarrow> string option \<times> parser" where
  "readWord p =
     (let p1 = skipWhitespace p; w = takeWhile isAlpha (rest p1)
      in if w = [] then (None, p1) else (Some w, advance (length w) p1))"

definition peekWord :: "parser \<Rightarrow> string option" where
  "peekWord p =
     (let w = takeWhile isAlpha (dropWhile isJsSpace (rest p))
      in if w = [] then None else Some w)"

text \<open>The value, the number of digits and the start of a run of digits.\<close>

definition readUnsignedInt :: "parser \<Rightarrow> (nat \<times> nat \<times> nat) option \<times> parser" where
  "readUnsignedInt p =
     (let p1 = skipWhitespace p; raw = takeWhile isDigit (rest p1)
      in if raw = [] then (None, p1)
         else (Some (parseDigits raw, length raw, pos p1), advance (length raw) p1))"

fun commentLoop :: "nat \<Rightarrow> string \<Rightarrow> string \<Rightarrow> nat \<Rightarrow> string res" where
  "commentLoop start result [] n = Throw ''Unterminated comment string'' start"
| "commentLoop start result (ch # cs) n =
     (if ch = CHR 0x5C
      then (case cs of
              [] \<Rightarrow> Throw ''Unterminated escape in comment'' start
            | d # ds \<Rightarrow> commentLoop start (result @ [d]) ds (n + 2))
      else if ch = CHR 0x22 then Ok result (Parser cs (n + 1))
      else commentLoop start (result @ [ch]) cs (n + 1))"

definition parseCommentString :: "parser \<Rightarrow> string res" where
  "parseCommentString p =
     (let p1 = skipWhitespace p
      in case rest p1 of
           ch # cs \<Rightarrow>
             if ch = CHR 0x22 then commentLoop (pos p1) [] cs (pos p1 + 1)
             else Throw (''Expected '' @ quoted [CHR 0x22] @ '' to start comment'') (pos p1)
         | [] \<Rightarrow> Throw (''Expected '' @ quoted [CHR 0x22] @ '' to start comment'') (pos p1))"

section \<open>Comma-separated selectors\<close>

text \<open>
  The loop that \<open>parseYearSelectors\<close>, \<open>parseMonthdaySelectors\<close>, \<open>parseWeekSelectors\<close> and
  \<open>parseTimeSelectors\<close> share: parse an item, and go on past a comma only when the lookahead
  \<open>again\<close> sees another item there; otherwise the cursor goes back before the comma, which then
  separates rules.
\<close>

fun commaLoop ::
  "(parser \<Rightarrow> 'a option res) \<Rightarrow> (parser \<Rightarrow> bool res) \<Rightarrow> nat \<Rightarrow> 'a list \<Rightarrow> parser \<Rightarrow> 'a list res"
where
  "commaLoop item again 0 acc p = Diverge"
| "commaLoop item again (Suc fuel) acc p =
     bindRes (item p) (\<lambda>r p1.
       case r of
         None \<Rightarrow> Ok acc p
       | Some x \<Rightarrow>
           (case matchChar (CHR '','') p1 of
              (False, p2) \<Rightarrow> Ok (acc @ [x]) p2
            | (True, p2) \<Rightarrow>
                bindRes (again p2) (\<lambda>b _.
                  if b then commaLoop item again fuel (acc @ [x]) p2
                  else Ok (acc @ [x]) p1)))"

definition seesItem :: "(parser \<Rightarrow> 'a option res) \<Rightarrow> parser \<Rightarrow> bool res" where
  "seesItem item p = bindRes (item p) (\<lambda>r q. Ok (r \<noteq> None) q)"

definition parseStep :: "string \<Rightarrow> parser \<Rightarrow> nat res" where
  "parseStep msg p =
     (case readUnsignedInt p of
        (None, q) \<Rightarrow> Throw msg (pos q)
      | (Some (v, _), q) \<Rightarrow> if v < 1 then Throw msg (pos q) else Ok v q)"

section \<open>Years\<close>

definition tryParseYearRange :: "parser \<Rightarrow> OsmYearRange option res" where
  "tryParseYearRange p =
     (case readUnsignedInt p of
        (None, p1) \<Rightarrow> Ok None p1
      | (Some (v, digits, _), p1) \<Rightarrow>
          if digits \<noteq> 4 \<or> v \<le> 1900 then Ok None p1
          else if (case peekWord p1 of
                     None \<Rightarrow> False
                   | Some w \<Rightarrow> MONTH_MAP (toLowerCase w) \<noteq> None \<or> toLowerCase w = ''easter'')
          then Ok None p1
          else
            (case matchChar (CHR ''-'') p1 of
               (True, p2) \<Rightarrow>
                 (case readUnsignedInt p2 of
                    (None, p3) \<Rightarrow> Throw ''Invalid end year in year range'' (pos p)
                  | (Some (v2, digits2, _), p3) \<Rightarrow>
                      if digits2 \<noteq> 4 \<or> v2 < v
                      then Throw ''Invalid end year in year range'' (pos p)
                      else
                        (case matchChar (CHR ''/'') p3 of
                           (True, p4) \<Rightarrow>
                             bindRes (parseStep ''Invalid step in year range'' p4) (\<lambda>s p5.
                               Ok (Some \<lparr>yearFrom = v, yearTo = Some v2, yearOpenEnd = False,
                                         yearStep = Some s\<rparr>) p5)
                         | (False, p4) \<Rightarrow>
                             Ok (Some \<lparr>yearFrom = v, yearTo = Some v2, yearOpenEnd = False,
                                       yearStep = None\<rparr>) p4))
             | (False, p2) \<Rightarrow>
                 (case matchChar (CHR ''+'') p2 of
                    (True, p3) \<Rightarrow>
                      Ok (Some \<lparr>yearFrom = v, yearTo = None, yearOpenEnd = True,
                                yearStep = None\<rparr>) p3
                  | (False, p3) \<Rightarrow>
                      (case matchChar (CHR ''/'') p3 of
                         (True, p4) \<Rightarrow>
                           bindRes (parseStep ''Invalid step in year range'' p4) (\<lambda>s p5.
                             Ok (Some \<lparr>yearFrom = v, yearTo = None, yearOpenEnd = False,
                                       yearStep = Some s\<rparr>) p5)
                       | (False, p4) \<Rightarrow>
                           Ok (Some \<lparr>yearFrom = v, yearTo = None, yearOpenEnd = False,
                                     yearStep = None\<rparr>) p4))))"

definition parseYearSelectors :: "nat \<Rightarrow> parser \<Rightarrow> OsmYearRange list res" where
  "parseYearSelectors fuel p = commaLoop tryParseYearRange (seesItem tryParseYearRange) fuel [] p"

section \<open>Month days and dates\<close>

definition parseSingleNthValue :: "parser \<Rightarrow> int res" where
  "parseSingleNthValue p =
     (let p1 = skipWhitespace p;
          negative = (peekChar p1 = Some (CHR ''-''));
          p2 = (if negative then advance 1 p1 else p1)
      in case readUnsignedInt p2 of
           (None, p3) \<Rightarrow>
             Throw ''Expected nth occurrence between 1 and 5 (or -1 to -5)'' (pos p3)
         | (Some (v, _), p3) \<Rightarrow>
             if v < 1 \<or> v > 5
             then Throw ''Expected nth occurrence between 1 and 5 (or -1 to -5)'' (pos p3)
             else Ok (if negative then - int v else int v) p3)"

definition isDayWord :: "string option \<Rightarrow> bool" where
  "isDayWord w = (case w of None \<Rightarrow> False
                  | Some s \<Rightarrow> toLowerCase s = ''day'' \<or> toLowerCase s = ''days'')"

definition tryParseDayOffset :: "parser \<Rightarrow> int option \<times> parser" where
  "tryParseDayOffset p =
     (let p1 = skipWhitespace p; sign = peekChar p1
      in if sign \<noteq> Some (CHR ''+'') \<and> sign \<noteq> Some (CHR ''-'') then (None, p1)
         else
           (case readUnsignedInt (advance 1 p1) of
              (None, _) \<Rightarrow> (None, p)
            | (Some (v, _), p2) \<Rightarrow>
                if v < 1 then (None, p)
                else
                  (case readWord p2 of
                     (w, p3) \<Rightarrow>
                       if isDayWord w
                       then (Some (if sign = Some (CHR ''-'') then - int v else int v), p3)
                       else (None, p))))"

definition tryParseWeekdayOffset :: "parser \<Rightarrow> (bool \<times> OsmWeekday) option \<times> parser" where
  "tryParseWeekdayOffset p =
     (let p1 = skipWhitespace p; sign = peekChar p1
      in if sign = Some (CHR ''+'') \<or> sign = Some (CHR ''-'')
         then let p2 = advance 1 p1
              in case peekWord p2 of
                   None \<Rightarrow> (None, p)
                 | Some w \<Rightarrow>
                     (case WEEKDAY_MAP (toLowerCase w) of
                        None \<Rightarrow> (None, p)
                      | Some wd \<Rightarrow> (Some (sign = Some (CHR ''+''), wd), snd (readWord p2)))
         else (None, p))"

definition tryParseDateOffset :: "parser \<Rightarrow> OsmDateOffset option \<times> parser" where
  "tryParseDateOffset p =
     (case tryParseWeekdayOffset p of
        (wo, p1) \<Rightarrow>
          (case tryParseDayOffset p1 of
             (off, p2) \<Rightarrow>
               if wo = None \<and> off = None then (None, p2)
               else (Some \<lparr>weekdayOffset = wo, offsetDays = off\<rparr>, p2)))"

definition readLeadingYear :: "parser \<Rightarrow> nat option \<times> parser" where
  "readLeadingYear p =
     (case readUnsignedInt p of
        (Some (v, digits, _), q) \<Rightarrow> if digits = 4 \<and> v > 1900 then (Some v, q) else (None, p)
      | (None, _) \<Rightarrow> (None, p))"

text \<open>\<open>wday[nth]\<close> after a month name; without the bracket the cursor stays after the month.\<close>

definition tryParseNthWeekday :: "string \<Rightarrow> parser \<Rightarrow> (OsmWeekday \<times> int) option res" where
  "tryParseNthWeekday msg p =
     (case peekWord p of
        None \<Rightarrow> Ok None p
      | Some w \<Rightarrow>
          (case WEEKDAY_MAP (toLowerCase w) of
             None \<Rightarrow> Ok None p
           | Some wd \<Rightarrow>
               (case matchChar (CHR ''['') (snd (readWord p)) of
                  (False, _) \<Rightarrow> Ok None p
                | (True, p1) \<Rightarrow>
                    bindRes (parseSingleNthValue p1) (\<lambda>n p2.
                      case matchChar (CHR '']'') p2 of
                        (False, p3) \<Rightarrow> Throw msg (pos p3)
                      | (True, p3) \<Rightarrow> Ok (Some (wd, n)) p3))))"

definition tryParseDateEndpoint :: "parser \<Rightarrow> OsmDateEndpoint option res" where
  "tryParseDateEndpoint p =
     (case readLeadingYear p of
        (year, p1) \<Rightarrow>
          (case peekWord p1 of
             None \<Rightarrow> Ok None p
           | Some w \<Rightarrow>
               if toLowerCase w = ''easter'' then Ok (Some (Easter year)) (snd (readWord p1))
               else
                 (case MONTH_MAP (toLowerCase w) of
                    None \<Rightarrow> Ok None p
                  | Some month \<Rightarrow>
                      bindRes
                        (tryParseNthWeekday (''Expected '' @ quoted '']'' @ '' after nth weekday'')
                          (snd (readWord p1)))
                        (\<lambda>r p2.
                          case r of
                            Some (wd, n) \<Rightarrow> Ok (Some (NthWeekday year month wd n)) p2
                          | None \<Rightarrow>
                              (case readUnsignedInt p2 of
                                 (None, _) \<Rightarrow> Ok None p
                               | (Some (v, digits, _), p3) \<Rightarrow>
                                   if digits > 2 \<or> v < 1 \<or> v > 31 then Ok None p
                                   else Ok (Some (Calendar year month v)) p3)))))"

definition finishLongDateRange ::
  "OsmDateEndpoint \<Rightarrow> OsmDateOffset option \<Rightarrow> nat \<Rightarrow> parser \<Rightarrow> OsmMonthdayRange res"
where
  "finishLongDateRange from fromOffset beforeDash p =
     bindRes (tryParseDateEndpoint p) (\<lambda>r p1.
       case r of
         None \<Rightarrow>
           Throw (''Expected end date after '' @ quoted ''-'' @ '' in date range'') beforeDash
       | Some toEndpoint \<Rightarrow>
           (case tryParseDateOffset p1 of
              (toOffset, p2) \<Rightarrow>
                Ok (Dates from fromOffset (Some toEndpoint) toOffset False) p2))"

definition finishDateRange ::
  "OsmDateEndpoint \<Rightarrow> OsmDateOffset option \<Rightarrow> parser \<Rightarrow> OsmMonthdayRange res"
where
  "finishDateRange from fromOffset p =
     (case matchChar (CHR ''+'') p of
        (True, p1) \<Rightarrow> Ok (Dates from fromOffset None None True) p1
      | (False, p1) \<Rightarrow>
          (case matchChar (CHR ''-'') p1 of
             (False, p2) \<Rightarrow> Ok (Dates from fromOffset None None False) p2
           | (True, p2) \<Rightarrow>
               (case (from, readUnsignedInt p2) of
                  (Calendar _ month _, Some (v, digits, start), p3) \<Rightarrow>
                    if digits \<le> 2
                    then
                      (if v < 1 \<or> v > 31
                       then Throw (''Invalid day of month: '' @ showNat v) start
                       else (case tryParseDateOffset p3 of
                               (toOffset, p4) \<Rightarrow>
                                 Ok (Dates from fromOffset (Some (Calendar None month v)) toOffset
                                       False) p4))
                    else finishLongDateRange from fromOffset (pos p1) p2
                | _ \<Rightarrow> finishLongDateRange from fromOffset (pos p1) p2)))"

definition finishMonthRange :: "nat option \<Rightarrow> OsmMonth \<Rightarrow> parser \<Rightarrow> OsmMonthdayRange res" where
  "finishMonthRange leadingYear month p =
     (case matchChar (CHR ''-'') p of
        (False, p1) \<Rightarrow> Ok (Months leadingYear month None) p1
      | (True, p1) \<Rightarrow>
          (case readWord p1 of
             (endWord, p2) \<Rightarrow>
               (case Option.bind endWord (\<lambda>w. MONTH_MAP (toLowerCase w)) of
                  None \<Rightarrow>
                    Throw (''Expected month name after '' @ quoted ''-'' @ '' in month range'') (pos p)
                | Some m \<Rightarrow> Ok (Months leadingYear month (Some m)) p2)))"

definition finishMonthday :: "nat option \<Rightarrow> OsmMonth \<Rightarrow> parser \<Rightarrow> OsmMonthdayRange res" where
  "finishMonthday leadingYear month p =
     (case readUnsignedInt p of
        (None, _) \<Rightarrow> finishMonthRange leadingYear month p
      | (Some (v, digits, start), p1) \<Rightarrow>
          let p2 = skipWhitespace p1
          in if peekChar p2 = Some (CHR '':'') \<or> digits > 2
             then finishMonthRange leadingYear month p
             else if v < 1 \<or> v > 31 then Throw (''Invalid day of month: '' @ showNat v) start
             else (case tryParseDateOffset p2 of
                     (fromOffset, p3) \<Rightarrow>
                       finishDateRange (Calendar leadingYear month v) fromOffset p3))"

definition someRes :: "'a res \<Rightarrow> 'a option res" where
  "someRes r = bindRes r (\<lambda>x p. Ok (Some x) p)"

definition tryParseMonthdayRange :: "parser \<Rightarrow> OsmMonthdayRange option res" where
  "tryParseMonthdayRange p =
     (case readLeadingYear (skipWhitespace p) of
        (leadingYear, p1) \<Rightarrow>
          (case peekWord p1 of
             None \<Rightarrow> Ok None p1
           | Some w \<Rightarrow>
               if toLowerCase w = ''easter''
               then (case tryParseDateOffset (snd (readWord p1)) of
                       (fromOffset, p2) \<Rightarrow>
                         someRes (finishDateRange (Easter leadingYear) fromOffset p2))
               else
                 (case MONTH_MAP (toLowerCase w) of
                    None \<Rightarrow> Ok None p1
                  | Some month \<Rightarrow>
                      bindRes
                        (tryParseNthWeekday
                          (''Expected '' @ quoted '']'' @ '' after nth weekday in month'')
                          (snd (readWord p1)))
                        (\<lambda>r p2.
                          case r of
                            Some (wd, n) \<Rightarrow>
                              (case tryParseDateOffset p2 of
                                 (fromOffset, p3) \<Rightarrow>
                                   someRes (finishDateRange (NthWeekday leadingYear month wd n)
                                     fromOffset p3))
                          | None \<Rightarrow> someRes (finishMonthday leadingYear month p2)))))"

definition parseMonthdaySelectors :: "nat \<Rightarrow> parser \<Rightarrow> OsmMonthdayRange list res" where
  "parseMonthdaySelectors fuel p =
     commaLoop tryParseMonthdayRange (seesItem tryParseMonthdayRange) fuel [] p"

section \<open>Weeks\<close>

definition parseWeekNumber :: "string \<Rightarrow> parser \<Rightarrow> nat res" where
  "parseWeekNumber msg p =
     (case readUnsignedInt p of
        (None, q) \<Rightarrow> Throw msg (pos q)
      | (Some (v, _), q) \<Rightarrow> if v < 1 \<or> v > 53 then Throw msg (pos q) else Ok v q)"

definition parseSingleWeekRange :: "parser \<Rightarrow> OsmWeekRange res" where
  "parseSingleWeekRange p =
     bindRes (parseWeekNumber (''Expected week number (01..53) after '' @ quoted ''week'') p) (\<lambda>v p1.
       case matchChar (CHR ''-'') p1 of
         (False, p2) \<Rightarrow> Ok \<lparr>weekFrom = v, weekTo = None, weekStep = None\<rparr> p2
       | (True, p2) \<Rightarrow>
           bindRes (parseWeekNumber ''Expected end week number (01..53)'' p2) (\<lambda>v2 p3.
             case matchChar (CHR ''/'') p3 of
               (False, p4) \<Rightarrow> Ok \<lparr>weekFrom = v, weekTo = Some v2, weekStep = None\<rparr> p4
             | (True, p4) \<Rightarrow>
                 bindRes
                   (parseStep (''Expected positive step after '' @ quoted ''/'' @ '' in week range'')
                     p4)
                   (\<lambda>s p5.
                     Ok \<lparr>weekFrom = v, weekTo = Some v2, weekStep = Some s\<rparr> p5)))"

definition seesInt :: "parser \<Rightarrow> bool res" where
  "seesInt p = (case readUnsignedInt p of (r, q) \<Rightarrow> Ok (r \<noteq> None) q)"

definition parseWeekSelectors :: "nat \<Rightarrow> parser \<Rightarrow> OsmWeekRange list res" where
  "parseWeekSelectors fuel p =
     (case peekWord p of
        None \<Rightarrow> Ok [] p
      | Some w \<Rightarrow>
          if toLowerCase w \<noteq> ''week'' then Ok [] p
          else commaLoop (\<lambda>q. someRes (parseSingleWeekRange q)) seesInt fuel [] (snd (readWord p)))"

section \<open>Weekdays and holidays\<close>

definition parseNthEntry :: "parser \<Rightarrow> OsmNthEntry res" where
  "parseNthEntry p =
     bindRes (parseSingleNthValue p) (\<lambda>from p1.
       case matchChar (CHR ''-'') p1 of
         (False, p2) \<Rightarrow> Ok \<lparr>nthFrom = from, nthTo = None\<rparr> p2
       | (True, p2) \<Rightarrow>
           bindRes (parseSingleNthValue p2) (\<lambda>to p3.
             if from < 0 \<or> to < 0 \<or> to < from
             then Throw ''Invalid nth range in weekday selector'' (pos p3)
             else Ok \<lparr>nthFrom = from, nthTo = Some to\<rparr> p3))"

fun nthLoop :: "nat \<Rightarrow> OsmNthEntry list \<Rightarrow> parser \<Rightarrow> OsmNthEntry list res" where
  "nthLoop 0 acc p = Diverge"
| "nthLoop (Suc fuel) acc p =
     bindRes (parseNthEntry p) (\<lambda>entry p1.
       case matchChar (CHR '','') p1 of
         (True, p2) \<Rightarrow> nthLoop fuel (acc @ [entry]) p2
       | (False, p2) \<Rightarrow> Ok (acc @ [entry]) p2)"

definition parseNthList :: "nat \<Rightarrow> parser \<Rightarrow> OsmNthEntry list option res" where
  "parseNthList fuel p =
     (case matchChar (CHR ''['') p of
        (False, p1) \<Rightarrow> Ok None p1
      | (True, p1) \<Rightarrow>
          bindRes (nthLoop fuel [] p1) (\<lambda>entries p2.
            case matchChar (CHR '']'') p2 of
              (False, p3) \<Rightarrow>
                Throw (''Expected '' @ quoted '']'' @ '' after nth weekday selector'') (pos p3)
            | (True, p3) \<Rightarrow> Ok (Some entries) p3))"

definition tryParseWeekdaySelectorItem ::
  "nat \<Rightarrow> parser \<Rightarrow> OsmWeekdaySelectorItem option res"
where
  "tryParseWeekdaySelectorItem fuel p =
     (case peekWord p of
        None \<Rightarrow> Ok None p
      | Some w \<Rightarrow>
          if toUpperCase w = ''PH''
          then (case tryParseDayOffset (snd (readWord p)) of
                  (off, p1) \<Rightarrow> Ok (Some (HolidayItem PH off False)) p1)
          else if toUpperCase w = ''SH''
          then Ok (Some (HolidayItem SH None False)) (snd (readWord p))
          else
            (case WEEKDAY_MAP (toLowerCase w) of
               None \<Rightarrow> Ok None p
             | Some fromWday \<Rightarrow>
                 (case matchChar (CHR ''-'') (snd (readWord p)) of
                    (True, p1) \<Rightarrow>
                      (case readWord p1 of
                         (endWord, p2) \<Rightarrow>
                           (case Option.bind endWord (\<lambda>e. WEEKDAY_MAP (toLowerCase e)) of
                              None \<Rightarrow>
                                Throw (''Expected weekday after '' @ quoted ''-''
                                  @ '' in weekday range'') (pos p2)
                            | Some toWday \<Rightarrow>
                                Ok (Some (WeekdayItem fromWday (Some toWday) None None)) p2))
                  | (False, p1) \<Rightarrow>
                      bindRes (parseNthList fuel p1) (\<lambda>ns p2.
                        case tryParseDayOffset p2 of
                          (off, p3) \<Rightarrow>
                            Ok (Some (WeekdayItem fromWday None ns off)) p3))))"

fun withAndNext :: "OsmWeekdaySelectorItem \<Rightarrow> OsmWeekdaySelectorItem" where
  "withAndNext (HolidayItem h off _) = HolidayItem h off True"
| "withAndNext i = i"

fun isHoliday :: "OsmWeekdaySelectorItem \<Rightarrow> bool" where
  "isHoliday (HolidayItem _ _ _) = True"
| "isHoliday _ = False"

text \<open>
  The one loop that may go round without moving the cursor: after a holiday selector with no
  comma, another selector joins with a space.
\<close>

fun weekdayLoop ::
  "nat \<Rightarrow> OsmWeekdaySelectorItem list \<Rightarrow> parser \<Rightarrow> OsmWeekdaySelectorItem list res"
where
  "weekdayLoop 0 acc p = Diverge"
| "weekdayLoop (Suc fuel) acc p =
     bindRes (tryParseWeekdaySelectorItem (Suc fuel) p) (\<lambda>r p1.
       case r of
         None \<Rightarrow> Ok acc p
       | Some item \<Rightarrow>
           (case matchChar (CHR '','') p1 of
              (True, p2) \<Rightarrow>
                bindRes (tryParseWeekdaySelectorItem (Suc fuel) p2) (\<lambda>nxt _.
                  if nxt = None then Ok (acc @ [item]) p1
                  else weekdayLoop fuel (acc @ [item]) p2)
            | (False, p2) \<Rightarrow>
                if isHoliday item
                then bindRes (tryParseWeekdaySelectorItem (Suc fuel) p2) (\<lambda>nxt _.
                       if nxt = None then Ok (acc @ [item]) p2
                       else weekdayLoop fuel (acc @ [withAndNext item]) p2)
                else Ok (acc @ [item]) p2))"

definition parseWeekdaySelectors :: "nat \<Rightarrow> parser \<Rightarrow> OsmWeekdaySelectorItem list res" where
  "parseWeekdaySelectors fuel p = weekdayLoop fuel [] p"

section \<open>Times\<close>

definition tryParseHourMinute :: "bool \<Rightarrow> parser \<Rightarrow> (nat \<times> nat) option res" where
  "tryParseHourMinute allowExtendedHours p =
     (case readUnsignedInt p of
        (None, _) \<Rightarrow> Ok None p
      | (Some (h, digits, _), p1) \<Rightarrow>
          if digits > 2 \<or> peekChar p1 \<noteq> Some (CHR '':'') then Ok None p
          else
            let p2 = advance 1 p1
            in if (case peekChar p2 of None \<Rightarrow> True | Some c \<Rightarrow> \<not> isDigit c)
               then Throw (''Expected minutes after '' @ quoted '':'' @ '' in time'') (pos p2)
               else
                 (case readUnsignedInt p2 of
                    (None, p3) \<Rightarrow>
                      Throw ''Minutes in time must be two digits between 00 and 59'' (pos p)
                  | (Some (m, mDigits, _), p3) \<Rightarrow>
                      if mDigits \<noteq> 2 \<or> m > 59
                      then Throw ''Minutes in time must be two digits between 00 and 59'' (pos p)
                      else
                        let maxHour = (if allowExtendedHours then 48 else 24)
                        in if h > maxHour \<or> h = maxHour \<and> m > 0
                           then Throw (''Hours in time must not exceed '' @ showNat maxHour @ '':00'')
                                  (pos p)
                           else Ok (Some (h, m)) p3))"

definition parseHourMinute :: "bool \<Rightarrow> parser \<Rightarrow> (nat \<times> nat) res" where
  "parseHourMinute allowExtendedHours p =
     bindRes (tryParseHourMinute allowExtendedHours p) (\<lambda>r p1.
       case r of
         None \<Rightarrow> Throw ''Expected HH:MM time'' (pos p1)
       | Some hm \<Rightarrow> Ok hm p1)"

definition parseSolarOffset :: "nat \<Rightarrow> parser \<Rightarrow> OsmTimePoint res" where
  "parseSolarOffset saved p =
     (case readWord p of
        (word, p1) \<Rightarrow>
          (case Option.bind word (\<lambda>w. SOLAR_MAP (toLowerCase w)) of
             None \<Rightarrow>
               Throw (''Expected solar event (dawn, sunrise, sunset, dusk) after '' @ quoted ''('')
                 saved
           | Some event \<Rightarrow>
               let p2 = skipWhitespace p1; sign = peekChar p2
               in if sign \<noteq> Some (CHR ''+'') \<and> sign \<noteq> Some (CHR ''-'')
                  then Throw (''Expected '' @ quoted ''+'' @ '' or '' @ quoted ''-''
                         @ '' offset after solar event inside '' @ quoted ''('') (pos p2)
                  else
                    bindRes (parseHourMinute False (advance 1 p2)) (\<lambda>hm p3.
                      case matchChar (CHR '')'') p3 of
                        (False, p4) \<Rightarrow>
                          Throw (''Expected '' @ quoted '')'' @ '' after solar event offset'') (pos p4)
                      | (True, p4) \<Rightarrow>
                          let total = int (fst hm * 60 + snd hm)
                          in Ok (Variable event
                                  (Some (if sign = Some (CHR ''-'') then - total else total))) p4)))"

definition tryParseTimePoint :: "bool \<Rightarrow> parser \<Rightarrow> OsmTimePoint option res" where
  "tryParseTimePoint allowExtendedHours p =
     (let p0 = skipWhitespace p
      in case matchChar (CHR ''('') p0 of
           (True, p1) \<Rightarrow> someRes (parseSolarOffset (pos p0) p1)
         | (False, p1) \<Rightarrow>
             (case Option.bind (peekWord p1) (\<lambda>w. SOLAR_MAP (toLowerCase w)) of
                Some event \<Rightarrow> Ok (Some (Variable event None)) (snd (readWord p1))
              | None \<Rightarrow>
                  bindRes (tryParseHourMinute allowExtendedHours p1) (\<lambda>r p2.
                    case r of
                      None \<Rightarrow> Ok None p0
                    | Some (h, m) \<Rightarrow> Ok (Some (Clock h m)) p2)))"

definition parseIntervalMinutes :: "parser \<Rightarrow> nat res" where
  "parseIntervalMinutes p =
     (case readUnsignedInt p of
        (None, _) \<Rightarrow> Throw (''Expected interval after '' @ quoted ''/'') (pos p)
      | (Some (v, _), p1) \<Rightarrow>
          if peekChar p1 = Some (CHR '':'')
          then
            (case readUnsignedInt (advance 1 p1) of
               (None, _) \<Rightarrow> Throw (''Invalid HH:MM interval after '' @ quoted ''/'') (pos p)
             | (Some (m, mDigits, _), p2) \<Rightarrow>
                 if mDigits \<noteq> 2 \<or> m > 59
                 then Throw (''Invalid HH:MM interval after '' @ quoted ''/'') (pos p)
                 else if v * 60 + m < 1 then Throw ''Interval must be at least 1 minute'' (pos p)
                 else Ok (v * 60 + m) p2)
          else if v < 1 then Throw ''Interval must be at least 1 minute'' (pos p)
          else Ok v p1)"

definition tryParseTimeSelector :: "parser \<Rightarrow> OsmTimeSelector option res" where
  "tryParseTimeSelector p =
     bindRes (tryParseTimePoint False p) (\<lambda>r p1.
       case r of
         None \<Rightarrow> Ok None p1
       | Some from \<Rightarrow>
           (case matchChar (CHR ''-'') p1 of
              (True, p2) \<Rightarrow>
                bindRes (tryParseTimePoint True p2) (\<lambda>r2 p3.
                  case r2 of
                    None \<Rightarrow>
                      Throw (''Expected end time after '' @ quoted ''-'' @ '' in time range'') (pos p3)
                  | Some to \<Rightarrow>
                      (case matchChar (CHR ''+'') p3 of
                         (True, p4) \<Rightarrow>
                           Ok (Some \<lparr>timeFrom = from, timeTo = Some to, timeOpenEnd = True,
                                     intervalMinutes = None\<rparr>) p4
                       | (False, p4) \<Rightarrow>
                           (case matchChar (CHR ''/'') p4 of
                              (True, p5) \<Rightarrow>
                                bindRes (parseIntervalMinutes p5) (\<lambda>i p6.
                                  Ok (Some \<lparr>timeFrom = from, timeTo = Some to,
                                            timeOpenEnd = False, intervalMinutes = Some i\<rparr>) p6)
                            | (False, p5) \<Rightarrow>
                                Ok (Some \<lparr>timeFrom = from, timeTo = Some to,
                                          timeOpenEnd = False, intervalMinutes = None\<rparr>) p5)))
            | (False, p2) \<Rightarrow>
                (case matchChar (CHR ''+'') p2 of
                   (True, p3) \<Rightarrow>
                     Ok (Some \<lparr>timeFrom = from, timeTo = None, timeOpenEnd = True,
                               intervalMinutes = None\<rparr>) p3
                 | (False, p3) \<Rightarrow>
                     Ok (Some \<lparr>timeFrom = from, timeTo = None, timeOpenEnd = False,
                               intervalMinutes = None\<rparr>) p3)))"

definition parseTimeSelectors :: "nat \<Rightarrow> parser \<Rightarrow> OsmTimeSelector list res" where
  "parseTimeSelectors fuel p =
     commaLoop tryParseTimeSelector (seesItem tryParseTimeSelector) fuel [] p"

section \<open>Rules\<close>

definition parseOptionalModifierAndComment ::
  "parser \<Rightarrow> (OsmRuleModifier option \<times> string option) res"
where
  "parseOptionalModifierAndComment p =
     (let mo = Option.bind (peekWord p) (\<lambda>w. MODIFIER_MAP (toLowerCase w));
          p1 = (if mo = None then p else snd (readWord p));
          p2 = skipWhitespace p1
      in if peekChar p2 = Some (CHR 0x22)
         then bindRes (parseCommentString p2) (\<lambda>c p3. Ok (mo, Some c) p3)
         else Ok (mo, None) p2)"

definition parseRangeComment :: "parser \<Rightarrow> string option res" where
  "parseRangeComment p =
     (if peekChar p = Some (CHR 0x22)
      then bindRes (parseCommentString p) (\<lambda>c p1.
             case matchChar (CHR '':'') (skipWhitespace p1) of
               (True, p2) \<Rightarrow> Ok (Some c) p2
             | (False, _) \<Rightarrow> Ok None p)
      else Ok None p)"

definition starts24_7 :: "parser \<Rightarrow> bool" where
  "starts24_7 p \<longleftrightarrow>
     take 4 (rest p) = ''24/7'' \<and>
     (case drop 4 (rest p) of
        [] \<Rightarrow> True
      | c # _ \<Rightarrow> isJsSpace c \<or> c = CHR '';'' \<or> c = CHR '','' \<or> c = CHR ''|'' \<or> c = CHR 0x22)"

definition hasAnyContent :: "OsmOpeningHoursRule \<Rightarrow> bool" where
  "hasAnyContent r \<longleftrightarrow>
     is24_7 r \<or> rangeComment r \<noteq> None \<or> years r \<noteq> [] \<or> months r \<noteq> [] \<or> weeks r \<noteq> [] \<or>
     weekdays r \<noteq> [] \<or> times r \<noteq> [] \<or> modifier r \<noteq> None \<or> comment r \<noteq> None"

definition parseRule :: "nat \<Rightarrow> OsmRuleSeparator \<Rightarrow> parser \<Rightarrow> OsmOpeningHoursRule res" where
  "parseRule fuel sep p =
     (let p0 = skipWhitespace p
      in bindRes (parseRangeComment p0) (\<lambda>rc p1'.
         let p1 = skipWhitespace p1'
         in if starts24_7 p1
            then bindRes (parseOptionalModifierAndComment (advance 4 p1)) (\<lambda>mc p2.
                   Ok \<lparr>separator = sep, is24_7 = True, rangeComment = rc, years = [], months = [],
                       weeks = [], colonAfterWideRange = False, weekdays = [], times = [],
                       modifier = fst mc, comment = snd mc\<rparr> p2)
            else
              bindRes (parseYearSelectors fuel p1) (\<lambda>ys p2.
              bindRes (parseMonthdaySelectors fuel p2) (\<lambda>ms p3.
              bindRes (parseWeekSelectors fuel p3) (\<lambda>ws p4.
              case (if ys \<noteq> [] \<or> ms \<noteq> [] \<or> ws \<noteq> [] then matchChar (CHR '':'') p4 else (False, p4)) of
                (colon, p5) \<Rightarrow>
                  bindRes (parseWeekdaySelectors fuel p5) (\<lambda>wds p6.
                  bindRes (parseTimeSelectors fuel p6) (\<lambda>ts p7.
                  bindRes (parseOptionalModifierAndComment p7) (\<lambda>mc p8.
                    let r = \<lparr>separator = sep, is24_7 = False, rangeComment = rc, years = ys,
                             months = ms, weeks = ws, colonAfterWideRange = colon, weekdays = wds,
                             times = ts, modifier = fst mc, comment = snd mc\<rparr>
                    in if hasAnyContent r then Ok r p8
                       else Throw (''Unexpected token near '' @ quoted (take 16 (rest p0)))
                              (pos p0)))))))))"

section \<open>Documents\<close>

definition parseSeparator :: "parser \<Rightarrow> OsmRuleSeparator res" where
  "parseSeparator p =
     (case matchLiteral ''||'' p of
        (True, p1) \<Rightarrow> Ok Fallback p1
      | (False, p1) \<Rightarrow>
          (case matchChar (CHR '';'') p1 of
             (True, p2) \<Rightarrow> Ok Semicolon p2
           | (False, p2) \<Rightarrow>
               (case matchChar (CHR '','') p2 of
                  (True, p3) \<Rightarrow> Ok Comma p3
                | (False, p3) \<Rightarrow>
                    Throw (''Expected rule separator ('' @ quoted '';'' @ '', '' @ quoted '',''
                      @ '', or '' @ quoted ''||'' @ '') near '' @ quoted (take 12 (rest p3)))
                      (pos p3))))"

fun documentLoop ::
  "nat \<Rightarrow> OsmRuleSeparator \<Rightarrow> OsmOpeningHoursRule list \<Rightarrow> parser \<Rightarrow> OsmOpeningHoursDocument res"
where
  "documentLoop 0 sep acc p = Diverge"
| "documentLoop (Suc fuel) sep acc p =
     (if isAtEnd p then Ok acc p
      else
        bindRes (parseRule (Suc fuel) sep p) (\<lambda>r p1.
          let p2 = skipWhitespace p1
          in if isAtEnd p2 then Ok (acc @ [r]) p2
             else
               bindRes (parseSeparator p2) (\<lambda>sep' p3.
                 let p4 = skipWhitespace p3
                 in if isAtEnd p4 then Throw ''Trailing rule separator is not allowed'' (pos p4)
                    else documentLoop fuel sep' (acc @ [r]) p4)))"

definition parseDocument :: "nat \<Rightarrow> parser \<Rightarrow> OsmOpeningHoursDocument res" where
  "parseDocument fuel p =
     (let p1 = skipWhitespace p
      in if isAtEnd p1 then Throw ''Opening hours must not be empty'' 0
         else documentLoop fuel Semicolon [] p1)"

end
