(* ===== verification/Opening_Hours_Serializer.thy ===== *)
theory Opening_Hours_Serializer
  imports Opening_Hours_Parser
begin

text \<open>
  The serializer of \<open>packages/core/src/utils/osmOpeningHoursAst.ts\<close> (\<open>serializeYearRange\<close> to
  \<open>serializeOsmOpeningHours\<close>), the exported entry point \<open>parseOsmOpeningHours\<close>, and the editor
  helpers \<open>extractSimpleWeekdaySelection\<close>, \<open>buildSimpleWeekdaySelectors\<close> and
  \<open>createDefaultOpeningHoursRule\<close>.
\<close>

section \<open>Serialising selectors\<close>

definition pad2 :: "nat \<Rightarrow> string" where
  "pad2 n = padStart 2 (CHR ''0'') (showNat n)"

definition escapeComment :: "string \<Rightarrow> string" where
  "escapeComment s =
     concat (map (\<lambda>c. if c = CHR 0x22 then [CHR 0x5C, CHR 0x22] else [c])
       (concat (map (\<lambda>c. if c = CHR 0x5C then [CHR 0x5C, CHR 0x5C] else [c]) s)))"

definition stepText :: "nat option \<Rightarrow> string" where
  "stepText st = (case st of None \<Rightarrow> [] | Some s \<Rightarrow> if s > 1 then ''/'' @ showNat s else [])"

definition serializeYearRange :: "OsmYearRange \<Rightarrow> string" where
  "serializeYearRange yr =
     showNat (yearFrom yr) @
     (case yearTo yr of
        Some t \<Rightarrow> ''-'' @ showNat t @ stepText (yearStep yr)
      | None \<Rightarrow> if yearOpenEnd yr then ''+'' else stepText (yearStep yr))"

definition daysText :: "int \<Rightarrow> string" where
  "daysText d =
     (if d > 0 then ''+'' else ''-'') @ showNat (nat \<bar>d\<bar>) @
     (if \<bar>d\<bar> = 1 then '' day'' else '' days'')"

definition serializeDateOffset :: "OsmDateOffset option \<Rightarrow> string" where
  "serializeDateOffset off =
     (case off of
        None \<Rightarrow> []
      | Some o' \<Rightarrow>
          let parts =
            (case weekdayOffset o' of
               None \<Rightarrow> []
             | Some (positive, wd) \<Rightarrow> [(if positive then ''+'' else ''-'') @ weekdayText wd]) @
            (case offsetDays o' of
               None \<Rightarrow> []
             | Some d \<Rightarrow> if d \<noteq> 0 then [daysText d] else [])
          in if parts \<noteq> [] then '' '' @ join '' '' parts else [])"

definition yearPrefix :: "nat option \<Rightarrow> string" where
  "yearPrefix y = (case y of None \<Rightarrow> [] | Some n \<Rightarrow> showNat n @ '' '')"

fun serializeDateEndpoint :: "OsmDateEndpoint \<Rightarrow> string" where
  "serializeDateEndpoint (Easter y) = yearPrefix y @ ''easter''"
| "serializeDateEndpoint (NthWeekday y m wd n) =
     yearPrefix y @ monthText m @ '' '' @ weekdayText wd @ ''['' @ showInt n @ '']''"
| "serializeDateEndpoint (Calendar y m d) = yearPrefix y @ monthText m @ '' '' @ pad2 d"

fun canShortenSameMonth ::
  "OsmDateEndpoint \<Rightarrow> OsmDateOffset option \<Rightarrow> OsmDateEndpoint \<Rightarrow> nat option"
where
  "canShortenSameMonth (Calendar _ m _) None (Calendar None m' d) = (if m = m' then Some d else None)"
| "canShortenSameMonth _ _ _ = None"

fun serializeMonthdayRange :: "OsmMonthdayRange \<Rightarrow> string" where
  "serializeMonthdayRange (Months y from to) =
     yearPrefix y @ monthText from @ (case to of None \<Rightarrow> [] | Some t \<Rightarrow> ''-'' @ monthText t)"
| "serializeMonthdayRange (Dates from fromOffset to toOffset openEnd) =
     serializeDateEndpoint from @ serializeDateOffset fromOffset @
     (if openEnd then ''+''
      else case to of
        None \<Rightarrow> []
      | Some t \<Rightarrow>
          (case canShortenSameMonth from fromOffset t of
             Some d \<Rightarrow> ''-'' @ pad2 d @ serializeDateOffset toOffset
           | None \<Rightarrow> ''-'' @ serializeDateEndpoint t @ serializeDateOffset toOffset))"

definition serializeWeekRange :: "OsmWeekRange \<Rightarrow> string" where
  "serializeWeekRange wk =
     pad2 (weekFrom wk) @
     (case weekTo wk of None \<Rightarrow> [] | Some t \<Rightarrow> ''-'' @ pad2 t @ stepText (weekStep wk))"

definition serializeDayOffset :: "int option \<Rightarrow> string" where
  "serializeDayOffset off =
     (case off of None \<Rightarrow> [] | Some d \<Rightarrow> if d = 0 then [] else '' '' @ daysText d)"

definition serializeNthEntry :: "OsmNthEntry \<Rightarrow> string" where
  "serializeNthEntry e =
     showInt (nthFrom e) @ (case nthTo e of None \<Rightarrow> [] | Some t \<Rightarrow> ''-'' @ showInt t)"

fun serializeWeekdayItem :: "OsmWeekdaySelectorItem \<Rightarrow> string" where
  "serializeWeekdayItem (HolidayItem h off _) =
     holidayText h @ (if h = PH then serializeDayOffset off else [])"
| "serializeWeekdayItem (WeekdayItem from to ns off) =
     weekdayText from @
     (case to of
        Some t \<Rightarrow> ''-'' @ weekdayText t
      | None \<Rightarrow>
          (case ns of
             None \<Rightarrow> []
           | Some es \<Rightarrow> if es = [] then [] else ''['' @ join '','' (map serializeNthEntry es) @ '']'') @
          serializeDayOffset off)"

fun joinsWithSpace :: "OsmWeekdaySelectorItem \<Rightarrow> bool" where
  "joinsWithSpace (HolidayItem _ _ andWithNext) = andWithNext"
| "joinsWithSpace _ = False"

fun serializeWeekdayTail :: "OsmWeekdaySelectorItem \<Rightarrow> OsmWeekdaySelectorItem list \<Rightarrow> string" where
  "serializeWeekdayTail prev [] = []"
| "serializeWeekdayTail prev (i # is) =
     (if joinsWithSpace prev then '' '' else '','') @ serializeWeekdayItem i @
     serializeWeekdayTail i is"

fun serializeWeekdaySelectors :: "OsmWeekdaySelectorItem list \<Rightarrow> string" where
  "serializeWeekdaySelectors [] = []"
| "serializeWeekdaySelectors (i # is) = serializeWeekdayItem i @ serializeWeekdayTail i is"

fun serializeTimePoint :: "OsmTimePoint \<Rightarrow> string" where
  "serializeTimePoint (Clock h m) = pad2 h @ '':'' @ pad2 m"
| "serializeTimePoint (Variable event off) =
     (case off of
        None \<Rightarrow> solarText event
      | Some d \<Rightarrow>
          if d = 0 then solarText event
          else ''('' @ solarText event @ (if d > 0 then ''+'' else ''-'') @
               pad2 (nat \<bar>d\<bar> div 60) @ '':'' @ pad2 (nat \<bar>d\<bar> mod 60) @ '')'')"

definition serializeTimeSelector :: "OsmTimeSelector \<Rightarrow> string" where
  "serializeTimeSelector ts =
     serializeTimePoint (timeFrom ts) @
     (case timeTo ts of
        Some t \<Rightarrow>
          ''-'' @ serializeTimePoint t @
          (if timeOpenEnd ts then ''+''
           else case intervalMinutes ts of
                  None \<Rightarrow> []
                | Some i \<Rightarrow>
                    if i = 0 then []
                    else if i < 60 then ''/'' @ showNat i
                    else ''/'' @ pad2 (i div 60) @ '':'' @ pad2 (i mod 60))
      | None \<Rightarrow> if timeOpenEnd ts then ''+'' else [])"

section \<open>Serialising rules and documents\<close>

definition quotedComment :: "string \<Rightarrow> string" where
  "quotedComment c = [CHR 0x22] @ escapeComment c @ [CHR 0x22]"

definition modifierParts :: "OsmOpeningHoursRule \<Rightarrow> string list" where
  "modifierParts r =
     (case modifier r of None \<Rightarrow> [] | Some m \<Rightarrow> [modifierText m]) @
     (case comment r of None \<Rightarrow> [] | Some c \<Rightarrow> [quotedComment c])"

definition wideParts :: "OsmOpeningHoursRule \<Rightarrow> string list" where
  "wideParts r =
     (if years r \<noteq> [] then [join '','' (map serializeYearRange (years r))] else []) @
     (if months r \<noteq> [] then [join '','' (map serializeMonthdayRange (months r))] else []) @
     (if weeks r \<noteq> [] then [''week '' @ join '','' (map serializeWeekRange (weeks r))] else [])"

definition serializeOsmOpeningHoursRule :: "OsmOpeningHoursRule \<Rightarrow> string" where
  "serializeOsmOpeningHoursRule r =
     (let head = (case rangeComment r of None \<Rightarrow> [] | Some c \<Rightarrow> [quotedComment c @ '':''])
      in if is24_7 r then join '' '' (head @ [''24/7''] @ modifierParts r)
         else
           let wide = wideParts r;
               weekdayStr = serializeWeekdaySelectors (weekdays r)
           in join '' ''
                (head @
                 (if wide \<noteq> []
                  then [join '' '' wide @ (if colonAfterWideRange r then '':'' else [])] else []) @
                 (if weekdayStr \<noteq> [] then [weekdayStr] else []) @
                 (if times r \<noteq> [] then [join '','' (map serializeTimeSelector (times r))] else []) @
                 modifierParts r))"

fun separatorText :: "OsmRuleSeparator \<Rightarrow> string" where
  "separatorText Fallback = '' || ''"
| "separatorText Comma = '', ''"
| "separatorText Semicolon = ''; ''"

fun serializeRules :: "string \<Rightarrow> OsmOpeningHoursRule list \<Rightarrow> string" where
  "serializeRules out [] = out"
| "serializeRules out (r # rs) =
     (let body = serializeOsmOpeningHoursRule r
      in serializeRules
           (if body = [] then out
            else if out = [] then body
            else out @ separatorText (separator r) @ body) rs)"

definition serializeOsmOpeningHours :: "OsmOpeningHoursDocument \<Rightarrow> string" where
  "serializeOsmOpeningHours doc = (if doc = [] then [] else serializeRules [] doc)"

text \<open>The exported entry point. \<open>None\<close> is a call that does not return within the fuel.\<close>

definition parseOsmOpeningHours :: "nat \<Rightarrow> string \<Rightarrow> OsmOpeningHoursParseResult option" where
  "parseOsmOpeningHours fuel input =
     (case parseDocument fuel (Parser input 0) of
        Diverge \<Rightarrow> None
      | Throw m n \<Rightarrow> Some (ParseFail m n)
      | Ok document _ \<Rightarrow>
          let canonical = serializeOsmOpeningHours document
          in if canonical = [] then Some (ParseFail ''Opening hours must not be empty'' 0)
             else Some (ParseOk document canonical))"

section \<open>The editor's simple weekday selection\<close>

record SimpleWeekdaySelection =
  selWeekdays :: "OsmWeekday list"
  includePH :: bool
  includeSH :: bool
  shAndMode :: bool

fun dayIndex :: "OsmWeekday \<Rightarrow> nat" where
  "dayIndex Mo = 0" | "dayIndex Tu = 1" | "dayIndex We = 2" | "dayIndex Th = 3"
| "dayIndex Fr = 4" | "dayIndex Sa = 5" | "dayIndex Su = 6"

definition nonzero :: "int option \<Rightarrow> bool" where
  "nonzero off = (case off of None \<Rightarrow> False | Some d \<Rightarrow> d \<noteq> 0)"

fun extractLoop ::
  "OsmWeekday set \<Rightarrow> bool \<Rightarrow> bool \<Rightarrow> bool \<Rightarrow> OsmWeekdaySelectorItem list \<Rightarrow>
   (OsmWeekday set \<times> bool \<times> bool \<times> bool) option"
where
  "extractLoop sel ph sh andMode [] = Some (sel, ph, sh, andMode)"
| "extractLoop sel ph sh andMode (HolidayItem h off andNext # is) =
     (if nonzero off then None
      else if h = PH
      then (if andNext then None else extractLoop sel True sh andMode is)
      else extractLoop sel ph True (andMode \<or> andNext) is)"
| "extractLoop sel ph sh andMode (WeekdayItem from to ns off # is) =
     (if (case ns of None \<Rightarrow> False | Some es \<Rightarrow> es \<noteq> []) \<or> nonzero off then None
      else
        (case to of
           None \<Rightarrow> extractLoop (insert from sel) ph sh andMode is
         | Some t \<Rightarrow>
             if dayIndex t < dayIndex from then None
             else extractLoop
                    (sel \<union> set (take (Suc (dayIndex t) - dayIndex from)
                                  (drop (dayIndex from) OSM_WEEKDAYS)))
                    ph sh andMode is))"

definition extractSimpleWeekdaySelection ::
  "OsmWeekdaySelectorItem list \<Rightarrow> SimpleWeekdaySelection option"
where
  "extractSimpleWeekdaySelection items =
     (case extractLoop {} False False False items of
        None \<Rightarrow> None
      | Some (sel, ph, sh, andMode) \<Rightarrow>
          Some \<lparr>selWeekdays = filter (\<lambda>w. w \<in> sel) OSM_WEEKDAYS, includePH = ph, includeSH = sh,
                shAndMode = andMode\<rparr>)"

text \<open>The inner loop of the compaction: the last day of the run of consecutive days.\<close>

fun spanEnd :: "OsmWeekday \<Rightarrow> OsmWeekday list \<Rightarrow> OsmWeekday \<times> OsmWeekday list" where
  "spanEnd cur [] = (cur, [])"
| "spanEnd cur (d # ds) =
     (if dayIndex d = Suc (dayIndex cur) then spanEnd d ds else (cur, d # ds))"

lemma spanEnd_length: "spanEnd c ds = (e, ds') \<Longrightarrow> length ds' \<le> length ds"
  by (induction c ds rule: spanEnd.induct) (auto split: if_splits)

function compactDays :: "OsmWeekday list \<Rightarrow> OsmWeekdaySelectorItem list" where
  "compactDays [] = []"
| "compactDays (d # ds) =
     (case spanEnd d ds of
        (e, ds') \<Rightarrow>
          (if e = d then WeekdayItem d None None None else WeekdayItem d (Some e) None None) #
          compactDays ds')"
  by pat_completeness auto
termination
  by (relation "measure length") (auto dest!: spanEnd_length [OF sym])

definition buildSimpleWeekdaySelectors ::
  "SimpleWeekdaySelection \<Rightarrow> OsmWeekdaySelectorItem list"
where
  "buildSimpleWeekdaySelectors s =
     (let ordered = filter (\<lambda>w. w \<in> set (selWeekdays s)) OSM_WEEKDAYS;
          weekdayItems = compactDays ordered
      in (if includeSH s \<and> shAndMode s \<and> weekdayItems \<noteq> [] then [HolidayItem SH None True] else []) @
         weekdayItems @
         (if includeSH s \<and> (\<not> shAndMode s \<or> weekdayItems = []) then [HolidayItem SH None False]
          else []) @
         (if includePH s then [HolidayItem PH None False] else []))"

definition createDefaultOpeningHoursRule :: "OsmRuleSeparator \<Rightarrow> OsmOpeningHoursRule" where
  "createDefaultOpeningHoursRule sep =
     \<lparr>separator = sep, is24_7 = False, rangeComment = None, years = [], months = [], weeks = [],
      colonAfterWideRange = False, weekdays = [WeekdayItem Mo (Some Fr) None None],
      times = [\<lparr>timeFrom = Clock 9 0, timeTo = Some (Clock 17 0), timeOpenEnd = False,
                intervalMinutes = None\<rparr>],
      modifier = None, comment = None\<rparr>"

end
