(* ===== verification/Opening_Hours_Logic.thy ===== *)
theory Opening_Hours_Logic
  imports Opening_Hours_Serializer
begin

text \<open>
  A program logic for the opening-hours parser. \<open>inside s p\<close> says that the cursor \<open>p\<close> stands in
  the input \<open>s\<close>; \<open>spec dv s n P r\<close> says of a result \<open>r\<close> that a returned value satisfies \<open>P\<close> with
  the cursor inside \<open>s\<close> and not before \<open>n\<close>, that an error position lies in \<open>s\<close>, and that a loop
  may only have been cut off when \<open>dv\<close> allows it. The rules in \<open>parser_good\<close> decompose every
  method of the parser, so one proof per method gives its bounds, its result invariant and its
  termination.
\<close>

section \<open>What the parser promises of its results\<close>

definition wfNth :: "int \<Rightarrow> bool" where
  "wfNth n \<longleftrightarrow> - 5 \<le> n \<and> n \<le> 5 \<and> n \<noteq> 0"

definition wfNthEntry :: "OsmNthEntry \<Rightarrow> bool" where
  "wfNthEntry e \<longleftrightarrow> wfNth (nthFrom e) \<and>
     (\<forall>t. nthTo e = Some t \<longrightarrow> 0 < nthFrom e \<and> nthFrom e \<le> t \<and> t \<le> 5)"

definition wfYearRange :: "OsmYearRange \<Rightarrow> bool" where
  "wfYearRange y \<longleftrightarrow> 1900 < yearFrom y \<and>
     (\<forall>t. yearTo y = Some t \<longrightarrow> yearFrom y \<le> t) \<and>
     (\<forall>st. yearStep y = Some st \<longrightarrow> 1 \<le> st) \<and>
     (yearOpenEnd y \<longrightarrow> yearTo y = None \<and> yearStep y = None)"

definition wfYearOpt :: "nat option \<Rightarrow> bool" where
  "wfYearOpt y \<longleftrightarrow> (\<forall>n. y = Some n \<longrightarrow> 1900 < n)"

definition wfDays :: "int option \<Rightarrow> bool" where
  "wfDays d \<longleftrightarrow> d \<noteq> Some 0"

definition wfDateOffset :: "OsmDateOffset option \<Rightarrow> bool" where
  "wfDateOffset off \<longleftrightarrow>
     (\<forall>d. off = Some d \<longrightarrow> wfDays (offsetDays d) \<and> (weekdayOffset d \<noteq> None \<or> offsetDays d \<noteq> None))"

fun wfEndpoint :: "OsmDateEndpoint \<Rightarrow> bool" where
  "wfEndpoint (Calendar y m d) \<longleftrightarrow> wfYearOpt y \<and> 1 \<le> d \<and> d \<le> 31"
| "wfEndpoint (NthWeekday y m wd n) \<longleftrightarrow> wfYearOpt y \<and> wfNth n"
| "wfEndpoint (Easter y) \<longleftrightarrow> wfYearOpt y"

fun wfMonthday :: "OsmMonthdayRange \<Rightarrow> bool" where
  "wfMonthday (Months y from to) \<longleftrightarrow> wfYearOpt y"
| "wfMonthday (Dates from fo to toff openEnd) \<longleftrightarrow>
     wfEndpoint from \<and> wfDateOffset fo \<and> (\<forall>t. to = Some t \<longrightarrow> wfEndpoint t) \<and> wfDateOffset toff \<and>
     (openEnd \<longrightarrow> to = None) \<and> (to = None \<longrightarrow> toff = None)"

definition wfWeekRange :: "OsmWeekRange \<Rightarrow> bool" where
  "wfWeekRange w \<longleftrightarrow> 1 \<le> weekFrom w \<and> weekFrom w \<le> 53 \<and>
     (\<forall>t. weekTo w = Some t \<longrightarrow> 1 \<le> t \<and> t \<le> 53) \<and>
     (\<forall>st. weekStep w = Some st \<longrightarrow> 1 \<le> st \<and> weekTo w \<noteq> None)"

fun wfWeekdayItem :: "OsmWeekdaySelectorItem \<Rightarrow> bool" where
  "wfWeekdayItem (WeekdayItem from to ns off) \<longleftrightarrow>
     (to \<noteq> None \<longrightarrow> ns = None \<and> off = None) \<and>
     (\<forall>es. ns = Some es \<longrightarrow> es \<noteq> [] \<and> (\<forall>e \<in> set es. wfNthEntry e)) \<and> wfDays off"
| "wfWeekdayItem (HolidayItem h off andNext) \<longleftrightarrow> wfDays off \<and> (h = SH \<longrightarrow> off = None)"

fun wfTimePoint :: "bool \<Rightarrow> OsmTimePoint \<Rightarrow> bool" where
  "wfTimePoint ext (Clock h m) \<longleftrightarrow> m \<le> 59 \<and> h * 60 + m \<le> (if ext then 48 else 24) * 60"
| "wfTimePoint ext (Variable ev off) \<longleftrightarrow> (\<forall>d. off = Some d \<longrightarrow> \<bar>d\<bar> \<le> 24 * 60)"

definition wfTimeSelector :: "OsmTimeSelector \<Rightarrow> bool" where
  "wfTimeSelector t \<longleftrightarrow> wfTimePoint False (timeFrom t) \<and>
     (\<forall>e. timeTo t = Some e \<longrightarrow> wfTimePoint True e) \<and>
     (\<forall>i. intervalMinutes t = Some i \<longrightarrow> 1 \<le> i \<and> timeTo t \<noteq> None \<and> \<not> timeOpenEnd t)"

definition wfRule :: "OsmOpeningHoursRule \<Rightarrow> bool" where
  "wfRule r \<longleftrightarrow> hasAnyContent r \<and>
     (\<forall>y \<in> set (years r). wfYearRange y) \<and> (\<forall>m \<in> set (months r). wfMonthday m) \<and>
     (\<forall>w \<in> set (weeks r). wfWeekRange w) \<and> (\<forall>d \<in> set (weekdays r). wfWeekdayItem d) \<and>
     (\<forall>t \<in> set (times r). wfTimeSelector t) \<and>
     (colonAfterWideRange r \<longrightarrow> years r \<noteq> [] \<or> months r \<noteq> [] \<or> weeks r \<noteq> []) \<and>
     (is24_7 r \<longrightarrow> years r = [] \<and> months r = [] \<and> weeks r = [] \<and> weekdays r = [] \<and> times r = [])"

definition wfDocument :: "OsmOpeningHoursDocument \<Rightarrow> bool" where
  "wfDocument d \<longleftrightarrow> d \<noteq> [] \<and> separator (hd d) = Semicolon \<and> (\<forall>r \<in> set d. wfRule r)"

section \<open>The logic\<close>

text \<open>Inputs whose only white space is what \<open>skipWhitespace\<close> skips.\<close>

definition clean :: "string \<Rightarrow> bool" where
  "clean s \<longleftrightarrow> (\<forall>c \<in> set s. isJsSpace c \<longrightarrow> isSkipSpace c)"

definition inside :: "string \<Rightarrow> parser \<Rightarrow> bool" where
  "inside s p \<longleftrightarrow> pos p \<le> length s \<and> rest p = drop (pos p) s"

definition spec :: "bool \<Rightarrow> string \<Rightarrow> nat \<Rightarrow> ('a \<Rightarrow> bool) \<Rightarrow> 'a res \<Rightarrow> bool" where
  "spec dv s n P r =
     (case r of
        Ok a q \<Rightarrow> P a \<and> inside s q \<and> n \<le> pos q
      | Throw _ k \<Rightarrow> k \<le> length s
      | Diverge \<Rightarrow> dv)"

lemma inside_pos: "inside s p \<Longrightarrow> pos p \<le> length s"
  by (simp add: inside_def)

lemma inside_length: "inside s p \<Longrightarrow> length (rest p) = length s - pos p"
  by (simp add: inside_def)

lemma inside_advance [intro]:
  "inside s p \<Longrightarrow> k \<le> length (rest p) \<Longrightarrow> inside s (advance k p)"
  by (auto simp: inside_def advance_def add.commute)

lemma pos_advance [simp]: "pos (advance k p) = pos p + k"
  by (simp add: advance_def)

lemma rest_advance [simp]: "rest (advance k p) = drop k (rest p)"
  by (simp add: advance_def)

lemma peekChar_Some: "peekChar p = Some c \<Longrightarrow> 1 \<le> length (rest p)"
  by (auto simp: peekChar_def split: list.splits)

lemma length_takeWhile_le': "length (takeWhile P xs) \<le> length xs"
  by (induction xs) auto

lemma inside_skip [intro]: "inside s p \<Longrightarrow> inside s (skipWhitespace p)"
  by (auto simp: skipWhitespace_def length_takeWhile_le')

lemma pos_skip [intro, simp]: "pos p \<le> pos (skipWhitespace p)"
  by (simp add: skipWhitespace_def)

section \<open>Rules for values\<close>

lemma spec_Ok: "P a \<Longrightarrow> inside s q \<Longrightarrow> n \<le> pos q \<Longrightarrow> spec dv s n P (Ok a q)"
  by (simp add: spec_def)

lemma spec_Throw: "k \<le> length s \<Longrightarrow> spec dv s n P (Throw m k)"
  by (simp add: spec_def)

lemma spec_bind:
  assumes "spec dv s n Q r"
    and "\<And>a q. Q a \<Longrightarrow> inside s q \<Longrightarrow> n \<le> pos q \<Longrightarrow> spec dv s n P (f a q)"
  shows "spec dv s n P (bindRes r f)"
  using assms by (cases r) (auto simp: spec_def)

lemma spec_mono:
  "spec dv s n Q r \<Longrightarrow> (\<And>a. Q a \<Longrightarrow> P a) \<Longrightarrow> n' \<le> n \<Longrightarrow> spec dv s n' P r"
  by (cases r) (auto simp: spec_def)

lemma spec_someRes:
  "spec dv s n P r \<Longrightarrow> spec dv s n (pred_option P) (someRes r)"
  unfolding someRes_def by (cases r) (auto simp: spec_def)

lemma spec_if:
  "(b \<Longrightarrow> spec dv s n P x) \<Longrightarrow> (\<not> b \<Longrightarrow> spec dv s n P y) \<Longrightarrow> spec dv s n P (if b then x else y)"
  by simp

lemma spec_let: "spec dv s n P (f x) \<Longrightarrow> spec dv s n P (Let x f)"
  by simp

lemma spec_option:
  "(r = None \<Longrightarrow> spec dv s n P x) \<Longrightarrow> (\<And>a. r = Some a \<Longrightarrow> spec dv s n P (f a)) \<Longrightarrow>
   spec dv s n P (case r of None \<Rightarrow> x | Some a \<Rightarrow> f a)"
  by (cases r) auto

lemma spec_Some: "spec dv s n P (f a) \<Longrightarrow> spec dv s n P (case Some a of None \<Rightarrow> x | Some b \<Rightarrow> f b)"
  by simp

lemma spec_None: "spec dv s n P x \<Longrightarrow> spec dv s n P (case None of None \<Rightarrow> x | Some b \<Rightarrow> f b)"
  by simp

lemma spec_bool:
  "(b \<Longrightarrow> spec dv s n P x) \<Longrightarrow> (\<not> b \<Longrightarrow> spec dv s n P y) \<Longrightarrow>
   spec dv s n P (case b of True \<Rightarrow> x | False \<Rightarrow> y)"
  by (cases b) auto

lemma spec_tuple: "spec dv s n P (f a b) \<Longrightarrow> spec dv s n P (case (a, b) of (a, b) \<Rightarrow> f a b)"
  by simp

section \<open>Rules for the lexical methods\<close>

lemma inside_move:
  assumes "inside s p" and "k \<le> length (rest (skipWhitespace p))"
  shows "inside s (advance k (skipWhitespace p))"
    and "pos p \<le> pos (advance k (skipWhitespace p))"
    and "0 < k \<Longrightarrow> pos p < pos (advance k (skipWhitespace p))"
proof -
  show "inside s (advance k (skipWhitespace p))" using assms by auto
  have "pos p \<le> pos (skipWhitespace p)" by simp
  then show "pos p \<le> pos (advance k (skipWhitespace p))"
    and "0 < k \<Longrightarrow> pos p < pos (advance k (skipWhitespace p))" unfolding pos_advance by linarith+
qed

lemma matchChar_cases:
  "matchChar c p = (b, q) \<Longrightarrow>
     b \<and> 1 \<le> length (rest (skipWhitespace p)) \<and> q = advance 1 (skipWhitespace p) \<or>
     \<not> b \<and> q = skipWhitespace p"
  by (auto simp: matchChar_def Let_def dest: peekChar_Some split: if_splits)

lemma matchLiteral_cases:
  "matchLiteral lit p = (b, q) \<Longrightarrow>
     b \<and> length lit \<le> length (rest (skipWhitespace p)) \<and>
       q = advance (length lit) (skipWhitespace p) \<or>
     \<not> b \<and> q = skipWhitespace p"
  by (auto simp: matchLiteral_def Let_def split: if_splits) (metis length_take min.cobounded1)

lemma readWord_cases:
  "readWord p = (w, q) \<Longrightarrow>
     \<exists>k \<le> length (rest (skipWhitespace p)). q = advance k (skipWhitespace p) \<and> (w \<noteq> None \<longrightarrow> 0 < k)"
  by (auto simp: readWord_def Let_def advance_def split: if_splits
      intro: length_takeWhile_le' exI [where x = 0])

lemma readUnsignedInt_cases:
  "readUnsignedInt p = (r, q) \<Longrightarrow>
     \<exists>k \<le> length (rest (skipWhitespace p)). q = advance k (skipWhitespace p) \<and>
       (case r of None \<Rightarrow> True | Some (v, d, st) \<Rightarrow> 0 < k \<and> st = pos (skipWhitespace p))"
  by (auto simp: readUnsignedInt_def Let_def advance_def split: if_splits
      intro: length_takeWhile_le' exI [where x = 0])

lemma matchChar_inside:
  assumes "inside s p" and "matchChar c p = (b, q)"
  shows "inside s q" and "pos p \<le> pos q" and "b \<Longrightarrow> pos p < pos q"
  using matchChar_cases [OF assms(2)] inside_move [OF assms(1), of 1] inside_skip [OF assms(1)]
  by auto

lemma matchLiteral_inside:
  assumes "inside s p" and "matchLiteral lit p = (b, q)"
  shows "inside s q" and "pos p \<le> pos q" and "b \<Longrightarrow> lit \<noteq> [] \<Longrightarrow> pos p < pos q"
  using matchLiteral_cases [OF assms(2)] inside_move [OF assms(1), of "length lit"]
    inside_skip [OF assms(1)]
  by auto

lemma readWord_inside:
  assumes "inside s p" and "readWord p = (w, q)"
  shows "inside s q" and "pos p \<le> pos q" and "w \<noteq> None \<Longrightarrow> pos p < pos q"
  using readWord_cases [OF assms(2)] inside_move [OF assms(1)] by blast+

lemma readUnsignedInt_inside:
  assumes "inside s p" and "readUnsignedInt p = (r, q)"
  shows "inside s q" and "pos p \<le> pos q"
    and "r = Some (v, d, st) \<Longrightarrow> st \<le> length s \<and> pos p < pos q"
proof -
  obtain k where k: "k \<le> length (rest (skipWhitespace p))" "q = advance k (skipWhitespace p)"
    "case r of None \<Rightarrow> True | Some (v, d, st) \<Rightarrow> 0 < k \<and> st = pos (skipWhitespace p)"
    using readUnsignedInt_cases [OF assms(2)] by blast
  then show "inside s q" and "pos p \<le> pos q" using inside_move [OF assms(1)] by simp_all
  show "r = Some (v, d, st) \<Longrightarrow> st \<le> length s \<and> pos p < pos q"
    using k inside_move(3) [OF assms(1)] inside_pos [OF inside_skip [OF assms(1)]] by auto
qed

text \<open>The same facts as rules that push a specification through a call.\<close>

lemma spec_matchChar:
  assumes "inside s p"
    and "\<And>b q. inside s q \<Longrightarrow> pos p \<le> pos q \<Longrightarrow> (b \<longrightarrow> pos p < pos q) \<Longrightarrow> spec dv s n P (f b q)"
  shows "spec dv s n P (case matchChar c p of (b, q) \<Rightarrow> f b q)"
proof (cases "matchChar c p")
  case (Pair b q)
  then show ?thesis using assms(2) matchChar_inside [OF assms(1) Pair] by auto
qed

lemma spec_matchLiteral:
  assumes "inside s p"
    and "\<And>b q. inside s q \<Longrightarrow> pos p \<le> pos q \<Longrightarrow> (b \<and> lit \<noteq> [] \<longrightarrow> pos p < pos q) \<Longrightarrow>
           spec dv s n P (f b q)"
  shows "spec dv s n P (case matchLiteral lit p of (b, q) \<Rightarrow> f b q)"
proof (cases "matchLiteral lit p")
  case (Pair b q)
  then show ?thesis using assms(2) matchLiteral_inside [OF assms(1) Pair] by auto
qed

lemma spec_readWord:
  assumes "inside s p"
    and "\<And>w q. inside s q \<Longrightarrow> pos p \<le> pos q \<Longrightarrow> spec dv s n P (f w q)"
  shows "spec dv s n P (case readWord p of (w, q) \<Rightarrow> f w q)"
  using assms readWord_inside [OF assms(1)] by (cases "readWord p") auto

lemma inside_snd_readWord [intro]: "inside s p \<Longrightarrow> inside s (snd (readWord p))"
  using readWord_inside [of s p] by (cases "readWord p") auto

lemma pos_readWordI: "n \<le> pos p \<Longrightarrow> n \<le> pos (snd (readWord p))"
  using pos_skip [of p] by (auto simp: readWord_def Let_def simp del: pos_skip)

lemma spec_readUnsignedInt:
  assumes "inside s p"
    and "\<And>q. inside s q \<Longrightarrow> pos p \<le> pos q \<Longrightarrow> spec dv s n P (f None q)"
    and "\<And>v d st q. inside s q \<Longrightarrow> pos p < pos q \<Longrightarrow> st \<le> length s \<Longrightarrow>
           spec dv s n P (f (Some (v, d, st)) q)"
  shows "spec dv s n P (case readUnsignedInt p of (r, q) \<Rightarrow> f r q)"
proof (cases "readUnsignedInt p")
  case (Pair r q)
  then show ?thesis
    using assms readUnsignedInt_inside [OF assms(1) Pair] by (cases r) auto
qed

lemma spec_peekAdvance:
  "inside s p \<Longrightarrow> peekChar p = Some c \<Longrightarrow> inside s (advance (Suc 0) p)"
  using peekChar_Some by auto

lemma pos_skipD:
  "pos (skipWhitespace p) < k \<Longrightarrow> pos p < k"
  "pos (skipWhitespace p) \<le> k \<Longrightarrow> pos p \<le> k"
  "Suc (pos (skipWhitespace p)) < k \<Longrightarrow> pos p < k"
  "Suc (pos (skipWhitespace p)) \<le> k \<Longrightarrow> pos p < k"
  using pos_skip [of p] by linarith+

lemma pos_skipI: "n \<le> pos p \<Longrightarrow> n \<le> pos (skipWhitespace p)"
  using pos_skip [of p] by linarith

lemmas [parser_good] =
  spec_Ok spec_Throw spec_bind spec_someRes spec_if spec_let spec_option spec_bool spec_tuple
  spec_matchChar spec_matchLiteral spec_readWord spec_readUnsignedInt

lemma pos_readWordD:
  "pos (snd (readWord p)) < k \<Longrightarrow> pos p < k"
  "pos (snd (readWord p)) \<le> k \<Longrightarrow> pos p \<le> k"
  using pos_readWordI [of "pos p" p] by linarith+

lemmas parser_first = spec_Some spec_None

lemmas parser_bounds = inside_pos pos_skipD pos_readWordD

lemma pos_readAdvanceI: "n \<le> pos p \<Longrightarrow> n \<le> pos (snd (readWord (advance k (skipWhitespace p))))"
  using pos_skipI [of n p] by (intro pos_readWordI) simp

lemma pos_skip_le: "inside s p \<Longrightarrow> pos (skipWhitespace p) \<le> length s"
  by (intro inside_pos inside_skip)

lemma pos_peek_le: "inside s p \<Longrightarrow> peekChar p = Some c \<Longrightarrow> Suc (pos p) \<le> length s"
  using inside_pos [OF spec_peekAdvance] by simp

lemmas parser_steps = spec_peekAdvance pos_peek_le

lemmas parser_le = pos_skipI pos_readWordI pos_readAdvanceI le_SucI pos_skip_le

text \<open>Methods that cannot throw return a pair; \<open>lift\<close> reads it as a result.\<close>

definition lift :: "'a \<times> parser \<Rightarrow> 'a res" where
  "lift x = (case x of (a, p) \<Rightarrow> Ok a p)"

lemma lift_simps:
  "lift (a, p) = Ok a p"
  "lift (if b then x else y) = (if b then lift x else lift y)"
  "lift (Let z g) = Let z (\<lambda>v. lift (g v))"
  "lift (case_option x f r) = (case r of None \<Rightarrow> lift x | Some v \<Rightarrow> lift (f v))"
  "lift (case_prod h u) = (case u of (v, w) \<Rightarrow> lift (h v w))"
  by (simp_all add: lift_def split: option.splits prod.splits)

lemma spec_pairI:
  assumes "spec dv s n Q (lift x)"
    and "\<And>a q. Q a \<Longrightarrow> inside s q \<Longrightarrow> n \<le> pos q \<Longrightarrow> spec dv s n P (f a q)"
  shows "spec dv s n P (case x of (a, q) \<Rightarrow> f a q)"
  using assms by (cases x) (auto simp: lift_def spec_def)

end
