(* ===== verification/Opening_Hours_Total.thy ===== *)
theory Opening_Hours_Total
  imports Opening_Hours_Logic
begin

text \<open>
  Every method of the opening-hours parser satisfies its specification in the logic of
  \<open>Opening_Hours_Logic\<close>. The four selector loops are instances of one locale,
  \<open>comma_selectors\<close>: an item parser and a lookahead that meet their specifications give a loop
  that does, with fuel for each comma. The weekday loop is separate: it needs the input to be
  \<open>clean\<close>, because only then does reading a word the lookahead saw move the cursor.
\<close>

section \<open>Years, month days, weeks and comments\<close>

lemma wf_absent [simp]: "wfYearOpt None" "wfDateOffset None" "wfDays None"
  by (simp_all add: wfYearOpt_def wfDateOffset_def wfDays_def)

lemma spec_parseStep [parser_good]:
  "inside s p \<Longrightarrow> n \<le> pos p \<Longrightarrow> spec dv s n (\<lambda>v. 1 \<le> v) (parseStep msg p)"
  unfolding parseStep_def
  by (rule parser_first | rule parser_good | (auto dest: inside_pos)[1])+

lemma spec_tryParseYearRange [parser_good]:
  "inside s p \<Longrightarrow> n \<le> pos p \<Longrightarrow>
   spec dv s n (pred_option wfYearRange) (tryParseYearRange p)"
  unfolding tryParseYearRange_def
  by (rule parser_first | rule parser_good | (auto simp: wfYearRange_def dest: inside_pos)[1])+

lemma spec_parseSingleNthValue [parser_good]:
  "inside s p \<Longrightarrow> n \<le> pos p \<Longrightarrow> spec dv s n wfNth (parseSingleNthValue p)"
  unfolding parseSingleNthValue_def
  by (rule parser_first | rule parser_good | (auto simp: wfNth_def split: if_splits dest: inside_pos dest!: pos_skipD intro: parser_steps intro!: parser_le)[1])+

lemma spec_tryParseDayOffset:
  "inside s p \<Longrightarrow> n \<le> pos p \<Longrightarrow> spec dv s n wfDays (lift (tryParseDayOffset p))"
  unfolding tryParseDayOffset_def lift_simps
  by (rule parser_first | rule parser_good | (auto simp: wfDays_def dest: parser_bounds intro: parser_steps intro!: parser_le)[1])+

lemma spec_tryParseWeekdayOffset:
  "inside s p \<Longrightarrow> n \<le> pos p \<Longrightarrow> spec dv s n (\<lambda>_. True) (lift (tryParseWeekdayOffset p))"
  unfolding tryParseWeekdayOffset_def lift_simps
  by (rule parser_first | rule parser_good | (auto dest: parser_bounds intro: parser_steps intro!: parser_le)[1])+

lemma spec_tryParseDateOffset:
  "inside s p \<Longrightarrow> n \<le> pos p \<Longrightarrow> spec dv s n wfDateOffset (lift (tryParseDateOffset p))"
  unfolding tryParseDateOffset_def lift_simps
  by (rule parser_good spec_pairI [OF spec_tryParseWeekdayOffset]
        spec_pairI [OF spec_tryParseDayOffset] | (auto simp: wfDateOffset_def wfDays_def)[1])+

lemma spec_readLeadingYear:
  "inside s p \<Longrightarrow> n \<le> pos p \<Longrightarrow> spec dv s n wfYearOpt (lift (readLeadingYear p))"
  unfolding readLeadingYear_def lift_simps
  by (rule parser_first | rule parser_good | (auto simp: wfYearOpt_def)[1])+

lemmas spec_pairs [parser_good] =
  spec_pairI [OF spec_tryParseDayOffset] spec_pairI [OF spec_tryParseDateOffset]
  spec_pairI [OF spec_readLeadingYear]

lemma spec_tryParseNthWeekday [parser_good]:
  "inside s p \<Longrightarrow> n \<le> pos p \<Longrightarrow>
   spec dv s n (pred_option (\<lambda>(w, k). wfNth k)) (tryParseNthWeekday msg p)"
  unfolding tryParseNthWeekday_def
  by (rule parser_first | rule parser_good | (auto dest: parser_bounds intro: parser_steps intro!: parser_le)[1])+

lemma spec_tryParseDateEndpoint [parser_good]:
  "inside s p \<Longrightarrow> n \<le> pos p \<Longrightarrow> spec dv s n (pred_option wfEndpoint) (tryParseDateEndpoint p)"
  unfolding tryParseDateEndpoint_def
  by (rule parser_first | rule parser_good | (auto dest: parser_bounds intro: parser_steps intro!: parser_le)[1])+

lemma spec_finishLongDateRange [parser_good]:
  "inside s p \<Longrightarrow> n \<le> pos p \<Longrightarrow> b \<le> length s \<Longrightarrow> wfEndpoint from \<Longrightarrow> wfDateOffset fo \<Longrightarrow>
   spec dv s n wfMonthday (finishLongDateRange from fo b p)"
  unfolding finishLongDateRange_def
  by (rule parser_first | rule parser_good | (auto dest: parser_bounds intro: parser_steps intro!: parser_le)[1])+

lemma spec_finishDateRange [parser_good]:
  "inside s p \<Longrightarrow> n \<le> pos p \<Longrightarrow> wfEndpoint from \<Longrightarrow> wfDateOffset fo \<Longrightarrow>
   spec dv s n wfMonthday (finishDateRange from fo p)"
  unfolding finishDateRange_def
  by (cases "from"; simp only: prod.case OsmDateEndpoint.case)
     (rule parser_first | rule parser_good |
      (auto dest: parser_bounds intro: parser_steps intro!: parser_le)[1])+

lemma spec_finishMonthRange [parser_good]:
  "inside s p \<Longrightarrow> n \<le> pos p \<Longrightarrow> wfYearOpt y \<Longrightarrow> spec dv s n wfMonthday (finishMonthRange y m p)"
  unfolding finishMonthRange_def
  by (rule parser_first | rule parser_good | (auto dest: parser_bounds intro: parser_steps intro!: parser_le)[1])+

lemma spec_finishMonthday [parser_good]:
  "inside s p \<Longrightarrow> n \<le> pos p \<Longrightarrow> wfYearOpt y \<Longrightarrow> spec dv s n wfMonthday (finishMonthday y m p)"
  unfolding finishMonthday_def
  by (rule parser_first | rule parser_good | (auto dest: parser_bounds intro: parser_steps intro!: parser_le)[1])+

lemma spec_tryParseMonthdayRange [parser_good]:
  "inside s p \<Longrightarrow> n \<le> pos p \<Longrightarrow> spec dv s n (pred_option wfMonthday) (tryParseMonthdayRange p)"
  unfolding tryParseMonthdayRange_def
  by (rule parser_first | rule parser_good | (auto dest: parser_bounds intro: parser_steps intro!: parser_le)[1])+

lemma spec_parseWeekNumber [parser_good]:
  "inside s p \<Longrightarrow> n \<le> pos p \<Longrightarrow> spec dv s n (\<lambda>v. 1 \<le> v \<and> v \<le> 53) (parseWeekNumber msg p)"
  unfolding parseWeekNumber_def
  by (rule parser_first | rule parser_good | (auto dest: parser_bounds)[1])+

lemma spec_parseSingleWeekRange [parser_good]:
  "inside s p \<Longrightarrow> n \<le> pos p \<Longrightarrow> spec dv s n wfWeekRange (parseSingleWeekRange p)"
  unfolding parseSingleWeekRange_def
  by (rule parser_first | rule parser_good | (auto simp: wfWeekRange_def dest: parser_bounds)[1])+

lemma spec_seesInt [parser_good]:
  "inside s p \<Longrightarrow> n \<le> pos p \<Longrightarrow> spec dv s n (\<lambda>_. True) (seesInt p)"
  unfolding seesInt_def
  by (rule parser_first | rule parser_good | (auto dest: parser_bounds)[1])+

lemma drop_Cons_next: "x # xs = drop k s \<Longrightarrow> Suc k \<le> length s \<and> xs = drop (Suc k) s"
  by (metis drop_Suc drop_eq_Nil list.distinct(1) list.sel(3) not_less_eq_eq tl_drop)

lemma spec_commentLoop:
  "k \<le> length s \<Longrightarrow> cs = drop k s \<Longrightarrow> start \<le> length s \<Longrightarrow> n \<le> k \<Longrightarrow>
   spec dv s n (\<lambda>_. True) (commentLoop start acc cs k)"
proof (induction start acc cs k rule: commentLoop.induct)
  case (1 start acc k)
  then show ?case by (simp add: spec_def)
next
  case (2 start acc ch cs k)
  have k: "Suc k \<le> length s" "cs = drop (Suc k) s"
    using drop_Cons_next [OF "2.prems"(2)] by simp_all
  have esc: "spec dv s n (\<lambda>_. True) (commentLoop start (acc @ [d]) ds (k + 2))"
    if "ch = CHR 0x5C" "cs = d # ds" for d ds
  proof -
    from that k have "Suc (Suc k) \<le> length s \<and> ds = drop (Suc (Suc k)) s"
      using drop_Cons_next by metis
    with that "2.IH"(1) "2.prems"(3,4) show ?thesis by simp
  qed
  have plain: "spec dv s n (\<lambda>_. True) (commentLoop start (acc @ [ch]) cs (k + 1))"
    if "ch \<noteq> CHR 0x5C" "ch \<noteq> CHR 0x22"
    using that "2.IH"(2) "2.prems"(3,4) k by simp
  have close: "inside s (Parser cs (k + 1))" using k by (simp add: inside_def)
  show ?case
    using esc plain close "2.prems"(3,4) by (cases cs) (auto simp: spec_Throw intro!: spec_Ok)
qed

lemma spec_parseCommentString [parser_good]:
  assumes "inside s p" and "n \<le> pos p"
  shows "spec dv s n (\<lambda>_. True) (parseCommentString p)"
proof -
  let ?p = "skipWhitespace p"
  have p: "inside s ?p" "n \<le> pos ?p" using assms by (auto intro: pos_skipI)
  show ?thesis
  proof (cases "rest ?p")
    case Nil
    then show ?thesis using p by (simp add: parseCommentString_def spec_Throw inside_pos)
  next
    case (Cons c cs)
    then have "Suc (pos ?p) \<le> length s \<and> cs = drop (Suc (pos ?p)) s"
      using p drop_Cons_next by (metis inside_def)
    then show ?thesis
      using Cons p
      by (auto simp: parseCommentString_def Let_def intro!: spec_Throw spec_commentLoop dest: inside_pos)
  qed
qed

section \<open>The comma-separated selectors\<close>

locale comma_selectors =
  fixes item :: "parser \<Rightarrow> 'a option res"
    and again :: "parser \<Rightarrow> bool res"
    and wf :: "'a \<Rightarrow> bool"
  assumes item_spec: "inside s p \<Longrightarrow> n \<le> pos p \<Longrightarrow> spec dv s n (pred_option wf) (item p)"
    and again_spec: "inside s p \<Longrightarrow> n \<le> pos p \<Longrightarrow> spec dv s n (\<lambda>_. True) (again p)"
begin

lemma commaLoop_spec:
  assumes "inside s p" and "n \<le> pos p" and "dv \<or> length s < fuel + pos p" and "\<forall>x \<in> set acc. wf x"
  shows "spec dv s n (\<lambda>xs. \<forall>x \<in> set xs. wf x) (commaLoop item again fuel acc p)"
  using assms
proof (induction fuel arbitrary: acc p)
  case 0
  then show ?case by (auto simp: spec_def dest: inside_pos)
next
  case (Suc fuel)
  have step: "spec dv s n (\<lambda>xs. \<forall>x \<in> set xs. wf x) (commaLoop item again fuel (acc @ [x]) q)"
    if "inside s q" "pos p < pos q" "wf x" for x q
    using that Suc.prems by (intro Suc.IH) auto
  have item: "spec dv s (pos p) (pred_option wf) (item p)"
    using Suc.prems(1) by (simp add: item_spec)
  have again: "spec dv s n (\<lambda>_. True) (again q)" if "inside s q" "pos p < pos q" for q
    using that Suc.prems(2) by (intro again_spec) auto
  show ?case
  proof (cases "item p")
    case (Ok r p1)
    then show ?thesis
      using item Suc.prems
      by (simp add: spec_def [of _ _ "pos p"])
         (rule parser_first | rule parser_good spec_bind [OF again] | rule step
          | (auto dest: parser_bounds)[1])+
  qed (use item in \<open>auto simp: spec_def\<close>)
qed

end

lemma spec_seesItem:
  assumes "\<And>p. inside s p \<Longrightarrow> n \<le> pos p \<Longrightarrow> spec dv s n P (item p)" and "inside s p" and "n \<le> pos p"
  shows "spec dv s n (\<lambda>_. True) (seesItem item p)"
  unfolding seesItem_def using assms by (intro spec_bind [of dv s n P]) (auto intro: spec_Ok)

interpretation yr: comma_selectors tryParseYearRange "seesItem tryParseYearRange" wfYearRange
  by unfold_locales (auto intro: spec_tryParseYearRange spec_seesItem [OF spec_tryParseYearRange])

interpretation md: comma_selectors tryParseMonthdayRange "seesItem tryParseMonthdayRange" wfMonthday
  by unfold_locales
     (auto intro: spec_tryParseMonthdayRange spec_seesItem [OF spec_tryParseMonthdayRange])

interpretation wk: comma_selectors "\<lambda>q. someRes (parseSingleWeekRange q)" seesInt wfWeekRange
  by unfold_locales (auto intro: spec_someRes spec_parseSingleWeekRange spec_seesInt)

section \<open>Times\<close>

lemma spec_tryParseHourMinute [parser_good]:
  "inside s p \<Longrightarrow> n \<le> pos p \<Longrightarrow>
   spec dv s n (pred_option (\<lambda>(h, m). m \<le> 59 \<and> h * 60 + m \<le> (if ext then 48 else 24) * 60))
     (tryParseHourMinute ext p)"
  unfolding tryParseHourMinute_def
  by (rule parser_first | rule parser_good |
      (auto dest: parser_bounds intro: parser_steps intro!: parser_le)[1])+

lemma spec_parseHourMinute [parser_good]:
  "inside s p \<Longrightarrow> n \<le> pos p \<Longrightarrow>
   spec dv s n (\<lambda>(h, m). m \<le> 59 \<and> h * 60 + m \<le> (if ext then 48 else 24) * 60) (parseHourMinute ext p)"
  unfolding parseHourMinute_def
  by (rule parser_first | rule parser_good |
      (auto dest: parser_bounds intro: parser_steps intro!: parser_le)[1])+

lemma spec_parseSolarOffset [parser_good]:
  "inside s p \<Longrightarrow> n \<le> pos p \<Longrightarrow> saved \<le> length s \<Longrightarrow>
   spec dv s n (wfTimePoint ext) (parseSolarOffset saved p)"
  unfolding parseSolarOffset_def
  by (rule parser_first | rule parser_good |
      (auto dest: parser_bounds intro: parser_steps intro!: parser_le split: prod.splits)[1])+

lemma spec_tryParseTimePoint [parser_good]:
  "inside s p \<Longrightarrow> n \<le> pos p \<Longrightarrow> spec dv s n (pred_option (wfTimePoint ext)) (tryParseTimePoint ext p)"
  unfolding tryParseTimePoint_def
  by (rule parser_first | rule parser_good |
      (auto dest: parser_bounds intro: parser_steps intro!: parser_le)[1])+

lemma spec_parseIntervalMinutes [parser_good]:
  "inside s p \<Longrightarrow> n \<le> pos p \<Longrightarrow> spec dv s n (\<lambda>i. 1 \<le> i) (parseIntervalMinutes p)"
  unfolding parseIntervalMinutes_def
  by (rule parser_first | rule parser_good |
      (auto dest: parser_bounds intro: parser_steps intro!: parser_le)[1])+

lemma spec_tryParseTimeSelector [parser_good]:
  "inside s p \<Longrightarrow> n \<le> pos p \<Longrightarrow> spec dv s n (pred_option wfTimeSelector) (tryParseTimeSelector p)"
  unfolding tryParseTimeSelector_def
  by (rule parser_first | rule parser_good |
      (auto simp: wfTimeSelector_def dest: parser_bounds intro: parser_steps intro!: parser_le)[1])+

interpretation tm: comma_selectors tryParseTimeSelector "seesItem tryParseTimeSelector" wfTimeSelector
  by unfold_locales
     (auto intro: spec_tryParseTimeSelector spec_seesItem [OF spec_tryParseTimeSelector])

section \<open>Weekdays\<close>

lemma spec_parseNthEntry [parser_good]:
  "inside s p \<Longrightarrow> n \<le> pos p \<Longrightarrow> spec dv s n wfNthEntry (parseNthEntry p)"
  unfolding parseNthEntry_def
  by (rule parser_first | rule parser_good |
      (auto simp: wfNthEntry_def wfNth_def dest: parser_bounds intro: parser_steps intro!: parser_le)[1])+

lemma spec_nthLoop [parser_good]:
  assumes "inside s p" and "n \<le> pos p" and "dv \<or> length s < fuel + pos p"
    and "\<forall>e \<in> set acc. wfNthEntry e"
  shows "spec dv s n (\<lambda>es. es \<noteq> [] \<and> (\<forall>e \<in> set es. wfNthEntry e)) (nthLoop fuel acc p)"
  using assms
proof (induction fuel arbitrary: acc p)
  case 0
  then show ?case by (auto simp: spec_def dest: inside_pos)
next
  case (Suc fuel)
  let ?Q = "\<lambda>es. es \<noteq> [] \<and> (\<forall>e \<in> set es. wfNthEntry e)"
  have step: "spec dv s n ?Q (nthLoop fuel (acc @ [e]) q)"
    if "inside s q" "pos p < pos q" "wfNthEntry e" for e q
    using that Suc.prems by (intro Suc.IH) auto
  have entry: "spec dv s (pos p) wfNthEntry (parseNthEntry p)"
    using Suc.prems(1) by (simp add: spec_parseNthEntry)
  show ?case
  proof (cases "parseNthEntry p")
    case (Ok e p1)
    then show ?thesis
      using entry Suc.prems
      by (simp add: spec_def [of _ _ "pos p"])
         (rule parser_good | rule step | (auto dest: parser_bounds)[1])+
  qed (use entry in \<open>auto simp: spec_def\<close>)
qed

lemma spec_parseNthList [parser_good]:
  assumes "inside s p" and "n \<le> pos p" and "dv \<or> length s < fuel + pos p"
  shows "spec dv s n (pred_option (\<lambda>es. es \<noteq> [] \<and> (\<forall>e \<in> set es. wfNthEntry e))) (parseNthList fuel p)"
  unfolding parseNthList_def using assms
  by - (rule parser_first | rule parser_good |
      (auto dest: parser_bounds intro: parser_steps intro!: parser_le)[1])+

lemma spec_tryParseWeekdaySelectorItem [parser_good]:
  assumes "inside s p" and "n \<le> pos p" and "dv \<or> length s < fuel + pos p"
  shows "spec dv s n (pred_option wfWeekdayItem) (tryParseWeekdaySelectorItem fuel p)"
  unfolding tryParseWeekdaySelectorItem_def using assms
  by - (rule parser_first | rule parser_good |
      (auto dest: parser_bounds intro: parser_steps intro!: parser_le)[1])+

lemma skip_is_space: "isSkipSpace c \<Longrightarrow> isJsSpace c"
  by (auto simp: isSkipSpace_def isJsSpace_def)

lemma clean_space: "clean s \<Longrightarrow> c \<in> set s \<Longrightarrow> isJsSpace c = isSkipSpace c"
  using skip_is_space by (auto simp: clean_def)

lemma rest_skipWhitespace: "rest (skipWhitespace p) = dropWhile isSkipSpace (rest p)"
  by (simp add: skipWhitespace_def dropWhile_eq_drop)

lemma readWord_progress:
  assumes "clean s" and "inside s p" and "peekWord p = Some w"
  shows "pos p < pos (snd (readWord p))"
proof -
  have "set (rest p) \<subseteq> set s" using assms(2) by (auto simp: inside_def dest: in_set_dropD)
  then have "dropWhile isJsSpace (rest p) = rest (skipWhitespace p)"
    unfolding rest_skipWhitespace using clean_space [OF assms(1)] by (intro dropWhile_cong) auto
  then have "fst (readWord p) \<noteq> None"
    using assms(3) by (auto simp: peekWord_def readWord_def Let_def split: if_splits)
  then show ?thesis
    using readWord_inside(3) [OF assms(2), of "fst (readWord p)"] by (cases "readWord p") auto
qed

lemma tryParseWeekdaySelectorItem_progress:
  assumes "clean s" and "inside s p" and "tryParseWeekdaySelectorItem fuel p = Ok (Some i) q"
  shows "pos p < pos q"
proof -
  let ?p = "snd (readWord p)"
  obtain w where w: "peekWord p = Some w"
    using assms(3) by (auto simp: tryParseWeekdaySelectorItem_def split: option.splits)
  have p: "inside s ?p" "pos p < pos ?p"
    using assms(1,2) readWord_progress [OF _ _ w] by auto
  have wd: "WEEKDAY_MAP (toLowerCase w) = None \<Longrightarrow> toUpperCase w = ''PH'' \<or> toUpperCase w = ''SH''"
    using assms(3) w by (auto simp: tryParseWeekdaySelectorItem_def split: if_splits)
  have "spec True s (pos ?p) (\<lambda>_. True) (tryParseWeekdaySelectorItem fuel p)"
    unfolding tryParseWeekdaySelectorItem_def w option.case
    using p wd
    by - (rule parser_first | rule parser_good |
        (auto dest: parser_bounds intro: parser_steps intro!: parser_le)[1])+
  then show ?thesis using assms(3) p by (simp add: spec_def)
qed

lemma wfWeekdayItem_withAndNext [simp]: "wfWeekdayItem (withAndNext i) = wfWeekdayItem i"
  by (cases i) auto

lemma spec_weekdayLoop [parser_good]:
  assumes "inside s p" and "n \<le> pos p" and "dv \<or> clean s \<and> length s < fuel + pos p"
    and "\<forall>i \<in> set acc. wfWeekdayItem i"
  shows "spec dv s n (\<lambda>is. \<forall>i \<in> set is. wfWeekdayItem i) (weekdayLoop fuel acc p)"
  using assms
proof (induction fuel arbitrary: acc p)
  case 0
  then show ?case by (auto simp: spec_def dest: inside_pos)
next
  case (Suc fuel)
  let ?Q = "\<lambda>is. \<forall>i \<in> set is. wfWeekdayItem i"
  let ?item = "tryParseWeekdaySelectorItem (Suc fuel)"
  have step: "spec dv s n ?Q (weekdayLoop fuel (acc @ [i]) q)"
    if "inside s q" "pos p \<le> pos q" "dv \<or> pos p < pos q" "wfWeekdayItem i" for i q
    using that Suc.prems by (intro Suc.IH) auto
  have item: "spec dv s (pos p) (pred_option wfWeekdayItem) (?item p)"
    using Suc.prems by (intro spec_tryParseWeekdaySelectorItem) auto
  have next': "spec dv s n (\<lambda>_. True) (?item q)" if "inside s q" "pos p \<le> pos q" for q
    using that Suc.prems
    by (intro spec_mono [OF spec_tryParseWeekdaySelectorItem, of s q n dv "Suc fuel"]) auto
  show ?case
  proof (cases "?item p")
    case (Ok r p1)
    have "dv \<or> pos p < pos p1" if "r \<noteq> None"
      using that Ok Suc.prems tryParseWeekdaySelectorItem_progress [of s p "Suc fuel"] by auto
    then show ?thesis
      using item Ok Suc.prems
      by (simp add: spec_def [of _ _ "pos p"])
         (rule parser_first | rule spec_bind [OF next'] | rule step
          | rule spec_Ok spec_option spec_matchChar spec_bool spec_if
          | (auto dest: parser_bounds)[1])+
  qed (use item in \<open>auto simp: spec_def\<close>)
qed

section \<open>Rules and documents\<close>

lemma spec_parseOptionalModifierAndComment [parser_good]:
  "inside s p \<Longrightarrow> n \<le> pos p \<Longrightarrow> spec dv s n (\<lambda>_. True) (parseOptionalModifierAndComment p)"
  unfolding parseOptionalModifierAndComment_def
  by (rule parser_first | rule parser_good |
      (auto dest: parser_bounds intro: parser_steps intro!: parser_le)[1])+

lemma spec_parseRangeComment [parser_good]:
  "inside s p \<Longrightarrow> n \<le> pos p \<Longrightarrow> spec dv s n (\<lambda>_. True) (parseRangeComment p)"
  unfolding parseRangeComment_def
  by (rule parser_first | rule parser_good |
      (auto dest: parser_bounds intro: parser_steps intro!: parser_le)[1])+

lemma fuel_readWord: "l < fuel + pos p \<Longrightarrow> l < fuel + pos (snd (readWord p))"
  using pos_readWordI [of "pos p" p] by simp

lemma fuel_skip: "l < fuel + pos p \<Longrightarrow> l < fuel + pos (skipWhitespace p)"
  using pos_skip [of p] by linarith

lemma spec_parseWeekSelectors:
  "inside s p \<Longrightarrow> n \<le> pos p \<Longrightarrow> dv \<or> length s < fuel + pos p \<Longrightarrow>
   spec dv s n (\<lambda>ws. \<forall>w \<in> set ws. wfWeekRange w) (parseWeekSelectors fuel p)"
  unfolding parseWeekSelectors_def
  by (rule parser_first | rule parser_good wk.commaLoop_spec |
      (auto dest: parser_bounds intro: parser_steps intro!: parser_le fuel_readWord)[1])+

lemma spec_colon:
  assumes "inside s p"
    and "\<And>b q. inside s q \<Longrightarrow> pos p \<le> pos q \<Longrightarrow> (b \<longrightarrow> c) \<Longrightarrow> spec dv s n P (f b q)"
  shows "spec dv s n P (case (if c then matchChar ch p else (False, p)) of (b, q) \<Rightarrow> f b q)"
  using assms by (cases c) (auto intro: spec_matchChar)

lemma starts24_7_inside:
  "inside s p \<Longrightarrow> starts24_7 p \<Longrightarrow> inside s (advance 4 p)"
  by (rule inside_advance) (auto simp: starts24_7_def dest: arg_cong [where f = length])

lemma spec_parseRule:
  assumes "inside s p" and "dv \<or> clean s \<and> length s < fuel + pos p"
  shows "spec dv s (pos p) (\<lambda>r. wfRule r \<and> separator r = sep) (parseRule fuel sep p)"
  unfolding parseRule_def parseYearSelectors_def parseMonthdaySelectors_def
    parseTimeSelectors_def parseWeekdaySelectors_def
  using assms
  by - (rule parser_first | rule parser_good yr.commaLoop_spec md.commaLoop_spec tm.commaLoop_spec
        spec_parseWeekSelectors spec_colon |
      (auto simp: wfRule_def hasAnyContent_def dest: parser_bounds
        intro: parser_steps starts24_7_inside intro!: parser_le trans_le_add1 fuel_skip)[1])+

lemma spec_parseSeparator:
  "inside s p \<Longrightarrow> n \<le> Suc (pos p) \<Longrightarrow> spec dv s n (\<lambda>_. True) (parseSeparator p)"
  unfolding parseSeparator_def
  by (rule parser_good | (auto dest: parser_bounds intro: parser_steps intro!: parser_le)[1])+

lemma spec_documentLoop:
  assumes "inside s p" and "dv \<or> clean s \<and> length s < fuel + pos p"
    and "\<forall>r \<in> set acc. wfRule r"
    and "acc = [] \<longrightarrow> sep = Semicolon \<and> \<not> isAtEnd p" and "acc \<noteq> [] \<longrightarrow> separator (hd acc) = Semicolon"
  shows "spec dv s (pos p) wfDocument (documentLoop fuel sep acc p)"
  using assms
proof (induction fuel arbitrary: sep acc p)
  case 0
  then show ?case by (auto simp: spec_def dest: inside_pos)
next
  case (Suc fuel)
  have step: "spec dv s (pos p) wfDocument (documentLoop fuel sep' (acc @ [r]) (skipWhitespace q))"
    if "inside s q" "pos p < pos q" "wfRule r" "separator r = sep" for r sep' q
  proof -
    have le: "pos p < pos (skipWhitespace q)" using that(2) pos_skip [of q] by linarith
    have "spec dv s (pos (skipWhitespace q)) wfDocument
        (documentLoop fuel sep' (acc @ [r]) (skipWhitespace q))"
      using that le Suc.prems by (intro Suc.IH) (auto simp: hd_append)
    then show ?thesis by (rule spec_mono) (use le in auto)
  qed
  have sep: "spec dv s (Suc (pos p)) (\<lambda>_. True) (parseSeparator q)"
    if "inside s q" "pos p \<le> pos q" for q
    using that by (intro spec_parseSeparator) auto
  have rule: "spec dv s (pos p) (\<lambda>r. wfRule r \<and> separator r = sep) (parseRule (Suc fuel) sep p)"
    using Suc.prems by (intro spec_parseRule) auto
  show ?case
  proof (cases "isAtEnd p")
    case True
    then show ?thesis using Suc.prems by (auto simp: spec_def wfDocument_def)
  next
    case False
    have tail: "spec dv s (pos p) wfDocument
       (bindRes (parseSeparator q) (\<lambda>sep' p3.
          let p4 = skipWhitespace p3
          in if isAtEnd p4 then Throw ''Trailing rule separator is not allowed'' (pos p4)
             else documentLoop fuel sep' (acc @ [r]) p4))"
      if "inside s q" "pos p \<le> pos q" "wfRule r" "separator r = sep" for r q
      using that sep [OF that(1,2)] step
      by (cases "parseSeparator q") (auto simp: spec_def [of dv s "Suc (pos p)"] Let_def
        intro!: spec_Throw pos_skip_le dest: inside_pos, auto simp: spec_def)
    have one: "wfDocument (acc @ [r])" if "wfRule r" "separator r = sep" for r
      using that Suc.prems by (auto simp: wfDocument_def hd_append)
    show ?thesis
      unfolding documentLoop.simps using False
      by (simp only: if_False)
         (intro spec_bind [OF rule] spec_let spec_if spec_Ok tail one; auto intro!: parser_le)
  qed
qed

end
