(* ===== verification/Opening_Hours_Properties.thy ===== *)
theory Opening_Hours_Properties
  imports Opening_Hours_Total
begin

text \<open>
  What \<open>parseOsmOpeningHours\<close> and the editor helpers guarantee: the parser returns on every input
  whose white space is of the kind the lexer skips, and its results are well formed; the fuel of
  the model never changes a result; a no-break space before a holiday selector makes the weekday
  loop run forever; a comment survives printing and parsing; and the weekday check boxes of the
  editor survive being written as selectors and read back.
\<close>

section \<open>More fuel changes no result\<close>

definition settled :: "'a res \<Rightarrow> 'a res \<Rightarrow> bool" where
  "settled r r' \<longleftrightarrow> r = Diverge \<or> r' = r"

lemma settled_refl [simp, intro]: "settled r r"
  by (simp add: settled_def)

lemma settled_bind:
  "settled r r' \<Longrightarrow> (\<And>a q. settled (f a q) (f' a q)) \<Longrightarrow> settled (bindRes r f) (bindRes r' f')"
  unfolding settled_def by (cases r) auto

lemma settled_option:
  "settled x x' \<Longrightarrow> (\<And>a. settled (f a) (f' a)) \<Longrightarrow> settled (case_option x f r) (case_option x' f' r)"
  by (cases r) auto

lemma settled_prod:
  "(\<And>a b. settled (f a b) (f' a b)) \<Longrightarrow> settled (case_prod f r) (case_prod f' r)"
  by (cases r) auto

lemma settled_bool:
  "settled x x' \<Longrightarrow> settled y y' \<Longrightarrow> settled (case_bool x y b) (case_bool x' y' b)"
  by (cases b) auto

lemma settled_if:
  "settled x x' \<Longrightarrow> settled y y' \<Longrightarrow> settled (if b then x else y) (if b then x' else y')"
  by simp

lemma settled_let: "(\<And>v. settled (f v) (f' v)) \<Longrightarrow> settled (Let x f) (Let x f')"
  by simp

lemmas settled_intros =
  settled_refl settled_bind settled_option settled_prod settled_bool settled_if settled_let

lemma settled_commaLoop:
  "fuel \<le> fuel' \<Longrightarrow> settled (commaLoop item again fuel acc p) (commaLoop item again fuel' acc p)"
proof (induction fuel arbitrary: fuel' acc p)
  case 0
  then show ?case by (simp add: settled_def)
next
  case (Suc fuel)
  then obtain g where "fuel' = Suc g" "fuel \<le> g" by (cases fuel') auto
  then show ?case using Suc.IH by (simp del: bindRes.simps) (intro settled_intros; blast?)
qed

lemma settled_nthLoop: "fuel \<le> fuel' \<Longrightarrow> settled (nthLoop fuel acc p) (nthLoop fuel' acc p)"
proof (induction fuel arbitrary: fuel' acc p)
  case 0
  then show ?case by (simp add: settled_def)
next
  case (Suc fuel)
  then obtain g where "fuel' = Suc g" "fuel \<le> g" by (cases fuel') auto
  then show ?case using Suc.IH by (simp del: bindRes.simps) (intro settled_intros; blast?)
qed

lemma settled_item:
  "fuel \<le> fuel' \<Longrightarrow>
   settled (tryParseWeekdaySelectorItem fuel p) (tryParseWeekdaySelectorItem fuel' p)"
  unfolding tryParseWeekdaySelectorItem_def parseNthList_def
  by (intro settled_intros settled_nthLoop)

lemma settled_weekdayLoop: "fuel \<le> fuel' \<Longrightarrow> settled (weekdayLoop fuel acc p) (weekdayLoop fuel' acc p)"
proof (induction fuel arbitrary: fuel' acc p)
  case 0
  then show ?case by (simp add: settled_def)
next
  case (Suc fuel)
  then obtain g where "fuel' = Suc g" "fuel \<le> g" by (cases fuel') auto
  then show ?case
    using Suc.IH by (simp del: bindRes.simps) (intro settled_intros settled_item; simp)
qed

lemma settled_parseRule:
  "fuel \<le> fuel' \<Longrightarrow> settled (parseRule fuel sep p) (parseRule fuel' sep p)"
  unfolding parseRule_def parseYearSelectors_def parseMonthdaySelectors_def parseWeekSelectors_def
    parseTimeSelectors_def parseWeekdaySelectors_def
  by (intro settled_intros settled_commaLoop settled_weekdayLoop)

lemma settled_documentLoop:
  "fuel \<le> fuel' \<Longrightarrow> settled (documentLoop fuel sep acc p) (documentLoop fuel' sep acc p)"
proof (induction fuel arbitrary: fuel' sep acc p)
  case 0
  then show ?case by (simp add: settled_def)
next
  case (Suc fuel)
  then obtain g where "fuel' = Suc g" "fuel \<le> g" by (cases fuel') auto
  then show ?case
    using Suc.IH
    by (simp only: documentLoop.simps) (intro settled_intros settled_parseRule; simp)
qed

lemma parse_fuel_irrelevant:
  assumes "parseOsmOpeningHours fuel s = Some r" and "fuel \<le> fuel'"
  shows "parseOsmOpeningHours fuel' s = Some r"
proof -
  have "settled (parseDocument fuel (Parser s 0)) (parseDocument fuel' (Parser s 0))"
    unfolding parseDocument_def using assms(2) by (intro settled_intros settled_documentLoop)
  then show ?thesis using assms(1) by (auto simp: settled_def parseOsmOpeningHours_def)
qed

lemma spec_parseDocument:
  assumes "dv \<or> clean s \<and> length s < fuel"
  shows "spec dv s 0 wfDocument (parseDocument fuel (Parser s 0))"
proof -
  have p: "inside s (skipWhitespace (Parser s 0))"
    by (intro inside_skip) (simp add: inside_def)
  show ?thesis
    unfolding parseDocument_def Let_def
    using assms spec_mono [OF spec_documentLoop [OF p, of dv fuel "[]" Semicolon], of wfDocument 0]
    by (auto intro!: spec_Throw)
qed

section \<open>The loop that does not end\<close>

text \<open>A no-break space before \<open>PH\<close>: the lookahead sees the word, reading it does not move.\<close>

lemma nbsp_cursor:
  assumes "p = Parser (CHR 0xA0 # ''PH'' @ t) k" and "case t of [] \<Rightarrow> True | c # _ \<Rightarrow> \<not> isAlpha c"
  shows "skipWhitespace p = p" and "readWord p = (None, p)" and "readUnsignedInt p = (None, p)"
    and "peekWord p = Some ''PH''" and "ch \<noteq> CHR 0xA0 \<Longrightarrow> matchChar ch p = (False, p)"
    and "peekChar p = Some (CHR 0xA0)"
proof -
  show skip: "skipWhitespace p = p"
    using assms(1) by (simp add: skipWhitespace_def advance_def isSkipSpace_def)
  show "peekChar p = Some (CHR 0xA0)" using assms(1) by (simp add: peekChar_def)
  with skip show "ch \<noteq> CHR 0xA0 \<Longrightarrow> matchChar ch p = (False, p)" by (simp add: matchChar_def)
  show "readWord p = (None, p)" "readUnsignedInt p = (None, p)"
    using assms(1) skip by (simp_all add: readWord_def readUnsignedInt_def isAlpha_def isDigit_def)
  have "takeWhile isAlpha (''PH'' @ t) = ''PH''"
    using assms(2) by (intro takeWhile_append_stop) (auto simp: isAlpha_def)
  then show "peekWord p = Some ''PH''"
    using assms(1) by (simp add: peekWord_def isJsSpace_def)
qed

lemma nbsp_item:
  assumes "p = Parser (CHR 0xA0 # ''PH'' @ t) k" and "case t of [] \<Rightarrow> True | c # _ \<Rightarrow> \<not> isAlpha c"
  shows "tryParseWeekdaySelectorItem fuel p = Ok (Some (HolidayItem PH None False)) p"
  using nbsp_cursor [OF assms]
  by (simp add: tryParseWeekdaySelectorItem_def tryParseDayOffset_def toUpperCase_def upperChar_def)

lemma nbsp_weekdayLoop:
  assumes "p = Parser (CHR 0xA0 # ''PH'' @ t) k" and "case t of [] \<Rightarrow> True | c # _ \<Rightarrow> \<not> isAlpha c"
  shows "weekdayLoop fuel acc p = Diverge"
proof (induction fuel arbitrary: acc)
  case (Suc fuel)
  then show ?case using nbsp_cursor [OF assms] nbsp_item [OF assms] by simp
qed simp

lemma nbsp_parseRule:
  assumes "p = Parser (CHR 0xA0 # ''PH'' @ t) k" and "case t of [] \<Rightarrow> True | c # _ \<Rightarrow> \<not> isAlpha c"
  shows "parseRule (Suc fuel) sep p = Diverge"
proof -
  note [simp] = nbsp_cursor [OF assms]
  have "tryParseYearRange p = Ok None p" by (simp add: tryParseYearRange_def)
  moreover have "tryParseMonthdayRange p = Ok None p"
    by (simp add: tryParseMonthdayRange_def readLeadingYear_def MONTH_MAP_def OSM_MONTHS_def
        toLowerCase_def lowerChar_def)
  moreover have "parseWeekSelectors (Suc fuel) p = Ok [] p"
    by (simp add: parseWeekSelectors_def toLowerCase_def lowerChar_def)
  moreover have "\<not> starts24_7 p" using assms(1) by (simp add: starts24_7_def)
  ultimately show ?thesis
    using nbsp_weekdayLoop [OF assms]
    by (simp add: parseRule_def parseRangeComment_def parseYearSelectors_def
        parseMonthdaySelectors_def parseWeekdaySelectors_def del: weekdayLoop.simps)
qed

lemma nbsp_parse:
  assumes "case t of [] \<Rightarrow> True | c # _ \<Rightarrow> \<not> isAlpha c"
  shows "parseOsmOpeningHours fuel (CHR 0xA0 # ''PH'' @ t) = None"
proof -
  let ?p = "Parser (CHR 0xA0 # ''PH'' @ t) 0"
  have "documentLoop fuel Semicolon [] ?p = Diverge"
    using nbsp_parseRule [OF refl assms] by (cases fuel) (simp_all add: isAtEnd_def)
  then show ?thesis
    using nbsp_cursor(1) [OF refl assms, of 0]
    by (simp add: parseOsmOpeningHours_def parseDocument_def isAtEnd_def)
qed

section \<open>The editor's weekday selection\<close>

lemma nth_dayIndex [simp]: "OSM_WEEKDAYS ! dayIndex w = w"
  by (cases w) (simp_all add: OSM_WEEKDAYS_def)

lemma dayIndex_bound: "dayIndex w < 7"
  by (cases w) simp_all

lemma dayIndex_nth: "k < 7 \<Longrightarrow> dayIndex (OSM_WEEKDAYS ! k) = k"
  by (auto simp: numeral_eq_Suc less_Suc_eq OSM_WEEKDAYS_def)

lemma dayIndex_inject: "dayIndex a = dayIndex b \<Longrightarrow> a = b"
  by (metis nth_dayIndex)

lemma weekday_slice:
  assumes "i \<le> j" and "j < 7"
  shows "set (take (Suc j - i) (drop i OSM_WEEKDAYS)) = {w. i \<le> dayIndex w \<and> dayIndex w \<le> j}"
proof -
  have len: "length OSM_WEEKDAYS = 7" by (simp add: OSM_WEEKDAYS_def)
  show ?thesis
  proof (intro set_eqI iffI)
    fix w
    assume "w \<in> set (take (Suc j - i) (drop i OSM_WEEKDAYS))"
    then obtain k where "k < Suc j - i" "w = OSM_WEEKDAYS ! (i + k)"
      using len assms by (auto simp: in_set_conv_nth)
    then show "w \<in> {w. i \<le> dayIndex w \<and> dayIndex w \<le> j}"
      using assms dayIndex_nth [of "i + k"] by auto
  next
    fix w
    assume "w \<in> {w. i \<le> dayIndex w \<and> dayIndex w \<le> j}"
    then have "dayIndex w - i < length (take (Suc j - i) (drop i OSM_WEEKDAYS))"
      and "take (Suc j - i) (drop i OSM_WEEKDAYS) ! (dayIndex w - i) = w"
      using len assms by auto
    then show "w \<in> set (take (Suc j - i) (drop i OSM_WEEKDAYS))" by (metis nth_mem)
  qed
qed

abbreviation increasing :: "OsmWeekday list \<Rightarrow> bool" where
  "increasing ds \<equiv> sorted_wrt (\<lambda>a b. dayIndex a < dayIndex b) ds"

lemma spanEnd_run:
  "increasing (d # ds) \<Longrightarrow> spanEnd d ds = (e, ds') \<Longrightarrow>
   dayIndex d \<le> dayIndex e \<and> increasing ds' \<and>
   insert d (set ds) = {w. dayIndex d \<le> dayIndex w \<and> dayIndex w \<le> dayIndex e} \<union> set ds'"
proof (induction d ds rule: spanEnd.induct)
  case (1 cur)
  then show ?case by (auto dest: dayIndex_inject)
next
  case (2 cur d ds)
  show ?case
  proof (cases "dayIndex d = Suc (dayIndex cur)")
    case True
    with 2 have "dayIndex d \<le> dayIndex e \<and> increasing ds' \<and>
       insert d (set ds) = {w. dayIndex d \<le> dayIndex w \<and> dayIndex w \<le> dayIndex e} \<union> set ds'"
      by simp
    moreover have "{w. dayIndex cur \<le> dayIndex w \<and> dayIndex w \<le> dayIndex e} =
       insert cur {w. dayIndex d \<le> dayIndex w \<and> dayIndex w \<le> dayIndex e}"
    proof (intro set_eqI)
      fix w
      have "dayIndex cur \<le> dayIndex w \<longleftrightarrow> w = cur \<or> dayIndex d \<le> dayIndex w"
        using True dayIndex_inject [of w cur] by auto
      then show "w \<in> {w. dayIndex cur \<le> dayIndex w \<and> dayIndex w \<le> dayIndex e} \<longleftrightarrow>
         w \<in> insert cur {w. dayIndex d \<le> dayIndex w \<and> dayIndex w \<le> dayIndex e}"
        using True calculation by auto
    qed
    ultimately show ?thesis using True by simp
  next
    case False
    with 2 show ?thesis by (auto dest: dayIndex_inject)
  qed
qed

lemma extractLoop_compactDays:
  "increasing ds \<Longrightarrow>
   extractLoop sel ph sh am (compactDays ds @ more_is) = extractLoop (sel \<union> set ds) ph sh am more_is"
proof (induction ds arbitrary: sel rule: compactDays.induct)
  case 1
  then show ?case by simp
next
  case (2 d ds)
  obtain e ds' where span: "spanEnd d ds = (e, ds')" by fastforce
  note run = spanEnd_run [OF "2.prems" span]
  then have IH: "extractLoop sel ph sh am (compactDays ds' @ more_is) = extractLoop (sel \<union> set ds') ph sh am more_is"
    for sel using "2.IH" [OF span [symmetric]] by simp
  have slice: "set (take (Suc (dayIndex e) - dayIndex d) (drop (dayIndex d) OSM_WEEKDAYS)) =
      {w. dayIndex d \<le> dayIndex w \<and> dayIndex w \<le> dayIndex e}"
    using run dayIndex_bound by (intro weekday_slice) auto
  have single: "{w. dayIndex d \<le> dayIndex w \<and> dayIndex w \<le> dayIndex d} = {d}"
    by (auto dest: dayIndex_inject)
  show ?case
    using run span
    by (auto simp: IH slice single nonzero_def Un_assoc insert_commute
        intro!: arg_cong [where f = "\<lambda>x. extractLoop x ph sh am more_is"])
qed

lemma increasing_filter: "increasing (filter P OSM_WEEKDAYS)"
  by (intro sorted_wrt_filter) (simp add: OSM_WEEKDAYS_def)

lemma compactDays_Nil_iff: "compactDays ds = [] \<longleftrightarrow> ds = []"
  by (cases ds) (auto split: prod.splits)

lemma extract_build:
  "extractSimpleWeekdaySelection (buildSimpleWeekdaySelectors s) =
     Some \<lparr>selWeekdays = filter (\<lambda>w. w \<in> set (selWeekdays s)) OSM_WEEKDAYS,
           includePH = includePH s, includeSH = includeSH s,
           shAndMode = (includeSH s \<and> shAndMode s \<and> selWeekdays s \<noteq> [])\<rparr>"
proof -
  let ?ds = "filter (\<lambda>w. w \<in> set (selWeekdays s)) OSM_WEEKDAYS"
  have all: "set OSM_WEEKDAYS = UNIV"
    by (auto simp: OSM_WEEKDAYS_def) (metis OsmWeekday.exhaust)
  then have ne: "?ds = [] \<longleftrightarrow> selWeekdays s = []" by (auto simp: filter_empty_conv)
  have sel: "filter (\<lambda>w. w \<in> set ?ds) OSM_WEEKDAYS = ?ds" using all by (auto intro: filter_cong)
  show ?thesis
    using extractLoop_compactDays [OF increasing_filter] sel ne
    by (auto simp: extractSimpleWeekdaySelection_def buildSimpleWeekdaySelectors_def Let_def
        nonzero_def compactDays_Nil_iff)
qed

section \<open>Comments\<close>

lemma escapeComment_Cons:
  "escapeComment (c # cs) =
     (if c = CHR 0x5C then [CHR 0x5C, CHR 0x5C]
      else if c = CHR 0x22 then [CHR 0x5C, CHR 0x22] else [c]) @ escapeComment cs"
  by (simp add: escapeComment_def)

lemma commentLoop_escape:
  "commentLoop start acc (escapeComment c @ CHR 0x22 # r) n =
     Ok (acc @ c) (Parser r (n + length (escapeComment c) + 1))"
proof (induction c arbitrary: acc n)
  case Nil
  then show ?case by (simp add: escapeComment_def)
next
  case (Cons c cs)
  then show ?case by (simp add: escapeComment_Cons)
qed

section \<open>Properties\<close>

text \<open>
  C1. Termination of the parser: on an input whose white space is only what \<open>skipWhitespace\<close>
  skips, a fuel above the length of the input is enough, so the call returns a document or an
  error.
\<close>

theorem parse_returns:
  assumes "clean s" and "length s < fuel"
  shows "\<exists>r. parseOsmOpeningHours fuel s = Some r"
proof -
  have "spec False s 0 wfDocument (parseDocument fuel (Parser s 0))"
    using assms by (intro spec_parseDocument) simp
  then show ?thesis by (auto simp: parseOsmOpeningHours_def spec_def Let_def split: res.splits)
qed

theorem parse_returns_witness:
  "\<exists>r. parseOsmOpeningHours 20 ''Mo-Fr 09:00-17:00'' = Some r"
  by (rule parse_returns) (simp_all add: clean_def isJsSpace_def isSkipSpace_def)

text \<open>
  C2. Result invariant: a successful parse yields a well-formed document together with its non-empty
  canonical text. Years lie after 1900 and year ranges are ordered; steps and intervals are positive; weeks
  are 1 to 53 and days 1 to 31; an occurrence is -5 to -1 or 1 to 5, and a range of occurrences is
  positive and ordered; clock times have minutes up to 59 and lie within 24 hours, an end within
  48; time offsets are at most a day and day offsets are not zero; no rule is empty and the first
  separator is a semicolon. Ranges of weeks, months, dates and times may wrap around, as in \<open>22:00-06:00\<close>.
\<close>

theorem parse_ok_wf:
  assumes "parseOsmOpeningHours fuel s = Some (ParseOk d c)"
  shows "wfDocument d \<and> c = serializeOsmOpeningHours d \<and> c \<noteq> []"
proof -
  have "spec True s 0 wfDocument (parseDocument fuel (Parser s 0))"
    by (rule spec_parseDocument) simp
  with assms show ?thesis
    by (auto simp: parseOsmOpeningHours_def spec_def Let_def split: res.splits if_splits)
qed

theorem parse_ok_wf_witness:
  "\<exists>d. parseOsmOpeningHours 8 ''24/7'' = Some (ParseOk d ''24/7'') \<and> wfDocument d"
proof -
  have "case parseOsmOpeningHours 8 ''24/7'' of Some (ParseOk d c) \<Rightarrow> c = ''24/7'' | _ \<Rightarrow> False"
    by code_simp
  then obtain d where "parseOsmOpeningHours 8 ''24/7'' = Some (ParseOk d ''24/7'')"
    by (auto split: option.splits OsmOpeningHoursParseResult.splits)
  then show ?thesis using parse_ok_wf by blast
qed

text \<open>
  Error positions: the position reported with a parse error lies inside the input (or at its
  end), so the editor can point at it.
\<close>

theorem parse_error_position:
  assumes "parseOsmOpeningHours fuel s = Some (ParseFail m k)"
  shows "k \<le> length s"
proof -
  have "spec True s 0 wfDocument (parseDocument fuel (Parser s 0))"
    by (rule spec_parseDocument) simp
  with assms show ?thesis
    by (auto simp: parseOsmOpeningHours_def spec_def Let_def split: res.splits if_splits)
qed

theorem parse_error_position_witness:
  "\<exists>m k. parseOsmOpeningHours 8 ''Mo ;'' = Some (ParseFail m k) \<and> k \<le> length ''Mo ;''"
proof -
  have "parseOsmOpeningHours 8 ''Mo ;'' = Some (ParseFail ''Trailing rule separator is not allowed'' 4)"
    by code_simp
  then show ?thesis using parse_error_position by blast
qed

text \<open>
  The fuel only bounds the loops of the model: a result, once there, never changes.\<close>

theorem parse_fuel_stable:
  "parseOsmOpeningHours fuel s = Some r \<Longrightarrow> fuel \<le> fuel' \<Longrightarrow> parseOsmOpeningHours fuel' s = Some r"
  by (rule parse_fuel_irrelevant)

theorem parse_fuel_stable_witness:
  "parseOsmOpeningHours 8 ''24/7'' = parseOsmOpeningHours 800 ''24/7''"
proof -
  have "parseOsmOpeningHours 8 ''24/7'' \<noteq> None" by code_simp
  then show ?thesis using parse_fuel_stable [of 8 "''24/7''" _ 800] by auto
qed

text \<open>
  C34. The loop that does not end: for an input that starts with a no-break space and \<open>PH\<close> (not
  followed by a letter) no fuel is enough. The lookahead \<open>peekWord\<close> skips every white space, the
  readers only four characters, so the loop of \<open>parseWeekdaySelectors\<close> sees the same holiday
  selector again and again.
\<close>

theorem parse_nbsp_holiday_diverges:
  assumes "case t of [] \<Rightarrow> True | c # _ \<Rightarrow> \<not> isAlpha c"
  shows "parseOsmOpeningHours fuel (CHR 0xA0 # ''PH'' @ t) = None"
  using assms by (rule nbsp_parse)

theorem parse_nbsp_holiday_diverges_witness:
  "parseOsmOpeningHours 1000 (CHR 0xA0 # ''PH'' @ '' off'') = None"
  by (rule parse_nbsp_holiday_diverges) (simp add: isAlpha_def)

text \<open>
  Round trip of comments: whatever characters a comment has, quotes and backslashes included,
  its quoted and escaped text parses back to the comment, with the cursor right behind it.
\<close>

theorem comment_roundtrip:
  "parseCommentString (Parser (quotedComment c @ r) k) =
     Ok c (Parser r (k + length (quotedComment c)))"
  by (simp add: parseCommentString_def skipWhitespace_def advance_def quotedComment_def
      isSkipSpace_def commentLoop_escape)

text \<open>
  Round trip of the editor: reading the weekday check boxes back from the selectors the editor
  writes gives the chosen days in week order and the holiday flags; the "school holidays and"
  mode survives exactly when it has days to attach to.
\<close>

theorem weekday_selection_roundtrip:
  "extractSimpleWeekdaySelection (buildSimpleWeekdaySelectors s) =
     Some \<lparr>selWeekdays = filter (\<lambda>w. w \<in> set (selWeekdays s)) OSM_WEEKDAYS,
           includePH = includePH s, includeSH = includeSH s,
           shAndMode = (includeSH s \<and> shAndMode s \<and> selWeekdays s \<noteq> [])\<rparr>"
  by (rule extract_build)

text \<open>
  The canonical text is not always stable: \<open>2025/1 Jan\<close> has a year selector and a month
  selector, its canonical text drops the step, and that text parses to another document, whose
  month selector holds the year.
\<close>

theorem canonical_not_stable:
  "parseOsmOpeningHours 12 ''2025/1 Jan'' =
     Some (ParseOk [(createDefaultOpeningHoursRule Semicolon)
             \<lparr>years := [\<lparr>yearFrom = 2025, yearTo = None, yearOpenEnd = False, yearStep = Some 1\<rparr>],
              months := [Months None Jan None], weekdays := [], times := []\<rparr>] ''2025 Jan'') \<and>
   parseOsmOpeningHours 12 ''2025 Jan'' =
     Some (ParseOk [(createDefaultOpeningHoursRule Semicolon)
             \<lparr>years := [], months := [Months (Some 2025) Jan None], weekdays := [], times := []\<rparr>]
            ''2025 Jan'')"
  by code_simp

end
