(* ===== verification/Service_Types.thy ===== *)
theory Service_Types
  imports Prelude
begin

text \<open>
  The data of the service plugin system: the manifest types of
  \<open>packages/extension-contracts/src/service-types.ts\<close> and the registry types of
  \<open>packages/core/src/services/types.ts\<close>. Every TypeScript interface is a record with one field
  per property, every literal union a datatype; an optional property is an \<open>option\<close>, a
  \<open>Record<string, T>\<close> an association list in insertion order. Free-form values (\<open>unknown\<close>) are
  JSON values. A truth test on an optional flag is \<open>truthy\<close>.
\<close>

section \<open>JSON values\<close>

text \<open>
  \<open>JNum\<close> keeps a number as JavaScript prints it: no modelled operation computes with a free-form
  number.
\<close>

datatype json =
    JNull
  | JBool bool
  | JNum string
  | JStr string
  | JArr "json list"
  | JObj "(string \<times> json) list"

fun jsonProp :: "string \<Rightarrow> json \<Rightarrow> json option" where
  "jsonProp k (JObj ps) = map_of ps k"
| "jsonProp k _ = None"

fun jsonString :: "json \<Rightarrow> string option" where
  "jsonString (JStr s) = Some s"
| "jsonString _ = None"

definition truthy :: "bool option \<Rightarrow> bool" where
  "truthy b \<longleftrightarrow> b = Some True"

definition elems :: "'a list option \<Rightarrow> 'a list" where
  "elems xs = (case xs of None \<Rightarrow> [] | Some ys \<Rightarrow> ys)"

section \<open>Manifests\<close>

datatype ServiceQuality = BuiltIn | CommunityVerified | Community

datatype HealthCheckType = HttpCheck | TcpCheck | ExecCheck

record ServiceHealthCheck =
  hcType :: HealthCheckType
  hcPath :: "string option"
  hcPort :: "nat option"
  hcCommand :: "string list option"
  hcInterval :: "string option"
  hcTimeout :: "string option"
  hcRetries :: "nat option"
  hcStartPeriod :: "string option"

datatype PortProtocol = Tcp | Udp

record ServicePortMapping =
  pmContainer :: nat
  pmHost :: nat
  pmProtocol :: "PortProtocol option"
  pmBindAddress :: "string option"

record ServiceProxyAdditionalRoute =
  arPathPrefix :: "string option"
  arPath :: "string option"
  arMiddleware :: "string list option"

record ServiceProxyHost =
  phDefault :: string
  phConfigKey :: "string option"

record ServiceProxyExposure =
  proxyEnabled :: bool
  proxyHost :: "ServiceProxyHost option"
  proxyPathPrefix :: "string option"
  stripPrefix :: "bool option"
  proxyMiddleware :: "string list option"
  authRequired :: "bool option"
  proxyPriority :: "nat option"
  additionalRoutes :: "ServiceProxyAdditionalRoute list option"

record ServiceExposure =
  hostPorts :: "ServicePortMapping list option"
  proxy :: "ServiceProxyExposure option"

datatype BackupMode = Tar | PgDump

record ServiceVolume =
  volName :: string
  volMountAt :: string
  volReadOnly :: "bool option"
  volBackup :: "bool option"
  volBackupMode :: "BackupMode option"

record ServiceConsumes =
  conType :: string
  conInstance :: "string option"
  conMountAt :: string
  conTargetFilename :: "string option"
  conReadOnly :: "bool option"
  conRequired :: "bool option"

record ServiceProduces =
  prodType :: string
  prodInstance :: "string option"
  prodSourceDir :: string

record ServiceBindMount =
  bmSource :: string
  bmTarget :: string
  bmReadOnly :: "bool option"
  bmOptional :: "bool option"
  bmWritableCopy :: "string option"

datatype CommandLine = Argv "string list" | ShellLine string

datatype GpuCount = GpuNumber nat | GpuAll

record ServiceGpu =
  gpuDriver :: string
  gpuCount :: GpuCount
  gpuCapabilities :: "string list"

datatype NetworkMode = Bridge | HostNetwork

datatype RestartPolicy = RestartNo | RestartOnFailure | RestartAlways | RestartUnlessStopped

datatype DependsCondition = ServiceStarted | ServiceHealthy

record ServiceDependsOn =
  depService :: string
  depCondition :: "DependsCondition option"

record ServiceLogging =
  logDriver :: string
  logOptions :: "(string \<times> string) list option"

record ServiceContainer =
  image :: string
  tag :: string
  digest :: "string option"
  containerName :: "string option"
  expose :: "nat list option"
  networkAliases :: "string list option"
  command :: "CommandLine option"
  entrypoint :: "CommandLine option"
  environment :: "(string \<times> string) list option"
  envFile :: "string list option"
  workingDir :: "string option"
  user :: "string option"
  shmSize :: "string option"
  capAdd :: "string list option"
  capDrop :: "string list option"
  devices :: "string list option"
  gpu :: "ServiceGpu option"
  privileged :: "bool option"
  networkMode :: "NetworkMode option"
  memory :: "string option"
  restart :: "RestartPolicy option"
  stopGracePeriod :: "string option"
  healthcheck :: "ServiceHealthCheck option"
  dependsOn :: "ServiceDependsOn list option"
  logging :: "ServiceLogging option"

definition serviceContainerImageReference :: "ServiceContainer \<Rightarrow> string" where
  "serviceContainerImageReference c =
     (let tagged = image c @ '':'' @ tag c
      in case digest c of
           Some d \<Rightarrow> if d \<noteq> [] then tagged @ ''@'' @ d else tagged
         | None \<Rightarrow> tagged)"

record ServiceBuildImage =
  biImage :: string
  biTag :: string
  biDigest :: string

record ServiceUI =
  uiIcon :: "string option"
  uiCategory :: "string option"

datatype SubjectStrategy = Collector | OperatorTask | NotPersonal

record ServiceSubjectData =
  storesPersonalData :: bool
  strategy :: SubjectStrategy
  registrationIds :: "string list"
  operatorInstructions :: "string option"

record ServiceProvidesEntry =
  capability :: string
  metadata :: "json option"

datatype ServiceProvides = ProvidesName string | ProvidesEntry ServiceProvidesEntry

definition normalizeProvides :: "ServiceProvides list option \<Rightarrow> ServiceProvidesEntry list" where
  "normalizeProvides provides =
     (case provides of
        None \<Rightarrow> []
      | Some ps \<Rightarrow>
          map (\<lambda>p. case p of
                 ProvidesName c \<Rightarrow> \<lparr>capability = c, metadata = None\<rparr>
               | ProvidesEntry e \<Rightarrow> e) ps)"

definition getProvidedCapabilityNames :: "ServiceProvides list option \<Rightarrow> string list" where
  "getProvidedCapabilityNames provides = map capability (normalizeProvides provides)"

record ServiceEnvVar =
  evName :: string
  evRequired :: "bool option"
  evDescription :: "string option"
  evDefault :: "string option"

record ServiceManifest =
  manifestId :: string
  manifestName :: string
  version :: string
  description :: "string option"
  author :: "string option"
  license :: "string option"
  homepage :: "string option"
  documentation :: "string option"
  quality :: ServiceQuality
  platform :: "string option"
  container :: ServiceContainer
  provides :: "ServiceProvides list option"
  consumes :: "ServiceConsumes list option"
  produces :: "ServiceProduces list option"
  selectionDependencies :: "string list option"
  communityNetworkAccess :: "string list option"
  privateNetworks :: "string list option"
  platformNetwork :: "bool option"
  configSchema :: "(string \<times> json) list option"
  envVars :: "ServiceEnvVar list option"
  ownsSchema :: "string option"
  volumes :: "ServiceVolume list option"
  bindMounts :: "ServiceBindMount list option"
  exposure :: "ServiceExposure option"
  buildCommand :: "string option"
  buildImages :: "(string \<times> ServiceBuildImage) list option"
  ui :: "ServiceUI option"
  subjectData :: "ServiceSubjectData option"

text \<open>\<open>Inl\<close> is the \<open>Error\<close> thrown for a role the manifest does not pin.\<close>

definition serviceBuildImageReference :: "ServiceManifest \<Rightarrow> string \<Rightarrow> string + string" where
  "serviceBuildImageReference m role =
     (case Option.bind (buildImages m) (\<lambda>images. map_of images role) of
        None \<Rightarrow>
          Inl (''Service '' @ [CHR 0x22] @ manifestId m @ [CHR 0x22]
            @ '' does not declare buildImages.'' @ role)
      | Some pinned \<Rightarrow> Inr (biImage pinned @ '':'' @ biTag pinned @ ''@'' @ biDigest pinned))"

record ManifestProvenance =
  firstParty :: bool

section \<open>The registry's types\<close>

record LoadedService =
  manifest :: ServiceManifest
  directory :: string
  isBuiltIn :: bool
  enabled :: bool

abbreviation serviceId :: "LoadedService \<Rightarrow> string" where
  "serviceId s \<equiv> manifestId (manifest s)"

record IntegrationRequirement =
  reqService :: "string option"
  reqCapability :: "string option"
  reqOptional :: "bool option"

datatype ResolutionSource = ExactService | Capability | GitUrl

record ResolutionMatch =
  matchServiceId :: string
  matchSource :: ResolutionSource

datatype ResolutionReason = Ambiguous | NoProviders | ServiceNotInstalled | ServiceDisabled

record ResolutionResult =
  satisfied :: bool
  resMatch :: "ResolutionMatch option"
  candidates :: "string list option"
  reason :: "ResolutionReason option"

section \<open>Blank manifests\<close>

text \<open>A manifest with only its required properties, for concrete examples.\<close>

definition blankContainer :: ServiceContainer where
  "blankContainer =
     \<lparr>image = ''img'', tag = ''1'', digest = None, containerName = None, expose = None,
      networkAliases = None, command = None, entrypoint = None, environment = None,
      envFile = None, workingDir = None, user = None, shmSize = None, capAdd = None,
      capDrop = None, devices = None, gpu = None, privileged = None, networkMode = None,
      memory = None, restart = None, stopGracePeriod = None, healthcheck = None,
      dependsOn = None, logging = None\<rparr>"

definition blankManifest :: "string \<Rightarrow> ServiceManifest" where
  "blankManifest i =
     \<lparr>manifestId = i, manifestName = i, version = ''1'', description = None, author = None,
      license = None, homepage = None, documentation = None, quality = Community,
      platform = None, container = blankContainer, provides = None, consumes = None,
      produces = None, selectionDependencies = None, communityNetworkAccess = None,
      privateNetworks = None, platformNetwork = None, configSchema = None, envVars = None,
      ownsSchema = None, volumes = None, bindMounts = None, exposure = None,
      buildCommand = None, buildImages = None, ui = None, subjectData = None\<rparr>"

definition blankService :: "string \<Rightarrow> LoadedService" where
  "blankService i =
     \<lparr>manifest = blankManifest i, directory = ''/services/'' @ i, isBuiltIn = False,
      enabled = True\<rparr>"

lemma blankService_id [simp]: "serviceId (blankService i) = i"
  by (simp add: blankService_def blankManifest_def)

lemma elems_simps [simp]: "elems None = []" "elems (Some xs) = xs"
  by (simp_all add: elems_def)

end
