(* ===== verification/Graph_Closure.thy ===== *)
theory Graph_Closure
  imports Prelude
begin

text \<open>
  Reachability in a finite graph given by a successor function, and the invariant of a worklist
  search. The service plugin system searches such graphs three times: the selection expands
  required services (\<open>Service_Selection\<close>), the creation closure follows \<open>depends_on\<close>
  (\<open>Service_Creation\<close>) and the cycle check follows data producers (\<open>Service_Resolver\<close>).
\<close>

inductive reachable :: "('a \<Rightarrow> 'a list) \<Rightarrow> 'a set \<Rightarrow> 'a \<Rightarrow> bool"
  for succs :: "'a \<Rightarrow> 'a list" and roots :: "'a set"
where
  root: "x \<in> roots \<Longrightarrow> reachable succs roots x"
| step: "reachable succs roots x \<Longrightarrow> y \<in> set (succs x) \<Longrightarrow> reachable succs roots y"

definition closedUnder :: "('a \<Rightarrow> 'a list) \<Rightarrow> 'a set \<Rightarrow> bool" where
  "closedUnder succs S \<longleftrightarrow> (\<forall>x \<in> S. set (succs x) \<subseteq> S)"

lemma reachable_least:
  assumes "roots \<subseteq> S" and "closedUnder succs S" and "reachable succs roots x"
  shows "x \<in> S"
  using assms(3) by induction (use assms(1,2) in \<open>auto simp: closedUnder_def\<close>)

lemma reachable_mono:
  assumes "reachable succs roots x" and "roots \<subseteq> roots'"
  shows "reachable succs roots' x"
  using assms(1) by induction (use assms(2) in \<open>auto intro: reachable.intros\<close>)

lemma reachable_closed: "closedUnder succs {x. reachable succs roots x}"
  by (auto simp: closedUnder_def intro: reachable.step)

text \<open>
  The search invariant: what is found or pending contains the roots and is reachable, and the
  successors of what is found are found or pending. A search that keeps it and ends with nothing
  pending has found exactly the reachable nodes.
\<close>

definition searchInv :: "('a \<Rightarrow> 'a list) \<Rightarrow> 'a set \<Rightarrow> 'a set \<Rightarrow> 'a set \<Rightarrow> bool" where
  "searchInv succs roots found pending \<longleftrightarrow>
     roots \<subseteq> found \<union> pending \<and>
     (\<forall>x \<in> found \<union> pending. reachable succs roots x) \<and>
     (\<forall>x \<in> found. set (succs x) \<subseteq> found \<union> pending)"

locale graph_search =
  fixes succs :: "'a \<Rightarrow> 'a list"
begin

lemma start: "searchInv succs roots {} roots"
  by (auto simp: searchInv_def intro: reachable.root)

lemma skip:
  assumes "searchInv succs roots found (insert x pending)" and "x \<in> found"
  shows "searchInv succs roots found pending"
  using assms unfolding searchInv_def by (metis Un_insert_right insert_absorb Un_iff)

lemma visit:
  assumes "searchInv succs roots found (insert x pending)"
    and "found \<union> pending \<union> set (succs x) \<subseteq> insert x (found \<union> pending')"
    and "pending' \<subseteq> pending \<union> set (succs x)"
  shows "searchInv succs roots (insert x found) pending'"
proof -
  have reach: "reachable succs roots y" if "y \<in> insert x (found \<union> pending)" for y
    using assms(1) that by (auto simp: searchInv_def)
  then have "reachable succs roots y" if "y \<in> set (succs x)" for y
    using that by (auto intro: reachable.step)
  with reach assms show ?thesis unfolding searchInv_def by blast
qed

lemma finish:
  assumes "searchInv succs roots found {}"
  shows "found = {x. reachable succs roots x}"
proof (intro equalityI subsetI CollectI)
  show "x \<in> found" if "x \<in> {x. reachable succs roots x}" for x
    using reachable_least [of roots found succs x] assms that
    by (auto simp: searchInv_def closedUnder_def)
qed (use assms in \<open>auto simp: searchInv_def\<close>)

end

end
