(* ===== verification/Service_Selection.thy ===== *)
theory Service_Selection
  imports Service_Types Graph_Closure
begin

text \<open>
  \<open>packages/core/src/services/selection.ts\<close> with the two modules it builds on, \<open>presets.ts\<close> and
  \<open>external-proxy.ts\<close>: the operator's list of service ids, the presets, and the expansion of the
  requested services to everything they need (\<open>selectionDependencies\<close>, \<open>container.dependsOn\<close>,
  the bundled proxy, the producers of consumed data). JavaScript sets are lists in insertion
  order; the expansion loop over the growing queue takes fuel, and \<open>expand_returns\<close> shows that
  one round per installed service is enough.
\<close>

section \<open>Lists of service ids\<close>

definition DEFAULT_SELECTED_SERVICE_IDS :: "string list" where
  "DEFAULT_SELECTED_SERVICE_IDS =
     [''traefik'', ''well-known'', ''app-api'', ''app-web'', ''postgis'', ''redis'',
      ''data-manager'']"

definition addToken :: "string list \<Rightarrow> string \<Rightarrow> string list" where
  "addToken out token = (let i = trim token in if i = [] \<or> i \<in> set out then out else out @ [i])"

definition normalizeServiceIds :: "string list \<Rightarrow> string list" where
  "normalizeServiceIds ids = foldl (\<lambda>out raw. foldl addToken out (splitList raw)) [] ids"

definition parseServiceIdList :: "string option \<Rightarrow> string list option" where
  "parseServiceIdList raw =
     (case raw of
        None \<Rightarrow> None
      | Some s \<Rightarrow> let ids = normalizeServiceIds [s] in if ids \<noteq> [] then Some ids else None)"

definition formatServiceIdList :: "string list \<Rightarrow> string" where
  "formatServiceIdList ids = join '','' ids"

section \<open>Presets\<close>

definition PRESETS :: "(string \<times> string list) list" where
  "PRESETS =
     [(''app'', [''app-api'', ''app-web'', ''well-known'']),
      (''proxy'', [''traefik'']),
      (''routing'', [''osrm'', ''valhalla'']),
      (''transit'', [''motis'', ''motis-feed-proxy'', ''otp'']),
      (''pelias'', [''pelias'', ''pelias-pip'', ''pelias-placeholder'', ''elasticsearch'']),
      (''nominatim'', [''nominatim'']),
      (''photon'', [''photon'']),
      (''overpass'', [''overpass'']),
      (''tiles'', [''tileserver'']),
      (''martin'', [''martin'']),
      (''dev'', [''postgis'', ''redis''])]"

datatype UnknownPresetError = UnknownPresetError string "string list"

definition unknownPresetMessage :: "UnknownPresetError \<Rightarrow> string" where
  "unknownPresetMessage e =
     (case e of
        UnknownPresetError preset available \<Rightarrow>
          ''Unknown preset '' @ [CHR 0x22] @ preset @ [CHR 0x22] @ ''. Available presets: ''
          @ join '', '' available)"

fun expandTokens :: "string list \<Rightarrow> string list \<Rightarrow> UnknownPresetError + string list" where
  "expandTokens out [] = Inr out"
| "expandTokens out (token # tokens) =
     (let name = trim token
      in if name = [] then expandTokens out tokens
         else case map_of PRESETS name of
                None \<Rightarrow> Inl (UnknownPresetError name (map fst PRESETS))
              | Some ids \<Rightarrow> expandTokens (out @ ids) tokens)"

definition expandPresets :: "string list \<Rightarrow> UnknownPresetError + string list" where
  "expandPresets presetNames = expandTokens [] (concat (map splitList presetNames))"

section \<open>The external proxy\<close>

definition EXTERNAL_PROXY_NETWORK_ENV :: string where
  "EXTERNAL_PROXY_NETWORK_ENV = ''OPENMAPX_PROXY_NETWORK''"

definition DOCKER_NETWORK_NAME :: "string \<Rightarrow> bool" where
  "DOCKER_NETWORK_NAME s \<longleftrightarrow>
     (case s of
        [] \<Rightarrow> False
      | c # cs \<Rightarrow>
          (isAlpha c \<or> isDigit c) \<and> length cs \<le> 127 \<and>
          (\<forall>d \<in> set cs. isAlpha d \<or> isDigit d \<or> d \<in> {CHR ''_'', CHR ''.'', CHR ''-''}))"

text \<open>\<open>Inl\<close> is the error thrown for a value Docker would reject.\<close>

definition readExternalProxyNetwork :: "(string \<rightharpoonup> string) \<Rightarrow> string + string option" where
  "readExternalProxyNetwork env =
     (case env EXTERNAL_PROXY_NETWORK_ENV of
        None \<Rightarrow> Inr None
      | Some raw \<Rightarrow>
          let v = trim raw
          in if v = [] then Inr None
             else if \<not> DOCKER_NETWORK_NAME v
             then Inl (EXTERNAL_PROXY_NETWORK_ENV @ '' is not a valid Docker network name'')
             else Inr (Some v))"

section \<open>Producers\<close>

record ProducerEntry =
  producerId :: string
  entryProduces :: ServiceProduces

record ProducerIndex =
  defaultIdx :: "string \<rightharpoonup> ProducerEntry"
  instancedIdx :: "string \<rightharpoonup> ProducerEntry"
  byType :: "string \<rightharpoonup> ProducerEntry list"

definition instanceKey :: "string \<Rightarrow> string \<Rightarrow> string" where
  "instanceKey t i = t @ ''/'' @ i"

definition producerEntries :: "LoadedService list \<Rightarrow> ProducerEntry list" where
  "producerEntries services =
     concat (map (\<lambda>svc. map (\<lambda>p. \<lparr>producerId = serviceId svc, entryProduces = p\<rparr>)
                          (elems (produces (manifest svc)))) services)"

definition indexEntry :: "ProducerIndex \<Rightarrow> ProducerEntry \<Rightarrow> ProducerIndex" where
  "indexEntry index entry =
     (let p = entryProduces entry; t = prodType p
      in \<lparr>defaultIdx =
            (if prodInstance p = None \<and> defaultIdx index t = None
             then (defaultIdx index)(t \<mapsto> entry) else defaultIdx index),
          instancedIdx =
            (case prodInstance p of
               None \<Rightarrow> instancedIdx index
             | Some i \<Rightarrow>
                 if instancedIdx index (instanceKey t i) = None
                 then (instancedIdx index)(instanceKey t i \<mapsto> entry) else instancedIdx index),
          byType = (byType index)(t \<mapsto> elems (byType index t) @ [entry])\<rparr>)"

definition emptyIndex :: ProducerIndex where
  "emptyIndex = \<lparr>defaultIdx = Map.empty, instancedIdx = Map.empty, byType = Map.empty\<rparr>"

definition buildProducerIndex :: "LoadedService list \<Rightarrow> ProducerIndex" where
  "buildProducerIndex services = foldl indexEntry emptyIndex (producerEntries services)"

definition resolveProducer :: "ServiceConsumes \<Rightarrow> ProducerIndex \<Rightarrow> ProducerEntry option" where
  "resolveProducer con index =
     (case conInstance con of
        Some i \<Rightarrow> instancedIdx index (instanceKey (conType con) i)
      | None \<Rightarrow>
          (case defaultIdx index (conType con) of
             Some d \<Rightarrow> Some d
           | None \<Rightarrow>
               (case elems (byType index (conType con)) of
                  [e] \<Rightarrow> Some e
                | _ \<Rightarrow> None)))"

section \<open>The environment of app-api\<close>

definition SERVICE_ENV_URL_MAP :: "(string \<times> string \<times> nat) list" where
  "SERVICE_ENV_URL_MAP =
     [(''overpass'', ''OVERPASS_URL'', 80), (''nominatim'', ''NOMINATIM_URL'', 8080),
      (''motis'', ''MOTIS_URL'', 8080)]"

definition APPLIED_SERVICES_ENV :: string where
  "APPLIED_SERVICES_ENV = ''OPENMAPX_APPLIED_SERVICES''"

definition APP_API_ENV_PASSTHROUGH_PREFIXES :: "string list" where
  "APP_API_ENV_PASSTHROUGH_PREFIXES = [''INTEGRATION_'', ''SERVICE_'']"

definition composeRef :: "string \<Rightarrow> string \<Rightarrow> string" where
  "composeRef var def = ''${'' @ var @ '':-'' @ def @ ''}''"

text \<open>Writing a property of a JavaScript object: in place, or appended.\<close>

fun setProp :: "string \<Rightarrow> 'v \<Rightarrow> (string \<times> 'v) list \<Rightarrow> (string \<times> 'v) list" where
  "setProp k v [] = [(k, v)]"
| "setProp k v ((k', v') # rest) = (if k' = k then (k, v) # rest else (k', v') # setProp k v rest)"

definition buildAppApiServiceEnv ::
  "LoadedService list \<Rightarrow> (string \<times> json) list \<Rightarrow> string list \<Rightarrow> (string \<times> json) list"
where
  "buildAppApiServiceEnv enabledServices existingEnv passthroughKeys =
     (let ids = map serviceId enabledServices;
          next0 = setProp APPLIED_SERVICES_ENV (JStr (formatServiceIdList ids)) existingEnv;
          next1 = foldl (\<lambda>env (sid, envVar, port).
                    if sid \<in> set ids
                    then setProp envVar
                           (JStr (composeRef envVar (''http://'' @ sid @ '':'' @ showNat port))) env
                    else env) next0 SERVICE_ENV_URL_MAP
      in foldl (\<lambda>env key.
           if \<not> list_ex (startsWith key) APP_API_ENV_PASSTHROUGH_PREFIXES then env
           else setProp key (JStr (composeRef key [])) env) next1 passthroughKeys)"

section \<open>Expanding the selection\<close>

text \<open>\<open>opts.externalProxyNetwork\<close>: absent (read the environment), \<open>null\<close>, or a name.\<close>

datatype ExternalProxyOption = ReadEnvironment | IgnoreEnvironment | ProxyNetwork string

record ExpandServiceSelectionOptions =
  allowMissingSelected :: bool
  includeProxyForProxiedServices :: "bool option"
  externalProxyNetwork :: ExternalProxyOption

record ExpandedServiceSelection =
  requestedIds :: "string list"
  enabledIds :: "string list"
  enabledIdsOrdered :: "string list"
  missingIds :: "string list"
  expansionWarnings :: "string list"

record ExpansionState =
  expEnabled :: "string list"
  expQueue :: "string list"
  expWarnings :: "string list"

text \<open>\<open>new Map(services.map(...))\<close>: of two services with one id the last is kept.\<close>

definition byId :: "LoadedService list \<Rightarrow> string \<Rightarrow> LoadedService option" where
  "byId services i = find (\<lambda>s. serviceId s = i) (rev services)"

definition quote :: "string \<Rightarrow> string" where
  "quote s = [CHR 0x22] @ s @ [CHR 0x22]"

definition resolveExternalProxy ::
  "(string \<rightharpoonup> string) \<Rightarrow> ExternalProxyOption \<Rightarrow> string + string option"
where
  "resolveExternalProxy env opt =
     (case opt of
        IgnoreEnvironment \<Rightarrow> Inr None
      | ProxyNetwork n \<Rightarrow> Inr (Some n)
      | ReadEnvironment \<Rightarrow> readExternalProxyNetwork env)"

definition externalActive :: "string option \<Rightarrow> bool" where
  "externalActive network = (case network of None \<Rightarrow> False | Some n \<Rightarrow> n \<noteq> [])"

definition enqueue ::
  "LoadedService list \<Rightarrow> bool \<Rightarrow> string \<Rightarrow> string \<Rightarrow> ExpansionState \<Rightarrow> ExpansionState"
where
  "enqueue services ext why i st =
     (if ext \<and> i = ''traefik'' then st
      else case byId services i of
        None \<Rightarrow>
          st\<lparr>expWarnings := expWarnings st @
               [''Service '' @ quote i @ '' referenced by '' @ why @ '' is not installed'']\<rparr>
      | Some _ \<Rightarrow>
          if i \<in> set (expEnabled st) then st
          else st\<lparr>expEnabled := expEnabled st @ [i], expQueue := expQueue st @ [i]\<rparr>)"

definition enqueueRequested ::
  "LoadedService list \<Rightarrow> bool \<Rightarrow> bool \<Rightarrow> string list \<Rightarrow> ExpansionState \<times> string list"
where
  "enqueueRequested services ext allowMissing requested =
     foldl (\<lambda>(st, missing) i.
              if byId services i \<noteq> None then (enqueue services ext ''selection'' i st, missing)
              else if \<not> allowMissing then (st, missing @ [i]) else (st, missing))
       (\<lparr>expEnabled = [], expQueue = [], expWarnings = []\<rparr>, []) requested"

definition consumeStep ::
  "LoadedService list \<Rightarrow> bool \<Rightarrow> ProducerIndex \<Rightarrow> string \<Rightarrow> ExpansionState \<Rightarrow> ServiceConsumes \<Rightarrow>
   ExpansionState"
where
  "consumeStep services ext index i st con =
     (case resolveProducer con index of
        Some producer \<Rightarrow>
          if producerId producer \<noteq> i
          then enqueue services ext
                 (''data dependency '' @ quote (conType con) @ '' of '' @ quote i)
                 (producerId producer) st
          else st
      | None \<Rightarrow>
          if conRequired con \<noteq> Some False
          then st\<lparr>expWarnings := expWarnings st @
                   [''Service '' @ quote i @ '' consumes required data type ''
                    @ quote (conType con) @ '' but no unique producer is installed'']\<rparr>
          else st)"

definition proxied :: "LoadedService \<Rightarrow> bool" where
  "proxied svc \<longleftrightarrow>
     (case Option.bind (exposure (manifest svc)) proxy of
        None \<Rightarrow> False
      | Some p \<Rightarrow> proxyEnabled p)"

definition wantsProxy ::
  "LoadedService list \<Rightarrow> ExpandServiceSelectionOptions \<Rightarrow> string \<Rightarrow> LoadedService \<Rightarrow> bool"
where
  "wantsProxy services opts i svc \<longleftrightarrow>
     includeProxyForProxiedServices opts \<noteq> Some False \<and> i \<noteq> ''traefik'' \<and> proxied svc \<and>
     byId services ''traefik'' \<noteq> None"

definition expandOne ::
  "LoadedService list \<Rightarrow> bool \<Rightarrow> ProducerIndex \<Rightarrow> ExpandServiceSelectionOptions \<Rightarrow> string \<Rightarrow>
   ExpansionState \<Rightarrow> ExpansionState"
where
  "expandOne services ext index opts i st =
     (if i = [] then st
      else case byId services i of
        None \<Rightarrow> st
      | Some svc \<Rightarrow>
          let st1 = foldl (\<lambda>s d. enqueue services ext (''selectionDependencies of '' @ quote i) d s)
                      st (elems (selectionDependencies (manifest svc)));
              st2 = foldl (\<lambda>s d. enqueue services ext (''container.dependsOn of '' @ quote i)
                                  (depService d) s)
                      st1 (elems (dependsOn (container (manifest svc))));
              st3 = (if wantsProxy services opts i svc
                     then enqueue services ext (''proxy exposure of '' @ quote i) ''traefik'' st2
                     else st2)
          in foldl (consumeStep services ext index i) st3 (elems (consumes (manifest svc))))"

fun expandLoop ::
  "nat \<Rightarrow> LoadedService list \<Rightarrow> bool \<Rightarrow> ProducerIndex \<Rightarrow> ExpandServiceSelectionOptions \<Rightarrow> nat \<Rightarrow>
   ExpansionState \<Rightarrow> ExpansionState option"
where
  "expandLoop 0 services ext index opts k st =
     (if k < length (expQueue st) then None else Some st)"
| "expandLoop (Suc fuel) services ext index opts k st =
     (if k < length (expQueue st)
      then expandLoop fuel services ext index opts (Suc k)
             (expandOne services ext index opts (expQueue st ! k) st)
      else Some st)"

text \<open>\<open>Inl\<close> is a thrown error; \<open>None\<close> a loop cut off by the fuel.\<close>

definition expandServiceSelection ::
  "nat \<Rightarrow> (string \<rightharpoonup> string) \<Rightarrow> LoadedService list \<Rightarrow> string list \<Rightarrow>
   ExpandServiceSelectionOptions \<Rightarrow> (string + ExpandedServiceSelection) option"
where
  "expandServiceSelection fuel env services ids opts =
     (let requested = normalizeServiceIds ids
      in case resolveExternalProxy env (externalProxyNetwork opts) of
        Inl err \<Rightarrow> Some (Inl err)
      | Inr network \<Rightarrow>
          let ext = externalActive network;
              index = buildProducerIndex services
          in (case enqueueRequested services ext (allowMissingSelected opts) requested of
                (st, missing) \<Rightarrow>
                  (case expandLoop fuel services ext index opts 0 st of
                     None \<Rightarrow> None
                   | Some final \<Rightarrow>
                       Some (Inr
                         \<lparr>requestedIds = requested,
                          enabledIds = expEnabled final,
                          enabledIdsOrdered =
                            filter (\<lambda>i. i \<in> set (expEnabled final)) (map serviceId services),
                          missingIds = missing,
                          expansionWarnings = expWarnings final\<rparr>))))"

section \<open>Expansion as graph search\<close>

definition accepted :: "LoadedService list \<Rightarrow> bool \<Rightarrow> string \<Rightarrow> bool" where
  "accepted services ext i \<longleftrightarrow> \<not> (ext \<and> i = ''traefik'') \<and> byId services i \<noteq> None"

definition requirements ::
  "LoadedService list \<Rightarrow> ExpandServiceSelectionOptions \<Rightarrow> string \<Rightarrow> string list"
where
  "requirements services opts i =
     (if i = [] then []
      else case byId services i of
        None \<Rightarrow> []
      | Some svc \<Rightarrow>
          elems (selectionDependencies (manifest svc)) @
          map depService (elems (dependsOn (container (manifest svc)))) @
          (if wantsProxy services opts i svc then [''traefik''] else []) @
          filter (\<lambda>p. p \<noteq> i)
            (map producerId (List.map_filter (\<lambda>con. resolveProducer con (buildProducerIndex services))
               (elems (consumes (manifest svc))))))"

definition requiredServices ::
  "LoadedService list \<Rightarrow> bool \<Rightarrow> ExpandServiceSelectionOptions \<Rightarrow> string \<Rightarrow> string list"
where
  "requiredServices services ext opts i =
     filter (accepted services ext) (requirements services opts i)"

definition expInv :: "LoadedService list \<Rightarrow> bool \<Rightarrow> ExpansionState \<Rightarrow> bool" where
  "expInv services ext st \<longleftrightarrow>
     expEnabled st = expQueue st \<and> distinct (expQueue st) \<and>
     (\<forall>i \<in> set (expQueue st). accepted services ext i)"

text \<open>What a call does to the queue: it grows at its end by accepted ids out of \<open>A\<close>.\<close>

definition grows :: "LoadedService list \<Rightarrow> bool \<Rightarrow> string set \<Rightarrow> ExpansionState \<Rightarrow> ExpansionState \<Rightarrow> bool" where
  "grows services ext A st st' \<longleftrightarrow>
     expInv services ext st' \<and> (\<exists>new. expQueue st' = expQueue st @ new) \<and>
     set (expQueue st') = set (expQueue st) \<union> {i \<in> A. accepted services ext i}"

lemma grows_refl: "expInv services ext st \<Longrightarrow> grows services ext {} st st"
  by (simp add: grows_def)

lemma grows_trans:
  "grows services ext A st st' \<Longrightarrow> grows services ext B st' st'' \<Longrightarrow> grows services ext (A \<union> B) st st''"
  by (auto simp: grows_def)

lemma grows_enqueue:
  "expInv services ext st \<Longrightarrow> grows services ext {i} st (enqueue services ext why i st)"
  by (auto simp: grows_def enqueue_def expInv_def accepted_def split: option.splits)

lemma grows_foldl:
  assumes "\<And>st x. expInv services ext st \<Longrightarrow> grows services ext (A x) st (f st x)"
    and "expInv services ext st"
  shows "grows services ext (\<Union>x \<in> set xs. A x) st (foldl f st xs)"
  using assms(2)
proof (induction xs arbitrary: st)
  case Nil
  then show ?case by (simp add: grows_refl)
next
  case (Cons x xs)
  from assms(1) [OF Cons.prems] have step: "grows services ext (A x) st (f st x)" .
  then have "grows services ext (\<Union>x \<in> set xs. A x) (f st x) (foldl f (f st x) xs)"
    by (intro Cons.IH) (simp add: grows_def)
  from grows_trans [OF step this] show ?case by simp
qed

lemma grows_enqueues:
  "expInv services ext st \<Longrightarrow>
   grows services ext (f ` set xs) st (foldl (\<lambda>s d. enqueue services ext why (f d) s) st xs)"
  using grows_foldl [where A = "\<lambda>d. {f d}" and f = "\<lambda>s d. enqueue services ext why (f d) s"]
    grows_enqueue by (simp add: UNION_singleton_eq_range)

lemma grows_consume:
  "expInv services ext st \<Longrightarrow>
   grows services ext
     {p. \<exists>e. resolveProducer con index = Some e \<and> p = producerId e \<and> p \<noteq> i} st
     (consumeStep services ext index i st con)"
proof (cases "resolveProducer con index")
  case None
  assume "expInv services ext st"
  with None show ?thesis by (auto simp: consumeStep_def grows_def expInv_def)
next
  case (Some e)
  assume inv: "expInv services ext st"
  show ?thesis
  proof (cases "producerId e = i")
    case True
    with Some inv show ?thesis by (simp add: consumeStep_def grows_refl)
  next
    case False
    with Some have "{p. \<exists>e. resolveProducer con index = Some e \<and> p = producerId e \<and> p \<noteq> i} = {producerId e}"
      by auto
    with Some False inv show ?thesis by (simp add: consumeStep_def grows_enqueue)
  qed
qed

lemma grows_expandOne:
  assumes "expInv services ext st"
  shows "grows services ext (set (requirements services opts i)) st
           (expandOne services ext (buildProducerIndex services) opts i st)"
proof (cases "i = [] \<or> byId services i = None")
  case True
  then show ?thesis using assms by (auto simp: requirements_def expandOne_def grows_refl)
next
  case False
  then obtain svc where i: "i \<noteq> []" and svc: "byId services i = Some svc" by auto
  define st1 where "st1 = foldl (\<lambda>s d. enqueue services ext (''selectionDependencies of '' @ quote i) d s)
                      st (elems (selectionDependencies (manifest svc)))"
  define st2 where "st2 = foldl (\<lambda>s d. enqueue services ext (''container.dependsOn of '' @ quote i)
                                  (depService d) s)
                      st1 (elems (dependsOn (container (manifest svc))))"
  define st3 where "st3 = (if wantsProxy services opts i svc
                     then enqueue services ext (''proxy exposure of '' @ quote i) ''traefik'' st2
                     else st2)"
  define st4 where "st4 = foldl (consumeStep services ext (buildProducerIndex services) i) st3
                      (elems (consumes (manifest svc)))"
  have 1: "grows services ext (set (elems (selectionDependencies (manifest svc)))) st st1"
    using grows_enqueues [OF assms, of "\<lambda>d. d"] by (simp add: st1_def)
  then have "expInv services ext st1" by (simp add: grows_def)
  then have 2: "grows services ext (depService ` set (elems (dependsOn (container (manifest svc))))) st1 st2"
    unfolding st2_def by (rule grows_enqueues)
  then have 3: "grows services ext (if wantsProxy services opts i svc then {''traefik''} else {}) st2 st3"
    unfolding st3_def by (auto simp: grows_def [of _ _ _ st1] intro: grows_enqueue grows_refl)
  then have "expInv services ext st3" by (simp add: grows_def)
  from grows_foldl [OF grows_consume this]
  have 4: "grows services ext
     (\<Union>con \<in> set (elems (consumes (manifest svc))).
        {p. \<exists>e. resolveProducer con (buildProducerIndex services) = Some e \<and> p = producerId e \<and> p \<noteq> i}) st3 st4"
    by (simp add: st4_def)
  have st4: "expandOne services ext (buildProducerIndex services) opts i st = st4"
    using i svc by (simp add: expandOne_def st1_def st2_def st3_def st4_def)
  have "set (requirements services opts i) =
     set (elems (selectionDependencies (manifest svc))) \<union>
     depService ` set (elems (dependsOn (container (manifest svc)))) \<union>
     (if wantsProxy services opts i svc then {''traefik''} else {}) \<union>
     (\<Union>con \<in> set (elems (consumes (manifest svc))).
        {p. \<exists>e. resolveProducer con (buildProducerIndex services) = Some e \<and> p = producerId e \<and> p \<noteq> i})"
    using i svc by (auto simp: requirements_def map_filter_def image_iff)
  then show ?thesis
    using grows_trans [OF grows_trans [OF grows_trans [OF 1 2] 3] 4] st4 by simp
qed


lemma byId_Some: "byId services i = Some svc \<Longrightarrow> svc \<in> set services \<and> serviceId svc = i"
  by (auto simp: byId_def find_Some_iff) (metis in_set_conv_nth length_rev nth_mem set_rev)

lemma byId_None: "byId services i = None \<longleftrightarrow> i \<notin> set (map serviceId services)"
  by (auto simp: byId_def find_None_iff)

lemma queue_bound:
  assumes "expInv services ext st"
  shows "length (expQueue st) \<le> length services"
proof -
  have "set (expQueue st) \<subseteq> set (map serviceId services)"
    using assms by (auto simp: expInv_def accepted_def byId_None)
  then have "card (set (expQueue st)) \<le> card (set (map serviceId services))"
    by (intro card_mono) auto
  then show ?thesis
    using assms card_length [of "map serviceId services"] distinct_card [of "expQueue st"]
    by (simp add: expInv_def)
qed

interpretation sel: graph_search "requiredServices services ext opts"
  for services ext opts .

lemma expandLoop_search:
  assumes "expInv services ext st" and "k \<le> length (expQueue st)" and "length services \<le> fuel + k"
    and "searchInv (requiredServices services ext opts) roots
           (set (take k (expQueue st))) (set (drop k (expQueue st)))"
  shows "\<exists>st'. expandLoop fuel services ext (buildProducerIndex services) opts k st = Some st' \<and>
           expInv services ext st' \<and>
           set (expQueue st') = {x. reachable (requiredServices services ext opts) roots x}"
  using assms
proof (induction fuel arbitrary: k st)
  case 0
  then have "k = length (expQueue st)" using queue_bound [OF 0(1)] by simp
  with 0 sel.finish show ?case by auto
next
  case (Suc fuel)
  show ?case
  proof (cases "k < length (expQueue st)")
    case False
    with Suc sel.finish show ?thesis by auto
  next
    case True
    let ?x = "expQueue st ! k"
    define st' where "st' = expandOne services ext (buildProducerIndex services) opts ?x st"
    have grow: "grows services ext (set (requirements services opts ?x)) st st'"
      unfolding st'_def by (rule grows_expandOne [OF Suc.prems(1)])
    then obtain new where new: "expQueue st' = expQueue st @ new" by (auto simp: grows_def)
    have k': "Suc k \<le> length (expQueue st')" "expInv services ext st'" "expQueue st' ! k = ?x"
      using True new grow by (auto simp: grows_def nth_append)
    have split: "take k (expQueue st') = take k (expQueue st)"
        "drop (Suc k) (expQueue st') = drop (Suc k) (expQueue st) @ new"
      using True new by auto
    have all: "set (expQueue st') = insert ?x (set (take k (expQueue st)) \<union> set (drop (Suc k) (expQueue st')))"
      using take_drop_queue(2) [of k "expQueue st'"] k' split(1)
      by (metis Suc_le_eq append_take_drop_id insert_is_Un set_append sup_assoc)
    have sets: "set (expQueue st') = set (expQueue st) \<union> set (requiredServices services ext opts ?x)"
      using grow by (auto simp: grows_def requiredServices_def)
    have "distinct (expQueue st @ new)" using k'(2) new by (simp add: expInv_def)
    with sets new have new_req: "set new \<subseteq> set (requiredServices services ext opts ?x)" by auto
    have "searchInv (requiredServices services ext opts) roots
        (insert ?x (set (take k (expQueue st)))) (set (drop (Suc k) (expQueue st')))"
    proof (rule sel.visit)
      show "searchInv (requiredServices services ext opts) roots (set (take k (expQueue st)))
          (insert ?x (set (drop (Suc k) (expQueue st))))"
        using Suc.prems(4) take_drop_queue(1) [OF True] by simp
      show "set (take k (expQueue st)) \<union> set (drop (Suc k) (expQueue st)) \<union>
          set (requiredServices services ext opts ?x)
        \<subseteq> insert ?x (set (take k (expQueue st)) \<union> set (drop (Suc k) (expQueue st')))"
        using sets all split(2) by auto
      show "set (drop (Suc k) (expQueue st'))
        \<subseteq> set (drop (Suc k) (expQueue st)) \<union> set (requiredServices services ext opts ?x)"
        using new_req split(2) by auto
    qed
    then have "searchInv (requiredServices services ext opts) roots
        (set (take (Suc k) (expQueue st'))) (set (drop (Suc k) (expQueue st')))"
      using take_drop_queue(2) [of k "expQueue st'"] k' True new by simp
    with Suc.IH [OF k'(2,1)] Suc.prems(3) True st'_def show ?thesis by simp
  qed
qed


section \<open>The requested roots\<close>

lemma enqueueRequested_spec:
  assumes "distinct requested"
  shows "enqueueRequested services ext allow requested =
     (let q = filter (accepted services ext) requested
      in (\<lparr>expEnabled = q, expQueue = q, expWarnings = []\<rparr>,
          if allow then [] else filter (\<lambda>i. byId services i = None) requested))"
  using assms
proof (induction requested rule: rev_induct)
  case Nil
  then show ?case by (simp add: enqueueRequested_def)
next
  case (snoc i requested)
  then show ?case
    by (auto simp: enqueueRequested_def Let_def enqueue_def accepted_def split: option.splits)
qed

lemma addToken_inv:
  "distinct out \<and> [] \<notin> set out \<Longrightarrow> distinct (addToken out t) \<and> [] \<notin> set (addToken out t)"
  by (auto simp: addToken_def Let_def)

lemma normalizeServiceIds_distinct:
  "distinct (normalizeServiceIds ids) \<and> [] \<notin> set (normalizeServiceIds ids)"
  unfolding normalizeServiceIds_def
  by (rule foldl_inv [where P = "\<lambda>out. distinct out \<and> [] \<notin> set out"])
     (auto intro!: foldl_inv [where P = "\<lambda>out. distinct out \<and> [] \<notin> set out"] addToken_inv
       simp del: de_Morgan_conj)

definition selectionRoots :: "LoadedService list \<Rightarrow> bool \<Rightarrow> string list \<Rightarrow> string set" where
  "selectionRoots services ext ids = {i \<in> set (normalizeServiceIds ids). accepted services ext i}"

lemma expand_search:
  assumes "resolveExternalProxy env (externalProxyNetwork opts) = Inr network"
    and "ext = externalActive network" and "length services \<le> fuel"
  shows "\<exists>r. expandServiceSelection fuel env services ids opts = Some (Inr r) \<and>
     set (enabledIds r) = {i. reachable (requiredServices services ext opts) (selectionRoots services ext ids) i} \<and>
     (\<forall>i \<in> set (enabledIds r). accepted services ext i) \<and> distinct (enabledIds r) \<and>
     enabledIdsOrdered r = filter (\<lambda>i. i \<in> set (enabledIds r)) (map serviceId services) \<and>
     requestedIds r = normalizeServiceIds ids \<and>
     missingIds r = (if allowMissingSelected opts then []
       else filter (\<lambda>i. byId services i = None) (normalizeServiceIds ids))"
proof -
  let ?q = "filter (accepted services ext) (normalizeServiceIds ids)"
  let ?st = "\<lparr>expEnabled = ?q, expQueue = ?q, expWarnings = []\<rparr>"
  note dist = normalizeServiceIds_distinct [of ids, THEN conjunct1]
  have inv: "expInv services ext ?st" using dist by (simp add: expInv_def)
  have "searchInv (requiredServices services ext opts) (selectionRoots services ext ids) {} (set ?q)"
    using sel.start [of services ext opts "set ?q"] by (simp add: selectionRoots_def)
  with expandLoop_search [OF inv, of 0 fuel opts "selectionRoots services ext ids"] assms(3)
  obtain st' where st': "expandLoop fuel services ext (buildProducerIndex services) opts 0 ?st = Some st'"
    and inv': "expInv services ext st'"
    and "set (expQueue st') = {i. reachable (requiredServices services ext opts) (selectionRoots services ext ids) i}"
    by auto
  then show ?thesis
    using assms(1,2) enqueueRequested_spec [OF dist]
    by (simp add: expandServiceSelection_def Let_def expInv_def)
qed

section \<open>Producers\<close>

definition producerOf :: "ServiceConsumes \<Rightarrow> ProducerEntry list \<Rightarrow> ProducerEntry option" where
  "producerOf con entries =
     (let ofType = filter (\<lambda>e. prodType (entryProduces e) = conType con) entries
      in case conInstance con of
           Some i \<Rightarrow>
             find (\<lambda>e. case prodInstance (entryProduces e) of
                         None \<Rightarrow> False
                       | Some j \<Rightarrow> instanceKey (prodType (entryProduces e)) j = instanceKey (conType con) i)
               entries
         | None \<Rightarrow>
             (case find (\<lambda>e. prodInstance (entryProduces e) = None) ofType of
                Some e \<Rightarrow> Some e
              | None \<Rightarrow> (case ofType of [e] \<Rightarrow> Some e | _ \<Rightarrow> None)))"

lemma index_invariant:
  defines "idx entries \<equiv> foldl indexEntry emptyIndex entries"
  shows "defaultIdx (idx entries) t =
      find (\<lambda>e. prodInstance (entryProduces e) = None) (filter (\<lambda>e. prodType (entryProduces e) = t) entries) \<and>
    instancedIdx (idx entries) k =
      find (\<lambda>e. case prodInstance (entryProduces e) of
                  None \<Rightarrow> False | Some j \<Rightarrow> instanceKey (prodType (entryProduces e)) j = k) entries \<and>
    elems (byType (idx entries) t) = filter (\<lambda>e. prodType (entryProduces e) = t) entries"
  unfolding idx_def
proof (induction entries rule: rev_induct)
  case Nil
  then show ?case by (simp add: emptyIndex_def)
next
  case (snoc e entries)
  then show ?case
    by (cases "prodInstance (entryProduces e)")
       (auto simp: indexEntry_def Let_def find_append split: option.splits)
qed

lemma resolveProducer_eq:
  "resolveProducer con (buildProducerIndex services) = producerOf con (producerEntries services)"
  by (simp add: resolveProducer_def producerOf_def buildProducerIndex_def index_invariant Let_def
      cong: option.case_cong)


section \<open>Lists of ids as text\<close>

definition plainId :: "string \<Rightarrow> bool" where
  "plainId i \<longleftrightarrow> i \<noteq> [] \<and> (\<forall>c \<in> set i. \<not> isListSep c)"

lemma splitListGo_plain:
  assumes "\<forall>c \<in> set w. \<not> isListSep c"
  shows "splitListGo cur (w @ s) = splitListGo (rev w @ cur) s"
  using assms by (induction w arbitrary: cur) auto

lemma splitList_join:
  assumes "\<forall>i \<in> set ids. plainId i" and "ids \<noteq> []"
  shows "splitList (join '','' ids) = ids"
proof -
  have sep: "isListSep (CHR '','')" by (simp add: isListSep_def)
  have "splitListGo [] (join '','' ids) = ids"
    using assms
  proof (induction "'',''" ids rule: join.induct)
    case (2 x)
    then show ?case using splitListGo_plain [of x "[]" "[]"] by (simp add: plainId_def)
  next
    case (3 x y xs)
    then have IH: "splitListGo [] (join '','' (y # xs)) = y # xs" by simp
    obtain c cs where y: "join '','' (y # xs) = c # cs" and c: "\<not> isListSep c"
    proof -
      from 3 have "plainId y" by simp
      then obtain c cs where "y = c # cs" "\<not> isListSep c" by (cases y) (auto simp: plainId_def)
      moreover from this(1) have
        "join '','' (y # xs) = c # (cs @ (if xs = [] then [] else '','' @ join '','' xs))"
        by (cases xs) simp_all
      ultimately show ?thesis using that by blast
    qed
    have "splitListGo [] (x @ '','' @ join '','' (y # xs)) = x # splitListGo [] (join '','' (y # xs))"
      using 3 splitListGo_plain [of x "[]" "'','' @ join '','' (y # xs)"] sep y c
      by (simp add: plainId_def)
    with IH show ?case by simp
  qed simp
  then show ?thesis by (simp add: splitList_def)
qed

lemma trim_plain: "plainId i \<Longrightarrow> trim i = i"
proof -
  assume "plainId i"
  then have "\<forall>c \<in> set i. \<not> isJsSpace c" by (auto simp: plainId_def isListSep_def)
  then have "dropWhile isJsSpace i = i" "dropWhile isJsSpace (rev i) = rev i"
    by (simp_all add: dropWhile_eq_self_iff) (metis list.set_sel(1) set_rev rev_is_Nil_conv)+
  then show ?thesis by (simp add: trim_def)
qed

lemma foldl_addToken_plain:
  assumes "\<forall>i \<in> set ids. plainId i" and "distinct (out @ ids)"
  shows "foldl addToken out ids = out @ ids"
  using assms
proof (induction ids arbitrary: out)
  case (Cons i ids)
  then have "addToken out i = out @ [i]"
    by (auto simp: addToken_def trim_plain plainId_def)
  with Cons show ?case by simp
qed simp

lemma parse_format_ids:
  assumes "\<forall>i \<in> set ids. plainId i" and "distinct ids" and "ids \<noteq> []"
  shows "parseServiceIdList (Some (formatServiceIdList ids)) = Some ids"
  using assms splitList_join [OF assms(1,3)] foldl_addToken_plain [OF assms(1), of "[]"]
  by (simp add: parseServiceIdList_def formatServiceIdList_def normalizeServiceIds_def)

section \<open>Presets\<close>

lemma expandTokens_ok:
  assumes "\<forall>t \<in> set tokens. trim t = [] \<or> trim t \<in> fst ` set PRESETS"
  shows "expandTokens out tokens =
     Inr (out @ concat (map (\<lambda>t. elems (map_of PRESETS (trim t))) (filter (\<lambda>t. trim t \<noteq> []) tokens)))"
  using assms
proof (induction tokens arbitrary: out)
  case (Cons t tokens)
  then show ?case by (cases "map_of PRESETS (trim t)") (auto simp: Let_def map_of_eq_None_iff)
qed simp

lemma expandTokens_error:
  assumes "\<exists>t \<in> set tokens. trim t \<noteq> [] \<and> trim t \<notin> fst ` set PRESETS"
  shows "\<exists>n. expandTokens out tokens = Inl (UnknownPresetError n (map fst PRESETS)) \<and>
           n \<notin> fst ` set PRESETS"
  using assms
proof (induction tokens arbitrary: out)
  case (Cons t tokens)
  show ?case
  proof (cases "trim t = [] \<or> trim t \<in> fst ` set PRESETS")
    case True
    then have "\<exists>t \<in> set tokens. trim t \<noteq> [] \<and> trim t \<notin> fst ` set PRESETS" using Cons.prems by auto
    from Cons.IH [OF this] show ?thesis
      using True by (cases "map_of PRESETS (trim t)") (auto simp: Let_def map_of_eq_None_iff)
  next
    case False
    then have "map_of PRESETS (trim t) = None" by (simp add: map_of_eq_None_iff)
    with False show ?thesis by (simp add: Let_def)
  qed
qed simp

section \<open>The environment handed to app-api\<close>

lemma set_setProp: "set (setProp k v env) \<subseteq> insert (k, v) (set env)"
  by (induction k v env rule: setProp.induct) auto

definition referenceOnly :: "(string \<times> json) set \<Rightarrow> (string \<times> json) list \<Rightarrow> bool" where
  "referenceOnly base env \<longleftrightarrow> (\<forall>(k, v) \<in> set env. (k, v) \<in> base \<or> (\<exists>d. v = JStr (composeRef k d)))"

lemma referenceOnly_setProp:
  "referenceOnly base env \<Longrightarrow> referenceOnly base (setProp k (JStr (composeRef k d)) env)"
  using set_setProp [of k "JStr (composeRef k d)" env] unfolding referenceOnly_def by blast

lemma buildAppApiServiceEnv_references:
  "referenceOnly
     (insert (APPLIED_SERVICES_ENV, JStr (formatServiceIdList (map serviceId enabledServices))) (set existingEnv))
     (buildAppApiServiceEnv enabledServices existingEnv passthroughKeys)"
    (is "referenceOnly ?base _")
proof -
  have start: "referenceOnly ?base
      (setProp APPLIED_SERVICES_ENV (JStr (formatServiceIdList (map serviceId enabledServices))) existingEnv)"
    using set_setProp [of APPLIED_SERVICES_ENV
      "JStr (formatServiceIdList (map serviceId enabledServices))" existingEnv]
    unfolding referenceOnly_def by fast
  show ?thesis
    unfolding buildAppApiServiceEnv_def Let_def
    by (rule foldl_inv [where P = "referenceOnly ?base"], rule foldl_inv [where P = "referenceOnly ?base"],
        rule start) (simp_all add: referenceOnly_setProp split: prod.splits)
qed

section \<open>Properties\<close>

text \<open>
  C3. Expansion of a selection: with one round of fuel per installed service the loop ends, and
  the enabled services are exactly those reachable from the requested, installed ones over
  \<open>selectionDependencies\<close>, \<open>container.dependsOn\<close>, the bundled proxy of a proxied service and the
  producers of consumed data; each is listed once and is installed, the ordered list follows the
  registry, and the missing ids are the requested ones that are not installed.
\<close>

theorem expand_selection_reachable:
  assumes "resolveExternalProxy env (externalProxyNetwork opts) = Inr network"
    and "length services \<le> fuel"
  shows "\<exists>r. expandServiceSelection fuel env services ids opts = Some (Inr r) \<and>
     set (enabledIds r) =
       {i. reachable (requiredServices services (externalActive network) opts)
             (selectionRoots services (externalActive network) ids) i} \<and>
     (\<forall>i \<in> set (enabledIds r). accepted services (externalActive network) i) \<and> distinct (enabledIds r) \<and>
     enabledIdsOrdered r = filter (\<lambda>i. i \<in> set (enabledIds r)) (map serviceId services) \<and>
     requestedIds r = normalizeServiceIds ids \<and>
     missingIds r = (if allowMissingSelected opts then []
       else filter (\<lambda>i. byId services i = None) (normalizeServiceIds ids))"
  using expand_search [OF assms(1) refl assms(2)] .

theorem expand_selection_reachable_witness:
  "\<exists>r. expandServiceSelection 2 Map.empty [blankService ''redis'', blankService ''app-api''] [''app-api,x'']
         \<lparr>allowMissingSelected = False, includeProxyForProxiedServices = None,
          externalProxyNetwork = ReadEnvironment\<rparr> = Some (Inr r) \<and> missingIds r = [''x'']"
proof -
  have n: "normalizeServiceIds [''app-api,x''] = [''app-api'', ''x'']" by code_simp
  show ?thesis
    using expand_selection_reachable [of Map.empty "\<lparr>allowMissingSelected = False,
        includeProxyForProxiedServices = None, externalProxyNetwork = ReadEnvironment\<rparr>" None
        "[blankService ''redis'', blankService ''app-api'']" 2 "[''app-api,x'']"]
    by (auto simp: resolveExternalProxy_def readExternalProxyNetwork_def n byId_def)
qed

text \<open>
  The producer index, built in one pass over the services, answers like a search of the list
  of produced datasets: the first entry with the wanted instance; without an instance the first
  default entry of the type, and failing that the only entry of the type.
\<close>

theorem resolveProducer_correct:
  "resolveProducer con (buildProducerIndex services) = producerOf con (producerEntries services)"
  by (rule resolveProducer_eq)

text \<open>
  Round trip of the id list: ids without commas and white space, none empty and none twice,
  survive being written to \<open>OPENMAPX_ENABLED_SERVICES\<close> and read back.
\<close>

theorem service_id_list_roundtrip:
  assumes "\<forall>i \<in> set ids. plainId i" and "distinct ids" and "ids \<noteq> []"
  shows "parseServiceIdList (Some (formatServiceIdList ids)) = Some ids"
  using assms by (rule parse_format_ids)

theorem service_id_list_roundtrip_witness:
  "parseServiceIdList (Some (formatServiceIdList DEFAULT_SELECTED_SERVICE_IDS)) =
     Some DEFAULT_SELECTED_SERVICE_IDS"
  by (rule service_id_list_roundtrip)
     (simp_all add: DEFAULT_SELECTED_SERVICE_IDS_def plainId_def isListSep_def isJsSpace_def)

text \<open>
  Presets: the flag values expand to the concatenated service lists of the named presets, in
  order, unless some name is unknown; then the error names an unknown preset and the full list of
  the known ones.
\<close>

theorem expandPresets_correct:
  "(if \<forall>t \<in> set (concat (map splitList names)). trim t = [] \<or> trim t \<in> fst ` set PRESETS
    then expandPresets names =
      Inr (concat (map (\<lambda>t. elems (map_of PRESETS (trim t)))
            (filter (\<lambda>t. trim t \<noteq> []) (concat (map splitList names)))))
    else \<exists>n. expandPresets names = Inl (UnknownPresetError n (map fst PRESETS)) \<and>
           n \<notin> fst ` set PRESETS)"
proof (cases "\<forall>t \<in> set (concat (map splitList names)). trim t = [] \<or> trim t \<in> fst ` set PRESETS")
  case True
  then show ?thesis using expandTokens_ok [OF True, of "[]"] by (simp add: expandPresets_def)
next
  case False
  then have "\<exists>t \<in> set (concat (map splitList names)). trim t \<noteq> [] \<and> trim t \<notin> fst ` set PRESETS"
    by blast
  from expandTokens_error [OF this, of "[]"] show ?thesis
    unfolding expandPresets_def if_not_P [OF False] .
qed

theorem expandPresets_correct_witness:
  "expandPresets [''dev,proxy''] = Inr [''postgis'', ''redis'', ''traefik''] \<and>
   (\<exists>n. expandPresets [''dev'', ''nope''] = Inl (UnknownPresetError n (map fst PRESETS)) \<and>
        n \<notin> fst ` set PRESETS)"
proof -
  have "\<not> (\<forall>t \<in> set (concat (map splitList [''dev'', ''nope''])). trim t = [] \<or> trim t \<in> fst ` set PRESETS)"
    by code_simp
  with expandPresets_correct [of "[''dev'', ''nope'']"] have
    "\<exists>n. expandPresets [''dev'', ''nope''] = Inl (UnknownPresetError n (map fst PRESETS)) \<and>
        n \<notin> fst ` set PRESETS"
    by (simp only: if_False)
  moreover have "expandPresets [''dev,proxy''] = Inr [''postgis'', ''redis'', ''traefik'']"
    by code_simp
  ultimately show ?thesis by simp
qed

text \<open>
  app-api's generated environment never holds a host value: every entry is one the caller
  passed in, the list of enabled services, or a Compose reference to the variable of the same
  name.
\<close>

theorem app_api_env_references_only:
  "(k, v) \<in> set (buildAppApiServiceEnv enabledServices existingEnv passthroughKeys) \<Longrightarrow>
   (k, v) \<in> set existingEnv \<or>
   k = APPLIED_SERVICES_ENV \<and> v = JStr (formatServiceIdList (map serviceId enabledServices)) \<or>
   (\<exists>d. v = JStr (composeRef k d))"
  using buildAppApiServiceEnv_references [of enabledServices existingEnv passthroughKeys]
  unfolding referenceOnly_def by blast

theorem app_api_env_references_only_witness:
  "(''SERVICE_A'', JStr ''${SERVICE_A:-}'') \<in>
     set (buildAppApiServiceEnv [blankService ''redis''] [] [''SERVICE_A'']) \<and>
   (\<exists>d. JStr ''${SERVICE_A:-}'' = JStr (composeRef ''SERVICE_A'' d))"
proof -
  have m: "(''SERVICE_A'', JStr ''${SERVICE_A:-}'') \<in>
     set (buildAppApiServiceEnv [blankService ''redis''] [] [''SERVICE_A''])" by code_simp
  have "''SERVICE_A'' \<noteq> APPLIED_SERVICES_ENV" by (simp add: APPLIED_SERVICES_ENV_def)
  with app_api_env_references_only [OF m] have
    "\<exists>d. JStr ''${SERVICE_A:-}'' = JStr (composeRef ''SERVICE_A'' d)"
    by (simp only: list.set(1) empty_iff simp_thms)
  with m show ?thesis by blast
qed

end
