(* ===== verification/Service_Creation.thy ===== *)
theory Service_Creation
  imports Service_Types Graph_Closure "HOL-Library.List_Lexorder" "HOL-Library.Char_ord"
begin

text \<open>
  \<open>packages/core/src/services/creation-dependencies.ts\<close>: the services Compose may create for a
  fixed creation command, as the closure of the targets under \<open>depends_on\<close>, taken from loaded
  manifests or from a rendered Compose document. The only error is the fixed one of
  \<open>unavailable\<close>. The closure's loop ends because a round either consumes a pending entry or
  finds a new service, of which it accepts at most 256.
\<close>

section \<open>The closure\<close>

definition idPattern :: "string \<Rightarrow> bool" where
  "idPattern s \<longleftrightarrow>
     (case s of
        [] \<Rightarrow> False
      | c # cs \<Rightarrow>
          isLowerOrDigit c \<and> length cs \<le> 63 \<and> (\<forall>d \<in> set cs. isLowerOrDigit d \<or> d = CHR ''-''))"

definition unavailable :: string where
  "unavailable = ''Service creation dependencies unavailable''"

text \<open>\<open>found\<close> in insertion order, the loop's \<open>index\<close>, and the pending entries from it on.\<close>

function closureLoop ::
  "(string \<rightharpoonup> string list) \<Rightarrow> string list \<Rightarrow> nat \<Rightarrow> string list \<Rightarrow> string + string list"
where
  "closureLoop dependencies found index [] = Inr found"
| "closureLoop dependencies found index (current # pending) =
     (if \<not> idPattern current then Inl unavailable
      else if current \<in> set found then closureLoop dependencies found (Suc index) pending
      else if length (found @ [current]) > 256 then Inl unavailable
      else
        (case dependencies current of
           None \<Rightarrow> Inl unavailable
         | Some nxt \<Rightarrow>
             let pending' = pending @ filter (\<lambda>d. d \<notin> set (found @ [current])) nxt
             in if Suc index + length pending' > 65536 then Inl unavailable
                else closureLoop dependencies (found @ [current]) (Suc index) pending'))"
  by pat_completeness auto
termination
  by (relation "measures [\<lambda>(d, found, i, pending). 257 - length found,
                          \<lambda>(d, found, i, pending). length pending]") auto

definition closure :: "string list \<Rightarrow> (string \<rightharpoonup> string list) \<Rightarrow> string + string list" where
  "closure targets dependencies =
     (case closureLoop dependencies [] 0 targets of
        Inl e \<Rightarrow> Inl e
      | Inr found \<Rightarrow> Inr (sort found))"

section \<open>From manifests\<close>

definition dependsOnMap :: "LoadedService list \<Rightarrow> string \<rightharpoonup> string list" where
  "dependsOnMap services =
     foldl (\<lambda>m s. m(serviceId s \<mapsto> map depService (elems (dependsOn (container (manifest s))))))
       Map.empty services"

definition serviceCreationDependencyIds ::
  "LoadedService list \<Rightarrow> string list \<Rightarrow> string + string list"
where
  "serviceCreationDependencyIds services targets =
     (if length services > 256 \<or> length (remdups (map serviceId services)) \<noteq> length services
      then Inl unavailable
      else closure targets (dependsOnMap services))"

section \<open>From a Compose document\<close>

definition dependencyNames :: "json option \<Rightarrow> json list option" where
  "dependencyNames raw =
     (case raw of
        None \<Rightarrow> Some []
      | Some (JArr xs) \<Rightarrow> Some xs
      | Some (JObj ps) \<Rightarrow> Some (map (\<lambda>p. JStr (fst p)) ps)
      | Some _ \<Rightarrow> None)"

definition validName :: "json \<Rightarrow> bool" where
  "validName j \<longleftrightarrow> (case jsonString j of None \<Rightarrow> False | Some s \<Rightarrow> idPattern s)"

definition composeService :: "string \<times> json \<Rightarrow> string + (string \<times> string list)" where
  "composeService entry =
     (case entry of
        (service, JObj ps) \<Rightarrow>
          if \<not> idPattern service then Inl unavailable
          else
            (case dependencyNames (map_of ps ''depends_on'') of
               None \<Rightarrow> Inl unavailable
             | Some nxt \<Rightarrow>
                 if length nxt > 256 \<or> (\<exists>d \<in> set nxt. \<not> validName d) then Inl unavailable
                 else Inr (service, List.map_filter jsonString nxt))
      | (service, _) \<Rightarrow> Inl unavailable)"

fun composeServices ::
  "(string \<rightharpoonup> string list) \<Rightarrow> (string \<times> json) list \<Rightarrow> string + (string \<rightharpoonup> string list)"
where
  "composeServices dependencies [] = Inr dependencies"
| "composeServices dependencies (entry # entries) =
     (case composeService entry of
        Inl e \<Rightarrow> Inl e
      | Inr (service, nxt) \<Rightarrow> composeServices (dependencies(service \<mapsto> nxt)) entries)"

definition composeCreationDependencyIds :: "json \<Rightarrow> string list \<Rightarrow> string + string list" where
  "composeCreationDependencyIds config targets =
     (case jsonProp ''services'' config of
        Some (JObj values) \<Rightarrow>
          if length values > 256 then Inl unavailable
          else
            (case composeServices Map.empty values of
               Inl e \<Rightarrow> Inl e
             | Inr dependencies \<Rightarrow> closure targets dependencies)
      | _ \<Rightarrow> Inl unavailable)"

section \<open>The closure is reachability\<close>

definition directDependencies :: "(string \<rightharpoonup> string list) \<Rightarrow> string \<Rightarrow> string list" where
  "directDependencies dependencies i = elems (dependencies i)"

interpretation create: graph_search "directDependencies dependencies"
  for dependencies .

lemma closure_visit:
  assumes "searchInv (directDependencies dependencies) roots (set found) (set (current # pending))"
    and "dependencies current = Some nxt"
  shows "searchInv (directDependencies dependencies) roots (insert current (set found))
           (set (pending @ filter (\<lambda>d. d \<notin> set (found @ [current])) nxt))"
proof -
  have "directDependencies dependencies current = nxt"
    using assms(2) by (simp add: directDependencies_def)
  then show ?thesis
    using assms(1) create.visit [of dependencies roots "set found" current "set pending"
      "set (pending @ filter (\<lambda>d. d \<notin> set (found @ [current])) nxt)"]
    by (simp add: subset_iff) blast
qed

lemma closureLoop_sound:
  assumes "closureLoop dependencies found index pending = Inr ids"
    and "searchInv (directDependencies dependencies) roots (set found) (set pending)"
    and "distinct found" and "length found \<le> 256"
    and "\<forall>i \<in> set found. idPattern i \<and> dependencies i \<noteq> None"
  shows "set ids = {i. reachable (directDependencies dependencies) roots i} \<and> distinct ids \<and>
         length ids \<le> 256 \<and> (\<forall>i \<in> set ids. idPattern i \<and> dependencies i \<noteq> None)"
  using assms
proof (induction dependencies found index pending rule: closureLoop.induct)
  case (1 dependencies found index)
  then show ?case using create.finish by auto
next
  case (2 dependencies found index current pending)
  from 2(3) have ok: "idPattern current" by (auto split: if_splits)
  show ?case
  proof (cases "current \<in> set found")
    case True
    then have "searchInv (directDependencies dependencies) roots (set found) (set pending)"
      using 2(4) True create.skip [of dependencies roots "set found" current "set pending"] by simp
    moreover have "closureLoop dependencies found (Suc index) pending = Inr ids"
      using 2(3) True ok by simp
    ultimately show ?thesis using 2(1) ok True 2(5-7) by blast
  next
    case False
    then obtain deps where deps: "dependencies current = Some deps" and len: "length (found @ [current]) \<le> 256"
      using 2(3) ok by (auto split: if_splits option.splits)
    let ?pending = "pending @ filter (\<lambda>d. d \<notin> set (found @ [current])) deps"
    have "searchInv (directDependencies dependencies) roots (insert current (set found)) (set ?pending)"
      using 2(4) deps by (rule closure_visit)
    moreover have lim: "\<not> Suc index + length ?pending > 65536"
      and rec: "closureLoop dependencies (found @ [current]) (Suc index) ?pending = Inr ids"
      using 2(3) False ok deps len by (auto simp: Let_def split: if_splits)
    ultimately show ?thesis
      using 2(2) [OF _ False _ deps refl lim rec] ok False len 2(5,7) deps by simp
  qed
qed

lemma closureLoop_complete:
  assumes "searchInv (directDependencies dependencies) roots (set found) (set pending)"
    and "finite R" and "R = {i. reachable (directDependencies dependencies) roots i}" and "card R \<le> 256"
    and "\<forall>i \<in> R. idPattern i \<and> dependencies i \<noteq> None"
    and "distinct found"
    and "index + length pending \<le>
           base + (\<Sum>i \<in> set found. length (directDependencies dependencies i))"
    and "base + (\<Sum>i \<in> R. length (directDependencies dependencies i)) \<le> 65536"
  shows "\<exists>ids. closureLoop dependencies found index pending = Inr ids"
  using assms
proof (induction dependencies found index pending rule: closureLoop.induct)
  case (2 dependencies found index current pending)
  have current: "current \<in> R" "set found \<subseteq> R"
    using 2(3,5) by (auto simp: searchInv_def)
  with 2(7) obtain nxt where nxt: "dependencies current = Some nxt" "idPattern current" by blast
  show ?case
  proof (cases "current \<in> set found")
    case True
    then have "searchInv (directDependencies dependencies) roots (set found) (set pending)"
      using 2(3) True create.skip [of dependencies roots "set found" current "set pending"] by simp
    moreover have "Suc index + length pending \<le>
        base + (\<Sum>i \<in> set found. length (directDependencies dependencies i))"
      using 2(9) by simp
    ultimately show ?thesis using 2(1) [OF _ True _ 2(4-8) _ 2(10)] True nxt by simp
  next
    case False
    let ?found = "found @ [current]" and ?pending = "pending @ filter (\<lambda>d. d \<notin> set (found @ [current])) nxt"
    have found: "distinct ?found" "set ?found \<subseteq> R" using False 2(8) current by auto
    have "searchInv (directDependencies dependencies) roots (insert current (set found)) (set ?pending)"
      using 2(3) nxt(1) by (rule closure_visit)
    moreover have "length ?found \<le> 256"
      using card_mono [OF 2(4) found(2)] distinct_card [OF found(1)] 2(6) by simp
    moreover have bound: "Suc index + length ?pending \<le>
        base + (\<Sum>i \<in> set ?found. length (directDependencies dependencies i))"
    proof -
      have "length (filter (\<lambda>d. d \<notin> set (found @ [current])) nxt) \<le> length nxt"
        by (rule length_filter_le)
      then have "Suc index + length ?pending \<le> (index + length (current # pending)) + length nxt" by simp
      also have "\<dots> \<le> base + (\<Sum>i \<in> set found. length (directDependencies dependencies i)) + length nxt"
        using 2(9) by simp
      finally show ?thesis using False nxt by (simp add: directDependencies_def)
    qed
    moreover have "(\<Sum>i \<in> set ?found. length (directDependencies dependencies i)) \<le>
        (\<Sum>i \<in> R. length (directDependencies dependencies i))"
      using 2(4) found(2) by (intro sum_mono2) auto
    ultimately show ?thesis
      using 2(2) [OF _ False _ nxt(1) refl _ _ 2(4-7) found(1) bound 2(10)] 2(10) False nxt
      by (simp add: Let_def)
  qed
qed simp

lemma closure_Inr:
  assumes "closure targets dependencies = Inr ids"
  shows "set ids = {i. reachable (directDependencies dependencies) (set targets) i} \<and> sorted ids \<and>
         distinct ids \<and> length ids \<le> 256 \<and> (\<forall>i \<in> set ids. idPattern i \<and> dependencies i \<noteq> None)"
proof -
  from assms obtain found where found: "closureLoop dependencies [] 0 targets = Inr found" "ids = sort found"
    by (auto simp: closure_def split: sum.splits)
  from closureLoop_sound [OF found(1), of "set targets"] create.start found(2) show ?thesis by simp
qed

lemma closureLoop_error: "closureLoop dependencies found index pending = Inl e \<Longrightarrow> e = unavailable"
  by (induction dependencies found index pending rule: closureLoop.induct)
     (auto simp: Let_def split: if_splits option.splits)

section \<open>Manifests and Compose documents agree\<close>

definition dependsOnIds :: "LoadedService \<Rightarrow> string list" where
  "dependsOnIds s = map depService (elems (dependsOn (container (manifest s))))"

definition composeEntry :: "LoadedService \<Rightarrow> string \<times> json" where
  "composeEntry s = (serviceId s, JObj [(''depends_on'', JArr (map JStr (dependsOnIds s)))])"

definition composeDocument :: "LoadedService list \<Rightarrow> json" where
  "composeDocument services = JObj [(''services'', JObj (map composeEntry services))]"

definition creatable :: "LoadedService \<Rightarrow> bool" where
  "creatable s \<longleftrightarrow>
     idPattern (serviceId s) \<and> length (dependsOnIds s) \<le> 256 \<and> (\<forall>d \<in> set (dependsOnIds s). idPattern d)"

lemma map_filter_jsonString [simp]: "List.map_filter jsonString (map JStr xs) = xs"
  by (induction xs) (simp_all add: List.map_filter_simps)

lemma composeService_entry:
  "creatable s \<Longrightarrow> composeService (composeEntry s) = Inr (serviceId s, dependsOnIds s)"
  by (auto simp: composeService_def composeEntry_def dependencyNames_def creatable_def validName_def)

lemma composeServices_entries:
  "\<forall>s \<in> set services. creatable s \<Longrightarrow>
   composeServices m (map composeEntry services) =
     Inr (foldl (\<lambda>m s. m(serviceId s \<mapsto> dependsOnIds s)) m services)"
  by (induction services arbitrary: m) (simp_all add: composeService_entry)

lemma compose_agrees:
  assumes "\<forall>s \<in> set services. creatable s" and "distinct (map serviceId services)"
    and "length services \<le> 256"
  shows "composeCreationDependencyIds (composeDocument services) targets =
         serviceCreationDependencyIds services targets"
  using assms composeServices_entries [OF assms(1), of Map.empty]
  by (simp add: composeCreationDependencyIds_def composeDocument_def serviceCreationDependencyIds_def
      dependsOnMap_def dependsOnIds_def distinct_remdups_id)

section \<open>Properties\<close>

text \<open>
  C5. Soundness of the creation closure: the ids returned are exactly the services reachable from
  the targets over \<open>depends_on\<close>, sorted, without duplicates, at most 256, each of them a
  well-formed id of an installed service.
\<close>

theorem creation_closure_sound:
  assumes "serviceCreationDependencyIds services targets = Inr ids"
  shows "set ids = {i. reachable (directDependencies (dependsOnMap services)) (set targets) i} \<and>
         sorted ids \<and> distinct ids \<and> length ids \<le> 256 \<and>
         (\<forall>i \<in> set ids. idPattern i \<and> dependsOnMap services i \<noteq> None)"
  using assms closure_Inr by (auto simp: serviceCreationDependencyIds_def split: if_splits)

theorem creation_closure_sound_witness:
  "serviceCreationDependencyIds [blankService ''redis'', blankService ''app''] [''app''] = Inr [''app''] \<and>
   {i. reachable (directDependencies (dependsOnMap [blankService ''redis'', blankService ''app'']))
        (set [''app'']) i} = {''app''}"
proof -
  have run: "serviceCreationDependencyIds [blankService ''redis'', blankService ''app''] [''app''] = Inr [''app'']"
    by (simp add: serviceCreationDependencyIds_def closure_def dependsOnMap_def idPattern_def
        isLowerOrDigit_def blankService_def blankManifest_def blankContainer_def)
  from creation_closure_sound [OF run, THEN conjunct1] have
    "{i. reachable (directDependencies (dependsOnMap [blankService ''redis'', blankService ''app'']))
        (set [''app'']) i} = {''app''}"
    by (simp only: list.set)
  with run show ?thesis by (rule conjI)
qed

text \<open>
  C32. Completeness of the creation closure: when the reachable services are installed with
  well-formed ids, are at most 256, and the targets and their \<open>depends_on\<close> entries together are at
  most 65536, the closure is found.
\<close>

theorem creation_closure_complete:
  assumes "R = {i. reachable (directDependencies (dependsOnMap services)) (set targets) i}"
    and "finite R" and "card R \<le> 256" and "\<forall>i \<in> R. idPattern i \<and> dependsOnMap services i \<noteq> None"
    and "length targets + (\<Sum>i \<in> R. length (directDependencies (dependsOnMap services) i)) \<le> 65536"
    and "length services \<le> 256" and "distinct (map serviceId services)"
  shows "\<exists>ids. serviceCreationDependencyIds services targets = Inr ids"
proof -
  have "\<exists>found. closureLoop (dependsOnMap services) [] 0 targets = Inr found"
    using assms(1-5) create.start [of "dependsOnMap services" "set targets"]
    by (intro closureLoop_complete [where base = "length targets"]) auto
  with assms(6,7) show ?thesis
    by (auto simp: serviceCreationDependencyIds_def closure_def distinct_remdups_id)
qed

theorem creation_closure_complete_witness:
  "\<exists>ids. serviceCreationDependencyIds [blankService ''redis''] [''redis''] = Inr ids"
proof -
  let ?deps = "dependsOnMap [blankService ''redis'']"
  have deps: "?deps ''redis'' = Some []" "directDependencies ?deps ''redis'' = []"
    by (simp_all add: dependsOnMap_def directDependencies_def blankService_def blankManifest_def
        blankContainer_def)
  have "i = ''redis''" if "reachable (directDependencies ?deps) (set [''redis'']) i" for i
    using reachable_least [OF _ _ that, of "{''redis''}"] deps by (simp add: closedUnder_def)
  then have R: "{i. reachable (directDependencies ?deps) (set [''redis'']) i} = {''redis''}"
    by (auto intro: reachable.root)
  show ?thesis
    by (rule creation_closure_complete [OF R [symmetric]])
       (use deps in \<open>simp_all add: idPattern_def isLowerOrDigit_def\<close>)
qed

text \<open>
  The two sources of the closure agree: for services with well-formed ids and dependencies,
  the closure computed from the manifests is the one computed from the Compose document that
  lists the same \<open>depends_on\<close> entries, errors included.
\<close>

theorem creation_sources_agree:
  assumes "\<forall>s \<in> set services. creatable s" and "distinct (map serviceId services)"
    and "length services \<le> 256"
  shows "composeCreationDependencyIds (composeDocument services) targets =
         serviceCreationDependencyIds services targets"
  using assms by (rule compose_agrees)

theorem creation_sources_agree_witness:
  "composeCreationDependencyIds (composeDocument [blankService ''redis'']) [''x''] =
   serviceCreationDependencyIds [blankService ''redis''] [''x'']"
  by (rule creation_sources_agree)
     (simp_all add: creatable_def idPattern_def isLowerOrDigit_def isDigit_def dependsOnIds_def
       blankService_def blankManifest_def blankContainer_def)

end
