(* ===== verification/Service_Resolver.thy ===== *)
theory Service_Resolver
  imports Service_Types Graph_Closure
begin

text \<open>
  \<open>packages/core/src/services/resolver.ts\<close> and \<open>consumes-dependencies.ts\<close>: matching an
  integration's requirement against the installed services, the producer of every consumed
  dataset, and the depth-first search that looks for a cycle among them. The recursion of the
  search takes fuel for its depth; \<open>detect_returns\<close> shows that the number of services is enough.
\<close>

section \<open>Requirements\<close>

definition findByCapability :: "LoadedService list \<Rightarrow> string \<Rightarrow> LoadedService list" where
  "findByCapability services cap =
     filter (\<lambda>s. enabled s \<and> cap \<in> set (getProvidedCapabilityNames (provides (manifest s)))) services"

text \<open>Both maps of the context, in insertion order; an absent map is empty.\<close>

record ResolverContext =
  bindings :: "(string \<times> string) list"
  gitUrlBySlug :: "(string \<times> string) list"

definition isGitUrl :: "string \<Rightarrow> bool" where
  "isGitUrl v \<longleftrightarrow>
     list_ex (startsWith v) [''http://'', ''https://'', ''git://'', ''ssh://''] \<or>
     startsWith (rev v) (rev ''.git'')"

definition unsatisfied :: "ResolutionReason \<Rightarrow> ResolutionResult" where
  "unsatisfied why = \<lparr>satisfied = False, resMatch = None, candidates = None, reason = Some why\<rparr>"

definition matched :: "string \<Rightarrow> ResolutionSource \<Rightarrow> ResolutionResult" where
  "matched i src =
     \<lparr>satisfied = True, resMatch = Some \<lparr>matchServiceId = i, matchSource = src\<rparr>, candidates = None,
      reason = None\<rparr>"

definition resolveService ::
  "LoadedService list \<Rightarrow> string \<Rightarrow> ResolutionSource \<Rightarrow> ResolutionResult"
where
  "resolveService services i src =
     (case find (\<lambda>s. serviceId s = i) services of
        None \<Rightarrow> unsatisfied ServiceNotInstalled
      | Some svc \<Rightarrow>
          if \<not> enabled svc then unsatisfied ServiceDisabled else matched (serviceId svc) src)"

definition resolveCapability ::
  "LoadedService list \<Rightarrow> string \<Rightarrow> ResolverContext \<Rightarrow> ResolutionResult"
where
  "resolveCapability services cap ctx =
     (let providers = findByCapability services cap;
          bound = Option.bind (map_of (bindings ctx) cap)
                    (\<lambda>b. if b = [] then None else find (\<lambda>p. serviceId p = b) providers)
      in if providers = [] then unsatisfied NoProviders
         else case bound of
                Some svc \<Rightarrow> matched (serviceId svc) Capability
              | None \<Rightarrow>
                  (case providers of
                     [only] \<Rightarrow> matched (serviceId only) Capability
                   | _ \<Rightarrow>
                       \<lparr>satisfied = False, resMatch = None,
                        candidates = Some (map serviceId providers), reason = Some Ambiguous\<rparr>))"

definition resolveRequirement ::
  "LoadedService list \<Rightarrow> IntegrationRequirement \<Rightarrow> ResolverContext \<Rightarrow> ResolutionResult"
where
  "resolveRequirement services req ctx =
     (case reqService req of
        Some service \<Rightarrow>
          if service \<noteq> []
          then if isGitUrl service
               then (case find (\<lambda>(slug, url). url = service) (gitUrlBySlug ctx) of
                       Some (slug, _) \<Rightarrow>
                         if slug = [] then unsatisfied ServiceNotInstalled
                         else resolveService services slug GitUrl
                     | None \<Rightarrow> unsatisfied ServiceNotInstalled)
               else resolveService services service ExactService
          else
            (case reqCapability req of
               Some cap \<Rightarrow>
                 if cap \<noteq> [] then resolveCapability services cap ctx else unsatisfied NoProviders
             | None \<Rightarrow> unsatisfied NoProviders)
      | None \<Rightarrow>
          (case reqCapability req of
             Some cap \<Rightarrow>
               if cap \<noteq> [] then resolveCapability services cap ctx else unsatisfied NoProviders
           | None \<Rightarrow> unsatisfied NoProviders))"

section \<open>Upstream services\<close>

record ProducerMaps =
  defaultProducers :: "string \<rightharpoonup> string"
  instancedProducers :: "string \<rightharpoonup> string"
  producersByType :: "string \<rightharpoonup> string list"

definition recordProducer :: "ProducerMaps \<Rightarrow> string \<times> ServiceProduces \<Rightarrow> ProducerMaps" where
  "recordProducer maps entry =
     (case entry of
        (i, p) \<Rightarrow>
          let maps1 =
            (case prodInstance p of
               None \<Rightarrow> maps\<lparr>defaultProducers := (defaultProducers maps)(prodType p \<mapsto> i)\<rparr>
             | Some inst \<Rightarrow>
                 maps\<lparr>instancedProducers :=
                   (instancedProducers maps)(prodType p @ ''/'' @ inst \<mapsto> i)\<rparr>)
          in maps1\<lparr>producersByType :=
               (producersByType maps1)(prodType p \<mapsto> elems (producersByType maps1 (prodType p)) @ [i])\<rparr>)"

definition producedBy :: "LoadedService list \<Rightarrow> (string \<times> ServiceProduces) list" where
  "producedBy services =
     concat (map (\<lambda>s. map (\<lambda>p. (serviceId s, p)) (elems (produces (manifest s)))) services)"

definition producerMaps :: "LoadedService list \<Rightarrow> ProducerMaps" where
  "producerMaps services =
     foldl recordProducer
       \<lparr>defaultProducers = Map.empty, instancedProducers = Map.empty, producersByType = Map.empty\<rparr>
       (producedBy services)"

definition upstreamProducer :: "ProducerMaps \<Rightarrow> ServiceConsumes \<Rightarrow> string option" where
  "upstreamProducer maps con =
     (case conInstance con of
        Some inst \<Rightarrow> instancedProducers maps (conType con @ ''/'' @ inst)
      | None \<Rightarrow>
          (case defaultProducers maps (conType con) of
             Some i \<Rightarrow> Some i
           | None \<Rightarrow>
               (case elems (producersByType maps (conType con)) of
                  [i] \<Rightarrow> Some i
                | _ \<Rightarrow> None)))"

definition upstreamOf :: "ProducerMaps \<Rightarrow> LoadedService \<Rightarrow> string list" where
  "upstreamOf maps s =
     filter (\<lambda>i. i \<noteq> [] \<and> i \<noteq> serviceId s)
       (List.map_filter (upstreamProducer maps) (elems (consumes (manifest s))))"

definition resolveConsumesDependencies :: "LoadedService list \<Rightarrow> string \<rightharpoonup> string list" where
  "resolveConsumesDependencies services =
     (let maps = producerMaps services
      in foldl (\<lambda>m s. m(serviceId s \<mapsto> upstreamOf maps s)) Map.empty services)"

section \<open>The search for a cycle\<close>

datatype Color = White | Gray | Black

record DfsState =
  color :: "string \<Rightarrow> Color"
  parent :: "string \<rightharpoonup> string"
  cycleStart :: "string option"
  cycleEnd :: "string option"

text \<open>
  \<open>dfs\<close> and its \<open>for\<close> loop over the remaining successors: whether a cycle was found, and the
  state; \<open>None\<close> when the recursion was cut off.
\<close>

fun dfs :: "nat \<Rightarrow> (string \<rightharpoonup> string list) \<Rightarrow> string \<Rightarrow> DfsState \<Rightarrow> (bool \<times> DfsState) option"
  and dfsLoop ::
    "nat \<Rightarrow> (string \<rightharpoonup> string list) \<Rightarrow> string \<Rightarrow> string list \<Rightarrow> DfsState \<Rightarrow> (bool \<times> DfsState) option"
where
  "dfs 0 adj node st = None"
| "dfs (Suc fuel) adj node st =
     dfsLoop fuel adj node (elems (adj node)) (st\<lparr>color := (color st)(node := Gray)\<rparr>)"
| "dfsLoop fuel adj node [] st = Some (False, st\<lparr>color := (color st)(node := Black)\<rparr>)"
| "dfsLoop fuel adj node (nxt # rest) st =
     (if color st nxt = White
      then (case dfs fuel adj nxt (st\<lparr>parent := (parent st)(nxt \<mapsto> node)\<rparr>) of
              None \<Rightarrow> None
            | Some (True, st') \<Rightarrow> Some (True, st')
            | Some (False, st') \<Rightarrow> dfsLoop fuel adj node rest st')
      else if color st nxt = Gray
      then Some (True, st\<lparr>cycleStart := Some nxt, cycleEnd := Some node\<rparr>)
      else dfsLoop fuel adj node rest st)"

fun dfsAll :: "nat \<Rightarrow> (string \<rightharpoonup> string list) \<Rightarrow> string list \<Rightarrow> DfsState \<Rightarrow> DfsState option" where
  "dfsAll fuel adj [] st = Some st"
| "dfsAll fuel adj (i # is) st =
     (if color st i = White
      then (case dfs fuel adj i st of
              None \<Rightarrow> None
            | Some (True, st') \<Rightarrow> Some st'
            | Some (False, st') \<Rightarrow> dfsAll fuel adj is st')
      else dfsAll fuel adj is st)"

fun cyclePath ::
  "nat \<Rightarrow> (string \<rightharpoonup> string) \<Rightarrow> string \<Rightarrow> string list \<Rightarrow> string \<Rightarrow> string list option"
where
  "cyclePath 0 par start cycle cur = (if cur = start then Some cycle else None)"
| "cyclePath (Suc fuel) par start cycle cur =
     (if cur = start then Some cycle
      else case par cur of
             None \<Rightarrow> Some (cycle @ [cur])
           | Some nxt \<Rightarrow> cyclePath fuel par start (cycle @ [cur]) nxt)"

definition freshDfs :: DfsState where
  "freshDfs = \<lparr>color = (\<lambda>_. White), parent = Map.empty, cycleStart = None, cycleEnd = None\<rparr>"

text \<open>The outer option is the cut-off, the inner one \<open>null\<close> for an acyclic graph.\<close>

definition detectConsumesCycle :: "nat \<Rightarrow> LoadedService list \<Rightarrow> string list option option" where
  "detectConsumesCycle fuel services =
     (case dfsAll fuel (resolveConsumesDependencies services) (map serviceId services) freshDfs of
        None \<Rightarrow> None
      | Some st \<Rightarrow>
          (case (cycleStart st, cycleEnd st) of
             (Some start, Some end) \<Rightarrow>
               (case cyclePath fuel (parent st) start [start] end of
                  None \<Rightarrow> None
                | Some cycle \<Rightarrow> Some (Some cycle))
           | _ \<Rightarrow> Some None))"

section \<open>Depth-first search finds a cycle exactly when there is one\<close>

definition edges :: "(string \<rightharpoonup> string list) \<Rightarrow> (string \<times> string) set" where
  "edges adj = {(u, v). v \<in> set (elems (adj u))}"

abbreviation gray :: "DfsState \<Rightarrow> string set" where "gray st \<equiv> {x. color st x = Gray}"
abbreviation black :: "DfsState \<Rightarrow> string set" where "black st \<equiv> {x. color st x = Black}"
abbreviation white :: "DfsState \<Rightarrow> string set" where "white st \<equiv> {x. color st x = White}"

text \<open>The nodes being visited, the innermost first, linked by edges and by \<open>parent\<close>.\<close>

fun chain :: "(string \<rightharpoonup> string list) \<Rightarrow> (string \<rightharpoonup> string) \<Rightarrow> string list \<Rightarrow> bool" where
  "chain adj par (x # y # zs) \<longleftrightarrow> par x = Some y \<and> (y, x) \<in> edges adj \<and> chain adj par (y # zs)"
| "chain adj par _ \<longleftrightarrow> True"

definition blackOk :: "(string \<rightharpoonup> string list) \<Rightarrow> DfsState \<Rightarrow> bool" where
  "blackOk adj st \<longleftrightarrow>
     (\<forall>x \<in> black st. set (elems (adj x)) \<subseteq> black st \<and> (x, x) \<notin> (edges adj)\<^sup>+)"

definition cycleFound :: "(string \<rightharpoonup> string list) \<Rightarrow> DfsState \<Rightarrow> bool" where
  "cycleFound adj st \<longleftrightarrow>
     (\<exists>stack start end. cycleStart st = Some start \<and> cycleEnd st = Some end \<and> start \<in> set (end # stack) \<and>
        (end, start) \<in> edges adj \<and> chain adj (parent st) (end # stack) \<and> distinct (end # stack))"

definition visited :: "(string \<rightharpoonup> string list) \<Rightarrow> string set \<Rightarrow> DfsState \<Rightarrow> DfsState \<Rightarrow> bool" where
  "visited adj X st st' \<longleftrightarrow>
     blackOk adj st' \<and> X \<subseteq> black st' \<and> black st \<subseteq> black st' \<and> white st' \<subseteq> white st \<and>
     (\<forall>x. color st x \<noteq> White \<longrightarrow> parent st' x = parent st x) \<and>
     cycleStart st' = cycleStart st \<and> cycleEnd st' = cycleEnd st"

lemma chain_cong: "(\<And>x. x \<in> set xs \<Longrightarrow> par' x = par x) \<Longrightarrow> chain adj par' xs = chain adj par xs"
  by (induction adj par xs rule: chain.induct) auto

lemma black_reach:
  assumes "\<forall>x \<in> B. set (elems (adj x)) \<subseteq> B" and "x \<in> B" and "(x, y) \<in> (edges adj)\<^sup>*"
  shows "y \<in> B"
  using assms(3,2) by induction (use assms(1) in \<open>auto simp: edges_def\<close>)

lemma blackOk_finish:
  assumes ok: "blackOk adj st" and gray: "color st node = Gray"
    and succs: "set (elems (adj node)) \<subseteq> black st"
  shows "blackOk adj (st\<lparr>color := (color st)(node := Black)\<rparr>)"
proof -
  have "(node, node) \<notin> (edges adj)\<^sup>+"
  proof
    assume "(node, node) \<in> (edges adj)\<^sup>+"
    then obtain s where "(node, s) \<in> edges adj" "(s, node) \<in> (edges adj)\<^sup>*" by (auto dest: tranclD)
    then have "s \<in> black st" using succs by (auto simp: edges_def)
    from black_reach [OF _ this \<open>(s, node) \<in> (edges adj)\<^sup>*\<close>] ok have "node \<in> black st"
      by (auto simp: blackOk_def)
    with gray show False by simp
  qed
  with ok succs show ?thesis by (auto simp: blackOk_def)
qed

text \<open>
  The contract of \<open>dfs\<close> at a given fuel, for a finite set \<open>U\<close> of nodes closed under the edges: it
  returns; a found cycle lies on the stack of nodes being visited; otherwise the node has become
  black and the stack is as before.
\<close>

definition outcome ::
  "(string \<rightharpoonup> string list) \<Rightarrow> string \<Rightarrow> string list \<Rightarrow> DfsState \<Rightarrow> (bool \<times> DfsState) option \<Rightarrow> bool"
where
  "outcome adj node stack st r \<longleftrightarrow>
     (\<exists>b st'. r = Some (b, st') \<and>
        (if b then cycleFound adj st' else visited adj {node} st st' \<and> gray st' = set stack))"

definition dfsReady ::
  "(string \<rightharpoonup> string list) \<Rightarrow> string set \<Rightarrow> nat \<Rightarrow> string \<Rightarrow> string list \<Rightarrow> DfsState \<Rightarrow> bool"
where
  "dfsReady adj U fuel node stack st \<longleftrightarrow>
     node \<in> U \<and> blackOk adj st \<and> distinct (node # stack) \<and> chain adj (parent st) (node # stack) \<and>
     card (white st \<inter> U) \<le> fuel"

definition dfsContract :: "(string \<rightharpoonup> string list) \<Rightarrow> string set \<Rightarrow> nat \<Rightarrow> bool" where
  "dfsContract adj U fuel \<longleftrightarrow>
     (\<forall>node stack st. dfsReady adj U fuel node stack st \<and> color st node = White \<and> gray st = set stack \<longrightarrow>
        outcome adj node stack st (dfs fuel adj node st))"

lemma visited_trans:
  "visited adj X st st' \<Longrightarrow> visited adj Y st' st'' \<Longrightarrow> visited adj Y st st''"
  by (auto simp: visited_def)

lemma outcome_after:
  assumes "\<And>s. visited adj {node} st' s \<Longrightarrow> visited adj {node} st s" and "outcome adj node stack st' r"
  shows "outcome adj node stack st r"
  using assms unfolding outcome_def by metis

lemma dfsLoop_step:
  assumes contract: "dfsContract adj U fuel" and fin: "finite U"
    and closed: "\<And>x. x \<in> U \<Longrightarrow> set (elems (adj x)) \<subseteq> U"
    and ready: "dfsReady adj U fuel node stack st" and gray: "gray st = set (node # stack)"
    and nxt: "nxt \<in> set (elems (adj node))" and white: "color st nxt = White"
  defines "st0 \<equiv> st\<lparr>parent := (parent st)(nxt \<mapsto> node)\<rparr>"
  shows "\<exists>b st'. dfs fuel adj nxt st0 = Some (b, st') \<and>
     (if b then cycleFound adj st'
      else visited adj {nxt} st st' \<and> gray st' = set (node # stack) \<and> dfsReady adj U fuel node stack st')"
proof -
  have notin: "nxt \<notin> set (node # stack)" using gray white by (metis Color.distinct(1) mem_Collect_eq)
  then have "chain adj (parent st0) (node # stack) = chain adj (parent st) (node # stack)"
    by (intro chain_cong) (auto simp: st0_def)
  then have "dfsReady adj U fuel nxt (node # stack) st0"
    using ready nxt notin closed [of node]
    by (auto simp: dfsReady_def st0_def edges_def blackOk_def)
  then have "outcome adj nxt (node # stack) st0 (dfs fuel adj nxt st0)"
    using contract white gray by (auto simp: dfsContract_def st0_def)
  then obtain b st' where run: "dfs fuel adj nxt st0 = Some (b, st')"
    and post: "if b then cycleFound adj st' else visited adj {nxt} st0 st' \<and> gray st' = set (node # stack)"
    by (auto simp: outcome_def)
  have "visited adj {nxt} st st' \<and> dfsReady adj U fuel node stack st'" if "\<not> b"
  proof
    from post that have v: "visited adj {nxt} st0 st'" by simp
    then show v': "visited adj {nxt} st st'"
      using white by (auto simp: visited_def st0_def)
    have "chain adj (parent st') (node # stack) = chain adj (parent st) (node # stack)"
    proof (rule chain_cong)
      fix x
      assume "x \<in> set (node # stack)"
      then have "color st x = Gray" using gray by blast
      with v' show "parent st' x = parent st x" by (simp add: visited_def)
    qed
    moreover have "card (white st' \<inter> U) \<le> card (white st \<inter> U)"
      using v' fin by (intro card_mono) (auto simp: visited_def)
    ultimately show "dfsReady adj U fuel node stack st'"
      using ready v' by (auto simp: dfsReady_def visited_def)
  qed
  with run post show ?thesis by auto
qed

lemma dfsLoop_spec:
  assumes contract: "dfsContract adj U fuel" and fin: "finite U"
    and closed: "\<And>x. x \<in> U \<Longrightarrow> set (elems (adj x)) \<subseteq> U"
  shows "dfsReady adj U fuel node stack st \<Longrightarrow> gray st = set (node # stack) \<Longrightarrow>
    set rest \<subseteq> set (elems (adj node)) \<Longrightarrow> set (elems (adj node)) - set rest \<subseteq> black st \<Longrightarrow>
    outcome adj node stack st (dfsLoop fuel adj node rest st)"
proof (induction rest arbitrary: st)
  case Nil
  have "color st node = Gray" using Nil.prems(2) by auto
  then have "blackOk adj (st\<lparr>color := (color st)(node := Black)\<rparr>)"
    using Nil.prems by (intro blackOk_finish) (auto simp: dfsReady_def)
  with Nil.prems show ?case by (auto simp: outcome_def visited_def dfsReady_def)
next
  case (Cons nxt rest)
  show ?case
  proof (cases "color st nxt")
    case White
    have "nxt \<in> set (elems (adj node))" using Cons.prems(3) by simp
    from dfsLoop_step [OF contract fin closed Cons.prems(1,2) this White]
    obtain b st' where run: "dfs fuel adj nxt (st\<lparr>parent := (parent st)(nxt \<mapsto> node)\<rparr>) = Some (b, st')"
      and post: "if b then cycleFound adj st'
         else visited adj {nxt} st st' \<and> gray st' = set (node # stack) \<and> dfsReady adj U fuel node stack st'"
      by auto
    show ?thesis
    proof (cases b)
      case True
      with White run post show ?thesis by (auto simp: outcome_def)
    next
      case False
      with post have v: "visited adj {nxt} st st'" by simp
      then have "outcome adj node stack st' (dfsLoop fuel adj node rest st')"
        using False post Cons.prems(3,4) by (intro Cons.IH) (auto simp: visited_def)
      with White run False outcome_after [OF visited_trans [OF v]] show ?thesis by simp
    qed
  next
    case Gray
    then have "nxt \<in> set (node # stack)" using Cons.prems(2) by auto
    with Gray Cons.prems(1,3) show ?thesis
      by (auto simp: outcome_def cycleFound_def dfsReady_def edges_def)
  next
    case Black
    then have "outcome adj node stack st (dfsLoop fuel adj node rest st)"
      using Cons.prems by (intro Cons.IH) auto
    with Black show ?thesis by simp
  qed
qed

lemma dfs_contract:
  assumes fin: "finite U" and closed: "\<And>x. x \<in> U \<Longrightarrow> set (elems (adj x)) \<subseteq> U"
  shows "dfsContract adj U fuel"
proof (induction fuel)
  case 0
  show ?case
    unfolding dfsContract_def
  proof (intro allI impI)
    fix node stack st
    assume "dfsReady adj U 0 node stack st \<and> color st node = White \<and> gray st = set stack"
    then have "node \<in> white st \<inter> U" "card (white st \<inter> U) = 0" by (auto simp: dfsReady_def)
    with fin show "outcome adj node stack st (dfs 0 adj node st)" by auto
  qed
next
  case (Suc fuel)
  show ?case
    unfolding dfsContract_def
  proof (intro allI impI, elim conjE)
    fix node stack st
    assume ready: "dfsReady adj U (Suc fuel) node stack st" and white: "color st node = White"
      and gray: "gray st = set stack"
    let ?st = "st\<lparr>color := (color st)(node := Gray)\<rparr>"
    have "white ?st \<inter> U = (white st \<inter> U) - {node}" by auto
    moreover have "card (white st \<inter> U) \<le> Suc fuel" "node \<in> white st \<inter> U"
      using ready white by (simp_all add: dfsReady_def)
    ultimately have "card (white ?st \<inter> U) \<le> fuel"
      using card_Diff_singleton [of node "white st \<inter> U"] by simp
    moreover have "black ?st = black st" using white by auto
    ultimately have "dfsReady adj U fuel node stack ?st"
      using ready unfolding dfsReady_def blackOk_def by simp
    moreover have "gray ?st = set (node # stack)" using gray by auto
    ultimately have "outcome adj node stack ?st (dfsLoop fuel adj node (elems (adj node)) ?st)"
      by (intro dfsLoop_spec [OF Suc.IH fin closed]) auto
    moreover have "visited adj {node} st s" if "visited adj {node} ?st s" for s
      using that white \<open>black ?st = black st\<close> unfolding visited_def by (auto split: if_splits)
    ultimately show "outcome adj node stack st (dfs (Suc fuel) adj node st)"
      using outcome_after [of adj node ?st st] by simp
  qed
qed


section \<open>All services\<close>

lemma dfsAll_spec:
  assumes fin: "finite U" and closed: "\<And>x. x \<in> U \<Longrightarrow> set (elems (adj x)) \<subseteq> U" and fuel: "card U \<le> fuel"
  shows "set ids \<subseteq> U \<Longrightarrow> blackOk adj st \<Longrightarrow> gray st = {} \<Longrightarrow> cycleStart st = None \<Longrightarrow>
    \<exists>st'. dfsAll fuel adj ids st = Some st' \<and>
      (cycleFound adj st' \<or>
       cycleStart st' = None \<and> blackOk adj st' \<and> set ids \<subseteq> black st' \<and> black st \<subseteq> black st')"
proof (induction ids arbitrary: st)
  case (Cons i ids)
  show ?case
  proof (cases "color st i")
    case White
    have "card (white st \<inter> U) \<le> fuel"
      using card_mono [OF fin, of "white st \<inter> U"] fuel by auto
    then have "outcome adj i [] st (dfs fuel adj i st)"
      using dfs_contract [of U adj fuel, OF fin closed] Cons.prems White
      by (auto simp: dfsContract_def dfsReady_def)
    then obtain b st' where run: "dfs fuel adj i st = Some (b, st')"
      and post: "if b then cycleFound adj st' else visited adj {i} st st' \<and> gray st' = {}"
      by (auto simp: outcome_def)
    show ?thesis
    proof (cases b)
      case True
      with run post White show ?thesis by simp
    next
      case False
      with post have v: "visited adj {i} st st'" "gray st' = {}" by simp_all
      with Cons.IH [of st'] Cons.prems obtain st'' where
        "dfsAll fuel adj ids st' = Some st''"
        "cycleFound adj st'' \<or> cycleStart st'' = None \<and> blackOk adj st'' \<and> set ids \<subseteq> black st'' \<and>
           black st' \<subseteq> black st''"
        by (auto simp: visited_def)
      with run False White v show ?thesis by (auto simp: visited_def)
    qed
  next
    case Gray
    with Cons.prems show ?thesis by blast
  next
    case Black
    with Cons.IH [of st] Cons.prems show ?thesis by auto
  qed
qed simp

fun backward :: "(string \<rightharpoonup> string list) \<Rightarrow> string list \<Rightarrow> bool" where
  "backward adj (x # y # zs) \<longleftrightarrow> (y, x) \<in> edges adj \<and> backward adj (y # zs)"
| "backward adj _ \<longleftrightarrow> True"

text \<open>A cycle, each service after the one that follows it in the list.\<close>

definition isCycle :: "(string \<rightharpoonup> string list) \<Rightarrow> string list \<Rightarrow> bool" where
  "isCycle adj cycle \<longleftrightarrow>
     cycle \<noteq> [] \<and> distinct cycle \<and> backward adj cycle \<and> (hd cycle, last cycle) \<in> edges adj"

lemma chain_backward: "chain adj par xs \<Longrightarrow> backward adj xs"
  by (induction adj par xs rule: chain.induct) auto

lemma chain_prefix: "chain adj par (xs @ ys) \<Longrightarrow> chain adj par xs"
  by (induction adj par xs rule: chain.induct) auto

lemma cyclePath_chain:
  "chain adj par (xs @ start # ys) \<Longrightarrow> start \<notin> set xs \<Longrightarrow> length xs \<le> fuel \<Longrightarrow>
   cyclePath fuel par start acc (hd (xs @ [start])) = Some (acc @ xs)"
proof (induction xs arbitrary: fuel acc)
  case Nil
  then show ?case by (cases fuel) auto
next
  case (Cons x xs)
  then obtain f where f: "fuel = Suc f" by (cases fuel) auto
  have par: "par x = Some (hd (xs @ [start]))" "chain adj par (xs @ start # ys)"
    using Cons.prems(1) by (cases xs; simp)+
  from Cons.IH [OF par(2), of f "acc @ [x]"] show ?case using Cons.prems(2,3) f par(1) by auto
qed

lemma chain_last: "chain adj par (xs @ y # ys) \<Longrightarrow> xs \<noteq> [] \<Longrightarrow> (y, last xs) \<in> edges adj"
  by (induction xs) (auto simp: neq_Nil_conv split: list.splits elim: chain.elims)

lemma chain_sources: "chain adj par (x # zs) \<Longrightarrow> z \<in> set zs \<Longrightarrow> z \<in> Domain (edges adj)"
  by (induction zs arbitrary: x) auto

lemma cycleFound_path:
  assumes "cycleFound adj st" and "finite U" and "card U \<le> fuel" and "Domain (edges adj) \<subseteq> U"
  shows "\<exists>start stop cycle. cycleStart st = Some start \<and> cycleEnd st = Some stop \<and>
    cyclePath fuel (parent st) start [start] stop = Some cycle \<and> isCycle adj cycle"
proof -
  from assms(1) obtain stack start stop where st: "cycleStart st = Some start" "cycleEnd st = Some stop"
    and start: "start \<in> set (stop # stack)" and link: "(stop, start) \<in> edges adj"
    and chain: "chain adj (parent st) (stop # stack)" and dist: "distinct (stop # stack)"
    by (auto simp: cycleFound_def)
  from start obtain xs ys where split: "stop # stack = xs @ start # ys" by (meson split_list)
  have stop: "stop = hd (xs @ [start])" using split by (cases xs) auto
  have notin: "start \<notin> set xs" "distinct xs" using dist split by auto
  have "z \<in> Domain (edges adj)" if "z \<in> set (stop # stack)" for z
    using that link chain_sources [OF chain] by auto
  then have "set xs \<subseteq> U" using assms(4) split by auto
  then have "length xs \<le> fuel"
    using card_mono [OF assms(2), of "set xs"] distinct_card [OF notin(2)] assms(3) by simp
  then have path: "cyclePath fuel (parent st) start [start] stop = Some (start # xs)"
    using cyclePath_chain [of adj "parent st" xs start ys fuel "[start]"] chain split notin(1) stop by simp
  have "chain adj (parent st) xs" using chain unfolding split by (rule chain_prefix)
  then have "backward adj xs" by (rule chain_backward)
  then have "backward adj (start # xs)" using link stop by (cases xs) auto
  moreover have "(start, last (start # xs)) \<in> edges adj"
    using link stop chain_last [of adj "parent st" xs start ys] chain split by (cases "xs = []") auto
  ultimately have "isCycle adj (start # xs)" using notin by (simp add: isCycle_def)
  with st path show ?thesis by blast
qed

section \<open>The graph of upstream services\<close>

lemma find_rev_snoc: "find P (rev (xs @ [x])) = (if P x then Some x else find P (rev xs))"
  by simp

lemma producerMaps_char:
  defines "maps entries \<equiv> foldl recordProducer
    \<lparr>defaultProducers = Map.empty, instancedProducers = Map.empty, producersByType = Map.empty\<rparr> entries"
  shows "defaultProducers (maps entries) t =
      map_option fst (find (\<lambda>(i, p). prodInstance p = None \<and> prodType p = t) (rev entries)) \<and>
    instancedProducers (maps entries) k =
      map_option fst (find (\<lambda>(i, p). case prodInstance p of
          None \<Rightarrow> False | Some inst \<Rightarrow> prodType p @ ''/'' @ inst = k) (rev entries)) \<and>
    elems (producersByType (maps entries) t) = map fst (filter (\<lambda>(i, p). prodType p = t) entries)"
  unfolding maps_def
proof (induction entries rule: rev_induct)
  case (snoc e entries)
  obtain i p where e: "e = (i, p)" by fastforce
  from snoc show ?case
    by (cases "prodInstance p") (auto simp: e recordProducer_def Let_def)
qed simp

lemma find_fst_mem: "map_option fst (find P xs) = Some i \<Longrightarrow> i \<in> fst ` set xs"
  by (force dest: find_mem)

lemma upstreamProducer_installed:
  assumes "upstreamProducer (producerMaps services) con = Some i"
  shows "i \<in> set (map serviceId services)"
proof -
  have "i \<in> fst ` set (producedBy services)"
  proof -
    have "i \<in> fst ` set (producedBy services)"
      if "elems (producersByType (producerMaps services) (conType con)) = [i]"
    proof -
      from that have "i \<in> set (map fst (filter (\<lambda>(i, p). prodType p = conType con) (producedBy services)))"
        using producerMaps_char [of "producedBy services" "conType con"] by (simp add: producerMaps_def)
      then show ?thesis by auto
    qed
    with assms show ?thesis
      using producerMaps_char [of "producedBy services" "conType con"] find_fst_mem
      by (fastforce simp: upstreamProducer_def producerMaps_def split: option.splits list.splits)
  qed
  then show ?thesis by (auto simp: producedBy_def)
qed

lemma resolveConsumes_get:
  "resolveConsumesDependencies services x =
     map_option (upstreamOf (producerMaps services)) (find (\<lambda>s. serviceId s = x) (rev services))"
  by (simp add: resolveConsumesDependencies_def foldl_upd_get split: option.splits)

lemma upstreamOf_installed: "set (upstreamOf (producerMaps services) s) \<subseteq> set (map serviceId services)"
  using upstreamProducer_installed [of services]
  by (auto simp: upstreamOf_def map_filter_def)

lemma consumes_graph:
  shows "set (elems (resolveConsumesDependencies services x)) \<subseteq> set (map serviceId services)"
    and "Domain (edges (resolveConsumesDependencies services)) \<subseteq> set (map serviceId services)"
proof -
  show "set (elems (resolveConsumesDependencies services x)) \<subseteq> set (map serviceId services)"
    using upstreamOf_installed unfolding resolveConsumes_get
    by (cases "find (\<lambda>s. serviceId s = x) (rev services)") auto
  have "x \<in> set (map serviceId services)" if "resolveConsumesDependencies services x \<noteq> None" for x
    using that by (auto simp: resolveConsumes_get dest: find_mem)
  then show "Domain (edges (resolveConsumesDependencies services)) \<subseteq> set (map serviceId services)"
    unfolding edges_def elems_def by (force split: option.splits)
qed

lemma backward_rtrancl: "backward adj (x # xs) \<Longrightarrow> (last (x # xs), x) \<in> (edges adj)\<^sup>*"
proof (induction xs arbitrary: x)
  case (Cons y xs)
  then have "(last (y # xs), y) \<in> (edges adj)\<^sup>*" "(y, x) \<in> edges adj" by simp_all
  then have "(last (y # xs), x) \<in> (edges adj)\<^sup>*" by (rule rtrancl_into_rtrancl)
  then show ?case by simp
qed simp

lemma isCycle_not_acyclic:
  assumes "isCycle adj cycle" shows "\<not> acyclic (edges adj)"
proof -
  obtain x xs where "cycle = x # xs" using assms by (cases cycle) (auto simp: isCycle_def)
  with assms have "(x, last (x # xs)) \<in> edges adj" "(last (x # xs), x) \<in> (edges adj)\<^sup>*"
    using backward_rtrancl by (auto simp: isCycle_def)
  then have "(x, x) \<in> (edges adj)\<^sup>+" by (rule rtrancl_into_trancl2)
  then show ?thesis by (auto simp: acyclic_def)
qed

lemma blackOk_acyclic:
  assumes "blackOk adj st" and "Domain (edges adj) \<subseteq> black st"
  shows "acyclic (edges adj)"
proof (rule acyclicI, intro allI notI)
  fix x assume "(x, x) \<in> (edges adj)\<^sup>+"
  moreover from this have "x \<in> Domain (edges adj)" by (metis Domain.DomainI tranclD)
  ultimately show False using assms by (auto simp: blackOk_def)
qed

lemma detect_correct:
  assumes "length services \<le> fuel"
  shows "\<exists>r. detectConsumesCycle fuel services = Some r \<and>
    (case r of None \<Rightarrow> acyclic (edges (resolveConsumesDependencies services))
     | Some cycle \<Rightarrow> isCycle (resolveConsumesDependencies services) cycle)"
proof -
  let ?adj = "resolveConsumesDependencies services" and ?U = "set (map serviceId services)"
  have U: "finite ?U" "card ?U \<le> fuel" "Domain (edges ?adj) \<subseteq> ?U"
    using assms card_length [of "map serviceId services"] consumes_graph(2) by simp_all
  have fresh: "blackOk ?adj freshDfs" "gray freshDfs = {}" "cycleStart freshDfs = None"
    by (simp_all add: blackOk_def freshDfs_def)
  from dfsAll_spec [OF U(1) consumes_graph(1) U(2) subset_refl fresh]
  obtain st where run: "dfsAll fuel ?adj (map serviceId services) freshDfs = Some st"
    and post: "cycleFound ?adj st \<or> cycleStart st = None \<and> blackOk ?adj st \<and> ?U \<subseteq> black st"
    by auto
  from post show ?thesis
  proof
    assume "cycleFound ?adj st"
    from cycleFound_path [OF this U] run show ?thesis by (auto simp: detectConsumesCycle_def)
  next
    assume "cycleStart st = None \<and> blackOk ?adj st \<and> ?U \<subseteq> black st"
    with run U(3) blackOk_acyclic show ?thesis by (auto simp: detectConsumesCycle_def)
  qed
qed

section \<open>Requirements\<close>

lemma resolveService_match:
  "resMatch (resolveService services i src) = Some m \<Longrightarrow>
   \<exists>s \<in> set services. enabled s \<and> serviceId s = i \<and> m = \<lparr>matchServiceId = i, matchSource = src\<rparr>"
  by (auto simp: resolveService_def unsatisfied_def matched_def dest: find_mem split: option.splits if_splits)

lemma resolveCapability_match:
  "resMatch (resolveCapability services cap ctx) = Some m \<Longrightarrow>
   \<exists>s \<in> set (findByCapability services cap). m = \<lparr>matchServiceId = serviceId s, matchSource = Capability\<rparr>"
  by (auto simp: resolveCapability_def Let_def unsatisfied_def matched_def bind_eq_Some_conv dest: find_mem
      split: option.splits if_splits list.splits)

definition byCapability ::
  "LoadedService list \<Rightarrow> IntegrationRequirement \<Rightarrow> ResolverContext \<Rightarrow> ResolutionResult \<Rightarrow> bool"
where
  "byCapability services req ctx r \<longleftrightarrow>
     (\<exists>why. r = unsatisfied why) \<or>
     (\<exists>cap. r = resolveCapability services cap ctx \<and> reqCapability req = Some cap)"

definition byService ::
  "LoadedService list \<Rightarrow> IntegrationRequirement \<Rightarrow> ResolverContext \<Rightarrow> ResolutionResult \<Rightarrow> bool"
where
  "byService services req ctx r \<longleftrightarrow>
     (\<exists>slug url. r = resolveService services slug GitUrl \<and> reqService req = Some url \<and>
        (slug, url) \<in> set (gitUrlBySlug ctx)) \<or>
     (\<exists>service. r = resolveService services service ExactService \<and> reqService req = Some service)"

lemma resolveRequirement_cases:
  "byCapability services req ctx (resolveRequirement services req ctx) \<or>
   byService services req ctx (resolveRequirement services req ctx)"
proof (cases "\<exists>service. reqService req = Some service \<and> service \<noteq> []")
  case False
  then have "byCapability services req ctx (resolveRequirement services req ctx)"
    by (cases "reqService req"; cases "reqCapability req")
       (auto simp: resolveRequirement_def byCapability_def)
  then show ?thesis ..
next
  case True
  then obtain service where service: "reqService req = Some service" "service \<noteq> []" by blast
  show ?thesis
  proof (cases "isGitUrl service \<and> find (\<lambda>(slug, url). url = service) (gitUrlBySlug ctx) \<noteq> None")
    case True
    then obtain slug url where found: "find (\<lambda>(slug, url). url = service) (gitUrlBySlug ctx) = Some (slug, url)"
      by auto
    with find_mem [OF this] True service have
      "resolveRequirement services req ctx =
         (if slug = [] then unsatisfied ServiceNotInstalled else resolveService services slug GitUrl)"
      "(slug, service) \<in> set (gitUrlBySlug ctx)"
      by (auto simp: resolveRequirement_def)
    with service(1) show ?thesis by (auto simp: byCapability_def byService_def)
  next
    case False
    then have "resolveRequirement services req ctx =
        (if isGitUrl service then unsatisfied ServiceNotInstalled
         else resolveService services service ExactService)"
      using service by (auto simp: resolveRequirement_def split: option.splits)
    with service(1) show ?thesis by (auto simp: byCapability_def byService_def)
  qed
qed

lemma satisfied_iff_match:
  "satisfied (resolveService services i src) \<longleftrightarrow> resMatch (resolveService services i src) \<noteq> None"
  "satisfied (resolveCapability services cap ctx) \<longleftrightarrow> resMatch (resolveCapability services cap ctx) \<noteq> None"
  "satisfied (unsatisfied why) \<longleftrightarrow> resMatch (unsatisfied why) \<noteq> None"
  by (auto simp: resolveService_def resolveCapability_def Let_def matched_def unsatisfied_def
      split: option.splits list.splits)

section \<open>Properties\<close>

text \<open>
  C4. The search for a cycle is correct and ends: with the number of services as its depth it
  returns, it reports no cycle exactly when the graph of data dependencies is acyclic, and a
  reported list is a cycle of that graph, without repetitions.
\<close>

theorem detectConsumesCycle_correct:
  assumes "length services \<le> fuel"
  shows "\<exists>r. detectConsumesCycle fuel services = Some r \<and>
     (r = None \<longleftrightarrow> acyclic (edges (resolveConsumesDependencies services))) \<and>
     (\<forall>cycle. r = Some cycle \<longrightarrow> isCycle (resolveConsumesDependencies services) cycle)"
  using detect_correct [OF assms] isCycle_not_acyclic by (fastforce split: option.splits)

theorem detectConsumesCycle_correct_witness:
  "detectConsumesCycle 2 [blankService ''a'', blankService ''b''] = Some None \<and>
   acyclic (edges (resolveConsumesDependencies [blankService ''a'', blankService ''b'']))"
proof -
  have run: "detectConsumesCycle 2 [blankService ''a'', blankService ''b''] = Some None" by code_simp
  have "length [blankService ''a'', blankService ''b''] \<le> 2" by simp
  from detectConsumesCycle_correct [OF this] run show ?thesis by simp
qed

text \<open>
  A satisfied requirement names an installed, enabled service: the one asked for, the one
  installed from the given repository, or one that provides the capability.
  Without a match it is reported unsatisfied.
\<close>

theorem resolveRequirement_sound:
  "(case resMatch (resolveRequirement services req ctx) of
      None \<Rightarrow> \<not> satisfied (resolveRequirement services req ctx)
    | Some m \<Rightarrow>
        satisfied (resolveRequirement services req ctx) \<and>
        (\<exists>s. s \<in> set services \<and> enabled s \<and> serviceId s = matchServiceId m \<and>
           (case matchSource m of
              ExactService \<Rightarrow> reqService req = Some (serviceId s)
            | GitUrl \<Rightarrow> \<exists>url. reqService req = Some url \<and> (serviceId s, url) \<in> set (gitUrlBySlug ctx)
            | Capability \<Rightarrow> \<exists>cap. reqCapability req = Some cap \<and> s \<in> set (findByCapability services cap))))"
    (is "?P (resolveRequirement services req ctx)")
proof -
  have "?P r" if "byService services req ctx r" for r
    using that
    by (fastforce simp: byService_def satisfied_iff_match dest: resolveService_match
        split: option.splits)
  moreover have "s \<in> set (findByCapability services cap) \<Longrightarrow> s \<in> set services \<and> enabled s" for s cap
    by (simp add: findByCapability_def)
  then have "?P r" if "byCapability services req ctx r" for r
    using that
    by (fastforce simp: byCapability_def satisfied_iff_match unsatisfied_def
        dest: resolveCapability_match split: option.splits)
  ultimately show ?thesis using resolveRequirement_cases by blast
qed

end
