(* ===== verification/Service_Policy.thy ===== *)
theory Service_Policy
  imports Service_Types "HOL-Library.List_Lexorder" "HOL-Library.Char_ord"
begin

text \<open>
  What a service manifest may ask for. From \<open>packages/extension-contracts/src\<close>:
  \<open>service-policy.ts\<close> (the static sandbox rules), \<open>secret-key.ts\<close>, \<open>capabilities.ts\<close> (naming
  advisories) and the checks of \<open>validateServiceManifest\<close> in \<open>service.ts\<close>. From
  \<open>packages/core/src/services\<close>: \<open>sandbox-policy.ts\<close> (collisions with other services) and
  \<open>security-rating.ts\<close>. Error and warning texts are constructors with what the text names.
  \<open>serviceManifestSchema.safeParse\<close> (zod) is a parameter: the issues it reports, or the manifest.
\<close>

section \<open>Character classes\<close>

definition isWordStart :: "char \<Rightarrow> bool" where
  "isWordStart c \<longleftrightarrow> isAlpha c \<or> c = CHR ''_''"

definition isWordChar :: "char \<Rightarrow> bool" where
  "isWordChar c \<longleftrightarrow> isAlpha c \<or> isDigit c \<or> c = CHR ''_''"

definition isBrace :: "char \<Rightarrow> bool" where
  "isBrace c \<longleftrightarrow> c = CHR ''{'' \<or> c = CHR ''}''"

section \<open>Static sandbox rules\<close>

text \<open>\<open>/^\$(\{[^{}]+\}|[A-Za-z_][A-Za-z0-9_]*)/\<close>\<close>

definition isComposeVarReference :: "string \<Rightarrow> bool" where
  "isComposeVarReference v \<longleftrightarrow>
     (case v of
        d # c # cs \<Rightarrow>
          d = CHR ''$'' \<and>
          (isWordStart c \<or>
           c = CHR ''{'' \<and> takeWhile (\<lambda>x. \<not> isBrace x) cs \<noteq> [] \<and>
           (case dropWhile (\<lambda>x. \<not> isBrace x) cs of [] \<Rightarrow> False | x # _ \<Rightarrow> x = CHR ''}''))
      | _ \<Rightarrow> False)"

definition COMMUNITY_SAFE_CAPS :: "string list" where
  "COMMUNITY_SAFE_CAPS =
     [''CHOWN'', ''DAC_OVERRIDE'', ''FOWNER'', ''FSETID'', ''KILL'', ''NET_BIND_SERVICE'',
      ''NET_RAW'', ''SETFCAP'', ''SETGID'', ''SETPCAP'', ''SETUID'']"

datatype SandboxError =
    BuiltInReserved
  | MustDeclareBuiltIn ServiceQuality
  | HostNetworkForbidden
  | CommunityNetworkAccessForbidden
  | PrivateNetworkForbidden
  | PlatformNetworkNeedsPrivate
  | HostNetworkWithPrivate
  | PrivilegedForbidden
  | ReservedResourceSettings
  | CapabilityForbidden string
  | DevicesForbidden
  | CommunityProxyForbidden
  | ProxyNeedsExposedPort
  | CommunityBindMountForbidden
  | EnvFileForbidden
  | VolumeNotNamespaced string

definition RESERVED_RESOURCES :: "string list" where
  "RESERVED_RESOURCES = [''OPENMAPX_MEMORY_MIB'', ''OPENMAPX_CPU_LIMIT'', ''OPENMAPX_JAVA_HEAP_MIB'']"

definition schemaProperties :: "ServiceManifest \<Rightarrow> (string \<times> json) list" where
  "schemaProperties m =
     (case Option.bind (configSchema m) (\<lambda>c. map_of c ''properties'') of
        Some (JObj ps) \<Rightarrow> ps
      | _ \<Rightarrow> [])"

definition proxyOn :: "ServiceManifest \<Rightarrow> bool" where
  "proxyOn m \<longleftrightarrow>
     (case Option.bind (exposure m) proxy of None \<Rightarrow> False | Some p \<Rightarrow> proxyEnabled p)"

definition pushIf :: "bool \<Rightarrow> 'a \<Rightarrow> 'a list" where
  "pushIf b e = (if b then [e] else [])"

definition checkManifestSandbox :: "ServiceManifest \<Rightarrow> bool \<Rightarrow> SandboxError list" where
  "checkManifestSandbox m first =
     (let c = container m;
          declaresBuiltInTier = (quality m = BuiltIn);
          hostPrivilegesAllowed = first;
          usesPrivateNetworks = (privateNetworks m \<noteq> None \<or> platformNetwork m \<noteq> None)
      in pushIf (\<not> first \<and> declaresBuiltInTier) BuiltInReserved @
         pushIf (first \<and> \<not> declaresBuiltInTier) (MustDeclareBuiltIn (quality m)) @
         pushIf (\<not> hostPrivilegesAllowed \<and> networkMode c = Some HostNetwork) HostNetworkForbidden @
         pushIf (\<not> hostPrivilegesAllowed \<and> communityNetworkAccess m \<noteq> None)
           CommunityNetworkAccessForbidden @
         pushIf (\<not> hostPrivilegesAllowed \<and> usesPrivateNetworks) PrivateNetworkForbidden @
         pushIf (platformNetwork m = Some False \<and> elems (privateNetworks m) = [])
           PlatformNetworkNeedsPrivate @
         pushIf (networkMode c = Some HostNetwork \<and> usesPrivateNetworks) HostNetworkWithPrivate @
         pushIf (\<not> hostPrivilegesAllowed \<and> truthy (privileged c)) PrivilegedForbidden @
         (if \<not> hostPrivilegesAllowed
          then pushIf (list_ex (\<lambda>key. key \<in> fst ` set (schemaProperties m)) RESERVED_RESOURCES)
                 ReservedResourceSettings @
               map CapabilityForbidden
                 (filter (\<lambda>cap. cap \<notin> set COMMUNITY_SAFE_CAPS) (elems (capAdd c))) @
               pushIf (elems (devices c) \<noteq> []) DevicesForbidden @
               pushIf (proxyOn m) CommunityProxyForbidden
          else []) @
         pushIf (proxyOn m \<and> elems (expose c) = []) ProxyNeedsExposedPort @
         (if \<not> hostPrivilegesAllowed
          then pushIf (elems (bindMounts m) \<noteq> []) CommunityBindMountForbidden @
               pushIf (elems (envFile c) \<noteq> []) EnvFileForbidden @
               map (\<lambda>v. VolumeNotNamespaced (volName v))
                 (filter (\<lambda>v. \<not> startsWith (volName v) (''openmapx-'' @ manifestId m @ ''-''))
                   (elems (volumes m)))
          else []))"

section \<open>Collisions between services\<close>

datatype AliasOwner = OwnerService string | OwnerAlias string

datatype RenderSandboxError =
    SandboxValidationFailed string "SandboxError list"
  | AliasCollision string string AliasOwner
  | VolumeCollision string string string

definition others :: "LoadedService \<Rightarrow> LoadedService list \<Rightarrow> LoadedService list" where
  "others service allServices = filter (\<lambda>o'. serviceId o' \<noteq> serviceId service) allServices"

definition takenNames :: "LoadedService \<Rightarrow> LoadedService list \<Rightarrow> string \<rightharpoonup> AliasOwner" where
  "takenNames service allServices =
     foldl (\<lambda>taken other.
        foldl (\<lambda>t alias. t(alias \<mapsto> OwnerAlias (serviceId other)))
          (taken(serviceId other \<mapsto> OwnerService (serviceId other)))
          (elems (networkAliases (container (manifest other)))))
       Map.empty (others service allServices)"

definition otherVolumes :: "LoadedService \<Rightarrow> LoadedService list \<Rightarrow> string \<rightharpoonup> string" where
  "otherVolumes service allServices =
     foldl (\<lambda>names other.
        foldl (\<lambda>t volume. t(volName volume \<mapsto> serviceId other)) names
          (elems (volumes (manifest other))))
       Map.empty (others service allServices)"

fun checkAliases ::
  "LoadedService \<Rightarrow> (string \<rightharpoonup> AliasOwner) \<Rightarrow> string list \<Rightarrow> RenderSandboxError option"
where
  "checkAliases service taken [] = None"
| "checkAliases service taken (alias # aliases) =
     (if alias = serviceId service then checkAliases service taken aliases
      else case taken alias of
             Some owner \<Rightarrow> Some (AliasCollision alias (serviceId service) owner)
           | None \<Rightarrow> checkAliases service taken aliases)"

fun checkVolumes ::
  "LoadedService \<Rightarrow> (string \<rightharpoonup> string) \<Rightarrow> ServiceVolume list \<Rightarrow> RenderSandboxError option"
where
  "checkVolumes service names [] = None"
| "checkVolumes service names (volume # vs) =
     (case names (volName volume) of
        Some owner \<Rightarrow>
          if owner \<noteq> [] then Some (VolumeCollision (volName volume) (serviceId service) owner)
          else checkVolumes service names vs
      | None \<Rightarrow> checkVolumes service names vs)"

text \<open>The error thrown, if any.\<close>

definition assertRenderSandbox ::
  "LoadedService \<Rightarrow> LoadedService list \<Rightarrow> RenderSandboxError option"
where
  "assertRenderSandbox service allServices =
     (let staticErrors = checkManifestSandbox (manifest service) (isBuiltIn service)
      in if staticErrors \<noteq> []
         then Some (SandboxValidationFailed (serviceId service) staticErrors)
         else if isBuiltIn service then None
         else
           case checkAliases service (takenNames service allServices)
                  (elems (networkAliases (container (manifest service)))) of
             Some e \<Rightarrow> Some e
           | None \<Rightarrow>
               checkVolumes service (otherVolumes service allServices)
                 (elems (volumes (manifest service))))"

section \<open>The security rating\<close>

definition MIN_SCORE :: int where "MIN_SCORE = 1"

definition MAX_SCORE :: int where "MAX_SCORE = 8"

definition BASE_SCORE :: int where "BASE_SCORE = 5"

fun jsonTruthy :: "json \<Rightarrow> bool" where
  "jsonTruthy JNull = False"
| "jsonTruthy (JBool b) = b"
| "jsonTruthy (JNum n) = (n \<noteq> ''0'')"
| "jsonTruthy (JStr s) = (s \<noteq> [])"
| "jsonTruthy _ = True"

definition isSecretField :: "json \<Rightarrow> bool" where
  "isSecretField def =
     (case jsonProp ''x-openmapx-secret'' def of None \<Rightarrow> False | Some v \<Rightarrow> jsonTruthy v)"

definition countSecretFields :: "ServiceManifest \<Rightarrow> nat" where
  "countSecretFields m = length (filter (\<lambda>p. isSecretField (snd p)) (schemaProperties m))"

text \<open>
  \<open>COMPOSE_VARIABLE_REGEX\<close> right behind a dollar sign: the variable's name and what follows the
  match.
\<close>

definition afterOperator :: "string \<Rightarrow> string option" where
  "afterOperator s =
     (case s of
        c # cs \<Rightarrow>
          if c \<in> {CHR ''-'', CHR ''+'', CHR ''?''} then Some cs
          else if c = CHR '':''
          then (case cs of
                  d # ds \<Rightarrow> if d \<in> {CHR ''-'', CHR ''+'', CHR ''?''} then Some ds else None
                | [] \<Rightarrow> None)
          else None
      | [] \<Rightarrow> None)"

definition closingBrace :: "string \<Rightarrow> string option" where
  "closingBrace s =
     (case s of c # cs \<Rightarrow> if c = CHR ''}'' then Some cs else None | [] \<Rightarrow> None)"

definition composeVariable :: "string \<Rightarrow> (string \<times> string) option" where
  "composeVariable s =
     (case s of
        [] \<Rightarrow> None
      | c # cs \<Rightarrow>
          if c = CHR ''{''
          then let name = takeWhile isWordChar cs; after = dropWhile isWordChar cs
               in if name = [] \<or> \<not> isWordStart (hd name) then None
                  else
                    (case afterOperator after of
                       Some body \<Rightarrow>
                         map_option (Pair name) (closingBrace (dropWhile (\<lambda>x. \<not> isBrace x) body))
                     | None \<Rightarrow> map_option (Pair name) (closingBrace after))
          else if isWordStart c then Some (takeWhile isWordChar s, dropWhile isWordChar s)
          else None)"

lemma closingBrace_length: "closingBrace s = Some r \<Longrightarrow> length r < length s"
  by (auto simp: closingBrace_def split: list.splits if_splits)

lemma afterOperator_length: "afterOperator s = Some r \<Longrightarrow> length r < length s"
  by (auto simp: afterOperator_def split: list.splits if_splits)

lemma composeVariable_length: "composeVariable s = Some (n, r) \<Longrightarrow> length r \<le> length s"
  using length_dropWhile_le [of isWordChar] length_dropWhile_le [of "\<lambda>x. \<not> isBrace x"]
  by (auto simp: composeVariable_def Let_def dest!: closingBrace_length afterOperator_length
      split: list.splits if_splits option.splits)
     (metis (no_types, lifting) dual_order.trans less_imp_le_nat le_SucI)+

function matchVariables :: "string \<Rightarrow> string list" where
  "matchVariables [] = []"
| "matchVariables (c # cs) =
     (if c = CHR ''$''
      then (case composeVariable cs of
              Some (name, after) \<Rightarrow> name # matchVariables after
            | None \<Rightarrow> matchVariables cs)
      else matchVariables cs)"
  by pat_completeness auto
termination
  by (relation "measure length") (auto dest: composeVariable_length)

fun collectDeploymentVariables :: "json \<Rightarrow> string list \<Rightarrow> string list" where
  "collectDeploymentVariables (JStr s) names = foldl (\<lambda>ns n. setAdd n ns) names (matchVariables s)"
| "collectDeploymentVariables (JArr items) names = foldl (\<lambda>ns j. collectDeploymentVariables j ns) names items"
| "collectDeploymentVariables (JObj props) names =
     foldl (\<lambda>ns p. collectDeploymentVariables (snd p) ns) names props"
| "collectDeploymentVariables _ names = names"

datatype RatingFactor =
    AuthRequired
  | NoHostPorts
  | PublishesHostPorts nat
  | OwnSchema
  | ElevatedResources "string list"
  | ReadsDeploymentVariables "string list"

record ServiceSecurityRating =
  score :: int
  requiresBuiltIn :: bool
  ratedHostPorts :: nat
  secretCount :: nat
  deploymentVariables :: "string list"
  factors :: "RatingFactor list"

definition elevatedCaps :: "ServiceManifest \<Rightarrow> string list" where
  "elevatedCaps m = filter (\<lambda>cap. cap \<notin> set COMMUNITY_SAFE_CAPS) (elems (capAdd (container m)))"

definition usesSpecialBind :: "ServiceManifest \<Rightarrow> bool" where
  "usesSpecialBind m \<longleftrightarrow> list_ex (\<lambda>b. startsWith (bmSource b) ''@'') (elems (bindMounts m))"

definition usesComposeVarBind :: "ServiceManifest \<Rightarrow> bool" where
  "usesComposeVarBind m \<longleftrightarrow>
     list_ex (\<lambda>b. isComposeVarReference (bmSource b) \<or> isComposeVarReference (bmTarget b))
       (elems (bindMounts m))"

definition elevatedReasons :: "ServiceManifest \<Rightarrow> string list" where
  "elevatedReasons m =
     (let c = container m
      in pushIf (truthy (privileged c)) ''privileged'' @
         pushIf (networkMode c = Some HostNetwork) ''host networking'' @
         pushIf (elems (devices c) \<noteq> []) ''device passthrough'' @
         pushIf (elevatedCaps m \<noteq> []) (''elevated caps ('' @ join '', '' (elevatedCaps m) @ '')'') @
         pushIf (usesSpecialBind m) ''host bind mounts'' @
         pushIf (elems (envFile c) \<noteq> []) ''deployment env_file'' @
         pushIf (usesComposeVarBind m) ''Compose-variable bind paths'')"

definition proxyAuth :: "ServiceManifest \<Rightarrow> bool" where
  "proxyAuth m \<longleftrightarrow>
     (case Option.bind (exposure m) proxy of None \<Rightarrow> False | Some p \<Rightarrow> truthy (authRequired p))"

definition publishedPorts :: "ServiceManifest \<Rightarrow> nat" where
  "publishedPorts m =
     (case exposure m of None \<Rightarrow> 0 | Some e \<Rightarrow> length (elems (hostPorts e)))"

definition hasOwnSchema :: "ServiceManifest \<Rightarrow> bool" where
  "hasOwnSchema m \<longleftrightarrow> (case ownsSchema m of None \<Rightarrow> False | Some s \<Rightarrow> s \<noteq> [])"

text \<open>The second argument is the same manifest as the plain value that is searched for variables.\<close>

definition computeServiceSecurityRating :: "ServiceManifest \<Rightarrow> json \<Rightarrow> ServiceSecurityRating" where
  "computeServiceSecurityRating m raw =
     (let c = container m;
          ports = publishedPorts m;
          variables = sort (collectDeploymentVariables raw []);
          builtInOnly =
            (truthy (privileged c) \<or> networkMode c = Some HostNetwork \<or> elems (devices c) \<noteq> [] \<or>
             elevatedCaps m \<noteq> [] \<or> usesSpecialBind m \<or> elems (envFile c) \<noteq> [] \<or>
             usesComposeVarBind m);
          total =
            BASE_SCORE + (if proxyAuth m then 1 else 0) +
            (if ports = 0 then 1 else - int ports) + (if hasOwnSchema m then 1 else 0) -
            (if builtInOnly then 2 else 0) - (if variables \<noteq> [] then 2 else 0)
      in \<lparr>score = max MIN_SCORE (min MAX_SCORE total),
          requiresBuiltIn = builtInOnly,
          ratedHostPorts = ports,
          secretCount = countSecretFields m,
          deploymentVariables = variables,
          factors =
            pushIf (proxyAuth m) AuthRequired @
            [if ports = 0 then NoHostPorts else PublishesHostPorts ports] @
            pushIf (hasOwnSchema m) OwnSchema @
            pushIf builtInOnly (ElevatedResources (elevatedReasons m)) @
            pushIf (variables \<noteq> []) (ReadsDeploymentVariables variables)\<rparr>)"

section \<open>Capability names\<close>

definition WELL_KNOWN_CAPABILITIES :: "string list" where
  "WELL_KNOWN_CAPABILITIES =
     [''routing-engine'', ''transit-engine'', ''transit-engine-staging'', ''geocoder'', ''tile-server'',
      ''osm-query'', ''database'', ''cache'', ''proxy'', ''osm-data'', ''gtfs-data'', ''tile-asset-data'']"

definition WELL_KNOWN_DATA_TYPES :: "string list" where
  "WELL_KNOWN_DATA_TYPES =
     [''osm-pbf'', ''osm-pbf-bz2'', ''osrm-graph'', ''otp-graph'', ''motis-data'', ''motis-staging-data'',
      ''motis-feed-proxy-config'', ''gtfs'', ''tile-mbtiles'', ''tile-fonts'', ''pelias-placeholder-data'',
      ''pelias-whosonfirst-data'']"

definition isSlug :: "string \<Rightarrow> bool" where
  "isSlug s \<longleftrightarrow>
     (case s of
        [] \<Rightarrow> False
      | c # cs \<Rightarrow> isLowerOrDigit c \<and> (\<forall>d \<in> set cs. isLowerOrDigit d \<or> d = CHR ''-''))"

text \<open>\<open>NAMESPACED_NAME_REGEX\<close>: two slugs around the only slash.\<close>

definition isNamespaced :: "string \<Rightarrow> bool" where
  "isNamespaced s \<longleftrightarrow>
     isSlug (takeWhile (\<lambda>c. c \<noteq> CHR ''/'') s) \<and>
     (case dropWhile (\<lambda>c. c \<noteq> CHR ''/'') s of [] \<Rightarrow> False | _ # name \<Rightarrow> isSlug name)"

datatype CapabilityKind = KindCapability | KindDataType

record CapabilityCheck =
  checkOk :: bool
  wellKnown :: bool
  namespaced :: bool

definition checkCapabilityName :: "string \<Rightarrow> CapabilityKind \<Rightarrow> CapabilityCheck" where
  "checkCapabilityName v kind =
     (let known = v \<in> set (if kind = KindCapability then WELL_KNOWN_CAPABILITIES
                           else WELL_KNOWN_DATA_TYPES);
          ns = isNamespaced v
      in \<lparr>checkOk = (known \<or> ns), wellKnown = known, namespaced = ns\<rparr>)"

text \<open>The message of a warning is a function of its kind and value.\<close>

record CapabilityWarning =
  warnPath :: string
  warnValue :: string
  warnKind :: CapabilityKind

definition warningMessage :: "CapabilityWarning \<Rightarrow> string" where
  "warningMessage w =
     (let q = [CHR 0x22] @ warnValue w @ [CHR 0x22]
      in case warnKind w of
           KindCapability \<Rightarrow>
             q @ '' is not a well-known capability and not namespaced; community capabilities should use ''
             @ [CHR 0x22] @ ''<vendor>/<name>'' @ [CHR 0x22] @ '' (e.g. '' @ [CHR 0x22] @ ''acme/''
             @ warnValue w @ [CHR 0x22] @ '')''
         | KindDataType \<Rightarrow>
             q @ '' is not a well-known data type and not namespaced; community data types should use ''
             @ [CHR 0x22] @ ''<vendor>/<name>'' @ [CHR 0x22])"

definition nameWarnings ::
  "CapabilityKind \<Rightarrow> (nat \<Rightarrow> string) \<Rightarrow> string list \<Rightarrow> CapabilityWarning list"
where
  "nameWarnings kind path names =
     List.map_filter
       (\<lambda>(k, v). if checkOk (checkCapabilityName v kind) then None
                 else Some \<lparr>warnPath = path k, warnValue = v, warnKind = kind\<rparr>)
       (enumerate 0 names)"

definition collectCapabilityWarnings :: "ServiceManifest \<Rightarrow> CapabilityWarning list" where
  "collectCapabilityWarnings m =
     nameWarnings KindCapability (\<lambda>k. ''provides['' @ showNat k @ '']'')
       (getProvidedCapabilityNames (provides m)) @
     nameWarnings KindDataType (\<lambda>k. ''produces['' @ showNat k @ ''].type'')
       (map prodType (elems (produces m))) @
     nameWarnings KindDataType (\<lambda>k. ''consumes['' @ showNat k @ ''].type'')
       (map conType (elems (consumes m)))"

section \<open>Validating a manifest\<close>

definition isValidSecretKey :: "string \<Rightarrow> bool" where
  "isValidSecretKey key \<longleftrightarrow>
     (case key of
        [] \<Rightarrow> False
      | c # cs \<Rightarrow>
          (isAlpha c \<or> isDigit c) \<and> length cs \<le> 63 \<and>
          (\<forall>d \<in> set cs. isWordChar d \<or> d = CHR ''-''))"

definition isSafePostgresIdentifier :: "string option \<Rightarrow> bool" where
  "isSafePostgresIdentifier v \<longleftrightarrow>
     (case v of
        Some (c # cs) \<Rightarrow> isWordStart c \<and> (\<forall>d \<in> set cs. isWordChar d \<or> d = CHR ''$'')
      | _ \<Rightarrow> False)"

datatype ValidationError =
    SchemaIssue string
  | BindMountForbidden
  | Sandbox SandboxError
  | SelfSelectionDependency string
  | BadProxyConfigKey string
  | BackupNeedsMode string
  | ModeNeedsBackup string
  | UnsafePostgresLiteral string
  | BadSecretKey string
  | DuplicateProduces string "string option"

record ManifestValidationResult =
  valid :: bool
  errors :: "ValidationError list"
  warnings :: "CapabilityWarning list"

definition hasCommunityBindMountEntries :: "json \<Rightarrow> bool \<Rightarrow> bool" where
  "hasCommunityBindMountEntries raw first \<longleftrightarrow>
     \<not> first \<and> (case jsonProp ''bindMounts'' raw of Some (JArr (x # xs)) \<Rightarrow> True | _ \<Rightarrow> False)"

definition isPlainStringField :: "json \<Rightarrow> bool" where
  "isPlainStringField def \<longleftrightarrow>
     jsonProp ''type'' def = Some (JStr ''string'') \<and>
     jsonProp ''x-openmapx-secret'' def \<noteq> Some (JBool True)"

definition proxyKeyErrors :: "ServiceManifest \<Rightarrow> ValidationError list" where
  "proxyKeyErrors m =
     (case Option.bind (Option.bind (Option.bind (exposure m) proxy) proxyHost) phConfigKey of
        None \<Rightarrow> []
      | Some key \<Rightarrow>
          pushIf (key \<noteq> [] \<and>
              (case map_of (schemaProperties m) key of
                 None \<Rightarrow> True
               | Some def \<Rightarrow> \<not> isPlainStringField def))
            (BadProxyConfigKey key))"

definition volumeErrors :: "ServiceManifest \<Rightarrow> ServiceVolume \<Rightarrow> ValidationError list" where
  "volumeErrors m v =
     (let env = elems (environment (container m))
      in pushIf (volBackup v = Some True \<and> volBackupMode v = None) (BackupNeedsMode (volName v)) @
         pushIf (volBackupMode v \<noteq> None \<and> volBackup v \<noteq> Some True) (ModeNeedsBackup (volName v)) @
         (if volBackupMode v = Some PgDump
          then concat (map (\<lambda>key. pushIf (\<not> isSafePostgresIdentifier (map_of env key))
                                   (UnsafePostgresLiteral key)) [''POSTGRES_USER'', ''POSTGRES_DB''])
          else []))"

definition secretKeyErrors :: "ServiceManifest \<Rightarrow> ValidationError list" where
  "secretKeyErrors m =
     map (\<lambda>p. BadSecretKey (fst p))
       (filter (\<lambda>p. jsonProp ''x-openmapx-secret'' (snd p) = Some (JBool True) \<and>
                    \<not> isValidSecretKey (fst p)) (schemaProperties m))"

definition producesKey :: "ServiceProduces \<Rightarrow> string" where
  "producesKey p = prodType p @ [CHR 0x00] @ elems (prodInstance p)"

fun producesErrors :: "string list \<Rightarrow> ServiceProduces list \<Rightarrow> ValidationError list" where
  "producesErrors seen [] = []"
| "producesErrors seen (p # ps) =
     pushIf (producesKey p \<in> set seen) (DuplicateProduces (prodType p) (prodInstance p)) @
     producesErrors (setAdd (producesKey p) seen) ps"

definition validateServiceManifest ::
  "(json \<Rightarrow> string list + ServiceManifest) \<Rightarrow> json \<Rightarrow> bool \<Rightarrow> ManifestValidationResult"
where
  "validateServiceManifest safeParse raw first =
     (case safeParse raw of
        Inl issues \<Rightarrow>
          \<lparr>valid = False,
           errors = pushIf (hasCommunityBindMountEntries raw first) BindMountForbidden
                      @ map SchemaIssue issues,
           warnings = []\<rparr>
      | Inr m \<Rightarrow>
          let errs =
            map Sandbox (checkManifestSandbox m first) @
            pushIf (manifestId m \<in> set (elems (selectionDependencies m)))
              (SelfSelectionDependency (manifestId m)) @
            proxyKeyErrors m @
            concat (map (volumeErrors m) (elems (volumes m))) @
            secretKeyErrors m @
            producesErrors [] (elems (produces m))
          in \<lparr>valid = (errs = []), errors = errs, warnings = collectCapabilityWarnings m\<rparr>)"

section \<open>Lemmas\<close>

lemma pushIf_Nil [simp]: "pushIf b e = [] \<longleftrightarrow> \<not> b"
  by (simp add: pushIf_def)

lemma set_pushIf [simp]: "set (pushIf b e) = (if b then {e} else {})"
  by (simp add: pushIf_def)

text \<open>What a manifest that is not first-party must not ask for.\<close>

definition contained :: "ServiceManifest \<Rightarrow> bool" where
  "contained m \<longleftrightarrow>
     quality m \<noteq> BuiltIn \<and> networkMode (container m) \<noteq> Some HostNetwork \<and>
     privateNetworks m = None \<and> platformNetwork m = None \<and> communityNetworkAccess m = None \<and>
     \<not> truthy (privileged (container m)) \<and> elems (devices (container m)) = [] \<and>
     set (elems (capAdd (container m))) \<subseteq> set COMMUNITY_SAFE_CAPS \<and> \<not> proxyOn m \<and>
     elems (bindMounts m) = [] \<and> elems (envFile (container m)) = [] \<and>
     (\<forall>key \<in> set RESERVED_RESOURCES. key \<notin> fst ` set (schemaProperties m)) \<and>
     (\<forall>v \<in> set (elems (volumes m)). startsWith (volName v) (''openmapx-'' @ manifestId m @ ''-''))"

lemma sandbox_contained: "checkManifestSandbox m False = [] \<longleftrightarrow> contained m"
proof
  assume "contained m"
  then show "checkManifestSandbox m False = []"
    by (simp add: checkManifestSandbox_def Let_def contained_def filter_empty_conv list_ex_iff subset_iff)
next
  assume "checkManifestSandbox m False = []"
  then show "contained m"
    unfolding checkManifestSandbox_def Let_def
    by (simp add: contained_def filter_empty_conv list_ex_iff subset_iff)
qed

lemma contained_not_elevated:
  "contained m \<Longrightarrow> \<not> requiresBuiltIn (computeServiceSecurityRating m raw)"
  unfolding computeServiceSecurityRating_def Let_def ServiceSecurityRating.select_convs
  by (simp add: contained_def elevatedCaps_def usesSpecialBind_def usesComposeVarBind_def
      filter_empty_conv subset_iff)

lemma collect_distinct: "distinct names \<Longrightarrow> distinct (collectDeploymentVariables j names)"
proof (induction j names rule: collectDeploymentVariables.induct)
  case (1 s names)
  then show ?case by (auto intro: foldl_inv [where P = distinct])
next
  case (2 items names)
  have "\<forall>j \<in> set items. \<forall>ns. distinct ns \<longrightarrow> distinct (collectDeploymentVariables j ns) \<Longrightarrow>
    distinct names \<Longrightarrow> distinct (foldl (\<lambda>ns j. collectDeploymentVariables j ns) names items)"
    by (induction items arbitrary: names) auto
  with 2 show ?case by auto
next
  case (3 props names)
  have "\<forall>p \<in> set props. \<forall>ns. distinct ns \<longrightarrow> distinct (collectDeploymentVariables (snd p) ns) \<Longrightarrow>
    distinct names \<Longrightarrow> distinct (foldl (\<lambda>ns p. collectDeploymentVariables (snd p) ns) names props)"
    by (induction props arbitrary: names) auto
  with 3 show ?case by auto
qed auto

section \<open>Collisions\<close>


lemma foldl_upd_dom: "dom (foldl (\<lambda>t x. t(f x \<mapsto> g x)) m xs) = dom m \<union> f ` set xs"
  by (induction xs arbitrary: m) auto

lemma foldl_dom:
  assumes "\<And>m x. dom (F m x) = dom m \<union> A x"
  shows "dom (foldl F m xs) = dom m \<union> (\<Union>x \<in> set xs. A x)"
  using assms by (induction xs arbitrary: m) auto

definition namesOf :: "LoadedService \<Rightarrow> string set" where
  "namesOf s = insert (serviceId s) (set (elems (networkAliases (container (manifest s)))))"

definition volumesOf :: "LoadedService \<Rightarrow> string set" where
  "volumesOf s = volName ` set (elems (volumes (manifest s)))"

lemma dom_takenNames:
  "dom (takenNames service allServices) = (\<Union>s \<in> set (others service allServices). namesOf s)"
  unfolding takenNames_def
  by (subst foldl_dom [where A = namesOf])
     (auto simp: foldl_upd_dom [where f = "\<lambda>x. x"] namesOf_def)

lemma dom_otherVolumes:
  "dom (otherVolumes service allServices) = (\<Union>s \<in> set (others service allServices). volumesOf s)"
  unfolding otherVolumes_def
  by (subst foldl_dom [where A = volumesOf]) (auto simp: foldl_upd_dom volumesOf_def)

lemma otherVolumes_owner:
  "ran (otherVolumes service allServices) \<subseteq> serviceId ` set allServices"
proof -
  let ?P = "\<lambda>m. ran m \<subseteq> serviceId ` set allServices"
  have upd: "?P (m(k \<mapsto> i))" if "?P m" "i \<in> serviceId ` set allServices" for m k i
    using that by (auto simp: ran_def)
  show ?thesis
    unfolding otherVolumes_def
    by (rule foldl_inv_on [where P = ?P], simp, rule foldl_inv_on [where P = ?P], assumption, rule upd)
       (auto simp: others_def)
qed

lemma checkAliases_None:
  "checkAliases service taken aliases = None \<longleftrightarrow>
     (\<forall>a \<in> set aliases. a = serviceId service \<or> taken a = None)"
  by (induction aliases) (auto split: option.splits)

lemma checkVolumes_None:
  "checkVolumes service names vs = None \<longleftrightarrow>
     (\<forall>v \<in> set vs. case names (volName v) of None \<Rightarrow> True | Some owner \<Rightarrow> owner = [])"
  by (induction vs) (auto split: option.splits)

lemma assert_iff:
  assumes "\<forall>s \<in> set allServices. serviceId s \<noteq> []" and "\<not> isBuiltIn service"
  shows "assertRenderSandbox service allServices = None \<longleftrightarrow>
     contained (manifest service) \<and>
     (\<forall>s \<in> set allServices. serviceId s \<noteq> serviceId service \<longrightarrow>
        namesOf s \<inter> (set (elems (networkAliases (container (manifest service)))) - {serviceId service}) = {} \<and>
        volumesOf s \<inter> volumesOf service = {})"
proof -
  have aliases: "checkAliases service (takenNames service allServices) as = None \<longleftrightarrow>
      (\<forall>s \<in> set (others service allServices). namesOf s \<inter> (set as - {serviceId service}) = {})" for as
    using dom_takenNames [of service allServices] unfolding checkAliases_None by blast
  have "[] \<notin> ran (otherVolumes service allServices)"
    using otherVolumes_owner [of service allServices] assms(1) by fastforce
  then have "checkVolumes service (otherVolumes service allServices) (elems (volumes (manifest service))) = None
      \<longleftrightarrow> volumesOf service \<inter> dom (otherVolumes service allServices) = {}"
    unfolding checkVolumes_None by (auto simp: volumesOf_def ran_def split: option.splits)
  then have vols: "checkVolumes service (otherVolumes service allServices) (elems (volumes (manifest service))) = None
      \<longleftrightarrow> (\<forall>s \<in> set (others service allServices). volumesOf s \<inter> volumesOf service = {})"
    unfolding dom_otherVolumes by blast
  have "assertRenderSandbox service allServices = None \<longleftrightarrow>
      contained (manifest service) \<and>
      checkAliases service (takenNames service allServices)
        (elems (networkAliases (container (manifest service)))) = None \<and>
      checkVolumes service (otherVolumes service allServices) (elems (volumes (manifest service))) = None"
    using assms(2) sandbox_contained [of "manifest service"]
    by (auto simp: assertRenderSandbox_def Let_def split: option.splits)
  then show ?thesis unfolding aliases vols by (auto simp: others_def)
qed

section \<open>Validation\<close>

lemma producesErrors_Nil:
  "producesErrors seen ps = [] \<longleftrightarrow>
     distinct (map producesKey ps) \<and> (\<forall>p \<in> set ps. producesKey p \<notin> set seen)"
proof (induction ps arbitrary: seen)
  case (Cons p ps)
  then show ?case by (simp add: image_iff) metis
qed simp

lemma nameWarnings_Nil:
  "nameWarnings kind path names = [] \<longleftrightarrow> (\<forall>v \<in> set names. checkOk (checkCapabilityName v kind))"
proof -
  have "nameWarnings kind path names = [] \<longleftrightarrow>
      (\<forall>(k, v) \<in> set (enumerate 0 names). checkOk (checkCapabilityName v kind))"
    by (auto simp: nameWarnings_def map_filter_def filter_empty_conv split: if_splits)
  also have "\<dots> \<longleftrightarrow> (\<forall>v \<in> set names. checkOk (checkCapabilityName v kind))"
  proof -
    have "set names = snd ` set (enumerate 0 names)" by (metis map_snd_enumerate set_map)
    then show ?thesis by auto
  qed
  finally show ?thesis .
qed


lemma rating_score:
  "\<exists>total. score (computeServiceSecurityRating m raw) = max MIN_SCORE (min MAX_SCORE total)"
  unfolding computeServiceSecurityRating_def Let_def ServiceSecurityRating.select_convs
  by (rule exI, rule refl)

lemma rating_variables:
  "deploymentVariables (computeServiceSecurityRating m raw) = sort (collectDeploymentVariables raw [])"
  unfolding computeServiceSecurityRating_def Let_def ServiceSecurityRating.select_convs
  by (rule refl)

section \<open>Properties\<close>

text \<open>
  C31. The sandbox is exactly the stated envelope: a manifest that is not first-party passes the
  static rules if and only if it asks for no host network, private or community network, no
  privileges, devices, unsafe capabilities, proxy routes, bind mounts, env files or reserved
  resource settings, does not claim the built-in tier, and namespaces its volumes; and then the
  security rating never says that it requires a built-in service. (The comment on \<open>ServiceBindMount\<close> would allow a
  community service to mount its own files; the rules refuse every bind mount.)
\<close>

theorem sandbox_contains_community:
  "(checkManifestSandbox m False = [] \<longleftrightarrow> contained m) \<and>
   (checkManifestSandbox m False = [] \<longrightarrow> \<not> requiresBuiltIn (computeServiceSecurityRating m raw))"
  using sandbox_contained contained_not_elevated by blast

theorem sandbox_contains_community_witness:
  "\<not> requiresBuiltIn (computeServiceSecurityRating (blankManifest ''x'') JNull)"
proof -
  have "checkManifestSandbox (blankManifest ''x'') False = []"
    by (simp add: sandbox_contained contained_def blankManifest_def blankContainer_def truthy_def
        proxyOn_def schemaProperties_def)
  with sandbox_contains_community [of "blankManifest ''x''" JNull] show ?thesis by blast
qed

text \<open>
  The rating stays within its scale of one to eight, and the deployment variables it lists are
  sorted and listed once.
\<close>

theorem rating_bounds:
  "1 \<le> score (computeServiceSecurityRating m raw) \<and> score (computeServiceSecurityRating m raw) \<le> 8 \<and>
   sorted (deploymentVariables (computeServiceSecurityRating m raw)) \<and>
   distinct (deploymentVariables (computeServiceSecurityRating m raw))"
  using collect_distinct [of "[]" raw] rating_score [of m raw]
  by (auto simp: rating_variables MIN_SCORE_def MAX_SCORE_def)

text \<open>
  The last gate before rendering: a third-party service passes if and only if its manifest is
  within the sandbox, none of its network aliases (its own id apart) is the id or an alias of
  another service, and none of its volumes belongs to another service.
\<close>

theorem render_sandbox_iff:
  assumes "\<forall>s \<in> set allServices. serviceId s \<noteq> []" and "\<not> isBuiltIn service"
  shows "assertRenderSandbox service allServices = None \<longleftrightarrow>
     contained (manifest service) \<and>
     (\<forall>s \<in> set allServices. serviceId s \<noteq> serviceId service \<longrightarrow>
        namesOf s \<inter> (set (elems (networkAliases (container (manifest service)))) - {serviceId service}) = {} \<and>
        volumesOf s \<inter> volumesOf service = {})"
  using assms by (rule assert_iff)

theorem render_sandbox_iff_witness:
  "assertRenderSandbox (blankService ''x'') [blankService ''x'', blankService ''y''] = None"
proof -
  have "contained (manifest (blankService ''x''))"
    by (simp add: contained_def blankService_def blankManifest_def blankContainer_def truthy_def
        proxyOn_def schemaProperties_def)
  moreover have "\<not> isBuiltIn (blankService ''x'')" by (simp add: blankService_def)
  moreover have "\<forall>s \<in> set [blankService ''x'', blankService ''y'']. serviceId s \<noteq> []" by simp
  moreover have "networkAliases (container (manifest (blankService i))) = None"
    "volumes (manifest (blankService i)) = None" for i
    by (simp_all add: blankService_def blankManifest_def blankContainer_def)
  ultimately show ?thesis
    using render_sandbox_iff [of "[blankService ''x'', blankService ''y'']" "blankService ''x''"]
    by (simp add: volumesOf_def)
qed

text \<open>
  A manifest that validates is one the schema accepts, within the sandbox of its provenance,
  without a dependency on itself, with at most one dataset per type and instance, with a backup
  mode exactly on the volumes that are backed up, and with secret names safe to use as file names.
\<close>

theorem validate_sound:
  assumes "valid (validateServiceManifest safeParse raw first)"
  shows "\<exists>m. safeParse raw = Inr m \<and> checkManifestSandbox m first = [] \<and>
     manifestId m \<notin> set (elems (selectionDependencies m)) \<and>
     distinct (map producesKey (elems (produces m))) \<and>
     (\<forall>v \<in> set (elems (volumes m)). volBackup v = Some True \<longleftrightarrow> volBackupMode v \<noteq> None) \<and>
     (\<forall>(k, def) \<in> set (schemaProperties m).
        jsonProp ''x-openmapx-secret'' def = Some (JBool True) \<longrightarrow>
        k \<noteq> [] \<and> length k \<le> 64 \<and> CHR ''/'' \<notin> set k \<and> CHR ''.'' \<notin> set k)"
proof -
  from assms obtain m where m: "safeParse raw = Inr m"
    by (cases "safeParse raw") (simp_all add: validateServiceManifest_def)
  have keys: "k \<noteq> [] \<and> length k \<le> 64 \<and> CHR ''/'' \<notin> set k \<and> CHR ''.'' \<notin> set k" if "isValidSecretKey k" for k
    using that
    by (auto simp: isValidSecretKey_def isWordChar_def isAlpha_def isDigit_def split: list.splits)
  from assms m have parts: "checkManifestSandbox m first = []"
      "manifestId m \<notin> set (elems (selectionDependencies m))"
      "\<forall>v \<in> set (elems (volumes m)). volumeErrors m v = []" "secretKeyErrors m = []"
      "producesErrors [] (elems (produces m)) = []"
    by (simp_all add: validateServiceManifest_def Let_def)
  have "volBackup v = Some True \<longleftrightarrow> volBackupMode v \<noteq> None" if "volumeErrors m v = []" for v
    using that by (auto simp: volumeErrors_def Let_def)
  moreover have "isValidSecretKey k"
    if "(k, def) \<in> set (schemaProperties m)" "jsonProp ''x-openmapx-secret'' def = Some (JBool True)" for k def
    using that parts(4) by (auto simp: secretKeyErrors_def filter_empty_conv)
  ultimately show ?thesis using m parts keys by (fastforce simp: producesErrors_Nil)
qed

theorem validate_sound_witness:
  "valid (validateServiceManifest (\<lambda>_. Inr (blankManifest ''x'')) JNull False) \<and>
   checkManifestSandbox (blankManifest ''x'') False = []"
proof -
  have ok: "valid (validateServiceManifest (\<lambda>_. Inr (blankManifest ''x'')) JNull False)"
    by (simp add: validateServiceManifest_def sandbox_contained contained_def blankManifest_def
        blankContainer_def truthy_def proxyOn_def schemaProperties_def proxyKeyErrors_def secretKeyErrors_def)
  from validate_sound [OF ok] ok show ?thesis by simp
qed

text \<open>
  Naming advisories are complete: a manifest gets no warning if and only if every capability it
  provides and every data type it produces or consumes is well known or namespaced.
\<close>

theorem capability_warnings_iff:
  "collectCapabilityWarnings m = [] \<longleftrightarrow>
     (\<forall>c \<in> set (getProvidedCapabilityNames (provides m)). checkOk (checkCapabilityName c KindCapability)) \<and>
     (\<forall>p \<in> set (elems (produces m)). checkOk (checkCapabilityName (prodType p) KindDataType)) \<and>
     (\<forall>c \<in> set (elems (consumes m)). checkOk (checkCapabilityName (conType c) KindDataType))"
  by (auto simp: collectCapabilityWarnings_def nameWarnings_Nil)

theorem capability_warnings_iff_witness:
  "collectCapabilityWarnings (blankManifest ''x'') = [] \<and>
   collectCapabilityWarnings ((blankManifest ''x'')\<lparr>provides := Some [ProvidesName ''teleport'']\<rparr>) \<noteq> []"
proof -
  let ?m = "(blankManifest ''x'')\<lparr>provides := Some [ProvidesName ''teleport'']\<rparr>"
  have "\<not> checkOk (checkCapabilityName ''teleport'' KindCapability)" by code_simp
  moreover have "''teleport'' \<in> set (getProvidedCapabilityNames (provides ?m))"
    by (simp add: getProvidedCapabilityNames_def normalizeProvides_def)
  ultimately have "collectCapabilityWarnings ?m \<noteq> []"
    using capability_warnings_iff [of ?m] by blast
  moreover have "collectCapabilityWarnings (blankManifest ''x'') = []"
    using capability_warnings_iff [of "blankManifest ''x''"]
    by (simp add: blankManifest_def getProvidedCapabilityNames_def normalizeProvides_def)
  ultimately show ?thesis by blast
qed

end
