(* ===== verification/Service_Registry.thy ===== *)
theory Service_Registry
  imports Service_Policy
begin

text \<open>
  The service registry, \<open>packages/core/src/services/registry.ts\<close>, with the bounded walk that finds
  community manifests, \<open>manifest-discovery.ts\<close>. The registry object is its list of loaded
  services; the options and the host (what is on disk, which services the running bundle
  embeds) are records. A directory is a tree of entries; \<open>JSON.parse\<close>, the zod schema's
  \<open>safeParse\<close> and the cast of a raw value to a manifest are fields of the host.
  Paths are absolute and normalised, so \<open>join\<close> appends a segment and \<open>resolve\<close> changes nothing.
\<close>

section \<open>The file system\<close>

text \<open>A symbolic link carries the contents of the regular file it leads to, if it does.\<close>

datatype fsnode =
    FileNode string
  | DirNode "(string \<times> fsnode) list"
  | LinkNode "string option"

fun isDirectory :: "fsnode \<Rightarrow> bool" where
  "isDirectory (DirNode _) = True"
| "isDirectory _ = False"

definition joinPath :: "string \<Rightarrow> string \<Rightarrow> string" where
  "joinPath dir entry = dir @ ''/'' @ entry"

section \<open>Finding manifests\<close>

definition SKIP_DIRS :: "string list" where
  "SKIP_DIRS =
     [''node_modules'', ''dist'', ''build'', ''out'', ''coverage'', ''vendor'', ''__pycache__'']"

definition MAX_DEPTH :: nat where "MAX_DEPTH = 4"

definition MAX_DIRS :: nat where "MAX_DIRS = 2000"

definition startsWithDot :: "string \<Rightarrow> bool" where
  "startsWithDot s \<longleftrightarrow> (case s of [] \<Rightarrow> False | c # _ \<Rightarrow> c = CHR ''.'')"

text \<open>\<open>lstatSync(join(dir, "service.json")).isFile()\<close>: a link is not followed.\<close>

definition holdsManifest :: "(string \<times> fsnode) list \<Rightarrow> bool" where
  "holdsManifest entries \<longleftrightarrow>
     (case map_of entries ''service.json'' of Some (FileNode _) \<Rightarrow> True | _ \<Rightarrow> False)"

definition skipEntry :: "string \<times> fsnode \<Rightarrow> bool" where
  "skipEntry entry \<longleftrightarrow>
     \<not> isDirectory (snd entry) \<or> startsWithDot (fst entry) \<or> fst entry \<in> set SKIP_DIRS"

text \<open>\<open>walk\<close> over a directory's tree: the directories found and the number visited.\<close>

fun walk :: "string \<Rightarrow> nat \<Rightarrow> fsnode \<Rightarrow> nat \<Rightarrow> string list \<Rightarrow> nat \<times> string list"
  and walkEntries ::
    "string \<Rightarrow> nat \<Rightarrow> (string \<times> fsnode) list \<Rightarrow> nat \<Rightarrow> string list \<Rightarrow> nat \<times> string list"
where
  "walk dir depth (DirNode entries) seen found =
     (if seen \<ge> MAX_DIRS then (seen, found)
      else if holdsManifest entries then (Suc seen, found @ [dir])
      else if depth \<ge> MAX_DEPTH then (Suc seen, found)
      else walkEntries dir depth entries (Suc seen) found)"
| "walk dir depth _ seen found =
     (if seen \<ge> MAX_DIRS then (seen, found) else (Suc seen, found))"
| "walkEntries dir depth [] seen found = (seen, found)"
| "walkEntries dir depth ((entry, node) # rest) seen found =
     (if skipEntry (entry, node) then walkEntries dir depth rest seen found
      else case walk (joinPath dir entry) (Suc depth) node seen found of
             (seen', found') \<Rightarrow> walkEntries dir depth rest seen' found')"

definition findServiceManifestDirs :: "string \<Rightarrow> fsnode \<Rightarrow> string list" where
  "findServiceManifestDirs repoRoot tree = snd (walk repoRoot 0 tree 0 [])"

section \<open>Loading\<close>

datatype RegistryWarning =
    DuplicateServiceId string string
  | FailedToParse string string
  | InvalidManifest string "ValidationError list"

record ServiceRegistryOptions =
  rootDir :: string
  servicesDir :: "string option"
  communityDir :: "string option"
  builtInServices :: "LoadedService list option"
  communityServices :: "LoadedService list option"
  optEnabledIds :: "string list option"

text \<open>
  The host: the tree at a path, the built-in services embedded in the running bundle and the
  community services the agent recorded (both only in that bundle), \<open>JSON.parse\<close>,
  \<open>serviceManifestSchema.safeParse\<close>, and a raw value seen as a manifest.
\<close>

record RegistryHost =
  treeAt :: "string \<Rightarrow> fsnode option"
  embeddedServices :: "LoadedService list option"
  recordedServices :: "LoadedService list"
  jsonParse :: "string \<Rightarrow> string + json"
  safeParse :: "json \<Rightarrow> string list + ServiceManifest"
  asManifest :: "json \<Rightarrow> ServiceManifest"

type_synonym registry = "LoadedService list"

definition hasId :: "registry \<Rightarrow> string \<Rightarrow> bool" where
  "hasId reg i \<longleftrightarrow> list_ex (\<lambda>s. serviceId s = i) reg"

definition initiallyEnabled :: "ServiceRegistryOptions \<Rightarrow> string \<Rightarrow> bool" where
  "initiallyEnabled opts i =
     (case optEnabledIds opts of None \<Rightarrow> True | Some ids \<Rightarrow> i \<in> set ids)"

definition addService ::
  "ServiceRegistryOptions \<Rightarrow> bool \<Rightarrow> registry \<times> RegistryWarning list \<Rightarrow> LoadedService \<Rightarrow>
   registry \<times> RegistryWarning list"
where
  "addService opts builtIn st service =
     (case st of
        (reg, warns) \<Rightarrow>
          if hasId reg (serviceId service)
          then (reg, warns @ [DuplicateServiceId (serviceId service) (directory service)])
          else (reg @ [\<lparr>manifest = manifest service, directory = directory service,
                        isBuiltIn = builtIn,
                        enabled = initiallyEnabled opts (serviceId service)\<rparr>], warns))"

definition addBuiltInService where
  "addBuiltInService opts = addService opts True"

definition addCommunityService where
  "addCommunityService opts = addService opts False"

text \<open>\<open>existsSync\<close> and \<open>statSync(...).isFile()\<close> follow a link.\<close>

definition manifestContents :: "(string \<times> fsnode) list \<Rightarrow> string option" where
  "manifestContents entries =
     (case map_of entries ''service.json'' of
        Some (FileNode text) \<Rightarrow> Some text
      | Some (LinkNode target) \<Rightarrow> target
      | _ \<Rightarrow> None)"

fun entriesOf :: "fsnode option \<Rightarrow> (string \<times> fsnode) list" where
  "entriesOf (Some (DirNode entries)) = entries"
| "entriesOf _ = []"

definition tryLoadManifest ::
  "RegistryHost \<Rightarrow> ServiceRegistryOptions \<Rightarrow> bool \<Rightarrow> registry \<times> RegistryWarning list \<Rightarrow> string \<Rightarrow>
   registry \<times> RegistryWarning list"
where
  "tryLoadManifest host opts builtIn st dir =
     (case st of
        (reg, warns) \<Rightarrow>
          (case manifestContents (entriesOf (treeAt host dir)) of
             None \<Rightarrow> (reg, warns)
           | Some text \<Rightarrow>
               let path = joinPath dir ''service.json''
               in case jsonParse host text of
                    Inl err \<Rightarrow> (reg, warns @ [FailedToParse path err])
                  | Inr raw \<Rightarrow>
                      let validation = validateServiceManifest (safeParse host) raw builtIn
                      in if \<not> valid validation
                         then (reg, warns @ [InvalidManifest path (errors validation)])
                         else
                           let m = asManifest host raw
                           in if hasId reg (manifestId m)
                              then (reg, warns @ [DuplicateServiceId (manifestId m) dir])
                              else (reg @ [\<lparr>manifest = m, directory = dir, isBuiltIn = builtIn,
                                            enabled = initiallyEnabled opts (manifestId m)\<rparr>],
                                    warns)))"

definition scanBuiltInDir ::
  "RegistryHost \<Rightarrow> ServiceRegistryOptions \<Rightarrow> string \<Rightarrow> registry \<times> RegistryWarning list \<Rightarrow>
   registry \<times> RegistryWarning list"
where
  "scanBuiltInDir host opts dir st =
     foldl (tryLoadManifest host opts True) st
       (map (\<lambda>e. joinPath dir (fst e))
         (filter (\<lambda>e. isDirectory (snd e) \<and> \<not> startsWithDot (fst e) \<and> take 1 (fst e) \<noteq> ''_'')
           (entriesOf (treeAt host dir))))"

definition scanCommunityDir ::
  "RegistryHost \<Rightarrow> ServiceRegistryOptions \<Rightarrow> string \<Rightarrow> registry \<times> RegistryWarning list \<Rightarrow>
   registry \<times> RegistryWarning list"
where
  "scanCommunityDir host opts dir st =
     foldl (tryLoadManifest host opts False) st
       (concat (map (\<lambda>e. findServiceManifestDirs (joinPath dir (fst e)) (snd e))
         (filter (\<lambda>e. isDirectory (snd e) \<and> \<not> startsWithDot (fst e))
           (entriesOf (treeAt host dir)))))"

definition loadBuiltIn ::
  "RegistryHost \<Rightarrow> ServiceRegistryOptions \<Rightarrow> registry \<times> RegistryWarning list"
where
  "loadBuiltIn host opts =
     (let dir = (case servicesDir opts of Some d \<Rightarrow> d | None \<Rightarrow> joinPath (rootDir opts) ''services'');
          supplied = (case builtInServices opts of Some s \<Rightarrow> Some s | None \<Rightarrow> embeddedServices host)
      in case supplied of
           Some services \<Rightarrow> foldl (addBuiltInService opts) ([], []) services
         | None \<Rightarrow>
             if treeAt host dir \<noteq> None then scanBuiltInDir host opts dir ([], []) else ([], []))"

definition loadCommunity ::
  "RegistryHost \<Rightarrow> ServiceRegistryOptions \<Rightarrow> registry \<times> RegistryWarning list \<Rightarrow>
   registry \<times> RegistryWarning list"
where
  "loadCommunity host opts st =
     (let dir = (case communityDir opts of
                   Some d \<Rightarrow> d
                 | None \<Rightarrow> rootDir opts @ ''/infra/docker/state/ops-agent/community'')
      in case communityServices opts of
           Some services \<Rightarrow> foldl (addCommunityService opts) st services
         | None \<Rightarrow>
             if embeddedServices host \<noteq> None
             then foldl (addCommunityService opts) st (recordedServices host)
             else if treeAt host dir \<noteq> None then scanCommunityDir host opts dir st else st)"

definition load :: "RegistryHost \<Rightarrow> ServiceRegistryOptions \<Rightarrow> registry \<times> RegistryWarning list" where
  "load host opts = loadCommunity host opts (loadBuiltIn host opts)"

section \<open>Using the registry\<close>

definition listServices :: "registry \<Rightarrow> LoadedService list" where
  "listServices reg = reg"

definition enabledServices :: "registry \<Rightarrow> LoadedService list" where
  "enabledServices reg = filter enabled reg"

definition applyEnabledIds :: "string list \<Rightarrow> registry \<Rightarrow> registry" where
  "applyEnabledIds ids reg = map (\<lambda>s. s\<lparr>enabled := serviceId s \<in> set ids\<rparr>) reg"

definition getService :: "registry \<Rightarrow> string \<Rightarrow> LoadedService option" where
  "getService reg i = find (\<lambda>s. serviceId s = i) reg"

fun updateFirst :: "('a \<Rightarrow> bool) \<Rightarrow> ('a \<Rightarrow> 'a) \<Rightarrow> 'a list \<Rightarrow> 'a list" where
  "updateFirst P f [] = []"
| "updateFirst P f (x # xs) = (if P x then f x # xs else x # updateFirst P f xs)"

definition setEnabled :: "registry \<Rightarrow> string \<Rightarrow> bool \<Rightarrow> bool \<times> registry" where
  "setEnabled reg i e =
     (case getService reg i of
        None \<Rightarrow> (False, reg)
      | Some _ \<Rightarrow> (True, updateFirst (\<lambda>s. serviceId s = i) (\<lambda>s. s\<lparr>enabled := e\<rparr>) reg))"

section \<open>The walk finds the service directories\<close>

text \<open>The directory at a path below a node is a service, and none above it on the path is.\<close>

fun leafAt :: "fsnode \<Rightarrow> string list \<Rightarrow> bool" where
  "leafAt (DirNode entries) [] = holdsManifest entries"
| "leafAt (DirNode entries) (p # ps) \<longleftrightarrow>
     \<not> holdsManifest entries \<and>
     (\<exists>(q, node) \<in> set entries. q = p \<and> \<not> skipEntry (q, node) \<and> leafAt node ps)"
| "leafAt _ _ = False"

definition serviceDirs :: "string \<Rightarrow> nat \<Rightarrow> fsnode \<Rightarrow> string set" where
  "serviceDirs dir depth node =
     {d. \<exists>ps. depth + length ps \<le> MAX_DEPTH \<and> leafAt node ps \<and> d = foldl joinPath dir ps}"

definition entryDirs :: "string \<Rightarrow> nat \<Rightarrow> (string \<times> fsnode) list \<Rightarrow> string set" where
  "entryDirs dir depth entries =
     (\<Union>(p, node) \<in> {e \<in> set entries. \<not> skipEntry e}. serviceDirs (joinPath dir p) (Suc depth) node)"

lemma serviceDirs_leaf: "holdsManifest entries \<Longrightarrow> depth \<le> MAX_DEPTH \<Longrightarrow>
  serviceDirs dir depth (DirNode entries) = {dir}"
proof -
  assume holds: "holdsManifest entries" and depth: "depth \<le> MAX_DEPTH"
  then have "leafAt (DirNode entries) ps \<longleftrightarrow> ps = []" for ps by (cases ps) auto
  with depth show ?thesis by (auto simp: serviceDirs_def)
qed

lemma serviceDirs_deep: "\<not> holdsManifest entries \<Longrightarrow> depth \<ge> MAX_DEPTH \<Longrightarrow>
  serviceDirs dir depth (DirNode entries) = {}"
proof -
  assume "\<not> holdsManifest entries" "depth \<ge> MAX_DEPTH"
  then have "\<not> (depth + length ps \<le> MAX_DEPTH \<and> leafAt (DirNode entries) ps)" for ps
    by (cases ps) auto
  then show ?thesis by (auto simp: serviceDirs_def)
qed

lemma serviceDirs_inner:
  assumes "\<not> holdsManifest entries"
  shows "serviceDirs dir depth (DirNode entries) = entryDirs dir depth entries"
proof (intro set_eqI iffI)
  fix d
  assume "d \<in> serviceDirs dir depth (DirNode entries)"
  then obtain ps where ps: "depth + length ps \<le> MAX_DEPTH" "leafAt (DirNode entries) ps"
    "d = foldl joinPath dir ps" by (auto simp: serviceDirs_def)
  with assms obtain p qs where "ps = p # qs" by (cases ps) auto
  with ps show "d \<in> entryDirs dir depth entries"
    by (fastforce simp: entryDirs_def serviceDirs_def)
next
  fix d
  assume "d \<in> entryDirs dir depth entries"
  then obtain p node ps where "(p, node) \<in> set entries" "\<not> skipEntry (p, node)"
    "Suc depth + length ps \<le> MAX_DEPTH" "leafAt node ps" "d = foldl joinPath (joinPath dir p) ps"
    by (auto simp: entryDirs_def serviceDirs_def)
  with assms show "d \<in> serviceDirs dir depth (DirNode entries)"
    by (auto simp: serviceDirs_def intro!: exI [of _ "p # ps"] bexI [of _ "(p, node)"])
qed

definition walkOk :: "string set \<Rightarrow> nat \<Rightarrow> string list \<Rightarrow> nat \<times> string list \<Rightarrow> bool" where
  "walkOk dirs seen found r \<longleftrightarrow>
     seen \<le> fst r \<and> (seen \<le> MAX_DIRS \<longrightarrow> fst r \<le> MAX_DIRS) \<and>
     set found \<subseteq> set (snd r) \<and> set (snd r) \<subseteq> set found \<union> dirs \<and>
     (fst r < MAX_DIRS \<longrightarrow> dirs \<subseteq> set (snd r))"

lemma walkOk_union:
  "walkOk A seen found (s1, f1) \<Longrightarrow> walkOk B s1 f1 r \<Longrightarrow> walkOk (A \<union> B) seen found r"
  by (auto simp: walkOk_def)

lemma walk_spec:
  "depth \<le> MAX_DEPTH \<Longrightarrow> walkOk (serviceDirs dir depth node) seen found (walk dir depth node seen found)"
  "depth < MAX_DEPTH \<Longrightarrow>
   walkOk (entryDirs dir depth entries) seen found (walkEntries dir depth entries seen found)"
proof (induction dir depth node seen found and dir depth entries seen found rule: walk_walkEntries.induct)
  case (1 dir depth entries seen found)
  consider "seen \<ge> MAX_DIRS" | "seen < MAX_DIRS" "holdsManifest entries"
    | "seen < MAX_DIRS" "\<not> holdsManifest entries" "depth = MAX_DEPTH"
    | "seen < MAX_DIRS" "\<not> holdsManifest entries" "depth < MAX_DEPTH"
    using 1(2) by linarith
  then show ?case
  proof cases
    case 4
    with 1 show ?thesis by (auto simp: serviceDirs_inner walkOk_def)
  qed (use 1(2) in \<open>auto simp: serviceDirs_leaf serviceDirs_deep walkOk_def\<close>)
next
  case (3 dir depth seen found)
  then show ?case by (simp add: walkOk_def entryDirs_def)
next
  case (4 dir depth entry node rest seen found)
  show ?case
  proof (cases "skipEntry (entry, node)")
    case True
    then have "entryDirs dir depth ((entry, node) # rest) = entryDirs dir depth rest"
      by (auto simp: entryDirs_def)
    with 4 True show ?thesis by simp
  next
    case False
    then have "entryDirs dir depth ((entry, node) # rest) =
        serviceDirs (joinPath dir entry) (Suc depth) node \<union> entryDirs dir depth rest"
      by (auto simp: entryDirs_def)
    with 4 False show ?thesis by (auto split: prod.splits intro: walkOk_union)
  qed
qed (auto simp: walkOk_def serviceDirs_def)

section \<open>Loading keeps ids unique\<close>

definition uniqueIds :: "registry \<Rightarrow> bool" where
  "uniqueIds reg \<longleftrightarrow> distinct (map serviceId reg)"

lemma hasId_iff: "hasId reg i \<longleftrightarrow> i \<in> set (map serviceId reg)"
  by (auto simp: hasId_def list_ex_iff)

text \<open>
  What every loading step does: it appends services, with fresh ids, the given provenance, and
  the initial enabled flag.
\<close>

definition extends :: "ServiceRegistryOptions \<Rightarrow> bool \<Rightarrow> (ServiceManifest \<Rightarrow> bool) \<Rightarrow> registry \<Rightarrow> registry \<Rightarrow> bool" where
  "extends opts builtIn ok reg reg' \<longleftrightarrow>
     (\<exists>new. reg' = reg @ new \<and>
        (\<forall>s \<in> set new. isBuiltIn s = builtIn \<and> enabled s = initiallyEnabled opts (serviceId s) \<and> ok (manifest s))) \<and>
     (uniqueIds reg \<longrightarrow> uniqueIds reg')"

lemma extends_refl [simp]: "extends opts builtIn ok reg reg"
  by (simp add: extends_def)

lemma extends_trans:
  "extends opts builtIn ok r1 r2 \<Longrightarrow> extends opts builtIn ok r2 r3 \<Longrightarrow> extends opts builtIn ok r1 r3"
  by (fastforce simp: extends_def)

lemma extends_foldl:
  assumes "\<And>st x. x \<in> set xs \<Longrightarrow> extends opts builtIn ok (fst st) (fst (f st x))"
  shows "extends opts builtIn ok (fst st) (fst (foldl f st xs))"
  using assms
proof (induction xs arbitrary: st)
  case (Cons x xs)
  have "extends opts builtIn ok (fst st) (fst (f st x))" using Cons.prems by simp
  moreover have "extends opts builtIn ok (fst (f st x)) (fst (foldl f (f st x) xs))"
    using Cons.prems by (intro Cons.IH) simp
  ultimately show ?case using extends_trans by auto
qed simp

lemma extends_append:
  "\<not> hasId reg (serviceId s) \<Longrightarrow> isBuiltIn s = builtIn \<Longrightarrow> enabled s = initiallyEnabled opts (serviceId s) \<Longrightarrow>
   ok (manifest s) \<Longrightarrow> extends opts builtIn ok reg (reg @ [s])"
  by (auto simp: extends_def uniqueIds_def hasId_iff)

lemma extends_addService:
  "ok (manifest s) \<Longrightarrow> extends opts builtIn ok (fst st) (fst (addService opts builtIn st s))"
  by (cases st) (auto simp: addService_def intro: extends_append)

lemma extends_tryLoad:
  assumes "\<And>raw. valid (validateServiceManifest (safeParse host) raw builtIn) \<Longrightarrow> ok (asManifest host raw)"
  shows "extends opts builtIn ok (fst st) (fst (tryLoadManifest host opts builtIn st dir))"
  using assms
  by (cases st) (auto simp: tryLoadManifest_def Let_def intro!: extends_append split: option.splits sum.splits)


lemma loadBuiltIn_extends:
  "extends opts True (\<lambda>_. True) [] (fst (loadBuiltIn host opts))"
  unfolding loadBuiltIn_def Let_def scanBuiltInDir_def addBuiltInService_def
  by (auto split: option.splits
      intro!: extends_foldl [where st = "([], [])", unfolded fst_conv] extends_addService extends_tryLoad)

lemma loadCommunity_extends:
  "extends opts False (\<lambda>_. True) (fst st) (fst (loadCommunity host opts st))"
  unfolding loadCommunity_def Let_def scanCommunityDir_def addCommunityService_def
  by (auto split: option.splits intro!: extends_foldl extends_addService extends_tryLoad)

lemma scan_validated:
  "extends opts True (\<lambda>m. \<exists>raw. valid (validateServiceManifest (safeParse host) raw True) \<and> m = asManifest host raw)
     (fst st) (fst (scanBuiltInDir host opts dir st))"
  "extends opts False (\<lambda>m. \<exists>raw. valid (validateServiceManifest (safeParse host) raw False) \<and> m = asManifest host raw)
     (fst st) (fst (scanCommunityDir host opts dir st))"
  unfolding scanBuiltInDir_def scanCommunityDir_def
  by (auto intro!: extends_foldl extends_tryLoad)

section \<open>The registry as a directory of services\<close>

text \<open>What clients of the registry rely on: lookup, and switching a service on or off.\<close>

locale service_directory =
  fixes get :: "'r \<Rightarrow> string \<Rightarrow> LoadedService option"
    and switch :: "'r \<Rightarrow> string \<Rightarrow> bool \<Rightarrow> bool \<times> 'r"
  assumes known: "fst (switch r i e) \<longleftrightarrow> get r i \<noteq> None"
    and get_switch: "get (snd (switch r i e)) j =
      (if i = j then map_option (\<lambda>s. s\<lparr>enabled := e\<rparr>) (get r j) else get r j)"
begin

lemma switch_enabled: "fst (switch r i e) \<Longrightarrow> \<exists>s. get (snd (switch r i e)) i = Some s \<and> enabled s = e"
  using known get_switch by auto

lemma switch_other: "i \<noteq> j \<Longrightarrow> get (snd (switch r i e)) j = get r j"
  by (simp add: get_switch)

lemma switch_unknown: "\<not> fst (switch r i e) \<Longrightarrow> get (snd (switch r i e)) = get r"
  by (rule ext) (use known in \<open>auto simp: get_switch\<close>)

lemma switch_twice: "get (snd (switch (snd (switch r i e)) i e')) = get (snd (switch r i e'))"
  by (rule ext) (simp add: get_switch option.map_comp comp_def)

lemma switch_commute:
  "i \<noteq> j \<Longrightarrow>
   get (snd (switch (snd (switch r i e)) j e')) = get (snd (switch (snd (switch r j e')) i e))"
  by (rule ext) (auto simp: get_switch)

end

lemma find_updateFirst:
  assumes "\<And>x. k (f x) = k x"
  shows "find (\<lambda>x. k x = j) (updateFirst (\<lambda>x. k x = i) f xs) =
     (if i = j then map_option f (find (\<lambda>x. k x = j) xs) else find (\<lambda>x. k x = j) xs)"
  by (induction xs) (auto simp: assms)

interpretation reg: service_directory getService setEnabled
proof
  show "fst (setEnabled r i e) \<longleftrightarrow> getService r i \<noteq> None" for r i e
    by (simp add: setEnabled_def split: option.splits)
  show "getService (snd (setEnabled r i e)) j =
      (if i = j then map_option (\<lambda>s. s\<lparr>enabled := e\<rparr>) (getService r j) else getService r j)" for r i e j
    using find_updateFirst [where k = serviceId and f = "\<lambda>s. s\<lparr>enabled := e\<rparr>"]
    by (cases "getService r i") (auto simp: setEnabled_def getService_def)
qed

section \<open>Properties\<close>

text \<open>
  Loading gives a consistent registry: ids are unique, every service carries the enabled flag
  the options ask for, the built-in services come first and no community service replaces one of
  them or is marked built-in.
\<close>

theorem load_consistent:
  "uniqueIds (fst (load host opts)) \<and>
   (\<exists>community. fst (load host opts) = fst (loadBuiltIn host opts) @ community \<and>
      list_all (\<lambda>s. \<not> isBuiltIn s) community) \<and>
   list_all isBuiltIn (fst (loadBuiltIn host opts)) \<and>
   list_all (\<lambda>s. enabled s = initiallyEnabled opts (serviceId s)) (fst (load host opts))"
proof -
  have b: "extends opts True (\<lambda>_. True) [] (fst (loadBuiltIn host opts))" by (rule loadBuiltIn_extends)
  have c: "extends opts False (\<lambda>_. True) (fst (loadBuiltIn host opts)) (fst (load host opts))"
    unfolding load_def by (rule loadCommunity_extends)
  from b c show ?thesis by (auto simp: extends_def uniqueIds_def list_all_iff)
qed

text \<open>
  A manifest read from disk is loaded only when it passed validation for its provenance: every
  service a scan adds comes from a manifest without validation errors.
\<close>

theorem scan_loads_validated:
  "\<exists>new. fst (scanCommunityDir host opts dir st) = fst st @ new \<and>
     list_all (\<lambda>s. \<exists>raw. valid (validateServiceManifest (safeParse host) raw False) \<and> manifest s = asManifest host raw) new"
  using scan_validated(2) [of opts host st dir] by (auto simp: extends_def list_all_iff)

text \<open>
  Switching a service: \<open>setEnabled\<close> reports whether the service is known, sets exactly its
  flag, and a lookup of any other id is unchanged.
\<close>

theorem setEnabled_get:
  "(fst (setEnabled r i e) \<longleftrightarrow> getService r i \<noteq> None) \<and>
   getService (snd (setEnabled r i e)) j =
     (if i = j then map_option (\<lambda>s. s\<lparr>enabled := e\<rparr>) (getService r j) else getService r j)"
  using reg.known reg.get_switch by blast

text \<open>
  The walk through a community repository is bounded and exact: it visits at most 2000
  directories, every directory it reports holds a regular \<open>service.json\<close> at most four levels deep
  on a path of real, unskipped directories that hold none themselves, and unless the bound was
  hit it reports all of those.
\<close>

theorem findServiceManifestDirs_correct:
  "fst (walk root 0 tree 0 []) \<le> MAX_DIRS \<and>
   set (findServiceManifestDirs root tree) \<subseteq> serviceDirs root 0 tree \<and>
   (fst (walk root 0 tree 0 []) < MAX_DIRS \<longrightarrow>
      set (findServiceManifestDirs root tree) = serviceDirs root 0 tree)"
  using walk_spec(1) [of 0 root tree 0 "[]"]
  by (auto simp: findServiceManifestDirs_def walkOk_def)

theorem findServiceManifestDirs_correct_witness:
  "serviceDirs ''r'' 0 (DirNode [(''services'', DirNode [(''a'', DirNode [(''service.json'', FileNode ''{}'')])])]) =
     {''r/services/a''}"
proof -
  let ?tree = "DirNode [(''services'', DirNode [(''a'', DirNode [(''service.json'', FileNode ''{}'')])])]"
  have "walk ''r'' 0 ?tree 0 [] = (3, [''r/services/a''])"
    by (simp add: MAX_DIRS_def MAX_DEPTH_def holdsManifest_def skipEntry_def startsWithDot_def SKIP_DIRS_def
        joinPath_def)
  then show ?thesis
    using findServiceManifestDirs_correct [of "''r''" ?tree]
    by (simp add: findServiceManifestDirs_def MAX_DIRS_def)
qed

end
