(* ===== verification/Reducer.thy ===== *)
theory Reducer
  imports Prelude
begin

text \<open>
  State machines written as pure reducers. \<open>reaches step allowed s s'\<close> is the reachability relation
  of a reducer whose events are fed only when \<open>allowed\<close> holds; the locale \<open>reducer\<close> is the contract
  of an invariant, and its lemmas carry the invariant along every run. The mobile app's reducers
  (\<open>Mobile_Permission\<close>, \<open>Mobile_Shell\<close>, \<open>Mobile_Refresh\<close>, \<open>Mobile_Reroute\<close>) are its instances.
\<close>

inductive reaches :: "('s \<Rightarrow> 'e \<Rightarrow> 's) \<Rightarrow> ('s \<Rightarrow> 'e \<Rightarrow> bool) \<Rightarrow> 's \<Rightarrow> 's \<Rightarrow> bool"
  for step :: "'s \<Rightarrow> 'e \<Rightarrow> 's" and allowed :: "'s \<Rightarrow> 'e \<Rightarrow> bool" and init :: 's
where
  here: "reaches step allowed init init"
| event: "reaches step allowed init s \<Longrightarrow> allowed s e \<Longrightarrow> reaches step allowed init (step s e)"

inductive_cases reaches_cases: "reaches step allowed init s"

abbreviation always :: "'s \<Rightarrow> 'e \<Rightarrow> bool" where
  "always s e \<equiv> True"

lemma reaches_foldl: "reaches step always s (foldl step s es)"
  by (induction es rule: rev_induct) (auto intro: reaches.intros)

lemma reaches_trans:
  assumes "reaches step allowed a b" and "reaches step allowed b c"
  shows "reaches step allowed a c"
  using assms(2,1) by induction (auto intro: reaches.intros)

locale reducer =
  fixes step :: "'s \<Rightarrow> 'e \<Rightarrow> 's" and allowed :: "'s \<Rightarrow> 'e \<Rightarrow> bool" and inv :: "'s \<Rightarrow> bool"
  assumes keep: "inv s \<Longrightarrow> allowed s e \<Longrightarrow> inv (step s e)"
begin

lemma reaches_inv:
  assumes "reaches step allowed s s'" and "inv s"
  shows "inv s'"
  using assms by induction (auto intro: keep)

lemma reaches_event_inv:
  assumes "reaches step allowed s s'" and "inv s" and "allowed s' e"
  shows "inv (step s' e)"
  using keep [OF reaches_inv [OF assms(1,2)] assms(3)] .

end

text \<open>A property that, once it holds, is kept: the same contract started from any such state.\<close>

locale absorbing_reducer = reducer step allowed stuck
  for step :: "'s \<Rightarrow> 'e \<Rightarrow> 's" and allowed :: "'s \<Rightarrow> 'e \<Rightarrow> bool" and stuck :: "'s \<Rightarrow> bool"
begin

lemma absorbed: "stuck s \<Longrightarrow> reaches step allowed s s' \<Longrightarrow> stuck s'"
  by (rule reaches_inv)

lemma not_stuck_before: "reaches step allowed s s' \<Longrightarrow> \<not> stuck s' \<Longrightarrow> \<not> stuck s"
  using absorbed by blast

end

end
