(* ===== verification/Mobile_Permission.thy ===== *)
theory Mobile_Permission
  imports Reducer
begin

text \<open>
  The path from "the user tapped Start" to "the app may track":
  \<open>apps/mobile/src/permissions/permissionMachine.ts\<close>, the reducer, and \<open>permissionController.ts\<close>,
  which runs one effect at a time and feeds its result back. What the driver and the user answer
  is a record of functions of the transition's number, at most one question being asked in each.
\<close>

section \<open>States, events, effects\<close>

datatype LocationPermissionState = NotDetermined | Foreground | Background | Denied | Limited

datatype PermissionPlatform = Ios | Android (sdkInt: int)

definition ANDROID_BACKGROUND_VIA_SETTINGS_SDK :: int where
  "ANDROID_BACKGROUND_VIA_SETTINGS_SDK = 30"

definition ANDROID_VISIBLE_START_SDK :: int where
  "ANDROID_VISIBLE_START_SDK = 34"

datatype SettingsReason = CannotEscalate | BackgroundInSettings | PreciseRequired

datatype PlatformName = IosName | AndroidName

datatype GrantMode = BackgroundMode | ForegroundOnlyMode

datatype PermissionFlowState =
    Idle
  | Explaining
  | RequestingForeground
  | RequestingBackground
  | SettingsRequired PlatformName SettingsReason
  | ForegroundOnlyChoice
  | Granted GrantMode
  | DeniedState bool

datatype Accuracy = Precise | Approximate

record PermissionSnapshot =
  permission :: LocationPermissionState
  accuracy :: "Accuracy option"
  canAskAgain :: "bool option"

datatype PermissionEvent =
    StartRequested PermissionSnapshot
  | DisclosureAccepted
  | DisclosureForegroundOnly
  | DisclosureDismissed
  | ForegroundResult PermissionSnapshot
  | BackgroundResult PermissionSnapshot
  | ReturnedFromSettings PermissionSnapshot
  | AppNotVisible
  | Revoked

datatype RejectReason = RejectDenied | RejectDismissed | RejectNotVisible

datatype PermissionEffect =
    ShowDisclosure
  | RequestForeground
  | RequestBackground
  | OpenSettings
  | OfferForegroundOnly
  | Resolved GrantMode
  | Rejected RejectReason

type_synonym PermissionTransition = "PermissionFlowState \<times> PermissionEffect list"

section \<open>The reducer\<close>

fun platformName :: "PermissionPlatform \<Rightarrow> PlatformName" where
  "platformName Ios = IosName"
| "platformName (Android _) = AndroidName"

fun backgroundNeedsSettings :: "PermissionPlatform \<Rightarrow> bool" where
  "backgroundNeedsSettings Ios = False"
| "backgroundNeedsSettings (Android sdk) \<longleftrightarrow> sdk \<ge> ANDROID_BACKGROUND_VIA_SETTINGS_SDK"

definition settingsRequired :: "PermissionPlatform \<Rightarrow> SettingsReason \<Rightarrow> PermissionTransition" where
  "settingsRequired platform why = (SettingsRequired (platformName platform) why, [OpenSettings])"

definition grantedTransition :: "GrantMode \<Rightarrow> PermissionTransition" where
  "grantedTransition mode = (Granted mode, [Resolved mode])"

definition deniedTransition :: "bool \<Rightarrow> PermissionTransition" where
  "deniedTransition again = (DeniedState again, [Rejected RejectDenied])"

definition mayAskAgain :: "PermissionSnapshot \<Rightarrow> bool" where
  "mayAskAgain s = (case canAskAgain s of None \<Rightarrow> False | Some b \<Rightarrow> b)"

definition afterForeground :: "PermissionPlatform \<Rightarrow> PermissionSnapshot \<Rightarrow> PermissionTransition" where
  "afterForeground platform result =
     (if accuracy result = Some Approximate then settingsRequired platform PreciseRequired
      else if permission result = Limited then settingsRequired platform CannotEscalate
      else if permission result = Background then grantedTransition BackgroundMode
      else if permission result \<noteq> Foreground then deniedTransition (mayAskAgain result)
      else if backgroundNeedsSettings platform then settingsRequired platform BackgroundInSettings
      else (RequestingBackground, [RequestBackground]))"

definition startTransition ::
  "PermissionFlowState \<Rightarrow> PermissionEvent \<Rightarrow> PermissionPlatform \<Rightarrow> PermissionTransition"
where
  "startTransition state event platform =
     (case event of
        StartRequested current \<Rightarrow>
          if accuracy current = Some Approximate then settingsRequired platform PreciseRequired
          else if permission current = Background then grantedTransition BackgroundMode
          else if permission current = Denied \<and> canAskAgain current = Some False
          then settingsRequired platform CannotEscalate
          else (Explaining, [ShowDisclosure])
      | _ \<Rightarrow> (state, []))"

definition explainingTransition :: "PermissionEvent \<Rightarrow> PermissionTransition" where
  "explainingTransition event =
     (case event of
        DisclosureAccepted \<Rightarrow> (RequestingForeground, [RequestForeground])
      | DisclosureForegroundOnly \<Rightarrow> (ForegroundOnlyChoice, [RequestForeground])
      | DisclosureDismissed \<Rightarrow> (Idle, [Rejected RejectDismissed])
      | AppNotVisible \<Rightarrow> (Idle, [Rejected RejectNotVisible])
      | _ \<Rightarrow> (Explaining, []))"

definition foregroundOnlyTransition :: "PermissionEvent \<Rightarrow> PermissionTransition" where
  "foregroundOnlyTransition event =
     (case event of
        ForegroundResult result \<Rightarrow>
          if accuracy result \<noteq> Some Approximate \<and> permission result \<in> {Foreground, Background, Limited}
          then grantedTransition ForegroundOnlyMode
          else deniedTransition (mayAskAgain result)
      | _ \<Rightarrow> (ForegroundOnlyChoice, []))"

definition backgroundTransition :: "PermissionEvent \<Rightarrow> PermissionTransition" where
  "backgroundTransition event =
     (case event of
        BackgroundResult result \<Rightarrow>
          if permission result = Background then grantedTransition BackgroundMode
          else if permission result \<in> {Foreground, Limited}
          then (ForegroundOnlyChoice, [OfferForegroundOnly])
          else deniedTransition (mayAskAgain result)
      | _ \<Rightarrow> (RequestingBackground, []))"

definition settingsTransition :: "PermissionFlowState \<Rightarrow> PermissionEvent \<Rightarrow> PermissionTransition" where
  "settingsTransition state event =
     (case event of
        ReturnedFromSettings result \<Rightarrow>
          if accuracy result = Some Approximate then deniedTransition False
          else if permission result = Background then grantedTransition BackgroundMode
          else if permission result \<in> {Foreground, Limited}
          then (ForegroundOnlyChoice, [OfferForegroundOnly])
          else deniedTransition False
      | _ \<Rightarrow> (state, []))"

definition permissionReducer ::
  "PermissionFlowState \<Rightarrow> PermissionEvent \<Rightarrow> PermissionPlatform \<Rightarrow> PermissionTransition"
where
  "permissionReducer state event platform =
     (if event = Revoked then deniedTransition False
      else case state of
        Explaining \<Rightarrow> explainingTransition event
      | RequestingForeground \<Rightarrow>
          (case event of
             ForegroundResult result \<Rightarrow> afterForeground platform result
           | _ \<Rightarrow> (state, []))
      | ForegroundOnlyChoice \<Rightarrow> foregroundOnlyTransition event
      | RequestingBackground \<Rightarrow> backgroundTransition event
      | SettingsRequired _ _ \<Rightarrow> settingsTransition state event
      | _ \<Rightarrow> startTransition state event platform)"

fun requiresVisibleStart :: "PermissionPlatform \<Rightarrow> bool" where
  "requiresVisibleStart Ios = False"
| "requiresVisibleStart (Android sdk) \<longleftrightarrow> sdk \<ge> ANDROID_VISIBLE_START_SDK"

section \<open>The controller\<close>

datatype DisclosureChoice = Accept | ForegroundOnly | Dismiss

record PermissionControllerDeps =
  platform :: PermissionPlatform
  isAppActive :: bool
  snapshotAt :: "nat \<Rightarrow> PermissionSnapshot"
  showDisclosureAt :: "nat \<Rightarrow> DisclosureChoice"
  settingsReturnedAt :: "nat \<Rightarrow> bool"
  offerAcceptedAt :: "nat \<Rightarrow> bool"

datatype PermissionOutcome = Outcome GrantMode | OutcomeDenied

datatype PerformResult = Done PermissionOutcome | Continue PermissionEvent

definition MAX_TRANSITIONS :: nat where
  "MAX_TRANSITIONS = 12"

text \<open>\<open>perform\<close> in the transition \<open>turn\<close>: what comes next, and the effects carried out.\<close>

fun perform ::
  "PermissionControllerDeps \<Rightarrow> PermissionFlowState \<Rightarrow> nat \<Rightarrow> PermissionEffect list \<Rightarrow>
   PerformResult \<times> PermissionEffect list"
where
  "perform deps state turn [] = (Done OutcomeDenied, [])"
| "perform deps state turn (effect # effects) =
     (case effect of
        Resolved mode \<Rightarrow> (Done (Outcome mode), [effect])
      | Rejected _ \<Rightarrow> (Done OutcomeDenied, [effect])
      | ShowDisclosure \<Rightarrow>
          (Continue (case showDisclosureAt deps turn of
                       Accept \<Rightarrow> DisclosureAccepted
                     | ForegroundOnly \<Rightarrow> DisclosureForegroundOnly
                     | Dismiss \<Rightarrow> DisclosureDismissed), [effect])
      | RequestForeground \<Rightarrow> (Continue (ForegroundResult (snapshotAt deps turn)), [effect])
      | RequestBackground \<Rightarrow> (Continue (BackgroundResult (snapshotAt deps turn)), [effect])
      | OpenSettings \<Rightarrow>
          (case state of
             SettingsRequired _ _ \<Rightarrow>
               if settingsReturnedAt deps turn
               then (Continue (ReturnedFromSettings (snapshotAt deps turn)), [effect])
               else (Done OutcomeDenied, [effect])
           | _ \<Rightarrow> perform deps state turn effects)
      | OfferForegroundOnly \<Rightarrow>
          if offerAcceptedAt deps turn
          then (Continue (ForegroundResult (snapshotAt deps turn)), [effect])
          else (Done OutcomeDenied, [effect]))"

text \<open>
  The loop of \<open>requestForStart\<close>, with the number of transitions left: the outcome, or \<open>None\<close> when
  the guard against an endless flow ended it, the final state and the effects carried out.
\<close>

fun flow ::
  "nat \<Rightarrow> PermissionControllerDeps \<Rightarrow> PermissionFlowState \<Rightarrow> nat \<Rightarrow> PermissionEvent \<Rightarrow>
   PermissionOutcome option \<times> PermissionFlowState \<times> PermissionEffect list"
where
  "flow 0 deps state turn event = (None, state, [])"
| "flow (Suc n) deps state turn event =
     (case permissionReducer state event (platform deps) of
        (state', effects) \<Rightarrow>
          (case perform deps state' turn effects of
             (Done outcome, log) \<Rightarrow> (Some outcome, state', log)
           | (Continue event', log) \<Rightarrow>
               (case flow n deps state' (Suc turn) event' of
                  (outcome, final, log') \<Rightarrow> (outcome, final, log @ log'))))"

definition requestForStart ::
  "PermissionControllerDeps \<Rightarrow> PermissionFlowState \<Rightarrow>
   PermissionOutcome \<times> PermissionFlowState \<times> PermissionEffect list"
where
  "requestForStart deps state =
     (if \<not> isAppActive deps then (OutcomeDenied, state, [])
      else case flow MAX_TRANSITIONS deps Idle 1 (StartRequested (snapshotAt deps 0)) of
             (outcome, final, log) \<Rightarrow>
               (case outcome of None \<Rightarrow> OutcomeDenied | Some o' \<Rightarrow> o', final, log))"

definition revoke :: "PermissionControllerDeps \<Rightarrow> PermissionFlowState \<Rightarrow> PermissionFlowState" where
  "revoke deps state = fst (permissionReducer state Revoked (platform deps))"

section \<open>The flow ends\<close>

text \<open>How far a state is from the end of the flow; every answered question comes closer.\<close>

fun rank :: "PermissionFlowState \<Rightarrow> nat" where
  "rank Idle = 5"
| "rank Explaining = 4"
| "rank RequestingForeground = 3"
| "rank RequestingBackground = 2"
| "rank (SettingsRequired _ _) = 2"
| "rank ForegroundOnlyChoice = 1"
| "rank (Granted _) = 0"
| "rank (DeniedState _) = 0"

text \<open>The lowest rank a state that asks a question can have.\<close>

fun floor_rank :: "PermissionEffect \<Rightarrow> nat" where
  "floor_rank ShowDisclosure = 5"
| "floor_rank RequestForeground = 4"
| "floor_rank RequestBackground = 3"
| "floor_rank OpenSettings = 3"
| "floor_rank OfferForegroundOnly = 2"
| "floor_rank _ = 0"

text \<open>The answer a state waits for.\<close>

fun awaits :: "PermissionFlowState \<Rightarrow> PermissionEvent \<Rightarrow> bool" where
  "awaits Idle (StartRequested _) = True"
| "awaits Explaining e = (e \<in> {DisclosureAccepted, DisclosureForegroundOnly, DisclosureDismissed})"
| "awaits RequestingForeground (ForegroundResult _) = True"
| "awaits RequestingBackground (BackgroundResult _) = True"
| "awaits (SettingsRequired _ _) (ReturnedFromSettings _) = True"
| "awaits ForegroundOnlyChoice (ForegroundResult _) = True"
| "awaits _ _ = False"

lemmas reducer_defs =
  permissionReducer_def startTransition_def explainingTransition_def foregroundOnlyTransition_def
  backgroundTransition_def settingsTransition_def afterForeground_def settingsRequired_def
  grantedTransition_def deniedTransition_def

text \<open>The effect that belongs to a transition from \<open>st\<close> to \<open>st'\<close>.\<close>

definition asks :: "PermissionFlowState \<Rightarrow> PermissionFlowState \<Rightarrow> PermissionEffect \<Rightarrow> bool" where
  "asks st st' k \<longleftrightarrow> floor_rank k \<le> rank st \<and>
     (case k of
        ShowDisclosure \<Rightarrow> st' = Explaining
      | RequestForeground \<Rightarrow> st' \<in> {RequestingForeground, ForegroundOnlyChoice}
      | RequestBackground \<Rightarrow> st' = RequestingBackground
      | OpenSettings \<Rightarrow> (\<exists>pn why. st' = SettingsRequired pn why)
      | OfferForegroundOnly \<Rightarrow> st' = ForegroundOnlyChoice
      | _ \<Rightarrow> True)"

lemma reducer_step:
  assumes "awaits st e" and "permissionReducer st e p = (st', effs)"
  shows "\<exists>k. effs = [k] \<and> asks st st' k"
  using assms
  by (cases st; cases e) (auto simp: reducer_defs asks_def split: if_splits)

lemma perform_step:
  assumes "asks st st' k" and "perform deps st' turn [k] = (r, log)"
  shows "log = [k] \<and> (\<forall>e'. r = Continue e' \<longrightarrow> awaits st' e' \<and> rank st' < floor_rank k)"
  using assms by (cases k) (auto simp: asks_def split: if_splits DisclosureChoice.splits)

definition prompts :: "PermissionEffect list \<Rightarrow> nat \<Rightarrow> bool" where
  "prompts log r \<longleftrightarrow> distinct log \<and> (\<forall>k \<in> set log. floor_rank k \<le> r)"

lemma flow_ends:
  "awaits st e \<Longrightarrow> rank st < n \<Longrightarrow>
   \<exists>outcome final log. flow n deps st turn e = (Some outcome, final, log) \<and> prompts log (rank st)"
proof (induction n arbitrary: st turn e)
  case (Suc n)
  obtain st' effs where red: "permissionReducer st e (platform deps) = (st', effs)" by fastforce
  from reducer_step [OF Suc.prems(1) red] obtain k where k: "effs = [k]" "asks st st' k" by blast
  obtain r log where perf: "perform deps st' turn effs = (r, log)" by fastforce
  with perform_step [OF k(2)] k(1) have log: "log = [k]" and
    more: "\<And>e'. r = Continue e' \<Longrightarrow> awaits st' e' \<and> rank st' < floor_rank k"
    by blast+
  have floor: "floor_rank k \<le> rank st" using k(2) by (simp add: asks_def)
  show ?case
  proof (cases r)
    case (Done outcome)
    with red perf log floor show ?thesis by (simp add: prompts_def)
  next
    case (Continue e')
    note more' = more [OF Continue]
    then have "rank st' < n" using floor Suc.prems(2) by simp
    from Suc.IH [OF conjunct1 [OF more'] this] obtain outcome final log' where
      rest: "flow n deps st' (Suc turn) e' = (Some outcome, final, log')" "prompts log' (rank st')"
      by blast
    then have "prompts (k # log') (rank st)"
      using more' floor by (fastforce simp: prompts_def)
    with red perf log Continue rest(1) show ?thesis by simp
  qed
qed simp

section \<open>What a grant rests on\<close>

text \<open>The snapshot an event carries, and whether it is enough for a mode.\<close>

fun eventSnapshot :: "PermissionEvent \<Rightarrow> PermissionSnapshot option" where
  "eventSnapshot (StartRequested s) = Some s"
| "eventSnapshot (ForegroundResult s) = Some s"
| "eventSnapshot (BackgroundResult s) = Some s"
| "eventSnapshot (ReturnedFromSettings s) = Some s"
| "eventSnapshot _ = None"

fun suffices :: "PermissionSnapshot \<Rightarrow> GrantMode \<Rightarrow> bool" where
  "suffices s BackgroundMode = (permission s = Background)"
| "suffices s ForegroundOnlyMode = (permission s \<in> {Foreground, Background, Limited})"

lemma grant_supported:
  assumes "permissionReducer st e p = (st', effs)" and "Resolved mode \<in> set effs"
  shows "st' = Granted mode \<and>
    (\<exists>s. eventSnapshot e = Some s \<and> suffices s mode \<and>
         (accuracy s \<noteq> Some Approximate \<or> st = RequestingBackground))"
  using assms by (cases st; cases e) (auto simp: reducer_defs split: if_splits)

section \<open>The platform's rules\<close>

definition platformOk :: "PermissionPlatform \<Rightarrow> PermissionFlowState \<Rightarrow> bool" where
  "platformOk p st =
     (case st of
        RequestingBackground \<Rightarrow> \<not> backgroundNeedsSettings p
      | SettingsRequired pn why \<Rightarrow>
          pn = platformName p \<and> (why = BackgroundInSettings \<longrightarrow> backgroundNeedsSettings p)
      | _ \<Rightarrow> True)"

definition permissionStep ::
  "PermissionPlatform \<Rightarrow> PermissionFlowState \<Rightarrow> PermissionEvent \<Rightarrow> PermissionFlowState"
where
  "permissionStep p st e = fst (permissionReducer st e p)"

interpretation perm: reducer "permissionStep p" always "platformOk p" for p
proof
  show "platformOk p s \<Longrightarrow> platformOk p (permissionStep p s e)" for s e
    by (cases s; cases e) (auto simp: permissionStep_def platformOk_def reducer_defs)
qed

section \<open>Properties\<close>

text \<open>
  The permission flow never loops a prompt: whatever the user and the system answer, a start
  request ends on its own before the controller's guard of twelve transitions, and every effect
  (the disclosure, each system dialog, the way to the settings, the offer, the result) is carried
  out at most once.
\<close>

theorem permission_flow_ends:
  "\<exists>outcome final log.
     flow MAX_TRANSITIONS deps Idle 1 (StartRequested (snapshotAt deps 0)) = (Some outcome, final, log) \<and>
     distinct log"
  using flow_ends [of Idle "StartRequested (snapshotAt deps 0)" MAX_TRANSITIONS deps 1]
  by (auto simp: MAX_TRANSITIONS_def prompts_def)

text \<open>
  A grant rests on evidence: a transition that resolves the flow with a mode goes to the granted
  state, on a snapshot whose permission suffices for the mode and whose accuracy is not reduced;
  the one exception is the answer to the background request, whose accuracy is not looked at.
\<close>

theorem permission_grant_supported:
  assumes "permissionReducer st e p = (st', effs)" and "Resolved mode \<in> set effs"
  shows "st' = Granted mode \<and>
    (\<exists>s. eventSnapshot e = Some s \<and> suffices s mode \<and>
         (accuracy s \<noteq> Some Approximate \<or> st = RequestingBackground))"
  using assms by (rule grant_supported)

theorem permission_grant_supported_witness:
  "permissionReducer ForegroundOnlyChoice
     (ForegroundResult \<lparr>permission = Limited, accuracy = Some Precise, canAskAgain = None\<rparr>) Ios =
     (Granted ForegroundOnlyMode, [Resolved ForegroundOnlyMode]) \<and>
   suffices \<lparr>permission = Limited, accuracy = Some Precise, canAskAgain = None\<rparr> ForegroundOnlyMode"
proof -
  let ?s = "\<lparr>permission = Limited, accuracy = Some Precise, canAskAgain = None\<rparr>"
  have run: "permissionReducer ForegroundOnlyChoice (ForegroundResult ?s) Ios =
     (Granted ForegroundOnlyMode, [Resolved ForegroundOnlyMode])"
    by (simp add: reducer_defs)
  from permission_grant_supported [OF run, of ForegroundOnlyMode] run show ?thesis by simp
qed

text \<open>
  A reduced-accuracy grant gets through in one place: when the answer to the background request
  is a background permission with approximate location, the flow resolves with background
  tracking instead of asking for precise location.
\<close>

theorem permission_background_ignores_accuracy:
  "permissionReducer RequestingBackground
     (BackgroundResult \<lparr>permission = Background, accuracy = Some Approximate, canAskAgain = None\<rparr>) p =
     (Granted BackgroundMode, [Resolved BackgroundMode])"
  by (simp add: reducer_defs)

text \<open>
  The platform's rules hold in every state a run reaches: the background dialog is requested
  only where the system shows one, and the way to the settings names the platform, for the
  background permission only on Android 11 and later.
\<close>

theorem permission_platform_rules:
  assumes "reaches (permissionStep p) always Idle st"
  shows "(st = RequestingBackground \<longrightarrow> \<not> backgroundNeedsSettings p) \<and>
    (\<forall>pn why. st = SettingsRequired pn why \<longrightarrow>
       pn = platformName p \<and> (why = BackgroundInSettings \<longrightarrow> backgroundNeedsSettings p))"
  using perm.reaches_inv [OF assms] by (auto simp: platformOk_def)

theorem permission_platform_rules_witness:
  "reaches (permissionStep (Android 33)) always Idle (SettingsRequired AndroidName BackgroundInSettings) \<and>
   backgroundNeedsSettings (Android 33)"
proof -
  let ?s = "\<lparr>permission = Foreground, accuracy = Some Precise, canAskAgain = None\<rparr>"
  have "foldl (permissionStep (Android 33)) Idle
      [StartRequested ?s, DisclosureAccepted, ForegroundResult ?s] =
      SettingsRequired AndroidName BackgroundInSettings"
    by (simp add: permissionStep_def reducer_defs ANDROID_BACKGROUND_VIA_SETTINGS_SDK_def)
  with reaches_foldl have run: "reaches (permissionStep (Android 33)) always Idle
      (SettingsRequired AndroidName BackgroundInSettings)" by metis
  from permission_platform_rules [OF run] run show ?thesis by blast
qed

end
