(* ===== verification/Mobile_Shell.thy ===== *)
theory Mobile_Shell
  imports Reducer
begin

text \<open>
  The native shell around the web app: \<open>apps/mobile/src/shell/ShellState.ts\<close> (states and the
  actions each offers) and \<open>shellReducer.ts\<close>.
\<close>

section \<open>States and actions\<close>

datatype ShellAction = Retry | OpenNetworkSettings | Resume | End | DismissAction | OpenAppSettings

datatype ShellState =
    Loading
  | Web
  | LoadError bool
  | OfflineNavigating
  | IncompatibleShell
  | CorruptSession
  | PermissionLost
  | ResumeOffer
  | FatalConfig

fun actionsFor :: "ShellState \<Rightarrow> ShellAction list" where
  "actionsFor Loading = []"
| "actionsFor Web = []"
| "actionsFor (LoadError _) = [Retry]"
| "actionsFor OfflineNavigating = [Retry, OpenNetworkSettings, End]"
| "actionsFor IncompatibleShell = [DismissAction]"
| "actionsFor CorruptSession = [DismissAction]"
| "actionsFor PermissionLost = [OpenAppSettings, End]"
| "actionsFor ResumeOffer = [Resume, End]"
| "actionsFor FatalConfig = []"

definition isBlocking :: "ShellState \<Rightarrow> bool" where
  "isBlocking state \<longleftrightarrow> state = FatalConfig"

section \<open>The reducer\<close>

datatype ShellEvent =
    DocumentLoadStarted
  | DocumentLoadSucceeded
  | DocumentLoadFailed bool
  | ConnectivityChanged bool
  | SessionStarted
  | SessionEnded
  | SessionQuarantined
  | PermissionWasLost
  | ResumeRequired
  | ResumeAccepted
  | ProtocolIncompatible
  | ConfigInvalid
  | Dismissed

datatype PageState = PageInitial | PageLoading | PageLoaded | PageFailed

record ShellContext =
  navigating :: bool
  page :: PageState
  online :: bool

record ShellSnapshot =
  shellState :: ShellState
  shellContext :: ShellContext

definition INITIAL_SHELL :: ShellSnapshot where
  "INITIAL_SHELL =
     \<lparr>shellState = Loading,
      shellContext = \<lparr>navigating = False, page = PageInitial, online = True\<rparr>\<rparr>"

definition STICKY :: "ShellState \<Rightarrow> bool" where
  "STICKY state \<longleftrightarrow> state \<in> {FatalConfig, PermissionLost, CorruptSession, ResumeOffer}"

definition settle :: "ShellContext \<Rightarrow> ShellState \<Rightarrow> ShellState" where
  "settle ctx current =
     (if STICKY current then current
      else if current = IncompatibleShell then current
      else if page ctx = PageLoaded then Web
      else if navigating ctx then OfflineNavigating
      else if page ctx = PageFailed then LoadError (\<not> online ctx)
      else Loading)"

definition shellReducer :: "ShellSnapshot \<Rightarrow> ShellEvent \<Rightarrow> ShellSnapshot" where
  "shellReducer snapshot event =
     (let state = shellState snapshot; ctx = shellContext snapshot
      in case event of
           ConfigInvalid \<Rightarrow> \<lparr>shellState = FatalConfig, shellContext = ctx\<rparr>
         | DocumentLoadStarted \<Rightarrow>
             let nxt = ctx\<lparr>page := PageLoading\<rparr>
             in if STICKY state then \<lparr>shellState = state, shellContext = nxt\<rparr>
                else \<lparr>shellState = settle nxt Loading, shellContext = nxt\<rparr>
         | DocumentLoadSucceeded \<Rightarrow>
             if page ctx = PageFailed then snapshot
             else let nxt = ctx\<lparr>page := PageLoaded\<rparr>
                  in \<lparr>shellState = settle nxt state, shellContext = nxt\<rparr>
         | DocumentLoadFailed offline \<Rightarrow>
             let nxt = ctx\<lparr>page := PageFailed, online := \<not> offline\<rparr>
             in \<lparr>shellState = settle nxt state, shellContext = nxt\<rparr>
         | ConnectivityChanged isOnline \<Rightarrow>
             let nxt = ctx\<lparr>online := isOnline\<rparr>
             in \<lparr>shellState = settle nxt state, shellContext = nxt\<rparr>
         | SessionStarted \<Rightarrow>
             let nxt = ctx\<lparr>navigating := True\<rparr>;
                 base = (if state = ResumeOffer then Loading else state)
             in \<lparr>shellState = settle nxt base, shellContext = nxt\<rparr>
         | SessionEnded \<Rightarrow>
             let nxt = ctx\<lparr>navigating := False\<rparr>;
                 base = (if STICKY state \<and> state \<noteq> FatalConfig then Loading else state)
             in \<lparr>shellState = settle nxt base, shellContext = nxt\<rparr>
         | SessionQuarantined \<Rightarrow>
             \<lparr>shellState = CorruptSession, shellContext = ctx\<lparr>navigating := False\<rparr>\<rparr>
         | PermissionWasLost \<Rightarrow>
             \<lparr>shellState = PermissionLost, shellContext = ctx\<lparr>navigating := False\<rparr>\<rparr>
         | ResumeRequired \<Rightarrow>
             \<lparr>shellState = ResumeOffer, shellContext = ctx\<lparr>navigating := False\<rparr>\<rparr>
         | ResumeAccepted \<Rightarrow>
             let nxt = ctx\<lparr>navigating := True\<rparr>
             in \<lparr>shellState = settle nxt Loading, shellContext = nxt\<rparr>
         | ProtocolIncompatible \<Rightarrow> \<lparr>shellState = IncompatibleShell, shellContext = ctx\<rparr>
         | Dismissed \<Rightarrow>
             if state = FatalConfig then snapshot
             else \<lparr>shellState = settle ctx Loading, shellContext = ctx\<rparr>)"

section \<open>The state tells the truth\<close>

text \<open>What each routine state says of the context.\<close>

definition shellOk :: "ShellSnapshot \<Rightarrow> bool" where
  "shellOk s =
     (case shellState s of
        Loading \<Rightarrow> \<not> navigating (shellContext s) \<and> page (shellContext s) \<in> {PageInitial, PageLoading}
      | Web \<Rightarrow> page (shellContext s) = PageLoaded
      | LoadError offline \<Rightarrow>
          \<not> navigating (shellContext s) \<and> page (shellContext s) = PageFailed \<and> offline = (\<not> online (shellContext s))
      | OfflineNavigating \<Rightarrow> navigating (shellContext s) \<and> page (shellContext s) \<noteq> PageLoaded
      | _ \<Rightarrow> True)"

lemma settle_ok:
  "\<not> STICKY base \<Longrightarrow> base \<noteq> IncompatibleShell \<Longrightarrow> shellOk \<lparr>shellState = settle ctx base, shellContext = ctx\<rparr>"
  by (cases "page ctx") (auto simp: settle_def shellOk_def STICKY_def)

lemma settle_sticky: "STICKY base \<or> base = IncompatibleShell \<Longrightarrow> settle ctx base = base"
  by (auto simp: settle_def)

lemma sticky_ok: "STICKY base \<or> base = IncompatibleShell \<Longrightarrow> shellOk \<lparr>shellState = base, shellContext = ctx\<rparr>"
  by (auto simp: shellOk_def STICKY_def)

lemma settle_always_ok: "shellOk \<lparr>shellState = settle ctx base, shellContext = ctx\<rparr>"
  using settle_ok settle_sticky sticky_ok by metis

interpretation shell: reducer shellReducer always shellOk
proof
  fix s e
  assume "shellOk s"
  then show "shellOk (shellReducer s e)"
    by (cases e) (auto simp: shellReducer_def Let_def settle_always_ok intro: sticky_ok simp: STICKY_def)
qed

text \<open>Routine page and connectivity events.\<close>

definition routine :: "ShellEvent \<Rightarrow> bool" where
  "routine e \<longleftrightarrow>
     (case e of
        DocumentLoadStarted \<Rightarrow> True | DocumentLoadSucceeded \<Rightarrow> True | DocumentLoadFailed _ \<Rightarrow> True
      | ConnectivityChanged _ \<Rightarrow> True | _ \<Rightarrow> False)"

lemma routine_keeps_sticky:
  "STICKY (shellState s) \<Longrightarrow> routine e \<Longrightarrow> shellState (shellReducer s e) = shellState s"
  by (cases e) (auto simp: shellReducer_def routine_def Let_def settle_sticky)

text \<open>Events that a page or the user can cause while the configuration is invalid.\<close>

definition pageEvent :: "ShellEvent \<Rightarrow> bool" where
  "pageEvent e \<longleftrightarrow> routine e \<or> e \<in> {Dismissed, SessionStarted, SessionEnded, ConfigInvalid}"

interpretation fatal: absorbing_reducer shellReducer "\<lambda>_. pageEvent" "\<lambda>s. shellState s = FatalConfig"
proof
  fix s :: ShellSnapshot and e
  assume "shellState s = FatalConfig" "pageEvent e"
  then show "shellState (shellReducer s e) = FatalConfig"
    by (cases e) (auto simp: shellReducer_def routine_def pageEvent_def Let_def settle_sticky STICKY_def)
qed

section \<open>Properties\<close>

text \<open>
  In every state the shell can reach, what it shows is true: the page view only with a loaded
  page, a load error only for a failed page and with no session running (naming offline exactly
  when the device is), the "guidance continues" screen exactly for a running session without a
  page, and the loading screen never while guidance runs.
\<close>

theorem shell_state_truthful:
  assumes "reaches shellReducer always INITIAL_SHELL s"
  shows "shellOk s"
proof -
  have "shellOk INITIAL_SHELL" by (simp add: shellOk_def INITIAL_SHELL_def)
  with assms show ?thesis by (rule shell.reaches_inv)
qed

theorem shell_state_truthful_witness:
  "shellOk (shellReducer (shellReducer INITIAL_SHELL SessionStarted) (DocumentLoadFailed True)) \<and>
   shellState (shellReducer (shellReducer INITIAL_SHELL SessionStarted) (DocumentLoadFailed True)) =
     OfflineNavigating"
proof -
  let ?s = "shellReducer (shellReducer INITIAL_SHELL SessionStarted) (DocumentLoadFailed True)"
  have "reaches shellReducer always INITIAL_SHELL ?s"
    by (intro reaches.intros TrueI)
  from shell_state_truthful [OF this] show ?thesis
    by (simp add: shellReducer_def Let_def settle_def STICKY_def INITIAL_SHELL_def)
qed

text \<open>
  A page load does not clear a session problem: lost permission, a quarantined session, a resume
  offer and an invalid configuration survive every page and connectivity event.
\<close>

theorem sticky_survives_page_events:
  assumes "STICKY (shellState s)" and "reaches shellReducer (\<lambda>_. routine) s s'"
  shows "shellState s' = shellState s"
  using assms(2,1) by induction (simp_all add: routine_keeps_sticky)

theorem sticky_survives_page_events_witness:
  "shellState (shellReducer (shellReducer (shellReducer INITIAL_SHELL PermissionWasLost)
     DocumentLoadStarted) DocumentLoadSucceeded) = PermissionLost"
proof -
  let ?s = "shellReducer INITIAL_SHELL PermissionWasLost"
  have lost: "shellState ?s = PermissionLost" by (simp add: shellReducer_def Let_def)
  have "reaches shellReducer (\<lambda>_. routine) ?s
      (shellReducer (shellReducer ?s DocumentLoadStarted) DocumentLoadSucceeded)"
    by (intro reaches.intros) (simp_all add: routine_def)
  from sticky_survives_page_events [OF _ this] lost show ?thesis by (simp add: STICKY_def)
qed

text \<open>
  An invalid configuration is final for everything the page and the user do, but not for the
  session's own reports: losing the permission, a quarantined session, a resume offer or its
  acceptance, and an incompatible page all replace the blocking screen.
\<close>

theorem fatal_config_not_final:
  "(reaches shellReducer (\<lambda>_. pageEvent) (shellReducer s ConfigInvalid) s' \<longrightarrow> isBlocking (shellState s')) \<and>
   list_all (\<lambda>e. \<not> isBlocking (shellState (shellReducer (shellReducer s ConfigInvalid) e)))
     [PermissionWasLost, SessionQuarantined, ResumeRequired, ResumeAccepted, ProtocolIncompatible]"
proof -
  have fatal: "shellState (shellReducer s ConfigInvalid) = FatalConfig"
    by (simp add: shellReducer_def Let_def)
  then have "reaches shellReducer (\<lambda>_. pageEvent) (shellReducer s ConfigInvalid) s' \<longrightarrow>
      isBlocking (shellState s')"
    using fatal.absorbed by (auto simp: isBlocking_def)
  moreover have "settle ctx Loading \<noteq> FatalConfig" for ctx
    by (simp add: settle_def STICKY_def)
  ultimately show ?thesis by (simp add: isBlocking_def shellReducer_def Let_def)
qed

theorem fatal_config_not_final_witness:
  "isBlocking (shellState (shellReducer (shellReducer INITIAL_SHELL ConfigInvalid) Dismissed)) \<and>
   \<not> isBlocking (shellState (shellReducer (shellReducer INITIAL_SHELL ConfigInvalid) PermissionWasLost))"
proof -
  have "reaches shellReducer (\<lambda>_. pageEvent) (shellReducer INITIAL_SHELL ConfigInvalid)
      (shellReducer (shellReducer INITIAL_SHELL ConfigInvalid) Dismissed)"
    by (intro reaches.intros) (simp add: pageEvent_def)
  with fatal_config_not_final show ?thesis by fastforce
qed

end
