(* ===== verification/Mobile_Refresh.thy ===== *)
theory Mobile_Refresh
  imports Reducer
begin

text \<open>
  \<open>apps/mobile/src/navigation/transit/refreshState.ts\<close>: when the native navigation session asks
  for live transit data and when it stops asking. Times are milliseconds as integers. The
  functions are composed into the runs the session allows: a request is sent only when
  \<open>shouldRefresh\<close> says so, and an answer is taken only for the request in flight.
\<close>

section \<open>The runtime\<close>

definition REFRESH_INTERVAL_MS :: int where "REFRESH_INTERVAL_MS = 30000"

definition REQUEST_TIMEOUT_MS :: int where "REQUEST_TIMEOUT_MS = 15000"

definition RETRY_DELAYS_MS :: "int list" where
  "RETRY_DELAYS_MS = [30000, 60000, 120000, 240000, 300000]"

definition MAX_CONSECUTIVE_FAILURES :: nat where
  "MAX_CONSECUTIVE_FAILURES = length RETRY_DELAYS_MS"

datatype RefreshStatus = Ready | InFlight | Stale | Broken

record RefreshRuntime =
  refreshStatus :: RefreshStatus
  generation :: nat
  requestId :: "string option"
  nextAttemptAtMs :: "int option"
  attempts :: nat
  firstAttemptAtMs :: "int option"
  ambiguousAttempts :: "nat option"

datatype NoRefreshReason = InFlightAlready | TooSoon | OfflineNow | NoToken | BrokenHandle | Terminal

datatype RefreshDecision = Refresh | NoRefresh NoRefreshReason

datatype Connectivity = Online | Offline | UnknownConnectivity

datatype SessionStatus = Preparing | Active | Arrived | Stopped | Expired | ErrorStatus

record RefreshContext =
  runtime :: RefreshRuntime
  hasToken :: bool
  connectivity :: Connectivity
  sessionStatus :: SessionStatus
  nowMs :: int

definition ambiguous :: "RefreshRuntime \<Rightarrow> nat" where
  "ambiguous rt = (case ambiguousAttempts rt of None \<Rightarrow> 0 | Some n \<Rightarrow> n)"

definition windowOver :: "RefreshRuntime \<Rightarrow> int \<Rightarrow> bool" where
  "windowOver rt now \<longleftrightarrow>
     (case firstAttemptAtMs rt of None \<Rightarrow> False | Some f \<Rightarrow> ambiguous rt > 0 \<and> now - f \<ge> 120000)"

definition shouldRefresh :: "RefreshContext \<Rightarrow> RefreshDecision" where
  "shouldRefresh ctx =
     (let rt = runtime ctx
      in if sessionStatus ctx \<noteq> Active \<and> sessionStatus ctx \<noteq> Preparing then NoRefresh Terminal
         else if \<not> hasToken ctx then NoRefresh NoToken
         else if refreshStatus rt = InFlight then NoRefresh InFlightAlready
         else if windowOver rt (nowMs ctx) then NoRefresh BrokenHandle
         else if refreshStatus rt = Broken then NoRefresh BrokenHandle
         else if connectivity ctx = Offline then NoRefresh OfflineNow
         else if (case nextAttemptAtMs rt of None \<Rightarrow> False | Some n \<Rightarrow> nowMs ctx < n)
         then NoRefresh TooSoon
         else Refresh)"

definition onRefreshRequested :: "RefreshRuntime \<Rightarrow> string \<Rightarrow> int \<Rightarrow> RefreshRuntime" where
  "onRefreshRequested rt rid now =
     \<lparr>refreshStatus = InFlight, generation = generation rt + 1, requestId = Some rid,
      nextAttemptAtMs = Some (now + REQUEST_TIMEOUT_MS + 5000), attempts = attempts rt,
      firstAttemptAtMs = (if ambiguous rt > 0 then firstAttemptAtMs rt else Some now),
      ambiguousAttempts = ambiguousAttempts rt\<rparr>"

definition onRefreshSucceeded :: "RefreshRuntime \<Rightarrow> int \<Rightarrow> RefreshRuntime" where
  "onRefreshSucceeded rt now =
     \<lparr>refreshStatus = Ready, generation = generation rt, requestId = None,
      nextAttemptAtMs = Some (now + REFRESH_INTERVAL_MS), attempts = 0, firstAttemptAtMs = None,
      ambiguousAttempts = None\<rparr>"

datatype RefreshFailure = RejectedReply | AmbiguousReply | OfflineFailure | Retryable

definition onRefreshUnreachable :: "RefreshRuntime \<Rightarrow> int \<Rightarrow> RefreshRuntime" where
  "onRefreshUnreachable rt now =
     (let tries = min 64 (attempts rt + 1);
          index = min tries (length RETRY_DELAYS_MS) - 1
      in \<lparr>refreshStatus = (if tries \<ge> MAX_CONSECUTIVE_FAILURES then Stale else Ready),
          generation = generation rt, requestId = None,
          nextAttemptAtMs =
            Some (now + (if ambiguous rt > 0 then REFRESH_INTERVAL_MS else RETRY_DELAYS_MS ! index)),
          attempts = tries,
          firstAttemptAtMs = (if ambiguous rt > 0 then firstAttemptAtMs rt else None),
          ambiguousAttempts = (if ambiguous rt > 0 then ambiguousAttempts rt else None)\<rparr>)"

definition onRefreshFailed ::
  "RefreshRuntime \<Rightarrow> RefreshFailure \<Rightarrow> int \<Rightarrow> bool \<Rightarrow> RefreshRuntime"
where
  "onRefreshFailed rt failure now tokenPresent =
     (if \<not> tokenPresent
      then onRefreshUnreachable (rt\<lparr>ambiguousAttempts := None, firstAttemptAtMs := None\<rparr>) now
      else if failure = OfflineFailure then rt\<lparr>refreshStatus := Stale\<rparr>
      else if failure = Retryable then onRefreshUnreachable rt now
      else
        let first = (case firstAttemptAtMs rt of None \<Rightarrow> now | Some f \<Rightarrow> f);
            ambi = min 3 (ambiguous rt + 1)
        in \<lparr>refreshStatus =
              (if failure = RejectedReply \<or> ambi \<ge> 3 \<or> now - first \<ge> 120000 then Broken else Ready),
            generation = generation rt, requestId = None,
            nextAttemptAtMs = Some (now + 30000),
            attempts = min 64 (attempts rt + 1),
            firstAttemptAtMs = Some first, ambiguousAttempts = Some ambi\<rparr>)"

definition isCurrentGeneration :: "RefreshRuntime \<Rightarrow> nat \<Rightarrow> string \<Rightarrow> bool" where
  "isCurrentGeneration rt g rid \<longleftrightarrow> generation rt = g \<and> requestId rt = Some rid"

section \<open>Runs\<close>

datatype RefreshEvent =
    SendRequest string Connectivity SessionStatus int
  | Answered int
  | Failed RefreshFailure int bool

fun refreshStep :: "RefreshRuntime \<Rightarrow> RefreshEvent \<Rightarrow> RefreshRuntime" where
  "refreshStep rt (SendRequest rid conn status now) = onRefreshRequested rt rid now"
| "refreshStep rt (Answered now) = onRefreshSucceeded rt now"
| "refreshStep rt (Failed failure now tokenPresent) = onRefreshFailed rt failure now tokenPresent"

fun refreshAllowed :: "RefreshRuntime \<Rightarrow> RefreshEvent \<Rightarrow> bool" where
  "refreshAllowed rt (SendRequest rid conn status now) \<longleftrightarrow>
     shouldRefresh \<lparr>runtime = rt, hasToken = True, connectivity = conn, sessionStatus = status,
                    nowMs = now\<rparr> = Refresh"
| "refreshAllowed rt _ \<longleftrightarrow> refreshStatus rt = InFlight"

definition freshRefresh :: RefreshRuntime where
  "freshRefresh =
     \<lparr>refreshStatus = Ready, generation = 0, requestId = None, nextAttemptAtMs = None,
      attempts = 0, firstAttemptAtMs = None, ambiguousAttempts = None\<rparr>"

definition refreshOk :: "RefreshRuntime \<Rightarrow> bool" where
  "refreshOk rt \<longleftrightarrow>
     attempts rt \<le> 64 \<and> ambiguous rt \<le> 3 \<and> (ambiguous rt = 3 \<longrightarrow> refreshStatus rt = Broken) \<and>
     (ambiguous rt > 0 \<longrightarrow> firstAttemptAtMs rt \<noteq> None) \<and>
     (refreshStatus rt = InFlight \<longrightarrow> requestId rt \<noteq> None \<and> firstAttemptAtMs rt \<noteq> None)"

lemma ambiguous_simps [simp]:
  "ambiguous (onRefreshRequested rt rid now) = ambiguous rt"
  "ambiguous (onRefreshSucceeded rt now) = 0"
  "ambiguous (onRefreshUnreachable rt now) = ambiguous rt"
  by (auto simp: ambiguous_def onRefreshRequested_def onRefreshSucceeded_def onRefreshUnreachable_def
      Let_def split: option.splits)

lemma shouldRefresh_Refresh:
  "shouldRefresh ctx = Refresh \<Longrightarrow>
   refreshStatus (runtime ctx) \<noteq> InFlight \<and> refreshStatus (runtime ctx) \<noteq> Broken \<and>
   \<not> windowOver (runtime ctx) (nowMs ctx) \<and> connectivity ctx \<noteq> Offline \<and> hasToken ctx \<and>
   sessionStatus ctx \<in> {Active, Preparing} \<and>
   (\<forall>n. nextAttemptAtMs (runtime ctx) = Some n \<longrightarrow> n \<le> nowMs ctx)"
  by (auto simp: shouldRefresh_def Let_def split: if_splits option.splits)

lemma refreshOk_requested:
  "refreshOk rt \<Longrightarrow> refreshStatus rt \<noteq> Broken \<Longrightarrow> refreshOk (onRefreshRequested rt rid now)"
  by (auto simp: refreshOk_def onRefreshRequested_def ambiguous_def split: option.splits)

lemma refreshOk_unreachable:
  "refreshOk rt \<Longrightarrow> ambiguous rt < 3 \<Longrightarrow> refreshOk (onRefreshUnreachable rt now)"
  by (auto simp: refreshOk_def onRefreshUnreachable_def Let_def ambiguous_def split: option.splits)

lemma refreshOk_failed:
  assumes ok: "refreshOk rt" and flight: "refreshStatus rt = InFlight"
  shows "refreshOk (onRefreshFailed rt failure now tokenPresent)"
proof -
  have amb: "ambiguous rt < 3" using ok flight by (auto simp: refreshOk_def le_less)
  let ?bare = "rt\<lparr>ambiguousAttempts := None, firstAttemptAtMs := None\<rparr>"
  have "refreshOk (onRefreshUnreachable ?bare now)"
    using ok by (auto simp: refreshOk_def ambiguous_def onRefreshUnreachable_def Let_def)
  then show ?thesis
    using ok amb refreshOk_unreachable [OF ok amb, of now]
    by (cases failure) (auto simp: onRefreshFailed_def Let_def refreshOk_def ambiguous_def
        split: option.splits)
qed

lemma refreshOk_succeeded: "refreshOk (onRefreshSucceeded rt now)"
  by (simp add: refreshOk_def onRefreshSucceeded_def ambiguous_def)

interpretation refresh: reducer refreshStep refreshAllowed refreshOk
proof
  fix rt e
  assume "refreshOk rt" "refreshAllowed rt e"
  then show "refreshOk (refreshStep rt e)"
    by (cases e) (auto dest!: shouldRefresh_Refresh intro: refreshOk_requested refreshOk_failed
        refreshOk_succeeded)
qed

interpretation broken: absorbing_reducer refreshStep refreshAllowed "\<lambda>rt. refreshStatus rt = Broken"
proof
  fix rt e
  assume "refreshStatus (rt :: RefreshRuntime) = Broken" "refreshAllowed rt e"
  then show "refreshStatus (refreshStep rt e) = Broken"
    by (cases e) (auto dest!: shouldRefresh_Refresh)
qed

lemma generation_step: "generation rt \<le> generation (refreshStep rt e)"
  by (cases e) (auto simp: onRefreshRequested_def onRefreshSucceeded_def onRefreshFailed_def
      onRefreshUnreachable_def Let_def)

lemma generation_mono: "reaches refreshStep allowed rt rt' \<Longrightarrow> generation rt \<le> generation rt'"
  by (induction rule: reaches.induct) (auto intro: le_trans generation_step)

section \<open>Properties\<close>

text \<open>
  In every run the session allows, an unanswered request is retried with the same handle at most
  three times: the count of ambiguous attempts stays below three until the runtime is broken, a
  retry is sent only within the server's replay window of two minutes after the first attempt,
  and a broken runtime sends no further request (the session then retires the handle and starts a
  fresh runtime without it).
\<close>

theorem refresh_replay_bounded:
  assumes "reaches refreshStep refreshAllowed freshRefresh rt"
  shows "ambiguous rt \<le> 3 \<and> (ambiguous rt = 3 \<longrightarrow> refreshStatus rt = Broken) \<and>
    (\<forall>rid conn status now f. refreshAllowed rt (SendRequest rid conn status now) \<longrightarrow>
       ambiguous rt < 3 \<and> (ambiguous rt > 0 \<longrightarrow> firstAttemptAtMs rt = Some f \<longrightarrow> now - f < 120000)) \<and>
    (\<forall>rt' rid conn status now. refreshStatus rt = Broken \<longrightarrow> reaches refreshStep refreshAllowed rt rt' \<longrightarrow>
       \<not> refreshAllowed rt' (SendRequest rid conn status now))"
proof -
  have ok: "refreshOk rt"
    using assms by (rule refresh.reaches_inv) (simp add: refreshOk_def freshRefresh_def ambiguous_def)
  have "\<not> refreshAllowed rt' (SendRequest rid conn status now)"
    if "refreshStatus rt = Broken" "reaches refreshStep refreshAllowed rt rt'" for rt' rid conn status now
    using broken.absorbed [OF that] by (auto dest: shouldRefresh_Refresh)
  moreover have "ambiguous rt < 3 \<and> (ambiguous rt > 0 \<longrightarrow> firstAttemptAtMs rt = Some f \<longrightarrow> now - f < 120000)"
    if "refreshAllowed rt (SendRequest rid conn status now)" for rid conn status now f
    using that ok by (auto dest!: shouldRefresh_Refresh simp: refreshOk_def windowOver_def le_less)
  ultimately show ?thesis using ok unfolding refreshOk_def by blast
qed

theorem refresh_replay_bounded_witness:
  "refreshStatus (foldl refreshStep freshRefresh
     [SendRequest ''a'' Online Active 0, Failed AmbiguousReply 20000 True,
      SendRequest ''b'' Online Active 50000, Failed AmbiguousReply 70000 True,
      SendRequest ''c'' Online Active 100000, Failed AmbiguousReply 115000 True]) = Broken"
proof -
  let ?s1 = "refreshStep freshRefresh (SendRequest ''a'' Online Active 0)"
  let ?s2 = "refreshStep ?s1 (Failed AmbiguousReply 20000 True)"
  let ?s3 = "refreshStep ?s2 (SendRequest ''b'' Online Active 50000)"
  let ?s4 = "refreshStep ?s3 (Failed AmbiguousReply 70000 True)"
  let ?s5 = "refreshStep ?s4 (SendRequest ''c'' Online Active 100000)"
  let ?s6 = "refreshStep ?s5 (Failed AmbiguousReply 115000 True)"
  note defs = freshRefresh_def onRefreshRequested_def onRefreshFailed_def shouldRefresh_def windowOver_def
    ambiguous_def REQUEST_TIMEOUT_MS_def Let_def
  have "reaches refreshStep refreshAllowed freshRefresh ?s6"
    by (intro reaches.intros) (simp_all add: defs)
  from refresh_replay_bounded [OF this] have "ambiguous ?s6 = 3 \<longrightarrow> refreshStatus ?s6 = Broken" by blast
  moreover have "ambiguous ?s6 = 3" by (simp add: defs)
  ultimately show ?thesis by simp
qed

text \<open>
  Backoff: after a failure that may be retried, the next attempt is due between half a minute and
  five minutes later, and \<open>shouldRefresh\<close> refuses until then.
\<close>

theorem refresh_backoff:
  "\<exists>n. nextAttemptAtMs (onRefreshUnreachable rt now) = Some n \<and> now + 30000 \<le> n \<and> n \<le> now + 300000 \<and>
     (\<forall>conn status t. t < n \<longrightarrow>
        shouldRefresh \<lparr>runtime = onRefreshUnreachable rt now, hasToken = True, connectivity = conn,
          sessionStatus = status, nowMs = t\<rparr> \<noteq> Refresh)"
proof -
  have delays: "30000 \<le> RETRY_DELAYS_MS ! k \<and> RETRY_DELAYS_MS ! k \<le> 300000" if "k < 5" for k
    using that by (auto simp: RETRY_DELAYS_MS_def numeral_eq_Suc less_Suc_eq)
  have "min (min 64 (attempts rt + 1)) (length RETRY_DELAYS_MS) - 1 < 5"
    by (simp add: RETRY_DELAYS_MS_def)
  from delays [OF this] obtain n where
    n: "nextAttemptAtMs (onRefreshUnreachable rt now) = Some n" "now + 30000 \<le> n" "n \<le> now + 300000"
    by (auto simp: onRefreshUnreachable_def Let_def REFRESH_INTERVAL_MS_def)
  then have "shouldRefresh \<lparr>runtime = onRefreshUnreachable rt now, hasToken = True, connectivity = conn,
          sessionStatus = status, nowMs = t\<rparr> \<noteq> Refresh" if "t < n" for conn status t
    using that by (auto dest!: shouldRefresh_Refresh)
  with n show ?thesis by blast
qed

theorem refresh_backoff_witness:
  "shouldRefresh \<lparr>runtime = onRefreshUnreachable freshRefresh 0, hasToken = True, connectivity = Online,
     sessionStatus = Active, nowMs = 29999\<rparr> \<noteq> Refresh"
proof -
  obtain n where "0 + 30000 \<le> n" "\<forall>conn status t. t < n \<longrightarrow>
        shouldRefresh \<lparr>runtime = onRefreshUnreachable freshRefresh 0, hasToken = True, connectivity = conn,
          sessionStatus = status, nowMs = t\<rparr> \<noteq> Refresh"
    using refresh_backoff [of freshRefresh 0] by blast
  then show ?thesis by simp
qed

text \<open>
  A late reply is never mistaken for the current one: once another request has been sent, no
  reply of an earlier generation is current, however the run goes on.
\<close>

theorem refresh_stale_reply_rejected:
  assumes "reaches refreshStep allowed (onRefreshRequested rt rid now) rt'" and "g \<le> generation rt"
  shows "\<not> isCurrentGeneration rt' g rid'"
  using generation_mono [OF assms(1)] assms(2) by (auto simp: isCurrentGeneration_def onRefreshRequested_def)

theorem refresh_stale_reply_rejected_witness:
  "\<not> isCurrentGeneration (onRefreshRequested freshRefresh ''x'' 0) 0 ''x''"
  by (rule refresh_stale_reply_rejected [where allowed = always, OF reaches.here]) (simp add: freshRefresh_def)

end
