(* ===== verification/Mobile_Reroute.thy ===== *)
theory Mobile_Reroute
  imports Reducer
begin

text \<open>
  \<open>apps/mobile/src/navigation/ground/rerouteState.ts\<close>: when the native navigation session asks for
  a new route and when it stops asking. Times are milliseconds as integers; the jitter is the
  already rounded number of milliseconds, between 0 and \<open>RETRY_JITTER_MS\<close>, that
  \<open>Math.round(clamped * RETRY_JITTER_MS)\<close> yields. A session is the pair of the runtime and the
  history of successes.
\<close>

section \<open>The runtime\<close>

definition REROUTE_RETRY_DELAYS_MS :: "int list" where
  "REROUTE_RETRY_DELAYS_MS = [3000, 6000, 12000, 24000, 30000]"

definition RETRY_JITTER_MS :: int where "RETRY_JITTER_MS = 1000"

definition CHURN_WINDOW_MS :: int where "CHURN_WINDOW_MS = 120000"

definition CHURN_LIMIT :: nat where "CHURN_LIMIT = 3"

definition CHURN_COOLDOWN_MS :: int where "CHURN_COOLDOWN_MS = 30000"

definition MAX_CONSECUTIVE_REROUTE_FAILURES :: nat where
  "MAX_CONSECUTIVE_REROUTE_FAILURES = length REROUTE_RETRY_DELAYS_MS"

datatype RerouteStatus = RerouteIdle | ReroutePending | RerouteInFlight | RerouteUnavailable | RerouteFailed

record RerouteRuntime =
  rerouteStatus :: RerouteStatus
  rerouteRequestId :: "string option"
  rerouteAttempts :: nat
  rerouteNextAtMs :: "int option"
  lastFailureCode :: "string option"

record ChurnHistory =
  successAtMs :: "int list"
  cooldownUntilMs :: "int option"

datatype RefuseReason = RefuseInFlight | RefuseBackoff | RefuseChurn | RefuseOffline | RefuseExhausted

datatype RerouteDecision = Allow | Refuse RefuseReason

datatype RerouteConnectivity = NetOnline | NetOffline | NetUnknown

definition before :: "int \<Rightarrow> int option \<Rightarrow> bool" where
  "before now limit = (case limit of None \<Rightarrow> False | Some n \<Rightarrow> now < n)"

definition canRequestReroute ::
  "RerouteRuntime \<Rightarrow> ChurnHistory \<Rightarrow> RerouteConnectivity \<Rightarrow> int \<Rightarrow> RerouteDecision"
where
  "canRequestReroute rt churn conn now =
     (if rerouteStatus rt = RerouteInFlight then Refuse RefuseInFlight
      else if conn = NetOffline then Refuse RefuseOffline
      else if before now (cooldownUntilMs churn) then Refuse RefuseChurn
      else if rerouteAttempts rt \<ge> MAX_CONSECUTIVE_REROUTE_FAILURES then Refuse RefuseExhausted
      else if before now (rerouteNextAtMs rt) then Refuse RefuseBackoff
      else Allow)"

definition retryDelayMs :: "nat \<Rightarrow> int \<Rightarrow> int" where
  "retryDelayMs tries jitterMs =
     (let index = min (max tries 1) (length REROUTE_RETRY_DELAYS_MS) - 1
      in REROUTE_RETRY_DELAYS_MS ! index + jitterMs)"

definition onRerouteRequested :: "RerouteRuntime \<Rightarrow> string \<Rightarrow> RerouteRuntime" where
  "onRerouteRequested rt rid = rt\<lparr>rerouteStatus := RerouteInFlight, rerouteRequestId := Some rid\<rparr>"

definition onRerouteFailed :: "RerouteRuntime \<Rightarrow> string \<Rightarrow> int \<Rightarrow> int \<Rightarrow> RerouteRuntime" where
  "onRerouteFailed rt code now jitterMs =
     (let tries = rerouteAttempts rt + 1
      in \<lparr>rerouteStatus =
            (if tries \<ge> MAX_CONSECUTIVE_REROUTE_FAILURES then RerouteFailed else ReroutePending),
          rerouteRequestId = None, rerouteAttempts = tries,
          rerouteNextAtMs = Some (now + retryDelayMs tries jitterMs),
          lastFailureCode = Some (take 64 code)\<rparr>)"

definition onRerouteOffline :: "RerouteRuntime \<Rightarrow> RerouteRuntime" where
  "onRerouteOffline rt =
     \<lparr>rerouteStatus = RerouteUnavailable, rerouteRequestId = None,
      rerouteAttempts = rerouteAttempts rt, rerouteNextAtMs = None, lastFailureCode = None\<rparr>"

definition onRerouteSucceeded :: RerouteRuntime where
  "onRerouteSucceeded =
     \<lparr>rerouteStatus = RerouteIdle, rerouteRequestId = None, rerouteAttempts = 0,
      rerouteNextAtMs = None, lastFailureCode = None\<rparr>"

definition onBackOnRoute :: "RerouteRuntime \<Rightarrow> RerouteRuntime" where
  "onBackOnRoute rt = (if rerouteStatus rt = RerouteIdle then rt else onRerouteSucceeded)"

definition recordSuccess :: "ChurnHistory \<Rightarrow> int \<Rightarrow> ChurnHistory" where
  "recordSuccess churn now =
     (let recent = filter (\<lambda>at. now - at \<le> CHURN_WINDOW_MS) (successAtMs churn @ [now])
      in if length recent \<ge> CHURN_LIMIT
         then \<lparr>successAtMs = recent, cooldownUntilMs = Some (now + CHURN_COOLDOWN_MS)\<rparr>
         else \<lparr>successAtMs = recent, cooldownUntilMs = None\<rparr>)"

definition EMPTY_CHURN :: ChurnHistory where
  "EMPTY_CHURN = \<lparr>successAtMs = [], cooldownUntilMs = None\<rparr>"

section \<open>Runs\<close>

text \<open>
  A session keeps the clock of its last event. A request is sent only when it is allowed; answers
  come for the request in flight.
\<close>

record RerouteSession =
  rerouteRuntime :: RerouteRuntime
  churnHistory :: ChurnHistory
  clock :: int

datatype RerouteEvent =
    SendReroute string RerouteConnectivity int
  | RerouteSuccess int
  | RerouteFailure string int int
  | RerouteWentOffline int
  | BackOnRoute int

fun rerouteStep :: "RerouteSession \<Rightarrow> RerouteEvent \<Rightarrow> RerouteSession" where
  "rerouteStep s (SendReroute rid conn now) =
     s\<lparr>rerouteRuntime := onRerouteRequested (rerouteRuntime s) rid, clock := now\<rparr>"
| "rerouteStep s (RerouteSuccess now) =
     s\<lparr>rerouteRuntime := onRerouteSucceeded, churnHistory := recordSuccess (churnHistory s) now,
       clock := now\<rparr>"
| "rerouteStep s (RerouteFailure code now jitterMs) =
     s\<lparr>rerouteRuntime := onRerouteFailed (rerouteRuntime s) code now jitterMs, clock := now\<rparr>"
| "rerouteStep s (RerouteWentOffline now) =
     s\<lparr>rerouteRuntime := onRerouteOffline (rerouteRuntime s), clock := now\<rparr>"
| "rerouteStep s (BackOnRoute now) =
     s\<lparr>rerouteRuntime := onBackOnRoute (rerouteRuntime s), clock := now\<rparr>"

fun eventTime :: "RerouteEvent \<Rightarrow> int" where
  "eventTime (SendReroute _ _ now) = now"
| "eventTime (RerouteSuccess now) = now"
| "eventTime (RerouteFailure _ now _) = now"
| "eventTime (RerouteWentOffline now) = now"
| "eventTime (BackOnRoute now) = now"

definition inFlight :: "RerouteSession \<Rightarrow> bool" where
  "inFlight s \<longleftrightarrow> rerouteStatus (rerouteRuntime s) = RerouteInFlight"

definition rerouteAllowed :: "RerouteSession \<Rightarrow> RerouteEvent \<Rightarrow> bool" where
  "rerouteAllowed s e \<longleftrightarrow>
     clock s \<le> eventTime e \<and>
     (case e of
        SendReroute rid conn now \<Rightarrow>
          canRequestReroute (rerouteRuntime s) (churnHistory s) conn now = Allow
      | RerouteSuccess _ \<Rightarrow> inFlight s
      | RerouteFailure _ _ jitterMs \<Rightarrow> inFlight s \<and> 0 \<le> jitterMs \<and> jitterMs \<le> RETRY_JITTER_MS
      | RerouteWentOffline _ \<Rightarrow> inFlight s
      | BackOnRoute _ \<Rightarrow> True)"

definition freshReroute :: RerouteSession where
  "freshReroute = \<lparr>rerouteRuntime = onRerouteSucceeded, churnHistory = EMPTY_CHURN, clock = 0\<rparr>"

text \<open>
  The invariant: at most five failures in a row, a request in flight is not the sixth and was sent
  after any cooldown, the recorded successes are in order and in the past, and three recent ones
  always come with the cooldown of the last.
\<close>

definition churnOk :: "ChurnHistory \<Rightarrow> int \<Rightarrow> bool" where
  "churnOk churn now \<longleftrightarrow>
     sorted (successAtMs churn) \<and> (\<forall>t \<in> set (successAtMs churn). t \<le> now) \<and>
     (length (successAtMs churn) \<ge> CHURN_LIMIT \<longrightarrow>
        cooldownUntilMs churn = Some (last (successAtMs churn) + CHURN_COOLDOWN_MS))"

definition rerouteOk :: "RerouteSession \<Rightarrow> bool" where
  "rerouteOk s \<longleftrightarrow>
     rerouteAttempts (rerouteRuntime s) \<le> MAX_CONSECUTIVE_REROUTE_FAILURES \<and>
     (inFlight s \<longrightarrow> rerouteAttempts (rerouteRuntime s) < MAX_CONSECUTIVE_REROUTE_FAILURES \<and>
        rerouteRequestId (rerouteRuntime s) \<noteq> None \<and>
        \<not> before (clock s) (cooldownUntilMs (churnHistory s))) \<and>
     churnOk (churnHistory s) (clock s)"

lemma churnOk_later: "churnOk churn now \<Longrightarrow> now \<le> now' \<Longrightarrow> churnOk churn now'"
  by (fastforce simp: churnOk_def)

lemma churnOk_recordSuccess:
  assumes "churnOk churn now" and "now \<le> now'"
  shows "churnOk (recordSuccess churn now') now'"
proof -
  let ?all = "successAtMs churn @ [now']"
  let ?recent = "filter (\<lambda>at. now' - at \<le> CHURN_WINDOW_MS) ?all"
  have "sorted ?all" using assms by (auto simp: churnOk_def sorted_append)
  then have "sorted ?recent" by (rule sorted_filter [of id, simplified])
  moreover have "last ?recent = now'" by (simp add: CHURN_WINDOW_MS_def)
  ultimately show ?thesis
    using assms by (auto simp: churnOk_def recordSuccess_def Let_def CHURN_WINDOW_MS_def)
qed

lemma before_later: "\<not> before now limit \<Longrightarrow> now \<le> now' \<Longrightarrow> \<not> before now' limit"
  by (auto simp: before_def split: option.splits)

lemma canRequest_Allow:
  "canRequestReroute rt churn conn now = Allow \<longleftrightarrow>
     rerouteStatus rt \<noteq> RerouteInFlight \<and> conn \<noteq> NetOffline \<and>
     \<not> before now (cooldownUntilMs churn) \<and> rerouteAttempts rt < MAX_CONSECUTIVE_REROUTE_FAILURES \<and>
     \<not> before now (rerouteNextAtMs rt)"
  by (auto simp: canRequestReroute_def)

interpretation reroute: reducer rerouteStep rerouteAllowed rerouteOk
proof
  fix s e
  assume ok: "rerouteOk s" and allowed: "rerouteAllowed s e"
  then have churn: "churnOk (churnHistory s) (eventTime e)"
    using churnOk_later by (auto simp: rerouteOk_def rerouteAllowed_def)
  show "rerouteOk (rerouteStep s e)"
  proof (cases e)
    case (SendReroute rid conn now)
    with ok allowed churn show ?thesis
      by (auto simp: rerouteOk_def rerouteAllowed_def canRequest_Allow onRerouteRequested_def inFlight_def)
  next
    case (RerouteSuccess now)
    with ok allowed have "churnOk (recordSuccess (churnHistory s) now) now"
      by (auto simp: rerouteOk_def rerouteAllowed_def intro: churnOk_recordSuccess)
    with RerouteSuccess show ?thesis
      by (simp add: rerouteOk_def onRerouteSucceeded_def inFlight_def)
  next
    case (RerouteFailure code now jitterMs)
    with ok allowed churn show ?thesis
      by (auto simp: rerouteOk_def rerouteAllowed_def onRerouteFailed_def inFlight_def Let_def)
  next
    case (RerouteWentOffline now)
    with ok churn show ?thesis
      by (auto simp: rerouteOk_def onRerouteOffline_def inFlight_def)
  next
    case (BackOnRoute now)
    with ok churn show ?thesis
      by (auto simp: rerouteOk_def onBackOnRoute_def onRerouteSucceeded_def inFlight_def)
  qed
qed

lemma retryDelay_bounds:
  assumes "0 \<le> jitterMs" and "jitterMs \<le> RETRY_JITTER_MS"
  shows "3000 \<le> retryDelayMs tries jitterMs \<and> retryDelayMs tries jitterMs \<le> 31000"
proof -
  have delays: "3000 \<le> REROUTE_RETRY_DELAYS_MS ! k \<and> REROUTE_RETRY_DELAYS_MS ! k \<le> 30000" if "k < 5" for k
    using that by (auto simp: REROUTE_RETRY_DELAYS_MS_def numeral_eq_Suc less_Suc_eq)
  have "min (max tries 1) (length REROUTE_RETRY_DELAYS_MS) - 1 < 5"
    by (simp add: REROUTE_RETRY_DELAYS_MS_def)
  from delays [OF this] show ?thesis
    using assms by (auto simp: retryDelayMs_def Let_def RETRY_JITTER_MS_def)
qed

section \<open>Properties\<close>

text \<open>
  Restraint in every run the session allows: a request is sent only when none is open, after
  fewer than five failures in a row, and not within thirty seconds of the last success once three
  successes fell into the two-minute window.
\<close>

theorem reroute_restrained:
  assumes "reaches rerouteStep rerouteAllowed freshReroute s"
    and "rerouteAllowed s (SendReroute rid conn now)"
  shows "\<not> inFlight s \<and> conn \<noteq> NetOffline \<and> rerouteAttempts (rerouteRuntime s) < 5 \<and>
    (length (successAtMs (churnHistory s)) \<ge> 3 \<longrightarrow>
       last (successAtMs (churnHistory s)) + 30000 \<le> now)"
proof -
  have "rerouteOk freshReroute"
    by (simp add: rerouteOk_def freshReroute_def onRerouteSucceeded_def inFlight_def churnOk_def
        EMPTY_CHURN_def CHURN_LIMIT_def)
  with assms(1) have "rerouteOk s" by (rule reroute.reaches_inv)
  with assms(2) show ?thesis
    by (auto simp: rerouteOk_def churnOk_def rerouteAllowed_def canRequest_Allow inFlight_def before_def
        CHURN_LIMIT_def CHURN_COOLDOWN_MS_def MAX_CONSECUTIVE_REROUTE_FAILURES_def REROUTE_RETRY_DELAYS_MS_def)
qed

theorem reroute_restrained_witness:
  "rerouteAllowed freshReroute (SendReroute ''a'' NetOnline 0) \<and> \<not> inFlight freshReroute"
proof -
  have ok: "rerouteAllowed freshReroute (SendReroute ''a'' NetOnline 0)"
    by (simp add: rerouteAllowed_def canRequest_Allow freshReroute_def onRerouteSucceeded_def before_def
        EMPTY_CHURN_def MAX_CONSECUTIVE_REROUTE_FAILURES_def REROUTE_RETRY_DELAYS_MS_def)
  from reroute_restrained [OF reaches.here ok] ok show ?thesis by blast
qed

text \<open>
  Backoff after a failure: the delay is between 3 and 31 seconds, the next request is refused
  until it has passed, and the fifth failure in a row stops requests altogether.
\<close>

theorem reroute_backoff:
  assumes "0 \<le> jitterMs" and "jitterMs \<le> RETRY_JITTER_MS"
  shows "\<exists>n. rerouteNextAtMs (onRerouteFailed rt code now jitterMs) = Some n \<and>
      now + 3000 \<le> n \<and> n \<le> now + 31000 \<and>
      (\<forall>churn conn t. t < n \<or> rerouteAttempts rt \<ge> 4 \<longrightarrow>
         canRequestReroute (onRerouteFailed rt code now jitterMs) churn conn t \<noteq> Allow)"
  using retryDelay_bounds [OF assms]
  by (auto simp: onRerouteFailed_def Let_def canRequest_Allow before_def
      MAX_CONSECUTIVE_REROUTE_FAILURES_def REROUTE_RETRY_DELAYS_MS_def)

theorem reroute_backoff_witness:
  "canRequestReroute (onRerouteFailed onRerouteSucceeded ''network'' 0 500) EMPTY_CHURN NetOnline 2999 \<noteq> Allow"
proof -
  have j: "(0 :: int) \<le> 500" "500 \<le> RETRY_JITTER_MS" by (simp_all add: RETRY_JITTER_MS_def)
  obtain n where "0 + 3000 \<le> n" "\<forall>churn conn t. t < n \<or> rerouteAttempts onRerouteSucceeded \<ge> 4 \<longrightarrow>
         canRequestReroute (onRerouteFailed onRerouteSucceeded ''network'' 0 500) churn conn t \<noteq> Allow"
    using reroute_backoff [OF j, of onRerouteSucceeded "''network''" 0] by blast
  then show ?thesis by simp
qed

end
