(* ===== verification/Activation.thy ===== *)
theory Activation
  imports Reducer
begin

text \<open>
  \<open>packages/integration-framework/src/activation-transaction.ts\<close>: the scope in which an integration
  registers what has to be switched on, and how it is undone. A callback acts on a world and may
  throw; it does not call the scope. The mutable fields of the closure are a record, and every
  method returns the new scope, the new world and its result.
\<close>

section \<open>The scope\<close>

type_synonym ('w, 'e) callback = "'w \<Rightarrow> 'w \<times> 'e option"

record ('w, 'e) ActivationTransaction =
  txActivate :: "('w, 'e) callback"
  txRollback :: "('w, 'e) callback option"
  txActivated :: bool
  txRolledBack :: bool

record ('w, 'e) ActivationScope =
  transactions :: "('w, 'e) ActivationTransaction list"
  scopeCompleted :: bool
  scopeRolledBack :: bool
  activateOnRegister :: bool

datatype 'e ScopeError = ScopeClosed | StagedCallbacks | Thrown 'e

type_synonym ('w, 'e) scopeResult = "('w, 'e) ActivationScope \<times> 'w \<times> 'e ScopeError option"

definition createActivationTransactionScope :: "bool \<Rightarrow> ('w, 'e) ActivationScope" where
  "createActivationTransactionScope onRegister =
     \<lparr>transactions = [], scopeCompleted = False, scopeRolledBack = False, activateOnRegister = onRegister\<rparr>"

definition scopeClosed :: "('w, 'e) ActivationScope \<Rightarrow> bool" where
  "scopeClosed scope \<longleftrightarrow> scopeCompleted scope \<or> scopeRolledBack scope"

definition activateTransaction ::
  "('w, 'e) ActivationTransaction \<Rightarrow> 'w \<Rightarrow> ('w, 'e) ActivationTransaction \<times> 'w \<times> 'e option"
where
  "activateTransaction tx w =
     (if txActivated tx then (tx, w, None)
      else case txActivate tx w of (w', e) \<Rightarrow> (tx\<lparr>txActivated := True\<rparr>, w', e))"

definition register ::
  "('w, 'e) callback \<Rightarrow> ('w, 'e) callback option \<Rightarrow> ('w, 'e) ActivationScope \<Rightarrow> 'w \<Rightarrow> ('w, 'e) scopeResult"
where
  "register activate rollback scope w =
     (if scopeClosed scope then (scope, w, Some ScopeClosed)
      else
        let tx = \<lparr>txActivate = activate, txRollback = rollback, txActivated = False, txRolledBack = False\<rparr>
        in if activateOnRegister scope
           then (case activateTransaction tx w of
                   (tx', w', e) \<Rightarrow>
                     (scope\<lparr>transactions := transactions scope @ [tx']\<rparr>, w', map_option Thrown e))
           else (scope\<lparr>transactions := transactions scope @ [tx]\<rparr>, w, None))"

fun activateAll ::
  "('w, 'e) ActivationTransaction list \<Rightarrow> 'w \<Rightarrow> ('w, 'e) ActivationTransaction list \<times> 'w \<times> 'e option"
where
  "activateAll [] w = ([], w, None)"
| "activateAll (tx # txs) w =
     (case activateTransaction tx w of
        (tx', w', Some e) \<Rightarrow> (tx' # txs, w', Some e)
      | (tx', w', None) \<Rightarrow>
          (case activateAll txs w' of (txs', w'', e) \<Rightarrow> (tx' # txs', w'', e)))"

definition activateScope :: "('w, 'e) ActivationScope \<Rightarrow> 'w \<Rightarrow> ('w, 'e) scopeResult" where
  "activateScope scope w =
     (if scopeClosed scope then (scope, w, Some ScopeClosed)
      else case activateAll (transactions scope) w of
             (txs, w', e) \<Rightarrow> (scope\<lparr>transactions := txs\<rparr>, w', map_option Thrown e))"

text \<open>The loop runs from the last transaction to the first, so the list is taken in reverse.\<close>

fun rollbackAll ::
  "('w, 'e) ActivationTransaction list \<Rightarrow> 'w \<Rightarrow> ('w, 'e) ActivationTransaction list \<times> 'w \<times> 'e list"
where
  "rollbackAll [] w = ([], w, [])"
| "rollbackAll (tx # txs) w =
     (case (txRolledBack tx, txRollback tx) of
        (False, Some undo) \<Rightarrow>
          (case undo w of
             (w1, e) \<Rightarrow>
               (case rollbackAll txs w1 of
                  (txs', w', es) \<Rightarrow>
                    (tx\<lparr>txRolledBack := True\<rparr> # txs', w', (case e of None \<Rightarrow> es | Some x \<Rightarrow> x # es))))
      | _ \<Rightarrow> (case rollbackAll txs w of (txs', w', es) \<Rightarrow> (tx # txs', w', es)))"

definition rollbackScope ::
  "('w, 'e) ActivationScope \<Rightarrow> 'w \<Rightarrow> ('w, 'e) ActivationScope \<times> 'w \<times> 'e list"
where
  "rollbackScope scope w =
     (if scopeClosed scope then (scope, w, [])
      else case rollbackAll (rev (transactions scope)) w of
             (txs, w', es) \<Rightarrow> (scope\<lparr>scopeRolledBack := True, transactions := rev txs\<rparr>, w', es))"

definition completeScope :: "('w, 'e) ActivationScope \<Rightarrow> ('w, 'e) ActivationScope \<times> 'e ScopeError option" where
  "completeScope scope =
     (if scopeRolledBack scope then (scope, Some ScopeClosed)
      else if list_ex (\<lambda>tx. \<not> txActivated tx) (transactions scope) then (scope, Some StagedCallbacks)
      else (scope\<lparr>scopeCompleted := True\<rparr>, None))"

definition runImmediateActivation ::
  "('w, 'e) callback \<Rightarrow> ('w, 'e) callback option \<Rightarrow> 'w \<Rightarrow> 'w \<times> 'e ScopeError option"
where
  "runImmediateActivation activate rollback w =
     (case register activate rollback (createActivationTransactionScope True) w of
        (scope, w1, Some e) \<Rightarrow> (case rollbackScope scope w1 of (_, w2, _) \<Rightarrow> (w2, Some e))
      | (scope, w1, None) \<Rightarrow>
          (case completeScope scope of
             (_, None) \<Rightarrow> (w1, None)
           | (scope', Some e) \<Rightarrow> (case rollbackScope scope' w1 of (_, w2, _) \<Rightarrow> (w2, Some e))))"

section \<open>Rolling back\<close>

text \<open>Running callbacks one after the other, whatever they throw.\<close>

fun runEach :: "('w, 'e) callback list \<Rightarrow> 'w \<Rightarrow> 'w \<times> 'e list" where
  "runEach [] w = (w, [])"
| "runEach (f # fs) w =
     (case f w of (w1, e) \<Rightarrow> (case runEach fs w1 of (w2, es) \<Rightarrow> (w2, (case e of None \<Rightarrow> es | Some x \<Rightarrow> x # es))))"

lemma rollbackAll_runEach:
  assumes "list_all (\<lambda>tx. \<not> txRolledBack tx) txs"
  shows "snd (rollbackAll txs w) = runEach (List.map_filter txRollback txs) w"
  using assms
proof (induction txs arbitrary: w)
  case (Cons tx txs)
  then show ?case by (cases "txRollback tx") (simp_all add: map_filter_simps case_prod_beta)
qed (simp add: map_filter_simps)

section \<open>Runs\<close>

datatype ('w, 'e) scopeEvent =
    Register "('w, 'e) callback" "('w, 'e) callback option"
  | ActivateEvent
  | RollbackEvent
  | CompleteEvent

type_synonym ('w, 'e) scopeState = "('w, 'e) ActivationScope \<times> 'w"

fun scopeStep :: "('w, 'e) scopeState \<Rightarrow> ('w, 'e) scopeEvent \<Rightarrow> ('w, 'e) scopeState" where
  "scopeStep (scope, w) (Register activate rollback) =
     (case register activate rollback scope w of (scope', w', _) \<Rightarrow> (scope', w'))"
| "scopeStep (scope, w) ActivateEvent = (case activateScope scope w of (scope', w', _) \<Rightarrow> (scope', w'))"
| "scopeStep (scope, w) RollbackEvent = (case rollbackScope scope w of (scope', w', _) \<Rightarrow> (scope', w'))"
| "scopeStep (scope, w) CompleteEvent = (fst (completeScope scope), w)"

definition scopeOk :: "('w, 'e) scopeState \<Rightarrow> bool" where
  "scopeOk s \<longleftrightarrow>
     (\<not> scopeRolledBack (fst s) \<longrightarrow> list_all (\<lambda>tx. \<not> txRolledBack tx) (transactions (fst s))) \<and>
     (scopeCompleted (fst s) \<longrightarrow>
        \<not> scopeRolledBack (fst s) \<and> list_all txActivated (transactions (fst s)))"

lemma activateTransaction_flags:
  "txRolledBack (fst (activateTransaction tx w)) = txRolledBack tx" "txActivated (fst (activateTransaction tx w))"
  by (simp_all add: activateTransaction_def case_prod_beta)

lemma activateAll_rolledBack:
  "map txRolledBack (fst (activateAll txs w)) = map txRolledBack txs"
  by (induction txs arbitrary: w) (simp_all add: activateTransaction_flags case_prod_beta split: option.splits)

lemma activateAll_none:
  "list_all (\<lambda>tx. \<not> txRolledBack tx) (fst (activateAll txs w)) \<longleftrightarrow> list_all (\<lambda>tx. \<not> txRolledBack tx) txs"
proof -
  have "list_all (\<lambda>tx. \<not> txRolledBack tx) xs \<longleftrightarrow> True \<notin> set (map txRolledBack xs)"
    for xs :: "('a, 'b) ActivationTransaction list"
    by (auto simp: list_all_iff)
  then show ?thesis by (simp only: activateAll_rolledBack)
qed

interpretation activation: reducer scopeStep always scopeOk
proof
  fix s :: "('w, 'e) scopeState" and e
  assume ok: "scopeOk s"
  obtain scope w where s: "s = (scope, w)" by (cases s)
  show "scopeOk (scopeStep s e)"
  proof (cases e)
    case (Register activate rollback)
    with ok s show ?thesis
      by (auto simp: scopeOk_def register_def scopeClosed_def Let_def case_prod_beta activateTransaction_flags)
  next
    case ActivateEvent
    with ok s show ?thesis
      by (simp add: scopeOk_def activateScope_def scopeClosed_def case_prod_beta activateAll_none)
  next
    case RollbackEvent
    with ok s show ?thesis by (auto simp: scopeOk_def rollbackScope_def scopeClosed_def case_prod_beta)
  next
    case CompleteEvent
    with ok s show ?thesis by (auto simp: scopeOk_def completeScope_def list_ex_iff list_all_iff)
  qed
qed

text \<open>A closed scope touches the world no more.\<close>

interpretation closed: absorbing_reducer scopeStep always "\<lambda>s. scopeClosed (fst s) \<and> snd s = w"
  for w :: 'w
proof
  fix s :: "('w, 'e) scopeState" and e
  assume closed: "scopeClosed (fst s) \<and> snd s = w"
  obtain scope v where s: "s = (scope, v)" by (cases s)
  with closed show "scopeClosed (fst (scopeStep s e)) \<and> snd (scopeStep s e) = w"
    by (cases e) (auto simp: register_def activateScope_def rollbackScope_def completeScope_def scopeClosed_def)
qed

section \<open>Properties\<close>

text \<open>
  Rolling back: whatever was done with a scope before, while it is open \<open>rollback\<close> runs every
  registered rollback exactly once, the last registered first, goes on when one throws and reports
  what was thrown in that order; and afterwards no call to the scope runs a callback again.
\<close>

theorem rollback_reverse_once:
  assumes "reaches scopeStep always (createActivationTransactionScope onRegister, w0) (scope, w)"
    and "\<not> scopeClosed scope"
  shows "snd (rollbackScope scope w) = runEach (List.map_filter txRollback (rev (transactions scope))) w \<and>
         (\<forall>s. reaches scopeStep always (scopeStep (scope, w) RollbackEvent) s \<longrightarrow>
            scopeClosed (fst s) \<and> snd s = fst (snd (rollbackScope scope w)))"
proof
  have "scopeOk (scope, w)"
    using activation.reaches_inv [OF assms(1)]
    by (simp add: scopeOk_def createActivationTransactionScope_def)
  with assms(2) have "list_all (\<lambda>tx. \<not> txRolledBack tx) (rev (transactions scope))"
    by (simp add: scopeOk_def scopeClosed_def list_all_iff)
  from rollbackAll_runEach [OF this] assms(2)
  show "snd (rollbackScope scope w) = runEach (List.map_filter txRollback (rev (transactions scope))) w"
    by (simp add: rollbackScope_def case_prod_beta)
  have "scopeClosed (fst (scopeStep (scope, w) RollbackEvent)) \<and>
      snd (scopeStep (scope, w) RollbackEvent) = fst (snd (rollbackScope scope w))"
    using assms(2) by (simp add: rollbackScope_def case_prod_beta scopeClosed_def)
  from closed.absorbed [OF this]
  show "\<forall>s. reaches scopeStep always (scopeStep (scope, w) RollbackEvent) s \<longrightarrow>
      scopeClosed (fst s) \<and> snd s = fst (snd (rollbackScope scope w))"
    by (intro allI impI)
qed

theorem rollback_reverse_once_witness:
  "let undo = (\<lambda>n. \<lambda>w. (w @ [n], Some n)); on = (\<lambda>w. (w, None));
       s0 = (createActivationTransactionScope False :: (nat list, nat) ActivationScope, [] :: nat list);
       s2 = scopeStep (scopeStep s0 (Register on (Some (undo 1)))) (Register on (Some (undo (2 :: nat))))
   in \<not> scopeClosed (fst s2) \<and> snd (rollbackScope (fst s2) (snd s2)) = ([2, 1], [2, 1])"
proof -
  define undo where "undo = (\<lambda>n :: nat. \<lambda>w. (w @ [n], Some n))"
  define on where "on = (\<lambda>w :: nat list. (w, None :: nat option))"
  define s0 where "s0 = (createActivationTransactionScope False :: (nat list, nat) ActivationScope, [] :: nat list)"
  define s2 where "s2 = scopeStep (scopeStep s0 (Register on (Some (undo 1)))) (Register on (Some (undo 2)))"
  have run: "reaches scopeStep always (createActivationTransactionScope False, []) (fst s2, snd s2)"
    unfolding s2_def s0_def prod.collapse by (intro reaches.intros TrueI)
  have opened: "\<not> scopeClosed (fst s2)"
    by (simp add: s2_def s0_def register_def scopeClosed_def createActivationTransactionScope_def)
  have "snd (rollbackScope (fst s2) (snd s2)) =
      runEach (List.map_filter txRollback (rev (transactions (fst s2)))) (snd s2)"
    by (rule rollback_reverse_once [OF run opened, THEN conjunct1])
  also have "\<dots> = ([2, 1], [2, 1])"
    by (simp add: s2_def s0_def register_def scopeClosed_def createActivationTransactionScope_def map_filter_simps undo_def)
  finally show ?thesis
    using opened by (simp add: Let_def s2_def s0_def undo_def on_def)
qed

text \<open>
  Immediate activation is all or nothing: when the activation throws, its rollback runs on the
  world the activation left and the error is thrown on; otherwise the activation is all that runs.
\<close>

theorem immediate_activation_atomic:
  "runImmediateActivation activate rollback w =
     (case activate w of
        (w1, None) \<Rightarrow> (w1, None)
      | (w1, Some e) \<Rightarrow> (case rollback of None \<Rightarrow> w1 | Some undo \<Rightarrow> fst (undo w1), Some (Thrown e)))"
proof -
  obtain w1 e where act: "activate w = (w1, e)" by (cases "activate w")
  define scope where "scope = \<lparr>transactions =
      [\<lparr>txActivate = activate, txRollback = rollback, txActivated = True, txRolledBack = False\<rparr>],
    scopeCompleted = False, scopeRolledBack = False, activateOnRegister = True\<rparr>"
  have reg: "register activate rollback (createActivationTransactionScope True) w = (scope, w1, map_option Thrown e)"
    using act by (simp add: scope_def register_def createActivationTransactionScope_def scopeClosed_def
      activateTransaction_def)
  obtain done' where com: "completeScope scope = (done', None)"
    by (simp add: scope_def completeScope_def)
  obtain closed' es where undo:
    "rollbackScope scope w1 = (closed', case rollback of None \<Rightarrow> w1 | Some undo \<Rightarrow> fst (undo w1), es)"
    by (cases rollback; cases "the rollback w1") (auto simp: scope_def rollbackScope_def scopeClosed_def)
  from act reg com undo show ?thesis
    by (cases e) (simp_all add: runImmediateActivation_def)
qed

end
