(* ===== verification/Retention_Clock.thy ===== *)
theory Retention_Clock
  imports Reducer
begin

text \<open>
  \<open>packages/core/src/build-artifacts/retention-clock.ts\<close>: the durable clock that keeps expired
  control operations from being executed again. The private directory is a record of the entries
  the code touches; an operation yields its result together with the sequence of directory
  states it passes through, so that a crash is a prefix of that sequence. \<open>write\<close> publishes by
  renaming a finished file and is one state; an exclusive \<open>write\<close> creates the file first and
  fills it afterwards. Signing and verifying are fields of the host, as is the digest, and a signed
  file is the envelope of payload and signature; anything else is unreadable. Files are padded to
  the size limit of \<open>read\<close>, which no clock reaches.
\<close>

section \<open>The clock and the directory\<close>

datatype ControlRole = OpsAgent | DataManager | HostCli

record Clock =
  clockInstallationId :: string
  clockRole :: ControlRole
  clockSequence :: int
  lastRetirementWallTime :: int
  rejectNotAfterThrough :: int

datatype 'sig clockFile = Unreadable | Envelope Clock 'sig

record 'sig privateRoot =
  writerLock :: bool
  clockEntry :: "'sig clockFile option"
  highwaterEntry :: "'sig clockFile option"
  cursorEntry :: bool
  slotEntry :: bool
  otherEntries :: bool

record ('sig, 'd) ClockHost =
  installationId :: string
  installationRole :: ControlRole
  signDomain :: "string \<Rightarrow> Clock \<Rightarrow> 'sig"
  verifyDomain :: "string \<Rightarrow> Clock \<Rightarrow> 'sig \<Rightarrow> bool"
  clockDigest :: "Clock \<Rightarrow> 'd"
  isUuid :: "string \<Rightarrow> bool"

datatype ClockError =
    LockHeld
  | EntryExists
  | ClockMissing
  | ClockRollback
  | WallClockBackward
  | ExpiredOrigin
  | RetirementPrerequisite
  | SchemaViolation

definition CLOCK_DOMAIN :: string where
  "CLOCK_DOMAIN = ''openmapx-retention-clock-v1''"

definition safeInteger :: "int \<Rightarrow> bool" where
  "safeInteger n \<longleftrightarrow> 0 \<le> n \<and> n \<le> 2 ^ 53 - 1"

definition clockSchema :: "('sig, 'd) ClockHost \<Rightarrow> Clock \<Rightarrow> bool" where
  "clockSchema host c \<longleftrightarrow>
     isUuid host (clockInstallationId c) \<and> safeInteger (clockSequence c) \<and>
     safeInteger (lastRetirementWallTime c) \<and> safeInteger (rejectNotAfterThrough c)"

section \<open>Operations\<close>

type_synonym ('r, 'sig) run = "(ClockError + 'r) \<times> 'sig privateRoot list"

definition finalRoot :: "'sig privateRoot \<Rightarrow> 'sig privateRoot list \<Rightarrow> 'sig privateRoot" where
  "finalRoot root states = last (root # states)"

text \<open>\<open>mkdirSync\<close> throws when the lock exists; the \<open>finally\<close> block removes it.\<close>

definition writer ::
  "('sig privateRoot \<Rightarrow> ('r, 'sig) run) \<Rightarrow> 'sig privateRoot \<Rightarrow> ('r, 'sig) run"
where
  "writer run root =
     (if writerLock root then (Inl LockHeld, [])
      else
        let locked = root\<lparr>writerLock := True\<rparr>;
            (r, states) = run locked
        in (r, locked # states @ [(finalRoot locked states)\<lparr>writerLock := False\<rparr>]))"

definition verifyControl :: "('sig, 'd) ClockHost \<Rightarrow> 'sig clockFile option \<Rightarrow> Clock option" where
  "verifyControl host file =
     (case file of
        Some (Envelope payload signature) \<Rightarrow>
          if clockSchema host payload \<and> verifyDomain host CLOCK_DOMAIN payload signature
          then Some payload else None
      | _ \<Rightarrow> None)"

definition signControl :: "('sig, 'd) ClockHost \<Rightarrow> Clock \<Rightarrow> 'sig clockFile" where
  "signControl host payload = Envelope payload (signDomain host CLOCK_DOMAIN payload)"

definition readClock :: "('sig, 'd) ClockHost \<Rightarrow> 'sig privateRoot \<Rightarrow> ClockError + Clock" where
  "readClock host root =
     (case (verifyControl host (clockEntry root), verifyControl host (highwaterEntry root)) of
        (Some current, Some prior) \<Rightarrow>
          if clockInstallationId current \<noteq> installationId host \<or>
             clockRole current \<noteq> installationRole host \<or>
             clockSequence current < clockSequence prior \<or>
             rejectNotAfterThrough current < rejectNotAfterThrough prior \<or>
             lastRetirementWallTime current < lastRetirementWallTime prior \<or>
             (clockSequence current = clockSequence prior \<and>
              clockDigest host current \<noteq> clockDigest host prior)
          then Inl ClockRollback
          else Inr current
      | _ \<Rightarrow> Inl ClockMissing)"

definition hasEntries :: "'sig privateRoot \<Rightarrow> bool" where
  "hasEntries root \<longleftrightarrow>
     writerLock root \<or> clockEntry root \<noteq> None \<or> highwaterEntry root \<noteq> None \<or>
     cursorEntry root \<or> slotEntry root \<or> otherEntries root"

definition bootstrapRetentionClock ::
  "('sig, 'd) ClockHost \<Rightarrow> 'sig privateRoot \<Rightarrow> (unit, 'sig) run"
where
  "bootstrapRetentionClock host root =
     (if hasEntries root then (Inr (), [])
      else writer (\<lambda>locked.
        let payload = \<lparr>clockInstallationId = installationId host, clockRole = installationRole host,
                       clockSequence = 0, lastRetirementWallTime = 0, rejectNotAfterThrough = 0\<rparr>;
            file = signControl host payload;
            r1 = locked\<lparr>clockEntry := Some Unreadable\<rparr>;
            r2 = r1\<lparr>clockEntry := Some file\<rparr>;
            r3 = r2\<lparr>highwaterEntry := Some Unreadable\<rparr>;
            r4 = r3\<lparr>highwaterEntry := Some file\<rparr>;
            r5 = r4\<lparr>cursorEntry := True\<rparr>;
            r6 = r5\<lparr>slotEntry := True\<rparr>
        in (Inr (), [r1, r2, r3, r4, r5, r6])) root)"

definition assertOriginClockForward ::
  "('sig, 'd) ClockHost \<Rightarrow> int \<Rightarrow> int \<Rightarrow> 'sig privateRoot \<Rightarrow> (unit, 'sig) run"
where
  "assertOriginClockForward host originNotAfter now root =
     writer (\<lambda>locked.
       (case readClock host locked of
          Inl e \<Rightarrow> Inl e
        | Inr clock \<Rightarrow>
            if now < lastRetirementWallTime clock then Inl WallClockBackward
            else if originNotAfter \<le> rejectNotAfterThrough clock \<or> now \<ge> originNotAfter
            then Inl ExpiredOrigin
            else Inr (), [])) root"

definition advanced :: "int \<Rightarrow> int \<Rightarrow> Clock \<Rightarrow> Clock" where
  "advanced notAfter now prior =
     prior\<lparr>clockSequence := clockSequence prior + 1,
           lastRetirementWallTime := max now (lastRetirementWallTime prior),
           rejectNotAfterThrough := max notAfter (rejectNotAfterThrough prior)\<rparr>"

definition advanceLocked ::
  "('sig, 'd) ClockHost \<Rightarrow> int \<Rightarrow> int \<Rightarrow> 'sig privateRoot \<Rightarrow> (Clock, 'sig) run"
where
  "advanceLocked host notAfter now locked =
     (case readClock host locked of
        Inl e \<Rightarrow> (Inl e, [])
      | Inr prior \<Rightarrow>
          if now < lastRetirementWallTime prior \<or> now < notAfter
          then (Inl RetirementPrerequisite, [])
          else
            let current = advanced notAfter now prior
            in if \<not> clockSchema host current then (Inl SchemaViolation, [])
               else
                 let file = signControl host current;
                     r1 = locked\<lparr>highwaterEntry := Some file\<rparr>;
                     r2 = r1\<lparr>clockEntry := Some file\<rparr>
                 in (Inr current, [r1, r2]))"

definition advanceRetentionClock ::
  "('sig, 'd) ClockHost \<Rightarrow> int \<Rightarrow> int \<Rightarrow> 'sig privateRoot \<Rightarrow> (Clock, 'sig) run"
where
  "advanceRetentionClock host notAfter now = writer (advanceLocked host notAfter now)"

definition readRetentionClock ::
  "('sig, 'd) ClockHost \<Rightarrow> 'sig privateRoot \<Rightarrow> (Clock, 'sig) run"
where
  "readRetentionClock host root = writer (\<lambda>locked. (readClock host locked, [])) root"

section \<open>Runs with crashes\<close>

text \<open>
  What may happen to the directory: an operation finishes, or stops after some of its states; the
  operator removes a left-over lock; the clock file (not the high-water file) is replaced by
  anything, such as an older copy. The wall clock of every call is arbitrary. The ghost value is
  the largest \<open>notAfter\<close> an \<open>advance\<close> reported as retired.
\<close>

datatype 'sig clockEvent =
    Advance int int
  | CrashAdvance int int nat
  | Check int int
  | CrashCheck int int nat
  | Bootstrap
  | CrashBootstrap nat
  | RemoveLock
  | ReplaceClock "'sig clockFile option"

record 'sig clockSystem =
  storeRoot :: "'sig privateRoot"
  retired :: int

definition crashed :: "'sig privateRoot \<Rightarrow> nat \<Rightarrow> 'sig privateRoot list \<Rightarrow> 'sig privateRoot" where
  "crashed r k states = finalRoot r (take k states)"

fun clockStep :: "('sig, 'd) ClockHost \<Rightarrow> 'sig clockSystem \<Rightarrow> 'sig clockEvent \<Rightarrow> 'sig clockSystem" where
  "clockStep host s (Advance notAfter now) =
     (case advanceRetentionClock host notAfter now (storeRoot s) of
        (r, states) \<Rightarrow>
          \<lparr>storeRoot = finalRoot (storeRoot s) states,
           retired = (if isl r then retired s else max notAfter (retired s))\<rparr>)"
| "clockStep host s (CrashAdvance notAfter now k) =
     s\<lparr>storeRoot := crashed (storeRoot s) k (snd (advanceRetentionClock host notAfter now (storeRoot s)))\<rparr>"
| "clockStep host s (Check notAfter now) =
     s\<lparr>storeRoot := finalRoot (storeRoot s) (snd (assertOriginClockForward host notAfter now (storeRoot s)))\<rparr>"
| "clockStep host s (CrashCheck notAfter now k) =
     s\<lparr>storeRoot := crashed (storeRoot s) k (snd (assertOriginClockForward host notAfter now (storeRoot s)))\<rparr>"
| "clockStep host s Bootstrap =
     s\<lparr>storeRoot := finalRoot (storeRoot s) (snd (bootstrapRetentionClock host (storeRoot s)))\<rparr>"
| "clockStep host s (CrashBootstrap k) =
     s\<lparr>storeRoot := crashed (storeRoot s) k (snd (bootstrapRetentionClock host (storeRoot s)))\<rparr>"
| "clockStep host s RemoveLock = s\<lparr>storeRoot := (storeRoot s)\<lparr>writerLock := False\<rparr>\<rparr>"
| "clockStep host s (ReplaceClock file) = s\<lparr>storeRoot := (storeRoot s)\<lparr>clockEntry := file\<rparr>\<rparr>"

section \<open>The barrier\<close>

definition barrierAt :: "int \<Rightarrow> 'sig privateRoot \<Rightarrow> bool" where
  "barrierAt n r \<longleftrightarrow>
     (case highwaterEntry r of Some (Envelope c _) \<Rightarrow> n \<le> rejectNotAfterThrough c | _ \<Rightarrow> n \<le> 0)"

definition barrierOk :: "'sig clockSystem \<Rightarrow> bool" where
  "barrierOk s \<longleftrightarrow> barrierAt (retired s) (storeRoot s)"

lemma barrierAt_highwater: "highwaterEntry r = highwaterEntry r' \<Longrightarrow> barrierAt n r \<longleftrightarrow> barrierAt n r'"
  by (simp add: barrierAt_def)

lemma barrierAt_simps [simp]:
  "barrierAt n (r\<lparr>writerLock := b\<rparr>) \<longleftrightarrow> barrierAt n r"
  "barrierAt n (r\<lparr>clockEntry := f\<rparr>) \<longleftrightarrow> barrierAt n r"
  "barrierAt n (r\<lparr>cursorEntry := b\<rparr>) \<longleftrightarrow> barrierAt n r"
  "barrierAt n (r\<lparr>slotEntry := b\<rparr>) \<longleftrightarrow> barrierAt n r"
  "barrierAt n (r\<lparr>highwaterEntry := Some (Envelope c sg)\<rparr>) \<longleftrightarrow> n \<le> rejectNotAfterThrough c"
  "barrierAt n (r\<lparr>highwaterEntry := Some Unreadable\<rparr>) \<longleftrightarrow> n \<le> 0"
  by (simp_all add: barrierAt_def)

lemma finalRoot_inv: "P r \<Longrightarrow> list_all P states \<Longrightarrow> P (finalRoot r states)"
  by (induction states arbitrary: r) (simp_all add: finalRoot_def)

lemma crashed_inv: "P r \<Longrightarrow> list_all P states \<Longrightarrow> P (crashed r k states)"
  unfolding crashed_def by (rule finalRoot_inv) (auto simp: list_all_iff dest: in_set_takeD)

lemma writer_inv:
  assumes "\<And>r b. P r \<Longrightarrow> P (r\<lparr>writerLock := b\<rparr>)" and "P r"
    and "\<And>locked. P locked \<Longrightarrow> list_all P (snd (run locked))"
  shows "list_all P (snd (writer run r))"
proof -
  let ?locked = "r\<lparr>writerLock := True\<rparr>"
  have "P ?locked" using assms(1,2) .
  moreover from this have "list_all P (snd (run ?locked))" by (rule assms(3))
  ultimately show ?thesis
    using assms(1) finalRoot_inv [of P ?locked "snd (run ?locked)"]
    by (simp add: writer_def Let_def case_prod_beta)
qed

lemma readClock_Inr:
  assumes "readClock host r = Inr c"
  obtains prior where "verifyControl host (clockEntry r) = Some c"
    and "verifyControl host (highwaterEntry r) = Some prior"
    and "rejectNotAfterThrough prior \<le> rejectNotAfterThrough c"
    and "clockSequence prior \<le> clockSequence c"
  using assms by (auto simp: readClock_def split: option.splits if_splits)

lemma readClock_barrier: "readClock host r = Inr c \<Longrightarrow> barrierAt n r \<Longrightarrow> n \<le> rejectNotAfterThrough c"
  by (elim readClock_Inr) (auto simp: verifyControl_def barrierAt_def split: option.splits clockFile.splits if_splits)

lemma advanceLocked_Inr:
  assumes "fst (advanceLocked host notAfter now r) = Inr c"
  shows "\<exists>prior. readClock host r = Inr prior \<and> c = advanced notAfter now prior \<and> clockSchema host c \<and>
    snd (advanceLocked host notAfter now r) =
      [r\<lparr>highwaterEntry := Some (signControl host c)\<rparr>,
       r\<lparr>highwaterEntry := Some (signControl host c), clockEntry := Some (signControl host c)\<rparr>]"
proof (cases "readClock host r")
  case (Inr prior)
  with assms show ?thesis by (auto simp: advanceLocked_def Let_def split: if_splits)
qed (use assms in \<open>simp add: advanceLocked_def\<close>)

lemma advance_barrier: "barrierAt n r \<Longrightarrow> list_all (barrierAt n) (snd (advanceRetentionClock host notAfter now r))"
  unfolding advanceRetentionClock_def
proof (rule writer_inv)
  fix locked :: "'a privateRoot"
  assume locked: "barrierAt n locked"
  show "list_all (barrierAt n) (snd (advanceLocked host notAfter now locked))"
  proof (cases "fst (advanceLocked host notAfter now locked)")
    case (Inl e)
    then have "snd (advanceLocked host notAfter now locked) = []"
      by (auto simp: advanceLocked_def Let_def split: sum.splits if_splits)
    then show ?thesis by simp
  next
    case (Inr c)
    with advanceLocked_Inr [OF Inr] locked show ?thesis
      by (auto simp: signControl_def advanced_def dest: readClock_barrier)
  qed
qed simp_all

lemma check_barrier: "barrierAt n r \<Longrightarrow> list_all (barrierAt n) (snd (assertOriginClockForward host notAfter now r))"
  unfolding assertOriginClockForward_def by (rule writer_inv) auto

lemma bootstrap_barrier: "barrierAt n r \<Longrightarrow> list_all (barrierAt n) (snd (bootstrapRetentionClock host r))"
proof (cases "hasEntries r")
  case False
  assume "barrierAt n r"
  with False have n: "n \<le> 0" by (simp add: barrierAt_def hasEntries_def)
  then have "barrierAt n r'" if "highwaterEntry r' = None" for r' :: "'a privateRoot"
    using that by (simp add: barrierAt_def)
  show ?thesis
    unfolding bootstrapRetentionClock_def
    using False n \<open>barrierAt n r\<close> by (simp, intro writer_inv) (auto simp: Let_def signControl_def)
qed (simp add: bootstrapRetentionClock_def)

lemma writer_Inr:
  assumes "fst (writer run r) = Inr x"
  shows "\<not> writerLock r \<and> fst (run (r\<lparr>writerLock := True\<rparr>)) = Inr x \<and>
         snd (writer run r) = r\<lparr>writerLock := True\<rparr> # snd (run (r\<lparr>writerLock := True\<rparr>)) @
           [(finalRoot (r\<lparr>writerLock := True\<rparr>) (snd (run (r\<lparr>writerLock := True\<rparr>))))\<lparr>writerLock := False\<rparr>]"
  using assms by (auto simp: writer_def Let_def case_prod_beta split: if_splits)

lemma readClock_lock [simp]: "readClock host (r\<lparr>writerLock := b\<rparr>) = readClock host r"
  by (simp add: readClock_def)

text \<open>A successful call to \<open>advance\<close>, with the states it passes through.\<close>

lemma advance_Inr:
  assumes "fst (advanceRetentionClock host notAfter now r) = Inr c"
  shows "\<exists>prior. readClock host r = Inr prior \<and> c = advanced notAfter now prior \<and> clockSchema host c \<and>
    snd (advanceRetentionClock host notAfter now r) =
      [r\<lparr>writerLock := True\<rparr>,
       r\<lparr>writerLock := True, highwaterEntry := Some (signControl host c)\<rparr>,
       r\<lparr>writerLock := True, highwaterEntry := Some (signControl host c), clockEntry := Some (signControl host c)\<rparr>,
       r\<lparr>highwaterEntry := Some (signControl host c), clockEntry := Some (signControl host c), writerLock := False\<rparr>]"
proof -
  let ?locked = "r\<lparr>writerLock := True\<rparr>"
  from writer_Inr [OF assms [unfolded advanceRetentionClock_def]]
  have run: "fst (advanceLocked host notAfter now ?locked) = Inr c"
    and states: "snd (advanceRetentionClock host notAfter now r) =
      ?locked # snd (advanceLocked host notAfter now ?locked) @
        [(finalRoot ?locked (snd (advanceLocked host notAfter now ?locked)))\<lparr>writerLock := False\<rparr>]"
    by (simp_all add: advanceRetentionClock_def)
  from advanceLocked_Inr [OF run] states show ?thesis by (auto simp: finalRoot_def)
qed

interpretation clock: reducer "clockStep host" always barrierOk
  for host :: "('sig, 'd) ClockHost"
proof
  fix s :: "'sig clockSystem" and e
  assume "barrierOk s"
  then have ok: "barrierAt (retired s) (storeRoot s)" by (simp add: barrierOk_def)
  show "barrierOk (clockStep host s e)"
  proof (cases e)
    case (Advance notAfter now)
    let ?run = "advanceRetentionClock host notAfter now (storeRoot s)"
    show ?thesis
    proof (cases "fst ?run")
      case (Inl x)
      then show ?thesis
        using Advance finalRoot_inv [OF ok advance_barrier [OF ok]] by (auto simp: barrierOk_def case_prod_beta)
    next
      case (Inr c)
      then show ?thesis
        using Advance ok advance_Inr [OF Inr]
        by (auto simp: barrierOk_def case_prod_beta finalRoot_def signControl_def advanced_def dest: readClock_barrier)
    qed
  next
    case (CrashAdvance notAfter now k)
    with ok show ?thesis by (simp add: barrierOk_def crashed_inv advance_barrier)
  next
    case (Check notAfter now)
    with ok show ?thesis by (simp add: barrierOk_def finalRoot_inv check_barrier)
  next
    case (CrashCheck notAfter now k)
    with ok show ?thesis by (simp add: barrierOk_def crashed_inv check_barrier)
  next
    case Bootstrap
    with ok show ?thesis by (simp add: barrierOk_def finalRoot_inv bootstrap_barrier)
  next
    case (CrashBootstrap k)
    with ok show ?thesis by (simp add: barrierOk_def crashed_inv bootstrap_barrier)
  qed (use ok in \<open>simp_all add: barrierOk_def\<close>)
qed

text \<open>What is retired stays retired.\<close>

interpretation retire: absorbing_reducer "clockStep host" always "\<lambda>s. n \<le> retired s"
  for host :: "('sig, 'd) ClockHost" and n :: int
proof
  fix s :: "'sig clockSystem" and e
  assume "n \<le> retired s"
  then show "n \<le> retired (clockStep host s e)" by (cases e) (auto simp: case_prod_beta)
qed

section \<open>Properties\<close>

definition freshClockSystem :: "'sig clockSystem" where
  "freshClockSystem =
     \<lparr>storeRoot = \<lparr>writerLock = False, clockEntry = None, highwaterEntry = None, cursorEntry = False,
             slotEntry = False, otherEntries = False\<rparr>, retired = 0\<rparr>"

lemma check_Inr:
  assumes "fst (assertOriginClockForward host n now r) = Inr ()"
  obtains c where "readClock host r = Inr c" and "rejectNotAfterThrough c < n" and "now < n"
  using writer_Inr [OF assms [unfolded assertOriginClockForward_def]] that
  by (auto split: sum.splits if_splits)

text \<open>
  C7. The retention barrier: once \<open>advanceRetentionClock\<close> has reported an expiry as retired, no
  later check accepts an operation that expires at or before it, whatever happens in between:
  crashes at any point of any operation, removal of a left-over lock, a replaced clock file,
  further operations and any wall clock.
\<close>

theorem retention_barrier:
  assumes "reaches (clockStep host) always freshClockSystem s1"
    and "fst (advanceRetentionClock host notAfter t (storeRoot s1)) = Inr c"
    and "reaches (clockStep host) always (clockStep host s1 (Advance notAfter t)) s2"
    and "n \<le> notAfter"
  shows "fst (assertOriginClockForward host n now (storeRoot s2)) \<noteq> Inr ()"
proof
  assume "fst (assertOriginClockForward host n now (storeRoot s2)) = Inr ()"
  then obtain c2 where c2: "readClock host (storeRoot s2) = Inr c2" "rejectNotAfterThrough c2 < n"
    by (rule check_Inr)
  have "barrierOk freshClockSystem" by (simp add: barrierOk_def barrierAt_def freshClockSystem_def)
  with assms(1) have "barrierOk s1" by (rule clock.reaches_inv)
  then have "barrierOk s2" using clock.keep assms(3) clock.reaches_inv by blast
  moreover have "notAfter \<le> retired s2"
    using assms(2) retire.absorbed [OF _ assms(3)] by (simp add: case_prod_beta)
  ultimately have "barrierAt notAfter (storeRoot s2)"
    by (auto simp: barrierOk_def barrierAt_def split: option.splits clockFile.splits)
  with c2 assms(4) show False using readClock_barrier by force
qed

definition goodSigning :: "('sig, 'd) ClockHost \<Rightarrow> bool" where
  "goodSigning host \<longleftrightarrow> (\<forall>d c. verifyDomain host d c (signDomain host d c))"

definition zeroClock :: "('sig, 'd) ClockHost \<Rightarrow> Clock" where
  "zeroClock host = \<lparr>clockInstallationId = installationId host, clockRole = installationRole host,
     clockSequence = 0, lastRetirementWallTime = 0, rejectNotAfterThrough = 0\<rparr>"

lemma verify_signed: "goodSigning host \<Longrightarrow> clockSchema host c \<Longrightarrow> verifyControl host (Some (signControl host c)) = Some c"
  by (simp add: verifyControl_def signControl_def goodSigning_def)

lemma bootstrap_readable:
  assumes "\<not> hasEntries r" and "goodSigning host" and "isUuid host (installationId host)"
  shows "readClock host (finalRoot r (snd (bootstrapRetentionClock host r))) = Inr (zeroClock host) \<and>
         \<not> writerLock (finalRoot r (snd (bootstrapRetentionClock host r)))"
proof -
  have "clockSchema host (zeroClock host)" using assms(3) by (simp add: clockSchema_def zeroClock_def safeInteger_def)
  with assms show ?thesis
    by (simp add: bootstrapRetentionClock_def writer_def hasEntries_def Let_def finalRoot_def readClock_def
        verify_signed flip: zeroClock_def) (simp add: zeroClock_def)
qed

definition exampleClockHost :: "(unit, Clock) ClockHost" where
  "exampleClockHost =
     \<lparr>installationId = ''i'', installationRole = OpsAgent, signDomain = (\<lambda>_ _. ()),
      verifyDomain = (\<lambda>_ _ _. True), clockDigest = (\<lambda>c. c), isUuid = (\<lambda>_. True)\<rparr>"

definition exampleClock :: "unit clockSystem" where
  "exampleClock = clockStep exampleClockHost freshClockSystem Bootstrap"

lemma exampleClock_read:
  "readClock exampleClockHost (storeRoot exampleClock) = Inr (zeroClock exampleClockHost)" "\<not> writerLock (storeRoot exampleClock)"
  using bootstrap_readable [of "storeRoot freshClockSystem" exampleClockHost]
  by (simp_all add: exampleClock_def hasEntries_def freshClockSystem_def goodSigning_def exampleClockHost_def)

lemma exampleClock_advance:
  "fst (advanceRetentionClock exampleClockHost 5 7 (storeRoot exampleClock)) = Inr (advanced 5 7 (zeroClock exampleClockHost))"
  using exampleClock_read
  by (simp add: advanceRetentionClock_def writer_def advanceLocked_def Let_def zeroClock_def advanced_def
      clockSchema_def safeInteger_def exampleClockHost_def)

theorem retention_barrier_witness:
  "fst (assertOriginClockForward exampleClockHost 5 1
     (storeRoot (clockStep exampleClockHost (clockStep exampleClockHost exampleClock (Advance 5 7)) (ReplaceClock None))))
   \<noteq> Inr ()"
proof -
  let ?s = "clockStep exampleClockHost exampleClock (Advance 5 7)"
  have "reaches (clockStep exampleClockHost) always freshClockSystem exampleClock"
    unfolding exampleClock_def by (intro reaches.intros) simp
  moreover have "reaches (clockStep exampleClockHost) always ?s (clockStep exampleClockHost ?s (ReplaceClock None))"
    by (intro reaches.intros) simp
  ultimately show ?thesis using retention_barrier [OF _ exampleClock_advance _ order_refl] by blast
qed

text \<open>
  Crash safety of \<open>advanceRetentionClock\<close>: when the process stops after any number of the states
  the operation passes through, the store reads as the old clock before the high-water file is
  published, is refused as rolled back until the clock file follows, and reads as the new clock
  afterwards; nothing else is ever read, and the new clock has the next sequence number.
\<close>

theorem retention_crash_safe:
  assumes "fst (advanceRetentionClock host notAfter now r) = Inr c" and "readClock host r = Inr prior"
    and "goodSigning host"
  shows "readClock host (crashed r k (snd (advanceRetentionClock host notAfter now r))) =
           (if k < 2 then Inr prior else if k = 2 then Inl ClockRollback else Inr c) \<and>
         clockSequence c = clockSequence prior + 1 \<and> notAfter \<le> rejectNotAfterThrough c"
proof -
  from advance_Inr [OF assms(1)] assms(2) have c: "c = advanced notAfter now prior" "clockSchema host c"
    and states: "snd (advanceRetentionClock host notAfter now r) =
      [r\<lparr>writerLock := True\<rparr>,
       r\<lparr>writerLock := True, highwaterEntry := Some (signControl host c)\<rparr>,
       r\<lparr>writerLock := True, highwaterEntry := Some (signControl host c), clockEntry := Some (signControl host c)\<rparr>,
       r\<lparr>highwaterEntry := Some (signControl host c), clockEntry := Some (signControl host c), writerLock := False\<rparr>]"
    by auto
  from assms(2) have prior: "verifyControl host (clockEntry r) = Some prior"
    "clockInstallationId prior = installationId host" "clockRole prior = installationRole host"
    by (auto simp: readClock_def split: option.splits if_splits)
  have old: "readClock host (r'\<lparr>highwaterEntry := Some (signControl host c)\<rparr>) = Inl ClockRollback"
    if "clockEntry r' = clockEntry r" for r'
    using that prior c verify_signed [OF assms(3) c(2)] by (simp add: readClock_def advanced_def)
  have new: "readClock host (r'\<lparr>highwaterEntry := Some (signControl host c), clockEntry := Some (signControl host c)\<rparr>) = Inr c" for r'
    using prior c verify_signed [OF assms(3) c(2)] by (simp add: readClock_def advanced_def)
  consider "k = 0" | "k = 1" | "k = 2" | "k = 3" | "k \<ge> 4" by linarith
  then have "readClock host (crashed r k (snd (advanceRetentionClock host notAfter now r))) =
           (if k < 2 then Inr prior else if k = 2 then Inl ClockRollback else Inr c)"
    by cases (use assms(2) old [of "r\<lparr>writerLock := True\<rparr>"] new in \<open>simp_all add: states crashed_def finalRoot_def eval_nat_numeral\<close>)
  with c show ?thesis by (simp add: advanced_def)
qed

theorem retention_crash_safe_witness:
  "readClock exampleClockHost (crashed (storeRoot exampleClock) 2
     (snd (advanceRetentionClock exampleClockHost 5 7 (storeRoot exampleClock)))) = Inl ClockRollback"
  using retention_crash_safe [OF exampleClock_advance exampleClock_read(1), of 2]
  by (simp add: goodSigning_def exampleClockHost_def)

end
