(* ===== verification/Control_Key.thy ===== *)
theory Control_Key
  imports Prelude
begin

text \<open>
  \<open>packages/core/src/ops/control-root-key.ts\<close>: operation keys that carry their expiry,
  \<open>opk1_t1_<expiry in hex>_<nonce in base64url>\<close>. Bytes are numbers below 256; \<open>btoa\<close>, \<open>atob\<close>, hexadecimal
  numerals and the regular expression are written out. \<open>atob\<close> is only applied to text without
  padding and is modelled for that.
\<close>

section \<open>Base64\<close>

definition sextetChar :: "nat \<Rightarrow> char" where
  "sextetChar n =
     (if n < 26 then char_of (65 + n)
      else if n < 52 then char_of (71 + n)
      else if n < 62 then char_of (n - 4)
      else if n = 62 then CHR ''+'' else CHR ''/'')"

definition charSextet :: "char \<Rightarrow> nat option" where
  "charSextet c =
     (let n = of_char c :: nat
      in if 65 \<le> n \<and> n < 91 then Some (n - 65)
         else if 97 \<le> n \<and> n < 123 then Some (n - 71)
         else if 48 \<le> n \<and> n < 58 then Some (n + 4)
         else if c = CHR ''+'' then Some 62
         else if c = CHR ''/'' then Some 63 else None)"

fun btoa :: "nat list \<Rightarrow> string" where
  "btoa [] = []"
| "btoa [a] = [sextetChar (a div 4), sextetChar (a mod 4 * 16), CHR ''='', CHR ''='']"
| "btoa [a, b] =
     [sextetChar (a div 4), sextetChar (a mod 4 * 16 + b div 16), sextetChar (b mod 16 * 4), CHR ''='']"
| "btoa (a # b # c # rest) =
     sextetChar (a div 4) # sextetChar (a mod 4 * 16 + b div 16) #
     sextetChar (b mod 16 * 4 + c div 64) # sextetChar (c mod 64) # btoa rest"

fun bytesOf :: "nat list \<Rightarrow> nat list option" where
  "bytesOf [] = Some []"
| "bytesOf [x] = None"
| "bytesOf [x, y] = Some [x * 4 + y div 16]"
| "bytesOf [x, y, z] = Some [x * 4 + y div 16, y mod 16 * 16 + z div 4]"
| "bytesOf (x # y # z # w # rest) =
     map_option (\<lambda>bs. (x * 4 + y div 16) # (y mod 16 * 16 + z div 4) # (z mod 4 * 64 + w) # bs) (bytesOf rest)"

fun sextets :: "string \<Rightarrow> nat list option" where
  "sextets [] = Some []"
| "sextets (c # cs) =
     (case charSextet c of
        None \<Rightarrow> None
      | Some n \<Rightarrow> map_option ((#) n) (sextets cs))"

definition atob :: "string \<Rightarrow> nat list option" where
  "atob s = Option.bind (sextets s) bytesOf"

definition toUrl :: "char \<Rightarrow> char" where
  "toUrl c = (if c = CHR ''+'' then CHR ''-'' else if c = CHR ''/'' then CHR ''_'' else c)"

definition fromUrl :: "char \<Rightarrow> char" where
  "fromUrl c = (if c = CHR ''-'' then CHR ''+'' else if c = CHR ''_'' then CHR ''/'' else c)"

definition encodeNonce :: "nat list \<Rightarrow> string" where
  "encodeNonce bytes = rev (dropWhile (\<lambda>c. c = CHR ''='') (rev (map toUrl (btoa bytes))))"

section \<open>Hexadecimal numerals\<close>

definition hexChar :: "nat \<Rightarrow> char" where
  "hexChar d = (if d < 10 then char_of (48 + d) else char_of (87 + d))"

definition hexVal :: "char \<Rightarrow> nat" where
  "hexVal c = (let n = of_char c :: nat in if n < 58 then n - 48 else n - 87)"

definition isHex :: "char \<Rightarrow> bool" where
  "isHex c \<longleftrightarrow> (let n = of_char c :: nat in 48 \<le> n \<and> n < 58 \<or> 97 \<le> n \<and> n < 103)"

fun toHex :: "nat \<Rightarrow> string" where
  "toHex n = (if n < 16 then [hexChar n] else toHex (n div 16) @ [hexChar (n mod 16)])"

declare toHex.simps [simp del]

definition parseHex :: "string \<Rightarrow> nat" where
  "parseHex s = foldl (\<lambda>a c. 16 * a + hexVal c) 0 s"

section \<open>Keys\<close>

datatype ControlKeyError =
    InvalidExpiryOrNonce
  | UnsupportedKey
  | NoncanonicalNonce
  | NoncanonicalKey

definition MAX_SAFE_INTEGER :: nat where
  "MAX_SAFE_INTEGER = 2 ^ 53 - 1"

definition createControlRootOperationKey :: "nat \<Rightarrow> nat list \<Rightarrow> ControlKeyError + string" where
  "createControlRootOperationKey notAfter nonce =
     (if notAfter > MAX_SAFE_INTEGER \<or> notAfter = 0 \<or> length nonce \<noteq> 16
      then Inl InvalidExpiryOrNonce
      else Inr (''opk1_t1_'' @ padStart 14 (CHR ''0'') (toHex notAfter) @ ''_'' @ encodeNonce nonce))"

definition isNonceChar :: "char \<Rightarrow> bool" where
  "isNonceChar c \<longleftrightarrow> isAlpha c \<or> isDigit c \<or> c = CHR ''_'' \<or> c = CHR ''-''"

text \<open>The two groups of the regular expression.\<close>

definition matchKey :: "string \<Rightarrow> (string \<times> string) option" where
  "matchKey key =
     (let expiry = take 14 (drop 8 key); nonce = drop 23 key
      in if take 8 key = ''opk1_t1_'' \<and> length expiry = 14 \<and> list_all isHex expiry \<and>
            take 1 (drop 22 key) = ''_'' \<and> length nonce = 22 \<and> list_all isNonceChar nonce
         then Some (expiry, nonce) else None)"

definition parseControlRootOperationKey :: "string \<Rightarrow> ControlKeyError + (nat \<times> string)" where
  "parseControlRootOperationKey key =
     (case matchKey key of
        None \<Rightarrow> Inl UnsupportedKey
      | Some (expiry, nonce) \<Rightarrow>
          let notAfter = parseHex expiry
          in (case atob (map fromUrl nonce) of
                None \<Rightarrow> Inl NoncanonicalNonce
              | Some bytes \<Rightarrow>
                  (case createControlRootOperationKey notAfter bytes of
                     Inl e \<Rightarrow> Inl e
                   | Inr canonical \<Rightarrow>
                       if canonical \<noteq> key then Inl NoncanonicalKey else Inr (notAfter, nonce))))"

section \<open>Base64 round trip\<close>

lemma charSextet_sextetChar: "n < 64 \<Longrightarrow> charSextet (sextetChar n) = Some n"
  by (auto simp: charSextet_def sextetChar_def Let_def) 

lemma alnum_url: "isAlpha c \<or> isDigit c \<Longrightarrow> toUrl c = c \<and> fromUrl c = c \<and> c \<noteq> CHR ''=''"
  by (auto simp: toUrl_def fromUrl_def isAlpha_def isDigit_def)

lemma sextetChar_alnum: "n < 62 \<Longrightarrow> isAlpha (sextetChar n) \<or> isDigit (sextetChar n)"
  by (auto simp: sextetChar_def isAlpha_def isDigit_def)

lemma sextetChar_url:
  assumes "n < 64"
  shows "fromUrl (toUrl (sextetChar n)) = sextetChar n \<and> isNonceChar (toUrl (sextetChar n)) \<and>
    toUrl (sextetChar n) \<noteq> CHR ''=''"
proof (cases "n < 62")
  case True
  with alnum_url [OF sextetChar_alnum [OF True]] sextetChar_alnum [OF True] show ?thesis
    by (auto simp: isNonceChar_def)
next
  case False
  with assms consider "n = 62" | "n = 63" by linarith
  then show ?thesis by cases (simp_all add: sextetChar_def toUrl_def fromUrl_def isNonceChar_def)
qed

fun sextetsOf :: "nat list \<Rightarrow> nat list" where
  "sextetsOf [] = []"
| "sextetsOf [a] = [a div 4, a mod 4 * 16]"
| "sextetsOf [a, b] = [a div 4, a mod 4 * 16 + b div 16, b mod 16 * 4]"
| "sextetsOf (a # b # c # rest) =
     (a div 4) # (a mod 4 * 16 + b div 16) # (b mod 16 * 4 + c div 64) # (c mod 64) # sextetsOf rest"

abbreviation isByte :: "nat \<Rightarrow> bool" where
  "isByte b \<equiv> b < 256"

lemma btoa_sextets: "\<exists>k. btoa bytes = map sextetChar (sextetsOf bytes) @ replicate k (CHR ''='')"
proof (induction bytes rule: btoa.induct)
  case (2 a)
  have "btoa [a] = map sextetChar (sextetsOf [a]) @ replicate 2 (CHR ''='')" by (simp add: numeral_2_eq_2)
  then show ?case ..
next
  case (3 a b)
  have "btoa [a, b] = map sextetChar (sextetsOf [a, b]) @ replicate 1 (CHR ''='')" by simp
  then show ?case ..
qed auto

lemma digits_bound:
  fixes a b :: nat
  shows "a < 256 \<Longrightarrow> a div 4 < 64" "b < 256 \<Longrightarrow> a mod 4 * 16 + b div 16 < 64" "b < 256 \<Longrightarrow> a mod 16 * 4 + b div 64 < 64"
    "a mod 4 * 16 < 64" "a mod 16 * 4 < 64"
proof -
  have m: "a mod 4 \<le> 3" "a mod 16 \<le> 15"
    using mod_less_divisor [of 4 a] mod_less_divisor [of 16 a] by simp_all
  then show "a mod 4 * 16 < 64" "a mod 16 * 4 < 64" by simp_all
  show "a div 4 < 64" if "a < 256" using that by (simp add: less_mult_imp_div_less)
  have "b div 16 \<le> 15" "b div 64 \<le> 3" if "b < 256" using that by simp_all
  with m show "b < 256 \<Longrightarrow> a mod 4 * 16 + b div 16 < 64" "b < 256 \<Longrightarrow> a mod 16 * 4 + b div 64 < 64"
    by fastforce+
qed

lemma sextetsOf_bound: "list_all isByte bytes \<Longrightarrow> \<forall>n \<in> set (sextetsOf bytes). n < 64"
  by (induction bytes rule: sextetsOf.induct) (auto simp: digits_bound)

lemma bytesOf_bound: "\<forall>n \<in> set ns. n < 64 \<Longrightarrow> bytesOf ns = Some bytes \<Longrightarrow> list_all isByte bytes"
proof (induction ns arbitrary: bytes rule: bytesOf.induct)
  case (5 x y z w rest)
  have "x * 4 + y div 16 < 256" "y mod 16 * 16 + z div 4 < 256" "z mod 4 * 64 + w < 256"
    using "5.prems"(1) mod_less_divisor [of 16 y] mod_less_divisor [of 4 z] by (simp_all, linarith+)
  with 5 show ?case by auto
qed auto

lemma group_identities:
  fixes a b c :: nat
  shows "a div 4 * 4 + (a mod 4 * 16) div 16 = a"
    "b < 256 \<Longrightarrow> a div 4 * 4 + (a mod 4 * 16 + b div 16) div 16 = a"
    "b < 256 \<Longrightarrow> (a mod 4 * 16 + b div 16) mod 16 * 16 + (b mod 16 * 4) div 4 = b"
    "b < 256 \<Longrightarrow> c < 256 \<Longrightarrow> (a mod 4 * 16 + b div 16) mod 16 * 16 + (b mod 16 * 4 + c div 64) div 4 = b"
    "c < 256 \<Longrightarrow> (b mod 16 * 4 + c div 64) mod 4 * 64 + c mod 64 = c"
proof -
  have dm: "y < m \<Longrightarrow> (x * m + y) div m = x \<and> (x * m + y) mod m = y" for x y m :: nat by simp
  show "a div 4 * 4 + (a mod 4 * 16) div 16 = a" by simp
  show "a div 4 * 4 + (a mod 4 * 16 + b div 16) div 16 = a" if "b < 256"
    using that dm [of "b div 16" 16 "a mod 4"] by simp
  show "(a mod 4 * 16 + b div 16) mod 16 * 16 + (b mod 16 * 4) div 4 = b" if "b < 256"
    using that dm [of "b div 16" 16 "a mod 4"] by simp
  show "(a mod 4 * 16 + b div 16) mod 16 * 16 + (b mod 16 * 4 + c div 64) div 4 = b" if "b < 256" "c < 256"
    using that dm [of "b div 16" 16 "a mod 4"] dm [of "c div 64" 4 "b mod 16"] by simp
  show "(b mod 16 * 4 + c div 64) mod 4 * 64 + c mod 64 = c" if "c < 256"
    using that dm [of "c div 64" 4 "b mod 16"] by simp
qed

lemma bytesOf_sextetsOf: "list_all isByte bytes \<Longrightarrow> bytesOf (sextetsOf bytes) = Some bytes"
  by (induction bytes rule: sextetsOf.induct)
     (simp_all only: sextetsOf.simps bytesOf.simps list.pred_inject group_identities option.map simp_thms)

lemma length_sextetsOf: "length (sextetsOf bytes) = (4 * length bytes + 2) div 3"
  by (induction bytes rule: sextetsOf.induct) auto

lemma sextets_map: "\<forall>n \<in> set ns. n < 64 \<Longrightarrow> sextets (map sextetChar ns) = Some ns"
  by (induction ns) (simp_all add: charSextet_sextetChar)

lemma charSextet_bound: "charSextet c = Some n \<Longrightarrow> n < 64"
  by (auto simp: charSextet_def Let_def split: if_splits)

lemma sextets_bound: "sextets s = Some ns \<Longrightarrow> \<forall>n \<in> set ns. n < 64"
  by (induction s arbitrary: ns) (auto dest: charSextet_bound split: option.splits)

lemma atob_bytes: "atob s = Some bytes \<Longrightarrow> list_all isByte bytes"
  unfolding atob_def bind_eq_Some_conv using sextets_bound bytesOf_bound by blast

lemma strip_padding: "list_all (\<lambda>c. c \<noteq> p) s \<Longrightarrow> rev (dropWhile (\<lambda>c. c = p) (rev (s @ replicate k p))) = s"
proof -
  assume "list_all (\<lambda>c. c \<noteq> p) s"
  then have "dropWhile (\<lambda>c. c = p) (rev s) = rev s" by (cases "rev s") (auto simp: list_all_iff dest: arg_cong [where f = set])
  moreover have "dropWhile (\<lambda>c. c = p) (replicate k p @ t) = dropWhile (\<lambda>c. c = p) t" for t by (induction k) auto
  ultimately show ?thesis by simp
qed

lemma encodeNonce_sextets:
  assumes "list_all isByte bytes"
  shows "encodeNonce bytes = map (\<lambda>n. toUrl (sextetChar n)) (sextetsOf bytes)"
proof -
  obtain k where "btoa bytes = map sextetChar (sextetsOf bytes) @ replicate k (CHR ''='')"
    using btoa_sextets by blast
  then have "map toUrl (btoa bytes) = map (\<lambda>n. toUrl (sextetChar n)) (sextetsOf bytes) @ replicate k (CHR ''='')"
    by (simp add: toUrl_def)
  moreover have "list_all (\<lambda>c. c \<noteq> CHR ''='') (map (\<lambda>n. toUrl (sextetChar n)) (sextetsOf bytes))"
    using sextetsOf_bound [OF assms] sextetChar_url by (auto simp: list_all_iff)
  ultimately show ?thesis using strip_padding by (simp add: encodeNonce_def)
qed

lemma encodeNonce_facts:
  assumes "list_all isByte bytes"
  shows "atob (map fromUrl (encodeNonce bytes)) = Some bytes"
    and "list_all isNonceChar (encodeNonce bytes)"
    and "length (encodeNonce bytes) = (4 * length bytes + 2) div 3"
proof -
  note bound = sextetsOf_bound [OF assms]
  have "map fromUrl (encodeNonce bytes) = map sextetChar (sextetsOf bytes)"
    using bound sextetChar_url by (simp add: encodeNonce_sextets [OF assms])
  then show "atob (map fromUrl (encodeNonce bytes)) = Some bytes"
    using bound assms by (simp add: atob_def sextets_map bytesOf_sextetsOf)
  show "list_all isNonceChar (encodeNonce bytes)"
    using bound sextetChar_url by (simp add: encodeNonce_sextets [OF assms] list_all_iff)
  show "length (encodeNonce bytes) = (4 * length bytes + 2) div 3"
    by (simp add: encodeNonce_sextets [OF assms] length_sextetsOf)
qed

section \<open>Hexadecimal round trip\<close>

lemma hexVal_hexChar: "d < 16 \<Longrightarrow> hexVal (hexChar d) = d \<and> isHex (hexChar d)"
  by (simp add: hexVal_def hexChar_def isHex_def Let_def)

lemma toHex_facts: "foldl (\<lambda>a c. 16 * a + hexVal c) 0 (toHex n) = n \<and> list_all isHex (toHex n) \<and> toHex n \<noteq> []"
proof (induction n rule: toHex.induct)
  case (1 n)
  then show ?case by (cases "n < 16") (simp_all add: toHex.simps [of n] hexVal_hexChar)
qed

lemma toHex_length: "n < 16 ^ k \<Longrightarrow> 0 < k \<Longrightarrow> length (toHex n) \<le> k"
proof (induction k arbitrary: n)
  case (Suc k)
  show ?case
  proof (cases "n < 16")
    case False
    with Suc.prems have "n div 16 < 16 ^ k" "0 < k" by (cases k; simp add: less_mult_imp_div_less)+
    with Suc.IH False show ?thesis by (simp add: toHex.simps [of n])
  qed (simp add: toHex.simps [of n])
qed simp

lemma padded_facts:
  assumes "n \<le> MAX_SAFE_INTEGER"
  shows "length (padStart 14 (CHR ''0'') (toHex n)) = 14" "list_all isHex (padStart 14 (CHR ''0'') (toHex n))"
    "parseHex (padStart 14 (CHR ''0'') (toHex n)) = n"
proof -
  have "n < 16 ^ 14" using assms by (simp add: MAX_SAFE_INTEGER_def)
  then show "length (padStart 14 (CHR ''0'') (toHex n)) = 14" using toHex_length [of n 14] by (simp add: padStart_def)
  have zeros: "foldl (\<lambda>a c. 16 * a + hexVal c) 0 (replicate k (CHR ''0'')) = 0" for k
    by (induction k) (simp_all add: hexVal_def)
  then show "parseHex (padStart 14 (CHR ''0'') (toHex n)) = n"
    using toHex_facts [of n] by (simp add: parseHex_def padStart_def)
  have "isHex (CHR ''0'')" by (simp add: isHex_def)
  then show "list_all isHex (padStart 14 (CHR ''0'') (toHex n))"
    using toHex_facts [of n] by (auto simp: padStart_def list_all_iff)
qed

section \<open>Properties\<close>

lemma create_Inr:
  "createControlRootOperationKey n nonce = Inr key \<longleftrightarrow>
     0 < n \<and> n \<le> MAX_SAFE_INTEGER \<and> length nonce = 16 \<and>
     key = ''opk1_t1_'' @ padStart 14 (CHR ''0'') (toHex n) @ ''_'' @ encodeNonce nonce"
  by (auto simp: createControlRootOperationKey_def)

lemma created_splits:
  assumes "createControlRootOperationKey n nonce = Inr key"
  shows "take 14 (drop 8 key) = padStart 14 (CHR ''0'') (toHex n)" "drop 23 key = encodeNonce nonce"
    "take 8 key = ''opk1_t1_''" "take 1 (drop 22 key) = ''_''"
  using assms padded_facts(1) [of n] by (simp_all add: create_Inr)

text \<open>
  Operation keys: a key is accepted with an expiry and a nonce exactly when it is the key created
  from that expiry and from sixteen bytes whose encoding is that nonce. So every created key is read
  back, and no two different keys are accepted for one expiry and nonce.
\<close>

theorem control_key_exact:
  "parseControlRootOperationKey key = Inr (n, nonce) \<longleftrightarrow>
     (\<exists>bytes. list_all isByte bytes \<and> createControlRootOperationKey n bytes = Inr key \<and> nonce = encodeNonce bytes)"
proof
  assume "parseControlRootOperationKey key = Inr (n, nonce)"
  then obtain expiry bytes where "matchKey key = Some (expiry, nonce)" "n = parseHex expiry"
    "atob (map fromUrl nonce) = Some bytes" "createControlRootOperationKey n bytes = Inr key"
    by (auto simp: parseControlRootOperationKey_def Let_def split: option.splits sum.splits if_splits)
  moreover from this have "nonce = encodeNonce bytes"
    using created_splits(2) by (auto simp: matchKey_def Let_def split: if_splits)
  ultimately show "\<exists>bytes. list_all isByte bytes \<and> createControlRootOperationKey n bytes = Inr key \<and> nonce = encodeNonce bytes"
    using atob_bytes by blast
next
  assume "\<exists>bytes. list_all isByte bytes \<and> createControlRootOperationKey n bytes = Inr key \<and> nonce = encodeNonce bytes"
  then obtain bytes where bytes: "list_all isByte bytes" and key: "createControlRootOperationKey n bytes = Inr key"
    and nonce: "nonce = encodeNonce bytes" by blast
  from key have n: "n \<le> MAX_SAFE_INTEGER" "length bytes = 16" by (simp_all add: create_Inr)
  have "matchKey key = Some (padStart 14 (CHR ''0'') (toHex n), nonce)"
    using created_splits [OF key] encodeNonce_facts [OF bytes] padded_facts [OF n(1)] n(2)
    by (simp add: matchKey_def Let_def nonce)
  with key show "parseControlRootOperationKey key = Inr (n, nonce)"
    using encodeNonce_facts(1) [OF bytes] padded_facts(3) [OF n(1)]
    by (simp add: parseControlRootOperationKey_def Let_def nonce)
qed

end
