(* ===== verification/Polyline.thy ===== *)
theory Polyline
  imports Complex_Main "HOL-Library.Word"
begin

text \<open>
  \<open>packages/mobility-core/src/polyline.ts\<close>: encoded polylines. The bit operators of JavaScript
  work on 32-bit two's complement, here a \<open>32 word\<close> read by \<open>sint\<close>; a shift count is taken modulo
  32. A string is its list of UTF-16 code units. Reading past the end of the text gives \<open>NaN\<close>,
  which contributes no bits and ends a value. Coordinates are exact rationals and \<open>Math.round\<close>
  rounds half up.
\<close>

unbundle bit_operations_syntax

section \<open>Numbers\<close>

type_synonym int32 = "32 word"

definition toInt32 :: "int \<Rightarrow> int32" where
  "toInt32 n = word_of_int n"

definition shiftLeft :: "int32 \<Rightarrow> nat \<Rightarrow> int32" where
  "shiftLeft w n = push_bit (n mod 32) w"

definition shiftRight :: "int32 \<Rightarrow> nat \<Rightarrow> int32" where
  "shiftRight w n = signed_drop_bit (n mod 32) w"

definition mathRound :: "rat \<Rightarrow> int" where
  "mathRound x = \<lfloor>x + 1 / 2\<rfloor>"

definition fromCharCode :: "int \<Rightarrow> nat" where
  "fromCharCode n = nat (n mod 65536)"

section \<open>Encoding\<close>

definition zigzag :: "int \<Rightarrow> int32" where
  "zigzag v = (if v < 0 then NOT (shiftLeft (toInt32 v) 1) else shiftLeft (toInt32 v) 1)"

lemma shiftRight_less: "32 \<le> sint w \<Longrightarrow> sint (shiftRight w 5) < sint w \<and> 0 \<le> sint (shiftRight w 5)"
proof -
  assume "32 \<le> sint w"
  then have "sint w div 32 < sint w" "0 \<le> sint w div 32" by linarith+
  then show ?thesis by (simp add: shiftRight_def sint_signed_drop_bit_eq drop_bit_eq_div)
qed

function encodeLoop :: "int32 \<Rightarrow> nat list" where
  "encodeLoop remaining =
     (if sint remaining \<ge> 0x20
      then fromCharCode (sint (0x20 OR (remaining AND 0x1F)) + 63) # encodeLoop (shiftRight remaining 5)
      else [fromCharCode (sint remaining + 63)])"
  by pat_completeness auto
termination
  by (relation "measure (\<lambda>w. nat (sint w))") (use shiftRight_less in \<open>auto simp: zless_nat_conj\<close>)

declare encodeLoop.simps [simp del]

definition encodeSignedValue :: "int \<Rightarrow> nat list" where
  "encodeSignedValue v = encodeLoop (zigzag v)"

type_synonym coordinate = "rat \<times> rat"

fun encodeCoords :: "rat \<Rightarrow> int \<Rightarrow> int \<Rightarrow> coordinate list \<Rightarrow> nat list" where
  "encodeCoords factor previousLat previousLng [] = []"
| "encodeCoords factor previousLat previousLng ((lng, lat) # coords) =
     (let roundedLat = mathRound (lat * factor);
          roundedLng = mathRound (lng * factor)
      in encodeSignedValue (roundedLat - previousLat) @ encodeSignedValue (roundedLng - previousLng) @
         encodeCoords factor roundedLat roundedLng coords)"

definition encodePolyline :: "coordinate list \<Rightarrow> nat \<Rightarrow> nat list" where
  "encodePolyline coords precision = encodeCoords (10 ^ precision) 0 0 coords"

section \<open>Decoding\<close>

fun decodeValue :: "nat list \<Rightarrow> nat \<Rightarrow> int32 \<Rightarrow> int32 \<times> nat list" where
  "decodeValue [] shift v = (v, [])"
| "decodeValue (c # codes) shift v =
     (let byte = int c - 63;
          v' = v OR shiftLeft (toInt32 byte AND 0x1F) shift
      in if byte \<ge> 0x20 then decodeValue codes (shift + 5) v' else (v', codes))"

definition unzigzag :: "int32 \<Rightarrow> int" where
  "unzigzag v = sint (if v AND 1 \<noteq> 0 then NOT (shiftRight v 1) else shiftRight v 1)"

lemma decodeValue_shorter:
  "length (snd (decodeValue codes shift v)) \<le> length codes - 1"
proof (induction codes shift v rule: decodeValue.induct)
  case (2 c codes shift v)
  let ?v = "v OR shiftLeft (toInt32 (int c - 63) AND 0x1F) shift"
  have "length (snd (decodeValue codes (shift + 5) ?v)) \<le> length codes" if "int c - 63 \<ge> 0x20"
    using 2 [OF refl refl that] by simp
  then show ?case by (simp add: Let_def)
qed simp

function decodeCoords :: "rat \<Rightarrow> nat list \<Rightarrow> int \<Rightarrow> int \<Rightarrow> coordinate list" where
  "decodeCoords factor codes lat lng =
     (if codes = [] then []
      else
        let (v, codes1) = decodeValue codes 0 0;
            lat' = lat + unzigzag v;
            (u, codes2) = decodeValue codes1 0 0;
            lng' = lng + unzigzag u
        in (of_int lng' / factor, of_int lat' / factor) # decodeCoords factor codes2 lat' lng')"
  by pat_completeness auto
termination
proof (relation "measure (\<lambda>(factor, codes, lat, lng). length codes)", goal_cases)
  case (2 factor codes lat lng x v codes1 lat' y u codes2 lng')
  then have "length codes1 \<le> length codes - 1" "length codes2 \<le> length codes1 - 1" "length codes > 0"
    using decodeValue_shorter [of codes 0 0] decodeValue_shorter [of codes1 0 0]
    by (metis snd_conv, metis snd_conv, simp)
  then show ?case by (cases codes) auto
qed simp

declare decodeCoords.simps [simp del]

definition decodePolyline :: "nat list \<Rightarrow> nat \<Rightarrow> coordinate list" where
  "decodePolyline encoded precision = decodeCoords (10 ^ precision) encoded 0 0"

section \<open>One value survives\<close>

definition fits :: "int \<Rightarrow> bool" where
  "fits v \<longleftrightarrow> - (2 ^ 30) \<le> v \<and> v < 2 ^ 30"

lemma sint_toInt32: "- (2 ^ 31) \<le> v \<Longrightarrow> v < 2 ^ 31 \<Longrightarrow> sint (toInt32 v) = v"
  unfolding toInt32_def by (transfer) (simp add: signed_take_bit_int_eq_self)

lemma sint_NOT: "sint (NOT w) = - sint (w :: int32) - 1"
proof -
  have "sint (NOT w) = NOT (sint w)" by (rule bit_eqI) (auto simp: bit_simps min_def)
  then show ?thesis by (simp add: not_int_def)
qed

lemma and_31: "w AND 31 = take_bit 5 (w :: int32)"
  by (simp add: take_bit_eq_mask mask_numeral)

lemma zigzag_sint: "fits v \<Longrightarrow> sint (zigzag v) = (if v < 0 then - 2 * v - 1 else 2 * v)"
proof -
  assume fits: "fits v"
  have "shiftLeft (toInt32 v) 1 = toInt32 (2 * v)"
    by (simp add: shiftLeft_def toInt32_def push_bit_eq_mult mult.commute)
  with fits have "sint (shiftLeft (toInt32 v) 1) = 2 * v" by (simp add: fits_def sint_toInt32)
  then show ?thesis by (simp add: zigzag_def sint_NOT)
qed

lemma unzigzag_zigzag: "fits v \<Longrightarrow> unzigzag (zigzag v) = v"
proof -
  assume fits: "fits v"
  let ?r = "zigzag v"
  have half: "sint (shiftRight ?r 1) = sint ?r div 2"
    by (simp add: shiftRight_def sint_signed_drop_bit_eq drop_bit_eq_div)
  have "?r AND 1 \<noteq> 0 \<longleftrightarrow> odd (sint ?r)"
    using bit_sint_iff [of ?r 0] by (simp add: and_one_eq bit_0 mod_2_eq_odd)
  also have "\<dots> \<longleftrightarrow> v < 0" using zigzag_sint [OF fits] by auto
  finally show ?thesis
    using zigzag_sint [OF fits] half by (auto simp: unzigzag_def sint_NOT)
qed

lemma take_step:
  fixes r :: int32
  assumes "n \<le> 31"
  shows "take_bit n r OR shiftLeft (drop_bit n r AND 31) n = take_bit (n + 5) r"
  unfolding and_31 by (rule bit_word_eqI) (use assms in \<open>auto simp: shiftLeft_def bit_simps\<close>)

lemma sint_bounds: "- (2 ^ 31) \<le> sint (w :: int32)" "sint (w :: int32) < 2 ^ 31"
  using sint_range_size [of w] by (simp_all add: word_size)

lemma high_bits: "0 \<le> sint (w :: int32) \<Longrightarrow> 31 \<le> i \<Longrightarrow> \<not> bit w i"
  using bit_last_iff [of w] bit_imp_le_length [of w i] by (cases "i = 31") auto

lemma sint_drop:
  fixes r :: int32
  assumes "0 \<le> sint r"
  shows "sint (drop_bit n r) = sint r div 2 ^ n"
proof -
  have "sint (drop_bit n r) = drop_bit n (sint r)"
    using high_bits [OF assms] by (intro bit_eqI) (auto simp: bit_simps min_def)
  then show ?thesis by (simp add: drop_bit_eq_div)
qed

lemma shiftRight_drop:
  fixes r :: int32
  assumes "0 \<le> sint r"
  shows "shiftRight (drop_bit n r) 5 = drop_bit (n + 5) r"
proof (rule signed_word_eqI)
  show "sint (shiftRight (drop_bit n r) 5) = sint (drop_bit (n + 5) r)"
    unfolding sint_drop [OF assms] shiftRight_def sint_signed_drop_bit_eq
    by (simp add: drop_bit_eq_div [where ?'a = int] power_add zdiv_zmult2_eq)
qed

lemma continued_digit:
  fixes d :: int32
  defines "w \<equiv> 0x20 OR (d AND 0x1F)"
  shows "32 \<le> sint w" "sint w < 64" "w AND 0x1F = d AND 0x1F"
proof -
  define x where "x = uint (take_bit 5 d)"
  have x: "0 \<le> x" "x < 32" unfolding x_def using take_bit_int_less_exp [of 5 "uint d"] by (simp_all add: unsigned_take_bit_eq)
  have "\<not> bit (32 :: int32) k" if "k < 5" for k
    using bit_exp_iff [where ?'a = int32, of 5 k] that by simp
  then have "\<not> bit (32 :: int32) k \<or> \<not> bit (take_bit 5 d) k" for k by (auto simp: bit_simps)
  then have "w = 32 + take_bit 5 d"
    unfolding w_def and_31 by (rule disjunctive_add [symmetric])
  also have "\<dots> = toInt32 (32 + x)" by (simp add: toInt32_def x_def)
  finally show "32 \<le> sint w" "sint w < 64" using x by (simp_all add: sint_toInt32)
  show "w AND 0x1F = d AND 0x1F" unfolding w_def by (simp add: bit.conj_disj_distrib2)
qed

lemma decode_encodeLoop:
  assumes "0 \<le> sint r" and "n \<le> 30"
  shows "decodeValue (encodeLoop (drop_bit n r) @ codes) n (take_bit n r) = (r, codes)"
  using assms(2)
proof (induction "31 - n" arbitrary: n rule: less_induct)
  case less
  let ?d = "drop_bit n r"
  have d: "sint ?d = sint r div 2 ^ n" "0 \<le> sint ?d" using sint_drop [OF assms(1), of n] assms(1) by (simp_all add: pos_imp_zdiv_nonneg_iff)
  show ?case
  proof (cases "32 \<le> sint ?d")
    case True
    let ?w = "0x20 OR (?d AND 0x1F)"
    have code: "int (fromCharCode (sint ?w + 63)) - 63 = sint ?w" "32 \<le> sint ?w"
      using continued_digit [of ?d] by (simp_all add: fromCharCode_def)
    have n: "n + 5 \<le> 30"
    proof (rule ccontr)
      assume "\<not> n + 5 \<le> 30"
      then have "(2 :: int) ^ 31 \<le> 2 ^ (n + 5)" by (intro power_increasing) auto
      then have "(2 :: int) ^ 31 \<le> 32 * 2 ^ n" by (simp add: power_add)
      moreover have "32 * 2 ^ n \<le> sint r div 2 ^ n * 2 ^ n" using True d(1) by simp
      moreover have "sint r div 2 ^ n * 2 ^ n \<le> sint r"
      proof -
        have "0 \<le> sint r mod 2 ^ n" by simp
        then show ?thesis using div_mult_mod_eq [of "sint r" "2 ^ n"] by linarith
      qed
      ultimately show False using sint_bounds(2) [of r] by linarith
    qed
    then have "decodeValue (encodeLoop (drop_bit (n + 5) r) @ codes) (n + 5) (take_bit (n + 5) r) = (r, codes)"
      by (intro less.hyps) auto
    with True code n continued_digit(3) [of ?d] show ?thesis
      by (simp add: encodeLoop.simps [of ?d] Let_def toInt32_def shiftRight_drop [OF assms(1)] take_step)
  next
    case False
    then have code: "int (fromCharCode (sint ?d + 63)) - 63 = sint ?d" "\<not> 32 \<le> sint ?d"
      using d(2) by (simp_all add: fromCharCode_def)
    have "sint (drop_bit (n + 5) r) = 0"
      using False d assms(1) by (simp add: sint_drop power_add zdiv_zmult2_eq div_pos_pos_trivial)
    then have "drop_bit (n + 5) r = 0" by (metis signed_0 signed_word_eqI)
    then have "take_bit (n + 5) r = r" 
      using bits_ident [of "n + 5" r] by simp
    with False code less.prems show ?thesis
      by (simp add: encodeLoop.simps [of ?d] Let_def toInt32_def take_step)
  qed
qed

lemma decode_value:
  assumes "fits v"
  shows "decodeValue (encodeSignedValue v @ codes) 0 0 = (zigzag v, codes)"
proof -
  have "0 \<le> sint (zigzag v)" using zigzag_sint [OF assms] by auto
  from decode_encodeLoop [OF this, of 0 codes] show ?thesis by (simp add: encodeSignedValue_def)
qed

lemma encodeLoop_nonempty [simp]: "encodeLoop w \<noteq> []"
  by (subst encodeLoop.simps) simp

lemma encodeLoop_printable:
  "0 \<le> sint w \<Longrightarrow> set (encodeLoop w) \<subseteq> {63..126}"
proof (induction w rule: encodeLoop.induct)
  case (1 w)
  show ?case
  proof (cases "32 \<le> sint w")
    case True
    then have "set (encodeLoop (shiftRight w 5)) \<subseteq> {63..126}" using 1 shiftRight_less by auto
    moreover have "fromCharCode (sint (32 OR (w AND 31)) + 63) \<in> {63..126}"
      using continued_digit [of w] by (auto simp: fromCharCode_def nat_le_iff le_nat_iff)
    ultimately show ?thesis using True by (simp add: encodeLoop.simps [of w])
  next
    case False
    then show ?thesis using "1.prems" by (auto simp: encodeLoop.simps [of w] fromCharCode_def nat_le_iff le_nat_iff)
  qed
qed

section \<open>A line survives\<close>

definition snap :: "nat \<Rightarrow> coordinate \<Rightarrow> coordinate" where
  "snap precision c =
     (of_int (mathRound (fst c * 10 ^ precision)) / 10 ^ precision,
      of_int (mathRound (snd c * 10 ^ precision)) / 10 ^ precision)"

definition onGlobe :: "coordinate \<Rightarrow> bool" where
  "onGlobe c \<longleftrightarrow> \<bar>fst c\<bar> \<le> 180 \<and> \<bar>snd c\<bar> \<le> 90"

lemma mathRound_bound: "\<bar>x\<bar> \<le> of_int b \<Longrightarrow> \<bar>mathRound x\<bar> \<le> b"
proof -
  assume x: "\<bar>x\<bar> \<le> of_int b"
  have "mathRound x \<le> \<lfloor>of_int b + 1 / 2 :: rat\<rfloor>" unfolding mathRound_def using x by (intro floor_mono) auto
  moreover have "\<lfloor>of_int (- b) + 1 / 2 :: rat\<rfloor> \<le> mathRound x" unfolding mathRound_def using x by (intro floor_mono) auto
  moreover have "\<lfloor>of_int c + 1 / 2 :: rat\<rfloor> = c" for c by (simp add: floor_unique)
  ultimately show ?thesis by simp
qed

lemma mathRound_of_int: "mathRound (of_int n) = n"
  by (simp add: mathRound_def floor_unique)

lemma mathRound_numeral [simp]: "mathRound (numeral n) = numeral n" "mathRound (- numeral n) = - numeral n"
  using mathRound_of_int [of "numeral n"] mathRound_of_int [of "- numeral n"] by simp_all

lemma rounded_bound:
  assumes "\<bar>x\<bar> \<le> 180" and "precision \<le> 6"
  shows "\<bar>mathRound (x * 10 ^ precision)\<bar> \<le> 180000000"
proof -
  have "(10 :: rat) ^ precision \<le> 10 ^ 6" using assms(2) by (intro power_increasing) auto
  then have "\<bar>x\<bar> * 10 ^ precision \<le> 180 * 10 ^ 6" using assms(1) by (intro mult_mono) auto
  then show ?thesis by (intro mathRound_bound) (simp add: abs_mult)
qed

lemma decode_coords:
  assumes "\<bar>a\<bar> \<le> 180000000" "\<bar>b\<bar> \<le> 180000000" "\<forall>c \<in> set coords. onGlobe c" "precision \<le> 6"
  shows "decodeCoords (10 ^ precision) (encodeCoords (10 ^ precision) a b coords) a b = map (snap precision) coords \<and>
         set (encodeCoords (10 ^ precision) a b coords) \<subseteq> {63..126}"
  using assms
proof (induction coords arbitrary: a b)
  case Nil
  then show ?case by (simp add: decodeCoords.simps)
next
  case (Cons c coords)
  obtain lng lat where c: "c = (lng, lat)" by (cases c)
  let ?a = "mathRound (lat * 10 ^ precision)" and ?b = "mathRound (lng * 10 ^ precision)"
  from Cons.prems(3) c have "\<bar>lng\<bar> \<le> 180" "\<bar>lat\<bar> \<le> 180" by (auto simp: onGlobe_def)
  with Cons.prems(4) have bounds: "\<bar>?a\<bar> \<le> 180000000" "\<bar>?b\<bar> \<le> 180000000" by (simp_all add: rounded_bound)
  with Cons.prems(1,2) have fits: "fits (?a - a)" "fits (?b - b)" by (auto simp: fits_def)
  have "0 \<le> sint (zigzag v)" if "fits v" for v using zigzag_sint [OF that] by auto
  with fits have "set (encodeSignedValue (?a - a)) \<subseteq> {63..126}" "set (encodeSignedValue (?b - b)) \<subseteq> {63..126}"
    by (simp_all add: encodeSignedValue_def encodeLoop_printable)
  moreover have "encodeSignedValue v \<noteq> []" for v by (simp add: encodeSignedValue_def)
  ultimately show ?case
    using Cons.IH [OF bounds] Cons.prems fits
    by (simp add: c Let_def decodeCoords.simps [of _ "encodeSignedValue _ @ _"] decode_value unzigzag_zigzag snap_def)
qed

lemma snap_close: "\<bar>of_int (mathRound (x * 10 ^ precision)) / 10 ^ precision - x\<bar> \<le> 1 / (2 * 10 ^ precision)"
proof -
  let ?f = "10 ^ precision :: rat"
  have "\<bar>of_int (mathRound (x * ?f)) - x * ?f\<bar> \<le> 1 / 2"
    unfolding mathRound_def by linarith
  then have "\<bar>of_int (mathRound (x * ?f)) - x * ?f\<bar> / ?f \<le> 1 / 2 / ?f" by (intro divide_right_mono) auto
  moreover have "\<bar>of_int (mathRound (x * ?f)) / ?f - x\<bar> = \<bar>of_int (mathRound (x * ?f)) - x * ?f\<bar> / ?f"
  proof -
    have "of_int (mathRound (x * ?f)) / ?f - x = (of_int (mathRound (x * ?f)) - x * ?f) / ?f"
      by (simp add: field_simps)
    then show ?thesis by (simp add: abs_divide)
  qed
  ultimately show ?thesis by (simp add: field_simps)
qed

section \<open>Properties\<close>

text \<open>
  C35. Round trip of a polyline: for positions on the globe and at most six decimal places, decoding
  the encoded line gives every position rounded to the grid, so within half a grid unit, and the
  encoded text consists of printable characters only.
\<close>

theorem polyline_roundtrip:
  assumes "\<forall>c \<in> set coords. onGlobe c" and "precision \<le> 6"
  shows "decodePolyline (encodePolyline coords precision) precision = map (snap precision) coords \<and>
         set (encodePolyline coords precision) \<subseteq> {63..126} \<and>
         (\<forall>c \<in> set coords. \<bar>fst (snap precision c) - fst c\<bar> \<le> 1 / (2 * 10 ^ precision) \<and>
                           \<bar>snd (snap precision c) - snd c\<bar> \<le> 1 / (2 * 10 ^ precision))"
  using decode_coords [of 0 0 coords precision] assms snap_close
  by (auto simp: decodePolyline_def encodePolyline_def snap_def)

theorem polyline_roundtrip_witness:
  "decodePolyline (encodePolyline [(- 1202 / 10, 385 / 10), (- 12095 / 100, 407 / 10)] 5) 5 =
     [(- 1202 / 10, 385 / 10), (- 12095 / 100, 407 / 10)]"
  using polyline_roundtrip [of "[(- 1202 / 10, 385 / 10), (- 12095 / 100, 407 / 10)]" 5]
  by (simp add: onGlobe_def snap_def)

end
