(* ===== verification/Ndjson_Stream.thy ===== *)
theory Ndjson_Stream
  imports Service_Types
begin

text \<open>
  \<open>packages/core/src/services/bounded-ndjson.ts\<close>: reading a stream of JSON lines under a byte limit
  and an idle timeout. The body is the list of chunks its reader delivers, and whether the stream
  then ends, stalls or fails. The text decoder, \<open>JSON.parse\<close> and the caller's reducer with its own
  state are arguments. The result carries whether the reader was cancelled.
\<close>

section \<open>Streams\<close>

record StreamReadLimits =
  maxBytes :: nat
  idleTimeoutMs :: nat

definition DEFAULT_NDJSON_STREAM_LIMITS :: StreamReadLimits where
  "DEFAULT_NDJSON_STREAM_LIMITS = \<lparr>maxBytes = 8 * 1024 * 1024, idleTimeoutMs = 5 * 60000\<rparr>"

datatype StreamTail = StreamEnds | StreamStalls | ReadFails string

record StreamBody =
  bodyChunks :: "nat list list"
  bodyTail :: StreamTail

record StreamResponse =
  responseOk :: bool
  responseBody :: "StreamBody option"
  responseStatus :: "nat option"

record 's TextDecoder =
  decoderStart :: 's
  decodeStream :: "'s \<Rightarrow> nat list \<Rightarrow> 's \<times> string"
  decodeFlush :: "'s \<Rightarrow> string"

datatype StreamError =
    HttpFailed "nat option"
  | NoBodyStream
  | StreamIdleTimeout
  | ReadFailed string
  | ResponseTooLarge nat
  | ErrorEvent "json option"
  | ReducerThrew string
  | NoDoneEvent

record ('s, 'c, 'r) StreamClient =
  decoder :: "'s TextDecoder"
  parseJson :: "string \<Rightarrow> json option"
  reduceEvent :: "'c \<Rightarrow> (string \<times> json) list \<Rightarrow> 'c \<times> (string + 'r option)"

section \<open>Lines\<close>

definition NEWLINE :: char where
  "NEWLINE = CHR 0x0A"

definition parseRecord :: "('s, 'c, 'r) StreamClient \<Rightarrow> string \<Rightarrow> (string \<times> json) list option" where
  "parseRecord client line =
     (if line = [] then None
      else case parseJson client line of Some (JObj props) \<Rightarrow> Some props | _ \<Rightarrow> None)"

record ('c, 'r) LineState =
  clientState :: 'c
  finalResult :: "'r option"
  sawDone :: bool

definition handleLine ::
  "('s, 'c, 'r) StreamClient \<Rightarrow> ('c, 'r) LineState \<Rightarrow> string \<Rightarrow> StreamError + ('c, 'r) LineState"
where
  "handleLine client st line =
     (case parseRecord client line of
        None \<Rightarrow> Inr st
      | Some message \<Rightarrow>
          if map_of message ''event'' = Some (JStr ''error'')
          then Inl (ErrorEvent (case map_of message ''message'' of Some JNull \<Rightarrow> None | m \<Rightarrow> m))
          else
            (case reduceEvent client (clientState st) message of
               (_, Inl e) \<Rightarrow> Inl (ReducerThrew e)
             | (c, Inr result) \<Rightarrow>
                 if map_of message ''event'' = Some (JStr ''done'')
                 then Inr (st\<lparr>clientState := c, sawDone := True,
                             finalResult := (case result of None \<Rightarrow> finalResult st | Some r \<Rightarrow> Some r)\<rparr>)
                 else Inr (st\<lparr>clientState := c\<rparr>)))"

text \<open>The inner loop: every complete line of the buffer is handled and removed.\<close>

function drainBuffer ::
  "('s, 'c, 'r) StreamClient \<Rightarrow> ('c, 'r) LineState \<Rightarrow> string \<Rightarrow> StreamError + (('c, 'r) LineState \<times> string)"
where
  "drainBuffer client st buffer =
     (if NEWLINE \<notin> set buffer then Inr (st, buffer)
      else
        (case handleLine client st (trim (takeWhile (\<lambda>c. c \<noteq> NEWLINE) buffer)) of
           Inl e \<Rightarrow> Inl e
         | Inr st' \<Rightarrow> drainBuffer client st' (tl (dropWhile (\<lambda>c. c \<noteq> NEWLINE) buffer))))"
  by pat_completeness auto
termination
proof (relation "measure (\<lambda>(client, st, buffer). length buffer)", goal_cases)
  case (2 client st buffer st')
  then have "dropWhile (\<lambda>c. c \<noteq> NEWLINE) buffer \<noteq> []" by (simp add: dropWhile_eq_Nil_conv)
  then show ?case
    using length_dropWhile_le [of "\<lambda>c. c \<noteq> NEWLINE" buffer]
    by (cases "dropWhile (\<lambda>c. c \<noteq> NEWLINE) buffer") auto
qed simp

declare drainBuffer.simps [simp del]

section \<open>The reading loop\<close>

record ('s, 'c, 'r) ReadState =
  lineState :: "('c, 'r) LineState"
  decoderState :: 's
  lineBuffer :: string
  responseBytes :: nat

text \<open>The outcome and whether \<open>reader.cancel()\<close> was called.\<close>

type_synonym 'r outcome = "(StreamError + 'r) \<times> bool"

definition finishStream :: "('s, 'c, 'r) StreamClient \<Rightarrow> ('s, 'c, 'r) ReadState \<Rightarrow> 'r outcome" where
  "finishStream client st =
     (case handleLine client (lineState st) (trim (lineBuffer st @ decodeFlush (decoder client) (decoderState st))) of
        Inl e \<Rightarrow> (Inl e, False)
      | Inr ls \<Rightarrow>
          if \<not> sawDone ls then (Inl NoDoneEvent, False)
          else (case finalResult ls of None \<Rightarrow> (Inl NoDoneEvent, False) | Some r \<Rightarrow> (Inr r, False)))"

fun readLoop ::
  "('s, 'c, 'r) StreamClient \<Rightarrow> StreamReadLimits \<Rightarrow> StreamTail \<Rightarrow> nat list list \<Rightarrow> ('s, 'c, 'r) ReadState \<Rightarrow> 'r outcome"
where
  "readLoop client limits ending [] st =
     (case ending of
        StreamEnds \<Rightarrow> finishStream client st
      | StreamStalls \<Rightarrow> (Inl StreamIdleTimeout, True)
      | ReadFails e \<Rightarrow> (Inl (ReadFailed e), True))"
| "readLoop client limits ending (chunk # chunks) st =
     (let bytes = responseBytes st + length chunk
      in if bytes > maxBytes limits then (Inl (ResponseTooLarge (maxBytes limits)), True)
         else
           (case decodeStream (decoder client) (decoderState st) chunk of
              (ds, text) \<Rightarrow>
                (case drainBuffer client (lineState st) (lineBuffer st @ text) of
                   Inl e \<Rightarrow> (Inl e, True)
                 | Inr (ls, buffer) \<Rightarrow>
                     readLoop client limits ending chunks
                       \<lparr>lineState = ls, decoderState = ds, lineBuffer = buffer, responseBytes = bytes\<rparr>)))"

definition initialRead :: "('s, 'c, 'r) StreamClient \<Rightarrow> 'c \<Rightarrow> ('s, 'c, 'r) ReadState" where
  "initialRead client c =
     \<lparr>lineState = \<lparr>clientState = c, finalResult = None, sawDone = False\<rparr>,
      decoderState = decoderStart (decoder client), lineBuffer = [], responseBytes = 0\<rparr>"

definition readBoundedNdjsonStream ::
  "('s, 'c, 'r) StreamClient \<Rightarrow> 'c \<Rightarrow> StreamReadLimits \<Rightarrow> StreamResponse \<Rightarrow> 'r outcome"
where
  "readBoundedNdjsonStream client c limits response =
     (if \<not> responseOk response then (Inl (HttpFailed (responseStatus response)), False)
      else case responseBody response of
        None \<Rightarrow> (Inl NoBodyStream, False)
      | Some body \<Rightarrow> readLoop client limits (bodyTail body) (bodyChunks body) (initialRead client c))"

section \<open>Chunking does not matter\<close>

definition streaming :: "'s TextDecoder \<Rightarrow> bool" where
  "streaming d \<longleftrightarrow>
     (\<forall>s xs ys. decodeStream d s (xs @ ys) =
        (case decodeStream d s xs of
           (s1, t1) \<Rightarrow> (case decodeStream d s1 ys of (s2, t2) \<Rightarrow> (s2, t1 @ t2)))) \<and>
     (\<forall>s. decodeStream d s [] = (s, []))"

lemma drainBuffer_append:
  "drainBuffer client st (b @ t) =
     (case drainBuffer client st b of
        Inl e \<Rightarrow> Inl e
      | Inr (st', rest) \<Rightarrow> drainBuffer client st' (rest @ t))"
proof (induction client st b rule: drainBuffer.induct)
  case (1 client st b)
  show ?case
  proof (cases "NEWLINE \<in> set b")
    case True
    then have "takeWhile (\<lambda>c. c \<noteq> NEWLINE) (b @ t) = takeWhile (\<lambda>c. c \<noteq> NEWLINE) b"
      "dropWhile (\<lambda>c. c \<noteq> NEWLINE) (b @ t) = dropWhile (\<lambda>c. c \<noteq> NEWLINE) b @ t"
      "dropWhile (\<lambda>c. c \<noteq> NEWLINE) b \<noteq> []"
      by (auto simp: takeWhile_append dropWhile_append)
    with True 1 show ?thesis
      by (simp add: drainBuffer.simps [of client st b] drainBuffer.simps [of client st "b @ t"] split: sum.splits)
  qed (simp add: drainBuffer.simps [of client st b])
qed

lemma drainBuffer_rest: "drainBuffer client st b = Inr (st', rest) \<Longrightarrow> NEWLINE \<notin> set rest"
  by (induction client st b rule: drainBuffer.induct)
     (auto simp: drainBuffer.simps split: if_splits sum.splits)

lemma readLoop_concat:
  assumes "streaming (decoder client)" and "responseBytes st + length (concat chunks) \<le> maxBytes limits"
    and "NEWLINE \<notin> set (lineBuffer st)"
  shows "readLoop client limits ending chunks st = readLoop client limits ending [concat chunks] st"
  using assms(2,3)
proof (induction chunks arbitrary: st)
  case Nil
  then show ?case using assms(1) by (simp add: streaming_def drainBuffer.simps finishStream_def split: StreamTail.splits)
next
  case (Cons chunk chunks)
  obtain ds piece where dec: "decodeStream (decoder client) (decoderState st) chunk = (ds, piece)" by fastforce
  obtain ds' piece2 where dec': "decodeStream (decoder client) ds (concat chunks) = (ds', piece2)" by fastforce
  have whole: "decodeStream (decoder client) (decoderState st) (chunk @ concat chunks) = (ds', piece @ piece2)"
    using assms(1) dec dec' by (simp add: streaming_def)
  show ?case
  proof (cases "drainBuffer client (lineState st) (lineBuffer st @ piece)")
    case (Inl e)
    then have "drainBuffer client (lineState st) (lineBuffer st @ piece @ piece2) = Inl e"
      using drainBuffer_append [of client "lineState st" "lineBuffer st @ piece" piece2] by simp
    with Inl Cons.prems dec whole show ?thesis by simp
  next
    case (Inr r)
    obtain ls buffer where r: "r = (ls, buffer)" by fastforce
    let ?st = "\<lparr>lineState = ls, decoderState = ds, lineBuffer = buffer, responseBytes = responseBytes st + length chunk\<rparr>"
    have "readLoop client limits ending chunks ?st = readLoop client limits ending [concat chunks] ?st"
      using Cons.prems drainBuffer_rest [OF Inr [unfolded r]] by (intro Cons.IH) simp_all
    moreover have "drainBuffer client (lineState st) (lineBuffer st @ piece @ piece2) = drainBuffer client ls (buffer @ piece2)"
      using drainBuffer_append [of client "lineState st" "lineBuffer st @ piece" piece2] Inr r by simp
    ultimately show ?thesis using Inr r Cons.prems dec dec' whole by (simp add: add.assoc)
  qed
qed

section \<open>Results\<close>

lemma readLoop_Inr:
  assumes "readLoop client limits ending chunks st = (Inr r, cancelled)"
  shows "ending = StreamEnds \<and> \<not> cancelled \<and> (chunks \<noteq> [] \<longrightarrow> responseBytes st + length (concat chunks) \<le> maxBytes limits)"
  using assms
proof (induction chunks arbitrary: st)
  case Nil
  then show ?case by (auto simp: finishStream_def split: if_splits sum.splits option.splits StreamTail.splits)
next
  case (Cons chunk chunks)
  from Cons.prems have bound: "responseBytes st + length chunk \<le> maxBytes limits"
    by (auto simp: Let_def split: if_splits)
  obtain ds piece where dec: "decodeStream (decoder client) (decoderState st) chunk = (ds, piece)" by fastforce
  from Cons.prems bound dec obtain ls buffer where
    "readLoop client limits ending chunks
       \<lparr>lineState = ls, decoderState = ds, lineBuffer = buffer, responseBytes = responseBytes st + length chunk\<rparr> =
     (Inr r, cancelled)"
    by (cases "drainBuffer client (lineState st) (lineBuffer st @ piece)") (auto simp del: readLoop.simps(1))
  from Cons.IH [OF this] bound show ?case by (cases chunks) simp_all
qed

section \<open>Properties\<close>

text \<open>
  The result does not depend on how the network cuts the stream: with a decoder that works
  piecewise, two responses with the same bytes, within the limit, give the same result or error
  and cancel the reader alike.
\<close>

theorem ndjson_chunking_irrelevant:
  assumes "streaming (decoder client)" and "concat chunks = concat chunks'"
    and "length (concat chunks) \<le> maxBytes limits"
  shows "readBoundedNdjsonStream client c limits
           \<lparr>responseOk = ok, responseBody = Some \<lparr>bodyChunks = chunks, bodyTail = ending\<rparr>, responseStatus = status\<rparr> =
         readBoundedNdjsonStream client c limits
           \<lparr>responseOk = ok, responseBody = Some \<lparr>bodyChunks = chunks', bodyTail = ending\<rparr>, responseStatus = status\<rparr>"
proof -
  have "readLoop client limits ending cs (initialRead client c) = readLoop client limits ending [concat cs] (initialRead client c)"
    if "length (concat cs) \<le> maxBytes limits" for cs
    using readLoop_concat [OF assms(1), of "initialRead client c" cs limits ending] that by (simp add: initialRead_def)
  from this [of chunks] this [of chunks'] assms(2,3) show ?thesis
    by (simp add: readBoundedNdjsonStream_def)
qed

definition exampleClient :: "(unit, unit, nat) StreamClient" where
  "exampleClient =
     \<lparr>decoder = \<lparr>decoderStart = (), decodeStream = (\<lambda>s bs. (s, map char_of bs)), decodeFlush = (\<lambda>_. [])\<rparr>,
      parseJson = (\<lambda>s. if s = ''d'' then Some (JObj [(''event'', JStr ''done'')]) else None),
      reduceEvent = (\<lambda>c m. (c, Inr (Some 7)))\<rparr>"

theorem ndjson_chunking_irrelevant_witness:
  "readBoundedNdjsonStream exampleClient () \<lparr>maxBytes = 9, idleTimeoutMs = 1\<rparr>
     \<lparr>responseOk = True, responseBody = Some \<lparr>bodyChunks = [[120], [10, 100, 10]], bodyTail = StreamEnds\<rparr>, responseStatus = None\<rparr> =
   readBoundedNdjsonStream exampleClient () \<lparr>maxBytes = 9, idleTimeoutMs = 1\<rparr>
     \<lparr>responseOk = True, responseBody = Some \<lparr>bodyChunks = [[120, 10, 100], [], [10]], bodyTail = StreamEnds\<rparr>, responseStatus = None\<rparr>"
  by (rule ndjson_chunking_irrelevant) (simp_all add: streaming_def exampleClient_def)

text \<open>
  A result is only returned for a successful response whose stream ended within the byte limit;
  the reader is then never cancelled, and every other outcome is an error.
\<close>

theorem ndjson_result_bounded:
  assumes "readBoundedNdjsonStream client c limits response = (Inr r, cancelled)"
  shows "responseOk response \<and> \<not> cancelled \<and>
         (\<exists>body. responseBody response = Some body \<and> bodyTail body = StreamEnds \<and>
            length (concat (bodyChunks body)) \<le> maxBytes limits)"
  using assms readLoop_Inr
  by (fastforce simp: readBoundedNdjsonStream_def initialRead_def split: if_splits option.splits)

theorem ndjson_result_bounded_witness:
  "\<exists>response. readBoundedNdjsonStream exampleClient () \<lparr>maxBytes = 9, idleTimeoutMs = 1\<rparr> response = (Inr 7, False) \<and>
     responseOk response"
proof -
  let ?response = "\<lparr>responseOk = True, responseBody = Some \<lparr>bodyChunks = [[100], [10]], bodyTail = StreamEnds\<rparr>, responseStatus = None\<rparr>"
  have run: "readBoundedNdjsonStream exampleClient () \<lparr>maxBytes = 9, idleTimeoutMs = 1\<rparr> ?response = (Inr 7, False)"
    by code_simp
  from ndjson_result_bounded [OF run] run show ?thesis by blast
qed

end
