(* ===== verification/Session_Types.thy ===== *)
theory Session_Types
  imports Service_Types
begin

text \<open>
  \<open>packages/core/src/navigation/mobileSession.ts\<close>: the persisted navigation session, as far as the
  storage and the lifecycle policy look into it. Start package, tick state, progress, locale and
  units are the type of the payload. The shape check of the zod schema is a field of the host; the
  refinements the source adds to it (no duplicate cues, coherent lifetime) are written out.
\<close>

section \<open>The session\<close>

definition MOBILE_NAVIGATION_SESSION_SCHEMA_VERSION :: string where
  "MOBILE_NAVIGATION_SESSION_SCHEMA_VERSION = ''2''"

definition MOBILE_NAVIGATION_SESSION_MAX_AGE_MS :: int where
  "MOBILE_NAVIGATION_SESSION_MAX_AGE_MS = 24 * 60 * 60 * 1000"

definition MOBILE_SESSION_LEDGER_LIMIT :: nat where
  "MOBILE_SESSION_LEDGER_LIMIT = 512"

datatype SessionKind = KindGround | KindTransit

datatype SessionStatus =
  StatusPreparing | StatusActive | StatusArrived | StatusStopped | StatusExpired | StatusError

datatype SessionConnectivity = ConnOnline | ConnOffline | ConnUnknown

datatype PermissionMode = ModeBackground | ModeForegroundOnly

record CueLedger =
  ledgerSpoken :: "string list"
  ledgerEvents :: "string list"

record 'p MobileSession =
  sessionId :: string
  revision :: int
  sessionKind :: SessionKind
  sessionStatus :: SessionStatus
  startedAtMs :: int
  updatedAtMs :: int
  expiresAtMs :: int
  sessionConnectivity :: SessionConnectivity
  permissionMode :: PermissionMode
  cueLedger :: CueLedger
  lastAcceptedFixMs :: "int option"
  sessionPayload :: 'p

record 'p SessionHost =
  stringifySession :: "'p MobileSession \<Rightarrow> string"
  sessionJson :: "string \<Rightarrow> json option"
  sessionShape :: "json \<Rightarrow> 'p MobileSession option"
  stringifyJson :: "json \<Rightarrow> string"

datatype SessionParseError = UnsupportedSchema | InvalidSession

definition ledgerRefine :: "CueLedger \<Rightarrow> bool" where
  "ledgerRefine ledger \<longleftrightarrow>
     length (ledgerSpoken ledger) \<le> MOBILE_SESSION_LEDGER_LIMIT \<and>
     length (ledgerEvents ledger) \<le> MOBILE_SESSION_LEDGER_LIMIT \<and>
     distinct (ledgerSpoken ledger) \<and> distinct (ledgerEvents ledger)"

definition hasCoherentLifetime :: "'p MobileSession \<Rightarrow> bool" where
  "hasCoherentLifetime session \<longleftrightarrow>
     \<not> updatedAtMs session < startedAtMs session \<and>
     \<not> expiresAtMs session \<le> startedAtMs session \<and>
     expiresAtMs session - startedAtMs session \<le> MOBILE_NAVIGATION_SESSION_MAX_AGE_MS"

definition mobileNavigationSessionSchema :: "'p SessionHost \<Rightarrow> json \<Rightarrow> 'p MobileSession option" where
  "mobileNavigationSessionSchema host value =
     (case sessionShape host value of
        None \<Rightarrow> None
      | Some s \<Rightarrow> if ledgerRefine (cueLedger s) \<and> hasCoherentLifetime s then Some s else None)"

definition parseMobileSession :: "'p SessionHost \<Rightarrow> string \<Rightarrow> SessionParseError + 'p MobileSession" where
  "parseMobileSession host raw =
     (case sessionJson host raw of
        None \<Rightarrow> Inl InvalidSession
      | Some decoded \<Rightarrow>
          (case jsonProp ''schemaVersion'' decoded of
             Some (JNum n) \<Rightarrow>
               if n \<noteq> MOBILE_NAVIGATION_SESSION_SCHEMA_VERSION then Inl UnsupportedSchema
               else (case mobileNavigationSessionSchema host decoded of
                       None \<Rightarrow> Inl InvalidSession
                     | Some s \<Rightarrow> Inr s)
           | _ \<Rightarrow> Inl InvalidSession))"

definition isMobileSessionExpired :: "'p MobileSession \<Rightarrow> int \<Rightarrow> bool" where
  "isMobileSessionExpired session nowMs \<longleftrightarrow> nowMs \<ge> expiresAtMs session"

definition appendToLedger :: "string list \<Rightarrow> string list \<Rightarrow> string list" where
  "appendToLedger ledger ids =
     (let appended = foldl (\<lambda>acc i. if i \<in> set acc then acc else acc @ [i]) ledger ids
      in drop (length appended - MOBILE_SESSION_LEDGER_LIMIT) appended)"

record RedactedSession =
  redKind :: SessionKind
  redStatus :: SessionStatus
  redRevision :: int
  redAgeMs :: int
  redConnectivity :: SessionConnectivity
  redPermissionMode :: PermissionMode
  redSpokenCueCount :: nat
  redEventCount :: nat
  redHasLastFix :: bool

definition redactSessionForDiagnostics :: "'p MobileSession \<Rightarrow> int \<Rightarrow> RedactedSession" where
  "redactSessionForDiagnostics session nowMs =
     \<lparr>redKind = sessionKind session, redStatus = sessionStatus session, redRevision = revision session,
      redAgeMs = max 0 (nowMs - startedAtMs session), redConnectivity = sessionConnectivity session,
      redPermissionMode = permissionMode session,
      redSpokenCueCount = length (ledgerSpoken (cueLedger session)),
      redEventCount = length (ledgerEvents (cueLedger session)), redHasLastFix = (lastAcceptedFixMs session \<noteq> None)\<rparr>"

datatype FinalStatus = FinalArrived | FinalStopped | FinalExpired | FinalError

record MobileTerminalAck =
  ackSessionId :: string
  ackKind :: SessionKind
  finalStatus :: FinalStatus
  finalRevision :: int
  completedAtMs :: int

section \<open>Lifecycle policy\<close>

text \<open>\<open>apps/mobile/src/lifecycle/lifecyclePolicy.ts\<close>: what the shell does when the app's visibility changes.\<close>

datatype AppVisibility = VisActive | VisInactive | VisBackground

record 'p LifecycleInput =
  lifeSession :: "'p MobileSession option"
  visibility :: AppVisibility
  driverRunning :: bool
  lifeNowMs :: int

datatype LifecycleAction =
    KeepTracking
  | PauseForegroundOnly
  | OfferResumeForegroundOnly
  | ExpireSession
  | OfferResume
  | StopOrphanDriver
  | KeepAwake bool

definition isLive :: "'p MobileSession \<Rightarrow> bool" where
  "isLive session \<longleftrightarrow> sessionStatus session \<in> {StatusPreparing, StatusActive}"

definition decideLifecycle :: "'p LifecycleInput \<Rightarrow> LifecycleAction list" where
  "decideLifecycle input =
     (let visible = visibility input = VisActive;
          orphan = (if driverRunning input then [StopOrphanDriver] else []) @ [KeepAwake False]
      in case lifeSession input of
           None \<Rightarrow> orphan
         | Some session \<Rightarrow>
             if \<not> isLive session then orphan
             else if lifeNowMs input \<ge> expiresAtMs session then [ExpireSession, KeepAwake False]
             else if permissionMode session = ModeForegroundOnly
             then (if \<not> visible then [PauseForegroundOnly, KeepAwake False]
                   else if driverRunning input then [KeepTracking, KeepAwake True]
                   else [OfferResumeForegroundOnly, KeepAwake False])
             else if driverRunning input then [KeepTracking, KeepAwake visible]
             else [OfferResume, KeepAwake False])"

definition planIncludes :: "LifecycleAction list \<Rightarrow> LifecycleAction \<Rightarrow> bool" where
  "planIncludes plan kind = list_ex ((=) kind) plan"

section \<open>Lemmas\<close>

lemma appendUnique_distinct:
  "distinct ledger \<Longrightarrow> distinct (foldl (\<lambda>acc i. if i \<in> set acc then acc else acc @ [i]) ledger ids)"
  by (induction ids arbitrary: ledger) simp_all

lemma appendUnique_set:
  "set (foldl (\<lambda>acc i. if i \<in> set acc then acc else acc @ [i]) ledger ids) = set ledger \<union> set ids"
  by (induction ids arbitrary: ledger) auto

lemma appendToLedger_ok:
  "distinct ledger \<Longrightarrow> distinct (appendToLedger ledger ids) \<and> length (appendToLedger ledger ids) \<le> MOBILE_SESSION_LEDGER_LIMIT"
  by (simp add: appendToLedger_def Let_def appendUnique_distinct)

lemma parse_valid:
  "parseMobileSession host raw = Inr s \<Longrightarrow>
     hasCoherentLifetime s \<and> ledgerRefine (cueLedger s)"
  by (auto simp: parseMobileSession_def mobileNavigationSessionSchema_def
      split: option.splits json.splits if_splits)

lemma not_foreground [simp]: "m \<noteq> ModeForegroundOnly \<longleftrightarrow> m = ModeBackground"
  by (cases m) simp_all

section \<open>Properties\<close>

text \<open>
  The shell tracks only with a reason: tracking continues exactly when a live, unexpired session
  has its driver running and is visible or may run in the background. So a session whose driver has stopped is
  never tracked again by the policy alone.
\<close>

theorem lifecycle_never_resumes_silently:
  "planIncludes (decideLifecycle input) KeepTracking \<longleftrightarrow>
     driverRunning input \<and>
     (\<exists>s. lifeSession input = Some s \<and> isLive s \<and> \<not> isMobileSessionExpired s (lifeNowMs input) \<and>
          (permissionMode s = ModeBackground \<or> visibility input = VisActive))"
  by (cases "lifeSession input")
     (auto simp: decideLifecycle_def planIncludes_def Let_def isMobileSessionExpired_def)

end
