(* ===== verification/Session_Tables.thy ===== *)
theory Session_Tables
  imports Session_Types "HOL-Library.List_Lexorder" "HOL-Library.Char_ord"
begin

text \<open>
  \<open>apps/mobile/src/storage/sql.ts\<close>: the tables of the on-device database and the statements the app
  issues, one definition per statement. A table is the list of its rows in the order of insertion,
  \<open>active_navigation\<close> with its check \<open>id = 1\<close> an optional row; text is compared by its code units.
  A statement that can violate a \<open>CHECK\<close> constraint returns the error.
\<close>

section \<open>Tables\<close>

record ActiveRow =
  arSessionId :: string
  arRevision :: int
  arKind :: SessionKind
  arStatus :: SessionStatus
  arStartedAtMs :: int
  arUpdatedAtMs :: int
  arExpiresAtMs :: int
  arJson :: string

record EventRow =
  evEventId :: string
  evSessionId :: string
  evCritical :: bool
  evSequence :: int
  evCreatedAtMs :: int
  evPayload :: string

record CommandRow =
  cmMessageId :: string
  cmSessionId :: "string option"
  cmResponse :: string
  cmCreatedAtMs :: int
  cmExpiresAtMs :: int

datatype AlertState = AlertScheduled | AlertFired | AlertCancelled

record AlertRow =
  alAlertId :: string
  alSessionId :: string
  alLegIndex :: int
  alTriggerAtMs :: int
  alState :: AlertState
  alUpdatedAtMs :: int

record DiagnosticEntry =
  dgId :: nat
  dgCreatedAtMs :: int
  dgType :: string
  dgFields :: string

record QuarantineRow =
  qrId :: nat
  qrAtMs :: int
  qrReason :: string
  qrSessionId :: "string option"
  qrSchemaVersion :: "int option"

record Tables =
  activeNavigation :: "ActiveRow option"
  terminalAcks :: "MobileTerminalAck list"
  navigationEvents :: "EventRow list"
  processedCommands :: "CommandRow list"
  scheduledAlerts :: "AlertRow list"
  diagnosticEvents :: "DiagnosticEntry list"
  diagnosticCounter :: nat
  quarantinedSessions :: "QuarantineRow list"
  quarantineCounter :: nat

datatype StoreError =
    CheckViolated
  | MutationThrew string
  | IdentityChanged
  | RevisionSkipped
  | UnreadableJson

definition emptyTables :: Tables where
  "emptyTables =
     \<lparr>activeNavigation = None, terminalAcks = [], navigationEvents = [], processedCommands = [],
      scheduledAlerts = [], diagnosticEvents = [], diagnosticCounter = 0, quarantinedSessions = [],
      quarantineCounter = 0\<rparr>"

section \<open>Active session and acknowledgements\<close>

definition UPSERT_ACTIVE :: "ActiveRow \<Rightarrow> Tables \<Rightarrow> StoreError + Tables" where
  "UPSERT_ACTIVE row t = (if arRevision row < 0 then Inl CheckViolated else Inr (t\<lparr>activeNavigation := Some row\<rparr>))"

definition DELETE_ACTIVE :: "Tables \<Rightarrow> Tables" where
  "DELETE_ACTIVE t = t\<lparr>activeNavigation := None\<rparr>"

text \<open>On conflict the kind of the existing row is kept.\<close>

fun upsertAck :: "MobileTerminalAck \<Rightarrow> MobileTerminalAck list \<Rightarrow> MobileTerminalAck list" where
  "upsertAck a [] = [a]"
| "upsertAck a (b # bs) =
     (if ackSessionId b = ackSessionId a
      then b\<lparr>finalStatus := finalStatus a, finalRevision := finalRevision a, completedAtMs := completedAtMs a\<rparr> # bs
      else b # upsertAck a bs)"

definition UPSERT_TERMINAL_ACK :: "MobileTerminalAck \<Rightarrow> Tables \<Rightarrow> StoreError + Tables" where
  "UPSERT_TERMINAL_ACK a t =
     (if finalRevision a < 0 then Inl CheckViolated
      else Inr (t\<lparr>terminalAcks := upsertAck a (terminalAcks t)\<rparr>))"

definition SELECT_TERMINAL_ACK :: "string \<Rightarrow> Tables \<Rightarrow> MobileTerminalAck option" where
  "SELECT_TERMINAL_ACK sid t = find (\<lambda>a. ackSessionId a = sid) (terminalAcks t)"

section \<open>Outbox\<close>

definition sessionEvents :: "string \<Rightarrow> EventRow list \<Rightarrow> EventRow list" where
  "sessionEvents sid es = filter (\<lambda>e. evSessionId e = sid) es"

definition INSERT_EVENT :: "EventRow \<Rightarrow> Tables \<Rightarrow> Tables" where
  "INSERT_EVENT e t =
     (if list_ex (\<lambda>x. evEventId x = evEventId e) (navigationEvents t) then t
      else t\<lparr>navigationEvents := navigationEvents t @ [e]\<rparr>)"

definition SELECT_EVENTS :: "string \<Rightarrow> Tables \<Rightarrow> EventRow list" where
  "SELECT_EVENTS sid t = sort_key evSequence (sessionEvents sid (navigationEvents t))"

definition COUNT_EVENTS :: "string \<Rightarrow> Tables \<Rightarrow> nat" where
  "COUNT_EVENTS sid t = length (sessionEvents sid (navigationEvents t))"

definition NEXT_EVENT_SEQUENCE :: "string \<Rightarrow> Tables \<Rightarrow> int" where
  "NEXT_EVENT_SEQUENCE sid t =
     (case map evSequence (sessionEvents sid (navigationEvents t)) of [] \<Rightarrow> 0 | x # xs \<Rightarrow> foldl max x xs) + 1"

definition DELETE_EVENT :: "string \<Rightarrow> Tables \<Rightarrow> Tables" where
  "DELETE_EVENT i t = t\<lparr>navigationEvents := filter (\<lambda>e. evEventId e \<noteq> i) (navigationEvents t)\<rparr>"

definition DELETE_NON_CRITICAL_EVENTS :: "string \<Rightarrow> Tables \<Rightarrow> Tables" where
  "DELETE_NON_CRITICAL_EVENTS sid t =
     t\<lparr>navigationEvents := filter (\<lambda>e. \<not> (evSessionId e = sid \<and> \<not> evCritical e)) (navigationEvents t)\<rparr>"

definition DELETE_SESSION_EVENTS :: "string \<Rightarrow> Tables \<Rightarrow> Tables" where
  "DELETE_SESSION_EVENTS sid t =
     t\<lparr>navigationEvents := filter (\<lambda>e. evSessionId e \<noteq> sid) (navigationEvents t)\<rparr>"

section \<open>Commands\<close>

definition INSERT_PROCESSED_COMMAND :: "CommandRow \<Rightarrow> Tables \<Rightarrow> Tables" where
  "INSERT_PROCESSED_COMMAND c t =
     (if list_ex (\<lambda>x. cmMessageId x = cmMessageId c) (processedCommands t) then t
      else t\<lparr>processedCommands := processedCommands t @ [c]\<rparr>)"

definition SELECT_PROCESSED_COMMAND :: "string \<Rightarrow> Tables \<Rightarrow> CommandRow option" where
  "SELECT_PROCESSED_COMMAND i t = find (\<lambda>c. cmMessageId c = i) (processedCommands t)"

definition DELETE_EXPIRED_COMMANDS :: "int \<Rightarrow> Tables \<Rightarrow> Tables" where
  "DELETE_EXPIRED_COMMANDS now t =
     t\<lparr>processedCommands := filter (\<lambda>c. \<not> cmExpiresAtMs c \<le> now) (processedCommands t)\<rparr>"

text \<open>\<open>ORDER BY a DESC, b DESC\<close>: two stable sorts and a reversal.\<close>

definition newestCommands :: "CommandRow list \<Rightarrow> CommandRow list" where
  "newestCommands cs = rev (sort_key cmCreatedAtMs (sort_key cmMessageId cs))"

definition TRIM_PROCESSED_COMMANDS :: "nat \<Rightarrow> Tables \<Rightarrow> Tables" where
  "TRIM_PROCESSED_COMMANDS n t =
     (let old = map cmMessageId (drop n (newestCommands (processedCommands t)))
      in t\<lparr>processedCommands := filter (\<lambda>c. cmMessageId c \<notin> set old) (processedCommands t)\<rparr>)"

definition DELETE_SESSION_COMMANDS :: "string \<Rightarrow> Tables \<Rightarrow> Tables" where
  "DELETE_SESSION_COMMANDS sid t =
     t\<lparr>processedCommands := filter (\<lambda>c. cmSessionId c \<noteq> Some sid) (processedCommands t)\<rparr>"

section \<open>Alerts\<close>

text \<open>On conflict the session of the existing row is kept.\<close>

fun upsertAlert :: "AlertRow \<Rightarrow> AlertRow list \<Rightarrow> AlertRow list" where
  "upsertAlert a [] = [a]"
| "upsertAlert a (b # bs) =
     (if alAlertId b = alAlertId a
      then b\<lparr>alLegIndex := alLegIndex a, alTriggerAtMs := alTriggerAtMs a, alState := AlertScheduled,
             alUpdatedAtMs := alUpdatedAtMs a\<rparr> # bs
      else b # upsertAlert a bs)"

definition INSERT_SCHEDULED_ALERT :: "AlertRow \<Rightarrow> Tables \<Rightarrow> StoreError + Tables" where
  "INSERT_SCHEDULED_ALERT a t =
     (if alLegIndex a < 0 then Inl CheckViolated
      else Inr (t\<lparr>scheduledAlerts := upsertAlert a (scheduledAlerts t)\<rparr>))"

definition SELECT_SCHEDULED_ALERTS :: "string \<Rightarrow> Tables \<Rightarrow> AlertRow list" where
  "SELECT_SCHEDULED_ALERTS sid t =
     sort_key alTriggerAtMs (sort_key alAlertId (filter (\<lambda>a. alSessionId a = sid) (scheduledAlerts t)))"

definition UPDATE_ALERT_STATE :: "AlertState \<Rightarrow> int \<Rightarrow> string \<Rightarrow> Tables \<Rightarrow> Tables" where
  "UPDATE_ALERT_STATE st now i t =
     t\<lparr>scheduledAlerts :=
         map (\<lambda>a. if alAlertId a = i then a\<lparr>alState := st, alUpdatedAtMs := now\<rparr> else a) (scheduledAlerts t)\<rparr>"

definition DELETE_SESSION_ALERTS :: "string \<Rightarrow> Tables \<Rightarrow> Tables" where
  "DELETE_SESSION_ALERTS sid t =
     t\<lparr>scheduledAlerts := filter (\<lambda>a. alSessionId a \<noteq> sid) (scheduledAlerts t)\<rparr>"

section \<open>Diagnostics\<close>

definition INSERT_DIAGNOSTIC :: "int \<Rightarrow> string \<Rightarrow> string \<Rightarrow> Tables \<Rightarrow> Tables" where
  "INSERT_DIAGNOSTIC now ty body t =
     t\<lparr>diagnosticCounter := diagnosticCounter t + 1,
       diagnosticEvents := diagnosticEvents t @
         [\<lparr>dgId = diagnosticCounter t + 1, dgCreatedAtMs = now, dgType = ty, dgFields = body\<rparr>]\<rparr>"

definition SELECT_DIAGNOSTICS :: "Tables \<Rightarrow> DiagnosticEntry list" where
  "SELECT_DIAGNOSTICS t = sort_key dgId (diagnosticEvents t)"

definition DIAGNOSTIC_USAGE :: "DiagnosticEntry list \<Rightarrow> nat \<times> nat" where
  "DIAGNOSTIC_USAGE ds = (length ds, sum_list (map (\<lambda>d. length (dgFields d) + length (dgType d) + 32) ds))"

definition DELETE_OLDEST_DIAGNOSTICS :: "nat \<Rightarrow> DiagnosticEntry list \<Rightarrow> DiagnosticEntry list" where
  "DELETE_OLDEST_DIAGNOSTICS n ds =
     (let old = map dgId (take n (sort_key dgId ds)) in filter (\<lambda>d. dgId d \<notin> set old) ds)"

definition DELETE_ALL_DIAGNOSTICS :: "Tables \<Rightarrow> Tables" where
  "DELETE_ALL_DIAGNOSTICS t = t\<lparr>diagnosticEvents := []\<rparr>"

section \<open>Quarantine\<close>

definition INSERT_QUARANTINE :: "int \<Rightarrow> string \<Rightarrow> string option \<Rightarrow> int option \<Rightarrow> Tables \<Rightarrow> Tables" where
  "INSERT_QUARANTINE now why sid schema t =
     t\<lparr>quarantineCounter := quarantineCounter t + 1,
       quarantinedSessions := quarantinedSessions t @
         [\<lparr>qrId = quarantineCounter t + 1, qrAtMs = now, qrReason = why, qrSessionId = sid, qrSchemaVersion = schema\<rparr>]\<rparr>"

definition SELECT_QUARANTINE :: "Tables \<Rightarrow> QuarantineRow list" where
  "SELECT_QUARANTINE t = rev (sort_key qrAtMs (sort_key qrId (quarantinedSessions t)))"

definition TRIM_QUARANTINE :: "nat \<Rightarrow> Tables \<Rightarrow> Tables" where
  "TRIM_QUARANTINE n t =
     (let kept = map qrId (take n (SELECT_QUARANTINE t))
      in t\<lparr>quarantinedSessions := filter (\<lambda>q. qrId q \<in> set kept) (quarantinedSessions t)\<rparr>)"

section \<open>Lemmas\<close>

lemma ids_filter: "distinct (map f xs) \<Longrightarrow> distinct (map f (filter P xs))"
  by (induction xs) auto

text \<open>Deleting what is ranked behind the first \<open>n\<close> rows leaves at most \<open>n\<close>.\<close>

lemma trim_length:
  assumes "distinct (map f rows)" and "set ranked = set rows"
  shows "length (filter (\<lambda>r. f r \<notin> set (map f (drop n ranked))) rows) \<le> n"
    and "length (filter (\<lambda>r. f r \<in> set (map f (take n ranked))) rows) \<le> n"
proof -
  have rows: "distinct rows" using assms(1) by (simp add: distinct_map)
  have inj: "inj_on f (set rows)" using assms(1) by (simp add: distinct_map)
  have small: "length (filter P rows) \<le> n" if "\<And>r. r \<in> set rows \<Longrightarrow> P r \<Longrightarrow> r \<in> set (take n ranked)" for P
  proof -
    have "length (filter P rows) = card (set (filter P rows))"
      using rows by (intro distinct_card [symmetric] distinct_filter)
    also have "\<dots> \<le> card (set (take n ranked))"
      using that by (intro card_mono) auto
    also have "\<dots> \<le> n" by (rule order_trans [OF card_length]) simp
    finally show ?thesis .
  qed
  have split: "set ranked = set (take n ranked) \<union> set (drop n ranked)"
    by (metis append_take_drop_id set_append)
  show "length (filter (\<lambda>r. f r \<notin> set (map f (drop n ranked))) rows) \<le> n"
    using assms(2) split by (intro small) auto
  show "length (filter (\<lambda>r. f r \<in> set (map f (take n ranked))) rows) \<le> n"
  proof (rule small)
    fix r assume "r \<in> set rows" "f r \<in> set (map f (take n ranked))"
    then obtain r' where "r' \<in> set (take n ranked)" "f r' = f r" by auto
    moreover from this have "r' \<in> set rows" using assms(2) split by blast
    ultimately show "r \<in> set (take n ranked)" using inj \<open>r \<in> set rows\<close> by (metis inj_onD)
  qed
qed

lemma set_newestCommands [simp]: "set (newestCommands cs) = set cs"
  by (simp add: newestCommands_def)

lemma set_SELECT_QUARANTINE [simp]: "set (SELECT_QUARANTINE t) = set (quarantinedSessions t)"
  by (simp add: SELECT_QUARANTINE_def)

lemma length_newestCommands [simp]: "length (newestCommands cs) = length cs"
  by (simp add: newestCommands_def)

lemma upsertAck_ids:
  "set (map ackSessionId (upsertAck a as)) = insert (ackSessionId a) (set (map ackSessionId as))"
  "distinct (map ackSessionId as) \<Longrightarrow> distinct (map ackSessionId (upsertAck a as))"
  by (induction as) auto

lemma upsertAlert_ids:
  "set (map alAlertId (upsertAlert a as)) = insert (alAlertId a) (set (map alAlertId as))"
  "distinct (map alAlertId as) \<Longrightarrow> distinct (map alAlertId (upsertAlert a as))"
  by (induction as) auto

lemma foldl_max_ge: "(x :: int) \<le> foldl max x xs" "y \<in> set xs \<Longrightarrow> y \<le> foldl max x xs"
proof (induction xs arbitrary: x)
  case (Cons z zs)
  { case 1 show ?case using Cons.IH(1) [of "max x z"] by simp }
  { case 2 then show ?case using Cons.IH(1) [of "max x z"] Cons.IH(2) [of "max x z"] by auto }
qed simp_all

lemma next_sequence_above: "e \<in> set (sessionEvents sid (navigationEvents t)) \<Longrightarrow> evSequence e < NEXT_EVENT_SEQUENCE sid t"
  using foldl_max_ge [where xs = "tl (map evSequence (sessionEvents sid (navigationEvents t)))"
      and x = "hd (map evSequence (sessionEvents sid (navigationEvents t)))"]
  by (cases "sessionEvents sid (navigationEvents t)") (auto simp: NEXT_EVENT_SEQUENCE_def)

end
