(* ===== verification/Session_Repository.thy ===== *)
theory Session_Repository
  imports Session_Tables Reducer
begin

text \<open>
  \<open>apps/mobile/src/storage/SessionRepository.ts\<close>: the single writer of the navigation session. A
  method is a function on the tables; a transaction that throws leaves them as they were. Parsing
  and printing JSON are fields of the host. Reads and writes of one method form one step, which is
  what the exclusive transactions and the write queue of \<open>database.ts\<close> give.
\<close>

section \<open>Types\<close>

datatype SpeechLocale = LocaleEn | LocaleDe

datatype SessionEffect =
    ReconcileSurface
  | StartLocation PermissionMode
  | StopLocation
  | UpdateLocationProfile string
  | Speak string string SpeechLocale
  | StopAudio
  | ReconcileAlerts string
  | CancelSessionAlerts string
  | PublishSnapshot bool
  | PublishEvent string
  | RequestReroute string
  | RequestTransitRefresh string

record EventDraft =
  draftEventId :: string
  draftCritical :: bool
  draftPayload :: json

record OutboxEvent =
  outboxDraft :: EventDraft
  outboxSessionId :: string
  outboxCreatedAtMs :: int

record PendingEvent =
  pendingEvent :: OutboxEvent
  pendingSequence :: int

record ScheduledAlertInput =
  inputAlertId :: string
  inputLegIndex :: int
  inputTriggerAtMs :: int

record 'p RepositoryMutation =
  mutSession :: "'p MobileSession"
  mutEffects :: "SessionEffect list"
  mutEnqueue :: "EventDraft list"
  mutAlerts :: "ScheduledAlertInput list option"

datatype CommitFailure = RevisionConflict | NoActiveSession | SessionActive | CorruptSession

type_synonym 'p CommitResult = "CommitFailure + 'p MobileSession \<times> SessionEffect list"

datatype 'p ActiveSessionInspection = InspectNone | InspectQuarantined | InspectActive "'p MobileSession"

definition MAX_OUTBOX_EVENTS :: nat where
  "MAX_OUTBOX_EVENTS = 256"

definition MAX_PROCESSED_COMMANDS :: nat where
  "MAX_PROCESSED_COMMANDS = 1024"

definition PROCESSED_COMMAND_TTL_MS :: int where
  "PROCESSED_COMMAND_TTL_MS = 24 * 60 * 60 * 1000"

definition MAX_DIAGNOSTIC_ROWS :: nat where
  "MAX_DIAGNOSTIC_ROWS = 5000"

definition MAX_DIAGNOSTIC_BYTES :: nat where
  "MAX_DIAGNOSTIC_BYTES = 1024 * 1024"

definition MAX_QUARANTINE_RECORDS :: nat where
  "MAX_QUARANTINE_RECORDS = 3"

definition MAX_QUARANTINE_REASON_LENGTH :: nat where
  "MAX_QUARANTINE_REASON_LENGTH = 64"

definition TERMINAL_STATUSES :: "SessionStatus list" where
  "TERMINAL_STATUSES = [StatusArrived, StatusStopped, StatusExpired, StatusError]"

definition withExclusiveTransaction ::
  "(Tables \<Rightarrow> StoreError + ('r \<times> Tables)) \<Rightarrow> Tables \<Rightarrow> (StoreError + 'r) \<times> Tables"
where
  "withExclusiveTransaction body t =
     (case body t of Inl e \<Rightarrow> (Inl e, t) | Inr (r, t') \<Rightarrow> (Inr r, t'))"

section \<open>Internal helpers\<close>

definition activeRow :: "'p SessionHost \<Rightarrow> 'p MobileSession \<Rightarrow> ActiveRow" where
  "activeRow host session =
     \<lparr>arSessionId = sessionId session, arRevision = revision session, arKind = sessionKind session,
      arStatus = sessionStatus session, arStartedAtMs = startedAtMs session,
      arUpdatedAtMs = updatedAtMs session, arExpiresAtMs = expiresAtMs session,
      arJson = stringifySession host session\<rparr>"

definition writeActive :: "'p SessionHost \<Rightarrow> 'p MobileSession \<Rightarrow> Tables \<Rightarrow> StoreError + Tables" where
  "writeActive host session = UPSERT_ACTIVE (activeRow host session)"

definition deleteSessionRows :: "string \<Rightarrow> Tables \<Rightarrow> Tables" where
  "deleteSessionRows sid t =
     DELETE_SESSION_COMMANDS sid (DELETE_SESSION_ALERTS sid (DELETE_SESSION_EVENTS sid (DELETE_ACTIVE t)))"

definition insertNext :: "'p SessionHost \<Rightarrow> OutboxEvent \<Rightarrow> Tables \<Rightarrow> Tables" where
  "insertNext host event t =
     INSERT_EVENT
       \<lparr>evEventId = draftEventId (outboxDraft event), evSessionId = outboxSessionId event,
        evCritical = draftCritical (outboxDraft event),
        evSequence = NEXT_EVENT_SEQUENCE (outboxSessionId event) t,
        evCreatedAtMs = outboxCreatedAtMs event,
        evPayload = stringifyJson host (draftPayload (outboxDraft event))\<rparr> t"

definition enqueueEventIn :: "'p SessionHost \<Rightarrow> OutboxEvent \<Rightarrow> Tables \<Rightarrow> Tables" where
  "enqueueEventIn host event t =
     (if COUNT_EVENTS (outboxSessionId event) t \<ge> MAX_OUTBOX_EVENTS
      then
        let compacted = DELETE_NON_CRITICAL_EVENTS (outboxSessionId event) t
        in if COUNT_EVENTS (outboxSessionId event) compacted \<ge> MAX_OUTBOX_EVENTS then compacted
           else insertNext host event compacted
      else insertNext host event t)"

fun insertAlerts :: "string \<Rightarrow> int \<Rightarrow> ScheduledAlertInput list \<Rightarrow> Tables \<Rightarrow> StoreError + Tables" where
  "insertAlerts sid now [] t = Inr t"
| "insertAlerts sid now (a # rest) t =
     (case INSERT_SCHEDULED_ALERT
             \<lparr>alAlertId = inputAlertId a, alSessionId = sid, alLegIndex = inputLegIndex a,
              alTriggerAtMs = inputTriggerAtMs a, alState = AlertScheduled, alUpdatedAtMs = now\<rparr> t of
        Inl e \<Rightarrow> Inl e
      | Inr t' \<Rightarrow> insertAlerts sid now rest t')"

definition replaceAlertsIn :: "string \<Rightarrow> ScheduledAlertInput list \<Rightarrow> int \<Rightarrow> Tables \<Rightarrow> StoreError + Tables" where
  "replaceAlertsIn sid inputs now t = insertAlerts sid now inputs (DELETE_SESSION_ALERTS sid t)"

section \<open>Session methods\<close>

definition createPreparing ::
  "'p SessionHost \<Rightarrow> 'p MobileSession \<Rightarrow> Tables \<Rightarrow> (StoreError + 'p CommitResult) \<times> Tables"
where
  "createPreparing host session =
     withExclusiveTransaction (\<lambda>t.
       let write = (\<lambda>t'. case writeActive host session t' of
                            Inl e \<Rightarrow> Inl e | Inr t'' \<Rightarrow> Inr (Inr (session, []), t''))
       in case activeNavigation t of
            None \<Rightarrow> write t
          | Some existing \<Rightarrow>
              (case parseMobileSession host (arJson existing) of
                 Inr s \<Rightarrow>
                   if sessionStatus s \<notin> set TERMINAL_STATUSES then Inr (Inl SessionActive, t)
                   else write (deleteSessionRows (arSessionId existing) t)
               | Inl _ \<Rightarrow> write (deleteSessionRows (arSessionId existing) t)))"

definition commitMutation ::
  "'p SessionHost \<Rightarrow> string \<Rightarrow> int \<Rightarrow> int \<Rightarrow> 'p RepositoryMutation \<Rightarrow> Tables \<Rightarrow> StoreError + ('p CommitResult \<times> Tables)"
where
  "commitMutation host sid expectedRevision now mutation t =
     (if sessionId (mutSession mutation) \<noteq> sid then Inl IdentityChanged
      else if revision (mutSession mutation) \<noteq> expectedRevision + 1 then Inl RevisionSkipped
      else case writeActive host (mutSession mutation) t of
        Inl e \<Rightarrow> Inl e
      | Inr t1 \<Rightarrow>
          let t2 = foldl (\<lambda>acc draft. enqueueEventIn host
                            \<lparr>outboxDraft = draft, outboxSessionId = sid, outboxCreatedAtMs = now\<rparr> acc)
                     t1 (mutEnqueue mutation);
              committed = Inr (mutSession mutation, mutEffects mutation)
          in case mutAlerts mutation of
               None \<Rightarrow> Inr (committed, t2)
             | Some inputs \<Rightarrow>
                 (case replaceAlertsIn sid inputs now t2 of Inl e \<Rightarrow> Inl e | Inr t3 \<Rightarrow> Inr (committed, t3)))"

definition compareAndSwap ::
  "'p SessionHost \<Rightarrow> string \<Rightarrow> int \<Rightarrow> ('p MobileSession \<Rightarrow> string + 'p RepositoryMutation) \<Rightarrow> int \<Rightarrow> Tables
     \<Rightarrow> (StoreError + 'p CommitResult) \<times> Tables"
where
  "compareAndSwap host sid expectedRevision mutate now =
     withExclusiveTransaction (\<lambda>t.
       case activeNavigation t of
         None \<Rightarrow> Inr (Inl NoActiveSession, t)
       | Some row \<Rightarrow>
           (case parseMobileSession host (arJson row) of
              Inl _ \<Rightarrow> Inr (Inl CorruptSession, t)
            | Inr current \<Rightarrow>
                if sessionId current \<noteq> sid \<or> revision current \<noteq> expectedRevision
                then Inr (Inl RevisionConflict, t)
                else (case mutate current of
                        Inl e \<Rightarrow> Inl (MutationThrew e)
                      | Inr mutation \<Rightarrow> commitMutation host sid expectedRevision now mutation t)))"

definition terminationEffects :: "string \<Rightarrow> SessionEffect list" where
  "terminationEffects sid =
     [StopLocation, StopAudio, CancelSessionAlerts sid, ReconcileSurface, PublishSnapshot True]"

definition terminate ::
  "'p SessionHost \<Rightarrow> string \<Rightarrow> FinalStatus \<Rightarrow> int \<Rightarrow> Tables
     \<Rightarrow> (StoreError + MobileTerminalAck option \<times> SessionEffect list) \<times> Tables"
where
  "terminate host sid status now =
     withExclusiveTransaction (\<lambda>t.
       case activeNavigation t of
         None \<Rightarrow> Inr ((None, []), t)
       | Some row \<Rightarrow>
           if arSessionId row \<noteq> sid then Inr ((None, []), t)
           else
             let ack = \<lparr>ackSessionId = sid,
                        ackKind = (case parseMobileSession host (arJson row) of
                                     Inr s \<Rightarrow> sessionKind s | Inl _ \<Rightarrow> KindGround),
                        finalStatus = status, finalRevision = arRevision row, completedAtMs = now\<rparr>
             in case UPSERT_TERMINAL_ACK ack t of
                  Inl e \<Rightarrow> Inl e
                | Inr t' \<Rightarrow> Inr ((Some ack, terminationEffects sid), deleteSessionRows sid t'))"

definition quarantineCorruptSession :: "string option \<Rightarrow> string \<Rightarrow> int \<Rightarrow> Tables \<Rightarrow> Tables" where
  "quarantineCorruptSession sid why now t =
     (let t1 = DELETE_ACTIVE (INSERT_QUARANTINE now (take MAX_QUARANTINE_REASON_LENGTH why) sid None t);
          t2 = (case sid of
                  None \<Rightarrow> t1
                | Some i \<Rightarrow>
                    if i = [] then t1
                    else DELETE_SESSION_COMMANDS i (DELETE_SESSION_ALERTS i (DELETE_SESSION_EVENTS i t1)))
      in TRIM_QUARANTINE MAX_QUARANTINE_RECORDS t2)"

fun parseErrorCode :: "SessionParseError \<Rightarrow> string" where
  "parseErrorCode UnsupportedSchema = ''unsupported-schema''"
| "parseErrorCode InvalidSession = ''invalid-session''"

definition inspectActive :: "'p SessionHost \<Rightarrow> int \<Rightarrow> Tables \<Rightarrow> 'p ActiveSessionInspection \<times> Tables" where
  "inspectActive host now t =
     (case activeNavigation t of
        None \<Rightarrow> (InspectNone, t)
      | Some row \<Rightarrow>
          (case parseMobileSession host (arJson row) of
             Inr s \<Rightarrow> (InspectActive s, t)
           | Inl e \<Rightarrow> (InspectQuarantined, quarantineCorruptSession (Some (arSessionId row)) (parseErrorCode e) now t)))"

definition loadActive :: "'p SessionHost \<Rightarrow> int \<Rightarrow> Tables \<Rightarrow> 'p MobileSession option \<times> Tables" where
  "loadActive host now t =
     (case inspectActive host now t of
        (InspectActive s, t') \<Rightarrow> (Some s, t')
      | (_, t') \<Rightarrow> (None, t'))"

definition readTerminalAck :: "string \<Rightarrow> Tables \<Rightarrow> MobileTerminalAck option" where
  "readTerminalAck sid t = SELECT_TERMINAL_ACK sid t"

section \<open>Outbox, commands, alerts, diagnostics\<close>

definition enqueueEvent :: "'p SessionHost \<Rightarrow> OutboxEvent \<Rightarrow> Tables \<Rightarrow> Tables" where
  "enqueueEvent host event t = enqueueEventIn host event t"

fun readEvents :: "'p SessionHost \<Rightarrow> EventRow list \<Rightarrow> StoreError + PendingEvent list" where
  "readEvents host [] = Inr []"
| "readEvents host (e # es) =
     (case sessionJson host (evPayload e) of
        None \<Rightarrow> Inl UnreadableJson
      | Some value \<Rightarrow>
          (case readEvents host es of
             Inl err \<Rightarrow> Inl err
           | Inr rest \<Rightarrow>
               Inr (\<lparr>pendingEvent =
                       \<lparr>outboxDraft = \<lparr>draftEventId = evEventId e, draftCritical = evCritical e, draftPayload = value\<rparr>,
                        outboxSessionId = evSessionId e, outboxCreatedAtMs = evCreatedAtMs e\<rparr>,
                     pendingSequence = evSequence e\<rparr> # rest)))"

definition listPendingEvents :: "'p SessionHost \<Rightarrow> string \<Rightarrow> Tables \<Rightarrow> StoreError + PendingEvent list" where
  "listPendingEvents host sid t = readEvents host (SELECT_EVENTS sid t)"

definition ackEvents :: "string list \<Rightarrow> Tables \<Rightarrow> Tables" where
  "ackEvents ids t = foldl (\<lambda>acc i. DELETE_EVENT i acc) t ids"

definition rememberCommand ::
  "'p SessionHost \<Rightarrow> string \<Rightarrow> string option \<Rightarrow> json \<Rightarrow> int \<Rightarrow> Tables \<Rightarrow> Tables"
where
  "rememberCommand host messageId sid response now t =
     TRIM_PROCESSED_COMMANDS MAX_PROCESSED_COMMANDS (DELETE_EXPIRED_COMMANDS now (INSERT_PROCESSED_COMMAND
       \<lparr>cmMessageId = messageId, cmSessionId = sid, cmResponse = stringifyJson host response,
        cmCreatedAtMs = now, cmExpiresAtMs = now + PROCESSED_COMMAND_TTL_MS\<rparr> t))"

definition lookupCommand :: "'p SessionHost \<Rightarrow> string \<Rightarrow> int \<Rightarrow> Tables \<Rightarrow> StoreError + json option" where
  "lookupCommand host messageId now t =
     (case SELECT_PROCESSED_COMMAND messageId t of
        None \<Rightarrow> Inr None
      | Some row \<Rightarrow>
          if cmExpiresAtMs row \<le> now then Inr None
          else (case sessionJson host (cmResponse row) of None \<Rightarrow> Inl UnreadableJson | Some value \<Rightarrow> Inr (Some value)))"

definition replaceScheduledAlerts ::
  "string \<Rightarrow> ScheduledAlertInput list \<Rightarrow> int \<Rightarrow> Tables \<Rightarrow> (StoreError + unit) \<times> Tables"
where
  "replaceScheduledAlerts sid inputs now =
     withExclusiveTransaction (\<lambda>t. case replaceAlertsIn sid inputs now t of Inl e \<Rightarrow> Inl e | Inr t' \<Rightarrow> Inr ((), t'))"

definition listScheduledAlerts :: "string \<Rightarrow> Tables \<Rightarrow> (ScheduledAlertInput \<times> AlertState) list" where
  "listScheduledAlerts sid t =
     map (\<lambda>a. (\<lparr>inputAlertId = alAlertId a, inputLegIndex = alLegIndex a, inputTriggerAtMs = alTriggerAtMs a\<rparr>, alState a))
       (SELECT_SCHEDULED_ALERTS sid t)"

definition markAlert :: "string \<Rightarrow> AlertState \<Rightarrow> int \<Rightarrow> Tables \<Rightarrow> Tables" where
  "markAlert alertId st now t = UPDATE_ALERT_STATE st now alertId t"

text \<open>
  \<open>Math.ceil(rows * 0.1)\<close> in double precision: the literal is \<open>3602879701896397 / 2\<^sup>5\<^sup>5\<close>, and the
  product is rounded to 53 bits, ties to even.
\<close>

fun bitLength :: "nat \<Rightarrow> nat" where
  "bitLength n = (if n = 0 then 0 else bitLength (n div 2) + 1)"

declare bitLength.simps [simp del]

definition roundBits :: "nat \<Rightarrow> nat" where
  "roundBits n =
     (let unit = 2 ^ (bitLength n - 53); q = n div unit; r = n mod unit
      in (if 2 * r > unit \<or> (2 * r = unit \<and> odd q) then q + 1 else q) * unit)"

definition ceilTenth :: "nat \<Rightarrow> nat" where
  "ceilTenth rows = (roundBits (rows * 3602879701896397) + (2 ^ 55 - 1)) div 2 ^ 55"

definition trimCount :: "nat \<Rightarrow> nat" where
  "trimCount rows = min rows (max (max 1 (rows - MAX_DIAGNOSTIC_ROWS)) (ceilTenth rows))"

lemma length_DELETE_OLDEST: "length (DELETE_OLDEST_DIAGNOSTICS n ds) \<le> length ds"
  by (simp add: DELETE_OLDEST_DIAGNOSTICS_def Let_def)

function trimDiagnostics :: "DiagnosticEntry list \<Rightarrow> DiagnosticEntry list" where
  "trimDiagnostics ds =
     (case DIAGNOSTIC_USAGE ds of
        (rows, bytes) \<Rightarrow>
          if rows > MAX_DIAGNOSTIC_ROWS \<or> bytes > MAX_DIAGNOSTIC_BYTES then
            let trimmed = DELETE_OLDEST_DIAGNOSTICS (trimCount rows) ds
            in if length trimmed = rows then trimmed else trimDiagnostics trimmed
          else ds)"
  by pat_completeness auto
termination
  by (relation "measure length")
     (simp_all add: DIAGNOSTIC_USAGE_def length_DELETE_OLDEST le_neq_implies_less)

declare trimDiagnostics.simps [simp del]

definition recordDiagnostic :: "'p SessionHost \<Rightarrow> string \<Rightarrow> json \<Rightarrow> int \<Rightarrow> Tables \<Rightarrow> Tables" where
  "recordDiagnostic host ty value now t =
     (let t' = INSERT_DIAGNOSTIC now ty (stringifyJson host value) t
      in t'\<lparr>diagnosticEvents := trimDiagnostics (diagnosticEvents t')\<rparr>)"

definition listDiagnostics :: "'p SessionHost \<Rightarrow> Tables \<Rightarrow> (nat \<times> int \<times> string \<times> json option) list" where
  "listDiagnostics host t =
     map (\<lambda>d. (dgId d, dgCreatedAtMs d, dgType d, sessionJson host (dgFields d))) (SELECT_DIAGNOSTICS t)"

definition listQuarantined :: "Tables \<Rightarrow> (int \<times> string \<times> string option \<times> int option) list" where
  "listQuarantined t =
     map (\<lambda>q. (qrAtMs q, qrReason q, qrSessionId q, qrSchemaVersion q)) (SELECT_QUARANTINE t)"

definition clearDiagnostics :: "Tables \<Rightarrow> Tables" where
  "clearDiagnostics t = DELETE_ALL_DIAGNOSTICS t"

end
