(* ===== verification/Session_Invariants.thy ===== *)
theory Session_Invariants
  imports Session_Repository
begin

text \<open>
  Runs of the session repository: one event per method that changes the tables, and the damage a
  stored record can suffer from outside. The invariant of every table is kept by every event whose
  sessions can be read back after they are written (\<open>storable\<close>).
\<close>

section \<open>Runs\<close>

datatype 'p repoEvent =
    CreatePreparing "'p MobileSession"
  | CompareAndSwap string int "'p MobileSession \<Rightarrow> string + 'p RepositoryMutation" int
  | Terminate string FinalStatus int
  | InspectEvent int
  | EnqueueEvent OutboxEvent
  | AckEvents "string list"
  | RememberCommand string "string option" json int
  | ReplaceAlerts string "ScheduledAlertInput list" int
  | MarkAlert string AlertState int
  | RecordDiagnostic string json int
  | ClearDiagnostics
  | Quarantine "string option" string int
  | DamageRow string

fun repoStep :: "'p SessionHost \<Rightarrow> Tables \<Rightarrow> 'p repoEvent \<Rightarrow> Tables" where
  "repoStep host t (CreatePreparing s) = snd (createPreparing host s t)"
| "repoStep host t (CompareAndSwap sid n mutate now) = snd (compareAndSwap host sid n mutate now t)"
| "repoStep host t (Terminate sid status now) = snd (terminate host sid status now t)"
| "repoStep host t (InspectEvent now) = snd (inspectActive host now t)"
| "repoStep host t (EnqueueEvent e) = enqueueEvent host e t"
| "repoStep host t (AckEvents ids) = ackEvents ids t"
| "repoStep host t (RememberCommand i sid response now) = rememberCommand host i sid response now t"
| "repoStep host t (ReplaceAlerts sid inputs now) = snd (replaceScheduledAlerts sid inputs now t)"
| "repoStep host t (MarkAlert i st now) = markAlert i st now t"
| "repoStep host t (RecordDiagnostic ty value now) = recordDiagnostic host ty value now t"
| "repoStep host t ClearDiagnostics = clearDiagnostics t"
| "repoStep host t (Quarantine sid why now) = quarantineCorruptSession sid why now t"
| "repoStep host t (DamageRow raw) =
     t\<lparr>activeNavigation := map_option (\<lambda>row. row\<lparr>arJson := raw\<rparr>) (activeNavigation t)\<rparr>"

definition storable :: "'p SessionHost \<Rightarrow> 'p MobileSession \<Rightarrow> bool" where
  "storable host s \<longleftrightarrow> parseMobileSession host (stringifySession host s) = Inr s"

fun storableEvent :: "'p SessionHost \<Rightarrow> Tables \<Rightarrow> 'p repoEvent \<Rightarrow> bool" where
  "storableEvent host t (CreatePreparing s) \<longleftrightarrow> storable host s"
| "storableEvent host t (CompareAndSwap sid n mutate now) \<longleftrightarrow>
     (\<forall>current m. mutate current = Inr m \<longrightarrow> storable host (mutSession m))"
| "storableEvent host t (DamageRow raw) \<longleftrightarrow> (\<exists>e. parseMobileSession host raw = Inl e)"
| "storableEvent host t _ \<longleftrightarrow> True"

section \<open>Invariants of the tables\<close>

definition activeOk :: "'p SessionHost \<Rightarrow> ActiveRow option \<Rightarrow> bool" where
  "activeOk host active \<longleftrightarrow>
     (\<forall>row. active = Some row \<longrightarrow>
        0 \<le> arRevision row \<and> (\<forall>s. parseMobileSession host (arJson row) = Inr s \<longrightarrow> row = activeRow host s))"

definition outboxOk :: "EventRow list \<Rightarrow> bool" where
  "outboxOk es \<longleftrightarrow>
     distinct (map evEventId es) \<and>
     (\<forall>sid. sorted_wrt (<) (map evSequence (sessionEvents sid es)) \<and>
            length (sessionEvents sid es) \<le> MAX_OUTBOX_EVENTS)"

definition commandsOk :: "CommandRow list \<Rightarrow> bool" where
  "commandsOk cs \<longleftrightarrow> distinct (map cmMessageId cs) \<and> length cs \<le> MAX_PROCESSED_COMMANDS"

definition alertsOk :: "AlertRow list \<Rightarrow> bool" where
  "alertsOk as \<longleftrightarrow> distinct (map alAlertId as)"

definition withinCeilings :: "DiagnosticEntry list \<Rightarrow> bool" where
  "withinCeilings ds \<longleftrightarrow>
     fst (DIAGNOSTIC_USAGE ds) \<le> MAX_DIAGNOSTIC_ROWS \<and> snd (DIAGNOSTIC_USAGE ds) \<le> MAX_DIAGNOSTIC_BYTES"

definition diagnosticsOk :: "nat \<Rightarrow> DiagnosticEntry list \<Rightarrow> bool" where
  "diagnosticsOk n ds \<longleftrightarrow>
     sorted_wrt (<) (map dgId ds) \<and> (\<forall>d \<in> set ds. dgId d \<le> n) \<and> withinCeilings ds"

definition quarantineOk :: "nat \<Rightarrow> QuarantineRow list \<Rightarrow> bool" where
  "quarantineOk n qs \<longleftrightarrow>
     distinct (map qrId qs) \<and> (\<forall>q \<in> set qs. qrId q \<le> n) \<and> length qs \<le> MAX_QUARANTINE_RECORDS"

definition acksOk :: "MobileTerminalAck list \<Rightarrow> bool" where
  "acksOk as \<longleftrightarrow> distinct (map ackSessionId as)"

definition storeOk :: "'p SessionHost \<Rightarrow> Tables \<Rightarrow> bool" where
  "storeOk host t \<longleftrightarrow>
     activeOk host (activeNavigation t) \<and> outboxOk (navigationEvents t) \<and> commandsOk (processedCommands t) \<and>
     alertsOk (scheduledAlerts t) \<and> diagnosticsOk (diagnosticCounter t) (diagnosticEvents t) \<and>
     quarantineOk (quarantineCounter t) (quarantinedSessions t) \<and> acksOk (terminalAcks t)"

section \<open>Statements\<close>

lemmas session_deletes =
  DELETE_ACTIVE_def DELETE_SESSION_EVENTS_def DELETE_SESSION_ALERTS_def DELETE_SESSION_COMMANDS_def

lemma sessionEvents_filter: "sessionEvents sid (filter P es) = filter P (sessionEvents sid es)"
  by (simp add: sessionEvents_def conj_commute)

lemma length_filter_bound: "length xs \<le> n \<Longrightarrow> length (filter P xs) \<le> n"
  using length_filter_le [of P xs] by linarith

lemma outbox_filter: "outboxOk es \<Longrightarrow> outboxOk (filter P es)"
  by (simp add: outboxOk_def sessionEvents_filter ids_filter sorted_wrt_map sorted_wrt_filter length_filter_bound)

lemma commands_filter: "commandsOk cs \<Longrightarrow> commandsOk (filter P cs)"
  by (simp add: commandsOk_def ids_filter length_filter_bound)

lemma alerts_filter: "alertsOk as \<Longrightarrow> alertsOk (filter P as)"
  by (simp add: alertsOk_def ids_filter)

lemma insertNext_frame [simp]:
  "activeNavigation (insertNext host e t) = activeNavigation t"
  "terminalAcks (insertNext host e t) = terminalAcks t"
  "processedCommands (insertNext host e t) = processedCommands t"
  "scheduledAlerts (insertNext host e t) = scheduledAlerts t"
  "diagnosticEvents (insertNext host e t) = diagnosticEvents t"
  "diagnosticCounter (insertNext host e t) = diagnosticCounter t"
  "quarantinedSessions (insertNext host e t) = quarantinedSessions t"
  "quarantineCounter (insertNext host e t) = quarantineCounter t"
  by (simp_all add: insertNext_def INSERT_EVENT_def)

lemma enqueue_frame [simp]:
  "activeNavigation (enqueueEventIn host e t) = activeNavigation t"
  "terminalAcks (enqueueEventIn host e t) = terminalAcks t"
  "processedCommands (enqueueEventIn host e t) = processedCommands t"
  "scheduledAlerts (enqueueEventIn host e t) = scheduledAlerts t"
  "diagnosticEvents (enqueueEventIn host e t) = diagnosticEvents t"
  "diagnosticCounter (enqueueEventIn host e t) = diagnosticCounter t"
  "quarantinedSessions (enqueueEventIn host e t) = quarantinedSessions t"
  "quarantineCounter (enqueueEventIn host e t) = quarantineCounter t"
  by (simp_all add: enqueueEventIn_def DELETE_NON_CRITICAL_EVENTS_def Let_def)

lemma sessionEvents_insertNext:
  "sessionEvents sid (navigationEvents (insertNext host e t)) =
     sessionEvents sid (navigationEvents t) @
       (if outboxSessionId e = sid \<and> \<not> list_ex (\<lambda>x. evEventId x = draftEventId (outboxDraft e)) (navigationEvents t)
        then [\<lparr>evEventId = draftEventId (outboxDraft e), evSessionId = sid, evCritical = draftCritical (outboxDraft e),
               evSequence = NEXT_EVENT_SEQUENCE sid t, evCreatedAtMs = outboxCreatedAtMs e,
               evPayload = stringifyJson host (draftPayload (outboxDraft e))\<rparr>] else [])"
  by (simp add: insertNext_def INSERT_EVENT_def sessionEvents_def)

lemma outbox_insertNext:
  assumes "outboxOk (navigationEvents t)" and "COUNT_EVENTS (outboxSessionId e) t < MAX_OUTBOX_EVENTS"
  shows "outboxOk (navigationEvents (insertNext host e t))"
proof -
  have "sorted_wrt (<) (map evSequence (sessionEvents sid (navigationEvents (insertNext host e t))))" for sid
    using assms(1) next_sequence_above [of _ sid t]
    by (auto simp: outboxOk_def sessionEvents_insertNext sorted_wrt_append)
  moreover have "length (sessionEvents sid (navigationEvents (insertNext host e t))) \<le> MAX_OUTBOX_EVENTS" for sid
    using assms by (auto simp: outboxOk_def COUNT_EVENTS_def sessionEvents_insertNext)
  moreover have "distinct (map evEventId (navigationEvents (insertNext host e t)))"
    using assms(1) by (auto simp: outboxOk_def insertNext_def INSERT_EVENT_def list_ex_iff)
  ultimately show ?thesis by (simp add: outboxOk_def)
qed

lemma outbox_enqueue: "outboxOk (navigationEvents t) \<Longrightarrow> outboxOk (navigationEvents (enqueueEventIn host e t))"
  by (auto simp: enqueueEventIn_def DELETE_NON_CRITICAL_EVENTS_def Let_def not_le
      intro!: outbox_insertNext outbox_filter)

definition enqueueDrafts ::
  "'p SessionHost \<Rightarrow> string \<Rightarrow> int \<Rightarrow> Tables \<Rightarrow> EventDraft list \<Rightarrow> Tables"
where
  "enqueueDrafts host sid now =
     foldl (\<lambda>acc draft. enqueueEventIn host \<lparr>outboxDraft = draft, outboxSessionId = sid, outboxCreatedAtMs = now\<rparr> acc)"

lemma enqueueDrafts_simps [simp]:
  "enqueueDrafts host sid now t [] = t"
  "enqueueDrafts host sid now t (d # ds) =
     enqueueDrafts host sid now
       (enqueueEventIn host \<lparr>outboxDraft = d, outboxSessionId = sid, outboxCreatedAtMs = now\<rparr> t) ds"
  by (simp_all add: enqueueDrafts_def)

lemma drafts_frame [simp]:
  "activeNavigation (enqueueDrafts host sid now t ds) = activeNavigation t"
  "terminalAcks (enqueueDrafts host sid now t ds) = terminalAcks t"
  "processedCommands (enqueueDrafts host sid now t ds) = processedCommands t"
  "scheduledAlerts (enqueueDrafts host sid now t ds) = scheduledAlerts t"
  "diagnosticEvents (enqueueDrafts host sid now t ds) = diagnosticEvents t"
  "diagnosticCounter (enqueueDrafts host sid now t ds) = diagnosticCounter t"
  "quarantinedSessions (enqueueDrafts host sid now t ds) = quarantinedSessions t"
  "quarantineCounter (enqueueDrafts host sid now t ds) = quarantineCounter t"
  by (induction ds arbitrary: t) simp_all

lemma outbox_drafts:
  "outboxOk (navigationEvents t) \<Longrightarrow> outboxOk (navigationEvents (enqueueDrafts host sid now t ds))"
  by (induction ds arbitrary: t) (simp_all add: outbox_enqueue)

text \<open>Replacing alerts only changes the alerts.\<close>

lemma insertAlerts_Inr:
  "insertAlerts sid now inputs t = Inr t' \<Longrightarrow>
     (\<exists>as. t' = t\<lparr>scheduledAlerts := as\<rparr>) \<and> (alertsOk (scheduledAlerts t) \<longrightarrow> alertsOk (scheduledAlerts t'))"
proof (induction inputs arbitrary: t)
  case Nil
  then show ?case by (auto intro: exI [of _ "scheduledAlerts t"])
next
  case (Cons a inputs)
  then obtain t1 where step: "INSERT_SCHEDULED_ALERT
      \<lparr>alAlertId = inputAlertId a, alSessionId = sid, alLegIndex = inputLegIndex a,
       alTriggerAtMs = inputTriggerAtMs a, alState = AlertScheduled, alUpdatedAtMs = now\<rparr> t = Inr t1"
    and "insertAlerts sid now inputs t1 = Inr t'" by (auto split: sum.splits)
  moreover from step have "\<exists>as. t1 = t\<lparr>scheduledAlerts := as\<rparr>" "alertsOk (scheduledAlerts t) \<longrightarrow> alertsOk (scheduledAlerts t1)"
    by (auto simp: INSERT_SCHEDULED_ALERT_def alertsOk_def upsertAlert_ids split: if_splits)
  ultimately show ?case using Cons.IH [of t1] by auto
qed

lemma replaceAlerts_Inr:
  assumes "replaceAlertsIn sid inputs now t = Inr t'"
  obtains as where "t' = t\<lparr>scheduledAlerts := as\<rparr>" and "alertsOk (scheduledAlerts t) \<longrightarrow> alertsOk as"
  using insertAlerts_Inr [OF assms [unfolded replaceAlertsIn_def]] that
    alerts_filter [of "scheduledAlerts t" "\<lambda>a. alSessionId a \<noteq> sid"]
  by (auto simp: DELETE_SESSION_ALERTS_def)

section \<open>Every event keeps the invariant\<close>

lemma activeOk_simps [simp]:
  "activeOk host None"
  "storable host s \<Longrightarrow> 0 \<le> revision s \<Longrightarrow> activeOk host (Some (activeRow host s))"
  by (auto simp: activeOk_def storable_def activeRow_def)

lemma delete_ok: "storeOk host t \<Longrightarrow> storeOk host (deleteSessionRows sid t)"
  by (simp add: storeOk_def deleteSessionRows_def session_deletes outbox_filter commands_filter alerts_filter)

lemma writeActive_Inr:
  "writeActive host s t = Inr t' \<longleftrightarrow> 0 \<le> revision s \<and> t' = t\<lparr>activeNavigation := Some (activeRow host s)\<rparr>"
  by (auto simp: writeActive_def UPSERT_ACTIVE_def activeRow_def)

lemma upsert_ok: "storeOk host t \<Longrightarrow> writeActive host s t = Inr t' \<Longrightarrow> storable host s \<Longrightarrow> storeOk host t'"
  by (auto simp: writeActive_Inr storeOk_def)

lemma create_ok:
  assumes "storeOk host t" and "storable host s"
  shows "storeOk host (snd (createPreparing host s t))"
  using assms upsert_ok [OF assms(1) _ assms(2)] upsert_ok [OF delete_ok [OF assms(1)] _ assms(2)]
  by (auto simp: createPreparing_def withExclusiveTransaction_def Let_def split: option.splits sum.splits)

lemma commitMutation_Inr:
  assumes "commitMutation host sid n now m t = Inr (r, t')"
  obtains as where "0 \<le> revision (mutSession m)" "sessionId (mutSession m) = sid" "revision (mutSession m) = n + 1"
    "r = Inr (mutSession m, mutEffects m)"
    "t' = (enqueueDrafts host sid now (t\<lparr>activeNavigation := Some (activeRow host (mutSession m))\<rparr>) (mutEnqueue m))
            \<lparr>scheduledAlerts := as\<rparr>"
    "alertsOk (scheduledAlerts t) \<longrightarrow> alertsOk as"
proof -
  let ?t2 = "enqueueDrafts host sid now (t\<lparr>activeNavigation := Some (activeRow host (mutSession m))\<rparr>) (mutEnqueue m)"
  from assms have base: "0 \<le> revision (mutSession m)" "sessionId (mutSession m) = sid"
    "revision (mutSession m) = n + 1" "r = Inr (mutSession m, mutEffects m)"
    by (auto simp: commitMutation_def writeActive_Inr Let_def split: if_splits sum.splits option.splits)
  show thesis
  proof (cases "mutAlerts m")
    case None
    with assms base have "t' = ?t2\<lparr>scheduledAlerts := scheduledAlerts t\<rparr>"
      by (auto simp: commitMutation_def writeActive_Inr enqueueDrafts_def [symmetric] Let_def split: if_splits sum.splits)
    with base that show thesis by blast
  next
    case (Some inputs)
    with assms base have "replaceAlertsIn sid inputs now ?t2 = Inr t'"
      by (auto simp: commitMutation_def writeActive_Inr enqueueDrafts_def [symmetric] Let_def split: if_splits sum.splits)
    then obtain as where "t' = ?t2\<lparr>scheduledAlerts := as\<rparr>" "alertsOk (scheduledAlerts ?t2) \<longrightarrow> alertsOk as"
      by (rule replaceAlerts_Inr)
    with base that show thesis by simp
  qed
qed

lemma commit_ok:
  assumes "storeOk host t" and "storable host (mutSession m)"
    and "commitMutation host sid n now m t = Inr (r, t')"
  shows "storeOk host t'"
  using assms(3)
proof (rule commitMutation_Inr)
qed (use assms(1,2) in \<open>simp add: storeOk_def outbox_drafts\<close>)

lemma cas_ok:
  assumes "storeOk host t" and "\<And>current m. mutate current = Inr m \<Longrightarrow> storable host (mutSession m)"
  shows "storeOk host (snd (compareAndSwap host sid n mutate now t))"
proof -
  have "storeOk host t'" if "mutate c = Inr m" "commitMutation host i k now m t = Inr (r, t')" for c m i k r t'
    using commit_ok [OF assms(1) assms(2) [OF that(1)] that(2)] .
  with assms(1) show ?thesis
    by (auto simp: compareAndSwap_def withExclusiveTransaction_def split: option.splits sum.splits)
qed

lemma terminate_ok:
  assumes "storeOk host t"
  shows "storeOk host (snd (terminate host sid status now t))"
proof -
  have "storeOk host (deleteSessionRows i t')" if "UPSERT_TERMINAL_ACK ack t = Inr t'" for ack t' i
    using that assms
    by (intro delete_ok) (auto simp: UPSERT_TERMINAL_ACK_def storeOk_def acksOk_def upsertAck_ids split: if_splits)
  with assms show ?thesis
    by (auto simp: terminate_def withExclusiveTransaction_def Let_def split: option.splits sum.splits)
qed

lemma quarantine_rows:
  "quarantineOk n qs \<Longrightarrow> qrId q = n + 1 \<Longrightarrow>
     quarantineOk (n + 1) (filter (\<lambda>r. qrId r \<in> set (map qrId (take MAX_QUARANTINE_RECORDS
       (rev (sort_key qrAtMs (sort_key qrId (qs @ [q]))))))) (qs @ [q]))"
  using trim_length(2) [of qrId "qs @ [q]" "rev (sort_key qrAtMs (sort_key qrId (qs @ [q])))" MAX_QUARANTINE_RECORDS]
    ids_filter [of qrId "qs @ [q]"]
  by (fastforce simp: quarantineOk_def simp del: filter_append)

lemma quarantine_ok: "storeOk host t \<Longrightarrow> storeOk host (quarantineCorruptSession sid why now t)"
  using quarantine_rows [of "quarantineCounter t" "quarantinedSessions t"]
  by (auto simp: quarantineCorruptSession_def TRIM_QUARANTINE_def SELECT_QUARANTINE_def INSERT_QUARANTINE_def
      session_deletes Let_def storeOk_def outbox_filter commands_filter alerts_filter
      simp del: filter_append split: option.splits)

lemma inspect_ok: "storeOk host t \<Longrightarrow> storeOk host (snd (inspectActive host now t))"
  by (auto simp: inspectActive_def quarantine_ok split: option.splits sum.splits)

lemma acks_ok: "storeOk host t \<Longrightarrow> storeOk host (ackEvents ids t)"
  unfolding ackEvents_def
  by (induction ids arbitrary: t) (simp_all add: DELETE_EVENT_def storeOk_def outbox_filter)

lemma remember_ok:
  assumes "storeOk host t"
  shows "storeOk host (rememberCommand host i sid response now t)"
proof -
  define t1 where "t1 = INSERT_PROCESSED_COMMAND
    \<lparr>cmMessageId = i, cmSessionId = sid, cmResponse = stringifyJson host response, cmCreatedAtMs = now,
     cmExpiresAtMs = now + PROCESSED_COMMAND_TTL_MS\<rparr> t"
  define cs where "cs = filter (\<lambda>c. \<not> cmExpiresAtMs c \<le> now) (processedCommands t1)"
  have "distinct (map cmMessageId (processedCommands t1))"
    using assms by (auto simp: t1_def INSERT_PROCESSED_COMMAND_def storeOk_def commandsOk_def list_ex_iff)
  then have ids: "distinct (map cmMessageId cs)" by (simp add: cs_def ids_filter)
  then have "commandsOk (filter (\<lambda>c. cmMessageId c \<notin> set (map cmMessageId (drop MAX_PROCESSED_COMMANDS (newestCommands cs)))) cs)"
    using trim_length(1) [OF ids, of "newestCommands cs"] by (simp add: commandsOk_def ids_filter)
  moreover have "rememberCommand host i sid response now t =
      t1\<lparr>processedCommands := filter (\<lambda>c. cmMessageId c \<notin> set (map cmMessageId (drop MAX_PROCESSED_COMMANDS (newestCommands cs)))) cs\<rparr>"
    by (simp add: rememberCommand_def TRIM_PROCESSED_COMMANDS_def DELETE_EXPIRED_COMMANDS_def t1_def [symmetric]
        cs_def Let_def)
  ultimately show ?thesis
    using assms by (simp add: storeOk_def t1_def INSERT_PROCESSED_COMMAND_def)
qed

lemma replace_ok: "storeOk host t \<Longrightarrow> storeOk host (snd (replaceScheduledAlerts sid inputs now t))"
  by (auto simp: replaceScheduledAlerts_def withExclusiveTransaction_def storeOk_def elim!: replaceAlerts_Inr
      split: sum.splits)

lemma mark_ok: "storeOk host t \<Longrightarrow> storeOk host (markAlert i st now t)"
proof -
  have "alAlertId \<circ> (\<lambda>a :: AlertRow. if alAlertId a = i then a\<lparr>alState := st, alUpdatedAtMs := now\<rparr> else a) = alAlertId"
    by auto
  then show "storeOk host t \<Longrightarrow> storeOk host (markAlert i st now t)"
    by (simp add: storeOk_def markAlert_def UPDATE_ALERT_STATE_def alertsOk_def)
qed

section \<open>The diagnostic ring\<close>

lemma delete_oldest_drop:
  assumes "sorted_wrt (<) (map dgId ds)"
  shows "DELETE_OLDEST_DIAGNOSTICS n ds = drop n ds"
proof -
  have "sorted (map dgId ds)" "distinct (map dgId ds)"
    using assms strict_sorted_iff by blast+
  then have "sort_key dgId ds = ds" by (simp add: sort_key_id_if_sorted)
  moreover have "filter (\<lambda>d. dgId d \<notin> set (map dgId (take n ds))) (take n ds @ drop n ds) = drop n ds"
  proof -
    have "distinct (map dgId (take n ds @ drop n ds))" using \<open>distinct (map dgId ds)\<close> by simp
    then have "dgId d \<notin> set (map dgId (take n ds))" if "d \<in> set (drop n ds)" for d
      using that by (auto simp del: append_take_drop_id)
    then show ?thesis by (auto simp: filter_empty_conv filter_id_conv simp del: append_take_drop_id)
  qed
  ultimately show ?thesis by (simp add: DELETE_OLDEST_DIAGNOSTICS_def Let_def)
qed

lemma trim_diagnostics:
  "sorted_wrt (<) (map dgId ds) \<Longrightarrow>
     withinCeilings (trimDiagnostics ds) \<and> (\<exists>k. trimDiagnostics ds = drop k ds)"
proof (induction ds rule: trimDiagnostics.induct)
  case (1 ds)
  show ?case
  proof (cases "withinCeilings ds")
    case True
    then have "trimDiagnostics ds = ds"
      by (simp add: trimDiagnostics.simps [of ds] withinCeilings_def case_prod_beta not_less)
    with True show ?thesis by (metis drop0)
  next
    case False
    then have "ds \<noteq> []" by (auto simp: withinCeilings_def DIAGNOSTIC_USAGE_def)
    let ?n = "trimCount (length ds)"
    have n: "0 < ?n" using \<open>ds \<noteq> []\<close> by (simp add: trimCount_def)
    have "length (drop ?n ds) < length ds" using n \<open>ds \<noteq> []\<close> by simp
    then have shorter: "length (drop ?n ds) \<noteq> length ds" by simp
    with False shorter have step: "trimDiagnostics ds = trimDiagnostics (drop ?n ds)"
      by (simp add: trimDiagnostics.simps [of ds] withinCeilings_def case_prod_beta Let_def
          delete_oldest_drop [OF 1(2)] DIAGNOSTIC_USAGE_def not_le)
    have "sorted_wrt (<) (map dgId (drop ?n ds))" using 1(2) by (simp add: drop_map sorted_wrt_drop flip: drop_map)
    then have "withinCeilings (trimDiagnostics (drop ?n ds)) \<and> (\<exists>k. trimDiagnostics (drop ?n ds) = drop k (drop ?n ds))"
      using 1(1) [of "fst (DIAGNOSTIC_USAGE ds)" "snd (DIAGNOSTIC_USAGE ds)"] False shorter
      by (simp add: delete_oldest_drop [OF 1(2)] withinCeilings_def DIAGNOSTIC_USAGE_def not_le)
    with step show ?thesis by (metis drop_drop)
  qed
qed

lemma record_diagnostics:
  assumes "diagnosticsOk (diagnosticCounter t) (diagnosticEvents t)"
  obtains k where "diagnosticEvents (recordDiagnostic host ty value now t) =
      drop k (diagnosticEvents t @
        [\<lparr>dgId = diagnosticCounter t + 1, dgCreatedAtMs = now, dgType = ty, dgFields = stringifyJson host value\<rparr>])"
    and "withinCeilings (diagnosticEvents (recordDiagnostic host ty value now t))"
    and "sorted_wrt (<) (map dgId (diagnosticEvents (recordDiagnostic host ty value now t)))"
proof -
  let ?ds = "diagnosticEvents t @
    [\<lparr>dgId = diagnosticCounter t + 1, dgCreatedAtMs = now, dgType = ty, dgFields = stringifyJson host value\<rparr>]"
  have sorted: "sorted_wrt (<) (map dgId ?ds)"
    using assms by (fastforce simp: diagnosticsOk_def sorted_wrt_append)
  obtain k where k: "trimDiagnostics ?ds = drop k ?ds" and ceil: "withinCeilings (trimDiagnostics ?ds)"
    using trim_diagnostics [OF sorted] by blast
  have "sorted_wrt (<) (map dgId (drop k ?ds))"
    using sorted_wrt_drop [OF sorted, of k] by (simp only: drop_map)
  moreover have "diagnosticEvents (recordDiagnostic host ty value now t) = trimDiagnostics ?ds"
    by (simp add: recordDiagnostic_def INSERT_DIAGNOSTIC_def Let_def)
  ultimately show thesis using k ceil that [of k] by argo
qed

lemma record_ok:
  assumes "storeOk host t"
  shows "storeOk host (recordDiagnostic host ty value now t)"
proof -
  have ok: "diagnosticsOk (diagnosticCounter t) (diagnosticEvents t)" using assms by (simp add: storeOk_def)
  have counter: "diagnosticCounter (recordDiagnostic host ty value now t) = diagnosticCounter t + 1"
    by (simp add: recordDiagnostic_def INSERT_DIAGNOSTIC_def Let_def)
  from ok obtain k where k: "diagnosticEvents (recordDiagnostic host ty value now t) =
      drop k (diagnosticEvents t @
        [\<lparr>dgId = diagnosticCounter t + 1, dgCreatedAtMs = now, dgType = ty, dgFields = stringifyJson host value\<rparr>])"
    and rest: "withinCeilings (diagnosticEvents (recordDiagnostic host ty value now t))"
      "sorted_wrt (<) (map dgId (diagnosticEvents (recordDiagnostic host ty value now t)))"
    by (rule record_diagnostics)
  have "dgId d \<le> diagnosticCounter t + 1" if "d \<in> set (diagnosticEvents (recordDiagnostic host ty value now t))" for d
    using that ok in_set_dropD by (fastforce simp: k diagnosticsOk_def simp del: drop_append)
  with rest counter have "diagnosticsOk (diagnosticCounter (recordDiagnostic host ty value now t))
      (diagnosticEvents (recordDiagnostic host ty value now t))"
    by (simp add: diagnosticsOk_def)
  with assms show ?thesis
    by (simp add: storeOk_def recordDiagnostic_def INSERT_DIAGNOSTIC_def Let_def)
qed

interpretation repo: reducer "repoStep host" "storableEvent host" "storeOk host" for host
proof
  fix t and e :: "'a repoEvent"
  assume ok: "storeOk host t" and allowed: "storableEvent host t e"
  show "storeOk host (repoStep host t e)"
  proof (cases e)
    case (DamageRow raw)
    with ok allowed show ?thesis by (cases "activeNavigation t") (auto simp: storeOk_def activeOk_def)
  next
    case ClearDiagnostics
    with ok show ?thesis
      by (simp add: storeOk_def clearDiagnostics_def DELETE_ALL_DIAGNOSTICS_def diagnosticsOk_def
          withinCeilings_def DIAGNOSTIC_USAGE_def)
  next
    case (EnqueueEvent ev)
    with ok show ?thesis by (simp add: enqueueEvent_def storeOk_def outbox_enqueue)
  qed (use ok allowed in \<open>auto intro: create_ok cas_ok terminate_ok inspect_ok acks_ok remember_ok replace_ok
      mark_ok record_ok quarantine_ok\<close>)
qed

lemma storeOk_empty: "storeOk host emptyTables"
  by (simp add: storeOk_def emptyTables_def outboxOk_def sessionEvents_def commandsOk_def alertsOk_def
      diagnosticsOk_def withinCeilings_def DIAGNOSTIC_USAGE_def quarantineOk_def acksOk_def)

end
