(* ===== verification/Session_Properties.thy ===== *)
theory Session_Properties
  imports Session_Invariants
begin

text \<open>
  What the session repository promises. \<open>Authority\<close> is the abstract view of the active row and
  \<open>specStep\<close> its specification; the repository refines it. The other theorems are about the outbox,
  the command log, termination, quarantine and the diagnostic ring.
\<close>

section \<open>The abstract authority\<close>

text \<open>An unreadable session is known by its id and revision only.\<close>

datatype 'p Authority = NoSession | Unreadable string int | Live "'p MobileSession"

text \<open>What a method answers: the outcome of a commit, of a termination, of an inspection, or nothing about the session.\<close>

datatype 'p SessionAnswer =
    CommitAnswer "StoreError + 'p CommitResult"
  | TerminateAnswer "StoreError + MobileTerminalAck option \<times> SessionEffect list"
  | InspectAnswer "'p ActiveSessionInspection"
  | NoAnswer

definition authority :: "'p SessionHost \<Rightarrow> Tables \<Rightarrow> 'p Authority" where
  "authority host t =
     (case activeNavigation t of
        None \<Rightarrow> NoSession
      | Some row \<Rightarrow>
          (case parseMobileSession host (arJson row) of
             Inl _ \<Rightarrow> Unreadable (arSessionId row) (arRevision row)
           | Inr s \<Rightarrow> Live s))"

definition specCreate ::
  "'p MobileSession \<Rightarrow> 'p Authority \<Rightarrow> 'p Authority \<times> (StoreError + 'p CommitResult)"
where
  "specCreate s a =
     (case a of
        Live current \<Rightarrow> if sessionStatus current \<notin> set TERMINAL_STATUSES then (a, Inr (Inl SessionActive))
                        else if revision s < 0 then (a, Inl CheckViolated) else (Live s, Inr (Inr (s, [])))
      | _ \<Rightarrow> if revision s < 0 then (a, Inl CheckViolated) else (Live s, Inr (Inr (s, []))))"

definition alertsAccepted :: "'p RepositoryMutation \<Rightarrow> bool" where
  "alertsAccepted m \<longleftrightarrow>
     (case mutAlerts m of None \<Rightarrow> True | Some inputs \<Rightarrow> list_all (\<lambda>a. 0 \<le> inputLegIndex a) inputs)"

definition specSwap ::
  "string \<Rightarrow> int \<Rightarrow> ('p MobileSession \<Rightarrow> string + 'p RepositoryMutation) \<Rightarrow> 'p Authority
     \<Rightarrow> 'p Authority \<times> (StoreError + 'p CommitResult)"
where
  "specSwap sid n mutate a =
     (case a of
        NoSession \<Rightarrow> (a, Inr (Inl NoActiveSession))
      | Unreadable _ _ \<Rightarrow> (a, Inr (Inl CorruptSession))
      | Live current \<Rightarrow>
          if sessionId current \<noteq> sid \<or> revision current \<noteq> n then (a, Inr (Inl RevisionConflict))
          else (case mutate current of
                  Inl e \<Rightarrow> (a, Inl (MutationThrew e))
                | Inr m \<Rightarrow>
                    if sessionId (mutSession m) \<noteq> sid then (a, Inl IdentityChanged)
                    else if revision (mutSession m) \<noteq> n + 1 then (a, Inl RevisionSkipped)
                    else if \<not> alertsAccepted m then (a, Inl CheckViolated)
                    else (Live (mutSession m), Inr (Inr (mutSession m, mutEffects m)))))"

text \<open>
  Ending the session with the given id acknowledges it at its last revision; the kind of an unreadable session is taken to be
  ground. Any other session stays, and nothing is acknowledged.
\<close>

definition specTerminate ::
  "string \<Rightarrow> FinalStatus \<Rightarrow> int \<Rightarrow> 'p Authority
     \<Rightarrow> 'p Authority \<times> (StoreError + MobileTerminalAck option \<times> SessionEffect list)"
where
  "specTerminate sid status now a =
     (let ended = (\<lambda>k n. (NoSession, Inr (Some \<lparr>ackSessionId = sid, ackKind = k, finalStatus = status, finalRevision = n,
              completedAtMs = now\<rparr>, terminationEffects sid)))
      in case a of
           NoSession \<Rightarrow> (NoSession, Inr (None, []))
         | Unreadable i n \<Rightarrow> if i = sid then ended KindGround n else (a, Inr (None, []))
         | Live s \<Rightarrow> if sessionId s = sid then ended (sessionKind s) (revision s) else (a, Inr (None, [])))"

definition specInspect :: "'p Authority \<Rightarrow> 'p Authority \<times> 'p ActiveSessionInspection" where
  "specInspect a =
     (case a of
        NoSession \<Rightarrow> (NoSession, InspectNone)
      | Unreadable _ _ \<Rightarrow> (NoSession, InspectQuarantined)
      | Live s \<Rightarrow> (a, InspectActive s))"

fun specStep :: "'p repoEvent \<Rightarrow> 'p Authority \<Rightarrow> 'p Authority \<times> 'p SessionAnswer" where
  "specStep (CreatePreparing s) a = map_prod id CommitAnswer (specCreate s a)"
| "specStep (CompareAndSwap sid n mutate now) a = map_prod id CommitAnswer (specSwap sid n mutate a)"
| "specStep (Terminate sid status now) a = map_prod id TerminateAnswer (specTerminate sid status now a)"
| "specStep (InspectEvent now) a = map_prod id InspectAnswer (specInspect a)"
| "specStep (Quarantine sid why now) a = (NoSession, NoAnswer)"
| "specStep (DamageRow raw) a = ((case a of Live s \<Rightarrow> Unreadable (sessionId s) (revision s) | _ \<Rightarrow> a), NoAnswer)"
| "specStep _ a = (a, NoAnswer)"

fun sessionAnswer :: "'p SessionHost \<Rightarrow> Tables \<Rightarrow> 'p repoEvent \<Rightarrow> 'p SessionAnswer" where
  "sessionAnswer host t (CreatePreparing s) = CommitAnswer (fst (createPreparing host s t))"
| "sessionAnswer host t (CompareAndSwap sid n mutate now) = CommitAnswer (fst (compareAndSwap host sid n mutate now t))"
| "sessionAnswer host t (Terminate sid status now) = TerminateAnswer (fst (terminate host sid status now t))"
| "sessionAnswer host t (InspectEvent now) = InspectAnswer (fst (inspectActive host now t))"
| "sessionAnswer host t _ = NoAnswer"

section \<open>The repository refines it\<close>

lemma authority_cases:
  assumes "storeOk host t"
  obtains "activeNavigation t = None" "authority host t = NoSession"
  | row e where "activeNavigation t = Some row" "parseMobileSession host (arJson row) = Inl e"
      "authority host t = Unreadable (arSessionId row) (arRevision row)" "0 \<le> arRevision row"
  | s where "activeNavigation t = Some (activeRow host s)"
      "parseMobileSession host (arJson (activeRow host s)) = Inr s" "authority host t = Live s" "0 \<le> revision s"
proof (cases "activeNavigation t")
  case None
  with that show thesis by (simp add: authority_def)
next
  case (Some row)
  with assms have row: "0 \<le> arRevision row" "\<And>s. parseMobileSession host (arJson row) = Inr s \<Longrightarrow> row = activeRow host s"
    by (auto simp: storeOk_def activeOk_def)
  show thesis
  proof (cases "parseMobileSession host (arJson row)")
    case (Inl e)
    with that(2) Some row show thesis by (simp add: authority_def)
  next
    case (Inr s)
    with row have "row = activeRow host s" by simp
    with that(3) Some Inr row(1) show thesis by (simp add: authority_def activeRow_def)
  qed
qed

lemma authority_same: "activeNavigation t' = activeNavigation t \<Longrightarrow> authority host t' = authority host t"
  by (simp add: authority_def)

lemma authority_written:
  "activeNavigation t = Some (activeRow host s) \<Longrightarrow> storable host s \<Longrightarrow> authority host t = Live s"
  by (simp add: authority_def activeRow_def storable_def)

lemma insertAlerts_accepts:
  "(\<exists>t'. insertAlerts sid now inputs t = Inr t') = list_all (\<lambda>a. 0 \<le> inputLegIndex a) inputs"
  "insertAlerts sid now inputs t = Inl e \<Longrightarrow> e = CheckViolated"
  by (induction inputs arbitrary: t) (auto simp: INSERT_SCHEDULED_ALERT_def not_less split: if_splits)

lemma commit_spec:
  assumes "0 \<le> n"
  shows "(case commitMutation host sid n now m t of Inl e \<Rightarrow> Inl e | Inr (r, t') \<Rightarrow> Inr r) =
     (if sessionId (mutSession m) \<noteq> sid then Inl IdentityChanged
      else if revision (mutSession m) \<noteq> n + 1 then Inl RevisionSkipped
      else if \<not> alertsAccepted m then Inl CheckViolated
      else Inr (Inr (mutSession m, mutEffects m)))"
proof -
  have written: "writeActive host s t = Inr (t\<lparr>activeNavigation := Some (activeRow host s)\<rparr>)" if "revision s = n + 1" for s
    using that assms by (simp add: writeActive_Inr)
  have alerts: "(case insertAlerts sid now inputs t' of Inl e \<Rightarrow> Inl e | Inr x \<Rightarrow> Inr (f x)) =
      (if list_all (\<lambda>a. 0 \<le> inputLegIndex a) inputs then Inr (f (projr (insertAlerts sid now inputs t'))) else Inl CheckViolated)"
    for inputs t' and f :: "Tables \<Rightarrow> 'x"
    using insertAlerts_accepts [of sid now inputs t'] by (cases "insertAlerts sid now inputs t'") auto
  show ?thesis
    by (cases "mutAlerts m")
       (auto simp: commitMutation_def written Let_def alertsAccepted_def replaceAlertsIn_def alerts)
qed

lemma create_refines:
  assumes "storeOk host t" and "storable host s"
  shows "(authority host (snd (createPreparing host s t)), fst (createPreparing host s t)) =
    specCreate s (authority host t)"
proof -
  have written: "writeActive host s t' =
      (if revision s < 0 then Inl CheckViolated else Inr (t'\<lparr>activeNavigation := Some (activeRow host s)\<rparr>))" for t'
    by (simp add: writeActive_def UPSERT_ACTIVE_def activeRow_def)
  have "authority host (t'\<lparr>activeNavigation := Some (activeRow host s)\<rparr>) = Live s" for t'
    using assms(2) by (intro authority_written) simp_all
  note facts = this written createPreparing_def withExclusiveTransaction_def specCreate_def Let_def
  from assms(1) show ?thesis
    by (cases rule: authority_cases) (simp_all add: facts)
qed

lemma swap_refines:
  assumes "storeOk host t" and "\<And>current m. mutate current = Inr m \<Longrightarrow> storable host (mutSession m)"
  shows "(authority host (snd (compareAndSwap host sid n mutate now t)), fst (compareAndSwap host sid n mutate now t)) =
    specSwap sid n mutate (authority host t)"
  using assms(1)
proof (cases rule: authority_cases)
  case (3 s)
  show ?thesis
  proof (cases "sessionId s = sid \<and> revision s = n")
    case match: True
    show ?thesis
    proof (cases "mutate s")
      case (Inr m)
      have store: "storable host (mutSession m)" using assms(2) Inr by blast
      have "authority host t' = Live (mutSession m)" if "commitMutation host sid n now m t = Inr (r, t')" for r t'
        using that by (rule commitMutation_Inr) (auto intro: authority_written store)
      with Inr 3 match commit_spec [of n host sid now m t] show ?thesis
        by (cases "commitMutation host sid n now m t")
           (auto simp: compareAndSwap_def withExclusiveTransaction_def specSwap_def split: if_splits)
    qed (use 3 match in \<open>simp add: compareAndSwap_def withExclusiveTransaction_def specSwap_def\<close>)
  qed (use 3 in \<open>auto simp: compareAndSwap_def withExclusiveTransaction_def specSwap_def\<close>)
qed (simp_all add: compareAndSwap_def withExclusiveTransaction_def specSwap_def)

lemma terminate_refines:
  assumes "storeOk host t"
  shows "(authority host (snd (terminate host sid status now t)), fst (terminate host sid status now t)) =
    specTerminate sid status now (authority host t)"
  using assms
  by (cases rule: authority_cases)
     (auto simp: terminate_def withExclusiveTransaction_def Let_def UPSERT_TERMINAL_ACK_def activeRow_def
       deleteSessionRows_def session_deletes authority_def specTerminate_def)

lemma quarantine_active [simp]: "activeNavigation (quarantineCorruptSession sid why now t) = None"
  by (simp add: quarantineCorruptSession_def TRIM_QUARANTINE_def session_deletes Let_def split: option.splits)

lemma inspect_refines:
  assumes "storeOk host t"
  shows "(authority host (snd (inspectActive host now t)), fst (inspectActive host now t)) = specInspect (authority host t)"
  using assms
  by (cases rule: authority_cases) (simp_all add: inspectActive_def authority_def specInspect_def)

lemma frame_active [simp]:
  "activeNavigation (ackEvents ids t) = activeNavigation t"
  "activeNavigation (rememberCommand host i owner response now t) = activeNavigation t"
  "activeNavigation (snd (replaceScheduledAlerts sid inputs now t)) = activeNavigation t"
  "activeNavigation (markAlert i st now t) = activeNavigation t"
  "activeNavigation (recordDiagnostic host ty value now t) = activeNavigation t"
  "activeNavigation (clearDiagnostics t) = activeNavigation t"
proof -
  show "activeNavigation (ackEvents ids t) = activeNavigation t"
    unfolding ackEvents_def by (induction ids arbitrary: t) (simp_all add: DELETE_EVENT_def)
  show "activeNavigation (snd (replaceScheduledAlerts sid inputs now t)) = activeNavigation t"
    by (auto simp: replaceScheduledAlerts_def withExclusiveTransaction_def elim!: replaceAlerts_Inr split: sum.splits)
qed (simp_all add: rememberCommand_def TRIM_PROCESSED_COMMANDS_def DELETE_EXPIRED_COMMANDS_def
    INSERT_PROCESSED_COMMAND_def Let_def markAlert_def UPDATE_ALERT_STATE_def recordDiagnostic_def INSERT_DIAGNOSTIC_def
    clearDiagnostics_def DELETE_ALL_DIAGNOSTICS_def)

lemma step_refines:
  assumes "storeOk host t" and "storableEvent host t e"
  shows "(authority host (repoStep host t e), sessionAnswer host t e) = specStep e (authority host t)"
proof (cases e)
  case (CreatePreparing s)
  with create_refines [OF assms(1), of s] assms(2) show ?thesis by (simp add: prod_eq_iff)
next
  case (CompareAndSwap sid n mutate now)
  with swap_refines [OF assms(1), of mutate sid n now] assms(2) show ?thesis by (simp add: prod_eq_iff)
next
  case (Terminate sid status now)
  with terminate_refines [OF assms(1), of sid status now] show ?thesis by (simp add: prod_eq_iff)
next
  case (InspectEvent now)
  with inspect_refines [OF assms(1), of now] show ?thesis by (simp add: prod_eq_iff)
next
  case (Quarantine sid why now)
  then show ?thesis by (simp add: authority_def)
next
  case (DamageRow raw)
  with assms(2) obtain err where "parseMobileSession host raw = Inl err" by auto
  with assms(1) DamageRow show ?thesis
    by (cases rule: authority_cases) (simp_all add: authority_def activeRow_def)
qed (simp_all add: authority_def enqueueEvent_def)

section \<open>Outbox\<close>

lemma select_events: "outboxOk (navigationEvents t) \<Longrightarrow> SELECT_EVENTS sid t = sessionEvents sid (navigationEvents t)"
  by (simp add: SELECT_EVENTS_def outboxOk_def sort_key_id_if_sorted strict_sorted_iff)

lemma select_insertNext:
  assumes "outboxOk (navigationEvents t)" and "COUNT_EVENTS (outboxSessionId e) t < MAX_OUTBOX_EVENTS"
    and "draftEventId (outboxDraft e) \<notin> set (map evEventId (navigationEvents t))"
  shows "map evEventId (SELECT_EVENTS (outboxSessionId e) (insertNext host e t)) =
    map evEventId (SELECT_EVENTS (outboxSessionId e) t) @ [draftEventId (outboxDraft e)]"
  using assms(3)
  by (auto simp: select_events outbox_insertNext assms(1,2) sessionEvents_insertNext list_ex_iff image_iff)

text \<open>Which events leave a given critical event of a session in the outbox.\<close>

fun keepsEvent :: "'p SessionHost \<Rightarrow> string \<Rightarrow> string \<Rightarrow> Tables \<Rightarrow> 'p repoEvent \<Rightarrow> bool" where
  "keepsEvent host sid i t (AckEvents ids) \<longleftrightarrow> i \<notin> set ids"
| "keepsEvent host sid i t (Terminate sid' status now) \<longleftrightarrow> sid' \<noteq> sid"
| "keepsEvent host sid i t (Quarantine owner why now) \<longleftrightarrow> owner \<noteq> Some sid"
| "keepsEvent host sid i t (CreatePreparing s) \<longleftrightarrow>
     (\<forall>row. activeNavigation t = Some row \<and> arSessionId row = sid \<longrightarrow>
        (\<exists>s. parseMobileSession host (arJson row) = Inr s \<and> sessionStatus s \<notin> set TERMINAL_STATUSES))"
| "keepsEvent host sid i t (InspectEvent now) \<longleftrightarrow>
     (\<forall>row. activeNavigation t = Some row \<and> arSessionId row = sid \<longrightarrow>
        (\<exists>s. parseMobileSession host (arJson row) = Inr s))"
| "keepsEvent host sid i t _ \<longleftrightarrow> True"

lemma enqueue_keeps: "ev \<in> set (navigationEvents t) \<Longrightarrow> evCritical ev \<Longrightarrow> ev \<in> set (navigationEvents (enqueueEventIn host e t))"
  by (simp add: enqueueEventIn_def insertNext_def INSERT_EVENT_def DELETE_NON_CRITICAL_EVENTS_def Let_def)

lemma drafts_keep:
  "ev \<in> set (navigationEvents t) \<Longrightarrow> evCritical ev \<Longrightarrow> ev \<in> set (navigationEvents (enqueueDrafts host sid now t ds))"
  by (induction ds arbitrary: t) (simp_all add: enqueue_keeps)

lemma delete_keeps:
  "ev \<in> set (navigationEvents t) \<Longrightarrow> evSessionId ev \<noteq> sid \<Longrightarrow> ev \<in> set (navigationEvents (deleteSessionRows sid t))"
  by (simp add: deleteSessionRows_def session_deletes)

lemma quarantine_keeps:
  "ev \<in> set (navigationEvents t) \<Longrightarrow> owner \<noteq> Some (evSessionId ev) \<Longrightarrow>
     ev \<in> set (navigationEvents (quarantineCorruptSession owner why now t))"
  by (auto simp: quarantineCorruptSession_def TRIM_QUARANTINE_def INSERT_QUARANTINE_def session_deletes Let_def
      split: option.splits)

lemma frame_events [simp]:
  "navigationEvents (rememberCommand host i owner response now t) = navigationEvents t"
  "navigationEvents (snd (replaceScheduledAlerts sid inputs now t)) = navigationEvents t"
  "navigationEvents (markAlert i st now t) = navigationEvents t"
  "navigationEvents (recordDiagnostic host ty value now t) = navigationEvents t"
  "navigationEvents (clearDiagnostics t) = navigationEvents t"
proof -
  show "navigationEvents (snd (replaceScheduledAlerts sid inputs now t)) = navigationEvents t"
    by (auto simp: replaceScheduledAlerts_def withExclusiveTransaction_def elim!: replaceAlerts_Inr split: sum.splits)
qed (simp_all add: rememberCommand_def TRIM_PROCESSED_COMMANDS_def DELETE_EXPIRED_COMMANDS_def
    INSERT_PROCESSED_COMMAND_def Let_def markAlert_def UPDATE_ALERT_STATE_def recordDiagnostic_def INSERT_DIAGNOSTIC_def
    clearDiagnostics_def DELETE_ALL_DIAGNOSTICS_def)

lemma ack_keeps:
  "ev \<in> set (navigationEvents t) \<Longrightarrow> evEventId ev \<notin> set ids \<Longrightarrow> ev \<in> set (navigationEvents (ackEvents ids t))"
  unfolding ackEvents_def by (induction ids arbitrary: t) (simp_all add: DELETE_EVENT_def)

lemma create_keeps:
  assumes "ev \<in> set (navigationEvents t)" and "keepsEvent host (evSessionId ev) i t (CreatePreparing s)"
  shows "ev \<in> set (navigationEvents (snd (createPreparing host s t)))"
  using assms delete_keeps [OF assms(1)]
  by (auto simp: createPreparing_def withExclusiveTransaction_def Let_def writeActive_Inr
      split: option.splits sum.splits)

lemma swap_keeps:
  assumes "ev \<in> set (navigationEvents t)" and "evCritical ev"
  shows "ev \<in> set (navigationEvents (snd (compareAndSwap host sid n mutate now t)))"
proof -
  have "ev \<in> set (navigationEvents t')" if "commitMutation host i k now m t = Inr (r, t')" for i k m r t'
    using that by (rule commitMutation_Inr) (simp add: drafts_keep assms)
  with assms show ?thesis
    by (auto simp: compareAndSwap_def withExclusiveTransaction_def split: option.splits sum.splits)
qed

lemma terminate_keeps:
  assumes "ev \<in> set (navigationEvents t)" and "sid \<noteq> evSessionId ev"
  shows "ev \<in> set (navigationEvents (snd (terminate host sid status now t)))"
  using assms
  by (auto simp: terminate_def withExclusiveTransaction_def Let_def UPSERT_TERMINAL_ACK_def
      intro!: delete_keeps split: option.splits sum.splits)

interpretation critical: absorbing_reducer "repoStep host" "keepsEvent host (evSessionId ev) (evEventId ev)"
    "\<lambda>t. ev \<in> set (navigationEvents t) \<and> evCritical ev"
  for host and ev :: EventRow
proof
  fix t and e :: "'a repoEvent"
  assume stuck: "ev \<in> set (navigationEvents t) \<and> evCritical ev"
    and keeps: "keepsEvent host (evSessionId ev) (evEventId ev) t e"
  have "ev \<in> set (navigationEvents (repoStep host t e))"
  proof (cases e)
    case (InspectEvent now)
    with stuck keeps show ?thesis
      by (auto simp: inspectActive_def intro!: quarantine_keeps split: option.splits sum.splits)
  qed (use stuck keeps in \<open>auto simp: enqueueEvent_def
      intro: enqueue_keeps quarantine_keeps ack_keeps create_keeps swap_keeps terminate_keeps\<close>)
  with stuck show "ev \<in> set (navigationEvents (repoStep host t e)) \<and> evCritical ev" by simp
qed

section \<open>Revisions\<close>

definition pastRevision :: "'p SessionHost \<Rightarrow> string \<Rightarrow> int \<Rightarrow> Tables \<Rightarrow> bool" where
  "pastRevision host sid n t \<longleftrightarrow>
     storeOk host t \<and> (\<forall>s. authority host t = Live s \<and> sessionId s = sid \<longrightarrow> n < revision s)"

definition sameSession :: "'p SessionHost \<Rightarrow> string \<Rightarrow> Tables \<Rightarrow> 'p repoEvent \<Rightarrow> bool" where
  "sameSession host sid t e \<longleftrightarrow> storableEvent host t e \<and> (\<forall>s. e = CreatePreparing s \<longrightarrow> sessionId s \<noteq> sid)"

interpretation past: absorbing_reducer "repoStep host" "sameSession host sid" "pastRevision host sid n"
  for host sid n
proof
  fix t and e :: "'a repoEvent"
  assume stuck: "pastRevision host sid n t" and allowed: "sameSession host sid t e"
  have ok: "storeOk host (repoStep host t e)"
    using stuck allowed repo.keep by (auto simp: pastRevision_def sameSession_def)
  have spec: "authority host (repoStep host t e) = fst (specStep e (authority host t))"
    using step_refines [of host t e] stuck allowed by (metis fst_conv pastRevision_def sameSession_def)
  have "n < revision s" if "fst (specStep e (authority host t)) = Live s" "sessionId s = sid" for s
    using that stuck allowed
    by (cases e) (auto simp: pastRevision_def sameSession_def specCreate_def specSwap_def specTerminate_def specInspect_def Let_def
        split: Authority.splits if_splits sum.splits)
  with ok spec show "pastRevision host sid n (repoStep host t e)" by (simp add: pastRevision_def)
qed

section \<open>Commands\<close>

lemma find_filter_distinct:
  "distinct (map f xs) \<Longrightarrow> find (\<lambda>x. f x = i) (filter P xs) =
     (case find (\<lambda>x. f x = i) xs of None \<Rightarrow> None | Some x \<Rightarrow> if P x then Some x else None)"
proof (induction xs)
  case (Cons a xs)
  have "find (\<lambda>x. f x = i) (filter Q xs) = None" if "f a = i" for Q
    using that Cons.prems by (auto simp: find_None_iff image_iff)
  from this [of P] this [of "\<lambda>_. True"] Cons show ?case by (cases "f a = i") simp_all
qed simp

lemma remember_known:
  assumes "commandsOk (processedCommands t)" and "SELECT_PROCESSED_COMMAND i t = Some row"
  shows "SELECT_PROCESSED_COMMAND i (rememberCommand host i owner response now t) =
    (if cmExpiresAtMs row \<le> now then None else Some row)"
proof -
  have "\<exists>c \<in> set (processedCommands t). cmMessageId c = i"
    using assms(2) by (auto simp: SELECT_PROCESSED_COMMAND_def find_Some_iff)
  then have known: "INSERT_PROCESSED_COMMAND \<lparr>cmMessageId = i, cmSessionId = owner, cmResponse = x, cmCreatedAtMs = now,
      cmExpiresAtMs = y\<rparr> t = t" for x y
    by (auto simp: INSERT_PROCESSED_COMMAND_def list_ex_iff)
  have small: "drop MAX_PROCESSED_COMMANDS (newestCommands (filter P (processedCommands t))) = []" for P
    using assms(1) by (simp add: commandsOk_def length_filter_bound)
  show ?thesis
    using assms find_filter_distinct [of cmMessageId "processedCommands t" i]
    by (simp add: rememberCommand_def known TRIM_PROCESSED_COMMANDS_def DELETE_EXPIRED_COMMANDS_def small
        SELECT_PROCESSED_COMMAND_def commandsOk_def)
qed

section \<open>An example host\<close>

definition exampleSession :: "int \<Rightarrow> unit MobileSession" where
  "exampleSession n =
     \<lparr>sessionId = ''s'', revision = n, sessionKind = KindTransit, sessionStatus = StatusActive, startedAtMs = 0,
      updatedAtMs = 0, expiresAtMs = 1, sessionConnectivity = ConnOnline, permissionMode = ModeBackground,
      cueLedger = \<lparr>ledgerSpoken = [], ledgerEvents = []\<rparr>, lastAcceptedFixMs = None, sessionPayload = ()\<rparr>"

definition exampleHost :: "unit SessionHost" where
  "exampleHost =
     \<lparr>stringifySession = (\<lambda>s. if revision s = 0 then ''a'' else ''b''),
      sessionJson = (\<lambda>raw. if raw = ''!'' then None
                            else Some (JObj [(''schemaVersion'', JNum ''2''), (''raw'', JStr raw)])),
      sessionShape = (\<lambda>j. if jsonProp ''raw'' j = Some (JStr ''a'') then Some (exampleSession 0)
                           else Some (exampleSession 1)),
      stringifyJson = (\<lambda>_. [])\<rparr>"

lemma example_storable: "storable exampleHost (exampleSession 0)" "storable exampleHost (exampleSession 1)"
  by (simp_all add: storable_def exampleHost_def exampleSession_def parseMobileSession_def
      mobileNavigationSessionSchema_def ledgerRefine_def hasCoherentLifetime_def
      MOBILE_NAVIGATION_SESSION_SCHEMA_VERSION_def MOBILE_NAVIGATION_SESSION_MAX_AGE_MS_def)

definition exampleMutation :: "unit MobileSession \<Rightarrow> string + unit RepositoryMutation" where
  "exampleMutation s =
     Inr \<lparr>mutSession = exampleSession 1, mutEffects = [StopAudio],
          mutEnqueue = [\<lparr>draftEventId = ''e'', draftCritical = True, draftPayload = JNull\<rparr>], mutAlerts = None\<rparr>"

definition exampleStart :: Tables where
  "exampleStart = repoStep exampleHost emptyTables (CreatePreparing (exampleSession 0))"

definition exampleSwapped :: Tables where
  "exampleSwapped = repoStep exampleHost exampleStart (CompareAndSwap ''s'' 0 exampleMutation 5)"

lemma example_reaches:
  "reaches (repoStep exampleHost) (storableEvent exampleHost) emptyTables exampleStart"
  "reaches (repoStep exampleHost) (storableEvent exampleHost) emptyTables exampleSwapped"
proof -
  show start: "reaches (repoStep exampleHost) (storableEvent exampleHost) emptyTables exampleStart"
    unfolding exampleStart_def by (intro reaches.intros) (simp add: example_storable)
  show "reaches (repoStep exampleHost) (storableEvent exampleHost) emptyTables exampleSwapped"
    unfolding exampleSwapped_def
    by (intro reaches.intros start) (simp add: exampleMutation_def example_storable)
qed

lemma example_active: "activeNavigation exampleStart = Some (activeRow exampleHost (exampleSession 0))"
  by (simp add: exampleStart_def emptyTables_def createPreparing_def withExclusiveTransaction_def Let_def
      writeActive_def UPSERT_ACTIVE_def activeRow_def exampleSession_def)

lemma example_swap:
  "compareAndSwap exampleHost ''s'' 0 exampleMutation 5 exampleStart =
     (Inr (Inr (exampleSession 1, [StopAudio])), exampleSwapped)"
proof -
  have "parseMobileSession exampleHost (arJson (activeRow exampleHost (exampleSession 0))) = Inr (exampleSession 0)"
    using example_storable(1) by (simp add: storable_def activeRow_def)
  then have "fst (compareAndSwap exampleHost ''s'' 0 exampleMutation 5 exampleStart) =
      Inr (Inr (exampleSession 1, [StopAudio]))"
    by (simp add: compareAndSwap_def withExclusiveTransaction_def example_active exampleMutation_def
        commitMutation_def writeActive_def UPSERT_ACTIVE_def activeRow_def exampleSession_def Let_def)
  then show ?thesis by (simp add: exampleSwapped_def prod_eq_iff)
qed

section \<open>Properties\<close>

text \<open>
  C8. Refinement: in every run whose written sessions can be read back, the repository behaves as the abstract authority.
  Creating, swapping and terminating change the authority and answer as \<open>specStep\<close> says, errors, acknowledgement and effects
  included; inspecting answers what is there and drops an unreadable session; quarantining drops the session; no other method touches it.
\<close>

theorem repository_refines_authority:
  assumes "reaches (repoStep host) (storableEvent host) emptyTables t" and "storableEvent host t e"
  shows "(authority host (repoStep host t e), sessionAnswer host t e) = specStep e (authority host t)"
  by (rule step_refines [OF repo.reaches_inv [OF assms(1) storeOk_empty] assms(2)])

theorem repository_refines_authority_witness:
  "authority exampleHost exampleSwapped = fst (specStep (CompareAndSwap ''s'' 0 exampleMutation 5) (authority exampleHost exampleStart))"
  using repository_refines_authority [OF example_reaches(1), of "CompareAndSwap ''s'' 0 exampleMutation 5"]
  by (simp add: exampleSwapped_def exampleMutation_def example_storable prod_eq_iff)

text \<open>
  C9. No lost update: once a swap computed from revision \<open>n\<close> of a session has been committed, no swap
  computed from revision \<open>n\<close> or an earlier one is ever committed for that session, whatever happens in
  between, until a session is started again under its id.
\<close>

theorem cas_no_lost_update:
  assumes "reaches (repoStep host) (storableEvent host) emptyTables t"
    and "compareAndSwap host sid n mutate now t = (Inr (Inr committed), t1)"
    and "storableEvent host t (CompareAndSwap sid n mutate now)"
    and "reaches (repoStep host) (sameSession host sid) t1 t2"
    and "storableEvent host t2 (CompareAndSwap sid k mutate' now')" and "k \<le> n"
  shows "fst (compareAndSwap host sid k mutate' now' t2) \<noteq> Inr (Inr committed')"
proof -
  have ok: "storeOk host t" by (rule repo.reaches_inv [OF assms(1) storeOk_empty])
  from step_refines [OF ok assms(3)] assms(2)
  have spec: "(authority host t1, CommitAnswer (Inr (Inr committed))) = specStep (CompareAndSwap sid n mutate now) (authority host t)"
    by simp
  have "storeOk host t1" using repo.keep [OF ok assms(3)] assms(2) by simp
  moreover from spec have "\<forall>s. authority host t1 = Live s \<longrightarrow> revision s = n + 1"
    by (auto simp: specSwap_def split: Authority.splits if_splits sum.splits)
  ultimately have "pastRevision host sid n t1" by (simp add: pastRevision_def)
  then have past: "pastRevision host sid n t2" using assms(4) by (rule past.absorbed)
  then have "CommitAnswer (fst (compareAndSwap host sid k mutate' now' t2)) =
      snd (specStep (CompareAndSwap sid k mutate' now') (authority host t2))"
    using step_refines [OF _ assms(5)] by (simp add: pastRevision_def prod_eq_iff)
  with past assms(6) show ?thesis
    by (auto simp: pastRevision_def specSwap_def split: Authority.splits if_splits sum.splits)
qed

theorem cas_no_lost_update_witness:
  "fst (compareAndSwap exampleHost ''s'' 0 exampleMutation 9 exampleSwapped) \<noteq> Inr (Inr (exampleSession 1, [StopAudio]))"
  by (rule cas_no_lost_update [OF example_reaches(1) example_swap _ reaches.here])
     (simp_all add: exampleMutation_def example_storable)

text \<open>
  A critical event is never lost: once in the outbox it stays there through every run in which
  nobody acknowledges it, its session is not ended or quarantined, and a new session does not
  replace its finished or unreadable one; compaction of a full outbox never removes it.
\<close>

theorem critical_event_survives:
  assumes "ev \<in> set (navigationEvents t)" and "evCritical ev"
    and "reaches (repoStep host) (keepsEvent host (evSessionId ev) (evEventId ev)) t t'"
  shows "ev \<in> set (navigationEvents t')"
  using critical.absorbed [OF _ assms(3)] assms(1,2) by simp

theorem critical_event_survives_witness:
  "\<exists>ev. ev \<in> set (navigationEvents exampleSwapped) \<and> ev \<in> set (navigationEvents (repoStep exampleHost exampleSwapped ClearDiagnostics))"
proof -
  have events: "navigationEvents exampleSwapped = [\<lparr>evEventId = ''e'', evSessionId = ''s'', evCritical = True, evSequence = 1,
      evCreatedAtMs = 5, evPayload = []\<rparr>]"
  proof -
    have "parseMobileSession exampleHost (arJson (activeRow exampleHost (exampleSession 0))) = Inr (exampleSession 0)"
      using example_storable(1) by (simp add: storable_def activeRow_def)
    moreover have "navigationEvents exampleStart = []"
      by (simp add: exampleStart_def emptyTables_def createPreparing_def withExclusiveTransaction_def Let_def
          writeActive_def UPSERT_ACTIVE_def activeRow_def exampleSession_def)
    ultimately show ?thesis
      by (simp add: exampleSwapped_def compareAndSwap_def withExclusiveTransaction_def example_active exampleMutation_def
          commitMutation_def writeActive_def UPSERT_ACTIVE_def activeRow_def exampleSession_def Let_def
          enqueueEventIn_def insertNext_def INSERT_EVENT_def COUNT_EVENTS_def sessionEvents_def NEXT_EVENT_SEQUENCE_def
          MAX_OUTBOX_EVENTS_def exampleHost_def)
  qed
  obtain ev where ev: "ev \<in> set (navigationEvents exampleSwapped)" "evCritical ev" by (simp add: events)
  have "reaches (repoStep exampleHost) (keepsEvent exampleHost (evSessionId ev) (evEventId ev)) exampleSwapped
      (repoStep exampleHost exampleSwapped ClearDiagnostics)"
    by (intro reaches.intros) simp
  from critical_event_survives [OF ev this] ev(1) show ?thesis by blast
qed

text \<open>
  The outbox is a queue: a new event is listed behind all events of its session. When the session
  already has 256 events its non-critical ones are dropped first, and if 256 critical ones remain
  the new event is refused; the order of what stays never changes.
\<close>

theorem outbox_appends:
  assumes "reaches (repoStep host) (storableEvent host) emptyTables t"
    and "draftEventId (outboxDraft e) \<notin> set (map evEventId (navigationEvents t))"
  shows "map evEventId (SELECT_EVENTS (outboxSessionId e) (enqueueEvent host e t)) =
    (let listed = SELECT_EVENTS (outboxSessionId e) t;
         kept = (if length listed < MAX_OUTBOX_EVENTS then listed else filter evCritical listed)
     in map evEventId kept @ (if length kept < MAX_OUTBOX_EVENTS then [draftEventId (outboxDraft e)] else []))"
proof -
  let ?sid = "outboxSessionId e" and ?t' = "DELETE_NON_CRITICAL_EVENTS (outboxSessionId e) t"
  have ok: "outboxOk (navigationEvents t)"
    using repo.reaches_inv [OF assms(1) storeOk_empty] by (simp add: storeOk_def)
  have ok': "outboxOk (navigationEvents ?t')" by (simp add: DELETE_NON_CRITICAL_EVENTS_def outbox_filter ok)
  have kept: "sessionEvents ?sid (navigationEvents ?t') = filter evCritical (sessionEvents ?sid (navigationEvents t))"
    by (auto simp: DELETE_NON_CRITICAL_EVENTS_def sessionEvents_def intro: filter_cong)
  have fresh: "draftEventId (outboxDraft e) \<notin> set (map evEventId (navigationEvents ?t'))"
    using assms(2) by (auto simp: DELETE_NON_CRITICAL_EVENTS_def)
  show ?thesis
    using select_insertNext [OF ok _ assms(2), of host] select_insertNext [OF ok' _ fresh, of host]
    by (simp add: enqueueEvent_def enqueueEventIn_def Let_def select_events ok ok' COUNT_EVENTS_def kept not_le)
qed

theorem outbox_appends_witness:
  "map evEventId (SELECT_EVENTS ''s'' (enqueueEvent exampleHost
     \<lparr>outboxDraft = \<lparr>draftEventId = ''n'', draftCritical = False, draftPayload = JNull\<rparr>, outboxSessionId = ''s'',
      outboxCreatedAtMs = 0\<rparr> emptyTables)) = [''n'']"
  using outbox_appends [OF reaches.here, of "\<lparr>outboxDraft = \<lparr>draftEventId = ''n'', draftCritical = False, draftPayload = JNull\<rparr>,
      outboxSessionId = ''s'', outboxCreatedAtMs = 0\<rparr>" exampleHost]
  by (simp add: emptyTables_def SELECT_EVENTS_def sessionEvents_def MAX_OUTBOX_EVENTS_def Let_def)

text \<open>
  A replayed command gets the first answer: remembering another response under a message id that
  is still remembered changes nothing for any later lookup of that id.
\<close>

theorem first_response_replayed:
  assumes "reaches (repoStep host) (storableEvent host) emptyTables t"
    and "lookupCommand host i now t = Inr (Some response)"
  shows "lookupCommand host i now' (rememberCommand host i owner other now t) = lookupCommand host i now' t"
proof -
  have "commandsOk (processedCommands t)"
    using repo.reaches_inv [OF assms(1) storeOk_empty] by (simp add: storeOk_def)
  moreover from assms(2) obtain row where "SELECT_PROCESSED_COMMAND i t = Some row" "\<not> cmExpiresAtMs row \<le> now"
    by (auto simp: lookupCommand_def split: option.splits if_splits)
  ultimately show ?thesis by (simp add: lookupCommand_def remember_known)
qed

definition exampleRemembered :: Tables where
  "exampleRemembered = repoStep exampleHost emptyTables (RememberCommand ''m'' None JNull 0)"

lemma example_remembered:
  "reaches (repoStep exampleHost) (storableEvent exampleHost) emptyTables exampleRemembered"
  "SELECT_PROCESSED_COMMAND ''m'' exampleRemembered =
     Some \<lparr>cmMessageId = ''m'', cmSessionId = None, cmResponse = [], cmCreatedAtMs = 0, cmExpiresAtMs = 86400000\<rparr>"
proof -
  show "reaches (repoStep exampleHost) (storableEvent exampleHost) emptyTables exampleRemembered"
    unfolding exampleRemembered_def by (intro reaches.intros) simp
  show "SELECT_PROCESSED_COMMAND ''m'' exampleRemembered =
     Some \<lparr>cmMessageId = ''m'', cmSessionId = None, cmResponse = [], cmCreatedAtMs = 0, cmExpiresAtMs = 86400000\<rparr>"
    by (simp add: exampleRemembered_def rememberCommand_def SELECT_PROCESSED_COMMAND_def TRIM_PROCESSED_COMMANDS_def
        DELETE_EXPIRED_COMMANDS_def INSERT_PROCESSED_COMMAND_def PROCESSED_COMMAND_TTL_MS_def emptyTables_def
        newestCommands_def MAX_PROCESSED_COMMANDS_def Let_def exampleHost_def)
qed

theorem first_response_replayed_witness:
  "lookupCommand exampleHost ''m'' 8 (rememberCommand exampleHost ''m'' None (JBool True) 7 exampleRemembered) =
   lookupCommand exampleHost ''m'' 8 exampleRemembered"
proof -
  have "\<exists>v. lookupCommand exampleHost ''m'' 7 exampleRemembered = Inr (Some v)"
    by (simp add: lookupCommand_def example_remembered(2)) (simp add: exampleHost_def)
  then show ?thesis using first_response_replayed [OF example_remembered(1)] by blast
qed

text \<open>
  C36. Remembering a response under the id of an expired command loses it: the old row makes the
  insertion a no-op and is then deleted as expired, so the lookup right after finds nothing.
\<close>

theorem remember_after_expiry_lost:
  assumes "reaches (repoStep host) (storableEvent host) emptyTables t"
    and "SELECT_PROCESSED_COMMAND i t = Some row" and "cmExpiresAtMs row \<le> now"
  shows "lookupCommand host i now' (rememberCommand host i owner response now t) = Inr None"
proof -
  have "commandsOk (processedCommands t)"
    using repo.reaches_inv [OF assms(1) storeOk_empty] by (simp add: storeOk_def)
  with assms(2,3) show ?thesis by (simp add: lookupCommand_def remember_known)
qed

theorem remember_after_expiry_lost_witness:
  "lookupCommand exampleHost ''m'' 86400000 (rememberCommand exampleHost ''m'' None JNull 86400000 exampleRemembered) = Inr None"
  by (rule remember_after_expiry_lost [OF example_remembered]) simp

text \<open>
  Ending a session erases it: an acknowledged termination leaves no active row and no event,
  alert or command of the session, keeps an acknowledgement with the final status and the last
  revision, asks for location and audio to stop, and a second call does nothing.
\<close>

theorem terminate_erases:
  assumes "terminate host sid status now t = (Inr (Some ack, effects), t')"
  shows "activeNavigation t' = None \<and>
    (\<forall>e. e \<in> set (navigationEvents t') \<longrightarrow> evSessionId e \<noteq> sid) \<and>
    (\<forall>a. a \<in> set (scheduledAlerts t') \<longrightarrow> alSessionId a \<noteq> sid) \<and>
    (\<forall>c. c \<in> set (processedCommands t') \<longrightarrow> cmSessionId c \<noteq> Some sid) \<and>
    (\<exists>row stored. activeNavigation t = Some row \<and> arSessionId row = sid \<and> finalRevision ack = arRevision row \<and>
       readTerminalAck sid t' = Some stored \<and> finalStatus stored = status \<and> finalRevision stored = arRevision row) \<and>
    StopLocation \<in> set effects \<and> StopAudio \<in> set effects \<and>
    terminate host sid status' now' t' = (Inr (None, []), t')"
proof -
  have stored: "\<exists>b. find (\<lambda>a. ackSessionId a = ackSessionId x) (upsertAck x as) = Some b \<and>
      finalStatus b = finalStatus x \<and> finalRevision b = finalRevision x" for x and as
    by (induction as) auto
  from assms obtain row x where row: "activeNavigation t = Some row" "arSessionId row = sid"
    and ack: "ack = x" "ackSessionId x = sid" "finalStatus x = status" "finalRevision x = arRevision row"
    and t': "t' = deleteSessionRows sid (t\<lparr>terminalAcks := upsertAck x (terminalAcks t)\<rparr>)"
    and effects: "effects = terminationEffects sid"
    by (auto simp: terminate_def withExclusiveTransaction_def Let_def UPSERT_TERMINAL_ACK_def
        split: option.splits if_splits sum.splits)
  from stored [of x "terminalAcks t"] row ack show ?thesis
    by (simp add: t' effects terminationEffects_def deleteSessionRows_def session_deletes readTerminalAck_def
        SELECT_TERMINAL_ACK_def terminate_def withExclusiveTransaction_def)
qed

theorem terminate_erases_witness:
  "activeNavigation (snd (terminate exampleHost ''s'' FinalStopped 3 exampleStart)) = None"
proof -
  obtain ack effects where "fst (terminate exampleHost ''s'' FinalStopped 3 exampleStart) = Inr (Some ack, effects)"
    by (simp add: terminate_def withExclusiveTransaction_def example_active activeRow_def exampleSession_def
        UPSERT_TERMINAL_ACK_def Let_def)
  then have "terminate exampleHost ''s'' FinalStopped 3 exampleStart =
      (Inr (Some ack, effects), snd (terminate exampleHost ''s'' FinalStopped 3 exampleStart))"
    by (simp add: prod_eq_iff)
  from terminate_erases [OF this] show ?thesis by blast
qed

text \<open>
  An unreadable session cannot crash-loop the app: it is quarantined once, the next inspection
  finds no session, and at most three quarantine records are kept.
\<close>

theorem quarantine_breaks_loop:
  assumes "reaches (repoStep host) (storableEvent host) emptyTables t"
  shows "let t' = snd (inspectActive host now t)
         in inspectActive host now' t' =
              ((case authority host t of Live s \<Rightarrow> InspectActive s | _ \<Rightarrow> InspectNone), t') \<and>
            (fst (inspectActive host now t) = InspectQuarantined) = (\<exists>i n. authority host t = Unreadable i n) \<and>
            length (listQuarantined t') \<le> 3"
proof -
  have ok: "storeOk host t" by (rule repo.reaches_inv [OF assms storeOk_empty])
  have "length (listQuarantined (snd (inspectActive host now t))) \<le> 3"
    using inspect_ok [OF ok, of now]
    by (simp add: storeOk_def quarantineOk_def listQuarantined_def SELECT_QUARANTINE_def MAX_QUARANTINE_RECORDS_def)
  with ok show ?thesis
    by (cases rule: authority_cases) (auto simp: Let_def inspectActive_def)
qed

theorem quarantine_breaks_loop_witness:
  "inspectActive exampleHost 2 (snd (inspectActive exampleHost 1 (repoStep exampleHost exampleStart (DamageRow ''!'')))) =
     (InspectNone, snd (inspectActive exampleHost 1 (repoStep exampleHost exampleStart (DamageRow ''!''))))"
proof -
  have bad: "parseMobileSession exampleHost ''!'' = Inl InvalidSession"
    by (simp add: parseMobileSession_def exampleHost_def)
  have "reaches (repoStep exampleHost) (storableEvent exampleHost) emptyTables (repoStep exampleHost exampleStart (DamageRow ''!''))"
    using bad by (intro reaches.event [OF example_reaches(1)]) simp
  moreover have "authority exampleHost (repoStep exampleHost exampleStart (DamageRow ''!'')) = Unreadable ''s'' 0"
    by (simp add: authority_def example_active bad activeRow_def exampleSession_def)
  ultimately show ?thesis using quarantine_breaks_loop by (fastforce simp: Let_def)
qed

text \<open>
  The diagnostic log is a bounded ring: after recording, the log is what remains of the old one
  and the new entry when the oldest entries are dropped, and it respects both ceilings.
\<close>

theorem diagnostics_ring:
  assumes "reaches (repoStep host) (storableEvent host) emptyTables t"
  shows "\<exists>k new. dgType new = ty \<and> dgCreatedAtMs new = now \<and>
      SELECT_DIAGNOSTICS (recordDiagnostic host ty value now t) = drop k (SELECT_DIAGNOSTICS t @ [new]) \<and>
      fst (DIAGNOSTIC_USAGE (diagnosticEvents (recordDiagnostic host ty value now t))) \<le> 5000 \<and>
      snd (DIAGNOSTIC_USAGE (diagnosticEvents (recordDiagnostic host ty value now t))) \<le> 1024 * 1024"
proof -
  have ok: "diagnosticsOk (diagnosticCounter t) (diagnosticEvents t)"
    using repo.reaches_inv [OF assms storeOk_empty] by (simp add: storeOk_def)
  then obtain k where k: "diagnosticEvents (recordDiagnostic host ty value now t) =
      drop k (diagnosticEvents t @
        [\<lparr>dgId = diagnosticCounter t + 1, dgCreatedAtMs = now, dgType = ty, dgFields = stringifyJson host value\<rparr>])"
    and ceilings: "withinCeilings (diagnosticEvents (recordDiagnostic host ty value now t))"
    and sorted: "sorted_wrt (<) (map dgId (diagnosticEvents (recordDiagnostic host ty value now t)))"
    by (rule record_diagnostics)
  have "SELECT_DIAGNOSTICS (recordDiagnostic host ty value now t) = diagnosticEvents (recordDiagnostic host ty value now t)"
    using sorted by (simp add: SELECT_DIAGNOSTICS_def sort_key_id_if_sorted strict_sorted_iff)
  moreover have "SELECT_DIAGNOSTICS t = diagnosticEvents t"
    using ok by (simp add: SELECT_DIAGNOSTICS_def diagnosticsOk_def sort_key_id_if_sorted strict_sorted_iff)
  ultimately show ?thesis
    using k ceilings
    by (intro exI [of _ k] exI [of _ "\<lparr>dgId = diagnosticCounter t + 1, dgCreatedAtMs = now, dgType = ty,
          dgFields = stringifyJson host value\<rparr>"])
       (simp add: withinCeilings_def MAX_DIAGNOSTIC_ROWS_def MAX_DIAGNOSTIC_BYTES_def del: drop_append)
qed

theorem diagnostics_ring_witness:
  "fst (DIAGNOSTIC_USAGE (diagnosticEvents (recordDiagnostic exampleHost ''x'' JNull 1 exampleStart))) \<le> 5000"
  using diagnostics_ring [OF example_reaches(1), of "''x''" 1 JNull] by auto

end
