(* ===== verification/Mobile_Protocol.thy ===== *)
theory Mobile_Protocol
  imports Service_Types
begin

text \<open>
  The wire contract of the mobile bridge, \<open>packages/core/src/navigation/mobileProtocol.ts\<close>: version
  negotiation and the checks every message runs through. The zod schemas and \<open>JSON.parse\<close> are fields
  of the host; a schema takes the decoded value to the typed envelope with its payload.
\<close>

section \<open>Limits and vocabulary\<close>

definition MAX_MESSAGE_BYTES :: nat where
  "MAX_MESSAGE_BYTES = 8 * 1024 * 1024"

definition MAX_TOTAL_COORDINATES :: nat where
  "MAX_TOTAL_COORDINATES = 100000"

definition MAX_TOTAL_STEPS :: nat where
  "MAX_TOTAL_STEPS = 10000"

definition MAX_LEGS :: nat where
  "MAX_LEGS = 512"

definition MAX_CLOCK_SKEW_MS :: int where
  "MAX_CLOCK_SKEW_MS = 5 * 60000"

definition MOBILE_PROTOCOL_MIN :: int where
  "MOBILE_PROTOCOL_MIN = 3"

definition MOBILE_PROTOCOL_MAX :: int where
  "MOBILE_PROTOCOL_MAX = 5"

record ProtocolRange =
  rangeMin :: int
  rangeMax :: int

definition negotiateMobileProtocol :: "ProtocolRange \<Rightarrow> ProtocolRange \<Rightarrow> int option" where
  "negotiateMobileProtocol web native =
     (let lo = max (rangeMin web) (rangeMin native); hi = min (rangeMax web) (rangeMax native)
      in if lo \<le> hi then Some hi else None)"

definition WEB_TO_NATIVE_TYPES :: "string list" where
  "WEB_TO_NATIVE_TYPES =
     [''web.hello'', ''intake.list'', ''intake.read'', ''intake.complete'', ''destinations.update'',
      ''session.prepare'', ''session.start'', ''session.replace'', ''transit.action'', ''transit.walk-route'',
      ''settings.update'', ''snapshot.request'', ''session.stop'', ''session.complete'', ''event.ack'',
      ''location.request'', ''settings.open'', ''auth.open'', ''voice.probe'', ''voice.start'', ''voice.stop'',
      ''voice.cancel'']"

record BridgeMessage =
  protocolVersion :: int
  msgType :: string
  messageId :: string
  channelNonce :: string
  msgSessionId :: "string option"
  msgRevision :: "int option"
  sentAtMs :: int
  msgPayload :: json

datatype ParseErrorCode =
    PayloadTooLarge
  | InvalidJson
  | PrototypePollution
  | InvalidMessage
  | WrongChannel
  | TimestampOutOfRange
  | TooManyCoordinates
  | TooManySteps
  | TooManyLegs

record ProtocolHost =
  decodeJson :: "string \<Rightarrow> json option"
  mobileBridgeMessageSchema :: "json \<Rightarrow> BridgeMessage option"

section \<open>Parsing\<close>

definition POLLUTING_KEYS :: "string list" where
  "POLLUTING_KEYS = [''__proto__'', ''constructor'', ''prototype'']"

fun containsPollutingKey :: "json \<Rightarrow> nat \<Rightarrow> bool" where
  "containsPollutingKey (JArr items) depth =
     (if depth > 64 then False else list_ex (\<lambda>item. containsPollutingKey item (depth + 1)) items)"
| "containsPollutingKey (JObj props) depth =
     (if depth > 64 then False
      else list_ex (\<lambda>p. fst p \<in> set POLLUTING_KEYS \<or> containsPollutingKey (snd p) (depth + 1)) props)"
| "containsPollutingKey _ depth = False"

record AggregateCounts =
  countCoordinates :: nat
  countSteps :: nat
  countLegs :: nat

fun countKey :: "string \<Rightarrow> json \<Rightarrow> AggregateCounts \<Rightarrow> AggregateCounts" where
  "countKey key (JArr items) counts =
     (if key = ''geometry'' then counts\<lparr>countCoordinates := countCoordinates counts + length items\<rparr>
      else if key = ''steps'' then counts\<lparr>countSteps := countSteps counts + length items\<rparr>
      else if key = ''legs'' then counts\<lparr>countLegs := countLegs counts + length items\<rparr>
      else counts)"
| "countKey key _ counts = counts"

fun countAggregates :: "json \<Rightarrow> nat \<Rightarrow> AggregateCounts \<Rightarrow> AggregateCounts" where
  "countAggregates (JArr items) depth counts =
     (if depth > 64 then counts else foldl (\<lambda>acc item. countAggregates item (depth + 1) acc) counts items)"
| "countAggregates (JObj props) depth counts =
     (if depth > 64 then counts
      else foldl (\<lambda>acc p. countAggregates (snd p) (depth + 1) (countKey (fst p) (snd p) acc)) counts props)"
| "countAggregates _ depth counts = counts"

definition noCounts :: AggregateCounts where
  "noCounts = \<lparr>countCoordinates = 0, countSteps = 0, countLegs = 0\<rparr>"

text \<open>Only the payload of the envelope, at depth one, holds objects and arrays.\<close>

definition enforceAggregateBounds :: "BridgeMessage \<Rightarrow> ParseErrorCode + BridgeMessage" where
  "enforceAggregateBounds message =
     (let counts = countAggregates (msgPayload message) 1 noCounts
      in if countCoordinates counts > MAX_TOTAL_COORDINATES then Inl TooManyCoordinates
         else if countSteps counts > MAX_TOTAL_STEPS then Inl TooManySteps
         else if countLegs counts > MAX_LEGS then Inl TooManyLegs
         else Inr message)"

definition utf8Length :: "string \<Rightarrow> nat" where
  "utf8Length s = sum_list (map (\<lambda>c. if (of_char c :: nat) < 128 then 1 else 2) s)"

definition parseMobileBridgeMessage ::
  "ProtocolHost \<Rightarrow> string \<Rightarrow> string \<Rightarrow> int \<Rightarrow> ParseErrorCode + BridgeMessage"
where
  "parseMobileBridgeMessage host raw expectedNonce nowMs =
     (if utf8Length raw > MAX_MESSAGE_BYTES then Inl PayloadTooLarge
      else case decodeJson host raw of
        None \<Rightarrow> Inl InvalidJson
      | Some decoded \<Rightarrow>
          if containsPollutingKey decoded 0 then Inl PrototypePollution
          else case mobileBridgeMessageSchema host decoded of
            None \<Rightarrow> Inl InvalidMessage
          | Some message \<Rightarrow>
              if msgType message = ''destinations.update'' \<and> utf8Length raw > 64 * 1024 then Inl PayloadTooLarge
              else if expectedNonce \<noteq> [] \<and> channelNonce message \<noteq> expectedNonce then Inl WrongChannel
              else if \<bar>nowMs - sentAtMs message\<bar> > MAX_CLOCK_SKEW_MS then Inl TimestampOutOfRange
              else enforceAggregateBounds message)"

section \<open>Keys and their depth\<close>

text \<open>Every property of a value with the depth of the object that has it.\<close>

fun keyDepths :: "json \<Rightarrow> nat \<Rightarrow> (string \<times> nat) list" where
  "keyDepths (JArr items) depth = concat (map (\<lambda>item. keyDepths item (depth + 1)) items)"
| "keyDepths (JObj props) depth =
     concat (map (\<lambda>p. (fst p, depth) # keyDepths (snd p) (depth + 1)) props)"
| "keyDepths _ depth = []"

lemma keyDepths_ge: "(k, d) \<in> set (keyDepths v depth) \<Longrightarrow> depth \<le> d"
proof (induction v depth rule: keyDepths.induct)
  case (1 items depth)
  then show ?case by fastforce
next
  case (2 props depth)
  then show ?case by fastforce
qed simp_all

lemma keyDepths_ex:
  "(\<exists>(k, d) \<in> set (keyDepths (JArr items) depth). Q k d) \<longleftrightarrow>
     (\<exists>item \<in> set items. \<exists>(k, d) \<in> set (keyDepths item (depth + 1)). Q k d)"
  "(\<exists>(k, d) \<in> set (keyDepths (JObj props) depth). Q k d) \<longleftrightarrow>
     (\<exists>p \<in> set props. Q (fst p) depth \<or> (\<exists>(k, d) \<in> set (keyDepths (snd p) (depth + 1)). Q k d))"
  by auto

lemma keyDepths_deep: "64 < depth \<Longrightarrow> \<not> (\<exists>(k, d) \<in> set (keyDepths v depth). Q k \<and> d \<le> 64)"
  using keyDepths_ge [of _ _ v depth] by fastforce

lemma pollutes_iff:
  "containsPollutingKey v depth \<longleftrightarrow> (\<exists>(k, d) \<in> set (keyDepths v depth). k \<in> set POLLUTING_KEYS \<and> d \<le> 64)"
proof (induction v depth rule: containsPollutingKey.induct)
  case (1 items depth)
  show ?case
  proof (cases "depth > 64")
    case False
    with 1 show ?thesis unfolding keyDepths_ex by (simp add: list_ex_iff)
  qed (use keyDepths_deep [of depth "JArr items"] in \<open>simp del: keyDepths.simps\<close>)
next
  case (2 props depth)
  show ?case
  proof (cases "depth > 64")
    case False
    with 2 show ?thesis unfolding keyDepths_ex by (simp add: list_ex_iff)
  qed (use keyDepths_deep [of depth "JObj props"] in \<open>simp del: keyDepths.simps\<close>)
qed simp_all

lemma keyDepths_nested: "keyDepths (((\<lambda>j. JArr [j]) ^^ n) v) depth = keyDepths v (depth + n)"
  by (induction n arbitrary: depth) simp_all

lemma parse_accepts:
  assumes "parseMobileBridgeMessage host raw nonce now = Inr message"
  shows "nonce \<noteq> [] \<longrightarrow> channelNonce message = nonce" "\<bar>now - sentAtMs message\<bar> \<le> MAX_CLOCK_SKEW_MS"
    "utf8Length raw \<le> MAX_MESSAGE_BYTES"
    "countCoordinates (countAggregates (msgPayload message) 1 noCounts) \<le> MAX_TOTAL_COORDINATES"
    "countSteps (countAggregates (msgPayload message) 1 noCounts) \<le> MAX_TOTAL_STEPS"
    "countLegs (countAggregates (msgPayload message) 1 noCounts) \<le> MAX_LEGS"
    "\<exists>decoded. decodeJson host raw = Some decoded \<and> mobileBridgeMessageSchema host decoded = Some message \<and>
       \<not> containsPollutingKey decoded 0"
  using assms
  by (auto simp: parseMobileBridgeMessage_def enforceAggregateBounds_def Let_def not_less
      split: if_splits option.splits)

section \<open>Properties\<close>

text \<open>
  Negotiation: the selected version is the highest one both ranges contain, and there is none
  exactly when the ranges share no version.
\<close>

theorem negotiate_highest_common:
  "case negotiateMobileProtocol web native of
     None \<Rightarrow> \<not> (\<exists>v. rangeMin web \<le> v \<and> v \<le> rangeMax web \<and> rangeMin native \<le> v \<and> v \<le> rangeMax native)
   | Some s \<Rightarrow> is_arg_max id
       (\<lambda>v. rangeMin web \<le> v \<and> v \<le> rangeMax web \<and> rangeMin native \<le> v \<and> v \<le> rangeMax native) s"
  by (auto simp: negotiateMobileProtocol_def Let_def is_arg_max_def)

text \<open>
  The pollution check refuses a value exactly when one of the three keys occurs in an object at a
  depth of at most 64; a deeper one passes, although the source says that the key is refused
  anywhere in the value.
\<close>

theorem polluting_key_within_depth:
  "(containsPollutingKey v 0 \<longleftrightarrow> (\<exists>(k, d) \<in> set (keyDepths v 0). k \<in> set POLLUTING_KEYS \<and> d \<le> 64)) \<and>
   (let deep = ((\<lambda>j. JArr [j]) ^^ 65) (JObj [(''__proto__'', JNull)])
    in \<not> containsPollutingKey deep 0 \<and> (''__proto__'', 65) \<in> set (keyDepths deep 0))"
proof -
  define deep where "deep = ((\<lambda>j. JArr [j]) ^^ 65) (JObj [(''__proto__'', JNull)])"
  have "keyDepths deep 0 = [(''__proto__'', 65)]"
    unfolding deep_def keyDepths_nested by simp
  then have "\<not> containsPollutingKey deep 0 \<and> (''__proto__'', 65) \<in> set (keyDepths deep 0)"
    by (simp add: pollutes_iff)
  with pollutes_iff [of v 0] show ?thesis by (simp only: Let_def deep_def [symmetric] simp_thms)
qed

end
