(* ===== verification/Bridge.thy ===== *)
theory Bridge
  imports Mobile_Protocol Reducer
begin

text \<open>
  The mobile bridge: \<open>apps/mobile/src/shell/originPolicy.ts\<close>, \<open>bridge/channel.ts\<close> and
  \<open>bridge/nativeBridge.ts\<close>. A document's channel and the queue of messages held for it are a record;
  \<open>injectedLog\<close> and \<open>dispatchLog\<close> record what reached the page and the coordinator, with the channel at
  that moment. \<open>receive\<close> stops at each \<open>await\<close>: the handshake waits for the shell description and a
  command for its dispatch, and other events may happen before they resume. URL parsing, the zod
  schema, message ids and a failing injection are fields of the host.
\<close>

section \<open>Origins\<close>

record UrlParts =
  urlProtocol :: string
  urlUsername :: string
  urlPassword :: string
  urlOrigin :: string
  urlHostname :: string

record BridgeHost =
  protocolHost :: ProtocolHost
  parseUrl :: "string \<Rightarrow> UrlParts option"
  webOrigin :: string
  nativeToWebSchema :: "BridgeMessage \<Rightarrow> BridgeMessage option"
  nextMessageId :: "nat \<Rightarrow> string"
  injectThrows :: "BridgeMessage \<Rightarrow> bool"
  helloRange :: "json \<Rightarrow> ProtocolRange"
  helloBuildId :: "json \<Rightarrow> string"

datatype NavigationDecision = AllowInWebview | OpenSystem | RejectNavigation

definition MAX_NAVIGATION_URL_LENGTH :: nat where
  "MAX_NAVIGATION_URL_LENGTH = 8 * 1024"

definition SYSTEM_SCHEMES :: "string list" where
  "SYSTEM_SCHEMES = [''https:'', ''http:'', ''mailto:'', ''tel:'']"

definition NAVIGABLE_SCHEMES :: "string list" where
  "NAVIGABLE_SCHEMES = [''https:'', ''http:'']"

definition classifyNavigation :: "BridgeHost \<Rightarrow> string \<Rightarrow> NavigationDecision" where
  "classifyNavigation host rawUrl =
     (if rawUrl = [] \<or> length rawUrl > MAX_NAVIGATION_URL_LENGTH then RejectNavigation
      else case (parseUrl host rawUrl, parseUrl host (webOrigin host)) of
        (Some candidate, Some product) \<Rightarrow>
          if urlUsername candidate \<noteq> [] \<or> urlPassword candidate \<noteq> [] then RejectNavigation
          else if urlProtocol candidate \<notin> set NAVIGABLE_SCHEMES
          then (if urlProtocol candidate \<in> set SYSTEM_SCHEMES then OpenSystem else RejectNavigation)
          else if urlOrigin candidate = urlOrigin product then AllowInWebview
          else if urlHostname candidate = urlHostname product then RejectNavigation
          else if urlProtocol candidate \<in> set SYSTEM_SCHEMES then OpenSystem else RejectNavigation
      | _ \<Rightarrow> RejectNavigation)"

section \<open>Channels\<close>

definition MAX_SEEN_MESSAGE_IDS :: nat where
  "MAX_SEEN_MESSAGE_IDS = 2048"

record ChannelHandshake =
  hsWebBuildId :: string
  hsProtocolVersion :: int

record BridgeChannel =
  chNonce :: string
  chCreatedAtMs :: int
  chHandshake :: "ChannelHandshake option"
  chSeen :: "string list"

type_synonym ChannelRegistry = "BridgeChannel option"

definition adoptDocument :: "string \<Rightarrow> int \<Rightarrow> ChannelRegistry" where
  "adoptDocument nonce nowMs =
     Some \<lparr>chNonce = nonce, chCreatedAtMs = nowMs, chHandshake = None, chSeen = []\<rparr>"

definition isCurrent :: "string \<Rightarrow> ChannelRegistry \<Rightarrow> bool" where
  "isCurrent nonce reg \<longleftrightarrow> (case reg of None \<Rightarrow> False | Some ch \<Rightarrow> chNonce ch = nonce)"

definition handshakeOf :: "ChannelRegistry \<Rightarrow> ChannelHandshake option" where
  "handshakeOf reg = Option.bind reg chHandshake"

definition completeHandshake :: "string \<Rightarrow> ChannelHandshake \<Rightarrow> ChannelRegistry \<Rightarrow> bool \<times> ChannelRegistry" where
  "completeHandshake nonce h reg =
     (case reg of
        None \<Rightarrow> (False, reg)
      | Some ch \<Rightarrow>
          if chNonce ch \<noteq> nonce \<or> chHandshake ch \<noteq> None then (False, reg)
          else (True, Some (ch\<lparr>chHandshake := Some h\<rparr>)))"

definition rememberMessage :: "string \<Rightarrow> string \<Rightarrow> ChannelRegistry \<Rightarrow> bool \<times> ChannelRegistry" where
  "rememberMessage nonce i reg =
     (case reg of
        None \<Rightarrow> (False, reg)
      | Some ch \<Rightarrow>
          if chNonce ch \<noteq> nonce \<or> i \<in> set (chSeen ch) then (False, reg)
          else
            let seen = (if length (chSeen ch) \<ge> MAX_SEEN_MESSAGE_IDS then tl (chSeen ch) else chSeen ch)
            in (True, Some (ch\<lparr>chSeen := seen @ [i]\<rparr>)))"

section \<open>Outbound\<close>

definition MAX_QUEUED_OUTBOUND :: nat where
  "MAX_QUEUED_OUTBOUND = 256"

record OutboundDraft =
  draftType :: string
  draftBody :: json
  draftSession :: "string option"
  draftRevision :: "int option"

record HelloTask =
  helloCommand :: BridgeMessage
  helloNonce :: string
  helloSelected :: "int option"

record Bridge =
  channel :: ChannelRegistry
  queue :: "OutboundDraft list"
  idCounter :: nat
  pendingHellos :: "HelloTask list"
  injectedLog :: "(BridgeChannel \<times> BridgeMessage) list"
  dispatchLog :: "(BridgeChannel \<times> BridgeMessage) list"

datatype SendOutcome = Sent | Queued | Dropped | Invalid | InjectThrew

definition isSnapshot :: "OutboundDraft \<Rightarrow> bool" where
  "isSnapshot d \<longleftrightarrow> draftType d = ''snapshot.update''"

fun removeFirst :: "('a \<Rightarrow> bool) \<Rightarrow> 'a list \<Rightarrow> 'a list" where
  "removeFirst P [] = []"
| "removeFirst P (x # xs) = (if P x then xs else x # removeFirst P xs)"

definition enqueueDraft :: "OutboundDraft \<Rightarrow> OutboundDraft list \<Rightarrow> SendOutcome \<times> OutboundDraft list" where
  "enqueueDraft message queued =
     (let q = (if isSnapshot message then filter (\<lambda>entry. \<not> isSnapshot entry) queued else queued)
      in if length q \<ge> MAX_QUEUED_OUTBOUND
         then (if \<not> list_ex isSnapshot q then (Dropped, q)
               else (Queued, removeFirst isSnapshot q @ [message]))
         else (Queued, q @ [message]))"

definition correlated :: "string option \<Rightarrow> json \<Rightarrow> json" where
  "correlated forMessageId body =
     (case (forMessageId, body) of
        (Some i, JObj props) \<Rightarrow>
          if i = [] then body
          else JObj (filter (\<lambda>p. fst p \<noteq> ''forMessageId'') props @ [(''forMessageId'', JStr i)])
      | _ \<Rightarrow> body)"

definition startsWith :: "string \<Rightarrow> string \<Rightarrow> bool" where
  "startsWith p s \<longleftrightarrow> take (length p) s = p"

definition emit ::
  "BridgeHost \<Rightarrow> int \<Rightarrow> OutboundDraft \<Rightarrow> bool \<Rightarrow> int option \<Rightarrow> string option \<Rightarrow> Bridge \<Rightarrow> SendOutcome \<times> Bridge"
where
  "emit host now draft immediate requested forMessageId b =
     (case channel b of
        None \<Rightarrow> (Dropped, b)
      | Some ch \<Rightarrow>
          let version = (case requested of
                           Some v \<Rightarrow> v
                         | None \<Rightarrow> (case chHandshake ch of Some h \<Rightarrow> hsProtocolVersion h | None \<Rightarrow> MOBILE_PROTOCOL_MAX))
          in if chHandshake ch \<noteq> None \<and> version < 4 \<and> startsWith ''intake.'' (draftType draft) then (Dropped, b)
             else
               let candidate = \<lparr>protocolVersion = version, msgType = draftType draft,
                                messageId = nextMessageId host (idCounter b), channelNonce = chNonce ch,
                                msgSessionId = draftSession draft, msgRevision = draftRevision draft, sentAtMs = now,
                                msgPayload = correlated forMessageId (draftBody draft)\<rparr>;
                   b1 = b\<lparr>idCounter := idCounter b + 1\<rparr>
               in case nativeToWebSchema host candidate of
                    None \<Rightarrow> (Invalid, b1)
                  | Some validated \<Rightarrow>
                      if draftType draft = ''voice.event'' \<and> chHandshake ch = None then (Dropped, b1)
                      else if \<not> immediate \<and> chHandshake ch = None
                      then (case enqueueDraft
                                   \<lparr>draftType = msgType validated, draftBody = msgPayload validated,
                                    draftSession = draftSession draft, draftRevision = draftRevision draft\<rparr> (queue b1) of
                              (outcome, q) \<Rightarrow> (outcome, b1\<lparr>queue := q\<rparr>))
                      else if injectThrows host validated then (InjectThrew, b1)
                      else (Sent, b1\<lparr>injectedLog := injectedLog b1 @ [(ch, validated)]\<rparr>))"

definition sendMessage ::
  "BridgeHost \<Rightarrow> int \<Rightarrow> OutboundDraft \<Rightarrow> string option \<Rightarrow> Bridge \<Rightarrow> SendOutcome \<times> Bridge"
where
  "sendMessage host now draft forMessageId = emit host now draft False None forMessageId"

text \<open>When an injection throws, the exception leaves \<open>flush\<close> and the rest of the queue is gone.\<close>

fun emitAll :: "BridgeHost \<Rightarrow> int \<Rightarrow> int \<Rightarrow> OutboundDraft list \<Rightarrow> Bridge \<Rightarrow> nat option \<times> Bridge" where
  "emitAll host now v [] b = (Some 0, b)"
| "emitAll host now v (d # ds) b =
     (case emit host now d False (Some v) None b of
        (InjectThrew, b') \<Rightarrow> (None, b')
      | (outcome, b') \<Rightarrow>
          (case emitAll host now v ds b' of
             (n, b'') \<Rightarrow> (map_option (\<lambda>k. if outcome = Sent then k + 1 else k) n, b'')))"

definition flush :: "BridgeHost \<Rightarrow> int \<Rightarrow> Bridge \<Rightarrow> nat option \<times> Bridge" where
  "flush host now b =
     (case handshakeOf (channel b) of
        None \<Rightarrow> (Some 0, b)
      | Some h \<Rightarrow> emitAll host now (hsProtocolVersion h) (queue b) (b\<lparr>queue := []\<rparr>))"

definition discardQueue :: "Bridge \<Rightarrow> Bridge" where
  "discardQueue b = b\<lparr>queue := []\<rparr>"

section \<open>Inbound\<close>

datatype BridgeRejectionCode =
    ParseRejected ParseErrorCode
  | WrongOrigin
  | NoChannel
  | NotACommand
  | DuplicateMessage
  | HandshakeRequired
  | ProtocolMismatch
  | UnsupportedCapability

datatype ReceiveOutcome =
    Handled string
  | Rejected BridgeRejectionCode
  | Failed string
  | AwaitingShell
  | AwaitingDispatch

definition errorDraft :: "string \<Rightarrow> OutboundDraft" where
  "errorDraft code =
     \<lparr>draftType = ''native.error'', draftBody = JObj [(''code'', JStr code)], draftSession = None, draftRevision = None\<rparr>"

definition containDependencyFailure ::
  "BridgeHost \<Rightarrow> int \<Rightarrow> BridgeMessage \<Rightarrow> bool \<Rightarrow> Bridge \<Rightarrow> ReceiveOutcome \<times> Bridge"
where
  "containDependencyFailure host now cmd immediate b =
     (Failed (msgType cmd),
      snd (emit host now (errorDraft ''internal-error'') immediate
             (if immediate then Some (protocolVersion cmd) else None) (Some (messageId cmd)) b))"

definition receive ::
  "BridgeHost \<Rightarrow> int \<Rightarrow> string option \<Rightarrow> string option \<Rightarrow> Bridge \<Rightarrow> ReceiveOutcome \<times> Bridge"
where
  "receive host now url raw b =
     (if (case url of None \<Rightarrow> True | Some u \<Rightarrow> classifyNavigation host u \<noteq> AllowInWebview)
      then (Rejected WrongOrigin, b)
      else case channel b of
        None \<Rightarrow> (Rejected NoChannel, b)
      | Some ch \<Rightarrow>
          (case parseMobileBridgeMessage (protocolHost host) (case raw of None \<Rightarrow> [] | Some r \<Rightarrow> r) (chNonce ch) now of
             Inl e \<Rightarrow> (Rejected (ParseRejected e), b)
           | Inr cmd \<Rightarrow>
               if msgType cmd \<notin> set WEB_TO_NATIVE_TYPES then (Rejected NotACommand, b)
               else (case rememberMessage (chNonce ch) (messageId cmd) (channel b) of
                 (False, _) \<Rightarrow> (Rejected DuplicateMessage, b)
               | (True, reg) \<Rightarrow>
                   let b1 = b\<lparr>channel := reg\<rparr>
                   in if msgType cmd = ''web.hello''
                      then (AwaitingShell, b1\<lparr>pendingHellos := pendingHellos b1 @
                        [\<lparr>helloCommand = cmd, helloNonce = chNonce ch,
                          helloSelected = negotiateMobileProtocol (helloRange host (msgPayload cmd))
                            \<lparr>rangeMin = MOBILE_PROTOCOL_MIN, rangeMax = MOBILE_PROTOCOL_MAX\<rparr>\<rparr>]\<rparr>)
                      else case handshakeOf reg of
                        None \<Rightarrow> (Rejected HandshakeRequired, b1)
                      | Some h \<Rightarrow>
                          if protocolVersion cmd \<noteq> hsProtocolVersion h then (Rejected ProtocolMismatch, b1)
                          else if startsWith ''intake.'' (msgType cmd) \<and> hsProtocolVersion h < 4
                          then (Rejected UnsupportedCapability,
                                snd (sendMessage host now (errorDraft ''unsupported-capability'')
                                       (Some (messageId cmd)) b1))
                          else (AwaitingDispatch,
                                b1\<lparr>dispatchLog := dispatchLog b1 @ [(the reg, cmd)]\<rparr>))))"

definition dispatchResolved :: "BridgeHost \<Rightarrow> int \<Rightarrow> BridgeMessage \<Rightarrow> bool \<Rightarrow> Bridge \<Rightarrow> ReceiveOutcome \<times> Bridge" where
  "dispatchResolved host now cmd threw b =
     (if threw then containDependencyFailure host now cmd False b else (Handled (msgType cmd), b))"

record ShellDescription =
  shellFields :: "(string \<times> json) list"
  shellCapabilities :: "(string \<times> json) list"

definition helloDraft :: "ShellDescription \<Rightarrow> int option \<Rightarrow> OutboundDraft" where
  "helloDraft shell selected =
     (let legacyCapabilities = filter (\<lambda>p. fst p \<notin> {''nativeIntake'', ''carDestinations''}) (shellCapabilities shell);
          capabilities = (case selected of
                            Some v \<Rightarrow> if v \<ge> 4 then shellCapabilities shell else legacyCapabilities
                          | None \<Rightarrow> legacyCapabilities);
          number = (\<lambda>v. JNum (showNat (nat v)))
      in \<lparr>draftType = ''native.hello'',
          draftBody = JObj (shellFields shell @
            [(''capabilities'', JObj capabilities),
             (''selectedProtocolVersion'', (case selected of None \<Rightarrow> JNull | Some v \<Rightarrow> number v)),
             (''minProtocolVersion'', number MOBILE_PROTOCOL_MIN), (''maxProtocolVersion'', number MOBILE_PROTOCOL_MAX)]),
          draftSession = None, draftRevision = None\<rparr>)"

text \<open>The rest of \<open>handleHello\<close>, once the shell has described itself or failed to.\<close>

definition resumeHello ::
  "BridgeHost \<Rightarrow> int \<Rightarrow> HelloTask \<Rightarrow> ShellDescription option \<Rightarrow> Bridge \<Rightarrow> ReceiveOutcome \<times> Bridge"
where
  "resumeHello host now task shell b =
     (case shell of
        None \<Rightarrow> containDependencyFailure host now (helloCommand task) True b
      | Some described \<Rightarrow>
          if \<not> isCurrent (helloNonce task) (channel b) then (Rejected (ParseRejected WrongChannel), b)
          else
            let selected = helloSelected task;
                b1 = (case selected of
                        None \<Rightarrow> b
                      | Some v \<Rightarrow> b\<lparr>channel := snd (completeHandshake (helloNonce task)
                          \<lparr>hsWebBuildId = helloBuildId host (msgPayload (helloCommand task)), hsProtocolVersion = v\<rparr> (channel b))\<rparr>);
                version = (case selected of None \<Rightarrow> MOBILE_PROTOCOL_MAX | Some v \<Rightarrow> v)
            in case emit host now (helloDraft described selected) True (Some version)
                      (Some (messageId (helloCommand task))) b1 of
                 (InjectThrew, b2) \<Rightarrow> containDependencyFailure host now (helloCommand task) True b2
               | (_, b2) \<Rightarrow>
                   if selected = None then (Handled (msgType (helloCommand task)), b2)
                   else (case flush host now b2 of
                           (None, b3) \<Rightarrow> containDependencyFailure host now (helloCommand task) True b3
                         | (Some _, b3) \<Rightarrow> (Handled (msgType (helloCommand task)), b3)))"

section \<open>Runs\<close>

datatype bridgeEvent =
    Adopt string int
  | Invalidate
  | Receive "string option" "string option" int
  | ShellAnswered nat "ShellDescription option" int
  | DispatchAnswered BridgeMessage bool int
  | SendDraft OutboundDraft "string option" int
  | Flush int
  | Discard

fun bridgeStep :: "BridgeHost \<Rightarrow> Bridge \<Rightarrow> bridgeEvent \<Rightarrow> Bridge" where
  "bridgeStep host b (Adopt nonce now) = b\<lparr>channel := adoptDocument nonce now\<rparr>"
| "bridgeStep host b Invalidate = b\<lparr>channel := None\<rparr>"
| "bridgeStep host b (Receive url raw now) = snd (receive host now url raw b)"
| "bridgeStep host b (ShellAnswered k shell now) =
     (if k < length (pendingHellos b)
      then snd (resumeHello host now (pendingHellos b ! k) shell
                  (b\<lparr>pendingHellos := take k (pendingHellos b) @ drop (k + 1) (pendingHellos b)\<rparr>))
      else b)"
| "bridgeStep host b (DispatchAnswered cmd threw now) = snd (dispatchResolved host now cmd threw b)"
| "bridgeStep host b (SendDraft draft forMessageId now) = snd (sendMessage host now draft forMessageId b)"
| "bridgeStep host b (Flush now) = snd (flush host now b)"
| "bridgeStep host b Discard = discardQueue b"

text \<open>Nonces are random: a document gets one that no earlier document had.\<close>

fun freshNonce :: "Bridge \<Rightarrow> bridgeEvent \<Rightarrow> bool" where
  "freshNonce b (Adopt nonce now) \<longleftrightarrow>
     nonce \<noteq> [] \<and> nonce \<notin> set (map (chNonce \<circ> fst) (dispatchLog b))"
| "freshNonce b _ \<longleftrightarrow> True"

definition initialBridge :: Bridge where
  "initialBridge =
     \<lparr>channel = None, queue = [], idCounter = 0, pendingHellos = [], injectedLog = [], dispatchLog = []\<rparr>"

end
