(* ===== verification/Bridge_Properties.thy ===== *)
theory Bridge_Properties
  imports Bridge "HOL-Library.Code_Target_Nat"
begin

text \<open>
  What the bridge guarantees in every run: what reaches a page before its handshake, under which
  conditions a command is dispatched and how often, what the outbound queue holds and loses, and the
  one place where a handshake reply names a version that is not in force.
\<close>

section \<open>The outbound queue\<close>

definition queueOk :: "OutboundDraft list \<Rightarrow> bool" where
  "queueOk q \<longleftrightarrow> length q \<le> MAX_QUEUED_OUTBOUND \<and> length (filter isSnapshot q) \<le> 1"

lemma removeFirst_facts:
  "list_ex P xs \<Longrightarrow> length (removeFirst P xs) + 1 = length xs"
  "filter P (removeFirst P xs) = tl (filter P xs)"
  "filter (\<lambda>x. \<not> P x) (removeFirst P xs) = filter (\<lambda>x. \<not> P x) xs"
  by (induction xs) auto

lemma enqueue_ok:
  assumes "queueOk q"
  shows "queueOk (snd (enqueueDraft m q))"
proof (cases "isSnapshot m")
  case True
  have "filter isSnapshot (filter (\<lambda>e. \<not> isSnapshot e) q) = []" by (simp add: filter_empty_conv)
  moreover have "length (filter (\<lambda>e. \<not> isSnapshot e) q) \<le> MAX_QUEUED_OUTBOUND"
    by (rule order_trans [OF length_filter_le]) (use assms in \<open>simp add: queueOk_def\<close>)
  moreover have "\<not> list_ex isSnapshot (filter (\<lambda>e. \<not> isSnapshot e) q)" by (simp add: list_ex_iff)
  ultimately show ?thesis using True by (simp add: queueOk_def enqueueDraft_def Let_def del: filter_filter)
next
  case False
  show ?thesis
  proof (cases "length q \<ge> MAX_QUEUED_OUTBOUND \<and> list_ex isSnapshot q")
    case True
    have "length (filter isSnapshot (removeFirst isSnapshot q)) \<le> 1"
      using assms by (simp add: queueOk_def removeFirst_facts)
    moreover have "length (removeFirst isSnapshot q) + 1 \<le> MAX_QUEUED_OUTBOUND"
      using assms True removeFirst_facts(1) [of isSnapshot q] by (simp add: queueOk_def)
    ultimately show ?thesis using True False by (simp add: queueOk_def enqueueDraft_def)
  qed (use False assms in \<open>auto simp: queueOk_def enqueueDraft_def\<close>)
qed

lemma enqueue_keeps_critical:
  "filter (\<lambda>e. \<not> isSnapshot e) (snd (enqueueDraft m q)) =
     filter (\<lambda>e. \<not> isSnapshot e) q @ (if fst (enqueueDraft m q) = Queued \<and> \<not> isSnapshot m then [m] else [])"
  by (simp add: enqueueDraft_def Let_def removeFirst_facts)

section \<open>Emission\<close>

definition faithfulSchema :: "BridgeHost \<Rightarrow> bool" where
  "faithfulSchema host \<longleftrightarrow>
     (\<forall>m v. nativeToWebSchema host m = Some v \<longrightarrow>
        protocolVersion v = protocolVersion m \<and> msgType v = msgType m \<and> messageId v = messageId m \<and>
        channelNonce v = channelNonce m)"

definition spoken :: "BridgeChannel \<times> BridgeMessage \<Rightarrow> bool" where
  "spoken entry \<longleftrightarrow>
     channelNonce (snd entry) = chNonce (fst entry) \<and>
     (msgType (snd entry) \<in> {''native.hello'', ''native.error''} \<or>
      (\<exists>h. chHandshake (fst entry) = Some h \<and> protocolVersion (snd entry) = hsProtocolVersion h))"

lemma emit_frame:
  "channel (snd (emit host now d im req i b)) = channel b"
  "pendingHellos (snd (emit host now d im req i b)) = pendingHellos b"
  "dispatchLog (snd (emit host now d im req i b)) = dispatchLog b"
  by (auto simp: emit_def Let_def split: option.splits prod.splits)

lemma emit_queue: "queueOk (queue b) \<Longrightarrow> queueOk (queue (snd (emit host now d im req i b)))"
  using enqueue_ok [of "queue b"] by (auto simp: emit_def Let_def case_prod_beta split: option.splits)

definition mayEmit :: "OutboundDraft \<Rightarrow> bool \<Rightarrow> int option \<Rightarrow> Bridge \<Rightarrow> bool" where
  "mayEmit d im req b \<longleftrightarrow>
     (if im then draftType d \<in> {''native.hello'', ''native.error''}
      else \<forall>v h. req = Some v \<longrightarrow> handshakeOf (channel b) = Some h \<longrightarrow> v = hsProtocolVersion h)"

lemma emit_spoken:
  assumes "faithfulSchema host" and "mayEmit d im req b" and "list_all spoken (injectedLog b)"
  shows "list_all spoken (injectedLog (snd (emit host now d im req i b)))"
proof (cases "channel b")
  case None
  with assms show ?thesis by (simp add: emit_def)
next
  case (Some ch)
  define version where "version = (case req of Some v \<Rightarrow> v
    | None \<Rightarrow> (case chHandshake ch of Some h \<Rightarrow> hsProtocolVersion h | None \<Rightarrow> MOBILE_PROTOCOL_MAX))"
  define candidate where "candidate = \<lparr>protocolVersion = version, msgType = draftType d,
    messageId = nextMessageId host (idCounter b), channelNonce = chNonce ch, msgSessionId = draftSession d,
    msgRevision = draftRevision d, sentAtMs = now, msgPayload = correlated i (draftBody d)\<rparr>"
  note emitted = emit_def Some option.simps version_def [symmetric] candidate_def [symmetric] Let_def
  show ?thesis
  proof (cases "chHandshake ch \<noteq> None \<and> version < 4 \<and> startsWith ''intake.'' (draftType d)")
    case True
    with assms(3) show ?thesis unfolding emitted by simp
  next
    case keep: False
    show ?thesis
    proof (cases "nativeToWebSchema host candidate")
      case None
      with assms(3) keep show ?thesis unfolding emitted by simp
    next
      case (Some v)
      with assms(1) have v: "protocolVersion v = version" "msgType v = draftType d" "channelNonce v = chNonce ch"
        by (auto simp: faithfulSchema_def candidate_def)
      have "spoken (ch, v)" if "im \<or> chHandshake ch \<noteq> None"
        using that assms(2) v \<open>channel b = Some ch\<close>
        by (cases im) (auto simp: spoken_def mayEmit_def handshakeOf_def version_def split: option.splits)
      with assms(3) keep Some show ?thesis unfolding emitted by (simp add: case_prod_beta)
    qed
  qed
qed

definition emitsOnly :: "BridgeHost \<Rightarrow> Bridge \<Rightarrow> Bridge \<Rightarrow> bool" where
  "emitsOnly host b b' \<longleftrightarrow>
     channel b' = channel b \<and> pendingHellos b' = pendingHellos b \<and> dispatchLog b' = dispatchLog b \<and>
     (queueOk (queue b) \<longrightarrow> queueOk (queue b')) \<and>
     (faithfulSchema host \<longrightarrow> list_all spoken (injectedLog b) \<longrightarrow> list_all spoken (injectedLog b'))"

lemma emitsOnly_trans: "emitsOnly host a b \<Longrightarrow> emitsOnly host b c \<Longrightarrow> emitsOnly host a c"
  by (simp add: emitsOnly_def)

lemma emitsOnly_emit: "mayEmit d im req b \<Longrightarrow> emitsOnly host b (snd (emit host now d im req i b))"
  using emit_spoken by (simp add: emitsOnly_def emit_frame emit_queue)

lemma emitsOnly_emitAll:
  "\<forall>h. handshakeOf (channel b) = Some h \<longrightarrow> v = hsProtocolVersion h \<Longrightarrow>
     emitsOnly host b (snd (emitAll host now v ds b))"
proof (induction ds arbitrary: b)
  case (Cons d ds)
  have step: "emitsOnly host b (snd (emit host now d False (Some v) None b))"
    using Cons.prems by (intro emitsOnly_emit) (simp add: mayEmit_def)
  then have "emitsOnly host b (snd (emitAll host now v ds (snd (emit host now d False (Some v) None b))))"
    using Cons.IH Cons.prems emitsOnly_trans by (metis emitsOnly_def)
  with step show ?case by (auto simp: case_prod_beta split: SendOutcome.splits)
qed (simp add: emitsOnly_def)

lemma emitsOnly_flush: "emitsOnly host b (snd (flush host now b))"
proof (cases "handshakeOf (channel b)")
  case (Some h)
  have "emitsOnly host (b\<lparr>queue := []\<rparr>) (snd (emitAll host now (hsProtocolVersion h) (queue b) (b\<lparr>queue := []\<rparr>)))"
    using Some by (intro emitsOnly_emitAll) simp
  with Some show ?thesis by (simp add: flush_def emitsOnly_def queueOk_def)
qed (simp add: flush_def emitsOnly_def)

lemma emitsOnly_contain: "emitsOnly host b (snd (containDependencyFailure host now c im b))"
  by (auto simp: containDependencyFailure_def errorDraft_def mayEmit_def intro!: emitsOnly_emit)

lemma emitsOnly_send: "emitsOnly host b (snd (sendMessage host now d i b))"
  by (simp add: sendMessage_def emitsOnly_emit mayEmit_def)

section \<open>The invariant\<close>

definition inRange :: "int \<Rightarrow> bool" where
  "inRange v \<longleftrightarrow> MOBILE_PROTOCOL_MIN \<le> v \<and> v \<le> MOBILE_PROTOCOL_MAX"

definition dispatchedUnder :: "BridgeChannel \<times> BridgeMessage \<Rightarrow> bool" where
  "dispatchedUnder entry \<longleftrightarrow>
     channelNonce (snd entry) = chNonce (fst entry) \<and> msgType (snd entry) \<in> set WEB_TO_NATIVE_TYPES \<and>
     (\<exists>h. chHandshake (fst entry) = Some h \<and> protocolVersion (snd entry) = hsProtocolVersion h \<and>
          inRange (hsProtocolVersion h))"

definition dispatchedIds :: "string \<Rightarrow> (BridgeChannel \<times> BridgeMessage) list \<Rightarrow> string list" where
  "dispatchedIds nonce log = map (messageId \<circ> snd) (filter (\<lambda>e. chNonce (fst e) = nonce) log)"

definition channelOk :: "(BridgeChannel \<times> BridgeMessage) list \<Rightarrow> BridgeChannel \<Rightarrow> bool" where
  "channelOk log ch \<longleftrightarrow>
     chNonce ch \<noteq> [] \<and> distinct (chSeen ch) \<and> length (chSeen ch) \<le> MAX_SEEN_MESSAGE_IDS \<and>
     (\<forall>h. chHandshake ch = Some h \<longrightarrow> inRange (hsProtocolVersion h)) \<and>
     (length (chSeen ch) < MAX_SEEN_MESSAGE_IDS \<longrightarrow>
        distinct (dispatchedIds (chNonce ch) log) \<and> set (dispatchedIds (chNonce ch) log) \<subseteq> set (chSeen ch))"

definition bridgeOk :: "BridgeHost \<Rightarrow> Bridge \<Rightarrow> bool" where
  "bridgeOk host b \<longleftrightarrow>
     queueOk (queue b) \<and> list_all spoken (injectedLog b) \<and> list_all dispatchedUnder (dispatchLog b) \<and>
     (\<forall>ch. channel b = Some ch \<longrightarrow> channelOk (dispatchLog b) ch) \<and>
     (\<forall>task \<in> set (pendingHellos b). \<forall>v. helloSelected task = Some v \<longrightarrow> inRange v)"

lemma emitsOnly_ok: "faithfulSchema host \<Longrightarrow> bridgeOk host b \<Longrightarrow> emitsOnly host b b' \<Longrightarrow> bridgeOk host b'"
  by (simp add: bridgeOk_def emitsOnly_def)

lemma remember_True:
  assumes "rememberMessage nonce i (Some ch) = (True, reg)"
  obtains ch' where "reg = Some ch'" "chNonce ch' = chNonce ch" "chHandshake ch' = chHandshake ch"
    "i \<notin> set (chSeen ch)"
    "chSeen ch' = (if length (chSeen ch) \<ge> MAX_SEEN_MESSAGE_IDS then tl (chSeen ch) else chSeen ch) @ [i]"
  using assms by (auto simp: rememberMessage_def Let_def split: if_splits)

lemma channelOk_remember:
  assumes "channelOk log ch" and "i \<notin> set (chSeen ch)" and "chNonce ch' = chNonce ch"
    and "chHandshake ch' = chHandshake ch"
    and "chSeen ch' = (if length (chSeen ch) \<ge> MAX_SEEN_MESSAGE_IDS then tl (chSeen ch) else chSeen ch) @ [i]"
  shows "channelOk log ch'"
    and "messageId m = i \<Longrightarrow> channelOk (log @ [(ch', m)]) ch'"
proof -
  have tl: "distinct (tl (chSeen ch)) \<and> i \<notin> set (tl (chSeen ch)) \<and> length (tl (chSeen ch)) \<le> MAX_SEEN_MESSAGE_IDS - 1"
    by (cases "chSeen ch") (use assms(1,2) in \<open>auto simp: channelOk_def\<close>)
  have pos: "0 < MAX_SEEN_MESSAGE_IDS" by (simp add: MAX_SEEN_MESSAGE_IDS_def)
  show "channelOk log ch'"
    using assms tl pos by (auto simp: channelOk_def)
  show "channelOk (log @ [(ch', m)]) ch'" if "messageId m = i"
    using assms tl pos that by (auto simp: channelOk_def dispatchedIds_def)
qed

lemma negotiated_range:
  "negotiateMobileProtocol web \<lparr>rangeMin = MOBILE_PROTOCOL_MIN, rangeMax = MOBILE_PROTOCOL_MAX\<rparr> = Some v \<Longrightarrow> inRange v"
  by (auto simp: negotiateMobileProtocol_def Let_def inRange_def split: if_splits)

lemma receive_ok:
  assumes "faithfulSchema host" and "bridgeOk host b"
  shows "bridgeOk host (snd (receive host now url raw b))"
proof (cases "channel b")
  case None
  then have "snd (receive host now url raw b) = b" by (simp add: receive_def)
  with assms(2) show ?thesis by simp
next
  case (Some ch)
  let ?text = "case raw of None \<Rightarrow> [] | Some r \<Rightarrow> r"
  have ch: "channelOk (dispatchLog b) ch" using assms(2) Some by (simp add: bridgeOk_def)
  show ?thesis
  proof (cases "parseMobileBridgeMessage (protocolHost host) ?text (chNonce ch) now")
    case (Inl e)
    with Some have "snd (receive host now url raw b) = b" by (simp add: receive_def)
    with assms(2) show ?thesis by simp
  next
    case parsed: (Inr cmd)
    obtain fresh reg where remember: "rememberMessage (chNonce ch) (messageId cmd) (Some ch) = (fresh, reg)" by fastforce
    show ?thesis
    proof (cases fresh)
      case False
      with Some parsed remember have "snd (receive host now url raw b) = b" by (simp add: receive_def)
      with assms(2) show ?thesis by simp
    next
      case True
      with remember have "rememberMessage (chNonce ch) (messageId cmd) (Some ch) = (True, reg)" by simp
      then obtain ch' where ch': "reg = Some ch'" "chNonce ch' = chNonce ch"
        "chHandshake ch' = chHandshake ch" "messageId cmd \<notin> set (chSeen ch)"
        "chSeen ch' = (if length (chSeen ch) \<ge> MAX_SEEN_MESSAGE_IDS then tl (chSeen ch) else chSeen ch) @ [messageId cmd]"
        by (rule remember_True)
      note remembered = channelOk_remember [OF ch ch'(4) ch'(2) ch'(3) ch'(5)]
      let ?b1 = "b\<lparr>channel := Some ch'\<rparr>"
      have ok1: "bridgeOk host ?b1" using assms(2) remembered(1) by (simp add: bridgeOk_def)
      have nonce: "channelNonce cmd = chNonce ch"
        using parse_accepts(1) [OF parsed] ch by (simp add: channelOk_def)
      have hello: "bridgeOk host (?b1\<lparr>pendingHellos := pendingHellos b @
          [\<lparr>helloCommand = cmd, helloNonce = chNonce ch,
            helloSelected = negotiateMobileProtocol (helloRange host (msgPayload cmd))
              \<lparr>rangeMin = MOBILE_PROTOCOL_MIN, rangeMax = MOBILE_PROTOCOL_MAX\<rparr>\<rparr>]\<rparr>)"
        using ok1 negotiated_range by (auto simp: bridgeOk_def)
      have dispatch: "bridgeOk host (?b1\<lparr>dispatchLog := dispatchLog b @ [(ch', cmd)]\<rparr>)"
        if "chHandshake ch = Some h" "protocolVersion cmd = hsProtocolVersion h" "msgType cmd \<in> set WEB_TO_NATIVE_TYPES" for h
        using assms(2) remembered(2) [of cmd] nonce that ch ch'
        by (simp add: bridgeOk_def dispatchedUnder_def channelOk_def)
      have unsupported: "bridgeOk host (snd (sendMessage host now d i ?b1))" for d i
        by (rule emitsOnly_ok [OF assms(1) ok1 emitsOnly_send])
      have "snd (receive host now url raw b) \<in>
          {b, ?b1, ?b1\<lparr>pendingHellos := pendingHellos b @
            [\<lparr>helloCommand = cmd, helloNonce = chNonce ch,
              helloSelected = negotiateMobileProtocol (helloRange host (msgPayload cmd))
                \<lparr>rangeMin = MOBILE_PROTOCOL_MIN, rangeMax = MOBILE_PROTOCOL_MAX\<rparr>\<rparr>]\<rparr>,
           snd (sendMessage host now (errorDraft ''unsupported-capability'') (Some (messageId cmd)) ?b1)} \<or>
          (\<exists>h. chHandshake ch = Some h \<and> protocolVersion cmd = hsProtocolVersion h \<and> msgType cmd \<in> set WEB_TO_NATIVE_TYPES \<and>
             snd (receive host now url raw b) = ?b1\<lparr>dispatchLog := dispatchLog b @ [(ch', cmd)]\<rparr>)"
        using Some parsed remember True ch'
        by (simp add: receive_def handshakeOf_def Let_def split: option.split)
      with assms(2) ok1 hello dispatch unsupported show ?thesis by (elim disjE) auto
    qed
  qed
qed

lemma bound_ok:
  assumes "bridgeOk host b" and "inRange (hsProtocolVersion h)"
  shows "bridgeOk host (b\<lparr>channel := snd (completeHandshake nonce h (channel b))\<rparr>)"
  using assms by (auto simp: completeHandshake_def bridgeOk_def channelOk_def split: option.splits)

lemma hello_type: "draftType (helloDraft shell selected) = ''native.hello''"
  by (simp add: helloDraft_def Let_def)

lemma resume_ok:
  assumes "faithfulSchema host" and "bridgeOk host b" and "\<forall>v. helloSelected task = Some v \<longrightarrow> inRange v"
  shows "bridgeOk host (snd (resumeHello host now task shell b))"
proof -
  note contain = emitsOnly_ok [OF assms(1) _ emitsOnly_contain]
  show ?thesis
  proof (cases "\<exists>described. shell = Some described \<and> isCurrent (helloNonce task) (channel b)")
    case False
    with contain [OF assms(2)] assms(2) show ?thesis by (auto simp: resumeHello_def split: option.splits)
  next
    case True
    then obtain described where shell: "shell = Some described" "isCurrent (helloNonce task) (channel b)" by blast
    define b1 where "b1 = (case helloSelected task of
        None \<Rightarrow> b
      | Some v \<Rightarrow> b\<lparr>channel := snd (completeHandshake (helloNonce task)
          \<lparr>hsWebBuildId = helloBuildId host (msgPayload (helloCommand task)), hsProtocolVersion = v\<rparr> (channel b))\<rparr>)"
    have ok1: "bridgeOk host b1"
      using assms(2,3) bound_ok [OF assms(2)] by (simp add: b1_def split: option.splits)
    obtain outcome b2 where emitted: "emit host now (helloDraft described (helloSelected task)) True
        (Some (case helloSelected task of None \<Rightarrow> MOBILE_PROTOCOL_MAX | Some v \<Rightarrow> v))
        (Some (messageId (helloCommand task))) b1 = (outcome, b2)" by fastforce
    have "emitsOnly host b1 (snd (emit host now (helloDraft described (helloSelected task)) True
        (Some (case helloSelected task of None \<Rightarrow> MOBILE_PROTOCOL_MAX | Some v \<Rightarrow> v))
        (Some (messageId (helloCommand task))) b1))"
      by (rule emitsOnly_emit) (simp add: mayEmit_def hello_type)
    with emitted have ok2: "bridgeOk host b2" using emitsOnly_ok [OF assms(1) ok1] by simp
    obtain n b3 where flushed: "flush host now b2 = (n, b3)" by fastforce
    have ok3: "bridgeOk host b3" using emitsOnly_ok [OF assms(1) ok2 emitsOnly_flush [of host b2 now]] flushed by simp
    have "snd (resumeHello host now task shell b) \<in>
        {b2, b3, snd (containDependencyFailure host now (helloCommand task) True b2),
         snd (containDependencyFailure host now (helloCommand task) True b3)}"
      using emitted flushed shell
      by (simp add: resumeHello_def Let_def b1_def [symmetric] split: SendOutcome.split option.split)
    with ok2 ok3 contain [OF ok2] contain [OF ok3] show ?thesis by auto
  qed
qed

interpretation bridge: reducer "bridgeStep host" freshNonce "\<lambda>b. faithfulSchema host \<and> bridgeOk host b" for host
proof
  fix b e
  assume inv: "faithfulSchema host \<and> bridgeOk host b" and fresh: "freshNonce b e"
  have emits: "bridgeOk host b'" if "emitsOnly host b b'" for b'
    using inv that emitsOnly_ok by blast
  have "bridgeOk host (bridgeStep host b e)"
  proof (cases e)
    case (Adopt nonce now)
    with fresh have "dispatchedIds nonce (dispatchLog b) = []"
      by (auto simp: dispatchedIds_def filter_empty_conv)
    with inv fresh Adopt show ?thesis by (simp add: bridgeOk_def adoptDocument_def channelOk_def)
  next
    case Invalidate
    with inv show ?thesis by (simp add: bridgeOk_def)
  next
    case (Receive url raw now)
    with inv show ?thesis by (simp add: receive_ok)
  next
    case (ShellAnswered k shell now)
    show ?thesis
    proof (cases "k < length (pendingHellos b)")
      case True
      let ?rest = "take k (pendingHellos b) @ drop (k + 1) (pendingHellos b)"
      have "set ?rest \<subseteq> set (pendingHellos b)" by (auto dest: in_set_takeD in_set_dropD)
      with inv have "bridgeOk host (b\<lparr>pendingHellos := ?rest\<rparr>)" by (auto simp: bridgeOk_def)
      moreover have "\<forall>v. helloSelected (pendingHellos b ! k) = Some v \<longrightarrow> inRange v"
        using inv True nth_mem by (auto simp: bridgeOk_def)
      ultimately have "bridgeOk host (snd (resumeHello host now (pendingHellos b ! k) shell (b\<lparr>pendingHellos := ?rest\<rparr>)))"
        using inv by (intro resume_ok) simp_all
      with ShellAnswered True show ?thesis by simp
    qed (use ShellAnswered inv in simp)
  next
    case (DispatchAnswered cmd threw now)
    with inv emits [OF emitsOnly_contain] show ?thesis by (simp add: dispatchResolved_def)
  next
    case (SendDraft draft i now)
    with emits [OF emitsOnly_send] show ?thesis by simp
  next
    case (Flush now)
    with emits [OF emitsOnly_flush] show ?thesis by simp
  next
    case Discard
    with inv show ?thesis by (simp add: discardQueue_def bridgeOk_def queueOk_def)
  qed
  with inv show "faithfulSchema host \<and> bridgeOk host (bridgeStep host b e)" by simp
qed

lemma bridgeOk_initial: "bridgeOk host initialBridge"
  by (simp add: bridgeOk_def initialBridge_def queueOk_def)

section \<open>Appending to the log\<close>

lemma emit_appends: "\<exists>xs. injectedLog (snd (emit host now d im req i b)) = injectedLog b @ xs"
proof (cases "channel b")
  case (Some ch)
  then show ?thesis by (simp add: emit_def Let_def case_prod_beta split: option.split)
qed (simp add: emit_def)

lemma emitAll_appends: "\<exists>xs. injectedLog (snd (emitAll host now v ds b)) = injectedLog b @ xs"
proof (induction ds arbitrary: b)
  case (Cons d ds)
  obtain outcome b' where step: "emit host now d False (Some v) None b = (outcome, b')" by fastforce
  obtain n b'' where rest: "emitAll host now v ds b' = (n, b'')" by fastforce
  obtain xs where "injectedLog b' = injectedLog b @ xs"
    using emit_appends [of host now d False "Some v" None b] step by auto
  moreover obtain ys where "injectedLog b'' = injectedLog b' @ ys"
    using Cons [of b'] rest by auto
  ultimately show ?case using step rest by (cases outcome) auto
qed simp

lemma flush_appends: "\<exists>xs. injectedLog (snd (flush host now b)) = injectedLog b @ xs"
  using emitAll_appends [of host now _ "queue b" "b\<lparr>queue := []\<rparr>"] by (simp add: flush_def split: option.split)

section \<open>An example\<close>

definition exampleMessage :: "string \<Rightarrow> string \<Rightarrow> BridgeMessage" where
  "exampleMessage ty i =
     \<lparr>protocolVersion = 3, msgType = ty, messageId = i, channelNonce = ''n'', msgSessionId = None, msgRevision = None,
      sentAtMs = 0, msgPayload = JStr i\<rparr>"

definition exampleBridgeHost :: BridgeHost where
  "exampleBridgeHost =
     \<lparr>protocolHost =
        \<lparr>decodeJson = (\<lambda>raw. Some (JStr raw)),
         mobileBridgeMessageSchema =
           (\<lambda>j. if j = JStr ''c'' then Some (exampleMessage ''session.stop'' ''c'')
                else if j = JStr ''h'' then Some (exampleMessage ''web.hello'' ''h'')
                else Some (exampleMessage ''web.hello'' ''g''))\<rparr>,
      parseUrl = (\<lambda>_. Some \<lparr>urlProtocol = ''https:'', urlUsername = [], urlPassword = [], urlOrigin = ''o'', urlHostname = ''o''\<rparr>),
      webOrigin = ''o'', nativeToWebSchema = Some, nextMessageId = (\<lambda>_. ''id''), injectThrows = (\<lambda>_. False),
      helloRange = (\<lambda>j. if j = JStr ''h'' then \<lparr>rangeMin = 1, rangeMax = 3\<rparr> else \<lparr>rangeMin = 1, rangeMax = 5\<rparr>),
      helloBuildId = (\<lambda>_. [])\<rparr>"

definition exampleShell :: ShellDescription where
  "exampleShell = \<lparr>shellFields = [], shellCapabilities = [(''nativeIntake'', JBool True)]\<rparr>"

definition exampleRun :: "bridgeEvent list" where
  "exampleRun =
     [Adopt ''n'' 0, Receive (Some ''u'') (Some ''h'') 0, ShellAnswered 0 (Some exampleShell) 0,
      Receive (Some ''u'') (Some ''c'') 0]"

definition exampleBridge :: Bridge where
  "exampleBridge = foldl (bridgeStep exampleBridgeHost) initialBridge exampleRun"

lemma example_faithful: "faithfulSchema exampleBridgeHost"
  by (simp add: faithfulSchema_def exampleBridgeHost_def)

lemma example_logs:
  "map (msgType \<circ> snd) (injectedLog exampleBridge) = [''native.hello'']"
  "map (msgType \<circ> snd) (dispatchLog exampleBridge) = [''session.stop'']"
  by code_simp+

lemma example_run: "reaches (bridgeStep exampleBridgeHost) freshNonce initialBridge exampleBridge"
  unfolding exampleBridge_def exampleRun_def foldl.simps
  by (intro reaches.intros) (simp_all add: initialBridge_def)

section \<open>Properties\<close>

text \<open>
  C10. Nothing but the handshake reply and errors reaches a page before its handshake: in every run a
  message carries the nonce of the document it was injected into, and every other message came
  after that document's handshake and has the negotiated version.
\<close>

theorem bridge_speaks_after_handshake:
  assumes "reaches (bridgeStep host) freshNonce initialBridge b" and "faithfulSchema host"
    and "(ch, m) \<in> set (injectedLog b)"
  shows "channelNonce m = chNonce ch \<and>
     (msgType m \<in> {''native.hello'', ''native.error''} \<or>
      (\<exists>h. chHandshake ch = Some h \<and> protocolVersion m = hsProtocolVersion h))"
proof -
  have "bridgeOk host b" using bridge.reaches_inv [OF assms(1)] assms(2) bridgeOk_initial by blast
  with assms(3) have "spoken (ch, m)" by (auto simp: bridgeOk_def list_all_iff)
  then show ?thesis by (simp add: spoken_def)
qed

theorem bridge_speaks_after_handshake_witness:
  "\<exists>ch m. (ch, m) \<in> set (injectedLog exampleBridge) \<and> channelNonce m = chNonce ch"
proof -
  obtain ch m where "(ch, m) \<in> set (injectedLog exampleBridge)"
    using example_logs(1) by (cases "injectedLog exampleBridge") auto
  with bridge_speaks_after_handshake [OF example_run example_faithful this] show ?thesis by blast
qed

text \<open>
  C11. Every dispatched command came in under the nonce of its document, is of the web's vocabulary, and
  has the version that document negotiated, which both sides support; and as long as fewer than
  2048 messages of the current document are remembered, no message id of it was dispatched twice.
\<close>

theorem commands_dispatched_once:
  assumes "reaches (bridgeStep host) freshNonce initialBridge b" and "faithfulSchema host"
  shows "(\<forall>ch m. (ch, m) \<in> set (dispatchLog b) \<longrightarrow>
        channelNonce m = chNonce ch \<and> msgType m \<in> set WEB_TO_NATIVE_TYPES \<and>
        (\<exists>h. chHandshake ch = Some h \<and> protocolVersion m = hsProtocolVersion h \<and>
           MOBILE_PROTOCOL_MIN \<le> hsProtocolVersion h \<and> hsProtocolVersion h \<le> MOBILE_PROTOCOL_MAX)) \<and>
     (\<forall>ch. channel b = Some ch \<longrightarrow> length (chSeen ch) < MAX_SEEN_MESSAGE_IDS \<longrightarrow>
        distinct (map (messageId \<circ> snd) (filter (\<lambda>e. chNonce (fst e) = chNonce ch) (dispatchLog b))))"
proof -
  have "bridgeOk host b" using bridge.reaches_inv [OF assms(1)] assms(2) bridgeOk_initial by blast
  then show ?thesis
    by (fastforce simp: bridgeOk_def list_all_iff dispatchedUnder_def inRange_def channelOk_def dispatchedIds_def)
qed

theorem commands_dispatched_once_witness:
  "\<exists>ch m h. (ch, m) \<in> set (dispatchLog exampleBridge) \<and> chHandshake ch = Some h \<and> hsProtocolVersion h \<le> 5"
proof -
  obtain ch m where "(ch, m) \<in> set (dispatchLog exampleBridge)"
    using example_logs(2) by (cases "dispatchLog exampleBridge") auto
  with commands_dispatched_once [OF example_run example_faithful] show ?thesis
    by (fastforce simp: MOBILE_PROTOCOL_MAX_def)
qed

text \<open>
  The queue for a page that is not ready: in every run it holds at most 256 messages and at most one
  snapshot; queueing keeps all other messages in their order, and a message is only dropped when
  256 others that are not snapshots are waiting.
\<close>

theorem outbound_queue_bounded:
  assumes "reaches (bridgeStep host) freshNonce initialBridge b" and "faithfulSchema host"
  shows "length (queue b) \<le> 256 \<and> length (filter isSnapshot (queue b)) \<le> 1 \<and>
     filter (\<lambda>e. \<not> isSnapshot e) (snd (enqueueDraft m (queue b))) =
       filter (\<lambda>e. \<not> isSnapshot e) (queue b) @ (if fst (enqueueDraft m (queue b)) = Queued \<and> \<not> isSnapshot m then [m] else []) \<and>
     (fst (enqueueDraft m (queue b)) = Queued \<or>
      fst (enqueueDraft m (queue b)) = Dropped \<and> length (filter (\<lambda>e. \<not> isSnapshot e) (queue b)) = 256)"
proof -
  have "bridgeOk host b" using bridge.reaches_inv [OF assms(1)] assms(2) bridgeOk_initial by blast
  then have ok: "queueOk (queue b)" by (simp add: bridgeOk_def)
  have "length (filter (\<lambda>e. \<not> isSnapshot e) (queue b)) = MAX_QUEUED_OUTBOUND" if "fst (enqueueDraft m (queue b)) \<noteq> Queued"
  proof (cases "isSnapshot m")
    case True
    with that have "MAX_QUEUED_OUTBOUND \<le> length (filter (\<lambda>e. \<not> isSnapshot e) (queue b))"
      by (auto simp: enqueueDraft_def Let_def split: if_splits)
    moreover have "length (filter (\<lambda>e. \<not> isSnapshot e) (queue b)) \<le> MAX_QUEUED_OUTBOUND"
      by (rule order_trans [OF length_filter_le]) (use ok in \<open>simp add: queueOk_def\<close>)
    ultimately show ?thesis by simp
  next
    case False
    with that have "MAX_QUEUED_OUTBOUND \<le> length (queue b)" "\<not> list_ex isSnapshot (queue b)"
      by (auto simp: enqueueDraft_def Let_def split: if_splits)
    then have "filter (\<lambda>e. \<not> isSnapshot e) (queue b) = queue b" by (auto simp: list_ex_iff filter_id_conv)
    with ok \<open>MAX_QUEUED_OUTBOUND \<le> length (queue b)\<close> show ?thesis by (simp add: queueOk_def)
  qed
  moreover have "fst (enqueueDraft m (queue b)) \<in> {Queued, Dropped}" by (simp add: enqueueDraft_def Let_def)
  ultimately show ?thesis
    using ok enqueue_keeps_critical [of m "queue b"] by (auto simp: queueOk_def MAX_QUEUED_OUTBOUND_def)
qed

theorem outbound_queue_bounded_witness:
  "length (queue exampleBridge) \<le> 256"
  using outbound_queue_bounded [OF example_run example_faithful] by blast

text \<open>
  A second hello is answered with a version that is not in force: when a document that has its
  handshake says hello again with another range, the reply names the newly negotiated version while
  the channel keeps the old one, so that commands with the version just announced are refused.
\<close>

theorem second_hello_misreports_version:
  assumes "channel b = Some ch" and "chHandshake ch = Some h" and "helloNonce task = chNonce ch"
    and "helloSelected task = Some v" and "nativeToWebSchema host = Some" and "\<forall>m. \<not> injectThrows host m"
  shows "chHandshake (the (channel (snd (resumeHello host now task (Some shell) b)))) = Some h \<and>
     (\<exists>m rest props. injectedLog (snd (resumeHello host now task (Some shell) b)) = injectedLog b @ (ch, m) # rest \<and>
        msgType m = ''native.hello'' \<and> protocolVersion m = v \<and> msgPayload m = JObj props \<and>
        (''selectedProtocolVersion'', JNum (showNat (nat v))) \<in> set props)"
proof -
  have current: "isCurrent (helloNonce task) (channel b)" using assms(1,3) by (simp add: isCurrent_def)
  have same: "b\<lparr>channel := snd (completeHandshake (helloNonce task) x (channel b))\<rparr> = b" for x
    using assms(1-3) by (simp add: completeHandshake_def)
  obtain outcome b2 where emitted: "emit host now (helloDraft shell (Some v)) True (Some v)
      (Some (messageId (helloCommand task))) b = (outcome, b2)" by fastforce
  have "\<not> startsWith ''intake.'' ''native.hello''" by (simp add: startsWith_def)
  define m where "m = \<lparr>protocolVersion = v, msgType = ''native.hello'', messageId = nextMessageId host (idCounter b),
    channelNonce = chNonce ch, msgSessionId = draftSession (helloDraft shell (Some v)),
    msgRevision = draftRevision (helloDraft shell (Some v)), sentAtMs = now,
    msgPayload = correlated (Some (messageId (helloCommand task))) (draftBody (helloDraft shell (Some v)))\<rparr>"
  have sent: "emit host now (helloDraft shell (Some v)) True (Some v) (Some (messageId (helloCommand task))) b =
      (Sent, b\<lparr>idCounter := idCounter b + 1, injectedLog := injectedLog b @ [(ch, m)]\<rparr>)"
    unfolding emit_def assms(1) option.simps hello_type Let_def assms(5) m_def [symmetric]
    using assms(6) \<open>\<not> startsWith _ _\<close> by simp
  with emitted have outcome: "outcome = Sent" and log: "injectedLog b2 = injectedLog b @ [(ch, m)]" by auto
  have m: "msgType m = ''native.hello''" "protocolVersion m = v"
      "msgPayload m = correlated (Some (messageId (helloCommand task))) (draftBody (helloDraft shell (Some v)))"
    by (simp_all add: m_def)
  have "\<exists>props. msgPayload m = JObj props \<and> (''selectedProtocolVersion'', JNum (showNat (nat v))) \<in> set props"
    unfolding m(3) by (auto simp: correlated_def helloDraft_def Let_def)
  moreover have "channel b2 = channel b"
    using emit_frame(1) [of host now "helloDraft shell (Some v)" True "Some v" _ b] emitted by (metis snd_conv)
  moreover obtain n b3 where flushed: "flush host now b2 = (n, b3)" by fastforce
  moreover obtain xs where "injectedLog b3 = injectedLog b2 @ xs" using flush_appends [of host now b2] flushed by auto
  moreover have "channel b3 = channel b2"
    using emitsOnly_flush [of host b2 now] flushed by (simp add: emitsOnly_def)
  moreover have result: "snd (resumeHello host now task (Some shell) b) =
      (case n of None \<Rightarrow> snd (containDependencyFailure host now (helloCommand task) True b3) | Some _ \<Rightarrow> b3)"
    using emitted outcome flushed current assms(4) same by (simp add: resumeHello_def split: option.split)
  moreover obtain ys where "injectedLog (snd (containDependencyFailure host now (helloCommand task) True b3)) = injectedLog b3 @ ys"
    using emit_appends by (metis containDependencyFailure_def snd_conv)
  moreover have "channel (snd (containDependencyFailure host now (helloCommand task) True b3)) = channel b3"
    using emitsOnly_contain [of host b3 now "helloCommand task" True] by (simp add: emitsOnly_def)
  ultimately show ?thesis
    using assms(1,2) log m(1,2) by (cases n) auto
qed

theorem second_hello_misreports_version_witness:
  "\<exists>m rest. injectedLog (bridgeStep exampleBridgeHost
       (bridgeStep exampleBridgeHost exampleBridge (Receive (Some ''u'') (Some ''g'') 0)) (ShellAnswered 0 (Some exampleShell) 0)) =
       injectedLog exampleBridge @ m # rest \<and> protocolVersion (snd m) = 5"
proof -
  let ?b = "bridgeStep exampleBridgeHost exampleBridge (Receive (Some ''u'') (Some ''g'') 0)"
  let ?task = "pendingHellos ?b ! 0"
  have facts: "map_option chNonce (channel ?b) = Some ''n''"
    "Option.bind (channel ?b) chHandshake = Some \<lparr>hsWebBuildId = [], hsProtocolVersion = 3\<rparr>"
    "length (pendingHellos ?b) = 1" "helloNonce ?task = ''n''" "helloSelected ?task = Some 5"
    "injectedLog ?b = injectedLog exampleBridge"
    by code_simp+
  then obtain ch where ch: "channel ?b = Some ch" "chNonce ch = ''n''"
    "chHandshake ch = Some \<lparr>hsWebBuildId = [], hsProtocolVersion = 3\<rparr>" by (cases "channel ?b") auto
  let ?b' = "?b\<lparr>pendingHellos := take 0 (pendingHellos ?b) @ drop (0 + 1) (pendingHellos ?b)\<rparr>"
  have "\<exists>m rest. injectedLog (snd (resumeHello exampleBridgeHost 0 ?task (Some exampleShell) ?b')) =
      injectedLog ?b' @ (ch, m) # rest \<and> protocolVersion m = 5"
    using second_hello_misreports_version [of ?b' ch "\<lparr>hsWebBuildId = [], hsProtocolVersion = 3\<rparr>" ?task 5 exampleBridgeHost 0 exampleShell]
      ch facts by (auto simp: exampleBridgeHost_def)
  with facts(3,6) show ?thesis by fastforce
qed

end
