(* ===== verification/Bridge_Script.thy ===== *)
theory Bridge_Script
  imports Control_Key
begin

text \<open>
  Delivery into the page: \<open>apps/mobile/src/bridge/base64.ts\<close> and \<open>outboundScript.ts\<close>. Bytes are numbers
  below 256. What the injected program does in the page (\<open>atob\<close>, \<open>TextDecoder\<close>) is written out as
  \<open>pageDecode\<close> to state that the page receives the message; the words of the program text are split
  where that is needed, and \<open>@\<close> puts them together.
\<close>

section \<open>Base64 over an alphabet\<close>

definition STANDARD :: string where
  "STANDARD = ''ABCDEFGHIJKLMNOPQRSTUVWXYZabcdefghijklmnopqrstuvwxyz0123456789+/''"

definition URL_SAFE :: string where
  "URL_SAFE = ''ABCDEFGHIJKLMNOPQRSTUVWXYZabcdefghijklmnopqrstuvwxyz0123456789-_''"

fun encodeBytes :: "nat list \<Rightarrow> string \<Rightarrow> bool \<Rightarrow> string" where
  "encodeBytes [] alphabet pad = []"
| "encodeBytes [a] alphabet pad =
     [alphabet ! (a div 4), alphabet ! (a mod 4 * 16)] @ (if pad then ''=='' else [])"
| "encodeBytes [a, b] alphabet pad =
     [alphabet ! (a div 4), alphabet ! (a mod 4 * 16 + b div 16), alphabet ! (b mod 16 * 4)] @
     (if pad then ''='' else [])"
| "encodeBytes (a # b # c # rest) alphabet pad =
     [alphabet ! (a div 4), alphabet ! (a mod 4 * 16 + b div 16), alphabet ! (b mod 16 * 4 + c div 64),
      alphabet ! (c mod 64)] @ encodeBytes rest alphabet pad"

definition encodeBase64 :: "nat list \<Rightarrow> string" where
  "encodeBase64 bytes = encodeBytes bytes STANDARD True"

definition encodeBase64Url :: "nat list \<Rightarrow> string" where
  "encodeBase64Url bytes = encodeBytes bytes URL_SAFE False"

definition utf8Bytes :: "string \<Rightarrow> nat list" where
  "utf8Bytes s =
     concat (map (\<lambda>c. let n = of_char c :: nat in if n < 128 then [n] else [192 + n div 64, 128 + n mod 64]) s)"

section \<open>Scripts\<close>

definition LF :: string where
  "LF = [CHR 0x0A]"

definition decoderHead :: string where
  \<open>decoderHead = ''(function(){tr'' @ ''y{'' @ LF @ ''var b=atob("''\<close>

definition decoderTail :: string where
  \<open>decoderTail =
     ''");'' @ LF @
     ''var u=new Uint8Array(b.length);'' @ LF @
     ''for(var i=0;i<b.length;i++){u[i]=b.charCodeAt(i);}'' @ LF @
     ''var d=JSON.parse(new TextDecoder("utf-8").decode(u));'' @ LF @
     ''window.dispatchEvent(new CustomEvent("openmapx:native",{detail:d}));'' @ LF @
     ''}catch(e){}})();true;''\<close>

definition decoderProgram :: "string \<Rightarrow> string" where
  "decoderProgram encoded = decoderHead @ encoded @ decoderTail"

text \<open>The argument is the text \<open>JSON.stringify\<close> gives, nothing when the message has none.\<close>

definition buildOutboundScript :: "string option \<Rightarrow> string option" where
  "buildOutboundScript json =
     (case json of None \<Rightarrow> None | Some txt \<Rightarrow> Some (decoderProgram (encodeBase64 (utf8Bytes txt))))"

definition buildChannelBootstrapScript :: "string \<Rightarrow> string option" where
  \<open>buildChannelBootstrapScript nonce =
     (if nonce = [] \<or> \<not> list_all isNonceChar nonce then None
      else Some (''(function(){tr'' @ ''y{'' @ LF @
        ''Object.defineProperty(window,"__OPENMAPX_MOBILE_CHANNEL__",{'' @ LF @
        ''configurable:false,enumerable:false,writable:false,'' @ LF @
        ''value:Object.freeze({nonce:"'' @ nonce @ ''"})});'' @ LF @
        ''}catch(e){}})();true;''))\<close>

definition CHANNEL_NONCE_BYTES :: nat where
  "CHANNEL_NONCE_BYTES = 32"

definition mintChannelNonce :: "nat list \<Rightarrow> string option" where
  "mintChannelNonce bytes = (if length bytes \<noteq> CHANNEL_NONCE_BYTES then None else Some (encodeBase64Url bytes))"

section \<open>What the page does\<close>

fun utf8Decode :: "nat list \<Rightarrow> string option" where
  "utf8Decode [] = Some []"
| "utf8Decode [a] = (if a < 128 then Some [char_of a] else None)"
| "utf8Decode (a # b # rest) =
     (if a < 128 then map_option ((#) (char_of a)) (utf8Decode (b # rest))
      else if 194 \<le> a \<and> a < 196 \<and> 128 \<le> b \<and> b < 192
           then map_option ((#) (char_of ((a - 192) * 64 + (b - 128)))) (utf8Decode rest)
           else None)"

definition pageDecode :: "string \<Rightarrow> string option" where
  "pageDecode literal = Option.bind (atob (rev (dropWhile (\<lambda>c. c = CHR ''='') (rev literal)))) utf8Decode"

section \<open>Lemmas\<close>

lemma alphabets: "n < 64 \<Longrightarrow> STANDARD ! n = sextetChar n \<and> URL_SAFE ! n = toUrl (sextetChar n)"
proof -
  have "list_all (\<lambda>n. STANDARD ! n = sextetChar n \<and> URL_SAFE ! n = toUrl (sextetChar n)) [0..<64]"
    by code_simp
  then show "n < 64 \<Longrightarrow> ?thesis" by (simp add: list_all_iff)
qed

lemma encodeBytes_btoa: "list_all isByte bytes \<Longrightarrow> encodeBase64 bytes = btoa bytes"
  unfolding encodeBase64_def
proof (induction bytes rule: btoa.induct)
  case (4 a b c rest)
  then show ?case by (simp add: alphabets digits_bound)
qed (simp_all add: alphabets digits_bound)

lemma encodeBytes_url:
  "list_all isByte bytes \<Longrightarrow> encodeBase64Url bytes = map (\<lambda>n. toUrl (sextetChar n)) (sextetsOf bytes)"
  unfolding encodeBase64Url_def
proof (induction bytes rule: sextetsOf.induct)
  case (4 a b c rest)
  then show ?case by (simp add: alphabets digits_bound)
qed (simp_all add: alphabets digits_bound)

lemma utf8Bytes_simps [simp]:
  "utf8Bytes [] = []"
  "utf8Bytes (c # s) =
     (let n = of_char c :: nat in if n < 128 then [n] else [192 + n div 64, 128 + n mod 64]) @ utf8Bytes s"
  by (simp_all add: utf8Bytes_def)

lemma high_char: "\<not> (of_char c :: nat) < 128 \<Longrightarrow> (of_char c :: nat) div 64 \<in> {2, 3}"
proof -
  assume "\<not> (of_char c :: nat) < 128"
  then have "128 div 64 \<le> (of_char c :: nat) div 64" by (intro div_le_mono) simp
  moreover have "(of_char c :: nat) div 64 < 4" by (simp add: less_mult_imp_div_less)
  ultimately show ?thesis by auto
qed

lemma utf8_byte: "list_all isByte (utf8Bytes s)"
  by (induction s) (use high_char in \<open>fastforce simp: Let_def\<close>)+

lemma utf8_roundtrip: "utf8Decode (utf8Bytes s) = Some s"
proof (induction s)
  case (Cons c s)
  show ?case
  proof (cases "(of_char c :: nat) < 128")
    case True
    with Cons show ?thesis by (cases "utf8Bytes s") simp_all
  next
    case False
    with high_char have "194 \<le> 192 + (of_char c :: nat) div 64" "192 + (of_char c :: nat) div 64 < 196" by fastforce+
    with Cons False show ?thesis by (simp add: Let_def)
  qed
qed simp

definition base64Char :: "char \<Rightarrow> bool" where
  "base64Char c \<longleftrightarrow> c \<in> set STANDARD \<or> c = CHR ''=''"

lemma base64_literal:
  assumes "list_all isByte bytes"
  shows "list_all base64Char (encodeBase64 bytes)"
    and "atob (rev (dropWhile (\<lambda>c. c = CHR ''='') (rev (encodeBase64 bytes)))) = Some bytes"
proof -
  obtain k where k: "encodeBase64 bytes = map sextetChar (sextetsOf bytes) @ replicate k (CHR ''='')"
    using btoa_sextets encodeBytes_btoa [OF assms] by metis
  note bound = sextetsOf_bound [OF assms]
  have "sextetChar n \<in> set STANDARD" if "n < 64" for n
    using alphabets [OF that] that nth_mem [of n STANDARD] by (simp add: STANDARD_def)
  with bound k show "list_all base64Char (encodeBase64 bytes)"
    by (auto simp: base64Char_def list_all_iff)
  have "sextetChar n \<noteq> CHR ''=''" if "n < 64" for n
    using sextetChar_url [OF that] by (auto simp: toUrl_def)
  with bound have "list_all (\<lambda>c. c \<noteq> CHR ''='') (map sextetChar (sextetsOf bytes))"
    by (auto simp: list_all_iff)
  from strip_padding [OF this] bound assms
  show "atob (rev (dropWhile (\<lambda>c. c = CHR ''='') (rev (encodeBase64 bytes)))) = Some bytes"
    by (simp add: k atob_def sextets_map bytesOf_sextetsOf)
qed

section \<open>Properties\<close>

text \<open>
  C33. Delivery cannot inject code: whatever a message of code units up to 255 contains, the script is
  the fixed program around a literal of base64 characters, none of which can end the string, and the
  page decodes that literal to exactly the message. (The three and four byte forms of the text encoder are not
  modelled.)
\<close>

theorem outbound_script_safe:
  "\<exists>literal. buildOutboundScript (Some txt) = Some (decoderHead @ literal @ decoderTail) \<and>
     list_all base64Char literal \<and> CHR 0x22 \<notin> set literal \<and> CHR 0x5C \<notin> set literal \<and>
     pageDecode literal = Some txt"
proof -
  have chars: "list_all base64Char (encodeBase64 (utf8Bytes txt))"
    by (rule base64_literal(1) [OF utf8_byte])
  moreover have "\<not> base64Char (CHR 0x22)" "\<not> base64Char (CHR 0x5C)"
    by (simp_all add: base64Char_def STANDARD_def)
  ultimately have "CHR 0x22 \<notin> set (encodeBase64 (utf8Bytes txt))" "CHR 0x5C \<notin> set (encodeBase64 (utf8Bytes txt))"
    by (auto simp: list_all_iff)
  moreover have "pageDecode (encodeBase64 (utf8Bytes txt)) = Some txt"
    using base64_literal(2) [OF utf8_byte] by (simp add: pageDecode_def utf8_roundtrip)
  ultimately show ?thesis using chars by (simp add: buildOutboundScript_def decoderProgram_def)
qed

text \<open>
  The app's own base64url encoder is the one of the operation keys, and every minted nonce is a
  plain base64url text of 43 characters that the bootstrap script accepts and that determines the
  random bytes.
\<close>

theorem channel_nonce_wellformed:
  assumes "list_all isByte bytes" and "length bytes = 32"
  shows "\<exists>nonce. mintChannelNonce bytes = Some nonce \<and> nonce = encodeNonce bytes \<and> length nonce = 43 \<and>
     buildChannelBootstrapScript nonce \<noteq> None \<and> atob (map fromUrl nonce) = Some bytes"
  using encodeNonce_facts [OF assms(1)] assms(2)
  by (auto simp: mintChannelNonce_def CHANNEL_NONCE_BYTES_def encodeBytes_url [OF assms(1)]
      encodeNonce_sextets [OF assms(1), symmetric] buildChannelBootstrapScript_def)

theorem channel_nonce_wellformed_witness:
  "\<exists>nonce. mintChannelNonce (replicate 32 7) = Some nonce \<and> length nonce = 43"
  using channel_nonce_wellformed [of "replicate 32 7"] by (auto simp: list_all_iff)

end
