(* ===== verification/Raw_Location.thy ===== *)
theory Raw_Location
  imports Prelude Complex_Main
begin

text \<open>
  \<open>apps/mobile/src/location/rawLocation.ts\<close> and \<open>sanitiseFixes.ts\<close>: what the operating system
  delivers becomes fixes the engine may act on. A number that is absent, null or not finite is
  \<open>None\<close>; finite numbers are rationals.
\<close>

section \<open>Fixes\<close>

record RawCoords =
  rawLatitude :: "rat option"
  rawLongitude :: "rat option"
  rawAccuracy :: "rat option"
  rawSpeed :: "rat option"
  rawHeading :: "rat option"

record RawLocation =
  rawTimestamp :: "rat option"
  rawCoords :: "RawCoords option"

record CanonicalLocationFix =
  fixLongitude :: rat
  fixLatitude :: rat
  fixAccuracy :: rat
  fixTimestampMs :: int
  fixSpeedMps :: "rat option"
  fixHeadingDegrees :: "rat option"

record SanitisedBatch =
  batchAccepted :: "CanonicalLocationFix list"
  rejectedCount :: nat

definition MAX_FIX_AGE_MS :: int where "MAX_FIX_AGE_MS = 5 * 60000"

definition MAX_FIX_SKEW_MS :: int where "MAX_FIX_SKEW_MS = 2 * 60000"

definition MAX_SAFE_INTEGER :: int where "MAX_SAFE_INTEGER = 9007199254740991"

definition keepIf :: "(rat \<Rightarrow> bool) \<Rightarrow> rat option \<Rightarrow> rat option" where
  "keepIf ok value = (case value of None \<Rightarrow> None | Some v \<Rightarrow> if ok v then Some v else None)"

definition toCanonicalFix :: "RawLocation option \<Rightarrow> int \<Rightarrow> CanonicalLocationFix option" where
  "toCanonicalFix raw nowMs =
     (case raw of
        None \<Rightarrow> None
      | Some r \<Rightarrow>
          (case rawTimestamp r of
             None \<Rightarrow> None
           | Some timestamp \<Rightarrow>
               if timestamp \<le> 0 then None
               else if \<lfloor>timestamp\<rfloor> > MAX_SAFE_INTEGER \<or> \<lfloor>timestamp\<rfloor> \<le> 0 then None
               else if timestamp < of_int (nowMs - MAX_FIX_AGE_MS) then None
               else if timestamp > of_int (nowMs + MAX_FIX_SKEW_MS) then None
               else (case rawCoords r of
                 None \<Rightarrow> None
               | Some coords \<Rightarrow>
                   (case (rawLatitude coords, rawLongitude coords, rawAccuracy coords) of
                      (Some latitude, Some longitude, Some accuracy) \<Rightarrow>
                        if latitude < -90 \<or> latitude > 90 then None
                        else if longitude < -180 \<or> longitude > 180 then None
                        else if accuracy < 0 then None
                        else Some \<lparr>fixLongitude = longitude, fixLatitude = latitude, fixAccuracy = accuracy,
                               fixTimestampMs = \<lfloor>timestamp\<rfloor>, fixSpeedMps = keepIf (\<lambda>v. v \<ge> 0) (rawSpeed coords),
                               fixHeadingDegrees = keepIf (\<lambda>v. v \<ge> 0 \<and> v \<le> 360) (rawHeading coords)\<rparr>
                    | _ \<Rightarrow> None))))"

text \<open>The watermark is \<open>None\<close> for the negative infinity of a session without a fix.\<close>

fun clip :: "int option \<Rightarrow> CanonicalLocationFix list \<Rightarrow> CanonicalLocationFix list" where
  "clip watermark [] = []"
| "clip watermark (fix1 # rest) =
     (if (case watermark of None \<Rightarrow> False | Some w \<Rightarrow> fixTimestampMs fix1 \<le> w) then clip watermark rest
      else fix1 # clip (Some (fixTimestampMs fix1)) rest)"

definition sanitiseRawLocations :: "RawLocation option list \<Rightarrow> int \<Rightarrow> int option \<Rightarrow> SanitisedBatch" where
  "sanitiseRawLocations locations nowMs lastAcceptedTimestampMs =
     (let converted = map (\<lambda>raw. toCanonicalFix raw nowMs) locations;
          candidates = sort_key fixTimestampMs (List.map_filter id converted)
      in \<lparr>batchAccepted = clip lastAcceptedTimestampMs candidates,
          rejectedCount = length (filter (\<lambda>c. c = None) converted)\<rparr>)"

section \<open>Lemmas\<close>

definition afterMark :: "int option \<Rightarrow> int \<Rightarrow> bool" where
  "afterMark watermark ts \<longleftrightarrow> (case watermark of None \<Rightarrow> True | Some w \<Rightarrow> w < ts)"

lemma clip_sorted: "sorted_wrt (<) (map fixTimestampMs (clip w fs)) \<and> (\<forall>f \<in> set (clip w fs). afterMark w (fixTimestampMs f))"
  proof (induction w fs rule: clip.induct)
  case (2 w f rest)
  then show ?case by (auto simp: afterMark_def not_le split: option.splits) (meson less_trans)
qed simp

lemma clip_subset: "set (clip w fs) \<subseteq> set fs"
  by (induction w fs rule: clip.induct) auto

lemma clip_times:
  "sorted (map fixTimestampMs fs) \<Longrightarrow>
     fixTimestampMs ` set (clip w fs) = {ts \<in> fixTimestampMs ` set fs. afterMark w ts}"
proof (induction w fs rule: clip.induct)
  case (2 w f rest)
  then show ?case
    by (cases "afterMark w (fixTimestampMs f)") (auto simp: afterMark_def split: option.splits)
qed simp

definition usableFix :: "int \<Rightarrow> CanonicalLocationFix \<Rightarrow> bool" where
  "usableFix nowMs f \<longleftrightarrow>
     0 < fixTimestampMs f \<and> fixTimestampMs f \<le> MAX_SAFE_INTEGER \<and>
     nowMs - MAX_FIX_AGE_MS \<le> fixTimestampMs f \<and> fixTimestampMs f \<le> nowMs + MAX_FIX_SKEW_MS \<and>
     -90 \<le> fixLatitude f \<and> fixLatitude f \<le> 90 \<and> -180 \<le> fixLongitude f \<and> fixLongitude f \<le> 180 \<and>
     0 \<le> fixAccuracy f \<and> (\<forall>v. fixSpeedMps f = Some v \<longrightarrow> 0 \<le> v) \<and>
     (\<forall>v. fixHeadingDegrees f = Some v \<longrightarrow> 0 \<le> v \<and> v \<le> 360)"

lemma canonical_usable: "toCanonicalFix raw nowMs = Some f \<Longrightarrow> usableFix nowMs f"
  unfolding toCanonicalFix_def
  by (auto simp: usableFix_def keepIf_def not_less not_le le_floor_iff floor_le_iff
      split: option.splits if_splits)

section \<open>Properties\<close>

text \<open>
  A sanitised batch moves time forward only: the accepted fixes are usable, strictly ordered in time and
  above the watermark; exactly the times of the usable locations above the watermark are taken, one fix
  for each; and every location is either convertible or counted as rejected.
\<close>

theorem sanitised_batch_monotone:
  "let converted = map (\<lambda>raw. toCanonicalFix raw nowMs) locations;
       batch = sanitiseRawLocations locations nowMs watermark
   in sorted_wrt (<) (map fixTimestampMs (batchAccepted batch)) \<and>
      list_all (\<lambda>f. usableFix nowMs f \<and> afterMark watermark (fixTimestampMs f) \<and> Some f \<in> set converted) (batchAccepted batch) \<and>
      fixTimestampMs ` set (batchAccepted batch) = {ts. \<exists>f. Some f \<in> set converted \<and> fixTimestampMs f = ts \<and> afterMark watermark ts} \<and>
      rejectedCount batch + length (List.map_filter id converted) = length locations"
proof -
  define converted where "converted = map (\<lambda>raw. toCanonicalFix raw nowMs) locations"
  define candidates where "candidates = sort_key fixTimestampMs (List.map_filter id converted)"
  have accepted: "batchAccepted (sanitiseRawLocations locations nowMs watermark) = clip watermark candidates"
    by (simp add: sanitiseRawLocations_def converted_def candidates_def Let_def)
  have members: "f \<in> set candidates \<longleftrightarrow> Some f \<in> set converted" for f
    by (force simp: candidates_def map_filter_def)
  have usable: "usableFix nowMs f" if "Some f \<in> set converted" for f
    using that canonical_usable by (auto simp: converted_def)
  have times: "fixTimestampMs ` set (clip watermark candidates) =
      {ts. \<exists>f. Some f \<in> set converted \<and> fixTimestampMs f = ts \<and> afterMark watermark ts}"
    using clip_times [of candidates watermark] members by (auto simp: candidates_def)
  have count: "length (filter (\<lambda>c. c = None) xs) + length (List.map_filter id xs) = length xs" for xs :: "'z option list"
    by (induction xs) (auto simp: map_filter_simps)
  have rejected: "rejectedCount (sanitiseRawLocations locations nowMs watermark) = length (filter (\<lambda>c. c = None) converted)"
    and len: "length locations = length converted"
    by (simp_all add: sanitiseRawLocations_def converted_def Let_def)
  have each: "usableFix nowMs f \<and> afterMark watermark (fixTimestampMs f) \<and> Some f \<in> set converted"
    if "f \<in> set (clip watermark candidates)" for f
    using that clip_sorted [of watermark candidates] clip_subset [of watermark candidates] members usable by blast
  then have "list_all (\<lambda>f. usableFix nowMs f \<and> afterMark watermark (fixTimestampMs f) \<and> Some f \<in> set converted) (clip watermark candidates)"
    by (simp add: list_all_iff)
  then show ?thesis
    unfolding Let_def converted_def [symmetric] accepted rejected len
    using clip_sorted [of watermark candidates] times count [of converted] by blast
qed

end
