(* ===== verification/Coordinator.thy ===== *)
theory Coordinator
  imports Mobile_Reroute Mobile_Refresh Raw_Location Session_Invariants
begin

text \<open>
  \<open>apps/mobile/src/navigation/NavigationCoordinator.ts\<close> with \<open>effects.ts\<close>, \<open>processor.ts\<close> and
  \<open>startContext.ts\<close>: the single authority over a navigation session. A task of its queue is a function
  from the state to a value or an exception and the next state. The queue runs one task at a time,
  so a task is one step; what other parts of the app do to the store during a long wait is a list of
  repository events. Processors are registered at run time and are fields of the host.
\<close>

section \<open>State and tasks\<close>

record EffectRecord =
  recordedRow :: "ActiveRow option"
  recordedEffect :: SessionEffect
  recordedFailed :: bool

record CommandResponse =
  respType :: string
  respBody :: json
  respSessionId :: "string option"
  respRevision :: "int option"

record Coord =
  tables :: Tables
  effectLog :: "EffectRecord list"
  replyLog :: "(CommandResponse \<times> string) list"
  diagLog :: "(string \<times> (string \<times> string) list) list"

datatype CoordError = StoreThrew StoreError | PortThrew

type_synonym 'a task = "Coord \<Rightarrow> (CoordError + 'a) \<times> Coord"

definition done_with :: "'a \<Rightarrow> 'a task" where
  "done_with value c = (Inr value, c)"

definition throwing :: "CoordError \<Rightarrow> 'a task" where
  "throwing e c = (Inl e, c)"

definition andThen :: "'a task \<Rightarrow> ('a \<Rightarrow> 'b task) \<Rightarrow> 'b task" where
  "andThen m f c = (case m c of (Inl e, c') \<Rightarrow> (Inl e, c') | (Inr value, c') \<Rightarrow> f value c')"

definition catching :: "'a task \<Rightarrow> 'a task \<Rightarrow> 'a task" where
  "catching m handler c = (case m c of (Inl e, c') \<Rightarrow> handler c' | (Inr value, c') \<Rightarrow> (Inr value, c'))"

definition record_diagnostic :: "string \<Rightarrow> (string \<times> string) list \<Rightarrow> unit task" where
  "record_diagnostic ty body c = (Inr (), c\<lparr>diagLog := diagLog c @ [(ty, body)]\<rparr>)"

section \<open>Sessions and processors\<close>

record TransitPackage =
  pkgItinerary :: json
  pkgCaptures :: json
  pkgFingerprint :: string
  pkgRest :: json

record TransitTick =
  tickPhase :: string
  tickLegIndex :: nat
  tickWalkRevision :: "nat option"
  tickLastActionId :: "string option"
  tickWalkStepIndex :: nat
  tickReachedStepEnd :: bool
  tickDistance :: "string option"
  tickRest :: json

text \<open>The parts of a session's payload the coordinator reads or writes, of both kinds.\<close>

record NavPayload =
  npPackage :: TransitPackage
  npTick :: TransitTick
  npRefresh :: RefreshRuntime
  npRefreshToken :: "string option"
  npDataRevision :: "nat option"
  npProgress :: json
  npReroute :: RerouteRuntime
  npLocale :: string
  npUnits :: string
  npRest :: json

type_synonym NavSession = "NavPayload MobileSession"

type_synonym ProcessorMutation = "NavPayload RepositoryMutation"

text \<open>A processor's function returns \<open>None\<close> when it throws.\<close>

record Processor =
  needsScheduleTicks :: bool
  procPrepare :: "json \<Rightarrow> string \<Rightarrow> int \<Rightarrow> PermissionMode \<Rightarrow> (string + NavSession) option"
  procFixes :: "NavSession \<Rightarrow> CanonicalLocationFix list \<Rightarrow> int \<Rightarrow> ProcessorMutation option"
  procReplace :: "NavSession \<Rightarrow> json \<Rightarrow> int \<Rightarrow> (string + ProcessorMutation) option"
  procWalk :: "(NavSession \<Rightarrow> nat \<Rightarrow> json \<Rightarrow> int \<Rightarrow> (string + ProcessorMutation) option) option"
  procAction :: "(NavSession \<Rightarrow> string \<Rightarrow> nat \<Rightarrow> int \<Rightarrow> (string + ProcessorMutation) option) option"

record CoordHost =
  store :: "NavPayload SessionHost"
  processors :: "SessionKind \<Rightarrow> Processor option"
  effectThrows :: "EffectRecord list \<Rightarrow> SessionEffect \<Rightarrow> bool"
  effectWrites :: "SessionEffect \<Rightarrow> Tables \<Rightarrow> NavPayload repoEvent list"
  fullSnapshot :: "NavSession \<Rightarrow> json"
  transitStartPackageSchema :: "TransitPackage \<Rightarrow> TransitPackage option"
  mergeTransitRefresh :: "json \<Rightarrow> json \<Rightarrow> nat \<Rightarrow> nat \<Rightarrow> (json \<times> bool) option"
  refreshTransitCaptures :: "json \<Rightarrow> json \<Rightarrow> json \<Rightarrow> int \<Rightarrow> json"
  transitProgress :: "TransitTick \<Rightarrow> int option \<Rightarrow> json \<Rightarrow> json"

section \<open>Effects\<close>

fun effectOrder :: "SessionEffect \<Rightarrow> nat" where
  "effectOrder StopLocation = 0"
| "effectOrder (StartLocation mode) = 1"
| "effectOrder (UpdateLocationProfile profile) = 2"
| "effectOrder (CancelSessionAlerts sid) = 3"
| "effectOrder (ReconcileAlerts sid) = 4"
| "effectOrder StopAudio = 5"
| "effectOrder (Speak cue words locale) = 6"
| "effectOrder (RequestReroute rid) = 7"
| "effectOrder (RequestTransitRefresh rid) = 8"
| "effectOrder ReconcileSurface = 9"
| "effectOrder (PublishEvent eid) = 10"
| "effectOrder (PublishSnapshot immediate) = 11"

fun effectKind :: "SessionEffect \<Rightarrow> string" where
  "effectKind StopLocation = ''stop-location''"
| "effectKind (StartLocation mode) = ''start-location''"
| "effectKind (UpdateLocationProfile profile) = ''update-location-profile''"
| "effectKind (CancelSessionAlerts sid) = ''cancel-session-alerts''"
| "effectKind (ReconcileAlerts sid) = ''reconcile-alerts''"
| "effectKind StopAudio = ''stop-audio''"
| "effectKind (Speak cue words locale) = ''speak''"
| "effectKind (RequestReroute rid) = ''request-reroute''"
| "effectKind (RequestTransitRefresh rid) = ''request-transit-refresh''"
| "effectKind ReconcileSurface = ''reconcile-surface''"
| "effectKind (PublishEvent eid) = ''publish-event''"
| "effectKind (PublishSnapshot immediate) = ''publish-snapshot''"

definition executeEffect :: "CoordHost \<Rightarrow> SessionEffect \<Rightarrow> Coord \<Rightarrow> bool \<times> Coord" where
  "executeEffect host e c =
     (let failed = effectThrows host (effectLog c) e
      in (failed,
          c\<lparr>tables := foldl (repoStep (store host)) (tables c) (effectWrites host e (tables c)),
            effectLog := effectLog c @ [\<lparr>recordedRow = activeNavigation (tables c), recordedEffect = e, recordedFailed = failed\<rparr>],
            diagLog := diagLog c @ (if failed then [(''typed.error'', [(''scope'', ''effect''), (''kind'', effectKind e)])] else [])\<rparr>))"

fun executeAll :: "CoordHost \<Rightarrow> SessionEffect list \<Rightarrow> Coord \<Rightarrow> nat \<times> Coord" where
  "executeAll host [] c = (0, c)"
| "executeAll host (e # es) c =
     (case executeEffect host e c of
        (failed, c1) \<Rightarrow>
          (case executeAll host es c1 of
             (n, c2) \<Rightarrow> ((if failed then n + 1 else n), c2)))"

definition runEffects :: "CoordHost \<Rightarrow> SessionEffect list \<Rightarrow> nat task" where
  "runEffects host effects c =
     (case executeAll host (sort_key effectOrder effects) c of (failed, c') \<Rightarrow> (Inr failed, c'))"

section \<open>The store\<close>

definition loadSession :: "CoordHost \<Rightarrow> int \<Rightarrow> NavSession option task" where
  "loadSession host now c =
     (case loadActive (store host) now (tables c) of (s, t) \<Rightarrow> (Inr s, c\<lparr>tables := t\<rparr>))"

definition storeTask :: "(Tables \<Rightarrow> (StoreError + 'a) \<times> Tables) \<Rightarrow> 'a task" where
  "storeTask f c =
     (case f (tables c) of
        (Inl e, t) \<Rightarrow> (Inl (StoreThrew e), c\<lparr>tables := t\<rparr>)
      | (Inr value, t) \<Rightarrow> (Inr value, c\<lparr>tables := t\<rparr>))"

definition reading :: "(Tables \<Rightarrow> 'a) \<Rightarrow> 'a task" where
  "reading f c = (Inr (f (tables c)), c)"

definition commitMutationOf :: "CoordHost \<Rightarrow> NavSession \<Rightarrow> ProcessorMutation \<Rightarrow> int \<Rightarrow> NavPayload CommitResult task" where
  "commitMutationOf host current mutation now =
     storeTask (compareAndSwap (store host) (sessionId current) (revision current) (\<lambda>_. Inr mutation) now)"

definition interlude :: "CoordHost \<Rightarrow> NavPayload repoEvent list \<Rightarrow> unit task" where
  "interlude host events c = (Inr (), c\<lparr>tables := foldl (repoStep (store host)) (tables c) events\<rparr>)"

fun failureCode :: "CommitFailure \<Rightarrow> string" where
  "failureCode RevisionConflict = ''revision-conflict''"
| "failureCode NoActiveSession = ''no-active-session''"
| "failureCode SessionActive = ''session-active''"
| "failureCode CorruptSession = ''corrupt-session''"

end
