(* ===== verification/Coordinator_Commands.thy ===== *)
theory Coordinator_Commands
  imports Coordinator
begin

text \<open>
  The handlers of \<open>NavigationCoordinator\<close>: the commands of the page with their replay log, the start of a trip
  from the car, location batches and the answers of remote work.
\<close>

section \<open>Commands\<close>

record StartPackage =
  packageKind :: SessionKind
  packageBody :: json

record RiderAction =
  actionId :: string
  actionType :: string
  actionLegIndex :: nat
  actionPhase :: string
  actionFingerprint :: string

datatype CommandBody =
    DestinationsUpdate
  | VoiceProbe
  | VoiceStart
  | VoiceStop
  | VoiceCancel
  | WebHello
  | IntakeList
  | IntakeRead
  | IntakeComplete
  | SessionPrepare StartPackage
  | SessionStart
  | SessionReplace StartPackage "string option"
  | TransitWalkRoute string nat json
  | TransitAction RiderAction
  | SettingsUpdate "string option" "string option"
  | SnapshotRequest
  | SessionStop
  | SessionComplete
  | EventAck "string list"
  | LocationRequest
  | SettingsOpen
  | AuthOpen

record Command =
  cmdMessageId :: string
  cmdSessionId :: "string option"
  cmdRevision :: "int option"
  cmdBody :: CommandBody

fun MUTATING :: "CommandBody \<Rightarrow> bool" where
  "MUTATING (SessionPrepare pkg) = True"
| "MUTATING SessionStart = True"
| "MUTATING (SessionReplace pkg expected) = True"
| "MUTATING (TransitAction action) = True"
| "MUTATING (TransitWalkRoute fingerprint leg route) = True"
| "MUTATING (SettingsUpdate locale units) = True"
| "MUTATING SessionStop = True"
| "MUTATING SessionComplete = True"
| "MUTATING _ = False"

datatype NavigationStartContext = PhoneContext bool | CarContext bool bool | BackgroundContext

fun allowsNavigationStart :: "NavigationStartContext \<Rightarrow> string \<Rightarrow> bool" where
  "allowsNavigationStart (PhoneContext activityVisible) permission = activityVisible"
| "allowsNavigationStart (CarContext hostAuthorized locationServiceStartAllowed) permission =
     (hostAuthorized \<and> locationServiceStartAllowed \<and> permission = ''background'')"
| "allowsNavigationStart BackgroundContext permission = False"

datatype StartDecision = StartGranted PermissionMode | StartDenied

datatype AuxiliaryAnswer = AuxiliaryAbsent | AuxiliaryThrows | AuxiliaryAnswer "CommandResponse option"

text \<open>
  What the ports answer while a command runs: \<open>None\<close> for a port that throws, and what happens in the
  store while the user decides.
\<close>

record CommandEnv =
  envNow :: int
  envSessionId :: string
  envContext :: NavigationStartContext
  envPermission :: "string option"
  envDecision :: "StartDecision option"
  envInterlude :: "NavPayload repoEvent list"
  envAuxiliary :: AuxiliaryAnswer

definition errorResponse :: "string \<Rightarrow> string \<Rightarrow> CommandResponse" where
  "errorResponse code forMessageId =
     \<lparr>respType = ''native.error'',
      respBody = JObj ((''code'', JStr code) # (if forMessageId = [] then [] else [(''forMessageId'', JStr forMessageId)])),
      respSessionId = None, respRevision = None\<rparr>"

definition failWith :: "string \<Rightarrow> string \<Rightarrow> CommandResponse task" where
  "failWith code forMessageId = done_with (errorResponse code forMessageId)"

definition jsonRevision :: "int \<Rightarrow> json" where
  "jsonRevision n = JNum (showInt n)"

definition sessionResponse :: "string \<Rightarrow> NavSession \<Rightarrow> CommandResponse" where
  "sessionResponse ty s =
     \<lparr>respType = ty,
      respBody = JObj [(''sessionId'', JStr (sessionId s)), (''revision'', jsonRevision (revision s))],
      respSessionId = Some (sessionId s), respRevision = Some (revision s)\<rparr>"

definition snapshotResponse :: "CoordHost \<Rightarrow> NavSession \<Rightarrow> CommandResponse" where
  "snapshotResponse host s =
     \<lparr>respType = ''snapshot.update'', respBody = JObj [(''snapshot'', fullSnapshot host s)],
      respSessionId = Some (sessionId s), respRevision = Some (revision s)\<rparr>"

definition isTerminal :: "NavSession \<Rightarrow> bool" where
  "isTerminal s \<longleftrightarrow> sessionStatus s \<in> {StatusArrived, StatusStopped, StatusExpired, StatusError}"

definition matches :: "Command \<Rightarrow> NavSession \<Rightarrow> bool" where
  "matches cmd s \<longleftrightarrow>
     (cmdSessionId cmd = None \<or> cmdSessionId cmd = Some (sessionId s)) \<and>
     (cmdRevision cmd = None \<or> cmdRevision cmd = Some (revision s))"

definition replying :: "CommandResponse \<Rightarrow> string \<Rightarrow> unit task" where
  "replying response forMessageId c = (Inr (), c\<lparr>replyLog := replyLog c @ [(response, forMessageId)]\<rparr>)"

section \<open>Ending and preparing\<close>

definition finalStatusName :: "FinalStatus \<Rightarrow> string" where
  "finalStatusName final =
     (case final of FinalArrived \<Rightarrow> ''arrived'' | FinalStopped \<Rightarrow> ''stopped'' | FinalExpired \<Rightarrow> ''expired'' | FinalError \<Rightarrow> ''error'')"

definition stoppedResponse :: "string \<Rightarrow> string option \<Rightarrow> FinalStatus \<Rightarrow> int \<Rightarrow> CommandResponse" where
  "stoppedResponse named sid final n =
     \<lparr>respType = ''session.stopped'',
      respBody = JObj [(''sessionId'', JStr named), (''finalStatus'', JStr (finalStatusName final)), (''revision'', jsonRevision n)],
      respSessionId = sid, respRevision = None\<rparr>"

definition terminateSession ::
  "CoordHost \<Rightarrow> string option \<Rightarrow> string \<Rightarrow> FinalStatus \<Rightarrow> int \<Rightarrow> CommandResponse task"
where
  "terminateSession host sid forMessageId final now =
     andThen (loadSession host now) (\<lambda>current.
       case current of
         None \<Rightarrow>
           (let named = (case sid of None \<Rightarrow> [] | Some i \<Rightarrow> i)
            in andThen (reading (\<lambda>t. if named = [] then None else readTerminalAck named t)) (\<lambda>ack.
               done_with (stoppedResponse named (if named = [] then None else Some named)
                 (case ack of None \<Rightarrow> final | Some a \<Rightarrow> finalStatus a)
                 (case ack of None \<Rightarrow> 0 | Some a \<Rightarrow> finalRevision a))))
       | Some s \<Rightarrow>
           if sid \<noteq> None \<and> sid \<noteq> Some (sessionId s) then failWith ''revision-conflict'' forMessageId
           else andThen (storeTask (terminate (store host) (sessionId s) final now)) (\<lambda>(ack, effects).
                andThen (runEffects host effects) (\<lambda>_.
                done_with (stoppedResponse (sessionId s) (Some (sessionId s))
                  (case ack of None \<Rightarrow> final | Some a \<Rightarrow> finalStatus a)
                  (case ack of None \<Rightarrow> revision s | Some a \<Rightarrow> finalRevision a)))))"

definition prepareSession :: "CoordHost \<Rightarrow> int \<Rightarrow> string \<Rightarrow> string \<Rightarrow> StartPackage \<Rightarrow> CommandResponse task" where
  "prepareSession host now newId forMessageId pkg =
     (case processors host (packageKind pkg) of
        None \<Rightarrow> failWith ''mode-unsupported'' forMessageId
      | Some processor \<Rightarrow>
          andThen (loadSession host now) (\<lambda>existing.
            if (case existing of None \<Rightarrow> False | Some s \<Rightarrow> \<not> isTerminal s \<and> \<not> isMobileSessionExpired s now)
            then failWith ''session-active'' forMessageId
            else case procPrepare processor (packageBody pkg) newId now ModeForegroundOnly of
              None \<Rightarrow> throwing PortThrew
            | Some (Inl code) \<Rightarrow> failWith code forMessageId
            | Some (Inr prepared) \<Rightarrow>
                andThen (storeTask (createPreparing (store host) prepared)) (\<lambda>created.
                  case created of
                    Inl failure \<Rightarrow> failWith (failureCode failure) forMessageId
                  | Inr _ \<Rightarrow> done_with (sessionResponse ''session.prepared'' prepared))))"

section \<open>Starting\<close>

definition startMutation :: "PermissionMode \<Rightarrow> int \<Rightarrow> NavSession \<Rightarrow> ProcessorMutation" where
  "startMutation mode now s =
     \<lparr>mutSession = s\<lparr>revision := revision s + 1, sessionStatus := StatusActive, updatedAtMs := now, permissionMode := mode\<rparr>,
      mutEffects = [StartLocation mode, PublishSnapshot True], mutEnqueue = [], mutAlerts = None\<rparr>"

text \<open>The session must not claim to be tracking when one of its start effects failed.\<close>

definition finishStart :: "CoordHost \<Rightarrow> int \<Rightarrow> string \<Rightarrow> NavSession \<Rightarrow> nat \<Rightarrow> CommandResponse task" where
  "finishStart host now forMessageId s failed =
     (if failed > 0
      then andThen (storeTask (terminate (store host) (sessionId s) FinalError now)) (\<lambda>(_, cleanup).
           andThen (runEffects host cleanup) (\<lambda>_. failWith ''driver-start-failed'' forMessageId))
      else done_with (sessionResponse ''session.started'' s))"

definition activateSession ::
  "CoordHost \<Rightarrow> int \<Rightarrow> string \<Rightarrow> PermissionMode \<Rightarrow> NavSession \<Rightarrow> CommandResponse task"
where
  "activateSession host now forMessageId mode current =
     andThen (storeTask (compareAndSwap (store host) (sessionId current) (revision current)
                (\<lambda>s. Inr (startMutation mode now s)) now)) (\<lambda>committed.
       case committed of
         Inl failure \<Rightarrow> failWith (failureCode failure) forMessageId
       | Inr (s, effects) \<Rightarrow>
           andThen (runEffects host effects) (finishStart host now forMessageId s))"

definition startSession ::
  "CoordHost \<Rightarrow> CommandEnv \<Rightarrow> NavigationStartContext option \<Rightarrow> bool \<Rightarrow> Command \<Rightarrow> CommandResponse task"
where
  "startSession host env authorized stillValid cmd =
     andThen (loadSession host (envNow env)) (\<lambda>loaded.
       case loaded of
         None \<Rightarrow> failWith ''no-session'' (cmdMessageId cmd)
       | Some current \<Rightarrow>
           if \<not> matches cmd current then failWith ''revision-conflict'' (cmdMessageId cmd)
           else if sessionStatus current \<noteq> StatusPreparing then failWith ''invalid-state'' (cmdMessageId cmd)
           else if processors host (sessionKind current) = None then failWith ''mode-unsupported'' (cmdMessageId cmd)
           else let startContext = (case authorized of None \<Rightarrow> envContext env | Some x \<Rightarrow> x) in
           case envPermission env of
             None \<Rightarrow> throwing PortThrew
           | Some permission \<Rightarrow>
               if \<not> allowsNavigationStart startContext permission
               then failWith ''app-not-visible'' (cmdMessageId cmd)
               else andThen (interlude host (envInterlude env)) (\<lambda>_.
                 case (case startContext of CarContext _ _ \<Rightarrow> Some (StartGranted ModeBackground) | _ \<Rightarrow> envDecision env) of
                   None \<Rightarrow> throwing PortThrew
                 | Some StartDenied \<Rightarrow>
                     andThen (storeTask (terminate (store host) (sessionId current) FinalError (envNow env))) (\<lambda>_.
                       failWith ''permission-denied'' (cmdMessageId cmd))
                 | Some (StartGranted mode) \<Rightarrow>
                     if \<not> stillValid then failWith ''invalid-state'' (cmdMessageId cmd)
                     else activateSession host (envNow env) (cmdMessageId cmd) mode current))"

section \<open>Replacing and acting\<close>

definition replaceSession ::
  "CoordHost \<Rightarrow> int \<Rightarrow> Command \<Rightarrow> StartPackage \<Rightarrow> string option \<Rightarrow> CommandResponse task"
where
  "replaceSession host now cmd pkg expected =
     andThen (loadSession host now) (\<lambda>loaded.
       case loaded of
         None \<Rightarrow> failWith ''no-session'' (cmdMessageId cmd)
       | Some current \<Rightarrow>
           if \<not> (sessionKind current = KindTransit \<and> cmdSessionId cmd = Some (sessionId current) \<and>
                   expected = Some (pkgFingerprint (npPackage (sessionPayload current)))) \<and> \<not> matches cmd current
           then failWith ''revision-conflict'' (cmdMessageId cmd)
           else if sessionStatus current \<noteq> StatusActive then failWith ''invalid-state'' (cmdMessageId cmd)
           else case processors host (sessionKind current) of
             None \<Rightarrow> failWith ''mode-unsupported'' (cmdMessageId cmd)
           | Some processor \<Rightarrow>
               if packageKind pkg \<noteq> sessionKind current then failWith ''mode-mismatch'' (cmdMessageId cmd)
               else (case procReplace processor current (packageBody pkg) now of
                 None \<Rightarrow> throwing PortThrew
               | Some (Inl code) \<Rightarrow> failWith code (cmdMessageId cmd)
               | Some (Inr mutation) \<Rightarrow>
                   andThen (commitMutationOf host current mutation now) (\<lambda>committed.
                     case committed of
                       Inl failure \<Rightarrow> failWith (failureCode failure) (cmdMessageId cmd)
                     | Inr (s, effects) \<Rightarrow> done_with (sessionResponse ''session.replaced'' s))))"

definition snapshot :: "CoordHost \<Rightarrow> int \<Rightarrow> CommandResponse task" where
  "snapshot host now =
     andThen (loadSession host now) (\<lambda>loaded.
       case loaded of
         None \<Rightarrow> done_with \<lparr>respType = ''snapshot.update'', respBody = JObj [(''snapshot'', JObj [])],
                            respSessionId = None, respRevision = None\<rparr>
       | Some current \<Rightarrow> done_with (snapshotResponse host current))"

definition repairTransitWalk ::
  "CoordHost \<Rightarrow> int \<Rightarrow> Command \<Rightarrow> string \<Rightarrow> nat \<Rightarrow> json \<Rightarrow> CommandResponse task"
where
  "repairTransitWalk host now cmd fingerprint leg route =
     andThen (loadSession host now) (\<lambda>loaded.
       case loaded of
         None \<Rightarrow> failWith ''revision-conflict'' (cmdMessageId cmd)
       | Some current \<Rightarrow>
           if sessionKind current \<noteq> KindTransit \<or> sessionStatus current \<noteq> StatusActive \<or>
              cmdSessionId cmd \<noteq> Some (sessionId current) \<or>
              pkgFingerprint (npPackage (sessionPayload current)) \<noteq> fingerprint
           then failWith ''revision-conflict'' (cmdMessageId cmd)
           else case Option.bind (processors host KindTransit) procWalk of
             None \<Rightarrow> failWith ''mode-unsupported'' (cmdMessageId cmd)
           | Some walk \<Rightarrow>
               (case walk current leg route now of
                  None \<Rightarrow> throwing PortThrew
                | Some (Inl code) \<Rightarrow> failWith code (cmdMessageId cmd)
                | Some (Inr mutation) \<Rightarrow>
                    andThen (commitMutationOf host current mutation now) (\<lambda>committed.
                      case committed of
                        Inl failure \<Rightarrow> failWith (failureCode failure) (cmdMessageId cmd)
                      | Inr (s, effects) \<Rightarrow> andThen (runEffects host effects) (\<lambda>_. snapshot host now))))"

definition stampAction :: "string \<Rightarrow> ProcessorMutation \<Rightarrow> ProcessorMutation" where
  "stampAction i mutation =
     (if sessionKind (mutSession mutation) = KindTransit
      then mutation\<lparr>mutSession := (mutSession mutation)\<lparr>sessionPayload := (sessionPayload (mutSession mutation))
             \<lparr>npTick := (npTick (sessionPayload (mutSession mutation)))\<lparr>tickLastActionId := Some i\<rparr>\<rparr>\<rparr>\<rparr>
      else mutation)"

definition commitAndShow :: "CoordHost \<Rightarrow> string \<Rightarrow> NavPayload CommitResult task \<Rightarrow> CommandResponse task" where
  "commitAndShow host forMessageId commit =
     andThen commit (\<lambda>committed.
       case committed of
         Inl failure \<Rightarrow> failWith (failureCode failure) forMessageId
       | Inr (s, effects) \<Rightarrow>
           andThen (runEffects host effects) (\<lambda>_. done_with (snapshotResponse host s)))"

definition transitAction :: "CoordHost \<Rightarrow> int \<Rightarrow> Command \<Rightarrow> RiderAction \<Rightarrow> CommandResponse task" where
  "transitAction host now cmd action =
     andThen (loadSession host now) (\<lambda>loaded.
       case loaded of
         None \<Rightarrow> failWith ''no-session'' (cmdMessageId cmd)
       | Some current \<Rightarrow>
           let phase = tickPhase (npTick (sessionPayload current));
               boardPhaseRace = (actionType action = ''board'' \<and>
                 actionPhase action \<in> {''walking'', ''waiting-to-board''} \<and> phase \<in> {''walking'', ''waiting-to-board''})
           in if sessionKind current \<noteq> KindTransit then failWith ''no-session'' (cmdMessageId cmd)
              else if cmdSessionId cmd \<noteq> Some (sessionId current) \<or>
                      pkgFingerprint (npPackage (sessionPayload current)) \<noteq> actionFingerprint action
              then failWith ''revision-conflict'' (cmdMessageId cmd)
              else if tickLastActionId (npTick (sessionPayload current)) = Some (actionId action) then snapshot host now
              else if phase \<noteq> actionPhase action \<and> \<not> boardPhaseRace \<or>
                      sessionStatus current \<noteq> StatusActive \<and>
                        \<not> (sessionStatus current = StatusArrived \<and> actionType action = ''undo'')
              then failWith ''invalid-state'' (cmdMessageId cmd)
              else case Option.bind (processors host KindTransit) procAction of
                None \<Rightarrow> failWith ''mode-unsupported'' (cmdMessageId cmd)
              | Some act \<Rightarrow>
                  (case act current (actionType action) (actionLegIndex action) now of
                     None \<Rightarrow> throwing PortThrew
                   | Some (Inl code) \<Rightarrow> failWith code (cmdMessageId cmd)
                   | Some (Inr mutation) \<Rightarrow>
                       commitAndShow host (cmdMessageId cmd)
                         (commitMutationOf host current (stampAction (actionId action) mutation) now)))"

definition settingsMutation :: "string option \<Rightarrow> string option \<Rightarrow> int \<Rightarrow> NavSession \<Rightarrow> ProcessorMutation" where
  "settingsMutation locale units now s =
     (let body = sessionPayload s
      in \<lparr>mutSession = s\<lparr>revision := revision s + 1, updatedAtMs := now,
            sessionPayload := body\<lparr>npLocale := (case locale of None \<Rightarrow> npLocale body | Some l \<Rightarrow> l),
              npUnits := (case units of None \<Rightarrow> npUnits body | Some u \<Rightarrow> u)\<rparr>\<rparr>,
          mutEffects = [PublishSnapshot True], mutEnqueue = [], mutAlerts = None\<rparr>)"

definition updateSettings ::
  "CoordHost \<Rightarrow> int \<Rightarrow> Command \<Rightarrow> string option \<Rightarrow> string option \<Rightarrow> CommandResponse task"
where
  "updateSettings host now cmd locale units =
     andThen (loadSession host now) (\<lambda>loaded.
       case loaded of
         None \<Rightarrow> failWith ''no-session'' (cmdMessageId cmd)
       | Some current \<Rightarrow>
           if \<not> matches cmd current then failWith ''revision-conflict'' (cmdMessageId cmd)
           else commitAndShow host (cmdMessageId cmd)
             (storeTask (compareAndSwap (store host) (sessionId current) (revision current)
                (\<lambda>s. Inr (settingsMutation locale units now s)) now)))"

section \<open>Dispatch\<close>

fun commandType :: "CommandBody \<Rightarrow> string" where
  "commandType DestinationsUpdate = ''destinations.update''"
| "commandType VoiceProbe = ''voice.probe''"
| "commandType VoiceStart = ''voice.start''"
| "commandType VoiceStop = ''voice.stop''"
| "commandType VoiceCancel = ''voice.cancel''"
| "commandType WebHello = ''web.hello''"
| "commandType IntakeList = ''intake.list''"
| "commandType IntakeRead = ''intake.read''"
| "commandType IntakeComplete = ''intake.complete''"
| "commandType (SessionPrepare pkg) = ''session.prepare''"
| "commandType SessionStart = ''session.start''"
| "commandType (SessionReplace pkg expected) = ''session.replace''"
| "commandType (TransitWalkRoute fingerprint leg body) = ''transit.walk-route''"
| "commandType (TransitAction action) = ''transit.action''"
| "commandType (SettingsUpdate locale units) = ''settings.update''"
| "commandType SnapshotRequest = ''snapshot.request''"
| "commandType SessionStop = ''session.stop''"
| "commandType SessionComplete = ''session.complete''"
| "commandType (EventAck ids) = ''event.ack''"
| "commandType LocationRequest = ''location.request''"
| "commandType SettingsOpen = ''settings.open''"
| "commandType AuthOpen = ''auth.open''"

definition respondWith :: "CommandResponse task \<Rightarrow> CommandResponse option task" where
  "respondWith m = andThen m (\<lambda>response. done_with (Some response))"

definition route :: "CoordHost \<Rightarrow> CommandEnv \<Rightarrow> Command \<Rightarrow> CommandResponse option task" where
  "route host env cmd =
     (case cmdBody cmd of
        DestinationsUpdate \<Rightarrow> done_with None
      | VoiceProbe \<Rightarrow> done_with None
      | VoiceStart \<Rightarrow> done_with None
      | VoiceStop \<Rightarrow> done_with None
      | VoiceCancel \<Rightarrow> done_with None
      | WebHello \<Rightarrow> done_with None
      | IntakeList \<Rightarrow> respondWith (failWith ''unsupported-capability'' (cmdMessageId cmd))
      | IntakeRead \<Rightarrow> respondWith (failWith ''unsupported-capability'' (cmdMessageId cmd))
      | IntakeComplete \<Rightarrow> respondWith (failWith ''unsupported-capability'' (cmdMessageId cmd))
      | SessionPrepare pkg \<Rightarrow> respondWith (prepareSession host (envNow env) (envSessionId env) (cmdMessageId cmd) pkg)
      | SessionStart \<Rightarrow> respondWith (startSession host env None True cmd)
      | SessionReplace pkg expected \<Rightarrow> respondWith (replaceSession host (envNow env) cmd pkg expected)
      | TransitWalkRoute fingerprint leg body \<Rightarrow> respondWith (repairTransitWalk host (envNow env) cmd fingerprint leg body)
      | TransitAction action \<Rightarrow> respondWith (transitAction host (envNow env) cmd action)
      | SettingsUpdate locale units \<Rightarrow> respondWith (updateSettings host (envNow env) cmd locale units)
      | SnapshotRequest \<Rightarrow> respondWith (snapshot host (envNow env))
      | SessionStop \<Rightarrow> respondWith (terminateSession host (cmdSessionId cmd) (cmdMessageId cmd) FinalStopped (envNow env))
      | SessionComplete \<Rightarrow> respondWith (terminateSession host (cmdSessionId cmd) (cmdMessageId cmd) FinalArrived (envNow env))
      | EventAck ids \<Rightarrow> storeTask (\<lambda>t. (Inr None, ackEvents ids t))
      | _ \<Rightarrow>
          (case envAuxiliary env of
             AuxiliaryThrows \<Rightarrow> throwing PortThrew
           | AuxiliaryAnswer (Some response) \<Rightarrow> done_with (Some response)
           | _ \<Rightarrow> respondWith (failWith ''unsupported-capability'' (cmdMessageId cmd))))"

text \<open>A response is kept in the command log as JSON.\<close>

definition responseJson :: "CommandResponse \<Rightarrow> json" where
  "responseJson r =
     JObj ([(''type'', JStr (respType r)), (''payload'', respBody r)] @
       (case respSessionId r of None \<Rightarrow> [] | Some i \<Rightarrow> [(''sessionId'', JStr i)]) @
       (case respRevision r of None \<Rightarrow> [] | Some n \<Rightarrow> [(''revision'', jsonRevision n)]))"

definition readRevision :: "string \<Rightarrow> int" where
  "readRevision digits = (case digits of CHR ''-'' # rest \<Rightarrow> - int (parseDigits rest) | _ \<Rightarrow> int (parseDigits digits))"

definition responseOf :: "json \<Rightarrow> CommandResponse" where
  "responseOf j =
     \<lparr>respType = (case jsonProp ''type'' j of Some (JStr ty) \<Rightarrow> ty | _ \<Rightarrow> []),
      respBody = (case jsonProp ''payload'' j of Some body \<Rightarrow> body | None \<Rightarrow> JNull),
      respSessionId = (case jsonProp ''sessionId'' j of Some (JStr i) \<Rightarrow> Some i | _ \<Rightarrow> None),
      respRevision = (case jsonProp ''revision'' j of Some (JNum digits) \<Rightarrow> Some (readRevision digits) | _ \<Rightarrow> None)\<rparr>"

definition remembering :: "CoordHost \<Rightarrow> CommandEnv \<Rightarrow> Command \<Rightarrow> CommandResponse option \<Rightarrow> unit task" where
  "remembering host env cmd response =
     (case response of
        Some r \<Rightarrow>
          if MUTATING (cmdBody cmd)
          then storeTask (\<lambda>t. (Inr (), rememberCommand (store host) (cmdMessageId cmd) (respSessionId r) (responseJson r) (envNow env) t))
          else done_with ()
      | None \<Rightarrow> done_with ())"

definition executeCommand :: "CoordHost \<Rightarrow> CommandEnv \<Rightarrow> Command \<Rightarrow> CommandResponse option task" where
  "executeCommand host env cmd =
     andThen (catching (route host env cmd)
        (andThen (record_diagnostic ''typed.error'' [(''scope'', ''command''), (''type'', commandType (cmdBody cmd))])
           (\<lambda>_. respondWith (failWith ''internal-error'' (cmdMessageId cmd))))) (\<lambda>response.
     andThen (remembering host env cmd response) (\<lambda>_.
     andThen (case response of None \<Rightarrow> done_with () | Some r \<Rightarrow> replying r (cmdMessageId cmd)) (\<lambda>_.
     done_with response)))"

definition handleCommand :: "CoordHost \<Rightarrow> CommandEnv \<Rightarrow> Command \<Rightarrow> CommandResponse option task" where
  "handleCommand host env cmd =
     (if MUTATING (cmdBody cmd)
      then andThen (storeTask (\<lambda>t. (lookupCommand (store host) (cmdMessageId cmd) (envNow env) t, t))) (\<lambda>cached.
             case cached of
               Some value \<Rightarrow>
                 andThen (replying (responseOf value) (cmdMessageId cmd)) (\<lambda>_. done_with (Some (responseOf value)))
             | None \<Rightarrow> executeCommand host env cmd)
      else executeCommand host env cmd)"

section \<open>Surface and car\<close>

definition stopFromSurface :: "CoordHost \<Rightarrow> int \<Rightarrow> string \<Rightarrow> bool task" where
  "stopFromSurface host now expected =
     andThen (loadSession host now) (\<lambda>current.
       if map_option sessionId current \<noteq> Some expected then done_with False
       else andThen (terminateSession host (Some expected) ''native-surface'' FinalStopped now) (\<lambda>response.
            andThen (replying (response\<lparr>respSessionId := Some expected, respRevision := None\<rparr>) []) (\<lambda>_. done_with True)))"

text \<open>The answers of \<open>valid()\<close> in the order of its calls.\<close>

record CarTrip =
  carPackage :: StartPackage
  carReplaceSessionId :: "string option"
  carMessageId :: string
  carContextBefore :: NavigationStartContext
  carPermissionBefore :: "string option"
  carValid0 :: bool
  carValid1 :: bool
  carValid2 :: bool
  carValid3 :: bool

definition startCarTrip :: "CoordHost \<Rightarrow> CommandEnv \<Rightarrow> CarTrip \<Rightarrow> CommandResponse task" where
  "startCarTrip host env trip =
     (if \<not> carValid0 trip then failWith ''invalid-state'' []
      else case carPermissionBefore trip of
        None \<Rightarrow> throwing PortThrew
      | Some permission \<Rightarrow>
          if \<not> allowsNavigationStart (carContextBefore trip) permission then failWith ''app-not-visible'' []
          else andThen (loadSession host (envNow env)) (\<lambda>current.
            let proceed =
                  (if \<not> carValid1 trip then failWith ''invalid-state'' []
                   else andThen (prepareSession host (envNow env) (envSessionId env) (carMessageId trip) (carPackage trip)) (\<lambda>prepared.
                     if respType prepared \<noteq> ''session.prepared'' then done_with prepared
                     else if \<not> carValid2 trip
                     then andThen (terminateSession host (respSessionId prepared) (carMessageId trip) FinalStopped (envNow env))
                            (\<lambda>_. failWith ''invalid-state'' [])
                     else andThen (startSession host env (Some (envContext env)) (carValid3 trip)
                            \<lparr>cmdMessageId = carMessageId trip, cmdSessionId = respSessionId prepared,
                             cmdRevision = respRevision prepared, cmdBody = SessionStart\<rparr>) (\<lambda>response.
                          andThen (replying response (carMessageId trip)) (\<lambda>_. done_with response))))
            in case current of
                 Some s \<Rightarrow>
                   if isTerminal s then proceed
                   else if carReplaceSessionId trip \<noteq> Some (sessionId s) then failWith ''session-active'' []
                   else andThen (terminateSession host (Some (sessionId s)) (carMessageId trip) FinalStopped (envNow env)) (\<lambda>_. proceed)
               | None \<Rightarrow> proceed))"

section \<open>Location batches\<close>

record LocationBatch =
  batchLocations :: "RawLocation option list"
  batchErrorCode :: "string option"

text \<open>
  One pair per attempt: its time, and what happens in the store between reading the session and
  committing. The second attempt is only made after a revision conflict.
\<close>

fun processBatch :: "CoordHost \<Rightarrow> LocationBatch \<Rightarrow> (int \<times> NavPayload repoEvent list) list \<Rightarrow> unit task" where
  "processBatch host batch [] = done_with ()"
| "processBatch host batch ((now, meanwhile) # retries) =
     andThen (loadSession host now) (\<lambda>loaded.
       case loaded of
         None \<Rightarrow> andThen (runEffects host [ReconcileSurface]) (\<lambda>_. done_with ())
       | Some session \<Rightarrow>
           if isMobileSessionExpired session now
           then andThen (storeTask (terminate (store host) (sessionId session) FinalExpired now)) (\<lambda>(_, effects).
                andThen (runEffects host effects) (\<lambda>_. done_with ()))
           else if sessionStatus session \<noteq> StatusActive
           then andThen (runEffects host [ReconcileSurface]) (\<lambda>_. done_with ())
           else case processors host (sessionKind session) of
             None \<Rightarrow> done_with ()
           | Some processor \<Rightarrow>
               let clean = sanitiseRawLocations (batchLocations batch) now (lastAcceptedFixMs session)
               in andThen (record_diagnostic ''location.batch''
                    ([(''accepted'', showNat (length (batchAccepted clean))), (''rejected'', showNat (rejectedCount clean))] @
                     (case batchErrorCode batch of None \<Rightarrow> [] | Some code \<Rightarrow> if code = [] then [] else [(''errorCode'', take 64 code)]))) (\<lambda>_.
                  if batchAccepted clean = [] \<and> \<not> needsScheduleTicks processor then done_with ()
                  else case procFixes processor session (batchAccepted clean) now of
                    None \<Rightarrow> throwing PortThrew
                  | Some mutation \<Rightarrow>
                      andThen (interlude host meanwhile) (\<lambda>_.
                      andThen (commitMutationOf host session mutation now) (\<lambda>committed.
                        case committed of
                          Inr (_, effects) \<Rightarrow> andThen (runEffects host effects) (\<lambda>_. done_with ())
                        | Inl failure \<Rightarrow>
                            if failure = RevisionConflict then processBatch host batch retries else done_with ()))))"

definition handleLocationBatch ::
  "CoordHost \<Rightarrow> LocationBatch \<Rightarrow> int \<times> NavPayload repoEvent list \<Rightarrow> int \<times> NavPayload repoEvent list \<Rightarrow> unit task"
where
  "handleLocationBatch host batch first again =
     catching (processBatch host batch [first, again])
       (record_diagnostic ''typed.error'' [(''scope'', ''location-batch'')])"

section \<open>Answers of remote work\<close>

record RerouteOutcome =
  rerouteSession :: string
  rerouteRequest :: string
  rerouteResult :: "string + json"

definition rerouteFailure :: "string \<Rightarrow> int \<Rightarrow> int \<Rightarrow> NavSession \<Rightarrow> ProcessorMutation" where
  "rerouteFailure code now jitterMs s =
     (let body = sessionPayload s
      in \<lparr>mutSession = s\<lparr>revision := revision s + 1, updatedAtMs := now,
            sessionPayload := body\<lparr>npReroute := onRerouteFailed (npReroute body) code now jitterMs\<rparr>\<rparr>,
          mutEffects = [PublishSnapshot False], mutEnqueue = [], mutAlerts = None\<rparr>)"

definition rerouteSuccess :: "ProcessorMutation \<Rightarrow> ProcessorMutation" where
  "rerouteSuccess applied =
     (if sessionKind (mutSession applied) = KindGround
      then applied\<lparr>mutSession := (mutSession applied)\<lparr>sessionPayload := (sessionPayload (mutSession applied))\<lparr>npReroute := onRerouteSucceeded\<rparr>\<rparr>\<rparr>
      else applied)"

definition commitAndRun :: "CoordHost \<Rightarrow> NavSession \<Rightarrow> ProcessorMutation \<Rightarrow> int \<Rightarrow> unit task" where
  "commitAndRun host session mutation now =
     andThen (commitMutationOf host session mutation now) (\<lambda>committed.
       case committed of
         Inl failure \<Rightarrow> done_with ()
       | Inr (_, effects) \<Rightarrow> andThen (runEffects host effects) (\<lambda>_. done_with ()))"

definition commitReroute :: "CoordHost \<Rightarrow> int \<Rightarrow> int \<Rightarrow> RerouteOutcome \<Rightarrow> unit task" where
  "commitReroute host now jitterMs outcome =
     andThen (loadSession host now) (\<lambda>loaded.
       case loaded of
         None \<Rightarrow> done_with ()
       | Some session \<Rightarrow>
           if sessionKind session \<noteq> KindGround \<or> sessionStatus session \<noteq> StatusActive then done_with ()
           else if sessionId session \<noteq> rerouteSession outcome then done_with ()
           else if rerouteRequestId (npReroute (sessionPayload session)) \<noteq> Some (rerouteRequest outcome) then done_with ()
           else case rerouteResult outcome of
             Inl code \<Rightarrow>
               if code = ''aborted'' then done_with ()
               else commitAndRun host session (rerouteFailure code now jitterMs session) now
           | Inr body \<Rightarrow>
               let rejected = commitAndRun host session (rerouteFailure ''invalid-response'' now jitterMs session) now
               in (case processors host KindGround of
                     None \<Rightarrow> rejected
                   | Some processor \<Rightarrow>
                       (case procReplace processor session body now of
                          None \<Rightarrow> throwing PortThrew
                        | Some (Inl code) \<Rightarrow> rejected
                        | Some (Inr applied) \<Rightarrow> commitAndRun host session (rerouteSuccess applied) now)))"

definition applyReroute :: "CoordHost \<Rightarrow> int \<Rightarrow> int \<Rightarrow> RerouteOutcome \<Rightarrow> unit task" where
  "applyReroute host now jitterMs outcome =
     catching (commitReroute host now jitterMs outcome) (record_diagnostic ''typed.error'' [(''scope'', ''reroute'')])"

datatype RefreshReplyFailure = RefreshUnreachable | RefreshFailedWith RefreshFailure

record RefreshedJourney =
  journeyItinerary :: json
  journeyDepartures :: json
  journeyCapturesOnly :: bool

record RefreshOutcome =
  refreshSession :: string
  refreshGeneration :: nat
  refreshRequest :: string
  refreshResult :: "RefreshReplyFailure + RefreshedJourney"

definition itineraryToken :: "json \<Rightarrow> string option" where
  "itineraryToken itinerary = (case jsonProp ''refreshToken'' itinerary of Some (JStr token) \<Rightarrow> Some token | _ \<Rightarrow> None)"

definition tokenPresent :: "string option \<Rightarrow> bool" where
  "tokenPresent token \<longleftrightarrow> token \<noteq> None \<and> token \<noteq> Some []"

definition mergedItinerary :: "CoordHost \<Rightarrow> NavPayload \<Rightarrow> RefreshedJourney \<Rightarrow> (TransitPackage \<times> bool) option" where
  "mergedItinerary host body journey =
     (case transitStartPackageSchema host ((npPackage body)\<lparr>pkgItinerary := journeyItinerary journey\<rparr>) of
        None \<Rightarrow> None
      | Some parsed \<Rightarrow>
          (case mergeTransitRefresh host (pkgItinerary (npPackage body)) (pkgItinerary parsed) (tickLegIndex (npTick body))
                  (case tickWalkRevision (npTick body) of None \<Rightarrow> 0 | Some n \<Rightarrow> n) of
             None \<Rightarrow> None
           | Some (itinerary, resetWalk) \<Rightarrow> Some (parsed\<lparr>pkgItinerary := itinerary\<rparr>, resetWalk)))"

definition dropBrokenToken :: "NavPayload \<Rightarrow> NavPayload" where
  "dropBrokenToken body = (if refreshStatus (npRefresh body) = Broken then body\<lparr>npRefreshToken := None\<rparr> else body)"

definition refreshedPayload ::
  "CoordHost \<Rightarrow> int \<Rightarrow> NavSession \<Rightarrow> RefreshedJourney \<Rightarrow> TransitPackage \<Rightarrow> bool \<Rightarrow> NavPayload"
where
  "refreshedPayload host now session journey merged resetWalk =
     (let body = sessionPayload session;
          adopted = dropBrokenToken (body\<lparr>npPackage := merged,
            npDataRevision := Some ((case npDataRevision body of None \<Rightarrow> 0 | Some n \<Rightarrow> n) + 1),
            npRefreshToken := (if journeyCapturesOnly journey then npRefreshToken body else itineraryToken (pkgItinerary merged)),
            npRefresh := onRefreshSucceeded (npRefresh body) now\<rparr>);
          captures = refreshTransitCaptures host (pkgCaptures (npPackage body)) (pkgItinerary (npPackage body))
                       (journeyDepartures journey) now;
          captured = (case transitStartPackageSchema host (merged\<lparr>pkgCaptures := captures\<rparr>) of
                        None \<Rightarrow> adopted | Some checked \<Rightarrow> adopted\<lparr>npPackage := checked\<rparr>);
          tick = npTick captured;
          reset = tick\<lparr>tickWalkStepIndex := 0, tickReachedStepEnd := False, tickDistance := None,
            tickWalkRevision := Some ((case tickWalkRevision tick of None \<Rightarrow> 0 | Some n \<Rightarrow> n) + 1)\<rparr>
      in if resetWalk
         then captured\<lparr>npTick := reset, npProgress := transitProgress host reset (lastAcceptedFixMs session) (pkgItinerary merged)\<rparr>
         else captured)"

definition refusedPayload :: "int \<Rightarrow> NavSession \<Rightarrow> RefreshReplyFailure option \<Rightarrow> NavPayload" where
  "refusedPayload now session why =
     (let body = sessionPayload session
      in dropBrokenToken (body\<lparr>npRefresh := onRefreshFailed (npRefresh body)
           (case why of None \<Rightarrow> RejectedReply | Some RefreshUnreachable \<Rightarrow> Retryable | Some (RefreshFailedWith failure) \<Rightarrow> failure)
           now (tokenPresent (npRefreshToken body))\<rparr>))"

definition applyTransitRefresh :: "CoordHost \<Rightarrow> int \<Rightarrow> RefreshOutcome \<Rightarrow> unit task" where
  "applyTransitRefresh host now outcome =
     andThen (loadSession host now) (\<lambda>loaded.
       case loaded of
         None \<Rightarrow> done_with ()
       | Some session \<Rightarrow>
           let refresh = npRefresh (sessionPayload session)
           in if sessionKind session \<noteq> KindTransit \<or> sessionStatus session \<noteq> StatusActive \<or>
                 sessionId session \<noteq> refreshSession outcome then done_with ()
              else if refreshStatus refresh \<noteq> InFlight \<or> generation refresh \<noteq> refreshGeneration outcome \<or>
                      requestId refresh \<noteq> Some (refreshRequest outcome) then done_with ()
              else
                let payload =
                      (case refreshResult outcome of
                         Inl why \<Rightarrow> refusedPayload now session (Some why)
                       | Inr journey \<Rightarrow>
                           (case mergedItinerary host (sessionPayload session) journey of
                              None \<Rightarrow> refusedPayload now session None
                            | Some (merged, resetWalk) \<Rightarrow> refreshedPayload host now session journey merged resetWalk))
                in commitAndRun host session
                     \<lparr>mutSession = session\<lparr>revision := revision session + 1, updatedAtMs := now, sessionPayload := payload\<rparr>,
                      mutEffects = [ReconcileAlerts (sessionId session), PublishSnapshot True],
                      mutEnqueue = [], mutAlerts = None\<rparr> now)"

section \<open>Runs\<close>

datatype coordEvent =
    DispatchEvent CommandEnv Command
  | CarEvent CommandEnv CarTrip
  | SurfaceEvent int string
  | BatchEvent LocationBatch "int \<times> NavPayload repoEvent list" "int \<times> NavPayload repoEvent list"
  | RerouteEvent int int RerouteOutcome
  | RefreshEvent int RefreshOutcome
  | StoreEvent "NavPayload repoEvent"

fun coordStep :: "CoordHost \<Rightarrow> Coord \<Rightarrow> coordEvent \<Rightarrow> Coord" where
  "coordStep host c (DispatchEvent env cmd) = snd (handleCommand host env cmd c)"
| "coordStep host c (CarEvent env trip) = snd (startCarTrip host env trip c)"
| "coordStep host c (SurfaceEvent now expected) = snd (stopFromSurface host now expected c)"
| "coordStep host c (BatchEvent batch first again) = snd (handleLocationBatch host batch first again c)"
| "coordStep host c (RerouteEvent now jitterMs outcome) = snd (applyReroute host now jitterMs outcome c)"
| "coordStep host c (RefreshEvent now outcome) = snd (applyTransitRefresh host now outcome c)"
| "coordStep host c (StoreEvent e) = c\<lparr>tables := repoStep (store host) (tables c) e\<rparr>"

definition initialCoord :: Coord where
  "initialCoord = \<lparr>tables = emptyTables, effectLog = [], replyLog = [], diagLog = []\<rparr>"

end
