(* ===== verification/Coordinator_Runs.thy ===== *)
theory Coordinator_Runs
  imports Coordinator_Commands
begin

text \<open>
  What every task of the coordinator does to its state. The locale \<open>task_relation\<close> carries a reflexive
  and transitive relation through the combinators a task is built from; it is interpreted for \<open>coordRun\<close>:
  the store only moves by repository events, and the driver is only started for a committed session.
\<close>

section \<open>Tasks and relations\<close>

definition keeps :: "(Coord \<Rightarrow> Coord \<Rightarrow> bool) \<Rightarrow> 'a task \<Rightarrow> bool" where
  "keeps R m \<longleftrightarrow> (\<forall>c. R c (snd (m c)))"

lemma keeps_option: "keeps R a \<Longrightarrow> (\<And>x. v = Some x \<Longrightarrow> keeps R (f x)) \<Longrightarrow> keeps R (case v of None \<Rightarrow> a | Some x \<Rightarrow> f x)"
  by (cases v) simp_all

lemma keeps_sum:
  "(\<And>x. v = Inl x \<Longrightarrow> keeps R (f x)) \<Longrightarrow> (\<And>y. v = Inr y \<Longrightarrow> keeps R (g y)) \<Longrightarrow>
     keeps R (case v of Inl x \<Rightarrow> f x | Inr y \<Rightarrow> g y)"
  by (cases v) simp_all

lemma keeps_prod: "(\<And>x y. v = (x, y) \<Longrightarrow> keeps R (f x y)) \<Longrightarrow> keeps R (case v of (x, y) \<Rightarrow> f x y)"
  by (cases v) simp

lemma keeps_if: "(P \<Longrightarrow> keeps R a) \<Longrightarrow> (\<not> P \<Longrightarrow> keeps R b) \<Longrightarrow> keeps R (if P then a else b)"
  by simp

lemma keeps_let: "(\<And>x. x = v \<Longrightarrow> keeps R (f x)) \<Longrightarrow> keeps R (let x = v in f x)"
  by simp

locale task_relation =
  fixes R :: "Coord \<Rightarrow> Coord \<Rightarrow> bool"
  assumes refl: "R c c" and trans: "R a b \<Longrightarrow> R b c \<Longrightarrow> R a c"
begin

lemma keeps_pure: "keeps R (done_with v)" "keeps R (throwing e)" "keeps R (failWith code i)" "keeps R (reading f)"
  by (simp_all add: keeps_def done_with_def throwing_def failWith_def reading_def refl)

lemma keeps_andThen_state:
  assumes "keeps R m" and "\<And>c v c'. m c = (Inr v, c') \<Longrightarrow> R c' (snd (f v c'))"
  shows "keeps R (andThen m f)"
  unfolding keeps_def
proof
  fix c :: Coord
  obtain r c' where m: "m c = (r, c')" by fastforce
  have first: "R c c'" using assms(1) m by (metis keeps_def snd_conv)
  show "R c (snd (andThen m f c))"
  proof (cases r)
    case (Inr v)
    with first m assms(2) trans show ?thesis by (fastforce simp: andThen_def)
  qed (use first m in \<open>simp add: andThen_def\<close>)
qed

lemma keeps_andThen_result:
  "keeps R m \<Longrightarrow> (\<And>c v c'. m c = (Inr v, c') \<Longrightarrow> keeps R (f v)) \<Longrightarrow> keeps R (andThen m f)"
  by (rule keeps_andThen_state) (simp_all add: keeps_def)

lemma keeps_andThen: "keeps R m \<Longrightarrow> (\<And>v. keeps R (f v)) \<Longrightarrow> keeps R (andThen m f)"
  by (rule keeps_andThen_result)

lemma keeps_catching:
  assumes "keeps R m" and "keeps R h"
  shows "keeps R (catching m h)"
  unfolding keeps_def
proof
  fix c
  obtain r c' where m: "m c = (r, c')" by fastforce
  have first: "R c c'" using assms(1) m by (metis keeps_def snd_conv)
  show "R c (snd (catching m h c))"
  proof (cases r)
    case (Inl e)
    have "R c' (snd (h c'))" using assms(2) by (simp add: keeps_def)
    with first m Inl trans show ?thesis by (auto simp: catching_def)
  qed (use first m in \<open>simp add: catching_def\<close>)
qed

lemma keeps_respond: "keeps R m \<Longrightarrow> keeps R (respondWith m)"
  unfolding respondWith_def by (intro keeps_andThen keeps_pure)

lemmas keeps_rules = keeps_pure keeps_andThen keeps_catching keeps_respond

end

section \<open>Quiet ports\<close>

text \<open>What other parts of the app and the ports of the effects do to the store.\<close>

fun otherEvent :: "'p repoEvent \<Rightarrow> bool" where
  "otherEvent (InspectEvent now) = True"
| "otherEvent (RecordDiagnostic ty value now) = True"
| "otherEvent ClearDiagnostics = True"
| "otherEvent (ReplaceAlerts sid inputs now) = True"
| "otherEvent (MarkAlert i st now) = True"
| "otherEvent (DamageRow raw) = True"
| "otherEvent _ = False"

fun effectEvent :: "'p repoEvent \<Rightarrow> bool" where
  "effectEvent (InspectEvent now) = True"
| "effectEvent (RecordDiagnostic ty value now) = True"
| "effectEvent (ReplaceAlerts sid inputs now) = True"
| "effectEvent (MarkAlert i st now) = True"
| "effectEvent _ = False"

fun startsDriver :: "SessionEffect \<Rightarrow> bool" where
  "startsDriver (StartLocation mode) = True"
| "startsDriver _ = False"

definition quietMutation :: "ProcessorMutation \<Rightarrow> bool" where
  "quietMutation m \<longleftrightarrow> \<not> list_ex startsDriver (mutEffects m)"

definition quietProcessor :: "Processor \<Rightarrow> bool" where
  "quietProcessor p \<longleftrightarrow>
     (\<forall>s fixes now m. procFixes p s fixes now = Some m \<longrightarrow> quietMutation m) \<and>
     (\<forall>s body now m. procReplace p s body now = Some (Inr m) \<longrightarrow> quietMutation m) \<and>
     (\<forall>f s leg body now m. procWalk p = Some f \<longrightarrow> f s leg body now = Some (Inr m) \<longrightarrow> quietMutation m) \<and>
     (\<forall>f s ty leg now m. procAction p = Some f \<longrightarrow> f s ty leg now = Some (Inr m) \<longrightarrow> quietMutation m)"

definition quietHost :: "CoordHost \<Rightarrow> bool" where
  "quietHost host \<longleftrightarrow>
     (\<forall>kind p. processors host kind = Some p \<longrightarrow> quietProcessor p) \<and>
     (\<forall>e t. list_all effectEvent (effectWrites host e t))"

fun quietCoordEvent :: "coordEvent \<Rightarrow> bool" where
  "quietCoordEvent (DispatchEvent env cmd) = list_all otherEvent (envInterlude env)"
| "quietCoordEvent (CarEvent env trip) = list_all otherEvent (envInterlude env)"
| "quietCoordEvent (BatchEvent batch first again) = (list_all otherEvent (snd first) \<and> list_all otherEvent (snd again))"
| "quietCoordEvent (StoreEvent e) = otherEvent e"
| "quietCoordEvent _ = True"

section \<open>The relation\<close>

fun remembers :: "'p repoEvent \<Rightarrow> bool" where
  "remembers (RememberCommand i sid response now) = True"
| "remembers _ = False"

definition startCommitted :: "CoordHost \<Rightarrow> EffectRecord \<Rightarrow> bool" where
  "startCommitted host r \<longleftrightarrow>
     (\<forall>mode. recordedEffect r = StartLocation mode \<longrightarrow>
        (\<exists>s. recordedRow r = Some (activeRow (store host) s) \<and> sessionStatus s = StatusActive \<and> permissionMode s = mode))"

definition coordRun :: "CoordHost \<Rightarrow> (NavPayload repoEvent \<Rightarrow> bool) \<Rightarrow> Coord \<Rightarrow> Coord \<Rightarrow> bool" where
  "coordRun host P c c' \<longleftrightarrow>
     reaches (repoStep (store host)) (\<lambda>_ e. P e) (tables c) (tables c') \<and>
     (\<exists>new. effectLog c' = effectLog c @ new \<and> list_all (startCommitted host) new)"

interpretation run: task_relation "coordRun host P" for host P
proof
  show "coordRun host P c c" for c by (simp add: coordRun_def reaches.here)
  show "coordRun host P a c" if "coordRun host P a b" "coordRun host P b c" for a b c
    using that reaches_trans by (fastforce simp: coordRun_def)
qed

lemma reaches_foldl_all: "list_all P es \<Longrightarrow> reaches step (\<lambda>_ e. P e) s (foldl step s es)"
  by (induction es rule: rev_induct) (auto intro: reaches.intros)

lemma keeps_steps:
  assumes "\<And>t. \<exists>es. list_all P es \<and> snd (f t) = foldl (repoStep (store host)) t es"
  shows "keeps (coordRun host P) (storeTask f)"
proof -
  have "reaches (repoStep (store host)) (\<lambda>_ e. P e) t (snd (f t))" for t
    using assms [of t] reaches_foldl_all by metis
  then show ?thesis
    by (auto simp: keeps_def coordRun_def storeTask_def case_prod_beta split: sum.split)
qed

section \<open>The tasks of the coordinator\<close>

abbreviation calm :: "CoordHost \<Rightarrow> Coord \<Rightarrow> Coord \<Rightarrow> bool" where
  "calm host \<equiv> coordRun host (\<lambda>e. \<not> remembers e)"

lemma calm_step: "\<not> remembers e \<Longrightarrow> snd (f t) = repoStep (store host) t e \<Longrightarrow>
    \<exists>es. list_all (\<lambda>e. \<not> remembers e) es \<and> snd (f t) = foldl (repoStep (store host)) t es"
  by (rule exI [of _ "[e]"]) simp

lemma keeps_load: "keeps (calm host) (loadSession host now)"
proof -
  have "snd (loadActive h now t) = snd (inspectActive h now t)" for h :: "NavPayload SessionHost" and t
    by (simp add: loadActive_def case_prod_beta split: ActiveSessionInspection.split)
  then have "reaches (repoStep (store host)) (\<lambda>_ e. \<not> remembers e) t (snd (loadActive (store host) now t))" for t
    using reaches_foldl_all [of "\<lambda>e. \<not> remembers e" "[InspectEvent now]" "repoStep (store host)" t] by simp
  then show ?thesis by (simp add: keeps_def coordRun_def loadSession_def case_prod_beta)
qed

lemma keeps_interlude:
  assumes "list_all otherEvent events"
  shows "keeps (calm host) (interlude host events)"
proof -
  have "list_all (\<lambda>e. \<not> remembers e) events"
    using assms by (rule list.pred_mono_strong) (auto elim: otherEvent.elims)
  then show ?thesis by (simp add: keeps_def coordRun_def interlude_def reaches_foldl_all)
qed

lemma keeps_logs: "keeps (calm host) (replying r i)" "keeps (calm host) (record_diagnostic ty body)"
  by (simp_all add: keeps_def coordRun_def replying_def record_diagnostic_def reaches.here)

lemma execute_calm:
  assumes "quietHost host" and "\<not> startsDriver e"
  shows "calm host c (snd (executeEffect host e c))"
proof -
  have "list_all effectEvent (effectWrites host e (tables c))" using assms(1) by (simp add: quietHost_def)
  then have "list_all (\<lambda>e. \<not> remembers e) (effectWrites host e (tables c))"
    by (rule list.pred_mono_strong) (auto elim: effectEvent.elims)
  moreover have "startCommitted host \<lparr>recordedRow = row, recordedEffect = e, recordedFailed = failed\<rparr>" for row failed
    using assms(2) by (auto simp: startCommitted_def)
  ultimately show ?thesis by (simp add: coordRun_def executeEffect_def Let_def reaches_foldl_all)
qed

lemma executeAll_calm:
  "quietHost host \<Longrightarrow> \<not> list_ex startsDriver es \<Longrightarrow> calm host c (snd (executeAll host es c))"
proof (induction es arbitrary: c)
  case (Cons e es)
  then have "calm host c (snd (executeEffect host e c))"
    "calm host (snd (executeEffect host e c)) (snd (executeAll host es (snd (executeEffect host e c))))"
    using execute_calm by auto
  then show ?case by (simp add: case_prod_beta) (rule run.trans)
qed (simp add: run.refl)

lemma keeps_effects:
  assumes "quietHost host" and "\<not> list_ex startsDriver es"
  shows "keeps (calm host) (runEffects host es)"
proof -
  have "\<not> list_ex startsDriver (sort_key effectOrder es)" using assms(2) by (simp add: list_ex_iff)
  with assms(1) show ?thesis by (simp add: keeps_def runEffects_def case_prod_beta executeAll_calm)
qed

lemma quiet_termination: "\<not> list_ex startsDriver (terminationEffects sid)"
  by (simp add: terminationEffects_def)

lemma keeps_terminate:
  assumes "\<And>ack effects. \<not> list_ex startsDriver effects \<Longrightarrow> keeps (calm host) (k (ack, effects))"
  shows "keeps (calm host) (andThen (storeTask (terminate (store host) sid final now)) k)"
proof (rule run.keeps_andThen_result)
  show "keeps (calm host) (storeTask (terminate (store host) sid final now))"
    by (intro keeps_steps calm_step [of "Terminate sid final now"]) simp_all
  fix c v c'
  assume "storeTask (terminate (store host) sid final now) c = (Inr v, c')"
  then have "snd v = [] \<or> snd v = terminationEffects sid"
    by (auto simp: storeTask_def terminate_def withExclusiveTransaction_def Let_def case_prod_beta
        split: option.splits sum.splits if_splits)
  then have "\<not> list_ex startsDriver (snd v)" using quiet_termination by auto
  then show "keeps (calm host) (k v)" using assms [of "snd v" "fst v"] by simp
qed

lemma swap_committed:
  assumes "compareAndSwap h sid n mutate now t = (Inr (Inr (s, effects)), t')"
  obtains current m where "mutate current = Inr m" "s = mutSession m" "effects = mutEffects m"
    "sessionId s = sid" "revision s = n + 1" "revision current = n" "sessionId current = sid"
    "activeNavigation t' = Some (activeRow h s)"
proof -
  obtain current m r where m: "mutate current = Inr m" "sessionId current = sid" "revision current = n"
    and commit: "commitMutation h sid n now m t = Inr (r, t')" "r = Inr (s, effects)"
    using assms unfolding compareAndSwap_def withExclusiveTransaction_def
    by (auto split: option.splits sum.splits if_splits)
  show thesis
    using commit(1) by (rule commitMutation_Inr) (use that m commit in auto)
qed

lemma keeps_store:
  "keeps (calm host) (storeTask (compareAndSwap (store host) sid n mutate now))"
  "keeps (calm host) (storeTask (createPreparing (store host) s))"
  "keeps (calm host) (storeTask (\<lambda>t. (Inr v, ackEvents ids t)))"
  "keeps (calm host) (storeTask (\<lambda>t. (lookupCommand (store host) i now t, t)))"
  by (intro keeps_steps calm_step [of "CompareAndSwap sid n mutate now"], simp_all)
     (intro keeps_steps calm_step [of "CreatePreparing s"], simp_all,
      intro keeps_steps calm_step [of "AckEvents ids"], simp_all,
      intro keeps_steps exI [of _ "[]"], simp_all)

lemma keeps_swap:
  assumes "\<And>failure. keeps (calm host) (k (Inl failure))"
    and "\<And>current m. mutate current = Inr m \<Longrightarrow> keeps (calm host) (k (Inr (mutSession m, mutEffects m)))"
  shows "keeps (calm host) (andThen (storeTask (compareAndSwap (store host) sid n mutate now)) k)"
proof (rule run.keeps_andThen_result [OF keeps_store(1)])
  fix c v c'
  assume run: "storeTask (compareAndSwap (store host) sid n mutate now) c = (Inr v, c')"
  show "keeps (calm host) (k v)"
  proof (cases v)
    case (Inr committed)
    obtain s effects where committed: "committed = (s, effects)" by (cases committed)
    with run Inr have "compareAndSwap (store host) sid n mutate now (tables c) = (Inr (Inr (s, effects)), tables c')"
      by (auto simp: storeTask_def split: prod.splits sum.splits)
    then show ?thesis
      by (rule swap_committed) (use assms(2) Inr committed in auto)
  qed (use assms(1) in simp)
qed

lemma keeps_commit:
  assumes "\<And>failure. keeps (calm host) (k (Inl failure))"
    and "keeps (calm host) (k (Inr (mutSession m, mutEffects m)))"
  shows "keeps (calm host) (andThen (commitMutationOf host s m now) k)"
  unfolding commitMutationOf_def by (rule keeps_swap) (use assms in auto)

lemmas task_intros =
  run.keeps_rules keeps_load keeps_interlude keeps_logs keeps_effects keeps_store(2-4)

lemmas branch_intros = keeps_option keeps_sum keeps_prod keeps_if keeps_let

lemma keeps_terminateSession:
  "quietHost host \<Longrightarrow> keeps (calm host) (terminateSession host sid i final now)"
  unfolding terminateSession_def
  by (intro branch_intros keeps_terminate task_intros) (auto split: option.splits)

lemma keeps_prepareSession: "keeps (calm host) (prepareSession host now newId i pkg)"
  unfolding prepareSession_def by (intro branch_intros task_intros)

lemma keeps_snapshot: "keeps (calm host) (snapshot host now)"
  unfolding snapshot_def by (intro branch_intros task_intros)

text \<open>The one place that starts the driver: right after the commit, for the session just written.\<close>

lemma start_effects:
  "sort_key effectOrder [StartLocation mode, PublishSnapshot True] = [StartLocation mode, PublishSnapshot True]"
  by (simp add: sort_key_def)

lemma keeps_finishStart: "quietHost host \<Longrightarrow> keeps (calm host) (finishStart host now i s failed)"
  unfolding finishStart_def by (intro branch_intros keeps_terminate task_intros) auto

lemma start_effects_calm:
  assumes "quietHost host" and "activeNavigation (tables c) = Some (activeRow (store host) s)"
    and "sessionStatus s = StatusActive" and "permissionMode s = mode"
  shows "calm host c (snd (runEffects host [StartLocation mode, PublishSnapshot True] c))"
proof -
  let ?c1 = "snd (executeEffect host (StartLocation mode) c)"
  have "list_all effectEvent (effectWrites host (StartLocation mode) (tables c))" using assms(1) by (simp add: quietHost_def)
  then have "list_all (\<lambda>e. \<not> remembers e) (effectWrites host (StartLocation mode) (tables c))"
    by (rule list.pred_mono_strong) (auto elim: effectEvent.elims)
  then have "calm host c ?c1"
    using assms(2-4) by (auto simp: coordRun_def executeEffect_def Let_def reaches_foldl_all startCommitted_def)
  moreover have "calm host ?c1 (snd (executeEffect host (PublishSnapshot True) ?c1))"
    by (rule execute_calm [OF assms(1)]) simp
  ultimately have "calm host c (snd (executeEffect host (PublishSnapshot True) ?c1))" by (rule run.trans)
  then show ?thesis by (simp add: runEffects_def start_effects case_prod_beta)
qed

lemma start_committed:
  assumes "storeTask (compareAndSwap (store host) sid n (\<lambda>s. Inr (startMutation mode now s)) now) c = (Inr (Inr (s, effects)), c')"
  shows "effects = [StartLocation mode, PublishSnapshot True]" "sessionStatus s = StatusActive" "permissionMode s = mode"
    "sessionId s = sid" "revision s = n + 1" "activeNavigation (tables c') = Some (activeRow (store host) s)"
proof -
  from assms have "compareAndSwap (store host) sid n (\<lambda>s. Inr (startMutation mode now s)) now (tables c) =
      (Inr (Inr (s, effects)), tables c')"
    by (auto simp: storeTask_def split: prod.splits sum.splits)
  then obtain base m where "(Inr (startMutation mode now base) :: string + ProcessorMutation) = Inr m"
    "s = mutSession m" "effects = mutEffects m" "sessionId s = sid" "revision s = n + 1"
    "activeNavigation (tables c') = Some (activeRow (store host) s)"
    by (rule swap_committed)
  then show "effects = [StartLocation mode, PublishSnapshot True]" "sessionStatus s = StatusActive" "permissionMode s = mode"
    "sessionId s = sid" "revision s = n + 1" "activeNavigation (tables c') = Some (activeRow (store host) s)"
    by (auto simp: startMutation_def)
qed

lemma keeps_activate:
  assumes "quietHost host"
  shows "keeps (calm host) (activateSession host now i mode current)"
  unfolding activateSession_def
proof (rule run.keeps_andThen_state [OF keeps_store(1)])
  fix c :: Coord and v c'
  assume swap: "storeTask (compareAndSwap (store host) (sessionId current) (revision current)
      (\<lambda>s. Inr (startMutation mode now s)) now) c = (Inr v, c')"
  show "calm host c' (snd ((case v of Inl failure \<Rightarrow> failWith (failureCode failure) i
      | Inr (s, effects) \<Rightarrow> andThen (runEffects host effects) (finishStart host now i s)) c'))"
  proof (cases v)
    case (Inr committed)
    obtain s effects where s: "committed = (s, effects)" by (cases committed)
    note facts = start_committed [OF swap [unfolded Inr s]]
    obtain failed c2 where ran: "runEffects host effects c' = (Inr failed, c2)"
      by (simp add: runEffects_def case_prod_beta)
    have "calm host c' c2" using start_effects_calm [OF assms facts(6,2,3)] ran facts(1) by (metis snd_conv)
    moreover have "calm host c2 (snd (finishStart host now i s failed c2))"
      using keeps_finishStart [OF assms] by (simp add: keeps_def)
    ultimately show ?thesis using Inr s ran by (simp add: andThen_def run.trans)
  qed (use run.keeps_pure(3) in \<open>simp add: keeps_def\<close>)
qed

lemma keeps_startSession:
  assumes "quietHost host" and "list_all otherEvent (envInterlude env)"
  shows "keeps (calm host) (startSession host env authorized stillValid cmd)"
proof -
  have decision: "keeps (calm host) (case decision of None \<Rightarrow> throwing PortThrew
      | Some StartDenied \<Rightarrow> denied | Some (StartGranted mode) \<Rightarrow> granted mode)"
    if "keeps (calm host) denied" "\<And>mode. keeps (calm host) (granted mode)"
    for decision and denied granted :: "_ \<Rightarrow> _"
    using that by (simp add: run.keeps_pure split: option.split StartDecision.split)
  show ?thesis
    unfolding startSession_def
    by (intro branch_intros decision keeps_terminate keeps_activate keeps_interlude task_intros) (use assms in auto)
qed

lemma keeps_show:
  assumes "quietHost host" and "quietMutation m"
  shows "keeps (calm host) (commitAndShow host i (commitMutationOf host s m now))"
    and "keeps (calm host) (commitAndRun host s m now)"
  unfolding commitAndShow_def commitAndRun_def
  by (intro keeps_commit branch_intros task_intros; use assms in \<open>auto simp: quietMutation_def intro!: task_intros\<close>)+

lemma keeps_replaceSession: "quietHost host \<Longrightarrow> keeps (calm host) (replaceSession host now cmd pkg expected)"
  unfolding replaceSession_def by (intro branch_intros keeps_commit task_intros)

lemma quiet_lookup:
  assumes "quietHost host"
  shows "processors host k = Some p \<Longrightarrow> procReplace p s body now = Some (Inr m) \<Longrightarrow> quietMutation m"
    and "processors host k = Some p \<Longrightarrow> procFixes p s fixes now = Some m \<Longrightarrow> quietMutation m"
    and "Option.bind (processors host k) procWalk = Some f \<Longrightarrow> f s leg body now = Some (Inr m) \<Longrightarrow> quietMutation m"
    and "Option.bind (processors host k) procAction = Some g \<Longrightarrow> g s ty leg now = Some (Inr m) \<Longrightarrow> quietMutation m"
proof -
  have quiet: "quietProcessor p" if "processors host k = Some p" for k p using assms that by (simp add: quietHost_def)
  show "processors host k = Some p \<Longrightarrow> procReplace p s body now = Some (Inr m) \<Longrightarrow> quietMutation m"
    using quiet [of k p] unfolding quietProcessor_def by blast
  show "processors host k = Some p \<Longrightarrow> procFixes p s fixes now = Some m \<Longrightarrow> quietMutation m"
    using quiet [of k p] unfolding quietProcessor_def by blast
  show "Option.bind (processors host k) procWalk = Some f \<Longrightarrow> f s leg body now = Some (Inr m) \<Longrightarrow> quietMutation m"
    using quiet [of k] unfolding quietProcessor_def by (cases "processors host k") fastforce+
  show "Option.bind (processors host k) procAction = Some g \<Longrightarrow> g s ty leg now = Some (Inr m) \<Longrightarrow> quietMutation m"
    using quiet [of k] unfolding quietProcessor_def by (cases "processors host k") fastforce+
qed

lemma keeps_repairTransitWalk:
  "quietHost host \<Longrightarrow> keeps (calm host) (repairTransitWalk host now cmd fingerprint leg body)"
  unfolding repairTransitWalk_def
  by (intro branch_intros keeps_commit keeps_snapshot task_intros) (auto dest: quiet_lookup(3) simp: quietMutation_def)

lemma quiet_stamp: "quietMutation (stampAction i m) = quietMutation m" "quietMutation (rerouteSuccess m) = quietMutation m"
  by (simp_all add: stampAction_def rerouteSuccess_def quietMutation_def)

lemma keeps_transitAction: "quietHost host \<Longrightarrow> keeps (calm host) (transitAction host now cmd action)"
  unfolding transitAction_def
  by (intro branch_intros keeps_show keeps_snapshot task_intros) (auto dest: quiet_lookup(4) simp: quiet_stamp)

lemma keeps_updateSettings: "quietHost host \<Longrightarrow> keeps (calm host) (updateSettings host now cmd locale units)"
  unfolding updateSettings_def commitAndShow_def
  by (intro branch_intros keeps_swap task_intros) (auto simp: settingsMutation_def Let_def)

lemma keeps_route:
  assumes "quietHost host" and "list_all otherEvent (envInterlude env)"
  shows "keeps (calm host) (route host env cmd)"
  using assms unfolding route_def
  by (auto split: CommandBody.split AuxiliaryAnswer.split option.split
      intro!: task_intros keeps_prepareSession keeps_startSession keeps_replaceSession keeps_repairTransitWalk
        keeps_transitAction keeps_updateSettings keeps_snapshot keeps_terminateSession)

lemma keeps_processBatch:
  "quietHost host \<Longrightarrow> list_all (\<lambda>a. list_all otherEvent (snd a)) attempts_left \<Longrightarrow>
     keeps (calm host) (processBatch host batch attempts_left)"
proof (induction host batch attempts_left rule: processBatch.induct)
  case (2 host batch now meanwhile retries)
  then show ?case
    unfolding processBatch.simps
    by (intro branch_intros keeps_terminate keeps_commit task_intros)
       (auto dest: quiet_lookup(2) simp: quietMutation_def)
qed (simp add: run.keeps_pure)

lemma keeps_applyReroute: "quietHost host \<Longrightarrow> keeps (calm host) (applyReroute host now jitterMs outcome)"
  unfolding applyReroute_def commitReroute_def
  by (intro branch_intros task_intros)
     (auto intro!: keeps_show(2) dest: quiet_lookup(1) simp: quiet_stamp, simp_all add: quietMutation_def rerouteFailure_def Let_def)

lemma keeps_applyTransitRefresh: "quietHost host \<Longrightarrow> keeps (calm host) (applyTransitRefresh host now outcome)"
  unfolding applyTransitRefresh_def
  by (intro branch_intros keeps_show task_intros) (simp_all add: quietMutation_def)

section \<open>Whole runs\<close>

lemma coordRun_mono: "coordRun host P c c' \<Longrightarrow> (\<And>e. P e \<Longrightarrow> Q e) \<Longrightarrow> coordRun host Q c c'"
proof -
  have "reaches step (\<lambda>_ e. P e) s s' \<Longrightarrow> (\<And>e. P e \<Longrightarrow> Q e) \<Longrightarrow> reaches step (\<lambda>_ e. Q e) s s'"
    for step :: "Tables \<Rightarrow> NavPayload repoEvent \<Rightarrow> Tables" and s s'
    by (induction rule: reaches.induct) (auto intro: reaches.intros)
  then show "coordRun host P c c' \<Longrightarrow> (\<And>e. P e \<Longrightarrow> Q e) \<Longrightarrow> coordRun host Q c c'"
    by (auto simp: coordRun_def)
qed

abbreviation anyRun :: "CoordHost \<Rightarrow> Coord \<Rightarrow> Coord \<Rightarrow> bool" where
  "anyRun host \<equiv> coordRun host (\<lambda>_. True)"

lemma keeps_any: "keeps (calm host) m \<Longrightarrow> keeps (anyRun host) m"
  unfolding keeps_def by (blast intro: coordRun_mono)

lemma keeps_remembering: "keeps (anyRun host) (remembering host env cmd response)"
proof -
  have "keeps (anyRun host) (storeTask (\<lambda>t. (Inr (), rememberCommand (store host) i sid body now t)))" for i sid body now
    by (intro keeps_steps exI [of _ "[RememberCommand i sid body now]"]) simp
  then show ?thesis unfolding remembering_def by (intro branch_intros run.keeps_rules)
qed

lemma keeps_handleCommand:
  assumes "quietHost host" and "list_all otherEvent (envInterlude env)"
  shows "keeps (anyRun host) (handleCommand host env cmd)"
  unfolding handleCommand_def executeCommand_def
  by (intro branch_intros run.keeps_rules keeps_remembering keeps_any [OF keeps_route [OF assms]]
      keeps_any [OF keeps_logs(1)] keeps_any [OF keeps_logs(2)] keeps_any [OF keeps_store(4)])

lemma keeps_stopFromSurface: "quietHost host \<Longrightarrow> keeps (calm host) (stopFromSurface host now expected)"
  unfolding stopFromSurface_def by (intro branch_intros keeps_terminateSession task_intros)

lemma keeps_startCarTrip:
  assumes "quietHost host" and "list_all otherEvent (envInterlude env)"
  shows "keeps (calm host) (startCarTrip host env trip)"
  unfolding startCarTrip_def
  by (intro branch_intros keeps_terminateSession keeps_prepareSession keeps_startSession task_intros; use assms in simp)?
     (auto intro!: branch_intros keeps_terminateSession keeps_prepareSession keeps_startSession task_intros simp: assms)

lemma step_runs:
  assumes "quietHost host" and "quietCoordEvent e"
  shows "anyRun host c (coordStep host c e)"
proof (cases e)
  case (DispatchEvent env cmd)
  with assms keeps_handleCommand [OF assms(1), of env cmd] show ?thesis by (simp add: keeps_def)
next
  case (CarEvent env trip)
  with assms keeps_any [OF keeps_startCarTrip [OF assms(1), of env trip]] show ?thesis by (simp add: keeps_def)
next
  case (SurfaceEvent now expected)
  with keeps_any [OF keeps_stopFromSurface [OF assms(1)]] show ?thesis by (simp add: keeps_def)
next
  case (BatchEvent batch first again)
  have "keeps (calm host) (handleLocationBatch host batch first again)"
    unfolding handleLocationBatch_def
    using assms BatchEvent by (intro task_intros keeps_processBatch) simp_all
  with BatchEvent show ?thesis using keeps_any by (fastforce simp: keeps_def)
next
  case (RerouteEvent now jitterMs outcome)
  with keeps_any [OF keeps_applyReroute [OF assms(1)]] show ?thesis by (simp add: keeps_def)
next
  case (RefreshEvent now outcome)
  with keeps_any [OF keeps_applyTransitRefresh [OF assms(1)]] show ?thesis by (simp add: keeps_def)
next
  case (StoreEvent e)
  have "reaches (repoStep (store host)) (\<lambda>_ e. True) (tables c) (repoStep (store host) (tables c) e)"
    by (intro reaches.intros) simp
  with StoreEvent show ?thesis by (simp add: coordRun_def)
qed

lemma runs:
  assumes "reaches (coordStep host) (\<lambda>_ e. quietCoordEvent e) c c'" and "quietHost host"
  shows "anyRun host c c'"
  using assms by (induction rule: reaches.induct) (auto intro: run.refl run.trans step_runs)

end
