(* ===== verification/Coordinator_Properties.thy ===== *)
theory Coordinator_Properties
  imports Coordinator_Runs Session_Properties "HOL-Library.Code_Target_Nat" "HOL-Library.Multiset"
begin

text \<open>
  What the coordinator guarantees: the driver only starts for a committed session, a retried command gets
  its first answer, answers of remote work that nobody waits for any more are dropped, and every effect is
  attempted in the fixed order. Two theorems show where the code falls short of its comments.
\<close>

section \<open>The command log\<close>

lemma readRevision_showInt [simp]: "readRevision (showInt n) = n"
proof (cases "n < 0")
  case True
  then show ?thesis by (simp add: readRevision_def showInt_def)
next
  case False
  obtain d ds where digits: "showNat (nat n) = d # ds" by (cases "showNat (nat n)") simp_all
  then have "isDigit d" using showNat_digits [of "nat n"] by simp
  then have "d \<noteq> CHR ''-''" by (auto simp: isDigit_def)
  then have "readRevision (d # ds) = int (parseDigits (d # ds))" by (simp add: readRevision_def split: char.split bool.split)
  then show ?thesis using False digits parseDigits_showNat [of "nat n"] by (simp add: showInt_def)
qed

lemma responseOf_responseJson [simp]: "responseOf (responseJson r) = r"
  by (cases r) (simp add: responseOf_def responseJson_def jsonRevision_def split: option.split)

definition shrunk :: "Tables \<Rightarrow> Tables \<Rightarrow> bool" where
  "shrunk t t' \<longleftrightarrow> (\<exists>P. processedCommands t' = filter P (processedCommands t))"

lemma shrunk_same: "processedCommands t' = processedCommands t \<Longrightarrow> shrunk t t'"
  by (auto simp: shrunk_def intro: exI [of _ "\<lambda>_. True"])

lemma shrunk_trans: "shrunk a b \<Longrightarrow> shrunk b c \<Longrightarrow> shrunk a c"
  by (auto simp: shrunk_def)

lemma shrunk_rows: "shrunk t (deleteSessionRows sid t)"
  by (auto simp: shrunk_def deleteSessionRows_def session_deletes)

lemma shrunk_write: "writeActive h s t = Inr t' \<Longrightarrow> shrunk t t'"
  by (rule shrunk_same) (auto simp: writeActive_def UPSERT_ACTIVE_def split: if_splits)

lemma shrunk_create: "shrunk t (snd (createPreparing h s t))"
proof -
  have "shrunk t t'" if "writeActive h s (deleteSessionRows sid t) = Inr t'" for sid t'
    using shrunk_trans [OF shrunk_rows shrunk_write [OF that]] .
  then show ?thesis
    by (auto simp: createPreparing_def withExclusiveTransaction_def Let_def shrunk_same shrunk_write
        split: option.split sum.split)
qed

lemma shrunk_swap: "shrunk t (snd (compareAndSwap h sid n mutate now t))"
proof -
  have commit: "shrunk t t'" if "commitMutation h sid n now m t = Inr (r, t')" for m r t'
    using that by (rule commitMutation_Inr) (simp add: shrunk_same)
  show ?thesis
    by (auto simp: compareAndSwap_def withExclusiveTransaction_def shrunk_same commit
        split: option.split sum.split prod.split)
qed

lemma shrunk_terminate: "shrunk t (snd (terminate h sid final now t))"
proof -
  have "shrunk t (deleteSessionRows sid t')" if "UPSERT_TERMINAL_ACK ack t = Inr t'" for ack t'
    using that shrunk_trans [OF shrunk_same shrunk_rows]
    by (auto simp: UPSERT_TERMINAL_ACK_def split: if_splits)
  then show ?thesis
    by (auto simp: terminate_def withExclusiveTransaction_def Let_def shrunk_same split: option.split sum.split)
qed

lemma shrunk_quarantine: "shrunk t (quarantineCorruptSession sid why now t)"
  by (auto simp: shrunk_def quarantineCorruptSession_def TRIM_QUARANTINE_def INSERT_QUARANTINE_def session_deletes Let_def
      intro: exI [of _ "\<lambda>_. True"] split: option.split)

lemma shrunk_alerts: "shrunk t (snd (replaceScheduledAlerts sid inputs now t))"
proof -
  have "shrunk t t'" if "replaceAlertsIn sid inputs now t = Inr t'" for t'
    using that by (rule replaceAlerts_Inr) (simp add: shrunk_same)
  then show ?thesis
    by (auto simp: replaceScheduledAlerts_def withExclusiveTransaction_def shrunk_same split: sum.split)
qed

lemma shrunk_ack: "shrunk t (ackEvents ids t)"
  by (rule shrunk_same) (induction ids arbitrary: t, simp_all add: ackEvents_def DELETE_EVENT_def)

lemma commands_shrink:
  assumes "\<not> remembers e"
  shows "shrunk t (repoStep h t e)"
proof (cases e)
  case (InspectEvent now)
  then show ?thesis
    by (auto simp: inspectActive_def shrunk_same shrunk_quarantine split: option.split sum.split)
qed (use assms in \<open>simp_all add: shrunk_create shrunk_swap shrunk_terminate shrunk_quarantine shrunk_alerts shrunk_ack
      shrunk_same enqueueEvent_def markAlert_def UPDATE_ALERT_STATE_def recordDiagnostic_def INSERT_DIAGNOSTIC_def
      clearDiagnostics_def DELETE_ALL_DIAGNOSTICS_def Let_def\<close>)

lemma calm_commands:
  assumes "calm host c c'"
  shows "shrunk (tables c) (tables c')"
proof -
  have "reaches (repoStep h) (\<lambda>_ e. \<not> remembers e) t t' \<Longrightarrow> shrunk t t'" for h :: "NavPayload SessionHost" and t t'
    by (induction rule: reaches.induct) (auto intro: shrunk_same shrunk_trans commands_shrink)
  with assms show ?thesis by (auto simp: coordRun_def)
qed

lemma remember_fresh:
  assumes "SELECT_PROCESSED_COMMAND i t = None" and "length (processedCommands t) < MAX_PROCESSED_COMMANDS"
  shows "SELECT_PROCESSED_COMMAND i (rememberCommand h i owner response now t) =
    Some \<lparr>cmMessageId = i, cmSessionId = owner, cmResponse = stringifyJson h response, cmCreatedAtMs = now,
          cmExpiresAtMs = now + PROCESSED_COMMAND_TTL_MS\<rparr>"
proof -
  let ?row = "\<lparr>cmMessageId = i, cmSessionId = owner, cmResponse = stringifyJson h response, cmCreatedAtMs = now,
          cmExpiresAtMs = now + PROCESSED_COMMAND_TTL_MS\<rparr>"
  have absent: "\<forall>c \<in> set (processedCommands t). cmMessageId c \<noteq> i"
    using assms(1) by (auto simp: SELECT_PROCESSED_COMMAND_def find_None_iff)
  define kept where "kept = filter (\<lambda>c. \<not> cmExpiresAtMs c \<le> now) (processedCommands t)"
  have inserted: "processedCommands (DELETE_EXPIRED_COMMANDS now (INSERT_PROCESSED_COMMAND ?row t)) = kept @ [?row]"
    using absent by (auto simp: DELETE_EXPIRED_COMMANDS_def INSERT_PROCESSED_COMMAND_def kept_def list_ex_iff PROCESSED_COMMAND_TTL_MS_def)
  have "length (kept @ [?row]) \<le> MAX_PROCESSED_COMMANDS"
  proof -
    have "length kept \<le> length (processedCommands t)" by (simp add: kept_def)
    with assms(2) show ?thesis by simp
  qed
  then have "drop MAX_PROCESSED_COMMANDS (newestCommands (kept @ [?row])) = []" by simp
  then have "processedCommands (rememberCommand h i owner response now t) = kept @ [?row]"
    unfolding rememberCommand_def TRIM_PROCESSED_COMMANDS_def Let_def inserted by (simp add: inserted)
  moreover have "find (\<lambda>c. cmMessageId c = i) kept = None" using absent by (auto simp: kept_def find_None_iff)
  ultimately show ?thesis by (simp add: SELECT_PROCESSED_COMMAND_def find_append)
qed

lemma handle_fresh:
  assumes "MUTATING (cmdBody cmd)" and "SELECT_PROCESSED_COMMAND (cmdMessageId cmd) (tables c) = None"
  shows "handleCommand host env cmd c = executeCommand host env cmd c"
  using assms by (simp add: handleCommand_def andThen_def storeTask_def lookupCommand_def)

lemma execute_remembers:
  assumes "MUTATING (cmdBody cmd)" and "executeCommand host env cmd c = (Inr (Some r), c1)"
    and "quietHost host" and "list_all otherEvent (envInterlude env)"
  obtains t where "shrunk (tables c) t"
    "tables c1 = rememberCommand (store host) (cmdMessageId cmd) (respSessionId r) (responseJson r) (envNow env) t"
proof -
  let ?attempt = "catching (route host env cmd)
        (andThen (record_diagnostic ''typed.error'' [(''scope'', ''command''), (''type'', commandType (cmdBody cmd))])
           (\<lambda>_. respondWith (failWith ''internal-error'' (cmdMessageId cmd))))"
  obtain result c0 where attempt: "?attempt c = (result, c0)" by fastforce
  have "keeps (calm host) ?attempt"
    using keeps_route [OF assms(3,4)] by (intro task_intros)
  then have "calm host c (snd (?attempt c))" unfolding keeps_def by (rule spec)
  then have "shrunk (tables c) (tables c0)" unfolding attempt snd_conv by (rule calm_commands)
  moreover have "tables c1 = rememberCommand (store host) (cmdMessageId cmd) (respSessionId r) (responseJson r) (envNow env) (tables c0)"
  proof -
    let ?rest = "\<lambda>response. andThen (remembering host env cmd response) (\<lambda>_.
        andThen (case response of None \<Rightarrow> done_with () | Some r \<Rightarrow> replying r (cmdMessageId cmd)) (\<lambda>_. done_with response))"
    have run: "(case result of Inl e \<Rightarrow> (Inl e, c0) | Inr v \<Rightarrow> ?rest v c0) = (Inr (Some r), c1)"
      using assms(2) unfolding executeCommand_def andThen_def [of ?attempt] attempt by simp
    have rest: "?rest None c0 = (Inr None, c0)"
      "?rest (Some r') c0 = (Inr (Some r'), c0\<lparr>tables := rememberCommand (store host) (cmdMessageId cmd) (respSessionId r')
          (responseJson r') (envNow env) (tables c0), replyLog := replyLog c0 @ [(r', cmdMessageId cmd)]\<rparr>)" for r'
      using assms(1) by (simp_all add: remembering_def andThen_def done_with_def replying_def storeTask_def)
    from run rest obtain v where v: "result = Inr v" by (cases result) auto
    with run rest(1) obtain r' where "v = Some r'" by (cases v) (auto simp del: andThen_def)
    with run rest(2) [of r'] v show ?thesis by auto
  qed
  ultimately show thesis using that by blast
qed

section \<open>Effects\<close>

lemma executeAll_log:
  "\<exists>new. effectLog (snd (executeAll host es c)) = effectLog c @ new \<and> map recordedEffect new = es \<and>
     fst (executeAll host es c) = length (filter recordedFailed new)"
proof (induction es arbitrary: c)
  case (Cons e es)
  obtain failed c1 where step: "executeEffect host e c = (failed, c1)" by fastforce
  then have log: "effectLog c1 = effectLog c @ [\<lparr>recordedRow = activeNavigation (tables c), recordedEffect = e, recordedFailed = failed\<rparr>]"
    by (auto simp: executeEffect_def Let_def)
  from Cons.IH [of c1] obtain new where "effectLog (snd (executeAll host es c1)) = effectLog c1 @ new"
    "map recordedEffect new = es" "fst (executeAll host es c1) = length (filter recordedFailed new)" by blast
  then show ?case
    by (intro exI [of _ "\<lparr>recordedRow = activeNavigation (tables c), recordedEffect = e, recordedFailed = failed\<rparr> # new"])
       (simp add: step log case_prod_beta)
qed simp

text \<open>The ports of the effects cannot write session state: they leave the active row as it is.\<close>

definition effectsKeepRow :: "CoordHost \<Rightarrow> bool" where
  "effectsKeepRow host \<longleftrightarrow>
     (\<forall>e t. activeNavigation (foldl (repoStep (store host)) t (effectWrites host e t)) = activeNavigation t)"

lemma executeAll_row:
  "effectsKeepRow host \<Longrightarrow> activeNavigation (tables (snd (executeAll host es c))) = activeNavigation (tables c)"
  by (induction es arbitrary: c) (auto simp: executeEffect_def Let_def effectsKeepRow_def case_prod_beta)

lemma runEffects_result:
  obtains new where "effectLog (snd (runEffects host es c)) = effectLog c @ new" "map recordedEffect new = sort_key effectOrder es"
    "fst (runEffects host es c) = Inr (length (filter recordedFailed new))"
  using executeAll_log [of host "sort_key effectOrder es" c] by (auto simp: runEffects_def case_prod_beta)

lemma runEffects_row:
  "effectsKeepRow host \<Longrightarrow> activeNavigation (tables (snd (runEffects host es c))) = activeNavigation (tables c)"
  by (simp add: runEffects_def case_prod_beta executeAll_row)

lemma effectEvent_acks: "effectEvent e \<Longrightarrow> terminalAcks (repoStep h t e) = terminalAcks t"
proof (cases e)
  case (InspectEvent now)
  then show ?thesis
    by (auto simp: inspectActive_def quarantineCorruptSession_def TRIM_QUARANTINE_def INSERT_QUARANTINE_def session_deletes Let_def
        split: option.split sum.split)
next
  case (ReplaceAlerts sid inputs now)
  show ?thesis
  proof (cases "replaceAlertsIn sid inputs now t")
    case (Inr t')
    then have "terminalAcks t' = terminalAcks t" by (rule replaceAlerts_Inr) simp
    with ReplaceAlerts Inr show ?thesis by (simp add: replaceScheduledAlerts_def withExclusiveTransaction_def)
  qed (use ReplaceAlerts in \<open>simp add: replaceScheduledAlerts_def withExclusiveTransaction_def\<close>)
qed (simp_all add: recordDiagnostic_def INSERT_DIAGNOSTIC_def markAlert_def UPDATE_ALERT_STATE_def Let_def)

lemma runEffects_acks:
  assumes "quietHost host"
  shows "terminalAcks (tables (snd (runEffects host es c))) = terminalAcks (tables c)"
proof -
  have fold: "list_all effectEvent evs \<Longrightarrow> terminalAcks (foldl (repoStep h) t evs) = terminalAcks t"
    for evs and h :: "NavPayload SessionHost" and t
    by (induction evs arbitrary: t) (simp_all add: effectEvent_acks)
  have "terminalAcks (tables (snd (executeAll host es' c))) = terminalAcks (tables c)" for es'
    by (induction es' arbitrary: c)
       (use assms fold in \<open>auto simp: executeEffect_def Let_def quietHost_def case_prod_beta\<close>)
  then show ?thesis by (simp add: runEffects_def case_prod_beta)
qed

lemma load_Some:
  assumes "loadActive h now t = (Some s, t')"
  shows "t' = t" "\<exists>row. activeNavigation t = Some row \<and> parseMobileSession h (arJson row) = Inr s"
  using assms by (auto simp: loadActive_def inspectActive_def split: option.splits sum.splits)

section \<open>Ending and starting\<close>

lemma terminate_result:
  assumes "storeTask (terminate h (sessionId s) final now) c = (Inr (ack, effects), c')"
    and "activeNavigation (tables c) = Some (activeRow h s)"
  shows "activeNavigation (tables c') = None" "effectLog c' = effectLog c" "effects = terminationEffects (sessionId s)"
    "\<exists>a. ack = Some a \<and> finalStatus a = final \<and> finalRevision a = revision s"
    "\<exists>b. readTerminalAck (sessionId s) (tables c') = Some b \<and> finalStatus b = final \<and> finalRevision b = revision s"
proof -
  have stored: "\<exists>b. find (\<lambda>a. ackSessionId a = ackSessionId x) (upsertAck x as) = Some b \<and>
      finalStatus b = finalStatus x \<and> finalRevision b = finalRevision x" for x as
    by (induction as) auto
  define x where "x = \<lparr>ackSessionId = sessionId s,
    ackKind = (case parseMobileSession h (stringifySession h s) of Inr s' \<Rightarrow> sessionKind s' | Inl _ \<Rightarrow> KindGround),
    finalStatus = final, finalRevision = revision s, completedAtMs = now\<rparr>"
  have result: "terminate h (sessionId s) final now (tables c) =
      (if revision s < 0 then (Inl CheckViolated, tables c)
       else (Inr (Some x, terminationEffects (sessionId s)),
             deleteSessionRows (sessionId s) ((tables c)\<lparr>terminalAcks := upsertAck x (terminalAcks (tables c))\<rparr>)))"
    using assms(2) by (simp add: terminate_def withExclusiveTransaction_def Let_def activeRow_def UPSERT_TERMINAL_ACK_def x_def)
  with assms(1) have x: "ackSessionId x = sessionId s" "finalStatus x = final" "finalRevision x = revision s" "ack = Some x"
    "effects = terminationEffects (sessionId s)"
    "c' = c\<lparr>tables := deleteSessionRows (sessionId s) ((tables c)\<lparr>terminalAcks := upsertAck x (terminalAcks (tables c))\<rparr>)\<rparr>"
    by (auto simp: storeTask_def x_def split: if_splits)
  show "activeNavigation (tables c') = None" "effectLog c' = effectLog c" "effects = terminationEffects (sessionId s)"
    "\<exists>a. ack = Some a \<and> finalStatus a = final \<and> finalRevision a = revision s"
    using x by (simp_all add: deleteSessionRows_def session_deletes)
  show "\<exists>b. readTerminalAck (sessionId s) (tables c') = Some b \<and> finalStatus b = final \<and> finalRevision b = revision s"
    using stored [of x] x by (simp add: readTerminalAck_def SELECT_TERMINAL_ACK_def deleteSessionRows_def session_deletes)
qed

lemma finish_result:
  assumes "effectsKeepRow host" and "finishStart host now i s failed c = (Inr r, c')"
    and "activeNavigation (tables c) = Some (activeRow (store host) s)"
  shows "failed = 0 \<Longrightarrow> r = sessionResponse ''session.started'' s \<and> c' = c"
    and "0 < failed \<Longrightarrow> r = errorResponse ''driver-start-failed'' i \<and> activeNavigation (tables c') = None \<and>
      (\<exists>new. effectLog c' = effectLog c @ new \<and> StopLocation \<in> set (map recordedEffect new))"
proof -
  show "failed = 0 \<Longrightarrow> r = sessionResponse ''session.started'' s \<and> c' = c"
    using assms(2) by (simp add: finishStart_def done_with_def)
  assume "0 < failed"
  obtain v c1 where stop: "storeTask (terminate (store host) (sessionId s) FinalError now) c = (v, c1)" by fastforce
  with assms(2) \<open>0 < failed\<close> obtain ack effects where v: "v = Inr (ack, effects)"
    by (cases v) (auto simp: finishStart_def andThen_def [of "storeTask _"])
  note ended = terminate_result [OF stop [unfolded v] assms(3)]
  obtain new where new: "effectLog (snd (runEffects host effects c1)) = effectLog c1 @ new"
    "map recordedEffect new = sort_key effectOrder effects" "fst (runEffects host effects c1) = Inr (length (filter recordedFailed new))"
    by (rule runEffects_result)
  have "(Inr r, c') = (Inr (errorResponse ''driver-start-failed'' i), snd (runEffects host effects c1))"
    using assms(2) \<open>0 < failed\<close> stop v new(3)
    by (cases "runEffects host effects c1") (simp add: finishStart_def andThen_def failWith_def done_with_def)
  moreover have "StopLocation \<in> set (map recordedEffect new)"
    unfolding new(2) ended(3) by (simp add: terminationEffects_def)
  ultimately show "r = errorResponse ''driver-start-failed'' i \<and> activeNavigation (tables c') = None \<and>
      (\<exists>new. effectLog c' = effectLog c @ new \<and> StopLocation \<in> set (map recordedEffect new))"
    using new(1) ended(1,2) runEffects_row [OF assms(1)] by auto
qed

definition startedAs :: "CoordHost \<Rightarrow> Coord \<Rightarrow> CommandResponse \<Rightarrow> Coord \<Rightarrow> bool" where
  "startedAs host c r c' \<longleftrightarrow>
     (\<exists>s new. activeNavigation (tables c') = Some (activeRow (store host) s) \<and> sessionStatus s = StatusActive \<and>
        r = sessionResponse ''session.started'' s \<and> effectLog c' = effectLog c @ new \<and>
        map recordedEffect new = [StartLocation (permissionMode s), PublishSnapshot True] \<and> filter recordedFailed new = [])"

definition startUndone :: "Coord \<Rightarrow> Coord \<Rightarrow> bool" where
  "startUndone c c' \<longleftrightarrow> activeNavigation (tables c') = None \<and>
     (\<exists>new. effectLog c' = effectLog c @ new \<and> StopLocation \<in> set (map recordedEffect new))"

lemma activate_result:
  assumes "effectsKeepRow host" and "activateSession host now i mode current c = (Inr r, c')"
  shows "(\<exists>f. r = errorResponse (failureCode f) i) \<or> startedAs host c r c' \<or>
    r = errorResponse ''driver-start-failed'' i \<and> startUndone c c'"
proof -
  let ?swap = "storeTask (compareAndSwap (store host) (sessionId current) (revision current) (\<lambda>s. Inr (startMutation mode now s)) now)"
  obtain v c1 where swap: "?swap c = (v, c1)" by fastforce
  then have log1: "effectLog c1 = effectLog c" by (auto simp: storeTask_def split: prod.splits sum.splits)
  show ?thesis
  proof (cases "\<exists>s effects. v = Inr (Inr (s, effects))")
    case False
    with assms(2) swap have "\<exists>f. r = errorResponse (failureCode f) i"
      by (cases v) (auto simp: activateSession_def andThen_def [of ?swap] failWith_def done_with_def split: sum.splits)
    then show ?thesis by blast
  next
    case True
    then obtain s effects where v: "v = Inr (Inr (s, effects))" by blast
    note facts = start_committed [OF swap [unfolded v]]
    obtain new where new: "effectLog (snd (runEffects host effects c1)) = effectLog c1 @ new"
      "map recordedEffect new = sort_key effectOrder effects" "fst (runEffects host effects c1) = Inr (length (filter recordedFailed new))"
      by (rule runEffects_result)
    let ?c2 = "snd (runEffects host effects c1)"
    have row: "activeNavigation (tables ?c2) = Some (activeRow (store host) s)"
      using facts(6) runEffects_row [OF assms(1)] by simp
    have finish: "finishStart host now i s (length (filter recordedFailed new)) ?c2 = (Inr r, c')"
      using assms(2) swap v new(3)
      by (cases "runEffects host effects c1") (simp add: activateSession_def andThen_def [of ?swap] andThen_def [of "runEffects _ _"])
    show ?thesis
    proof (cases "filter recordedFailed new = []")
      case True
      with finish_result(1) [OF assms(1) finish row] have "r = sessionResponse ''session.started'' s" "c' = ?c2" by auto
      moreover have "map recordedEffect new = [StartLocation (permissionMode s), PublishSnapshot True]"
        unfolding new(2) facts(1) start_effects using facts(3) by simp
      ultimately have "startedAs host c r c'"
        unfolding startedAs_def using row new(1) log1 facts(2) True by auto
      then show ?thesis by blast
    next
      case False
      with finish_result(2) [OF assms(1) finish row] new(1) log1 show ?thesis by (auto simp: startUndone_def)
    qed
  qed
qed

section \<open>An example\<close>

definition sampleSession :: "SessionStatus \<Rightarrow> int \<Rightarrow> NavSession" where
  "sampleSession status n =
     \<lparr>sessionId = ''s'', revision = n, sessionKind = KindGround, sessionStatus = status, startedAtMs = 0,
      updatedAtMs = 0, expiresAtMs = 10, sessionConnectivity = ConnOnline, permissionMode = ModeBackground,
      cueLedger = \<lparr>ledgerSpoken = [], ledgerEvents = []\<rparr>, lastAcceptedFixMs = None,
      sessionPayload =
        \<lparr>npPackage = \<lparr>pkgItinerary = JNull, pkgCaptures = JNull, pkgFingerprint = [], pkgRest = JNull\<rparr>,
         npTick = \<lparr>tickPhase = [], tickLegIndex = 0, tickWalkRevision = None, tickLastActionId = None, tickWalkStepIndex = 0,
                   tickReachedStepEnd = False, tickDistance = None, tickRest = JNull\<rparr>,
         npRefresh = freshRefresh, npRefreshToken = None, npDataRevision = None, npProgress = JNull,
         npReroute = onRerouteSucceeded, npLocale = [], npUnits = [], npRest = JNull\<rparr>\<rparr>"

definition sampleStop :: CommandResponse where
  "sampleStop = stoppedResponse ''s'' (Some ''s'') FinalStopped 1"

definition sampleStore :: "NavPayload SessionHost" where
  "sampleStore =
     \<lparr>stringifySession = (\<lambda>s. if sessionStatus s = StatusPreparing then ''p'' else if revision s = 1 then ''a'' else ''b''),
      sessionJson = (\<lambda>raw. if raw = ''!'' then Some (responseJson sampleStop)
                            else Some (JObj [(''schemaVersion'', JNum ''2''), (''raw'', JStr raw)])),
      sessionShape = (\<lambda>j. if jsonProp ''raw'' j = Some (JStr ''p'') then Some (sampleSession StatusPreparing 0)
                           else if jsonProp ''raw'' j = Some (JStr ''a'') then Some (sampleSession StatusActive 1)
                           else Some (sampleSession StatusActive 2)),
      stringifyJson = (\<lambda>_. ''!'')\<rparr>"

definition sampleProcessor :: Processor where
  "sampleProcessor =
     \<lparr>needsScheduleTicks = False,
      procPrepare = (\<lambda>_ _ _ _. Some (Inr (sampleSession StatusPreparing 0))),
      procFixes = (\<lambda>_ _ _. None),
      procReplace = (\<lambda>_ _ _. Some (Inr \<lparr>mutSession = sampleSession StatusActive 2, mutEffects = [CancelSessionAlerts ''s''],
                                        mutEnqueue = [], mutAlerts = None\<rparr>)),
      procWalk = None, procAction = None\<rparr>"

definition sampleHost :: CoordHost where
  "sampleHost =
     \<lparr>store = sampleStore, processors = (\<lambda>_. Some sampleProcessor), effectThrows = (\<lambda>_ _. False),
      effectWrites = (\<lambda>_ _. []), fullSnapshot = (\<lambda>_. JNull), transitStartPackageSchema = (\<lambda>_. None),
      mergeTransitRefresh = (\<lambda>_ _ _ _. None), refreshTransitCaptures = (\<lambda>_ _ _ _. JNull), transitProgress = (\<lambda>_ _ _. JNull)\<rparr>"

definition sampleEnv :: "int \<Rightarrow> CommandEnv" where
  "sampleEnv now =
     \<lparr>envNow = now, envSessionId = ''s'', envContext = PhoneContext True, envPermission = Some ''background'',
      envDecision = Some (StartGranted ModeBackground), envInterlude = [], envAuxiliary = AuxiliaryAbsent\<rparr>"

definition sampleCommand :: "string \<Rightarrow> CommandBody \<Rightarrow> Command" where
  "sampleCommand i body = \<lparr>cmdMessageId = i, cmdSessionId = Some ''s'', cmdRevision = None, cmdBody = body\<rparr>"

definition samplePrepared :: Coord where
  "samplePrepared = coordStep sampleHost initialCoord
     (DispatchEvent (sampleEnv 0) (sampleCommand ''m1'' (SessionPrepare \<lparr>packageKind = KindGround, packageBody = JNull\<rparr>)))"

definition sampleStarted :: Coord where
  "sampleStarted = coordStep sampleHost samplePrepared (DispatchEvent (sampleEnv 1) (sampleCommand ''m2'' SessionStart))"

lemma sample_quiet: "quietHost sampleHost" "effectsKeepRow sampleHost"
  by (auto simp: quietHost_def quietProcessor_def quietMutation_def effectsKeepRow_def sampleHost_def sampleProcessor_def)

lemma sample_reaches: "reaches (coordStep sampleHost) (\<lambda>_ e. quietCoordEvent e) initialCoord sampleStarted"
  unfolding sampleStarted_def samplePrepared_def by (intro reaches.intros) (simp_all add: sampleEnv_def)

lemma sample_facts:
  "map recordedEffect (effectLog sampleStarted) = [StartLocation ModeBackground, PublishSnapshot True]"
  "map (respType \<circ> fst) (replyLog sampleStarted) = [''session.prepared'', ''session.started'']"
  "map cmMessageId (processedCommands (tables sampleStarted)) = [''m1'', ''m2'']"
  by code_simp+

definition sampleActive :: Coord where
  "sampleActive = initialCoord\<lparr>tables := repoStep sampleStore emptyTables (CreatePreparing (sampleSession StatusActive 1))\<rparr>"

lemma sample_store_ok: "storeOk (store sampleHost) (tables sampleActive)"
proof -
  have "storable sampleStore (sampleSession StatusActive 1)"
    by (simp add: storable_def parseMobileSession_def sampleStore_def mobileNavigationSessionSchema_def ledgerRefine_def
        hasCoherentLifetime_def sampleSession_def MOBILE_NAVIGATION_SESSION_SCHEMA_VERSION_def
        MOBILE_NAVIGATION_SESSION_MAX_AGE_MS_def)
  then have "storableEvent sampleStore emptyTables (CreatePreparing (sampleSession StatusActive 1))" by simp
  from reaches.event [where step = "repoStep sampleStore" and e = "CreatePreparing (sampleSession StatusActive 1)"
      and allowed = "storableEvent sampleStore" and s = emptyTables and init = emptyTables, OF reaches.here this]
  have "reaches (repoStep sampleStore) (storableEvent sampleStore) emptyTables (tables sampleActive)"
    by (simp add: sampleActive_def)
  then show ?thesis using repo.reaches_inv [OF _ storeOk_empty] by (simp add: sampleHost_def)
qed

lemma sample_loads:
  "fst (loadActive (store sampleHost) 2 (tables sampleStarted)) = Some (sampleSession StatusActive 1)"
  "fst (loadActive (store sampleHost) 20 (tables sampleStarted)) = Some (sampleSession StatusActive 1)"
  "fst (loadActive (store sampleHost) 2 (tables sampleActive)) = Some (sampleSession StatusActive 1)"
  "fst (loadActive (store sampleHost) 20 (tables sampleActive)) = Some (sampleSession StatusActive 1)"
  by code_simp+

lemma fst_eqE: "fst p = x \<Longrightarrow> (\<And>y. p = (x, y) \<Longrightarrow> thesis) \<Longrightarrow> thesis"
  by (cases p) simp

section \<open>Properties\<close>

text \<open>
  C12. Commit before effects: in every run, the location driver is only started at a moment when the store
  holds a session that is active and has the permission mode the driver is started with; and the
  store only moves by the methods of the repository. The runs are those in which no processor asks to start the
  driver and no other part of the app ends the session while a handler waits.
\<close>

theorem coordinator_starts_committed:
  assumes "reaches (coordStep host) (\<lambda>_ e. quietCoordEvent e) initialCoord c" and "quietHost host"
  shows "reaches (repoStep (store host)) (\<lambda>_ _. True) emptyTables (tables c) \<and>
    (\<forall>r mode. r \<in> set (effectLog c) \<longrightarrow> recordedEffect r = StartLocation mode \<longrightarrow>
       (\<exists>s. recordedRow r = Some (activeRow (store host) s) \<and> sessionStatus s = StatusActive \<and> permissionMode s = mode))"
  using runs [OF assms] by (fastforce simp: coordRun_def initialCoord_def list_all_iff startCommitted_def)

theorem coordinator_starts_committed_witness:
  "\<exists>r s. r \<in> set (effectLog sampleStarted) \<and> recordedRow r = Some (activeRow sampleStore s) \<and> sessionStatus s = StatusActive"
proof -
  obtain r where "r \<in> set (effectLog sampleStarted)" "recordedEffect r = StartLocation ModeBackground"
    using sample_facts(1) by (cases "effectLog sampleStarted") auto
  with coordinator_starts_committed [OF sample_reaches sample_quiet(1)] show ?thesis by (fastforce simp: sampleHost_def)
qed

text \<open>
  C13. A retry gets the first answer: a mutating command that was answered is answered again with the very
  same response, without running it, when its message id comes in again within 24 hours, in whatever state
  the app is by then, as long as the log still has the row that the answer left. Remembering other commands
  drops rows only beyond the limit or past their expiry; the end of the session of the answer drops its rows, and
  after it the id runs anew. (The id was not in the log before, and the log has room.)
\<close>

theorem command_replayed:
  assumes "MUTATING (cmdBody cmd)" and "handleCommand host env cmd c = (Inr (Some r), c1)"
    and "SELECT_PROCESSED_COMMAND (cmdMessageId cmd) (tables c) = None"
    and "length (processedCommands (tables c)) < MAX_PROCESSED_COMMANDS"
    and "quietHost host" and "list_all otherEvent (envInterlude env)"
    and "sessionJson (store host) (stringifyJson (store host) (responseJson r)) = Some (responseJson r)"
    and "MUTATING (cmdBody cmd')" and "cmdMessageId cmd' = cmdMessageId cmd"
    and "SELECT_PROCESSED_COMMAND (cmdMessageId cmd) (tables c2) = SELECT_PROCESSED_COMMAND (cmdMessageId cmd) (tables c1)"
    and "envNow env' < envNow env + PROCESSED_COMMAND_TTL_MS"
  shows "handleCommand host env' cmd' c2 = (Inr (Some r), c2\<lparr>replyLog := replyLog c2 @ [(r, cmdMessageId cmd)]\<rparr>)"
proof -
  have "executeCommand host env cmd c = (Inr (Some r), c1)" using handle_fresh [OF assms(1,3)] assms(2) by simp
  then obtain t where t: "shrunk (tables c) t"
    "tables c1 = rememberCommand (store host) (cmdMessageId cmd) (respSessionId r) (responseJson r) (envNow env) t"
    by (rule execute_remembers [OF assms(1) _ assms(5,6)])
  from t(1) obtain P where P: "processedCommands t = filter P (processedCommands (tables c))" by (auto simp: shrunk_def)
  have "SELECT_PROCESSED_COMMAND (cmdMessageId cmd) t = None"
    using assms(3) P by (auto simp: SELECT_PROCESSED_COMMAND_def find_None_iff)
  moreover have "length (processedCommands t) \<le> length (processedCommands (tables c))" using P by simp
  ultimately have "SELECT_PROCESSED_COMMAND (cmdMessageId cmd) (tables c1) =
      Some \<lparr>cmMessageId = cmdMessageId cmd, cmSessionId = respSessionId r, cmResponse = stringifyJson (store host) (responseJson r),
            cmCreatedAtMs = envNow env, cmExpiresAtMs = envNow env + PROCESSED_COMMAND_TTL_MS\<rparr>"
    unfolding t(2) using assms(4) by (intro remember_fresh) simp_all
  then have "lookupCommand (store host) (cmdMessageId cmd) (envNow env') (tables c2) = Inr (Some (responseJson r))"
    using assms(7,10,11) by (simp add: lookupCommand_def)
  with assms(8,9) show ?thesis
    by (simp add: handleCommand_def andThen_def storeTask_def replying_def done_with_def)
qed

theorem command_replayed_witness:
  "\<exists>c1. snd (handleCommand sampleHost (sampleEnv 2) (sampleCommand ''m3'' SessionStop) sampleStarted) = c1 \<and>
     handleCommand sampleHost (sampleEnv 5) (sampleCommand ''m3'' SessionStop) c1 =
       (Inr (Some sampleStop), c1\<lparr>replyLog := replyLog c1 @ [(sampleStop, ''m3'')]\<rparr>)"
proof -
  have "fst (handleCommand sampleHost (sampleEnv 2) (sampleCommand ''m3'' SessionStop) sampleStarted) = Inr (Some sampleStop)"
    by code_simp
  then obtain c1 where run: "handleCommand sampleHost (sampleEnv 2) (sampleCommand ''m3'' SessionStop) sampleStarted = (Inr (Some sampleStop), c1)"
    by (rule fst_eqE)
  have ids: "map cmMessageId (processedCommands (tables sampleStarted)) = [''m1'', ''m2'']" by (rule sample_facts(3))
  then have "length (processedCommands (tables sampleStarted)) = 2" by (metis length_map list.size(3,4) numeral_2_eq_2 One_nat_def add_Suc_right add_0_right)
  moreover have "SELECT_PROCESSED_COMMAND ''m3'' (tables sampleStarted) = None"
    using ids by (auto simp: SELECT_PROCESSED_COMMAND_def find_None_iff map_eq_Cons_conv)
  ultimately show ?thesis
    using command_replayed [OF _ run, of "sampleCommand ''m3'' SessionStop" c1 "sampleEnv 5"] sample_quiet(1) run
    by (simp add: sampleCommand_def sampleEnv_def sampleHost_def sampleStore_def MAX_PROCESSED_COMMANDS_def PROCESSED_COMMAND_TTL_MS_def)
qed

text \<open>
  Every effect is attempted exactly once, in the fixed order, whatever fails before it, and the number
  reported is the number of failures.
\<close>

theorem effects_all_attempted:
  "\<exists>new. effectLog (snd (runEffects host es c)) = effectLog c @ new \<and>
     mset (map recordedEffect new) = mset es \<and> sorted (map (effectOrder \<circ> recordedEffect) new) \<and>
     fst (runEffects host es c) = Inr (length (filter recordedFailed new))"
proof (rule runEffects_result [of host es c])
  fix new
  assume new: "effectLog (snd (runEffects host es c)) = effectLog c @ new" "map recordedEffect new = sort_key effectOrder es"
    "fst (runEffects host es c) = Inr (length (filter recordedFailed new))"
  have "map (effectOrder \<circ> recordedEffect) new = map effectOrder (map recordedEffect new)" by simp
  with new show ?thesis by (metis mset_sort sorted_sort_key)
qed

text \<open>
  Answers of remote work that the session no longer waits for change nothing: a reroute or refresh answer
  for another session, another request or another generation, or for a session that is not active.
\<close>

theorem stale_answers_dropped:
  assumes "loadActive (store host) now (tables c) = (Some s, t)"
  shows "(sessionStatus s \<noteq> StatusActive \<or> sessionId s \<noteq> rerouteSession reroute \<or>
       rerouteRequestId (npReroute (sessionPayload s)) \<noteq> Some (rerouteRequest reroute) \<longrightarrow>
     applyReroute host now jitterMs reroute c = (Inr (), c)) \<and>
    (sessionStatus s \<noteq> StatusActive \<or> sessionId s \<noteq> refreshSession refresh \<or>
       \<not> isCurrentGeneration (npRefresh (sessionPayload s)) (refreshGeneration refresh) (refreshRequest refresh) \<longrightarrow>
     applyTransitRefresh host now refresh c = (Inr (), c))"
proof -
  have "loadSession host now c = (Inr (Some s), c)"
    using assms load_Some(1) [OF assms] by (simp add: loadSession_def)
  then show ?thesis
    by (auto simp: applyReroute_def commitReroute_def applyTransitRefresh_def catching_def andThen_def done_with_def
        isCurrentGeneration_def Let_def)
qed

theorem stale_answers_dropped_witness:
  "applyReroute sampleHost 2 0 \<lparr>rerouteSession = ''s'', rerouteRequest = ''old'', rerouteResult = Inr JNull\<rparr> sampleStarted =
     (Inr (), sampleStarted)"
proof -
  obtain t where "loadActive (store sampleHost) 2 (tables sampleStarted) = (Some (sampleSession StatusActive 1), t)"
    using sample_loads(1) by (rule fst_eqE)
  from stale_answers_dropped [OF this] show ?thesis by (simp add: sampleSession_def onRerouteSucceeded_def)
qed

text \<open>
  C37. A replacement commits but does not carry out its effects: when a session is replaced, the committed
  mutation of the processor may ask to cancel the alerts of the old itinerary, but no effect is run.
\<close>

theorem replace_skips_effects:
  assumes "replaceSession host now cmd pkg expected c = (Inr r, c')" and "respType r = ''session.replaced''"
  shows "effectLog c' = effectLog c \<and>
    (\<exists>processor current m. processors host (sessionKind current) = Some processor \<and>
       procReplace processor current (packageBody pkg) now = Some (Inr m) \<and>
       activeNavigation (tables c') = Some (activeRow (store host) (mutSession m)))"
proof -
  obtain loaded c1 where load: "loadSession host now c = (Inr loaded, c1)" and log: "effectLog c1 = effectLog c"
    by (simp add: loadSession_def case_prod_beta)
  have err: "respType (errorResponse code i) = ''native.error''" for code i by (simp add: errorResponse_def)
  from assms load err obtain current processor m where step: "loaded = Some current"
    "processors host (sessionKind current) = Some processor"
    "procReplace processor current (packageBody pkg) now = Some (Inr m)"
    "andThen (commitMutationOf host current m now) (\<lambda>committed.
       case committed of Inl failure \<Rightarrow> failWith (failureCode failure) (cmdMessageId cmd)
       | Inr (s, effects) \<Rightarrow> done_with (sessionResponse ''session.replaced'' s)) c1 = (Inr r, c')"
    by (auto simp: replaceSession_def andThen_def [of "loadSession _ _"] failWith_def done_with_def throwing_def
        split: option.splits if_splits sum.splits)
  obtain result c2 where commit: "commitMutationOf host current m now c1 = (result, c2)" by fastforce
  then have same: "effectLog c2 = effectLog c1"
    by (auto simp: commitMutationOf_def storeTask_def split: prod.splits sum.splits)
  from step(4) commit err assms(2) obtain s effects where committed: "result = Inr (Inr (s, effects))" "c' = c2"
    by (auto simp: andThen_def failWith_def done_with_def split: sum.splits prod.splits)
  with commit have "compareAndSwap (store host) (sessionId current) (revision current) (\<lambda>_. Inr m) now (tables c1) =
      (Inr (Inr (s, effects)), tables c')"
    by (auto simp: commitMutationOf_def storeTask_def split: prod.splits sum.splits)
  then have "activeNavigation (tables c') = Some (activeRow (store host) (mutSession m))"
    by (rule swap_committed) auto
  with same log committed(2) step(2,3) show ?thesis by auto
qed

theorem replace_skips_effects_witness:
  "effectLog (snd (replaceSession sampleHost 2 (sampleCommand ''m3'' SessionStart) \<lparr>packageKind = KindGround, packageBody = JNull\<rparr>
     None sampleStarted)) = effectLog sampleStarted"
proof -
  let ?run = "replaceSession sampleHost 2 (sampleCommand ''m3'' SessionStart) \<lparr>packageKind = KindGround, packageBody = JNull\<rparr> None sampleStarted"
  have "fst ?run = Inr (sessionResponse ''session.replaced'' (sampleSession StatusActive 2))" by code_simp
  then obtain c' where run: "?run = (Inr (sessionResponse ''session.replaced'' (sampleSession StatusActive 2)), c')" by (rule fst_eqE)
  from replace_skips_effects [OF run] show ?thesis unfolding run by (simp add: sessionResponse_def)
qed

text \<open>
  C38. An expired session blocks the next one: \<open>prepare\<close> means to let a session that has expired be replaced,
  but the repository refuses as long as the stored status is live, so the page is told that a session is
  active and nothing changes.
\<close>

theorem prepare_expired_blocked:
  assumes "loadActive (store host) now (tables c) = (Some s, t)" and "isMobileSessionExpired s now"
    and "\<not> isTerminal s" and "processors host (packageKind pkg) = Some processor"
    and "procPrepare processor (packageBody pkg) newId now ModeForegroundOnly = Some (Inr prepared)"
  shows "prepareSession host now newId i pkg c = (Inr (errorResponse ''session-active'' i), c)"
proof -
  from load_Some [OF assms(1)] obtain row where row: "t = tables c" "activeNavigation (tables c) = Some row"
    "parseMobileSession (store host) (arJson row) = Inr s" by blast
  have "sessionStatus s \<notin> set TERMINAL_STATUSES" using assms(3) by (simp add: isTerminal_def TERMINAL_STATUSES_def)
  then have "createPreparing (store host) prepared (tables c) = (Inr (Inl SessionActive), tables c)"
    using row by (simp add: createPreparing_def withExclusiveTransaction_def)
  with assms row show ?thesis
    by (simp add: prepareSession_def andThen_def loadSession_def storeTask_def failWith_def done_with_def)
qed

theorem prepare_expired_blocked_witness:
  "prepareSession sampleHost 20 ''t'' ''m3'' \<lparr>packageKind = KindGround, packageBody = JNull\<rparr> sampleStarted =
     (Inr (errorResponse ''session-active'' ''m3''), sampleStarted)"
proof -
  obtain t where "loadActive (store sampleHost) 20 (tables sampleStarted) = (Some (sampleSession StatusActive 1), t)"
    using sample_loads(2) by (rule fst_eqE)
  from prepare_expired_blocked [OF this, of "\<lparr>packageKind = KindGround, packageBody = JNull\<rparr>" sampleProcessor "''t''"
      "sampleSession StatusPreparing 0" "''m3''"]
  show ?thesis by (simp add: isMobileSessionExpired_def isTerminal_def sampleSession_def sampleHost_def sampleProcessor_def)
qed

text \<open>
  C14. The answer to a start is true: when the page is told that the session started, it is stored as active and
  the driver was started for it without a failure; when it is told that the driver could not be started, no
  session is left and the driver was told to stop.
\<close>

theorem start_truthful:
  assumes "effectsKeepRow host" and "startSession host env authorized stillValid cmd c = (Inr r, c')"
  shows "(respType r = ''session.started'' \<longrightarrow> startedAs host c r c') \<and>
    (r = errorResponse ''driver-start-failed'' (cmdMessageId cmd) \<longrightarrow> startUndone c c')"
proof -
  have codes: "errorResponse code i = errorResponse code' i \<longleftrightarrow> code = code'" "respType (errorResponse code i) = ''native.error''"
    "sessionResponse ''session.started'' s \<noteq> errorResponse code i" "failureCode f \<noteq> ''driver-start-failed''" for code code' i f s
    by (simp_all add: errorResponse_def sessionResponse_def) (cases f, simp_all)
  obtain loaded c1 where load: "loadSession host (envNow env) c = (Inr loaded, c1)" "effectLog c1 = effectLog c"
    by (simp add: loadSession_def case_prod_beta)
  obtain c2 where inter: "interlude host (envInterlude env) c1 = (Inr (), c2)" "effectLog c2 = effectLog c"
    using load(2) by (simp add: interlude_def)
  show ?thesis
  proof (cases "\<exists>mode current. activateSession host (envNow env) (cmdMessageId cmd) mode current c2 = (Inr r, c')")
    case True
    then obtain mode current where "activateSession host (envNow env) (cmdMessageId cmd) mode current c2 = (Inr r, c')" by blast
    from activate_result [OF assms(1) this] inter(2) codes show ?thesis
      by (auto simp: startedAs_def startUndone_def)
  next
    case False
    with assms(2) load(1) inter(1)
    have "\<exists>code. r = errorResponse code (cmdMessageId cmd) \<and> code \<noteq> ''driver-start-failed''"
      by (auto simp: startSession_def andThen_def [of "loadSession _ _"] andThen_def [of "interlude _ _"]
          andThen_def [of "storeTask _"] failWith_def done_with_def throwing_def Let_def
          split: option.splits if_splits StartDecision.splits sum.splits prod.splits)
    with codes show ?thesis by auto
  qed
qed

theorem start_truthful_witness:
  "\<exists>r c'. startSession sampleHost (sampleEnv 1) None True (sampleCommand ''m2'' SessionStart) samplePrepared = (Inr r, c') \<and>
     startedAs sampleHost samplePrepared r c'"
proof -
  let ?run = "startSession sampleHost (sampleEnv 1) None True (sampleCommand ''m2'' SessionStart) samplePrepared"
  have "fst ?run = Inr (sessionResponse ''session.started'' (sampleSession StatusActive 1))" by code_simp
  then obtain c' where run: "?run = (Inr (sessionResponse ''session.started'' (sampleSession StatusActive 1)), c')" by (rule fst_eqE)
  from start_truthful [OF sample_quiet(2) run] run show ?thesis by (auto simp: sessionResponse_def)
qed

text \<open>
  C15. Stopping twice gives the same answer: once a session was stopped, a retry under any message id and with any
  final status is answered with the same response, from the acknowledgement, and runs nothing, as long as no
  other session is stored and the acknowledgement is kept. (Once another session is prepared, a retry that names the
  old one is answered with a revision conflict.)
\<close>

theorem stop_retry_same_answer:
  assumes "effectsKeepRow host" and "quietHost host" and "storeOk (store host) (tables c)"
    and "loadActive (store host) now (tables c) = (Some s, t)" and "sessionId s \<noteq> []"
    and "terminateSession host sid i final now c = (Inr r, c')" and "respType r = ''session.stopped''"
    and "activeNavigation (tables c2) = None"
    and "readTerminalAck (sessionId s) (tables c2) = readTerminalAck (sessionId s) (tables c')"
  shows "activeNavigation (tables c') = None \<and>
    terminateSession host (Some (sessionId s)) i' final' now' c2 = (Inr r, c2)"
proof -
  have load: "loadSession host now c = (Inr (Some s), c)"
    using assms(4) load_Some(1) [OF assms(4)] by (simp add: loadSession_def)
  have row: "activeNavigation (tables c) = Some (activeRow (store host) s)"
    using load_Some [OF assms(4)] assms(3) by (auto simp: storeOk_def activeOk_def)
  have "\<not> (sid \<noteq> None \<and> sid \<noteq> Some (sessionId s))"
  proof
    assume "sid \<noteq> None \<and> sid \<noteq> Some (sessionId s)"
    with assms(6) load have "r = errorResponse ''revision-conflict'' i"
      by (auto simp: terminateSession_def andThen_def failWith_def done_with_def)
    with assms(7) show False by (simp add: errorResponse_def)
  qed
  then have guard: "(sid \<noteq> None \<and> sid \<noteq> Some (sessionId s)) = False" by simp
  have rest: "andThen (storeTask (terminate (store host) (sessionId s) final now)) (\<lambda>(ack, effects).
      andThen (runEffects host effects) (\<lambda>_. done_with (stoppedResponse (sessionId s) (Some (sessionId s))
        (case ack of None \<Rightarrow> final | Some a \<Rightarrow> finalStatus a) (case ack of None \<Rightarrow> revision s | Some a \<Rightarrow> finalRevision a)))) c = (Inr r, c')"
    using assms(6) unfolding terminateSession_def andThen_def [of "loadSession _ _"] load
    by (simp only: prod.case sum.case option.case guard if_False)
  obtain v c1 where stop: "storeTask (terminate (store host) (sessionId s) final now) c = (v, c1)" by fastforce
  with rest obtain ack effects where v: "v = Inr (ack, effects)" by (cases v) (auto simp: andThen_def [of "storeTask _"])
  note ended = terminate_result [OF stop [unfolded v] row]
  obtain new :: "EffectRecord list" where "fst (runEffects host effects c1) = Inr (length (filter recordedFailed new))"
    by (rule runEffects_result [of host effects c1]) blast
  with rest stop v ended(4) have r: "r = stoppedResponse (sessionId s) (Some (sessionId s)) final (revision s)"
    and c': "c' = snd (runEffects host effects c1)"
    by (cases "runEffects host effects c1"; auto simp: andThen_def done_with_def)+
  have gone: "activeNavigation (tables c') = None" using ended(1) c' runEffects_row [OF assms(1)] by simp
  have "readTerminalAck (sessionId s) (tables c') = readTerminalAck (sessionId s) (tables c1)"
    using c' runEffects_acks [OF assms(2)] by (simp add: readTerminalAck_def SELECT_TERMINAL_ACK_def)
  with ended(5) assms(9) obtain b where "readTerminalAck (sessionId s) (tables c2) = Some b" "finalStatus b = final" "finalRevision b = revision s"
    by auto
  moreover have "loadSession host now' c2 = (Inr None, c2)"
    using assms(8) by (simp add: loadSession_def loadActive_def inspectActive_def)
  ultimately show ?thesis
    using r gone assms(5) by (simp add: terminateSession_def andThen_def reading_def done_with_def Let_def)
qed

theorem stop_retry_same_answer_witness:
  "\<exists>c'. terminateSession sampleHost None ''m3'' FinalStopped 2 sampleActive = (Inr sampleStop, c') \<and>
     terminateSession sampleHost (Some ''s'') ''m4'' FinalArrived 5 c' = (Inr sampleStop, c')"
proof -
  obtain t where load: "loadActive (store sampleHost) 2 (tables sampleActive) = (Some (sampleSession StatusActive 1), t)"
    using sample_loads(3) by (rule fst_eqE)
  have "fst (terminateSession sampleHost None ''m3'' FinalStopped 2 sampleActive) = Inr sampleStop" by code_simp
  then obtain c' where run: "terminateSession sampleHost None ''m3'' FinalStopped 2 sampleActive = (Inr sampleStop, c')" by (rule fst_eqE)
  have "activeNavigation (tables (snd (terminateSession sampleHost None ''m3'' FinalStopped 2 sampleActive))) = None" by code_simp
  then have gone: "activeNavigation (tables c') = None" by (simp add: run)
  from stop_retry_same_answer [OF sample_quiet(2,1) sample_store_ok load _ run _ gone refl, of "''m4''" FinalArrived 5] run
  show ?thesis by (auto simp: sampleSession_def sampleStop_def stoppedResponse_def)
qed

text \<open>
  C16. A forgotten session cannot keep tracking: the first location batch after a session has expired ends it. No
  position of the batch is processed, no session is left and the driver is told to stop.
\<close>

theorem expired_batch_ends:
  assumes "effectsKeepRow host" and "storeOk (store host) (tables c)"
    and "loadActive (store host) now (tables c) = (Some s, t)" and "isMobileSessionExpired s now"
  shows "startUndone c (snd (handleLocationBatch host batch (now, meanwhile) again c))"
proof -
  have load: "loadSession host now c = (Inr (Some s), c)"
    using assms(3) load_Some(1) [OF assms(3)] by (simp add: loadSession_def)
  have row: "activeNavigation (tables c) = Some (activeRow (store host) s)" "0 \<le> revision s"
    using load_Some [OF assms(3)] assms(2) by (auto simp: storeOk_def activeOk_def activeRow_def)
  obtain ack effects c1 where stop: "storeTask (terminate (store host) (sessionId s) FinalExpired now) c = (Inr (ack, effects), c1)"
    using row by (auto simp: storeTask_def terminate_def withExclusiveTransaction_def UPSERT_TERMINAL_ACK_def activeRow_def Let_def)
  note ended = terminate_result [OF stop row(1)]
  obtain new where new: "effectLog (snd (runEffects host effects c1)) = effectLog c1 @ new"
    "map recordedEffect new = sort_key effectOrder effects" "fst (runEffects host effects c1) = Inr (length (filter recordedFailed new))"
    by (rule runEffects_result)
  have "handleLocationBatch host batch (now, meanwhile) again c = (Inr (), snd (runEffects host effects c1))"
    using load stop assms(4) new(3)
    by (cases "runEffects host effects c1") (simp add: handleLocationBatch_def catching_def andThen_def done_with_def)
  moreover have "StopLocation \<in> set (map recordedEffect new)"
    unfolding new(2) ended(3) by (simp add: terminationEffects_def)
  ultimately show ?thesis
    using new(1) ended(1,2) runEffects_row [OF assms(1)] by (auto simp: startUndone_def)
qed

theorem expired_batch_ends_witness:
  "startUndone sampleActive (snd (handleLocationBatch sampleHost \<lparr>batchLocations = [], batchErrorCode = None\<rparr> (20, []) (21, []) sampleActive))"
proof -
  obtain t where "loadActive (store sampleHost) 20 (tables sampleActive) = (Some (sampleSession StatusActive 1), t)"
    using sample_loads(4) by (rule fst_eqE)
  from expired_batch_ends [OF sample_quiet(2) sample_store_ok this] show ?thesis
    by (simp add: isMobileSessionExpired_def sampleSession_def)
qed

end
