(* ===== verification/Lifecycle_Exclusion.thy ===== *)
theory Lifecycle_Exclusion
  imports Reducer "HOL-Library.List_Lexorder" "HOL-Library.Char_ord"
begin

text \<open>
  \<open>apps/ops-agent/src/lifecycle-exclusion.ts\<close>: the operations agent changes a service in one task at
  a time, and an effect whose outcome is unknown denies its services for good, across restarts.
  A task is a call of \<open>run\<close> or \<open>creating\<close>; its awaits are separate events, so that any other event may
  come between. The file of denials and the leftovers of an interrupted write are part of the
  state; a crash forgets everything else.
\<close>

section \<open>State\<close>

datatype WorkError = LifecycleFailed | SignalAborted | WorkThrew bool | PersistThrew

datatype Phase = Waiting | Granted | Working bool | Settled "WorkError option"

record LifecycleTask =
  taskIds :: "string list"
  taskServiceIds :: "string list"
  taskCreates :: bool
  taskAborted :: bool
  taskPhase :: Phase

text \<open>
  \<open>superseded\<close> holds older contents of the file whose replacement was renamed but not synced: after a
  crash any of them may be there again. \<open>leftover\<close> is the size of a temporary file left behind.
\<close>

record Exclusion =
  tasks :: "nat \<Rightarrow> LifecycleTask option"
  nextTask :: nat
  active :: "string list"
  waiting :: "nat list"
  pending :: "string list"
  pendingFile :: "string list option"
  superseded :: "string list option list"
  leftover :: "nat option"
  agentUp :: bool

text \<open>How a write of the file goes: well, not at all, with some bytes written, or renamed without a sync.\<close>

datatype Fault = NoFault | OpenFails | WriteFails nat | RenameUnsynced

definition ID :: "string \<Rightarrow> bool" where
  "ID s = (case s of [] \<Rightarrow> False
     | c # cs \<Rightarrow> isLowerOrDigit c \<and> length cs \<le> 63 \<and> list_all (\<lambda>d. isLowerOrDigit d \<or> d = CHR ''-'') cs)"

definition jsSet :: "'a list \<Rightarrow> 'a list" where
  "jsSet xs = foldl (\<lambda>acc x. setAdd x acc) [] xs"

section \<open>The file of denials\<close>

text \<open>\<open>JSON.stringify\<close> of the identifiers: none of their characters is escaped.\<close>

definition jsonBytes :: "string list \<Rightarrow> nat" where
  "jsonBytes ids = 2 + sum_list (map (\<lambda>i. length i + 2) ids) + (length ids - 1)"

definition readPending :: "string list option \<Rightarrow> string list option" where
  "readPending file =
     (case file of
        None \<Rightarrow> Some []
      | Some ids \<Rightarrow>
          if jsonBytes ids > 64 * 1024 then None
          else if length ids > 256 \<or> list_ex (\<lambda>i. \<not> ID i) ids \<or> length (jsSet ids) \<noteq> length ids then None
          else Some (jsSet ids))"

definition persist :: "Fault \<Rightarrow> string list \<Rightarrow> Exclusion \<Rightarrow> bool \<times> Exclusion" where
  "persist fault new st =
     (if length new > 256 then (False, st)
      else if (case leftover st of None \<Rightarrow> False | Some n \<Rightarrow> n > 64 * 1024) then (False, st)
      else let content = sort new
           in case fault of
             OpenFails \<Rightarrow> (False, st\<lparr>leftover := None\<rparr>)
           | WriteFails n \<Rightarrow> (False, st\<lparr>leftover := Some (min n (jsonBytes content))\<rparr>)
           | RenameUnsynced \<Rightarrow>
               (False, st\<lparr>leftover := None, superseded := pendingFile st # superseded st, pendingFile := Some content\<rparr>)
           | NoFault \<Rightarrow>
               (True, st\<lparr>leftover := None, superseded := [], pendingFile := Some content, pending := new\<rparr>))"

section \<open>Granting\<close>

definition idsOf :: "Exclusion \<Rightarrow> nat \<Rightarrow> string list" where
  "idsOf st i = (case tasks st i of None \<Rightarrow> [] | Some t \<Rightarrow> taskIds t)"

fun drainLoop :: "(nat \<Rightarrow> string list) \<Rightarrow> string list \<Rightarrow> string list \<Rightarrow> nat list \<Rightarrow> nat list \<times> nat list \<times> string list" where
  "drainLoop ids held earlier [] = ([], [], held)"
| "drainLoop ids held earlier (w # ws) =
     (if list_ex (\<lambda>i. i \<in> set held \<or> i \<in> set earlier) (ids w)
      then (case drainLoop ids held (foldl (\<lambda>acc i. setAdd i acc) earlier (ids w)) ws of
              (granted, rest, final) \<Rightarrow> (granted, w # rest, final))
      else (case drainLoop ids (foldl (\<lambda>acc i. setAdd i acc) held (ids w)) earlier ws of
              (granted, rest, final) \<Rightarrow> (w # granted, rest, final)))"

definition setPhase :: "Phase \<Rightarrow> LifecycleTask option \<Rightarrow> LifecycleTask option" where
  "setPhase p t = map_option (\<lambda>u. u\<lparr>taskPhase := p\<rparr>) t"

definition drain :: "Exclusion \<Rightarrow> Exclusion" where
  "drain st =
     (case drainLoop (idsOf st) (active st) [] (waiting st) of
        (granted, rest, final) \<Rightarrow>
          st\<lparr>waiting := rest, active := final,
             tasks := (\<lambda>i. if i \<in> set granted then setPhase Granted (tasks st i) else tasks st i)\<rparr>)"

text \<open>The end of a task: \<open>finally\<close> releases, whatever the outcome.\<close>

definition release :: "nat \<Rightarrow> WorkError option \<Rightarrow> Exclusion \<Rightarrow> Exclusion" where
  "release i outcome st =
     drain (st\<lparr>active := filter (\<lambda>x. x \<notin> set (idsOf st i)) (active st),
               tasks := (tasks st)(i := setPhase (Settled outcome) (tasks st i))\<rparr>)"

section \<open>Operations\<close>

text \<open>\<open>run\<close> or \<open>creating\<close> is called, up to the first await.\<close>

definition request :: "string list \<Rightarrow> bool \<Rightarrow> bool \<Rightarrow> Exclusion \<Rightarrow> Exclusion" where
  "request serviceIds creates aborted st =
     (let ids = sort (jsSet serviceIds);
          task = \<lparr>taskIds = ids, taskServiceIds = serviceIds, taskCreates = creates, taskAborted = aborted, taskPhase = Waiting\<rparr>;
          added = (\<lambda>p. st\<lparr>tasks := (tasks st)(nextTask st \<mapsto> task\<lparr>taskPhase := p\<rparr>), nextTask := nextTask st + 1\<rparr>)
      in if length serviceIds > 256 \<or> list_ex (\<lambda>i. \<not> ID i) serviceIds then added (Settled (Some LifecycleFailed))
         else if aborted then added (Settled (Some SignalAborted))
         else drain ((added Waiting)\<lparr>waiting := waiting st @ [nextTask st]\<rparr>))"

text \<open>The signal of a task is aborted: a task that still waits is rejected at once.\<close>

definition abort :: "nat \<Rightarrow> Exclusion \<Rightarrow> Exclusion" where
  "abort i st =
     (case tasks st i of
        None \<Rightarrow> st
      | Some t \<Rightarrow>
          if i \<in> set (waiting st)
          then drain (st\<lparr>waiting := remove1 i (waiting st),
                         tasks := (tasks st)(i \<mapsto> t\<lparr>taskAborted := True, taskPhase := Settled (Some SignalAborted)\<rparr>)\<rparr>)
          else st\<lparr>tasks := (tasks st)(i \<mapsto> t\<lparr>taskAborted := True\<rparr>)\<rparr>)"

text \<open>The await of \<open>acquire\<close> returns: the task checks its signal and the denials, then works.\<close>

definition resume :: "nat \<Rightarrow> Exclusion \<Rightarrow> Exclusion" where
  "resume i st =
     (case tasks st i of
        None \<Rightarrow> st
      | Some t \<Rightarrow>
          if taskPhase t \<noteq> Granted then st
          else if taskAborted t then release i (Some SignalAborted) st
          else if list_ex (\<lambda>x. x \<in> set (pending st)) (taskIds t) then release i (Some LifecycleFailed) st
          else st\<lparr>tasks := (tasks st)(i \<mapsto> t\<lparr>taskPhase := Working False\<rparr>)\<rparr>)"

text \<open>The work of a creating task calls \<open>begin\<close>. When that throws nothing is recorded as begun.\<close>

definition beginWork :: "nat \<Rightarrow> Fault \<Rightarrow> Exclusion \<Rightarrow> Exclusion" where
  "beginWork i fault st =
     (case tasks st i of
        None \<Rightarrow> st
      | Some t \<Rightarrow>
          if \<not> taskCreates t \<or> taskPhase t \<noteq> Working False \<or> taskAborted t then st
          else (case persist fault (jsSet (pending st @ taskServiceIds t)) st of
                  (ok, st') \<Rightarrow>
                    if ok then st'\<lparr>tasks := (tasks st')(i \<mapsto> t\<lparr>taskPhase := Working True\<rparr>)\<rparr> else st'))"

text \<open>
  The work returns (\<open>None\<close>) or throws; the flag says whether the error is that of a contained process.
  Denials are cleared after success or a contained failure.
\<close>

definition finish :: "nat \<Rightarrow> bool option \<Rightarrow> Fault \<Rightarrow> Exclusion \<Rightarrow> Exclusion" where
  "finish i result fault st =
     (case tasks st i of
        None \<Rightarrow> st
      | Some t \<Rightarrow>
          (case taskPhase t of
             Working begun \<Rightarrow>
               let outcome = map_option WorkThrew result
               in if begun \<and> result \<noteq> Some False
                  then (case persist fault (filter (\<lambda>x. x \<notin> set (taskServiceIds t)) (pending st)) st of
                          (ok, st') \<Rightarrow> release i (if ok then outcome else Some PersistThrew) st')
                  else release i outcome st
           | _ \<Rightarrow> st))"

text \<open>The agent starts: \<open>construct\<close> throws when the file cannot be read as a list of identifiers.\<close>

definition construct :: "Exclusion \<Rightarrow> Exclusion" where
  "construct st =
     (let fresh = st\<lparr>tasks := (\<lambda>_. None), nextTask := 0, active := [], waiting := []\<rparr>
      in case readPending (pendingFile st) of
           None \<Rightarrow> fresh\<lparr>pending := [], agentUp := False\<rparr>
         | Some ids \<Rightarrow> fresh\<lparr>pending := ids, agentUp := True\<rparr>)"

text \<open>The process dies and starts again; when the machine dies with it, renames that were not synced may be lost.\<close>

definition crash :: "nat option \<Rightarrow> Exclusion \<Rightarrow> Exclusion" where
  "crash lost st =
     construct (case lost of
        None \<Rightarrow> st
      | Some k \<Rightarrow> if k < length (superseded st) then st\<lparr>pendingFile := superseded st ! k, superseded := []\<rparr> else st)"

section \<open>Runs\<close>

datatype exclusionEvent =
    Request "string list" bool bool
  | Abort nat
  | Resume nat
  | BeginWork nat Fault
  | Finish nat "bool option" Fault
  | Crash "nat option"

fun exclusionStep :: "Exclusion \<Rightarrow> exclusionEvent \<Rightarrow> Exclusion" where
  "exclusionStep st (Request serviceIds creates aborted) = (if agentUp st then request serviceIds creates aborted st else st)"
| "exclusionStep st (Abort i) = abort i st"
| "exclusionStep st (Resume i) = resume i st"
| "exclusionStep st (BeginWork i fault) = beginWork i fault st"
| "exclusionStep st (Finish i result fault) = finish i result fault st"
| "exclusionStep st (Crash lost) = crash lost st"

definition freshAgent :: Exclusion where
  "freshAgent = construct
     \<lparr>tasks = (\<lambda>_. None), nextTask = 0, active = [], waiting = [], pending = [], pendingFile = None,
      superseded = [], leftover = None, agentUp = False\<rparr>"

end
