(* ===== verification/Exclusion_Invariants.thy ===== *)
theory Exclusion_Invariants
  imports Lifecycle_Exclusion
begin

text \<open>The invariants of the lifecycle exclusion: what granting does to the queue, that the tasks inside share
  no service, that the denials in memory and on disk are lists of identifiers, and that every event
  keeps all of this.\<close>

section \<open>Sets kept as lists\<close>

lemma addAll_set [simp]: "set (foldl (\<lambda>acc i. setAdd i acc) acc xs) = set acc \<union> set xs"
  by (induction xs arbitrary: acc) auto

lemma addAll_distinct [simp]: "distinct (foldl (\<lambda>acc i. setAdd i acc) acc xs) = distinct acc"
  by (induction xs arbitrary: acc) auto

lemma jsSet_facts [simp]: "set (jsSet xs) = set xs" "distinct (jsSet xs)"
  by (simp_all add: jsSet_def)

lemma jsSet_length: "length (jsSet xs) = card (set xs)"
  using distinct_card [of "jsSet xs"] by simp

section \<open>Granting\<close>

fun blockedQueue :: "(nat \<Rightarrow> string list) \<Rightarrow> string set \<Rightarrow> nat list \<Rightarrow> bool" where
  "blockedQueue ids held [] = True"
| "blockedQueue ids held (w # ws) \<longleftrightarrow> set (ids w) \<inter> held \<noteq> {} \<and> blockedQueue ids (held \<union> set (ids w)) ws"

lemma blockedQueue_mono: "blockedQueue ids held ws \<Longrightarrow> held \<subseteq> held' \<Longrightarrow> blockedQueue ids held' ws"
  by (induction ws arbitrary: held held') (auto, blast+)

lemma blockedQueue_append:
  "blockedQueue ids held (ws @ vs) \<longleftrightarrow> blockedQueue ids held ws \<and> blockedQueue ids (held \<union> \<Union> (set (map (set \<circ> ids) ws))) vs"
  by (induction ws arbitrary: held) (auto simp: Un_assoc)

lemma blockedQueue_cong: "(\<And>w. w \<in> set ws \<Longrightarrow> ids w = ids' w) \<Longrightarrow> blockedQueue ids held ws = blockedQueue ids' held ws"
  by (induction ws arbitrary: held) auto

lemma drainLoop_parts:
  assumes "drainLoop ids held earlier ws = (granted, rest, final)"
  shows "set granted \<union> set rest = set ws"
    and "distinct ws \<Longrightarrow> set granted \<inter> set rest = {} \<and> distinct rest"
    and "set final = set held \<union> (\<Union>w \<in> set granted. set (ids w))"
proof -
  have "set granted \<union> set rest = set ws \<and> (distinct ws \<longrightarrow> set granted \<inter> set rest = {} \<and> distinct rest) \<and>
      set final = set held \<union> (\<Union>w \<in> set granted. set (ids w))"
    using assms
  proof (induction ws arbitrary: held earlier granted rest final)
    case (Cons w ws)
    then show ?case
    proof (cases "list_ex (\<lambda>i. i \<in> set held \<or> i \<in> set earlier) (ids w)")
      case True
      then obtain rest' where r: "rest = w # rest'"
        and rec: "drainLoop ids held (foldl (\<lambda>acc i. setAdd i acc) earlier (ids w)) ws = (granted, rest', final)"
        using Cons.prems by (auto split: prod.splits)
      from Cons.IH [OF rec] show ?thesis unfolding r by auto
    next
      case False
      then obtain granted' where g: "granted = w # granted'"
        and rec: "drainLoop ids (foldl (\<lambda>acc i. setAdd i acc) held (ids w)) earlier ws = (granted', rest, final)"
        using Cons.prems by (auto split: prod.splits)
      from Cons.IH [OF rec] show ?thesis unfolding g by auto
    qed
  qed simp
  then show "set granted \<union> set rest = set ws" "distinct ws \<Longrightarrow> set granted \<inter> set rest = {} \<and> distinct rest"
    "set final = set held \<union> (\<Union>w \<in> set granted. set (ids w))" by blast+
qed

lemma drainLoop_free:
  assumes "drainLoop ids held earlier ws = (granted, rest, final)" and "w \<in> set granted"
  shows "set (ids w) \<inter> (set held \<union> set earlier) = {}"
  using assms
proof (induction ws arbitrary: held earlier granted rest final)
  case (Cons x ws)
  show ?case
  proof (cases "list_ex (\<lambda>i. i \<in> set held \<or> i \<in> set earlier) (ids x)")
    case True
    then obtain rest' where
      "drainLoop ids held (foldl (\<lambda>acc i. setAdd i acc) earlier (ids x)) ws = (granted, rest', final)"
      using Cons.prems(1) by (auto split: prod.splits)
    from Cons.IH [OF this Cons.prems(2)] show ?thesis by auto
  next
    case False
    then obtain granted' where g: "granted = x # granted'"
      and rec: "drainLoop ids (foldl (\<lambda>acc i. setAdd i acc) held (ids x)) earlier ws = (granted', rest, final)"
      using Cons.prems(1) by (auto split: prod.splits)
    show ?thesis
    proof (cases "w = x")
      case True
      with False show ?thesis by (auto simp: list_ex_iff)
    next
      case False
      with g Cons.prems(2) have "w \<in> set granted'" by simp
      from Cons.IH [OF rec this] show ?thesis by auto
    qed
  qed
qed simp

lemma drainLoop_disjoint:
  assumes "drainLoop ids held earlier ws = (granted, rest, final)" and "v \<in> set granted" and "w \<in> set granted" and "v \<noteq> w"
  shows "set (ids v) \<inter> set (ids w) = {}"
  using assms
proof (induction ws arbitrary: held earlier granted rest final)
  case (Cons x ws)
  show ?case
  proof (cases "list_ex (\<lambda>i. i \<in> set held \<or> i \<in> set earlier) (ids x)")
    case True
    then obtain rest' where
      "drainLoop ids held (foldl (\<lambda>acc i. setAdd i acc) earlier (ids x)) ws = (granted, rest', final)"
      using Cons.prems(1) by (auto split: prod.splits)
    from Cons.IH [OF this Cons.prems(2-4)] show ?thesis .
  next
    case False
    then obtain granted' where g: "granted = x # granted'"
      and rec: "drainLoop ids (foldl (\<lambda>acc i. setAdd i acc) held (ids x)) earlier ws = (granted', rest, final)"
      using Cons.prems(1) by (auto split: prod.splits)
    have apart: "set (ids u) \<inter> set (ids x) = {}" if "u \<in> set granted'" for u
      using drainLoop_free [OF rec that] by auto
    consider "v = x" | "w = x" | "v \<in> set granted'" "w \<in> set granted'" using g Cons.prems(2,3) by auto
    then show ?thesis
    proof cases
      case 1
      with g Cons.prems(3,4) apart [of w] show ?thesis by auto
    next
      case 2
      with g Cons.prems(2,4) apart [of v] show ?thesis by auto
    next
      case 3
      from Cons.IH [OF rec this Cons.prems(4)] show ?thesis .
    qed
  qed
qed simp

lemma drainLoop_blocked:
  assumes "drainLoop ids held earlier ws = (granted, rest, final)"
  shows "blockedQueue ids (set final \<union> set earlier) rest"
  using assms
proof (induction ws arbitrary: held earlier granted rest final)
  case (Cons x ws)
  show ?case
  proof (cases "list_ex (\<lambda>i. i \<in> set held \<or> i \<in> set earlier) (ids x)")
    case True
    then obtain rest' where r: "rest = x # rest'"
      and rec: "drainLoop ids held (foldl (\<lambda>acc i. setAdd i acc) earlier (ids x)) ws = (granted, rest', final)"
      using Cons.prems by (auto split: prod.splits)
    have "set held \<subseteq> set final" using drainLoop_parts(3) [OF rec] by auto
    with True have "set (ids x) \<inter> (set final \<union> set earlier) \<noteq> {}" by (auto simp: list_ex_iff)
    with Cons.IH [OF rec] show ?thesis unfolding r by (simp add: Un_assoc)
  next
    case False
    then obtain granted' where "drainLoop ids (foldl (\<lambda>acc i. setAdd i acc) held (ids x)) earlier ws = (granted', rest, final)"
      using Cons.prems by (auto split: prod.splits)
    from Cons.IH [OF this] show ?thesis .
  qed
qed simp

text \<open>A task is only granted before an earlier one that stays behind when they share nothing.\<close>

lemma drainLoop_order:
  assumes "drainLoop ids held earlier ws = (granted, rest, final)" and "ws = us @ v # vs" and "v \<in> set rest"
    and "w \<in> set vs" and "w \<in> set granted" and "distinct ws"
  shows "set (ids w) \<inter> set (ids v) = {}"
  using assms
proof (induction ws arbitrary: held earlier granted rest final us)
  case (Cons x ws)
  show ?case
  proof (cases "list_ex (\<lambda>i. i \<in> set held \<or> i \<in> set earlier) (ids x)")
    case True
    then obtain rest' where r: "rest = x # rest'"
      and rec: "drainLoop ids held (foldl (\<lambda>acc i. setAdd i acc) earlier (ids x)) ws = (granted, rest', final)"
      using Cons.prems(1) by (auto split: prod.splits)
    show ?thesis
    proof (cases us)
      case Nil
      with Cons.prems(2) have "v = x" by simp
      with drainLoop_free [OF rec Cons.prems(5)] show ?thesis by auto
    next
      case (Cons u us')
      with Cons.prems(2) have ws: "ws = us' @ v # vs" and "u = x" by simp_all
      with Cons.prems(3,6) r have "v \<in> set rest'" by auto
      from Cons.IH [OF rec ws this Cons.prems(4,5)] Cons.prems(6) show ?thesis by simp
    qed
  next
    case False
    then obtain granted' where g: "granted = x # granted'"
      and rec: "drainLoop ids (foldl (\<lambda>acc i. setAdd i acc) held (ids x)) earlier ws = (granted', rest, final)"
      using Cons.prems(1) by (auto split: prod.splits)
    have parts: "set granted' \<union> set rest = set ws" using drainLoop_parts(1) [OF rec] .
    with Cons.prems(3,6) have "v \<noteq> x" by auto
    with Cons.prems(2) obtain us' where us: "us = x # us'" and ws: "ws = us' @ v # vs" by (cases us) auto
    with Cons.prems(4,6) have "w \<noteq> x" by auto
    with g Cons.prems(5) have "w \<in> set granted'" by simp
    from Cons.IH [OF rec ws Cons.prems(3,4) this] Cons.prems(6) show ?thesis by simp
  qed
qed simp

section \<open>The queue\<close>

definition heldIds :: "LifecycleTask option \<Rightarrow> string set" where
  "heldIds t = (case t of None \<Rightarrow> {}
     | Some u \<Rightarrow> (case taskPhase u of Granted \<Rightarrow> set (taskIds u) | Working b \<Rightarrow> set (taskIds u) | _ \<Rightarrow> {}))"

definition isWaiting :: "LifecycleTask option \<Rightarrow> bool" where
  "isWaiting t \<longleftrightarrow> (\<exists>u. t = Some u \<and> taskPhase u = Waiting)"

definition queueOk :: "Exclusion \<Rightarrow> bool" where
  "queueOk st \<longleftrightarrow>
     (\<forall>i. i \<in> set (waiting st) \<longleftrightarrow> isWaiting (tasks st i)) \<and> distinct (waiting st) \<and>
     set (active st) = (\<Union>i. heldIds (tasks st i)) \<and>
     (\<forall>i j. i \<noteq> j \<longrightarrow> heldIds (tasks st i) \<inter> heldIds (tasks st j) = {}) \<and>
     (\<forall>i. tasks st i \<noteq> None \<longrightarrow> i < nextTask st)"

definition drained :: "Exclusion \<Rightarrow> bool" where
  "drained st \<longleftrightarrow> blockedQueue (idsOf st) (set (active st)) (waiting st)"

lemma heldIds_simps [simp]:
  "heldIds None = {}"
  "heldIds (Some u) = (case taskPhase u of Granted \<Rightarrow> set (taskIds u) | Working b \<Rightarrow> set (taskIds u) | _ \<Rightarrow> {})"
  by (simp_all add: heldIds_def)

lemma isWaiting_simps [simp]: "isWaiting None \<longleftrightarrow> False" "isWaiting (Some u) \<longleftrightarrow> taskPhase u = Waiting"
  by (simp_all add: isWaiting_def)

lemma setPhase_simps [simp]: "setPhase p None = None" "setPhase p (Some u) = Some (u\<lparr>taskPhase := p\<rparr>)"
  by (simp_all add: setPhase_def)

lemma drain_frame [simp]:
  "nextTask (drain st) = nextTask st" "pending (drain st) = pending st" "pendingFile (drain st) = pendingFile st"
  "superseded (drain st) = superseded st" "leftover (drain st) = leftover st" "agentUp (drain st) = agentUp st"
  by (simp_all add: drain_def split: prod.splits)

lemma drain_tasks:
  assumes "queueOk st"
  obtains granted where "\<And>i. i \<in> granted \<Longrightarrow> isWaiting (tasks st i)"
    and "tasks (drain st) = (\<lambda>i. if i \<in> granted then setPhase Granted (tasks st i) else tasks st i)"
proof -
  obtain granted rest final where loop: "drainLoop (idsOf st) (active st) [] (waiting st) = (granted, rest, final)"
    by (cases "drainLoop (idsOf st) (active st) [] (waiting st)") auto
  from drainLoop_parts(1) [OF loop] assms have "isWaiting (tasks st i)" if "i \<in> set granted" for i
    using that by (auto simp: queueOk_def)
  moreover have "tasks (drain st) = (\<lambda>i. if i \<in> set granted then setPhase Granted (tasks st i) else tasks st i)"
    using loop by (simp add: drain_def)
  ultimately show thesis by (rule that)
qed

lemma drain_ok:
  assumes "queueOk st"
  shows "queueOk (drain st)" "drained (drain st)"
proof -
  obtain granted rest final where loop: "drainLoop (idsOf st) (active st) [] (waiting st) = (granted, rest, final)"
    by (cases "drainLoop (idsOf st) (active st) [] (waiting st)") auto
  note inv = assms [unfolded queueOk_def]
  have parts: "set granted \<union> set rest = set (waiting st)" "set granted \<inter> set rest = {}" "distinct rest"
    "set final = set (active st) \<union> (\<Union>w \<in> set granted. set (idsOf st w))"
    using drainLoop_parts [OF loop] inv by blast+
  have after: "tasks (drain st) = (\<lambda>i. if i \<in> set granted then setPhase Granted (tasks st i) else tasks st i)"
    "waiting (drain st) = rest" "active (drain st) = final"
    using loop by (simp_all add: drain_def)
  have waits: "isWaiting (tasks st i)" if "i \<in> set granted" for i using that parts(1) inv by blast
  have now: "heldIds (tasks (drain st) i) = (if i \<in> set granted then set (idsOf st i) else heldIds (tasks st i))" for i
    using waits [of i] by (auto simp: after idsOf_def isWaiting_def)
  have before: "heldIds (tasks st i) = {}" if "i \<in> set granted" for i using waits [OF that] by (auto simp: isWaiting_def)
  have still: "isWaiting (tasks (drain st) i) \<longleftrightarrow> isWaiting (tasks st i) \<and> i \<notin> set granted" for i
    using waits [of i] by (auto simp: after isWaiting_def)
  have free: "set (idsOf st w) \<inter> heldIds (tasks st i) = {}" if "w \<in> set granted" for w i
    using drainLoop_free [OF loop that] inv by auto
  have apart: "heldIds (tasks (drain st) i) \<inter> heldIds (tasks (drain st) j) = {}" if "i \<noteq> j" for i j
  proof -
    consider "i \<in> set granted" "j \<in> set granted" | "i \<in> set granted" "j \<notin> set granted"
      | "i \<notin> set granted" "j \<in> set granted" | "i \<notin> set granted" "j \<notin> set granted" by blast
    then show ?thesis
    proof cases
      case 1
      then show ?thesis using drainLoop_disjoint [OF loop _ _ that] by (simp add: now)
    next
      case 2
      then show ?thesis using free [of i j] by (simp add: now)
    next
      case 3
      then show ?thesis using free [of j i] by (simp add: now Int_commute)
    next
      case 4
      then show ?thesis using inv that by (simp add: now)
    qed
  qed
  have "(\<Union>i. heldIds (tasks (drain st) i)) = (\<Union>i. heldIds (tasks st i)) \<union> (\<Union>w \<in> set granted. set (idsOf st w))"
    using before by (fastforce simp: now split: if_splits)
  then have "set final = (\<Union>i. heldIds (tasks (drain st) i))" using parts(4) inv by simp
  moreover have "i \<in> set rest \<longleftrightarrow> isWaiting (tasks (drain st) i)" for i
    using parts(1,2) inv still by blast
  moreover have "tasks (drain st) i \<noteq> None \<longleftrightarrow> tasks st i \<noteq> None" for i
    by (simp add: after setPhase_def)
  ultimately show "queueOk (drain st)"
    unfolding queueOk_def after(2,3) using parts(3) apart inv by simp
  have "idsOf (drain st) i = idsOf st i" for i
    by (auto simp: idsOf_def after setPhase_def split: option.splits)
  then have "idsOf (drain st) = idsOf st" by blast
  then show "drained (drain st)"
    using drainLoop_blocked [OF loop] by (simp add: drained_def after)
qed

abbreviation letGo :: "nat \<Rightarrow> WorkError option \<Rightarrow> Exclusion \<Rightarrow> Exclusion" where
  "letGo i outcome st \<equiv> st\<lparr>active := filter (\<lambda>x. x \<notin> set (idsOf st i)) (active st),
     tasks := (tasks st)(i := setPhase (Settled outcome) (tasks st i))\<rparr>"

lemma letGo_ok:
  assumes "queueOk st" and "tasks st i = Some t" and "heldIds (Some t) = set (taskIds t)" and "\<not> isWaiting (Some t)"
  shows "queueOk (letGo i outcome st)"
proof -
  note inv = assms(1) [unfolded queueOk_def]
  have own: "set (idsOf st i) = heldIds (tasks st i)" using assms(2,3) by (simp add: idsOf_def)
  have held: "heldIds (tasks (letGo i outcome st) j) = (if j = i then {} else heldIds (tasks st j))" for j
    using assms(2) by simp
  have waits: "isWaiting (tasks (letGo i outcome st) j) \<longleftrightarrow> isWaiting (tasks st j)" for j
    using assms(2,4) by (cases "j = i") simp_all
  have "set (active (letGo i outcome st)) = (\<Union>j. heldIds (tasks st j)) - heldIds (tasks st i)" using inv own by auto
  also have "\<dots> = (\<Union>j. heldIds (tasks (letGo i outcome st) j))"
  proof -
    have "heldIds (tasks st j) \<inter> heldIds (tasks st i) = {}" if "j \<noteq> i" for j using inv that by blast
    then show ?thesis unfolding held by (fastforce split: if_splits)
  qed
  finally show ?thesis
    unfolding queueOk_def waits held using inv assms(2) by auto
qed

section \<open>The file\<close>

definition validIds :: "string list \<Rightarrow> bool" where
  "validIds xs \<longleftrightarrow> distinct xs \<and> list_all ID xs \<and> length xs \<le> 256"

definition fileIds :: "string list option \<Rightarrow> string list" where
  "fileIds f = (case f of None \<Rightarrow> [] | Some xs \<Rightarrow> xs)"

definition files :: "Exclusion \<Rightarrow> string list set" where
  "files st = fileIds ` set (pendingFile st # superseded st)"

definition diskOk :: "Exclusion \<Rightarrow> bool" where
  "diskOk st \<longleftrightarrow> validIds (pending st) \<and> (\<forall>xs \<in> files st. validIds xs) \<and>
     (case leftover st of None \<Rightarrow> True | Some n \<Rightarrow> n \<le> 64 * 1024)"

lemma ID_length: "ID x \<Longrightarrow> length x \<le> 64"
  by (auto simp: ID_def split: list.splits)

lemma jsonBytes_bound:
  assumes "list_all ID xs" and "length xs \<le> 256"
  shows "jsonBytes xs \<le> 64 * 1024"
proof -
  have "sum_list (map (\<lambda>i. length i + 2) xs) \<le> 66 * length xs"
    using assms(1) by (induction xs) (auto dest: ID_length)
  with assms(2) show ?thesis by (simp add: jsonBytes_def)
qed

lemma validIds_sort [simp]: "validIds (sort xs) = validIds xs"
  by (simp add: validIds_def list_all_iff)

lemma read_valid:
  assumes "validIds (fileIds f)"
  shows "\<exists>ids. readPending f = Some ids \<and> set ids = set (fileIds f) \<and> validIds ids"
proof (cases f)
  case None
  with assms show ?thesis by (simp add: readPending_def fileIds_def)
next
  case (Some xs)
  with assms have xs: "distinct xs" "list_all ID xs" "length xs \<le> 256" by (simp_all add: validIds_def fileIds_def)
  then have "jsonBytes xs \<le> 64 * 1024" by (intro jsonBytes_bound)
  with xs show ?thesis
    by (auto simp: Some readPending_def fileIds_def validIds_def jsSet_length distinct_card list_ex_iff list_all_iff)
qed

lemma persist_frame:
  assumes "persist fault new st = (ok, st')"
  shows "tasks st' = tasks st" "nextTask st' = nextTask st" "active st' = active st" "waiting st' = waiting st"
    "agentUp st' = agentUp st" "pending st' = (if ok then new else pending st)"
    "files st' \<subseteq> insert (sort new) (files st)" "ok \<Longrightarrow> files st' = {sort new}"
  using assms unfolding files_def fileIds_def
  by (auto simp: persist_def Let_def split: if_splits Fault.splits option.splits)

lemma persist_disk:
  assumes "persist fault new st = (ok, st')" and "diskOk st" and "distinct new" and "list_all ID new"
  shows "diskOk st'"
proof (cases "length new > 256")
  case True
  with assms show ?thesis by (simp add: persist_def)
next
  case False
  with assms(3,4) have valid: "validIds new" by (simp add: validIds_def)
  then have "jsonBytes (sort new) \<le> 64 * 1024" by (intro jsonBytes_bound) (simp_all add: validIds_def list_all_iff)
  then have "case leftover st' of None \<Rightarrow> True | Some n \<Rightarrow> n \<le> 64 * 1024"
    using assms(1,2) by (auto simp: persist_def diskOk_def Let_def split: if_splits Fault.splits option.splits)
  moreover have "validIds (pending st')" using persist_frame(6) [OF assms(1)] assms(2) valid by (simp add: diskOk_def)
  moreover have "\<forall>xs \<in> files st'. validIds xs"
    using persist_frame(7) [OF assms(1)] assms(2) valid by (auto simp: diskOk_def)
  ultimately show ?thesis by (simp add: diskOk_def)
qed

lemma files_cong: "pendingFile st' = pendingFile st \<Longrightarrow> superseded st' = superseded st \<Longrightarrow> files st' = files st"
  by (simp add: files_def)

section \<open>The tasks\<close>

definition taskOk :: "string set \<Rightarrow> LifecycleTask \<Rightarrow> bool" where
  "taskOk denied t \<longleftrightarrow>
     (case taskPhase t of
        Settled outcome \<Rightarrow> True
      | Working begun \<Rightarrow> (if begun then set (taskIds t) \<subseteq> denied else set (taskIds t) \<inter> denied = {})
      | _ \<Rightarrow> True) \<and>
     (\<not> (\<exists>outcome. taskPhase t = Settled outcome) \<longrightarrow> list_all ID (taskServiceIds t) \<and> set (taskIds t) = set (taskServiceIds t))"

definition tasksOk :: "Exclusion \<Rightarrow> bool" where
  "tasksOk st \<longleftrightarrow> (\<forall>i t. tasks st i = Some t \<longrightarrow> taskOk (set (pending st)) t)"

definition exclusionOk :: "Exclusion \<Rightarrow> bool" where
  "exclusionOk st \<longleftrightarrow> queueOk st \<and> drained st \<and> tasksOk st \<and> diskOk st \<and> agentUp st"

lemma tasksOk_drain:
  assumes "queueOk st" and "tasksOk st"
  shows "tasksOk (drain st)"
proof -
  obtain granted where g: "\<And>i. i \<in> granted \<Longrightarrow> isWaiting (tasks st i)"
    "tasks (drain st) = (\<lambda>i. if i \<in> granted then setPhase Granted (tasks st i) else tasks st i)"
    using drain_tasks [OF assms(1)] by blast
  show ?thesis
    unfolding tasksOk_def drain_frame
  proof (intro allI impI)
    fix i t assume t: "tasks (drain st) i = Some t"
    show "taskOk (set (pending st)) t"
    proof (cases "i \<in> granted")
      case True
      with g(1) obtain u where u: "tasks st i = Some u" "taskPhase u = Waiting" by (auto simp: isWaiting_def)
      with t True g(2) have "t = u\<lparr>taskPhase := Granted\<rparr>" by simp
      moreover have "taskOk (set (pending st)) u" using assms(2) u(1) by (simp add: tasksOk_def)
      ultimately show ?thesis using u(2) by (simp add: taskOk_def)
    next
      case False
      with t g(2) assms(2) show ?thesis by (simp add: tasksOk_def)
    qed
  qed
qed

lemma tasksOk_upd:
  assumes "tasksOk st" and "taskOk (set (pending st)) t" and "tasks st' = (tasks st)(i \<mapsto> t)" and "pending st' = pending st"
  shows "tasksOk st'"
  using assms by (auto simp: tasksOk_def)

lemma disk_cong: "pending st' = pending st \<Longrightarrow> pendingFile st' = pendingFile st \<Longrightarrow> superseded st' = superseded st \<Longrightarrow>
    leftover st' = leftover st \<Longrightarrow> diskOk st' = diskOk st"
  by (simp add: diskOk_def files_def)

lemma drain_keeps:
  assumes "queueOk st" and "tasksOk st" and "diskOk st" and "agentUp st"
  shows "exclusionOk (drain st)"
  using drain_ok [OF assms(1)] tasksOk_drain [OF assms(1,2)] assms(3,4) disk_cong [of "drain st" st]
  by (simp add: exclusionOk_def)

lemma release_keeps:
  assumes "queueOk st" and "\<And>j u. j \<noteq> i \<Longrightarrow> tasks st j = Some u \<Longrightarrow> taskOk (set (pending st)) u"
    and "diskOk st" and "agentUp st" and "tasks st i = Some t"
    and "heldIds (Some t) = set (taskIds t)" and "\<not> isWaiting (Some t)"
  shows "exclusionOk (release i outcome st)"
  unfolding release_def
proof (rule drain_keeps)
  show "queueOk (letGo i outcome st)" by (rule letGo_ok [OF assms(1,5,6,7)])
  have "taskOk (set (pending st)) (t\<lparr>taskPhase := Settled outcome\<rparr>)" by (simp add: taskOk_def)
  with assms(2,5) show "tasksOk (letGo i outcome st)" by (auto simp: tasksOk_def)
  show "diskOk (letGo i outcome st)" using assms(3) disk_cong [of "letGo i outcome st" st] by simp
  show "agentUp (letGo i outcome st)" using assms(4) by simp
qed

lemma queueOk_cong:
  assumes "queueOk st" and "\<And>j. heldIds (tasks st' j) = heldIds (tasks st j)" and "\<And>j. isWaiting (tasks st' j) = isWaiting (tasks st j)"
    and "waiting st' = waiting st" and "active st' = active st" and "nextTask st' = nextTask st"
    and "\<And>j. (tasks st' j = None) = (tasks st j = None)"
  shows "queueOk st'"
  using assms by (simp add: queueOk_def)

lemma drained_cong:
  assumes "drained st" and "idsOf st' = idsOf st" and "waiting st' = waiting st" and "active st' = active st"
  shows "drained st'"
  using assms by (simp add: drained_def)

text \<open>A task in its critical section changes its phase or its signal, and nothing else.\<close>

lemma retask_keeps:
  assumes "exclusionOk st" and "tasks st i = Some t" and "taskOk (set (pending st)) u"
    and "heldIds (Some u) = heldIds (Some t)" and "isWaiting (Some u) = isWaiting (Some t)" and "taskIds u = taskIds t"
  shows "exclusionOk (st\<lparr>tasks := (tasks st)(i \<mapsto> u)\<rparr>)"
proof -
  let ?st = "st\<lparr>tasks := (tasks st)(i \<mapsto> u)\<rparr>"
  have "queueOk ?st"
  proof (rule queueOk_cong [of st])
    show "queueOk st" using assms(1) by (simp add: exclusionOk_def)
    show "heldIds (tasks ?st j) = heldIds (tasks st j)" for j
      using assms(2,4) by (cases "j = i") (simp_all del: heldIds_simps)
    show "isWaiting (tasks ?st j) = isWaiting (tasks st j)" for j
      using assms(2,5) by (cases "j = i") (simp_all del: isWaiting_simps)
    show "(tasks ?st j = None) = (tasks st j = None)" for j using assms(2) by simp
  qed simp_all
  moreover have "idsOf ?st = idsOf st" using assms(2,6) by (auto simp: idsOf_def)
  then have "drained ?st" using drained_cong [of st ?st] assms(1) by (simp add: exclusionOk_def)
  moreover have "tasksOk ?st" using tasksOk_upd [of st u ?st i] assms(1,3) by (simp add: exclusionOk_def)
  moreover have "diskOk ?st" using assms(1) disk_cong [of ?st st] by (simp add: exclusionOk_def)
  ultimately show ?thesis using assms(1) by (simp add: exclusionOk_def)
qed

section \<open>Every operation keeps the invariant\<close>

abbreviation newTask :: "string list \<Rightarrow> bool \<Rightarrow> bool \<Rightarrow> Phase \<Rightarrow> LifecycleTask" where
  "newTask serviceIds creates aborted p \<equiv>
     \<lparr>taskIds = sort (jsSet serviceIds), taskServiceIds = serviceIds, taskCreates = creates, taskAborted = aborted, taskPhase = p\<rparr>"

abbreviation refused :: "string list \<Rightarrow> bool \<Rightarrow> bool \<Rightarrow> WorkError \<Rightarrow> Exclusion \<Rightarrow> Exclusion" where
  "refused serviceIds creates aborted why st \<equiv>
     st\<lparr>tasks := (tasks st)(nextTask st \<mapsto> newTask serviceIds creates aborted (Settled (Some why))), nextTask := nextTask st + 1\<rparr>"

abbreviation admitted :: "string list \<Rightarrow> bool \<Rightarrow> Exclusion \<Rightarrow> Exclusion" where
  "admitted serviceIds creates st \<equiv>
     st\<lparr>tasks := (tasks st)(nextTask st \<mapsto> newTask serviceIds creates False Waiting), nextTask := nextTask st + 1,
        waiting := waiting st @ [nextTask st]\<rparr>"

abbreviation withdrawn :: "nat \<Rightarrow> LifecycleTask \<Rightarrow> Exclusion \<Rightarrow> Exclusion" where
  "withdrawn i t st \<equiv>
     st\<lparr>waiting := remove1 i (waiting st),
        tasks := (tasks st)(i \<mapsto> t\<lparr>taskAborted := True, taskPhase := Settled (Some SignalAborted)\<rparr>)\<rparr>"

lemma request_cases:
  obtains why where "request serviceIds creates aborted st = refused serviceIds creates aborted why st"
  | "request serviceIds creates aborted st = drain (admitted serviceIds creates st)" "list_all ID serviceIds"
proof (cases "length serviceIds > 256 \<or> list_ex (\<lambda>i. \<not> ID i) serviceIds")
  case True
  then show thesis using that(1) by (simp add: request_def Let_def)
next
  case False
  then have "list_all ID serviceIds" by (auto simp: list_ex_iff list_all_iff)
  with False show thesis using that by (cases aborted) (simp_all add: request_def Let_def)
qed

lemma next_fresh:
  assumes "queueOk st"
  shows "tasks st (nextTask st) = None" "nextTask st \<notin> set (waiting st)"
proof -
  show new: "tasks st (nextTask st) = None" using assms unfolding queueOk_def by blast
  then show "nextTask st \<notin> set (waiting st)" using assms unfolding queueOk_def by (auto simp: isWaiting_def)
qed

lemma admitted_ok:
  assumes "queueOk st"
  shows "queueOk (admitted serviceIds creates st)"
proof -
  note new = next_fresh [OF assms]
  have held: "heldIds (tasks (admitted serviceIds creates st) j) = heldIds (tasks st j)" for j using new by simp
  have waits: "isWaiting (tasks (admitted serviceIds creates st) j) \<longleftrightarrow> j = nextTask st \<or> isWaiting (tasks st j)" for j
    using new by simp
  have queued: "waiting (admitted serviceIds creates st) = waiting st @ [nextTask st]"
    "active (admitted serviceIds creates st) = active st" "nextTask (admitted serviceIds creates st) = Suc (nextTask st)" by simp_all
  have members: "j \<in> set (waiting st @ [nextTask st]) \<longleftrightarrow> j = nextTask st \<or> isWaiting (tasks st j)" for j
    using assms by (auto simp: queueOk_def)
  have "tasks (admitted serviceIds creates st) j \<noteq> None \<longrightarrow> j < Suc (nextTask st)" for j
    using assms by (auto simp: queueOk_def less_Suc_eq)
  then show ?thesis
    unfolding queueOk_def held waits queued using members assms new by (simp add: queueOk_def)
qed

lemma withdrawn_ok:
  assumes "queueOk st" and "tasks st i = Some t" and "i \<in> set (waiting st)"
  shows "queueOk (withdrawn i t st)"
proof -
  have phase: "taskPhase t = Waiting" using assms by (simp add: queueOk_def)
  have held: "heldIds (tasks (withdrawn i t st) j) = heldIds (tasks st j)" for j using assms(2) phase by simp
  have waits: "isWaiting (tasks (withdrawn i t st) j) \<longleftrightarrow> isWaiting (tasks st j) \<and> j \<noteq> i" for j by simp
  have "j \<in> set (remove1 i (waiting st)) \<longleftrightarrow> isWaiting (tasks st j) \<and> j \<noteq> i" for j
    using assms by (auto simp: queueOk_def)
  moreover have "tasks (withdrawn i t st) j \<noteq> None \<longrightarrow> j < nextTask st" for j using assms by (auto simp: queueOk_def)
  ultimately show ?thesis
    unfolding queueOk_def held waits using assms(1) by (simp add: queueOk_def)
qed

lemma request_keeps:
  assumes "exclusionOk st"
  shows "exclusionOk (request serviceIds creates aborted st)"
proof (rule request_cases [of serviceIds creates aborted st])
  note ok = assms [unfolded exclusionOk_def]
  have queue: "queueOk st" using ok by simp
  note new = next_fresh [OF queue]
  {
    fix why assume made: "request serviceIds creates aborted st = refused serviceIds creates aborted why st"
    let ?u = "newTask serviceIds creates aborted (Settled (Some why))"
    let ?st = "refused serviceIds creates aborted why st"
    have held: "heldIds (tasks ?st j) = heldIds (tasks st j)" and waits: "isWaiting (tasks ?st j) = isWaiting (tasks st j)" for j
      using new by simp_all
    have "queueOk ?st" using ok unfolding queueOk_def held waits by (auto simp: less_Suc_eq)
    moreover have "blockedQueue (idsOf ?st) (set (active st)) (waiting st) = blockedQueue (idsOf st) (set (active st)) (waiting st)"
      by (rule blockedQueue_cong) (use new in \<open>auto simp: idsOf_def\<close>)
    then have "drained ?st" using ok by (simp add: drained_def)
    moreover have "tasksOk ?st" by (rule tasksOk_upd [of st ?u _ "nextTask st"]) (use ok in \<open>simp_all add: taskOk_def\<close>)
    moreover have "diskOk ?st" using ok disk_cong [of ?st st] by simp
    ultimately show ?thesis unfolding made using ok by (simp add: exclusionOk_def)
  next
    assume made: "request serviceIds creates aborted st = drain (admitted serviceIds creates st)" and "list_all ID serviceIds"
    let ?st = "admitted serviceIds creates st"
    have "tasksOk ?st"
      by (rule tasksOk_upd [of st "newTask serviceIds creates False Waiting" _ "nextTask st"])
        (use ok \<open>list_all ID serviceIds\<close> in \<open>simp_all add: taskOk_def\<close>)
    moreover have "diskOk ?st" using ok disk_cong [of ?st st] by simp
    ultimately show ?thesis unfolding made using ok by (intro drain_keeps admitted_ok) simp_all
  }
qed

lemma abort_keeps:
  assumes "exclusionOk st"
  shows "exclusionOk (abort i st)"
proof (cases "tasks st i")
  case None
  with assms show ?thesis by (simp add: abort_def)
next
  case (Some t)
  note ok = assms [unfolded exclusionOk_def]
  have t: "taskOk (set (pending st)) t" using ok Some by (simp add: tasksOk_def)
  show ?thesis
  proof (cases "i \<in> set (waiting st)")
    case False
    have "taskOk (set (pending st)) (t\<lparr>taskAborted := True\<rparr>)"
      using t by (auto simp: taskOk_def split: Phase.splits)
    then have "exclusionOk (st\<lparr>tasks := (tasks st)(i \<mapsto> t\<lparr>taskAborted := True\<rparr>)\<rparr>)"
      by (intro retask_keeps [OF assms Some]) (simp_all split: Phase.split)
    with False Some show ?thesis by (simp add: abort_def)
  next
    case True
    let ?st = "withdrawn i t st"
    let ?u = "t\<lparr>taskAborted := True, taskPhase := Settled (Some SignalAborted)\<rparr>"
    have "tasksOk ?st" by (rule tasksOk_upd [of st ?u _ i]) (use ok in \<open>simp_all add: taskOk_def\<close>)
    moreover have "diskOk ?st" using ok disk_cong [of ?st st] by simp
    ultimately have "exclusionOk (drain ?st)" using ok True Some by (intro drain_keeps withdrawn_ok) simp_all
    with True Some show ?thesis by (simp add: abort_def)
  qed
qed

lemma resume_keeps:
  assumes "exclusionOk st"
  shows "exclusionOk (resume i st)"
proof (cases "\<exists>t. tasks st i = Some t \<and> taskPhase t = Granted")
  case False
  with assms show ?thesis by (auto simp: resume_def split: option.splits)
next
  case True
  then obtain t where t: "tasks st i = Some t" "taskPhase t = Granted" by blast
  note ok = assms [unfolded exclusionOk_def]
  have released: "exclusionOk (release i outcome st)" for outcome
    by (rule release_keeps [OF _ _ _ _ t(1)]) (use ok t(2) in \<open>auto simp: tasksOk_def\<close>)
  have "exclusionOk (st\<lparr>tasks := (tasks st)(i \<mapsto> t\<lparr>taskPhase := Working False\<rparr>)\<rparr>)"
    if "\<not> list_ex (\<lambda>x. x \<in> set (pending st)) (taskIds t)"
  proof (rule retask_keeps [OF assms t(1)])
    have "taskOk (set (pending st)) t" using ok t(1) by (simp add: tasksOk_def)
    then show "taskOk (set (pending st)) (t\<lparr>taskPhase := Working False\<rparr>)"
      using that t(2) by (auto simp: taskOk_def list_ex_iff)
  qed (use t(2) in simp_all)
  with released t show ?thesis by (simp add: resume_def)
qed

text \<open>Other holders share nothing with a task that works, so its denials do not concern them.\<close>

lemma holders_apart:
  assumes "exclusionOk st" and "tasks st i = Some t" and "taskPhase t = Working b" and "j \<noteq> i" and "tasks st j = Some u"
    and "set denied' - set (taskIds t) = set (pending st) - set (taskIds t)"
  shows "taskOk (set denied') u"
proof -
  have ok: "taskOk (set (pending st)) u" using assms(1,5) by (simp add: exclusionOk_def tasksOk_def)
  have "heldIds (tasks st i) \<inter> heldIds (tasks st j) = {}"
    using assms(1,4) by (simp add: exclusionOk_def queueOk_def)
  then have "set (taskIds t) \<inter> set (taskIds u) = {}" if "taskPhase u = Working c" for c
    using that assms(2,3,5) by simp
  with ok assms(6) show ?thesis by (fastforce simp: taskOk_def split: Phase.splits)
qed

lemma working_ids:
  assumes "exclusionOk st" and "tasks st i = Some t" and "taskPhase t = Working b"
  shows "list_all ID (taskServiceIds t)" "set (taskServiceIds t) = set (taskIds t)"
    "list_all ID (pending st)" "distinct (pending st)"
    "if b then set (taskIds t) \<subseteq> set (pending st) else set (taskIds t) \<inter> set (pending st) = {}"
proof -
  have "taskOk (set (pending st)) t" using assms(1,2) by (simp add: exclusionOk_def tasksOk_def)
  with assms(3) show "list_all ID (taskServiceIds t)" "set (taskServiceIds t) = set (taskIds t)"
    "if b then set (taskIds t) \<subseteq> set (pending st) else set (taskIds t) \<inter> set (pending st) = {}"
    by (cases b; simp add: taskOk_def)+
  show "list_all ID (pending st)" "distinct (pending st)"
    using assms(1) by (simp_all add: exclusionOk_def diskOk_def validIds_def)
qed

lemma persist_queue:
  assumes "persist fault new st = (ok, st')" and "exclusionOk st"
  shows "queueOk st'" "drained st'" "agentUp st'"
proof -
  note frame = persist_frame [OF assms(1)]
  show "queueOk st'" by (rule queueOk_cong [of st]) (use assms(2) frame in \<open>simp_all add: exclusionOk_def\<close>)
  show "drained st'" using drained_cong [of st st'] assms(2) frame by (simp add: exclusionOk_def idsOf_def fun_eq_iff)
  show "agentUp st'" using assms(2) frame by (simp add: exclusionOk_def)
qed

lemma beginWork_keeps:
  assumes "exclusionOk st"
  shows "exclusionOk (beginWork i fault st)"
proof (cases "\<exists>t. tasks st i = Some t \<and> taskCreates t \<and> taskPhase t = Working False \<and> \<not> taskAborted t")
  case False
  with assms show ?thesis by (auto simp: beginWork_def split: option.splits)
next
  case True
  then obtain t where t: "tasks st i = Some t" "taskCreates t" "taskPhase t = Working False" "\<not> taskAborted t" by blast
  obtain ok st' where p: "persist fault (jsSet (pending st @ taskServiceIds t)) st = (ok, st')" by fastforce
  note frame = persist_frame [OF p] and queue = persist_queue [OF p assms] and ids = working_ids [OF assms t(1,3)]
  have disk: "diskOk st'"
    by (rule persist_disk [OF p]) (use assms ids(1,3) in \<open>auto simp: exclusionOk_def list_all_iff\<close>)
  show ?thesis
  proof (cases ok)
    case False
    then have "tasksOk st'" using assms frame by (simp add: exclusionOk_def tasksOk_def)
    with False t p queue disk show ?thesis by (simp add: beginWork_def exclusionOk_def)
  next
    case True
    let ?u = "t\<lparr>taskPhase := Working True\<rparr>"
    let ?st = "st'\<lparr>tasks := (tasks st')(i \<mapsto> ?u)\<rparr>"
    have new: "set (pending ?st) = set (pending st) \<union> set (taskIds t)" using True frame(6) ids(2) by simp
    have "queueOk ?st"
    proof (rule queueOk_cong [OF queue(1)])
      show "heldIds (tasks ?st j) = heldIds (tasks st' j)" for j using frame(1) t by simp
      show "isWaiting (tasks ?st j) = isWaiting (tasks st' j)" for j using frame(1) t by simp
      show "(tasks ?st j = None) = (tasks st' j = None)" for j using frame(1) t by simp
    qed simp_all
    moreover have "idsOf ?st = idsOf st'" using frame(1) t by (auto simp: idsOf_def)
    then have "drained ?st" using drained_cong [OF queue(2), of ?st] by simp
    moreover have "tasksOk ?st"
      unfolding tasksOk_def
    proof (intro allI impI)
      fix j u assume u: "tasks ?st j = Some u"
      show "taskOk (set (pending ?st)) u"
      proof (cases "j = i")
        case True
        with u ids(1,2) new show ?thesis by (auto simp: taskOk_def)
      next
        case False
        with u frame(1) have "tasks st j = Some u" by simp
        from holders_apart [OF assms t(1,3) False this, of "pending ?st"] new show ?thesis by blast
      qed
    qed
    moreover have "diskOk ?st" using disk disk_cong [of ?st st'] by simp
    ultimately have "exclusionOk ?st" using queue(3) by (simp add: exclusionOk_def)
    with True t p show ?thesis by (simp add: beginWork_def)
  qed
qed

lemma finish_keeps:
  assumes "exclusionOk st"
  shows "exclusionOk (finish i result fault st)"
proof (cases "\<exists>t b. tasks st i = Some t \<and> taskPhase t = Working b")
  case False
  with assms show ?thesis by (auto simp: finish_def split: option.splits Phase.splits)
next
  case True
  then obtain t b where t: "tasks st i = Some t" "taskPhase t = Working b" by blast
  note ids = working_ids [OF assms t]
  show ?thesis
  proof (cases "b \<and> result \<noteq> Some False")
    case False
    have "exclusionOk (release i (map_option WorkThrew result) st)"
      by (rule release_keeps [OF _ _ _ _ t(1)]) (use assms t(2) in \<open>auto simp: exclusionOk_def tasksOk_def\<close>)
    with False t show ?thesis by (auto simp: finish_def)
  next
    case True
    let ?new = "filter (\<lambda>x. x \<notin> set (taskServiceIds t)) (pending st)"
    obtain ok st' where p: "persist fault ?new st = (ok, st')" by fastforce
    note frame = persist_frame [OF p] and queue = persist_queue [OF p assms]
    have disk: "diskOk st'"
      by (rule persist_disk [OF p]) (use assms ids(3,4) in \<open>auto simp: exclusionOk_def list_all_iff\<close>)
    have others: "taskOk (set (pending st')) u" if "j \<noteq> i" "tasks st' j = Some u" for j u
    proof (rule holders_apart [OF assms t that(1)])
      show "tasks st j = Some u" using that(2) frame(1) by simp
      show "set (pending st') - set (taskIds t) = set (pending st) - set (taskIds t)" using frame(6) ids(2) by auto
    qed
    have "exclusionOk (release i outcome st')" for outcome
      by (rule release_keeps [OF queue(1) others disk queue(3)]) (use frame(1) t in auto)
    with True t p show ?thesis by (simp add: finish_def)
  qed
qed

lemma construct_keeps:
  assumes "diskOk st"
  shows "exclusionOk (construct st)" "set (pending (construct st)) = set (fileIds (pendingFile st))"
    "files (construct st) = files st"
proof -
  have "validIds (fileIds (pendingFile st))" using assms by (simp add: diskOk_def files_def)
  from read_valid [OF this] obtain ids where ids: "readPending (pendingFile st) = Some ids"
    "set ids = set (fileIds (pendingFile st))" "validIds ids" by blast
  have made: "construct st = st\<lparr>tasks := (\<lambda>_. None), nextTask := 0, active := [], waiting := [], pending := ids, agentUp := True\<rparr>"
    using ids(1) by (simp add: construct_def Let_def)
  show "files (construct st) = files st" by (simp add: made files_def)
  then show "exclusionOk (construct st)" "set (pending (construct st)) = set (fileIds (pendingFile st))"
    using assms ids by (simp_all add: made exclusionOk_def queueOk_def drained_def tasksOk_def diskOk_def)
qed

lemma crash_keeps:
  assumes "exclusionOk st"
  shows "exclusionOk (crash lost st)" "set (pending (crash lost st)) \<in> set ` files st" "files (crash lost st) \<subseteq> files st"
proof -
  define st' where "st' = (case lost of None \<Rightarrow> st
     | Some k \<Rightarrow> if k < length (superseded st) then st\<lparr>pendingFile := superseded st ! k, superseded := []\<rparr> else st)"
  have sub: "files st' \<subseteq> files st" "fileIds (pendingFile st') \<in> files st"
    unfolding st'_def files_def by (auto split: option.splits)
  have frame: "pending st' = pending st" "leftover st' = leftover st" unfolding st'_def by (auto split: option.splits)
  have "diskOk st'" using assms sub frame by (auto simp: exclusionOk_def diskOk_def)
  note made = construct_keeps [OF this]
  have "crash lost st = construct st'" by (simp add: crash_def st'_def)
  with made sub show "exclusionOk (crash lost st)" "set (pending (crash lost st)) \<in> set ` files st" "files (crash lost st) \<subseteq> files st"
    by auto
qed

lemma step_keeps:
  assumes "exclusionOk st"
  shows "exclusionOk (exclusionStep st e)"
proof (cases e)
  case (Request serviceIds creates aborted)
  with assms request_keeps show ?thesis by (simp add: exclusionOk_def)
qed (use assms abort_keeps resume_keeps beginWork_keeps finish_keeps crash_keeps(1) in simp_all)

lemma fresh_ok: "exclusionOk freshAgent"
  unfolding freshAgent_def by (rule construct_keeps(1)) (simp add: diskOk_def files_def fileIds_def validIds_def)

interpretation exclusion: reducer exclusionStep always exclusionOk
  by unfold_locales (rule step_keeps)

end
