(* ===== verification/Exclusion_Properties.thy ===== *)
theory Exclusion_Properties
  imports Exclusion_Invariants
begin

text \<open>
  What the lifecycle exclusion guarantees: exclusion, order, progress, and denials that outlive crashes.
\<close>

section \<open>Effects whose outcome is unknown\<close>

text \<open>
  What an observer knows: the services of a task that recorded the start of its effect are unresolved
  until the work of that very task succeeds or fails in a contained process. The code keeps no such
  list; it must keep these services denied.
\<close>

definition nextUnresolved :: "Exclusion \<Rightarrow> exclusionEvent \<Rightarrow> string list \<Rightarrow> string list" where
  "nextUnresolved st e unresolved =
     (case e of
        BeginWork i fault \<Rightarrow>
          (case (tasks st i, tasks (exclusionStep st e) i) of
             (Some t, Some u) \<Rightarrow>
               if taskPhase t = Working False \<and> taskPhase u = Working True then unresolved @ taskServiceIds t else unresolved
           | _ \<Rightarrow> unresolved)
      | Finish i result fault \<Rightarrow>
          (case tasks st i of
             Some t \<Rightarrow>
               if taskPhase t = Working True \<and> result \<noteq> Some False
               then filter (\<lambda>x. x \<notin> set (taskServiceIds t)) unresolved else unresolved
           | None \<Rightarrow> unresolved)
      | _ \<Rightarrow> unresolved)"

fun observe :: "Exclusion \<times> string list \<Rightarrow> exclusionEvent \<Rightarrow> Exclusion \<times> string list" where
  "observe (st, unresolved) e = (exclusionStep st e, nextUnresolved st e unresolved)"

definition denied :: "Exclusion \<Rightarrow> string list \<Rightarrow> bool" where
  "denied st unresolved \<longleftrightarrow> set unresolved \<subseteq> set (pending st) \<and> (\<forall>xs \<in> files st. set unresolved \<subseteq> set xs)"

definition watchOk :: "Exclusion \<times> string list \<Rightarrow> bool" where
  "watchOk w \<longleftrightarrow> exclusionOk (fst w) \<and> denied (fst w) (snd w)"

lemma denied_cong: "pending st' = pending st \<Longrightarrow> files st' = files st \<Longrightarrow> denied st' unresolved = denied st unresolved"
  by (simp add: denied_def)

lemma release_frame [simp]:
  "pending (release i outcome st) = pending st" "files (release i outcome st) = files st"
  by (simp_all add: release_def files_def)

lemma quiet_frame:
  "pending (request ids creates aborted st) = pending st" "files (request ids creates aborted st) = files st"
  "pending (abort i st) = pending st" "files (abort i st) = files st"
  "pending (resume i st) = pending st" "files (resume i st) = files st"
  by (simp_all add: request_def abort_def resume_def Let_def files_def release_def split: option.splits)

lemma begin_denied:
  assumes "exclusionOk st" and "denied st unresolved"
  shows "denied (beginWork i fault st) (nextUnresolved st (BeginWork i fault) unresolved)"
proof (cases "\<exists>t. tasks st i = Some t \<and> taskCreates t \<and> taskPhase t = Working False \<and> \<not> taskAborted t")
  case False
  then have "beginWork i fault st = st" by (auto simp: beginWork_def split: option.splits)
  with assms(2) show ?thesis by (auto simp: nextUnresolved_def split: option.splits)
next
  case True
  then obtain t where t: "tasks st i = Some t" "taskCreates t" "taskPhase t = Working False" "\<not> taskAborted t" by blast
  let ?new = "jsSet (pending st @ taskServiceIds t)"
  obtain ok st' where p: "persist fault ?new st = (ok, st')" by fastforce
  note frame = persist_frame [OF p]
  show ?thesis
  proof (cases ok)
    case True
    let ?st = "st'\<lparr>tasks := (tasks st')(i \<mapsto> t\<lparr>taskPhase := Working True\<rparr>)\<rparr>"
    have after: "beginWork i fault st = ?st" using t p True by (simp add: beginWork_def)
    have "files ?st = {sort ?new}" using frame(8) [OF True] by (simp add: files_def)
    moreover have "nextUnresolved st (BeginWork i fault) unresolved = unresolved @ taskServiceIds t"
      using t after by (simp add: nextUnresolved_def)
    ultimately show ?thesis using assms(2) frame(6) True by (auto simp: after denied_def)
  next
    case False
    then have after: "beginWork i fault st = st'" using t p by (simp add: beginWork_def)
    have "nextUnresolved st (BeginWork i fault) unresolved = unresolved"
      using t after frame(1) by (simp add: nextUnresolved_def)
    moreover have "denied st' unresolved"
      using assms(2) frame(6,7) False by (fastforce simp: denied_def)
    ultimately show ?thesis by (simp add: after)
  qed
qed

lemma finish_denied:
  assumes "exclusionOk st" and "denied st unresolved"
  shows "denied (finish i result fault st) (nextUnresolved st (Finish i result fault) unresolved)"
proof (cases "\<exists>t. tasks st i = Some t \<and> taskPhase t = Working True \<and> result \<noteq> Some False")
  case False
  then have "nextUnresolved st (Finish i result fault) unresolved = unresolved"
    by (auto simp: nextUnresolved_def split: option.splits)
  moreover have "pending (finish i result fault st) = pending st" "files (finish i result fault st) = files st"
    using False by (auto simp: finish_def split: option.splits Phase.splits)
  ultimately show ?thesis using assms(2) by (simp add: denied_def)
next
  case True
  then obtain t where t: "tasks st i = Some t" "taskPhase t = Working True" "result \<noteq> Some False" by blast
  let ?new = "filter (\<lambda>x. x \<notin> set (taskServiceIds t)) (pending st)"
  let ?left = "filter (\<lambda>x. x \<notin> set (taskServiceIds t)) unresolved"
  obtain ok st' where p: "persist fault ?new st = (ok, st')" by fastforce
  note frame = persist_frame [OF p]
  have "denied st' ?left"
    unfolding denied_def
  proof
    show "set ?left \<subseteq> set (pending st')" using assms(2) frame(6) by (auto simp: denied_def)
    show "\<forall>xs \<in> files st'. set ?left \<subseteq> set xs"
    proof
      fix xs assume "xs \<in> files st'"
      with frame(7) consider "xs = sort ?new" | "xs \<in> files st" by blast
      then show "set ?left \<subseteq> set xs" by cases (use assms(2) in \<open>auto simp: denied_def\<close>)
    qed
  qed
  moreover have "nextUnresolved st (Finish i result fault) unresolved = ?left" using t by (simp add: nextUnresolved_def)
  moreover have "pending (finish i result fault st) = pending st'" "files (finish i result fault st) = files st'"
    using t p by (simp_all add: finish_def)
  ultimately show ?thesis by (simp add: denied_def)
qed

lemma crash_denied:
  assumes "exclusionOk st" and "denied st unresolved"
  shows "denied (crash lost st) unresolved"
proof -
  obtain xs where "xs \<in> files st" "set (pending (crash lost st)) = set xs"
    using crash_keeps(2) [OF assms(1), of lost] by blast
  with assms(2) crash_keeps(3) [OF assms(1), of lost] show ?thesis unfolding denied_def by blast
qed

lemma observe_keeps:
  assumes "watchOk w"
  shows "watchOk (observe w e)"
proof (cases w)
  case (Pair st unresolved)
  with assms have ok: "exclusionOk st" "denied st unresolved" by (simp_all add: watchOk_def)
  have "denied (exclusionStep st e) (nextUnresolved st e unresolved)"
  proof (cases e)
    case (Request ids creates aborted)
    with ok(2) denied_cong [OF quiet_frame(1,2)] show ?thesis by (simp add: nextUnresolved_def)
  next
    case (Abort i)
    with ok(2) denied_cong [OF quiet_frame(3,4)] show ?thesis by (simp add: nextUnresolved_def)
  next
    case (Resume i)
    with ok(2) denied_cong [OF quiet_frame(5,6)] show ?thesis by (simp add: nextUnresolved_def)
  next
    case (BeginWork i fault)
    with begin_denied [OF ok] show ?thesis by simp
  next
    case (Finish i result fault)
    with finish_denied [OF ok] show ?thesis by simp
  next
    case (Crash lost)
    with crash_denied [OF ok] show ?thesis by (simp add: nextUnresolved_def)
  qed
  with Pair step_keeps [OF ok(1)] show ?thesis by (simp add: watchOk_def)
qed

interpretation watch: reducer observe always watchOk
  by unfold_locales (rule observe_keeps)

lemma fresh_watch: "watchOk (freshAgent, [])"
proof -
  have "denied freshAgent []" by (simp add: denied_def)
  with fresh_ok show ?thesis by (simp add: watchOk_def)
qed

section \<open>Who works\<close>

lemma drain_working:
  assumes "queueOk st" and "tasks (drain st) i = Some u" and "taskPhase u = Working b"
  shows "tasks st i = Some u"
proof -
  obtain granted where "tasks (drain st) = (\<lambda>i. if i \<in> granted then setPhase Granted (tasks st i) else tasks st i)"
    using drain_tasks [OF assms(1)] by blast
  with assms(2,3) show ?thesis by (cases "i \<in> granted"; cases "tasks st i") auto
qed

lemma release_working:
  assumes "queueOk st" and "tasks st j = Some t" and "heldIds (Some t) = set (taskIds t)" and "\<not> isWaiting (Some t)"
    and "tasks (release j outcome st) i = Some u" and "taskPhase u = Working b"
  shows "tasks st i = Some u"
proof -
  have "tasks (letGo j outcome st) i = Some u"
    using drain_working [OF letGo_ok [OF assms(1-4)] _ assms(6)] assms(5) by (simp only: release_def)
  with assms(2,6) show ?thesis by (cases "i = j") auto
qed

text \<open>A task works because it did before, or because it just found none of its services denied.\<close>

lemma step_working:
  assumes "exclusionOk st" and "tasks (exclusionStep st e) i = Some u" and "taskPhase u = Working b"
  shows "(\<exists>t c. tasks st i = Some t \<and> taskPhase t = Working c \<and> taskIds t = taskIds u) \<or> set (taskIds u) \<inter> set (pending st) = {}"
proof -
  have queue: "queueOk st" using assms(1) by (simp add: exclusionOk_def)
  show ?thesis
  proof (cases e)
    case (Request serviceIds creates aborted)
    then have made: "tasks (request serviceIds creates aborted st) i = Some u" using assms(1,2) by (simp add: exclusionOk_def)
    show ?thesis
    proof (rule request_cases [of serviceIds creates aborted st])
      fix why assume "request serviceIds creates aborted st = refused serviceIds creates aborted why st"
      with made assms(3) show ?thesis by (auto split: if_splits)
    next
      assume drained: "request serviceIds creates aborted st = drain (admitted serviceIds creates st)"
      with made have "tasks (admitted serviceIds creates st) i = Some u"
        using drain_working [OF admitted_ok [OF queue] _ assms(3)] by simp
      with assms(3) show ?thesis by (auto split: if_splits)
    qed
  next
    case (Abort j)
    show ?thesis
    proof (cases "tasks st j")
      case None
      with Abort assms(2,3) show ?thesis by (simp add: abort_def)
    next
      case (Some t)
      show ?thesis
      proof (cases "j \<in> set (waiting st)")
        case True
        with Abort Some assms(2) have "tasks (withdrawn j t st) i = Some u"
          using drain_working [OF withdrawn_ok [OF queue Some True] _ assms(3)] by (simp add: abort_def)
        with assms(3) show ?thesis by (auto split: if_splits)
      next
        case False
        with Abort Some assms(2,3) show ?thesis by (auto simp: abort_def split: if_splits)
      qed
    qed
  next
    case (Resume j)
    show ?thesis
    proof (cases "\<exists>t. tasks st j = Some t \<and> taskPhase t = Granted")
      case False
      with assms(2,3) Resume show ?thesis by (auto simp: resume_def split: option.splits)
    next
      case True
      then obtain t where t: "tasks st j = Some t" "taskPhase t = Granted" by blast
      show ?thesis
      proof (cases "taskAborted t \<or> list_ex (\<lambda>x. x \<in> set (pending st)) (taskIds t)")
        case True
        then have "\<exists>outcome. exclusionStep st e = release j outcome st" using Resume t by (simp add: resume_def) blast
        then have "tasks st i = Some u"
          using release_working [OF queue t(1) _ _ _ assms(3)] assms(2) t(2) by auto
        with assms(3) show ?thesis by blast
      next
        case False
        with assms(2,3) Resume t show ?thesis by (auto simp: resume_def list_ex_iff split: if_splits)
      qed
    qed
  next
    case (BeginWork j fault)
    show ?thesis
    proof (cases "\<exists>t. tasks st j = Some t \<and> taskCreates t \<and> taskPhase t = Working False \<and> \<not> taskAborted t")
      case False
      then have "beginWork j fault st = st" by (auto simp: beginWork_def split: option.splits)
      with assms(2,3) BeginWork show ?thesis by auto
    next
      case True
      then obtain t where t: "tasks st j = Some t" "taskCreates t" "taskPhase t = Working False" "\<not> taskAborted t" by blast
      obtain ok st' where p: "persist fault (jsSet (pending st @ taskServiceIds t)) st = (ok, st')" by fastforce
      with BeginWork t assms(2,3) persist_frame(1) [OF p] show ?thesis
        by (cases ok) (auto simp: beginWork_def split: if_splits)
    qed
  next
    case (Finish j result fault)
    show ?thesis
    proof (cases "\<exists>t c. tasks st j = Some t \<and> taskPhase t = Working c")
      case False
      then have "finish j result fault st = st" by (auto simp: finish_def split: option.splits Phase.splits)
      with assms(2,3) Finish show ?thesis by auto
    next
      case True
      then obtain t c where t: "tasks st j = Some t" "taskPhase t = Working c" by blast
      let ?new = "filter (\<lambda>x. x \<notin> set (taskServiceIds t)) (pending st)"
      obtain ok st' where p: "persist fault ?new st = (ok, st')" by fastforce
      note frame = persist_frame [OF p] and queue' = persist_queue(1) [OF p assms(1)]
      have "tasks st i = Some u"
      proof (cases "c \<and> result \<noteq> Some False")
        case True
        then have "\<exists>outcome. exclusionStep st e = release j outcome st'" using Finish t p by (cases ok; simp add: finish_def; blast)
        then obtain outcome where "tasks (release j outcome st') i = Some u" using assms(2) by auto
        from release_working [OF queue' _ _ _ this assms(3), of t] t frame(1) show ?thesis by simp
      next
        case False
        then have "\<exists>outcome. exclusionStep st e = release j outcome st" using Finish t by (auto simp: finish_def)
        then obtain outcome where "tasks (release j outcome st) i = Some u" using assms(2) by auto
        from release_working [OF queue t(1) _ _ this assms(3)] t(2) show ?thesis by simp
      qed
      with assms(3) show ?thesis by blast
    qed
  next
    case (Crash lost)
    have "tasks (construct s) i = None" for s by (simp add: construct_def Let_def split: option.splits)
    with assms(2) Crash show ?thesis by (simp add: crash_def)
  qed
qed

text \<open>A service of which nobody works, and whose effect is unresolved, is lost to the agent for good.\<close>

definition dead :: "string \<Rightarrow> Exclusion \<times> string list \<Rightarrow> bool" where
  "dead x w \<longleftrightarrow> watchOk w \<and> x \<in> set (snd w) \<and>
     (\<forall>i t b. tasks (fst w) i = Some t \<longrightarrow> taskPhase t = Working b \<longrightarrow> x \<notin> set (taskIds t))"

lemma dead_keeps:
  assumes "dead x w"
  shows "dead x (observe w e)"
proof (cases w)
  case (Pair st unresolved)
  with assms have ok: "exclusionOk st" "x \<in> set unresolved" "x \<in> set (pending st)"
    and idle: "\<And>i t b. tasks st i = Some t \<Longrightarrow> taskPhase t = Working b \<Longrightarrow> x \<notin> set (taskIds t)"
    by (auto simp: dead_def watchOk_def denied_def)
  have "x \<notin> set (taskIds u)" if "tasks (exclusionStep st e) i = Some u" "taskPhase u = Working b" for i u b
    using step_working [OF ok(1) that] idle ok(3) by (metis disjoint_iff)
  moreover have "x \<in> set (nextUnresolved st e unresolved)"
  proof (cases e)
    case (Finish i result fault)
    show ?thesis
    proof (cases "tasks st i")
      case (Some t)
      have "x \<notin> set (taskServiceIds t)" if "taskPhase t = Working True"
        using idle [OF Some that] working_ids(2) [OF ok(1) Some that] by simp
      with Some Finish ok(2) show ?thesis by (simp add: nextUnresolved_def)
    qed (simp add: nextUnresolved_def Finish ok(2))
  qed (use ok(2) in \<open>auto simp: nextUnresolved_def split: option.splits\<close>)
  ultimately show ?thesis
    using Pair observe_keeps [of w e] assms by (simp add: dead_def)
qed

interpretation dead: absorbing_reducer observe always "dead x" for x
  by unfold_locales (rule dead_keeps)

section \<open>Who comes first\<close>

lemma drain_order:
  assumes "distinct (waiting st)" and "waiting st = us @ v # vs" and "w \<in> set vs"
    and "w \<notin> set (waiting (drain st))" and "v \<in> set (waiting (drain st))"
  shows "set (idsOf st w) \<inter> set (idsOf st v) = {}"
proof -
  obtain granted rest final where loop: "drainLoop (idsOf st) (active st) [] (waiting st) = (granted, rest, final)"
    by (cases "drainLoop (idsOf st) (active st) [] (waiting st)") auto
  then have rest: "waiting (drain st) = rest" by (simp add: drain_def)
  have "w \<in> set granted" using drainLoop_parts(1) [OF loop] assms(2-4) rest by auto
  with drainLoop_order [OF loop assms(2) _ assms(3) _ assms(1)] assms(5) rest show ?thesis by simp
qed

lemma drain_head:
  assumes "waiting st = i # ws" and "set (idsOf st i) \<inter> set (active st) = {}"
  shows "tasks (drain st) i = setPhase Granted (tasks st i)"
  using assms by (auto simp: drain_def list_ex_iff split: prod.splits)

lemma drained_order:
  assumes "queueOk st" and "waiting st = us @ v # vs" and "w \<in> set vs"
    and "tasks (drain st) w = Some u" and "taskPhase u = Granted" and "v \<in> set (waiting (drain st))"
  shows "set (idsOf st w) \<inter> set (idsOf st v) = {}"
proof (rule drain_order [OF _ assms(2,3) _ assms(6)])
  show "distinct (waiting st)" using assms(1) by (simp add: queueOk_def)
  have "\<not> isWaiting (tasks (drain st) w)" using assms(4,5) by simp
  then show "w \<notin> set (waiting (drain st))" using drain_ok(1) [OF assms(1)] by (simp add: queueOk_def)
qed

lemma release_order:
  assumes "queueOk st" and "tasks st j = Some t" and "heldIds (Some t) = set (taskIds t)" and "\<not> isWaiting (Some t)"
    and "waiting st = us @ v # vs" and "w \<in> set vs"
    and "tasks (release j outcome st) w = Some u" and "taskPhase u = Granted" and "v \<in> set (waiting (release j outcome st))"
  shows "set (idsOf st w) \<inter> set (idsOf st v) = {}"
proof -
  have ids: "idsOf (letGo j outcome st) k = idsOf st k" for k using assms(2) by (simp add: idsOf_def)
  have "waiting (letGo j outcome st) = us @ v # vs" using assms(5) by simp
  from drained_order [OF letGo_ok [OF assms(1-4)] this assms(6)] assms(7-9)
  show ?thesis unfolding release_def ids by blast
qed

section \<open>An example\<close>

definition sharedRun :: "exclusionEvent list" where
  "sharedRun = [Request [''a'', ''b''] True False, Request [''b''] False False, Request [''c''] False False, Resume 0]"

definition brokenRun :: "exclusionEvent list" where
  "brokenRun = [Request [''a''] True False, Resume 0, BeginWork 0 NoFault, Crash None]"

definition retriedRun :: "exclusionEvent list" where
  "retriedRun = [Request [''a''] True False, Resume 0]"

lemma exclusion_run: "reaches exclusionStep always freshAgent (foldl exclusionStep freshAgent es)"
  by (rule reaches_foldl)

lemma example_phases:
  "map_option taskPhase (tasks (foldl exclusionStep freshAgent sharedRun) 0) = Some (Working False)"
  "map_option taskPhase (tasks (foldl exclusionStep freshAgent sharedRun) 1) = Some Waiting"
  "map_option taskPhase (tasks (foldl exclusionStep freshAgent sharedRun) 2) = Some Granted"
  by code_simp+

section \<open>Properties\<close>

text \<open>
  C17. Two tasks never change a service at the same time: in every run, whatever the signals, failures and
  restarts, tasks that were granted or work share no service.
\<close>

theorem services_exclusive:
  assumes "reaches exclusionStep always freshAgent st" and "i \<noteq> j"
    and "tasks st i = Some t" and "taskPhase t \<in> {Granted, Working False, Working True}"
    and "tasks st j = Some u" and "taskPhase u \<in> {Granted, Working False, Working True}"
  shows "set (taskIds t) \<inter> set (taskIds u) = {}"
proof -
  have "heldIds (tasks st i) \<inter> heldIds (tasks st j) = {}"
    using exclusion.reaches_inv [OF assms(1) fresh_ok] assms(2) by (simp add: exclusionOk_def queueOk_def)
  with assms(3-6) show ?thesis by auto
qed

theorem services_exclusive_witness:
  "\<exists>t u. tasks (foldl exclusionStep freshAgent sharedRun) 0 = Some t \<and>
     tasks (foldl exclusionStep freshAgent sharedRun) 2 = Some u \<and> set (taskIds t) \<inter> set (taskIds u) = {}"
proof -
  obtain t u where t: "tasks (foldl exclusionStep freshAgent sharedRun) 0 = Some t" "taskPhase t = Working False"
    and u: "tasks (foldl exclusionStep freshAgent sharedRun) 2 = Some u" "taskPhase u = Granted"
    using example_phases(1,3) by (auto simp del: foldl.simps)
  with services_exclusive [OF exclusion_run [of sharedRun], of 0 2 t u] show ?thesis by simp
qed

text \<open>
  C18. An effect whose outcome is unknown denies its services for good: when a task recorded that it begins and
  then the agent died, or its work failed other than in a contained process, no task ever works on one
  of its services again, through all restarts, failing writes and lost renames.
\<close>

theorem unresolved_denied_forever:
  assumes "reaches observe always (freshAgent, []) (st, unresolved)" and "x \<in> set unresolved"
    and "\<And>i t. tasks st i = Some t \<Longrightarrow> taskPhase t = Working True \<Longrightarrow> x \<notin> set (taskIds t)"
    and "reaches observe always (st, unresolved) (st', unresolved')"
    and "tasks st' i = Some t" and "taskPhase t = Working b"
  shows "x \<notin> set (taskIds t)"
proof -
  have ok: "watchOk (st, unresolved)" by (rule watch.reaches_inv [OF assms(1) fresh_watch])
  then have x: "x \<in> set (pending st)" using assms(2) by (auto simp: watchOk_def denied_def)
  have "x \<notin> set (taskIds u)" if "tasks st k = Some u" "taskPhase u = Working c" for k u c
  proof (cases c)
    case True
    with that assms(3) show ?thesis by simp
  next
    case False
    with ok that x working_ids(5) [of st k u False] show ?thesis by (auto simp: watchOk_def)
  qed
  then have "dead x (st, unresolved)" using ok assms(2) by (auto simp: dead_def)
  from dead.absorbed [OF this assms(4)] assms(5,6) show ?thesis by (auto simp: dead_def)
qed

theorem unresolved_denied_forever_witness:
  "\<exists>st st' unresolved'. observe (foldl observe (freshAgent, []) (butlast brokenRun)) (Crash None) = (st, [''a'']) \<and>
     foldl observe (st, [''a'']) retriedRun = (st', unresolved') \<and>
     (\<forall>t. tasks st' 0 = Some t \<longrightarrow> taskPhase t = Working False \<longrightarrow> ''a'' \<notin> set (taskIds t))"
proof -
  have "snd (foldl observe (freshAgent, []) brokenRun) = [''a'']" by code_simp
  then obtain st where st: "foldl observe (freshAgent, []) brokenRun = (st, [''a''])" by (metis prod.collapse)
  obtain st' unresolved' where st': "foldl observe (st, [''a'']) retriedRun = (st', unresolved')" by fastforce
  have run: "reaches observe always (freshAgent, []) (st, [''a''])" using reaches_foldl [of observe "(freshAgent, [])" brokenRun] st by simp
  have again: "reaches observe always (st, [''a'']) (st', unresolved')" using reaches_foldl [of observe "(st, [''a''])" retriedRun] st' by simp
  have made: "observe (foldl observe (freshAgent, []) (butlast brokenRun)) (Crash None) = (st, [''a''])"
    using st by (simp add: brokenRun_def)
  have "tasks (construct s) i = None" for s i by (simp add: construct_def Let_def split: option.splits)
  with made have "tasks st i = None" for i
    by (cases "foldl observe (freshAgent, []) (butlast brokenRun)") (auto simp: crash_def)
  with unresolved_denied_forever [OF run _ _ again, of "''a''" 0] made st' show ?thesis by auto
qed

text \<open>
  Nobody waits without a reason: a waiting task shares a service with a task that was granted or works, or
  with a task that waits before it. In particular nobody waits when nobody works.
\<close>

theorem no_needless_wait:
  assumes "reaches exclusionStep always freshAgent st" and "waiting st = us @ i # vs"
  shows "\<exists>x \<in> set (idsOf st i). (\<exists>j. x \<in> heldIds (tasks st j)) \<or> (\<exists>j \<in> set us. x \<in> set (idsOf st j))"
proof -
  have ok: "queueOk st" "drained st"
    using exclusion.reaches_inv [OF assms(1) fresh_ok] by (simp_all add: exclusionOk_def)
  then have "set (idsOf st i) \<inter> (set (active st) \<union> (\<Union>j \<in> set us. set (idsOf st j))) \<noteq> {}"
    using assms(2) by (auto simp: drained_def blockedQueue_append)
  with ok(1) show ?thesis unfolding queueOk_def by blast
qed

theorem no_needless_wait_witness:
  "\<exists>x \<in> set (idsOf (foldl exclusionStep freshAgent sharedRun) 1).
     (\<exists>j. x \<in> heldIds (tasks (foldl exclusionStep freshAgent sharedRun) j)) \<or>
     (\<exists>j \<in> set []. x \<in> set (idsOf (foldl exclusionStep freshAgent sharedRun) j))"
proof (rule no_needless_wait [OF exclusion_run])
  show "waiting (foldl exclusionStep freshAgent sharedRun) = [] @ 1 # []" by code_simp
qed

text \<open>
  The first in line is served: when the last task that shares a service with the first waiting task ends,
  with whatever result and even when the file cannot be written, the first is granted in that very step.
\<close>

theorem first_in_line_granted:
  assumes "reaches exclusionStep always freshAgent st" and "waiting st = i # ws"
    and "tasks st j = Some t" and "taskPhase t = Working b"
    and "\<And>k. k \<noteq> j \<Longrightarrow> heldIds (tasks st k) \<inter> set (idsOf st i) = {}"
  shows "\<exists>u. tasks (exclusionStep st (Finish j result fault)) i = Some u \<and> taskPhase u = Granted"
proof -
  have inv: "exclusionOk st" using exclusion.reaches_inv [OF assms(1) fresh_ok] .
  then have "i \<in> set (waiting st) \<longleftrightarrow> isWaiting (tasks st i)" unfolding exclusionOk_def queueOk_def by blast
  with assms(2) have waits: "isWaiting (tasks st i)" by simp
  then obtain u where u: "tasks st i = Some u" "taskPhase u = Waiting" by (auto simp: isWaiting_def)
  with assms(3,4) have "i \<noteq> j" by auto
  have granted: "tasks (release j outcome s) i = Some (u\<lparr>taskPhase := Granted\<rparr>)"
    if "tasks s = tasks st" "active s = active st" "waiting s = waiting st" for s outcome
  proof -
    let ?s = "letGo j outcome s"
    have "set (idsOf ?s i) \<inter> set (active ?s) = {}"
    proof -
      have "set (active st) = (\<Union>k. heldIds (tasks st k))" using inv by (simp add: exclusionOk_def queueOk_def)
      moreover have "heldIds (tasks st j) = set (idsOf st j)" using assms(3,4) by (simp add: idsOf_def)
      moreover have "idsOf ?s i = idsOf st i" "idsOf s j = idsOf st j" using that(1) \<open>i \<noteq> j\<close> by (simp_all add: idsOf_def)
      moreover have "heldIds (tasks st k) \<inter> set (idsOf st i) \<subseteq> set (idsOf st j)" for k
        using assms(5) [of k] \<open>heldIds (tasks st j) = set (idsOf st j)\<close> by (cases "k = j") auto
      ultimately show ?thesis using that(2) by simp blast
    qed
    moreover have "waiting ?s = i # ws" using that(3) assms(2) by simp
    ultimately have "tasks (drain ?s) i = setPhase Granted (tasks ?s i)" by (intro drain_head)
    with that(1) u(1) \<open>i \<noteq> j\<close> show ?thesis by (simp only: release_def) simp
  qed
  let ?new = "filter (\<lambda>x. x \<notin> set (taskServiceIds t)) (pending st)"
  obtain ok st' where p: "persist fault ?new st = (ok, st')" by fastforce
  note frame = persist_frame [OF p]
  have "\<exists>s outcome. exclusionStep st (Finish j result fault) = release j outcome s \<and>
      tasks s = tasks st \<and> active s = active st \<and> waiting s = waiting st"
  proof (cases "b \<and> result \<noteq> Some False")
    case True
    with assms(3,4) p have "\<exists>outcome. exclusionStep st (Finish j result fault) = release j outcome st'"
      by (cases ok; simp add: finish_def; blast)
    with frame show ?thesis by blast
  next
    case False
    with assms(3,4) have "\<exists>outcome. exclusionStep st (Finish j result fault) = release j outcome st"
      by (auto simp: finish_def)
    then show ?thesis by blast
  qed
  with granted show ?thesis by auto
qed

theorem first_in_line_granted_witness:
  "\<exists>u. tasks (exclusionStep (foldl exclusionStep freshAgent sharedRun) (Finish 0 None OpenFails)) 1 = Some u \<and> taskPhase u = Granted"
proof -
  let ?st = "foldl exclusionStep freshAgent sharedRun"
  obtain t where t: "tasks ?st 0 = Some t" "taskPhase t = Working False"
    using example_phases(1) by auto
  have shape: "waiting ?st = [1]" "idsOf ?st 1 = [''b'']" "idsOf ?st 2 = [''c'']" "nextTask ?st = 3" by code_simp+
  have "heldIds (tasks ?st k) \<inter> set (idsOf ?st 1) = {}" if "k \<noteq> 0" for k
  proof (cases "k < 3")
    case True
    with that consider "k = 1" | "k = 2" by linarith
    then show ?thesis
    proof cases
      case 1
      with example_phases(2) show ?thesis by auto
    next
      case 2
      with shape(2,3) show ?thesis by (auto simp: idsOf_def heldIds_def split: option.splits Phase.splits)
    qed
  next
    case False
    have "tasks ?st k = None"
      using False shape(4) exclusion.reaches_inv [OF exclusion_run [of sharedRun] fresh_ok]
      by (auto simp: exclusionOk_def queueOk_def)
    then show ?thesis by simp
  qed
  then show ?thesis by (intro first_in_line_granted [OF exclusion_run shape(1) t]) simp_all
qed

text \<open>
  First come, first served: a task is not granted before an earlier one that stays in the queue unless the
  two share nothing.
\<close>

theorem no_overtaking:
  assumes "reaches exclusionStep always freshAgent st" and "waiting st = us @ v # vs" and "w \<in> set vs"
    and "tasks (exclusionStep st e) w = Some u" and "taskPhase u = Granted" and "v \<in> set (waiting (exclusionStep st e))"
  shows "set (idsOf st w) \<inter> set (idsOf st v) = {}"
proof -
  have inv: "exclusionOk st" using exclusion.reaches_inv [OF assms(1) fresh_ok] .
  then have queue: "queueOk st" and up: "agentUp st" by (simp_all add: exclusionOk_def)
  have both: "v \<in> set (waiting st)" "w \<in> set (waiting st)" "distinct (us @ v # vs)"
    using assms(2,3) queue by (simp_all add: queueOk_def)
  have waits: "isWaiting (tasks st w)" "isWaiting (tasks st v)" using both(1,2) queue unfolding queueOk_def by blast+
  then have changed: "tasks (exclusionStep st e) w \<noteq> tasks st w" using assms(4,5) by (auto simp: isWaiting_def)
  show ?thesis
  proof (cases e)
    case (Request serviceIds creates aborted)
    with up have step: "exclusionStep st e = request serviceIds creates aborted st" by simp
    have old: "w \<noteq> nextTask st" "v \<noteq> nextTask st" using next_fresh [OF queue] both by auto
    show ?thesis
    proof (rule request_cases [of serviceIds creates aborted st])
      fix why assume "request serviceIds creates aborted st = refused serviceIds creates aborted why st"
      with changed step old show ?thesis by simp
    next
      assume made: "request serviceIds creates aborted st = drain (admitted serviceIds creates st)"
      have "waiting (admitted serviceIds creates st) = us @ v # (vs @ [nextTask st])" using assms(2) by simp
      from drained_order [OF admitted_ok [OF queue] this _ _ assms(5)] assms(3,4,6) step made
      have "set (idsOf (admitted serviceIds creates st) w) \<inter> set (idsOf (admitted serviceIds creates st) v) = {}" by simp
      with old show ?thesis by (simp add: idsOf_def)
    qed
  next
    case (Abort j)
    show ?thesis
    proof (cases "\<exists>t. tasks st j = Some t \<and> j \<in> set (waiting st)")
      case False
      with Abort changed waits(1) both(2) show ?thesis by (auto simp: abort_def split: option.splits if_splits)
    next
      case True
      then obtain t where t: "tasks st j = Some t" "j \<in> set (waiting st)" by blast
      with Abort have step: "exclusionStep st e = drain (withdrawn j t st)" by (simp add: abort_def)
      note ok = withdrawn_ok [OF queue t]
      have "isWaiting (tasks (withdrawn j t st) k) \<longleftrightarrow> k \<noteq> j \<and> isWaiting (tasks st k)" for k by simp
      moreover have "isWaiting (tasks (drain (withdrawn j t st)) v)"
        using assms(6) step drain_ok(1) [OF ok] unfolding queueOk_def by simp
      moreover obtain granted where g: "\<And>i. i \<in> granted \<Longrightarrow> isWaiting (tasks (withdrawn j t st) i)"
        "tasks (drain (withdrawn j t st)) = (\<lambda>i. if i \<in> granted then setPhase Granted (tasks (withdrawn j t st) i)
           else tasks (withdrawn j t st) i)"
        by (rule drain_tasks [OF ok]) blast
      ultimately have "v \<noteq> j" by (auto split: if_splits)
      moreover have "j \<notin> granted" using g(1) [of j] by auto
      then have "w \<noteq> j" using g(2) assms(4,5) step by (auto split: if_splits)
      ultimately obtain us' vs' where "waiting (withdrawn j t st) = us' @ v # vs'" "w \<in> set vs'"
        using assms(2,3) by (cases "j \<in> set us") (auto simp: remove1_append)
      from drained_order [OF ok this _ assms(5)] assms(4,6) step
      have "set (idsOf (withdrawn j t st) w) \<inter> set (idsOf (withdrawn j t st) v) = {}" by simp
      with \<open>v \<noteq> j\<close> \<open>w \<noteq> j\<close> show ?thesis by (simp add: idsOf_def)
    qed
  next
    case (Resume j)
    show ?thesis
    proof (cases "\<exists>t. tasks st j = Some t \<and> taskPhase t = Granted")
      case False
      with Resume changed show ?thesis by (auto simp: resume_def split: option.splits)
    next
      case True
      then obtain t where t: "tasks st j = Some t" "taskPhase t = Granted" by blast
      with waits(1) have "w \<noteq> j" by auto
      show ?thesis
      proof (cases "taskAborted t \<or> list_ex (\<lambda>x. x \<in> set (pending st)) (taskIds t)")
        case True
        then have "\<exists>outcome. exclusionStep st e = release j outcome st" using Resume t by (simp add: resume_def) blast
        then obtain outcome where "exclusionStep st e = release j outcome st" by blast
        with release_order [OF queue t(1) _ _ assms(2,3) _ assms(5)] t(2) assms(4,6) show ?thesis by simp
      next
        case False
        with Resume t changed \<open>w \<noteq> j\<close> show ?thesis by (simp add: resume_def)
      qed
    qed
  next
    case (BeginWork j fault)
    have "tasks (beginWork j fault st) w = tasks st w"
    proof (cases "w = j")
      case True
      with waits(1) show ?thesis by (auto simp: beginWork_def isWaiting_def)
    next
      case False
      then show ?thesis
        by (auto simp: beginWork_def persist_frame(1) split: option.splits prod.splits)
    qed
    with BeginWork changed show ?thesis by simp
  next
    case (Finish j result fault)
    show ?thesis
    proof (cases "\<exists>t c. tasks st j = Some t \<and> taskPhase t = Working c")
      case False
      then have "finish j result fault st = st" by (auto simp: finish_def split: option.splits Phase.splits)
      with Finish changed show ?thesis by simp
    next
      case True
      then obtain t c where t: "tasks st j = Some t" "taskPhase t = Working c" by blast
      let ?new = "filter (\<lambda>x. x \<notin> set (taskServiceIds t)) (pending st)"
      obtain ok st' where p: "persist fault ?new st = (ok, st')" by fastforce
      note frame = persist_frame [OF p] and queue' = persist_queue(1) [OF p inv]
      show ?thesis
      proof (cases "c \<and> result \<noteq> Some False")
        case True
        then have "\<exists>outcome. exclusionStep st e = release j outcome st'"
          using Finish t p by (cases ok; simp add: finish_def; blast)
        then obtain outcome where "exclusionStep st e = release j outcome st'" by blast
        with release_order [OF queue' _ _ _ _ assms(3) _ assms(5), of j t us v outcome] t frame(1,4) assms(2,4,6)
        show ?thesis by (simp add: idsOf_def)
      next
        case False
        then have "\<exists>outcome. exclusionStep st e = release j outcome st" using Finish t by (auto simp: finish_def)
        then obtain outcome where "exclusionStep st e = release j outcome st" by blast
        with release_order [OF queue t(1) _ _ assms(2,3) _ assms(5)] t(2) assms(4,6) show ?thesis by simp
      qed
    qed
  next
    case (Crash lost)
    have "tasks (construct s) k = None" for s k by (simp add: construct_def Let_def split: option.splits)
    with assms(4) Crash show ?thesis by (simp add: crash_def)
  qed
qed

definition crowdedRun :: "exclusionEvent list" where
  "crowdedRun = [Request [''a''] False False, Request [''b''] False False, Request [''a'', ''c''] False False,
     Request [''b''] False False, Resume 0, Resume 1]"

theorem no_overtaking_witness:
  "set (idsOf (foldl exclusionStep freshAgent crowdedRun) 3) \<inter> set (idsOf (foldl exclusionStep freshAgent crowdedRun) 2) = {}"
proof -
  let ?st = "foldl exclusionStep freshAgent crowdedRun"
  let ?e = "Finish 1 None NoFault"
  have facts: "waiting ?st = [] @ 2 # [3]" "map_option taskPhase (tasks (exclusionStep ?st ?e) 3) = Some Granted"
    "waiting (exclusionStep ?st ?e) = [2]" by code_simp+
  then obtain u where "tasks (exclusionStep ?st ?e) 3 = Some u" "taskPhase u = Granted" by auto
  with no_overtaking [OF exclusion_run facts(1), of 3 ?e u] facts(3) show ?thesis by simp
qed

text \<open>
  The agent can always start again: whenever it dies, also between the steps of a write or with a rename
  lost, the file it finds holds at most 256 distinct identifiers in at most 64 KiB, so the denials are
  read and never refused. Without a lost rename they are exactly those of the file.
\<close>

theorem restart_accepts:
  assumes "reaches exclusionStep always freshAgent st"
  shows "agentUp (crash lost st) \<and> length (pending (crash lost st)) \<le> 256 \<and> distinct (pending (crash lost st)) \<and>
    jsonBytes (fileIds (pendingFile st)) \<le> 64 * 1024 \<and> set (pending (crash None st)) = set (fileIds (pendingFile st))"
proof -
  have ok: "exclusionOk st" by (rule exclusion.reaches_inv [OF assms fresh_ok])
  then have disk: "diskOk st" "validIds (fileIds (pendingFile st))" by (simp_all add: exclusionOk_def diskOk_def files_def)
  have "exclusionOk (crash lost st)" by (rule crash_keeps(1) [OF ok])
  moreover have "jsonBytes (fileIds (pendingFile st)) \<le> 64 * 1024"
    using disk(2) by (intro jsonBytes_bound) (simp_all add: validIds_def)
  moreover have "crash None st = construct st" by (simp add: crash_def)
  ultimately show ?thesis
    using construct_keeps(2) [OF disk(1)] by (simp add: exclusionOk_def diskOk_def validIds_def)
qed

theorem restart_accepts_witness:
  "agentUp (crash None (foldl exclusionStep freshAgent brokenRun)) \<and> set (fileIds (pendingFile (foldl exclusionStep freshAgent brokenRun))) = {''a''}"
proof -
  have "set (fileIds (pendingFile (foldl exclusionStep freshAgent brokenRun))) = {''a''}" by code_simp
  with restart_accepts [OF exclusion_run [of brokenRun], of None] show ?thesis by simp
qed

end
