(* ===== verification/Service_Actions.thy ===== *)
theory Service_Actions
  imports Prelude
begin

text \<open>
  \<open>apps/ops-agent/src/service-action-policy.ts\<close>: which action the operations agent offers for a
  service, and how it is carried out.
\<close>

datatype ServiceAction = ActStart | ActStop | ActRestart | ActUpdate | ActBuild | ActLogs | ActPull | ActApply

datatype ActionExecution = Direct | Workflow | Host

datatype ActionReason = Disabled | NotOwned | NotRunning | ControlPlane | HostOnly | Unavailable | NotBuildable

datatype ActionWorkflow = CoreRestart | SystemUpdate | CoordinatorApply | CoordinatorUpdate | ImageStage

record ServiceActionDecision =
  available :: bool
  execution :: ActionExecution
  reason :: "ActionReason option"
  workflow :: "ActionWorkflow option"

record AuthorityService =
  asServiceId :: string
  asBuiltIn :: bool
  asBuildable :: bool
  asCreationDependencies :: "string list option"

record ServiceAuthority =
  enabledServiceIds :: "string list"
  authorityServices :: "AuthorityService list"

datatype ContainerState = IsRunning | IsStopped | IsCreated | IsRestarting | IsPaused | IsUnknown

record OwnedServiceSnapshot =
  snapServiceId :: string
  snapState :: ContainerState

definition controlPlane :: "string list" where
  "controlPlane = [''ops-agent'', ''app-api'', ''traefik'']"

definition dependencies :: "string list" where
  "dependencies = [''postgis'', ''redis'']"

definition deniedAction :: "ActionReason \<Rightarrow> ActionExecution \<Rightarrow> ActionWorkflow option \<Rightarrow> ServiceActionDecision" where
  "deniedAction why ex flow = \<lparr>available = False, execution = ex, reason = Some why, workflow = flow\<rparr>"

definition directAction :: ServiceActionDecision where
  "directAction = \<lparr>available = True, execution = Direct, reason = None, workflow = None\<rparr>"

definition workflowAction :: "ActionWorkflow \<Rightarrow> ServiceActionDecision" where
  "workflowAction flow = \<lparr>available = True, execution = Workflow, reason = None, workflow = Some flow\<rparr>"

definition decidedService :: "ServiceAuthority \<Rightarrow> OwnedServiceSnapshot option \<Rightarrow> AuthorityService option" where
  "decidedService authority snapshot =
     (case snapshot of
        Some snap \<Rightarrow> find (\<lambda>s. asServiceId s = snapServiceId snap) (authorityServices authority)
      | None \<Rightarrow> (case authorityServices authority of [s] \<Rightarrow> Some s | _ \<Rightarrow> None))"

definition upAndRunning :: "OwnedServiceSnapshot \<Rightarrow> bool" where
  "upAndRunning snap \<longleftrightarrow> snapState snap \<in> {IsRunning, IsRestarting, IsPaused}"

definition decideServiceAction ::
  "ServiceAuthority \<Rightarrow> OwnedServiceSnapshot option \<Rightarrow> ServiceAction \<Rightarrow> ServiceActionDecision"
where
  "decideServiceAction authority snapshot action =
     (case decidedService authority snapshot of
        None \<Rightarrow> deniedAction NotOwned Direct None
      | Some service \<Rightarrow>
          let i = asServiceId service; enabled = i \<in> set (enabledServiceIds authority)
          in if action = ActLogs then (if snapshot \<noteq> None then directAction else deniedAction NotOwned Direct None)
          else if action = ActPull
          then (if \<not> enabled then deniedAction Disabled Direct None
                else if i \<in> set controlPlane \<or> i \<in> set dependencies \<or> i = ''data-manager'' then workflowAction ImageStage
                else directAction)
          else if i \<in> set controlPlane
          then (if action = ActRestart \<and> i \<noteq> ''ops-agent''
                then (if \<not> asBuiltIn service \<or> \<not> enabled then deniedAction Disabled Workflow (Some CoreRestart)
                      else (case snapshot of
                              None \<Rightarrow> deniedAction NotOwned Workflow (Some CoreRestart)
                            | Some snap \<Rightarrow>
                                if \<not> upAndRunning snap then deniedAction NotRunning Workflow (Some CoreRestart)
                                else workflowAction CoreRestart))
                else deniedAction ControlPlane Direct None)
          else if i \<in> set dependencies then deniedAction HostOnly Host None
          else if action \<noteq> ActStop \<and> \<not> enabled then deniedAction Disabled Direct None
          else if i = ''data-manager'' \<and> (action = ActApply \<or> action = ActUpdate)
          then workflowAction (if action = ActApply then CoordinatorApply else CoordinatorUpdate)
          else if action \<in> {ActStart, ActApply, ActUpdate} \<and> i \<noteq> ''data-manager'' \<and>
                  (case asCreationDependencies service of None \<Rightarrow> False | Some ds \<Rightarrow> ''data-manager'' \<in> set ds)
          then deniedAction Unavailable Direct None
          else if action = ActBuild \<and> (\<not> asBuiltIn service \<or> \<not> asBuildable service) then deniedAction NotBuildable Direct None
          else if action = ActStop \<or> action = ActRestart
          then (case snapshot of
                  None \<Rightarrow> deniedAction NotOwned Direct None
                | Some snap \<Rightarrow> if \<not> upAndRunning snap then deniedAction NotRunning Direct None else directAction)
          else directAction)"

text \<open>\<open>serviceActionDecisionSchema\<close> (\<open>core/src/ops/service-results.ts\<close>): what a decision sent to a client must satisfy.\<close>

definition serviceActionDecisionSchema :: "ServiceActionDecision \<Rightarrow> bool" where
  "serviceActionDecisionSchema d \<longleftrightarrow>
     (if available d
      then reason d = None \<and> (if execution d = Direct then workflow d = None else execution d = Workflow \<and> workflow d \<noteq> None)
      else reason d \<noteq> None \<and> (execution d \<noteq> Host \<or> reason d = Some HostOnly))"

lemmas decision_simps = deniedAction_def directAction_def workflowAction_def

lemma decided_known:
  assumes "decidedService authority snapshot = Some service"
  shows "service \<in> set (authorityServices authority)" "\<And>snap. snapshot = Some snap \<Longrightarrow> asServiceId service = snapServiceId snap"
  using assms by (auto simp: decidedService_def find_Some_iff split: option.splits list.splits)

lemma schema_simps [simp]:
  "serviceActionDecisionSchema (deniedAction why ex flow) \<longleftrightarrow> ex \<noteq> Host \<or> why = HostOnly"
  "serviceActionDecisionSchema directAction" "serviceActionDecisionSchema (workflowAction task)"
  by (simp_all add: serviceActionDecisionSchema_def decision_simps)

lemma available_simps [simp]:
  "\<not> available (deniedAction why ex flow)" "available directAction" "available (workflowAction task)"
  "execution directAction = Direct" "execution (workflowAction task) = Workflow"
  by (simp_all add: decision_simps)

text \<open>
  Every decision passes the schema clients check it with.\<close>

theorem decision_passes_schema: "serviceActionDecisionSchema (decideServiceAction authority snapshot action)"
  by (cases "decidedService authority snapshot"; cases action; cases snapshot) (simp_all add: decideServiceAction_def Let_def)

text \<open>
  C30. The agent never offers to change what it rests on: for the databases only pulls and logs are available,
  and of the control plane a service can only be restarted, by the workflow made for it, except the
  agent itself; a disabled service can at most be stopped or its log read.
\<close>

theorem protected_services:
  assumes "decidedService authority snapshot = Some service"
    and "available (decideServiceAction authority snapshot action)"
  shows "(asServiceId service \<in> set dependencies \<longrightarrow> action \<in> {ActLogs, ActPull}) \<and>
    (asServiceId service \<in> set controlPlane \<longrightarrow> action \<in> {ActLogs, ActPull, ActRestart}) \<and>
    (asServiceId service = ''ops-agent'' \<longrightarrow> action \<noteq> ActRestart) \<and>
    (asServiceId service \<in> set controlPlane \<union> set dependencies \<and> action \<noteq> ActLogs \<longrightarrow>
       execution (decideServiceAction authority snapshot action) = Workflow) \<and>
    (asServiceId service \<notin> set (enabledServiceIds authority) \<longrightarrow> action \<in> {ActStop, ActLogs})"
proof -
  have apart: "i \<in> set dependencies \<Longrightarrow> i \<notin> set controlPlane" "''ops-agent'' \<in> set controlPlane" for i
    by (auto simp: controlPlane_def dependencies_def)
  from assms apart show ?thesis
    by (cases action; cases snapshot; auto simp: decideServiceAction_def Let_def split: if_splits)
qed

theorem protected_services_witness:
  "execution (decideServiceAction
     \<lparr>enabledServiceIds = [''traefik''],
      authorityServices = [\<lparr>asServiceId = ''traefik'', asBuiltIn = True, asBuildable = False, asCreationDependencies = None\<rparr>]\<rparr>
     (Some \<lparr>snapServiceId = ''traefik'', snapState = IsRunning\<rparr>) ActRestart) = Workflow"
  using protected_services [of
      "\<lparr>enabledServiceIds = [''traefik''],
        authorityServices = [\<lparr>asServiceId = ''traefik'', asBuiltIn = True, asBuildable = False, asCreationDependencies = None\<rparr>]\<rparr>"
      "Some \<lparr>snapServiceId = ''traefik'', snapState = IsRunning\<rparr>" _ ActRestart]
  by (simp add: decideServiceAction_def decidedService_def decision_simps controlPlane_def dependencies_def upAndRunning_def)

end
