(* ===== verification/Ev_Sites.thy ===== *)
theory Ev_Sites
  imports Prelude Complex_Main
begin

text \<open>
  Charging sites as the planner sees them: the types of \<open>mobility-core/src/types/ev-charging.ts\<close>, what a
  charge point is doing as far as a fresh reading says, and the charge point a vehicle would use
  (\<open>ev-charge-planner/src/plan.ts\<close>, \<open>core/src/utils/connector-standard.ts\<close>,
  \<open>normalize-operator.ts\<close>). Numbers are rationals.
\<close>

section \<open>Sites\<close>

datatype EvseStatus =
    StAvailable | StCharging | StOccupied | StReserved | StBlocked | StOutOfOrder | StInoperative | StPlanned
  | StRemoved | StUnknown

datatype CurrentStandard = AC | DC

record ChargingConnector =
  conKey :: string
  conStandard :: string
  conCurrent :: "CurrentStandard option"
  conMaxPowerKw :: "rat option"
  conMaxAmperage :: "rat option"
  conTariffIds :: "string list"
  conStatus :: "EvseStatus option"
  conStale :: bool

record Evse =
  evseQuantity :: nat
  evseLifecycle :: "string option"
  evseStatus :: "EvseStatus option"
  evseStale :: bool
  evseConnectors :: "ChargingConnector list"

record TariffRestrictions =
  startTime :: "string option"
  endTime :: "string option"
  startDate :: "string option"
  endDate :: "string option"
  restDays :: "string list option"
  minKwh :: "rat option"
  maxKwh :: "rat option"
  minCurrentA :: "rat option"
  maxCurrentA :: "rat option"
  minPowerKw :: "rat option"
  maxPowerKw :: "rat option"
  minDurationSec :: "rat option"
  maxDurationSec :: "rat option"
  reservation :: "string option"

datatype ComponentType = EnergyType | TimeType | FlatType | ParkingType | SessionType | IdleType | ReservationType | DistanceType

record TariffComponent =
  compType :: ComponentType
  compPrice :: rat
  compVatPct :: "rat option"
  compStepSize :: "rat option"

record TariffElement =
  components :: "TariffComponent list"
  restrictions :: "TariffRestrictions option"

record EnergyTariff =
  tariffId :: string
  tariffCurrency :: string
  tariffType :: "string option"
  elements :: "TariffElement list"
  minPrice :: "rat option"
  maxPrice :: "rat option"
  priceIncludesVat :: bool

type_synonym LngLat = "rat \<times> rat"

record ChargingSite =
  siteId :: string
  siteCoordinates :: LngLat
  siteTimeZone :: "string option"
  siteOperator :: "string option"
  siteClosed :: bool
  sitePlanned :: bool
  siteEvses :: "Evse list"
  siteTariffs :: "EnergyTariff list"

record EvVehicleSpec =
  batteryKwh :: rat
  baseWhPerKm :: rat
  massTonnes :: rat
  maxDcKw :: rat
  maxAcKw :: rat
  vehicleTaperSocPct :: rat
  vehicleConnectors :: "string list"

section \<open>Live status\<close>

definition NOT_LIVE :: "EvseStatus list" where
  "NOT_LIVE = [StUnknown, StPlanned, StRemoved]"

definition freshStatus :: "EvseStatus option \<Rightarrow> bool \<Rightarrow> EvseStatus option" where
  "freshStatus status stale =
     (case status of None \<Rightarrow> None | Some s \<Rightarrow> if s \<notin> set NOT_LIVE \<and> \<not> stale then Some s else None)"

definition freshEvseStatus :: "Evse \<Rightarrow> EvseStatus option" where
  "freshEvseStatus evse =
     (if evseQuantity evse > 1 then None
      else case freshStatus (evseStatus evse) (evseStale evse) of
        Some own \<Rightarrow> Some own
      | None \<Rightarrow>
          let byConnector = filter (\<lambda>c. freshStatus (conStatus c) (conStale c) \<noteq> None) (evseConnectors evse)
          in case (case find (\<lambda>c. conStatus c = Some StAvailable) byConnector of
                     Some c \<Rightarrow> Some c
                   | None \<Rightarrow> (case byConnector of [] \<Rightarrow> None | c # _ \<Rightarrow> Some c)) of
               None \<Rightarrow> None
             | Some pick \<Rightarrow> conStatus pick)"

definition availabilityOf :: "ChargingSite \<Rightarrow> (nat \<times> nat) option" where
  "availabilityOf site =
     (let (free, total) = foldl (\<lambda>(free, total) evse.
            case freshEvseStatus evse of
              None \<Rightarrow> (free, total)
            | Some status \<Rightarrow> (if status = StAvailable then free + evseQuantity evse else free, total + evseQuantity evse))
            (0, 0) (siteEvses site)
      in if total = 0 then None else Some (free, total))"

section \<open>Networks\<close>

fun splitChar :: "char \<Rightarrow> string \<Rightarrow> string \<Rightarrow> string list" where
  "splitChar sep cur [] = [rev cur]"
| "splitChar sep cur (c # cs) = (if c = sep then rev cur # splitChar sep [] cs else splitChar sep (c # cur) cs)"

definition operatorKeyMatches :: "string \<Rightarrow> string \<Rightarrow> bool" where
  "operatorKeyMatches a b \<longleftrightarrow>
     a \<noteq> [] \<and> b \<noteq> [] \<and>
     (a = b \<or>
      (let as = splitChar CHR '' '' [] a; bs = splitChar CHR '' '' [] b;
           (shorter, longer) = (if length as \<le> length bs then (as, bs) else (bs, as))
       in take (length shorter) longer = shorter))"

definition matchesAnyOperator :: "string \<Rightarrow> string list option \<Rightarrow> bool" where
  "matchesAnyOperator key keys \<longleftrightarrow>
     key \<noteq> [] \<and> (case keys of None \<Rightarrow> False | Some ks \<Rightarrow> list_ex (operatorKeyMatches key) ks)"

section \<open>The charge point a vehicle uses\<close>

definition STANDARDS :: "(string \<times> string) list" where
  "STANDARDS =
     [(''IEC_62196_T2'', ''type2''), (''IEC_62196_T2_COMBO'', ''ccs2''), (''IEC_62196_T1'', ''type1''),
      (''IEC_62196_T1_COMBO'', ''ccs1''), (''CHADEMO'', ''chademo''), (''SAE_J3400'', ''nacs''), (''TESLA_S'', ''nacs''),
      (''IEC_62196_T3A'', ''type3''), (''IEC_62196_T3C'', ''type3''), (''GBT_AC'', ''gbt_ac''), (''GBT_DC'', ''gbt_dc'')]"

definition connectorStandardOf :: "string \<Rightarrow> string option" where
  "connectorStandardOf standard = map_of STANDARDS standard"

definition DC_STANDARDS :: "string list" where
  "DC_STANDARDS = [''ccs1'', ''ccs2'', ''chademo'', ''gbt_dc'', ''nacs'', ''tesla_ccs'']"

definition UNUSABLE :: "EvseStatus list" where
  "UNUSABLE = [StOutOfOrder, StInoperative, StPlanned, StRemoved]"

definition NOT_IN_SERVICE :: "string list" where
  "NOT_IN_SERVICE = [''planned'', ''temporarily_closed'', ''decommissioned'']"

record EvsePick =
  pickedEvse :: Evse
  pickedConnector :: ChargingConnector
  pickedStandard :: string
  pickedPowerKw :: rat

definition accepts :: "EvVehicleSpec \<Rightarrow> string \<Rightarrow> bool" where
  "accepts vehicle standard \<longleftrightarrow>
     standard \<in> set (vehicleConnectors vehicle) \<or>
     standard = ''nacs'' \<and> ''tesla_ccs'' \<in> set (vehicleConnectors vehicle)"

definition currentOf :: "ChargingConnector \<Rightarrow> string \<Rightarrow> CurrentStandard" where
  "currentOf connector standard =
     (case conCurrent connector of Some c \<Rightarrow> c | None \<Rightarrow> if standard \<in> set DC_STANDARDS then DC else AC)"

definition liveStatus :: "EvseStatus option \<Rightarrow> bool \<Rightarrow> EvseStatus option" where
  "liveStatus status stale = (if stale then None else status)"

definition unusable :: "EvseStatus option \<Rightarrow> bool" where
  "unusable status = (case status of None \<Rightarrow> False | Some s \<Rightarrow> s \<in> set UNUSABLE)"

definition outOfService :: "Evse \<Rightarrow> bool" where
  "outOfService evse \<longleftrightarrow>
     (case evseLifecycle evse of None \<Rightarrow> False | Some l \<Rightarrow> l \<in> set NOT_IN_SERVICE) \<or>
     unusable (liveStatus (evseStatus evse) (evseStale evse)) \<or> unusable (freshEvseStatus evse)"

definition considerConnector ::
  "EvVehicleSpec \<Rightarrow> Evse \<Rightarrow> (EvsePick \<times> bool) option \<Rightarrow> ChargingConnector \<Rightarrow> (EvsePick \<times> bool) option"
where
  "considerConnector vehicle evse best connector =
     (if unusable (liveStatus (conStatus connector) (conStale connector)) then best
      else case connectorStandardOf (conStandard connector) of
        None \<Rightarrow> best
      | Some standard \<Rightarrow>
          if \<not> accepts vehicle standard then best
          else let powerKw = (case conMaxPowerKw connector of None \<Rightarrow> 0 | Some p \<Rightarrow> p);
                   free = (freshEvseStatus evse = Some StAvailable)
               in if powerKw \<le> 0 then best
                  else if (case best of
                             None \<Rightarrow> True
                           | Some (pick, bestFree) \<Rightarrow>
                               powerKw > pickedPowerKw pick \<or> powerKw = pickedPowerKw pick \<and> free \<and> \<not> bestFree)
                  then Some (\<lparr>pickedEvse = evse, pickedConnector = connector, pickedStandard = standard, pickedPowerKw = powerKw\<rparr>, free)
                  else best)"

definition considerEvse :: "EvVehicleSpec \<Rightarrow> (EvsePick \<times> bool) option \<Rightarrow> Evse \<Rightarrow> (EvsePick \<times> bool) option" where
  "considerEvse vehicle best evse =
     (if outOfService evse then best else foldl (considerConnector vehicle evse) best (evseConnectors evse))"

definition pickEvse :: "ChargingSite \<Rightarrow> EvVehicleSpec \<Rightarrow> EvsePick option" where
  "pickEvse site vehicle =
     (if siteClosed site \<or> sitePlanned site then None
      else map_option fst (foldl (considerEvse vehicle) None (siteEvses site)))"

definition powerCaps :: "EvsePick \<Rightarrow> EvVehicleSpec \<Rightarrow> rat \<times> rat" where
  "powerCaps pick vehicle =
     (pickedPowerKw pick,
      if currentOf (pickedConnector pick) (pickedStandard pick) = DC then maxDcKw vehicle else maxAcKw vehicle)"

section \<open>The best choice\<close>

text \<open>What a usable connector is, and when one choice beats another.\<close>

definition usableConnector :: "EvVehicleSpec \<Rightarrow> Evse \<Rightarrow> ChargingConnector \<Rightarrow> bool" where
  "usableConnector vehicle evse connector \<longleftrightarrow>
     \<not> outOfService evse \<and> connector \<in> set (evseConnectors evse) \<and>
     \<not> unusable (liveStatus (conStatus connector) (conStale connector)) \<and>
     (\<exists>standard. connectorStandardOf (conStandard connector) = Some standard \<and> accepts vehicle standard) \<and>
     (\<exists>p. conMaxPowerKw connector = Some p \<and> p > 0)"

definition isFree :: "Evse \<Rightarrow> bool" where
  "isFree evse \<longleftrightarrow> freshEvseStatus evse = Some StAvailable"

definition goodPick :: "EvVehicleSpec \<Rightarrow> (Evse \<times> ChargingConnector) set \<Rightarrow> (EvsePick \<times> bool) option \<Rightarrow> bool" where
  "goodPick vehicle seen best \<longleftrightarrow>
     (case best of
        None \<Rightarrow> (\<forall>(e, c) \<in> seen. \<not> usableConnector vehicle e c)
      | Some (pick, free) \<Rightarrow>
          (pickedEvse pick, pickedConnector pick) \<in> seen \<and> usableConnector vehicle (pickedEvse pick) (pickedConnector pick) \<and>
          connectorStandardOf (conStandard (pickedConnector pick)) = Some (pickedStandard pick) \<and>
          conMaxPowerKw (pickedConnector pick) = Some (pickedPowerKw pick) \<and> free = isFree (pickedEvse pick) \<and>
          (\<forall>(e, c) \<in> seen. usableConnector vehicle e c \<longrightarrow>
             (\<exists>p. conMaxPowerKw c = Some p \<and>
                (p < pickedPowerKw pick \<or> p = pickedPowerKw pick \<and> (isFree e \<longrightarrow> free)))))"

lemma considerConnector_good:
  assumes "goodPick vehicle seen best" and "connector \<in> set (evseConnectors evse)" and "\<not> outOfService evse"
  shows "goodPick vehicle (insert (evse, connector) seen) (considerConnector vehicle evse best connector)"
proof (cases "usableConnector vehicle evse connector")
  case False
  have "considerConnector vehicle evse best connector = best"
    using False assms(2,3) by (auto simp: considerConnector_def usableConnector_def Let_def split: option.split)
  with False assms(1) show ?thesis by (auto simp: goodPick_def split: option.splits)
next
  case True
  then obtain standard p where c: "connectorStandardOf (conStandard connector) = Some standard" "accepts vehicle standard"
    "conMaxPowerKw connector = Some p" "p > 0" "\<not> unusable (liveStatus (conStatus connector) (conStale connector))"
    by (auto simp: usableConnector_def)
  let ?new = "(\<lparr>pickedEvse = evse, pickedConnector = connector, pickedStandard = standard, pickedPowerKw = p\<rparr>, isFree evse)"
  show ?thesis
  proof (cases best)
    case None
    then have "considerConnector vehicle evse best connector = Some ?new" using c by (simp add: considerConnector_def isFree_def)
    with None assms(1) True c show ?thesis by (auto simp: goodPick_def)
  next
    case (Some b)
    obtain pick free where b: "b = (pick, free)" by (cases b)
    show ?thesis
    proof (cases "p > pickedPowerKw pick \<or> p = pickedPowerKw pick \<and> isFree evse \<and> \<not> free")
      case better: True
      then have "considerConnector vehicle evse best connector = Some ?new" using c Some b by (simp add: considerConnector_def isFree_def)
      with Some b assms(1) True c better show ?thesis by (fastforce simp: goodPick_def)
    next
      case worse: False
      then have same: "considerConnector vehicle evse best connector = best" using c Some b by (auto simp: considerConnector_def isFree_def)
      from worse have "p < pickedPowerKw pick \<or> p = pickedPowerKw pick \<and> (isFree evse \<longrightarrow> free)" by auto
      with Some b assms(1) True c show ?thesis unfolding same by (auto simp: goodPick_def)
    qed
  qed
qed

lemma considerEvse_good:
  assumes "goodPick vehicle seen best"
  shows "goodPick vehicle (seen \<union> Pair evse ` set (evseConnectors evse)) (considerEvse vehicle best evse)"
proof (cases "outOfService evse")
  case True
  then have "\<not> usableConnector vehicle evse c" for c by (simp add: usableConnector_def)
  with True assms show ?thesis by (auto simp: considerEvse_def goodPick_def split: option.splits)
next
  case False
  have "goodPick vehicle (seen \<union> Pair evse ` set cs) (foldl (considerConnector vehicle evse) best cs)"
    if "set cs \<subseteq> set (evseConnectors evse)" for cs
    using that
  proof (induction cs rule: rev_induct)
    case (snoc c cs)
    then have "goodPick vehicle (insert (evse, c) (seen \<union> Pair evse ` set cs))
        (considerConnector vehicle evse (foldl (considerConnector vehicle evse) best cs) c)"
      using False by (intro considerConnector_good) simp_all
    then show ?case by simp
  qed (simp add: assms)
  with False show ?thesis by (simp add: considerEvse_def)
qed

definition usables :: "EvVehicleSpec \<Rightarrow> ChargingSite \<Rightarrow> (Evse \<times> ChargingConnector) list" where
  "usables vehicle site =
     concat (map (\<lambda>e. map (Pair e) (filter (usableConnector vehicle e) (evseConnectors e))) (siteEvses site))"

lemma usables_set:
  "set (usables vehicle site) = {(e, c). e \<in> set (siteEvses site) \<and> usableConnector vehicle e c}"
  by (auto simp: usables_def usableConnector_def)

text \<open>
  The charge point chosen for a vehicle is one it can use, no usable one of the site has more power, and of
  those with the same power it is a free one if any is free; nothing is chosen exactly when the site is
  closed or planned or has nothing usable.
\<close>

theorem pickEvse_best:
  "case pickEvse site vehicle of
     None \<Rightarrow> siteClosed site \<or> sitePlanned site \<or> usables vehicle site = []
   | Some pick \<Rightarrow>
       (pickedEvse pick, pickedConnector pick) \<in> set (usables vehicle site) \<and>
       conMaxPowerKw (pickedConnector pick) = Some (pickedPowerKw pick) \<and>
       list_all (\<lambda>(e, c). \<exists>p. conMaxPowerKw c = Some p \<and>
          (p < pickedPowerKw pick \<or> p = pickedPowerKw pick \<and> isFree e \<le> isFree (pickedEvse pick)))
         (usables vehicle site)"
proof (cases "siteClosed site \<or> sitePlanned site")
  case True
  then show ?thesis by (auto simp: pickEvse_def)
next
  case False
  define seen where "seen = (\<Union>e \<in> set (siteEvses site). Pair e ` set (evseConnectors e))"
  have "goodPick vehicle (\<Union>e \<in> set es. Pair e ` set (evseConnectors e)) (foldl (considerEvse vehicle) None es)" for es
  proof (induction es rule: rev_induct)
    case (snoc e es)
    from considerEvse_good [OF this, of e] show ?case by (simp add: Un_commute)
  qed (simp add: goodPick_def)
  then have good: "goodPick vehicle seen (foldl (considerEvse vehicle) None (siteEvses site))" by (simp add: seen_def)
  have members: "set (usables vehicle site) = {(e, c) \<in> seen. usableConnector vehicle e c}"
    unfolding usables_set seen_def by (auto simp: usableConnector_def)
  show ?thesis
  proof (cases "foldl (considerEvse vehicle) None (siteEvses site)")
    case None
    with good have "set (usables vehicle site) = {}" unfolding members goodPick_def by auto
    with None False show ?thesis by (simp add: pickEvse_def)
  next
    case (Some b)
    obtain pick free where b: "b = (pick, free)" by (cases b)
    note facts = good [unfolded goodPick_def Some b option.case prod.case]
    have best: "\<forall>(e, c) \<in> seen. usableConnector vehicle e c \<longrightarrow>
        (\<exists>p. conMaxPowerKw c = Some p \<and> (p < pickedPowerKw pick \<or> p = pickedPowerKw pick \<and> (isFree e \<longrightarrow> free)))"
      and free: "free = isFree (pickedEvse pick)"
      using facts by - (elim conjE, assumption)+
    have "\<exists>p. conMaxPowerKw c = Some p \<and> (p < pickedPowerKw pick \<or> p = pickedPowerKw pick \<and> isFree e \<le> isFree (pickedEvse pick))"
      if "(e, c) \<in> seen" "usableConnector vehicle e c" for e c
      using bspec [OF best that(1)] that(2) free by auto
    then have "list_all (\<lambda>(e, c). \<exists>p. conMaxPowerKw c = Some p \<and>
        (p < pickedPowerKw pick \<or> p = pickedPowerKw pick \<and> isFree e \<le> isFree (pickedEvse pick))) (usables vehicle site)"
      unfolding list_all_iff members by auto
    moreover have "(pickedEvse pick, pickedConnector pick) \<in> set (usables vehicle site)"
      unfolding members using facts by simp
    ultimately show ?thesis using facts False Some b by (simp add: pickEvse_def)
  qed
qed

end
