(* ===== verification/Ev_Energy.thy ===== *)
theory Ev_Energy
  imports Ev_Sites
begin

text \<open>
  The energy a route needs (\<open>ev-charge-planner/src/consumption.ts\<close>) and the time a charge takes
  (\<open>charging.ts\<close>). Great-circle distances, which need floating trigonometry, are a parameter.
\<close>

section \<open>Consumption\<close>

record EvRoute =
  routeGeometry :: "LngLat list"
  routeElevation :: "rat list option"
  elevationInterval :: "rat option"
  routeDuration :: rat

definition GRAVITY_WH_PER_M_PER_TONNE :: rat where
  "GRAVITY_WH_PER_M_PER_TONNE = 9.81 * 1000 / 3600"

definition REGEN_FACTOR :: rat where
  "REGEN_FACTOR = 0.6"

definition tempDerate :: "rat \<Rightarrow> rat" where
  "tempDerate tempC = (let d = tempC - 20 in 1 + (if d < 0 then 0.012 * - d else 0.004 * d))"

fun climbEnergy :: "EvVehicleSpec \<Rightarrow> rat \<Rightarrow> rat \<Rightarrow> rat \<Rightarrow> rat list \<Rightarrow> rat list" where
  "climbEnergy vehicle temp segKm wh (previous # ele # rest) =
     (let flatWh = segKm * baseWhPerKm vehicle;
          dEle = ele - previous;
          gravWh = (if dEle \<ge> 0 then dEle * GRAVITY_WH_PER_M_PER_TONNE * massTonnes vehicle
                    else REGEN_FACTOR * dEle * GRAVITY_WH_PER_M_PER_TONNE * massTonnes vehicle);
          segWh = max 0 (flatWh + gravWh) * temp;
          wh' = wh + segWh
      in wh' / 1000 # climbEnergy vehicle temp segKm wh' (ele # rest))"
| "climbEnergy vehicle temp segKm wh _ = []"

fun driveEnergy :: "(LngLat \<Rightarrow> LngLat \<Rightarrow> rat) \<Rightarrow> rat \<Rightarrow> rat \<Rightarrow> LngLat list \<Rightarrow> rat list" where
  "driveEnergy haversineKm whPerKm wh (a # b # rest) =
     (let wh' = wh + haversineKm a b * whPerKm
      in wh' / 1000 # driveEnergy haversineKm whPerKm wh' (b # rest))"
| "driveEnergy haversineKm whPerKm wh _ = []"

definition climbs :: "EvRoute \<Rightarrow> (rat list \<times> rat) option" where
  "climbs route =
     (case (routeElevation route, elevationInterval route) of
        (Some es, Some interval) \<Rightarrow> if length es \<ge> 2 \<and> interval \<noteq> 0 then Some (es, interval) else None
      | _ \<Rightarrow> None)"

definition cumulativeEnergy :: "(LngLat \<Rightarrow> LngLat \<Rightarrow> rat) \<Rightarrow> EvRoute \<Rightarrow> EvVehicleSpec \<Rightarrow> rat \<Rightarrow> rat \<Rightarrow> rat list" where
  "cumulativeEnergy haversineKm route vehicle tempC derate =
     (case climbs route of
        Some (es, interval) \<Rightarrow> 0 # climbEnergy vehicle (tempDerate tempC) (interval / 1000) 0 es
      | None \<Rightarrow> 0 # driveEnergy haversineKm (baseWhPerKm vehicle * tempDerate tempC * derate) 0 (routeGeometry route))"

section \<open>Charging\<close>

record ChargeInput =
  fromSocKwh :: rat
  toSocKwh :: rat
  chargeBatteryKwh :: rat
  chargerPowerKw :: rat
  vehicleMaxKw :: rat
  taperSocPct :: rat

definition powerAt :: "rat \<Rightarrow> rat \<Rightarrow> rat \<Rightarrow> rat" where
  "powerAt socFrac peakKw taperFrac =
     (if socFrac \<le> taperFrac then peakKw
      else let t = (socFrac - taperFrac) / (1 - taperFrac) in peakKw * (1 - 0.85 * t))"

text \<open>The loop does not end when the step is zero: not returning is \<open>None\<close>.\<close>

partial_function (option) chargeLoop :: "ChargeInput \<Rightarrow> rat \<Rightarrow> rat \<Rightarrow> rat \<Rightarrow> rat option" where
  "chargeLoop inp peakKw e seconds =
     (if e < toSocKwh inp
      then let stepKwh = chargeBatteryKwh inp / 200;
               chunk = min stepKwh (toSocKwh inp - e);
               midFrac = (e + chunk / 2) / chargeBatteryKwh inp;
               kw = powerAt midFrac peakKw (taperSocPct inp / 100)
           in chargeLoop inp peakKw (e + stepKwh) (seconds + chunk / kw * 3600)
      else Some seconds)"

definition chargeSecondsFor :: "ChargeInput \<Rightarrow> rat option" where
  "chargeSecondsFor inp =
     (let peakKw = min (chargerPowerKw inp) (vehicleMaxKw inp)
      in if peakKw \<le> 0 \<or> toSocKwh inp \<le> fromSocKwh inp then Some 0
         else chargeLoop inp peakKw (fromSocKwh inp) 0)"

section \<open>The energy axis\<close>

lemma tempDerate_ge: "1 \<le> tempDerate t"
  by (simp add: tempDerate_def Let_def)

lemma sorted_step: "a \<le> b \<Longrightarrow> sorted (b # xs) \<Longrightarrow> sorted (a # b # xs)"
  for a b :: "'z :: linorder"
  by auto

lemma climb_sorted:
  assumes "0 \<le> temp"
  shows "sorted (wh / 1000 # climbEnergy vehicle temp segKm wh es)"
  using assms
proof (induction vehicle temp segKm wh es rule: climbEnergy.induct)
  case (1 vehicle temp segKm wh previous ele rest)
  let ?grav = "if ele - previous \<ge> 0 then (ele - previous) * GRAVITY_WH_PER_M_PER_TONNE * massTonnes vehicle
    else REGEN_FACTOR * (ele - previous) * GRAVITY_WH_PER_M_PER_TONNE * massTonnes vehicle"
  let ?seg = "max 0 (segKm * baseWhPerKm vehicle + ?grav) * temp"
  have "0 \<le> ?seg" using "1.prems" by simp
  moreover have "sorted ((wh + ?seg) / 1000 # climbEnergy vehicle temp segKm (wh + ?seg) (ele # rest))"
    by (rule "1.IH" [OF refl refl refl refl refl "1.prems"])
  ultimately show ?case
    unfolding climbEnergy.simps Let_def by (intro sorted_step) (simp_all add: divide_right_mono)
qed simp_all

lemma drive_sorted:
  assumes "0 \<le> whPerKm" and "\<And>a b. 0 \<le> haversineKm a b"
  shows "sorted (wh / 1000 # driveEnergy haversineKm whPerKm wh es)"
  using assms
proof (induction haversineKm whPerKm wh es rule: driveEnergy.induct)
  case (1 haversineKm whPerKm wh a b rest)
  let ?wh = "wh + haversineKm a b * whPerKm"
  have "0 \<le> haversineKm a b * whPerKm" using "1.prems" by simp
  moreover have "sorted (?wh / 1000 # driveEnergy haversineKm whPerKm ?wh (b # rest))"
    by (rule "1.IH" [OF refl "1.prems"(1)]) (rule "1.prems"(2))
  ultimately show ?case
    unfolding driveEnergy.simps Let_def by (intro sorted_step) (simp_all add: divide_right_mono)
qed simp_all

lemma climb_length: "length (climbEnergy vehicle temp segKm wh es) = length es - 1"
  by (induction vehicle temp segKm wh es rule: climbEnergy.induct) (simp_all add: Let_def)

lemma drive_length: "length (driveEnergy haversineKm whPerKm wh es) = length es - 1"
  by (induction haversineKm whPerKm wh es rule: driveEnergy.induct) (simp_all add: Let_def)

text \<open>
  The energy needed never falls along a route: the axis starts at nothing, has one entry per sample, and
  descents win back at most what they would cost.
\<close>

theorem energy_axis_sorted:
  assumes "0 \<le> baseWhPerKm vehicle" and "0 \<le> derate" and "\<And>a b. 0 \<le> haversineKm a b" and "routeGeometry route \<noteq> []"
  shows "sorted (cumulativeEnergy haversineKm route vehicle tempC derate) \<and>
    hd (cumulativeEnergy haversineKm route vehicle tempC derate) = 0 \<and>
    length (cumulativeEnergy haversineKm route vehicle tempC derate) =
      (case climbs route of Some (es, _) \<Rightarrow> length es | None \<Rightarrow> length (routeGeometry route))"
proof -
  have temp: "0 \<le> tempDerate tempC" using tempDerate_ge [of tempC] by linarith
  show ?thesis
  proof (cases "climbs route")
    case (Some c)
    obtain es interval where c: "c = (es, interval)" by (cases c)
    with Some have "length es \<ge> 2" by (auto simp: climbs_def split: option.splits if_splits)
    then show ?thesis
      using climb_sorted [OF temp, of 0 vehicle "interval / 1000" es] Some c
      by (simp add: cumulativeEnergy_def climb_length)
  next
    case None
    have "0 \<le> baseWhPerKm vehicle * tempDerate tempC * derate" using assms(1,2) temp by simp
    from drive_sorted [OF this assms(3), where wh = 0 and es = "routeGeometry route"] None assms(4) show ?thesis
      by (simp add: cumulativeEnergy_def drive_length)
  qed
qed

section \<open>The charging loop\<close>

lemma powerAt_bounds:
  assumes "0 < peak" and "f \<le> 1" and "taper < 1"
  shows "0.15 * peak \<le> powerAt f peak taper" "powerAt f peak taper \<le> peak" "0 < powerAt f peak taper"
proof -
  define t where "t = (f - taper) / (1 - taper)"
  have t: "0 \<le> t" "t \<le> 1" if "taper < f"
    using that assms(2,3) by (simp_all add: t_def divide_le_eq)
  have power: "powerAt f peak taper = (if f \<le> taper then peak else peak * (1 - 0.85 * t))"
    by (simp add: powerAt_def t_def Let_def)
  show low: "0.15 * peak \<le> powerAt f peak taper"
  proof (cases "f \<le> taper")
    case False
    with t have "0.15 \<le> 1 - 0.85 * t" by simp
    with assms(1) have "peak * 0.15 \<le> peak * (1 - 0.85 * t)" by (intro mult_left_mono) simp_all
    with False show ?thesis by (simp only: power if_False mult.commute [of _ peak])
  qed (use assms(1) in \<open>simp add: power\<close>)
  show "powerAt f peak taper \<le> peak"
  proof (cases "f \<le> taper")
    case False
    with t have "1 - 0.85 * t \<le> 1" by simp
    with assms(1) have "peak * (1 - 0.85 * t) \<le> peak * 1" by (intro mult_left_mono) simp_all
    with False show ?thesis by (simp add: power)
  qed (simp add: power)
  have "0 < 0.15 * peak" using assms(1) by simp
  with low show "0 < powerAt f peak taper" by (rule less_le_trans [rotated])
qed

lemma slower_charge:
  fixes c low kw high :: rat
  assumes "0 < c" and "0 < low" and "low \<le> kw" and "kw \<le> high"
  shows "c / high * 3600 \<le> c / kw * 3600" "c / kw * 3600 \<le> c / low * 3600"
proof -
  from assms have "0 < kw" "0 < high" by simp_all
  with assms show "c / high * 3600 \<le> c / kw * 3600" "c / kw * 3600 \<le> c / low * 3600"
    by (intro mult_right_mono divide_left_mono mult_pos_pos; simp)+
qed

lemma chargeLoop_bounds:
  assumes "0 < chargeBatteryKwh inp" and "toSocKwh inp \<le> chargeBatteryKwh inp" and "taperSocPct inp < 100" and "0 < peak"
    and "toSocKwh inp - e \<le> of_nat n * (chargeBatteryKwh inp / 200)"
  shows "\<exists>s. chargeLoop inp peak e seconds = Some s \<and>
    seconds + max 0 (toSocKwh inp - e) / peak * 3600 \<le> s \<and>
    s \<le> seconds + max 0 (toSocKwh inp - e) / (0.15 * peak) * 3600"
  using assms(5)
proof (induction n arbitrary: e seconds)
  case 0
  then have "\<not> e < toSocKwh inp" by simp
  then show ?case by (subst chargeLoop.simps) (simp add: max_def)
next
  case (Suc n)
  show ?case
  proof (cases "e < toSocKwh inp")
    case False
    then show ?thesis by (subst chargeLoop.simps) (simp add: max_def)
  next
    case True
    let ?step = "chargeBatteryKwh inp / 200"
    let ?chunk = "min ?step (toSocKwh inp - e)"
    let ?kw = "powerAt ((e + ?chunk / 2) / chargeBatteryKwh inp) peak (taperSocPct inp / 100)"
    have chunk: "0 < ?chunk" using True assms(1) by simp
    have half: "e + ?chunk / 2 \<le> toSocKwh inp"
    proof -
      have "e + c / 2 \<le> x" if "0 < c" "c \<le> x - e" for c x :: rat using that by simp
      from this [OF chunk] show ?thesis by simp
    qed
    have "(e + ?chunk / 2) / chargeBatteryKwh inp \<le> 1" using half assms(1,2) by (simp add: divide_le_eq)
    note kw = powerAt_bounds [OF assms(4) this, of "taperSocPct inp / 100"]
    have bounds: "?chunk / peak * 3600 \<le> ?chunk / ?kw * 3600" "?chunk / ?kw * 3600 \<le> ?chunk / (0.15 * peak) * 3600"
      using slower_charge [OF chunk _ kw(1,2)] assms(3,4) by simp_all
    have rest: "max 0 (toSocKwh inp - (e + ?step)) = max 0 (toSocKwh inp - e) - ?chunk"
      using True assms(1) by (simp add: max_def min_def)
    have "toSocKwh inp - (e + ?step) \<le> of_nat n * ?step" using Suc.prems by (simp add: algebra_simps)
    from Suc.IH [OF this, of "seconds + ?chunk / ?kw * 3600"] obtain s where s:
      "chargeLoop inp peak (e + ?step) (seconds + ?chunk / ?kw * 3600) = Some s"
      "seconds + ?chunk / ?kw * 3600 + (max 0 (toSocKwh inp - e) - ?chunk) / peak * 3600 \<le> s"
      "s \<le> seconds + ?chunk / ?kw * 3600 + (max 0 (toSocKwh inp - e) - ?chunk) / (0.15 * peak) * 3600"
      unfolding rest by blast
    have "chargeLoop inp peak e seconds = Some s"
      using s(1) True by (subst chargeLoop.simps) (simp add: Let_def)
    moreover have "seconds + max 0 (toSocKwh inp - e) / peak * 3600 \<le> s"
      using s(2) bounds(1) by (simp add: diff_divide_distrib left_diff_distrib)
    moreover have "s \<le> seconds + max 0 (toSocKwh inp - e) / (0.15 * peak) * 3600"
      using s(3) bounds(2) by (simp add: diff_divide_distrib left_diff_distrib)
    ultimately show ?thesis by blast
  qed
qed

lemma steps_suffice:
  fixes x step :: rat
  assumes "0 < step"
  shows "\<exists>n. x \<le> of_nat n * step"
proof
  have "x / step \<le> of_int \<lceil>x / step\<rceil>" by (rule le_of_int_ceiling)
  also have "\<dots> \<le> of_nat (nat \<lceil>x / step\<rceil>)" by (metis of_int_le_iff of_int_of_nat_eq nat_le_iff order_refl)
  finally show "x \<le> of_nat (nat \<lceil>x / step\<rceil>) * step" using assms by (simp add: pos_divide_le_eq)
qed

text \<open>
  C29. The charging loop ends, and its answer lies between charging all the way at peak power and charging all
  the way at the 15 percent of it left when the battery is full.
\<close>

theorem charge_time_bounds:
  assumes "0 < chargeBatteryKwh inp" and "toSocKwh inp \<le> chargeBatteryKwh inp" and "taperSocPct inp < 100"
    and "0 < min (chargerPowerKw inp) (vehicleMaxKw inp)" and "fromSocKwh inp \<le> toSocKwh inp"
  shows "\<exists>s. chargeSecondsFor inp = Some s \<and>
    (toSocKwh inp - fromSocKwh inp) / min (chargerPowerKw inp) (vehicleMaxKw inp) * 3600 \<le> s \<and>
    s \<le> (toSocKwh inp - fromSocKwh inp) / (0.15 * min (chargerPowerKw inp) (vehicleMaxKw inp)) * 3600"
proof (cases "toSocKwh inp = fromSocKwh inp")
  case True
  with assms(4) show ?thesis by (simp add: chargeSecondsFor_def Let_def)
next
  case False
  have "0 < chargeBatteryKwh inp / 200" using assms(1) by simp
  from steps_suffice [OF this] obtain n where "toSocKwh inp - fromSocKwh inp \<le> of_nat n * (chargeBatteryKwh inp / 200)"
    by blast
  note loop = chargeLoop_bounds [OF assms(1-4) this, of 0]
  have "max 0 (toSocKwh inp - fromSocKwh inp) = toSocKwh inp - fromSocKwh inp" using assms(5) by simp
  moreover have "chargeSecondsFor inp = chargeLoop inp (min (chargerPowerKw inp) (vehicleMaxKw inp)) (fromSocKwh inp) 0"
    using False assms(4,5) by (simp only: chargeSecondsFor_def Let_def not_le if_False) auto
  ultimately show ?thesis using loop by (simp only: add_0)
qed

theorem charge_time_bounds_witness:
  "\<exists>s. chargeSecondsFor \<lparr>fromSocKwh = 10, toSocKwh = 40, chargeBatteryKwh = 60, chargerPowerKw = 150, vehicleMaxKw = 100,
     taperSocPct = 80\<rparr> = Some s \<and> 1080 \<le> s \<and> s \<le> 7200"
  using charge_time_bounds [of "\<lparr>fromSocKwh = 10, toSocKwh = 40, chargeBatteryKwh = 60, chargerPowerKw = 150, vehicleMaxKw = 100,
     taperSocPct = 80\<rparr>"] by simp

theorem energy_axis_sorted_witness:
  "sorted (cumulativeEnergy (\<lambda>_ _. 1)
     \<lparr>routeGeometry = [(0, 0), (0, 1)], routeElevation = None, elevationInterval = None, routeDuration = 60\<rparr>
     \<lparr>batteryKwh = 60, baseWhPerKm = 150, massTonnes = 2, maxDcKw = 100, maxAcKw = 11, vehicleTaperSocPct = 80, vehicleConnectors = []\<rparr>
     20 1)"
  using energy_axis_sorted [of "\<lparr>batteryKwh = 60, baseWhPerKm = 150, massTonnes = 2, maxDcKw = 100, maxAcKw = 11,
     vehicleTaperSocPct = 80, vehicleConnectors = []\<rparr>" 1 "\<lambda>_ _. 1"
     "\<lparr>routeGeometry = [(0, 0), (0, 1)], routeElevation = None, elevationInterval = None, routeDuration = 60\<rparr>" 20] by simp

end
