(* ===== verification/Ev_Tariffs.thy ===== *)
theory Ev_Tariffs
  imports Ev_Sites "HOL-Library.List_Lexorder" "HOL-Library.Char_ord" "HOL-Library.Product_Lexorder"
begin

text \<open>
  What a charging session costs (\<open>ev-charge-planner/src/plan.ts\<close>, tariffs after OCPI). Restrictions on time
  compare texts; dates are counted in days with the proleptic Gregorian calendar, as \<open>Date\<close> does. The
  identity of a component object, which keys the map of shares, is its position in the tariff.
\<close>

section \<open>Dates\<close>

definition daysFromCivil :: "int \<Rightarrow> int \<Rightarrow> int \<Rightarrow> int" where
  "daysFromCivil y m d =
     (let y' = (if m \<le> 2 then y - 1 else y);
          era = y' div 400;
          yoe = y' mod 400;
          doy = (153 * (if m > 2 then m - 3 else m + 9) + 2) div 5 + d - 1;
          doe = yoe * 365 + yoe div 4 - yoe div 100 + doy
      in era * 146097 + doe - 719468)"

definition civilFromDays :: "int \<Rightarrow> int \<times> int \<times> int" where
  "civilFromDays days =
     (let z = days + 719468;
          era = z div 146097;
          doe = z mod 146097;
          yoe = (doe - doe div 1460 + doe div 36524 - doe div 146096) div 365;
          doy = doe - (365 * yoe + yoe div 4 - yoe div 100);
          mp = (5 * doy + 2) div 153;
          d = doy - (153 * mp + 2) div 5 + 1;
          m = (if mp < 10 then mp + 3 else mp - 9);
          y = yoe + era * 400
      in (if m \<le> 2 then y + 1 else y, m, d))"

definition WEEK :: "string list" where
  "WEEK = [''SU'', ''MO'', ''TU'', ''WE'', ''TH'', ''FR'', ''SA'']"

definition weekday :: "int \<Rightarrow> string" where
  "weekday days = WEEK ! nat ((days + 4) mod 7)"

definition pad :: "nat \<Rightarrow> int \<Rightarrow> string" where
  "pad n value = padStart n CHR ''0'' (showInt value)"

definition dateText :: "int \<Rightarrow> string" where
  "dateText days = (case civilFromDays days of (y, m, d) \<Rightarrow> pad 4 y @ ''-'' @ pad 2 m @ ''-'' @ pad 2 d)"

definition clockText :: "int \<Rightarrow> string" where
  "clockText minute = pad 2 (minute div 60) @ '':'' @ pad 2 (minute mod 60)"

text \<open>\<open>Date.UTC(y, m - 1, d)\<close> of a \<open>YYYY-MM-DD\<close> text, in days.\<close>

definition daysOf :: "string \<Rightarrow> int" where
  "daysOf date =
     (case map parseDigits (splitChar CHR ''-'' [] date) of
        y # m # d # _ \<Rightarrow> daysFromCivil (int y) (int m) 1 + int d - 1
      | _ \<Rightarrow> 0)"

record LocalArrival =
  arrDate :: string
  arrTime :: string
  arrDay :: string

definition MINUTES_PER_DAY :: int where "MINUTES_PER_DAY = 24 * 60"

definition minutesOf :: "string \<Rightarrow> int" where
  "minutesOf time = int (parseDigits (take 2 time)) * 60 + int (parseDigits (take 2 (drop 3 time)))"

definition localAfter :: "LocalArrival \<Rightarrow> rat \<Rightarrow> LocalArrival" where
  "localAfter start seconds =
     (let wall = minutesOf (arrTime start) + \<lfloor>seconds / 60\<rfloor>;
          days = wall div MINUTES_PER_DAY;
          minute = wall - days * MINUTES_PER_DAY;
          date = daysOf (arrDate start) + days
      in \<lparr>arrDate = dateText date, arrTime = clockText minute, arrDay = weekday date\<rparr>)"

definition dayBefore :: "string \<Rightarrow> string" where
  "dayBefore day =
     (case find (\<lambda>i. WEEK ! i = day) [0..<7] of
        None \<Rightarrow> WEEK ! 5
      | Some i \<Rightarrow> WEEK ! ((i + 6) mod 7))"

section \<open>Restrictions\<close>

record SessionFacts =
  factPowerKw :: rat
  factArrival :: LocalArrival
  factAddedKwh :: rat
  factChargeSeconds :: rat

definition withinBounds :: "rat \<Rightarrow> rat option \<Rightarrow> rat option \<Rightarrow> bool" where
  "withinBounds value low high \<longleftrightarrow>
     (case low of None \<Rightarrow> True | Some l \<Rightarrow> value \<ge> l) \<and> (case high of None \<Rightarrow> True | Some h \<Rightarrow> value < h)"

text \<open>An absent or empty text is falsy.\<close>

definition given :: "string option \<Rightarrow> string option" where
  "given t = (if t = Some [] then None else t)"

definition withinWindow :: "string \<Rightarrow> string option \<Rightarrow> string option \<Rightarrow> bool" where
  "withinWindow time start stop \<longleftrightarrow>
     (case (given start, given stop) of
        (Some s, Some e) \<Rightarrow> if s > e then time \<ge> s \<or> time < e else time \<ge> s \<and> time < e
      | (Some s, None) \<Rightarrow> time \<ge> s
      | (None, Some e) \<Rightarrow> time < e
      | (None, None) \<Rightarrow> True)"

definition eligibleFor :: "TariffElement \<Rightarrow> SessionFacts \<Rightarrow> ChargingConnector \<Rightarrow> bool" where
  "eligibleFor element session connector \<longleftrightarrow>
     (case restrictions element of
        None \<Rightarrow> True
      | Some r \<Rightarrow>
          given (reservation r) = None \<and> withinBounds (factPowerKw session) (minPowerKw r) (maxPowerKw r) \<and>
          (case conMaxAmperage connector of None \<Rightarrow> True | Some amps \<Rightarrow> withinBounds amps (minCurrentA r) (maxCurrentA r)))"

definition tariffMatches :: "TariffElement \<Rightarrow> SessionFacts \<Rightarrow> ChargingConnector \<Rightarrow> bool" where
  "tariffMatches element session connector \<longleftrightarrow>
     (case restrictions element of
        None \<Rightarrow> True
      | Some r \<Rightarrow>
          if given (reservation r) \<noteq> None then False
          else
            let arrived = factArrival session;
                afterMidnight = (case (startTime r, endTime r) of
                    (Some s, Some e) \<Rightarrow> s > e \<and> arrTime arrived < e | _ \<Rightarrow> False);
                day = (if afterMidnight then dayBefore (arrDay arrived) else arrDay arrived)
            in (case restDays r of None \<Rightarrow> True | Some ds \<Rightarrow> ds = [] \<or> day \<in> set ds) \<and>
               withinWindow (arrTime arrived) (startTime r) (endTime r) \<and>
               (case given (startDate r) of None \<Rightarrow> True | Some d \<Rightarrow> arrDate arrived \<ge> d) \<and>
               (case given (endDate r) of None \<Rightarrow> True | Some d \<Rightarrow> arrDate arrived < d) \<and>
               eligibleFor element session connector)"

text \<open>A share of the session; \<open>None\<close> is positive infinity.\<close>

definition shareOf :: "rat \<Rightarrow> rat \<Rightarrow> rat option" where
  "shareOf value whole = (if whole > 0 then Some (value / whole) else if value > 0 then None else Some 0)"

definition maxShare :: "rat option \<Rightarrow> rat option \<Rightarrow> rat option" where
  "maxShare a b = (case (a, b) of (Some x, Some y) \<Rightarrow> Some (max x y) | _ \<Rightarrow> None)"

definition minShare :: "rat option \<Rightarrow> rat \<Rightarrow> rat" where
  "minShare a y = (case a of None \<Rightarrow> y | Some x \<Rightarrow> min x y)"

definition boundShare :: "rat option \<Rightarrow> rat \<Rightarrow> rat \<Rightarrow> rat option" where
  "boundShare bound whole none = (case bound of None \<Rightarrow> Some none | Some value \<Rightarrow> shareOf value whole)"

definition shareSpan :: "TariffRestrictions option \<Rightarrow> SessionFacts \<Rightarrow> rat option \<times> rat" where
  "shareSpan restriction session =
     (maxShare (boundShare (Option.bind restriction minKwh) (factAddedKwh session) 0)
               (boundShare (Option.bind restriction minDurationSec) (factChargeSeconds session) 0),
      minShare (boundShare (Option.bind restriction maxKwh) (factAddedKwh session) 1)
        (minShare (boundShare (Option.bind restriction maxDurationSec) (factChargeSeconds session) 1) 1))"

section \<open>Amounts\<close>

definition billed :: "rat \<Rightarrow> rat option \<Rightarrow> rat" where
  "billed quantity stepSize =
     (case stepSize of
        None \<Rightarrow> quantity
      | Some step \<Rightarrow> if step \<le> 0 then quantity else of_int \<lceil>quantity / step - 1 / 10 ^ 9\<rceil> * step)"

definition quantityOf :: "TariffComponent \<Rightarrow> rat \<Rightarrow> SessionFacts \<Rightarrow> rat" where
  "quantityOf component share session =
     (case compType component of
        EnergyType \<Rightarrow> billed (share * factAddedKwh session * 1000) (compStepSize component) / 1000
      | TimeType \<Rightarrow> billed (share * factChargeSeconds session) (compStepSize component) / 3600
      | _ \<Rightarrow> 1)"

function clockHits :: "int \<Rightarrow> rat \<Rightarrow> rat list" where
  "clockHits hit len =
     (if of_int hit < len
      then (if hit > 0 then [of_int hit / len] else []) @ clockHits (hit + MINUTES_PER_DAY) len
      else [])"
  by auto
termination
proof (relation "measure (\<lambda>(hit, len). nat (\<lceil>len\<rceil> - hit))")
  fix hit :: int and len :: rat
  assume "of_int hit < len"
  then have "hit < \<lceil>len\<rceil>" by (simp add: less_ceiling_iff)
  then show "((hit + MINUTES_PER_DAY, len), hit, len) \<in> measure (\<lambda>(hit, len). nat (\<lceil>len\<rceil> - hit))"
    by (simp add: MINUTES_PER_DAY_def)
qed simp

declare clockHits.simps [simp del]

definition uniq :: "'a list \<Rightarrow> 'a list" where
  "uniq xs = foldl (\<lambda>acc x. setAdd x acc) [] xs"

definition clockCuts :: "TariffElement list \<Rightarrow> SessionFacts \<Rightarrow> rat list" where
  "clockCuts els session =
     (let len = factChargeSeconds session / 60
      in if \<not> len > 0 then []
         else
           let windows = concat (map (\<lambda>e. case restrictions e of
                 None \<Rightarrow> []
               | Some r \<Rightarrow> (case given (startTime r) of None \<Rightarrow> [] | Some t \<Rightarrow> [minutesOf t]) @
                           (case given (endTime r) of None \<Rightarrow> [] | Some t \<Rightarrow> [minutesOf t])) els);
               edges = uniq (0 # windows);
               start = minutesOf (arrTime (factArrival session))
           in concat (map (\<lambda>edge. clockHits ((edge - start) mod MINUTES_PER_DAY) len) edges))"

section \<open>One tariff\<close>

record PricedElement =
  elementIndex :: nat
  pricedElement :: TariffElement
  spanFrom :: rat
  spanUntil :: rat

type_synonym ComponentRef = "(nat \<times> nat) \<times> TariffComponent"

record TariffPrice =
  priceAmount :: rat
  priceCurrency :: string
  priceUnit :: string

record SessionCost =
  costAmount :: rat
  costCurrency :: string
  costTariffId :: string
  costTariffType :: "string option"
  costPrice :: TariffPrice

definition COSTED :: "ComponentType list" where
  "COSTED = [EnergyType, TimeType, FlatType, SessionType]"

definition UNIT :: "ComponentType \<Rightarrow> string" where
  "UNIT ty = (case ty of EnergyType \<Rightarrow> ''kWh'' | TimeType \<Rightarrow> ''h'' | _ \<Rightarrow> ''session'')"

definition gross :: "EnergyTariff \<Rightarrow> TariffComponent \<Rightarrow> rat" where
  "gross tariff c =
     (if priceIncludesVat tariff then 1 else 1 + (case compVatPct c of None \<Rightarrow> 0 | Some v \<Rightarrow> v) / 100)"

definition pricedElements :: "EnergyTariff \<Rightarrow> SessionFacts \<Rightarrow> PricedElement list" where
  "pricedElements tariff session =
     List.map_filter (\<lambda>(i, element).
        case shareSpan (restrictions element) session of
          (Some from, until) \<Rightarrow>
            if from < until
            then Some \<lparr>elementIndex = i, pricedElement = element, spanFrom = from, spanUntil = until\<rparr> else None
        | _ \<Rightarrow> None)
      (enumerate 0 (elements tariff))"

definition appliesAt :: "SessionFacts \<Rightarrow> ChargingConnector \<Rightarrow> TariffElement \<Rightarrow> rat \<Rightarrow> bool" where
  "appliesAt session connector element share =
     tariffMatches element
       (session\<lparr>factArrival := localAfter (factArrival session) (share * factChargeSeconds session)\<rparr>) connector"

definition componentsOf :: "PricedElement \<Rightarrow> ComponentRef list" where
  "componentsOf p = map (\<lambda>(j, c). ((elementIndex p, j), c)) (enumerate 0 (components (pricedElement p)))"

definition findComponent :: "ComponentType \<Rightarrow> PricedElement list \<Rightarrow> ComponentRef option" where
  "findComponent ty els = find (\<lambda>(_, c). compType c = ty) (concat (map componentsOf els))"

definition costCuts :: "PricedElement list \<Rightarrow> SessionFacts \<Rightarrow> rat list" where
  "costCuts els session =
     sort (filter (\<lambda>cut. cut \<ge> 0 \<and> cut \<le> 1)
       (uniq (0 # 1 # concat (map (\<lambda>p. [spanFrom p, spanUntil p]) els) @ clockCuts (map pricedElement els) session)))"

definition stretchComponent ::
  "SessionFacts \<Rightarrow> ChargingConnector \<Rightarrow> PricedElement list \<Rightarrow> ComponentType \<Rightarrow> rat \<Rightarrow> ComponentRef option"
where
  "stretchComponent session connector els ty middle =
     findComponent ty
       (filter (\<lambda>p. middle \<ge> spanFrom p \<and> middle < spanUntil p \<and> appliesAt session connector (pricedElement p) middle) els)"

definition addShare :: "ComponentRef \<Rightarrow> rat \<Rightarrow> (ComponentRef \<times> rat) list \<Rightarrow> (ComponentRef \<times> rat) list" where
  "addShare c amount shares =
     (if \<exists>(d, _) \<in> set shares. fst d = fst c
      then map (\<lambda>(d, s). if fst d = fst c then (d, s + amount) else (d, s)) shares
      else shares @ [(c, amount)])"

fun stretchShares ::
  "(rat \<Rightarrow> ComponentRef option) \<Rightarrow> rat list \<Rightarrow> (ComponentRef \<times> rat) list \<times> bool \<Rightarrow> (ComponentRef \<times> rat) list \<times> bool"
where
  "stretchShares pick (a # b # cuts) (shares, uncovered) =
     stretchShares pick (b # cuts)
       (case pick ((a + b) / 2) of
          Some c \<Rightarrow> (addShare c (b - a) shares, uncovered)
        | None \<Rightarrow> (shares, True))"
| "stretchShares pick _ acc = acc"

definition pricedType :: "EnergyTariff \<Rightarrow> SessionFacts \<Rightarrow> ChargingConnector \<Rightarrow> ComponentType \<Rightarrow> bool" where
  "pricedType tariff session connector ty =
     list_ex (\<lambda>e. eligibleFor e session connector \<and> list_ex (\<lambda>c. compType c = ty) (components e)) (elements tariff)"

definition baseType :: "EnergyTariff \<Rightarrow> SessionFacts \<Rightarrow> ChargingConnector \<Rightarrow> ComponentType option" where
  "baseType tariff session connector =
     (if pricedType tariff session connector EnergyType then Some EnergyType
      else if pricedType tariff session connector TimeType then Some TimeType else None)"

definition chargeType ::
  "EnergyTariff \<Rightarrow> SessionFacts \<Rightarrow> ChargingConnector \<Rightarrow> ComponentType \<Rightarrow> (TariffComponent \<times> rat) list option"
where
  "chargeType tariff session connector ty =
     (let els = pricedElements tariff session
      in if ty = FlatType \<or> ty = SessionType
         then Some (case findComponent ty (filter (\<lambda>p. appliesAt session connector (pricedElement p) 0) els) of
                      None \<Rightarrow> []
                    | Some (_, c) \<Rightarrow> [(c, compPrice c * gross tariff c)])
         else (case stretchShares (stretchComponent session connector els ty) (costCuts els session) ([], False) of
                 (shares, uncovered) \<Rightarrow>
                   if uncovered \<and> Some ty = baseType tariff session connector then None
                   else Some (map (\<lambda>((_, c), share). (c, compPrice c * quantityOf c share session * gross tariff c)) shares)))"

fun chargeTypes :: "(ComponentType \<Rightarrow> 'c list option) \<Rightarrow> ComponentType list \<Rightarrow> 'c list option" where
  "chargeTypes charge [] = Some []"
| "chargeTypes charge (ty # tys) =
     (case charge ty of
        None \<Rightarrow> None
      | Some cs \<Rightarrow> (case chargeTypes charge tys of None \<Rightarrow> None | Some ds \<Rightarrow> Some (cs @ ds)))"

definition costOn :: "EnergyTariff \<Rightarrow> SessionFacts \<Rightarrow> ChargingConnector \<Rightarrow> SessionCost option" where
  "costOn tariff session connector =
     (case chargeTypes (chargeType tariff session connector) COSTED of
        None \<Rightarrow> None
      | Some [] \<Rightarrow> None
      | Some (first # others) \<Rightarrow>
          let largest = fst (foldl (\<lambda>a b. if snd b > snd a then b else a) first others);
              bound = (\<lambda>price. price * gross tariff largest);
              paid = sum_list (map snd (first # others));
              raised = (case minPrice tariff of None \<Rightarrow> paid | Some low \<Rightarrow> max paid (bound low));
              amount = (case maxPrice tariff of None \<Rightarrow> raised | Some high \<Rightarrow> min raised (bound high));
              main = fst first
          in Some \<lparr>costAmount = amount, costCurrency = tariffCurrency tariff, costTariffId = tariffId tariff,
                   costTariffType = tariffType tariff,
                   costPrice = \<lparr>priceAmount = of_int \<lfloor>compPrice main * gross tariff main * 10000 + 1 / 2\<rfloor> / 10000,
                                priceCurrency = tariffCurrency tariff, priceUnit = UNIT (compType main)\<rparr>\<rparr>)"

section \<open>The cheapest tariff\<close>

definition AD_HOC :: string where "AD_HOC = ''ad_hoc''"

definition candidateTariffs :: "ChargingSite \<Rightarrow> EvsePick \<Rightarrow> EnergyTariff list" where
  "candidateTariffs site pick =
     (let named = filter (\<lambda>t. tariffId t \<in> set (conTariffIds (pickedConnector pick))) (siteTariffs site);
          referenced = concat (map (\<lambda>e. concat (map conTariffIds (evseConnectors e))) (siteEvses site))
      in if named \<noteq> [] then named else filter (\<lambda>t. tariffId t \<notin> set referenced) (siteTariffs site))"

definition costedTariffs :: "ChargingSite \<Rightarrow> EvsePick \<Rightarrow> SessionFacts \<Rightarrow> (EnergyTariff \<times> SessionCost) list" where
  "costedTariffs site pick session =
     List.map_filter (\<lambda>t. map_option (Pair t) (costOn t session (pickedConnector pick))) (candidateTariffs site pick)"

definition adHoc :: "EnergyTariff \<Rightarrow> bool" where
  "adHoc t \<longleftrightarrow> tariffType t = Some AD_HOC"

definition eligibleTariffs :: "(EnergyTariff \<times> SessionCost) list \<Rightarrow> (EnergyTariff \<times> SessionCost) list" where
  "eligibleTariffs costed =
     (if list_ex (adHoc \<circ> fst) costed then filter (\<lambda>(t, _). adHoc t \<or> tariffType t = None) costed else costed)"

definition estimateSessionCost :: "ChargingSite \<Rightarrow> EvsePick \<Rightarrow> SessionFacts \<Rightarrow> SessionCost option" where
  "estimateSessionCost site pick session =
     (case sort_key (\<lambda>(t, c). (costAmount c, if adHoc t then 0 else 1 :: nat)) (eligibleTariffs (costedTariffs site pick session)) of
        [] \<Rightarrow> None
      | (_, c) # _ \<Rightarrow> Some c)"

end
