(* ===== verification/Ev_Planner.thy ===== *)
theory Ev_Planner
  imports Ev_Energy Ev_Tariffs
begin

text \<open>
  The charge planner (\<open>ev-charge-planner/src/plan.ts\<close>, \<open>planCharges\<close>): drive until the energy runs low, take
  the best charger near there, charge, and go on from there, at most twelve times. What the planner asks of its
  caller and of the platform is a parameter: chargers near a point, the time matrix, distances on the globe, time
  zones and the folding of operator names. A run that does not return is \<open>None\<close>.
\<close>

section \<open>The caller and the platform\<close>

record MatrixCell =
  cellSeconds :: rat
  cellKm :: rat

datatype ChargerAnswer = Chargers "ChargingSite list" | SourcesUnavailable | ChargersFail

text \<open>
  The callbacks may answer differently each time they are asked: they take the iteration. The calls made are
  logged, since a callback has effects of its own.
\<close>

datatype PlanCall =
    AskedChargers nat LngLat rat
  | AskedMatrix nat "LngLat list" "LngLat list"

record PlanHost =
  hostKm :: "LngLat \<Rightarrow> LngLat \<Rightarrow> rat"
  hostMetres :: "LngLat \<Rightarrow> LngLat \<Rightarrow> rat"
  hostZoneAt :: "rat \<Rightarrow> rat \<Rightarrow> string option"
  hostIso :: "rat \<Rightarrow> string \<Rightarrow> string"
  hostOperatorKey :: "string option \<Rightarrow> string"
  hostChargers :: "nat \<Rightarrow> LngLat \<Rightarrow> rat \<Rightarrow> ChargerAnswer"
  hostMatrix :: "nat \<Rightarrow> LngLat list \<Rightarrow> LngLat list \<Rightarrow> MatrixCell option list list option"

record PlanInput =
  planRoute :: EvRoute
  planVehicle :: EvVehicleSpec
  socStartKwh :: rat
  socArrivalMinKwh :: rat
  socTargetKwh :: rat
  ambientTempC :: rat
  hasElevation :: bool
  nowMs :: rat
  tripStartMs :: rat
  preferredNetworkKeys :: "string list option"
  avoidedNetworkKeys :: "string list option"
  exclusiveNetworkKeys :: "string list option"
  planCostWeight :: "rat option"

datatype PlanWarning =
    Unreachable int
  | TightMargin nat
  | NoChargerData
  | SourcesUnavailableWarning
  | NoAllowedNetwork int

record PlannedStop =
  stopSite :: ChargingSite
  stopEvse :: Evse
  stopConnector :: string
  stopConnectorKey :: string
  stopPowerKw :: rat
  stopCoordinates :: LngLat
  arriveSocKwh :: rat
  departSocKwh :: rat
  stopChargeSeconds :: rat
  stopAddedKwh :: rat
  estimatedCost :: "SessionCost option"

record ChargePlan =
  planStops :: "PlannedStop list"
  planWarnings :: "PlanWarning list"
  totalChargeSeconds :: rat
  totalEnergyKwh :: rat

datatype PlanOutcome = Planned ChargePlan | PlanThrows

section \<open>Constants\<close>

definition MAX_STOPS :: nat where "MAX_STOPS = 12"
definition DETOUR_UPLIFT :: rat where "DETOUR_UPLIFT = 1.15"
definition DETOUR_RESERVE_KWH_FRAC :: rat where "DETOUR_RESERVE_KWH_FRAC = 0.05"
definition REACH_EPS_KWH :: rat where "REACH_EPS_KWH = 0.05"
definition MAX_WINDOW_KM :: rat where "MAX_WINDOW_KM = 30"
definition AVAILABILITY_HORIZON_SEC :: rat where "AVAILABILITY_HORIZON_SEC = 45 * 60"
definition OCCUPANCY_PENALTY_SEC :: rat where "OCCUPANCY_PENALTY_SEC = 12 * 60"
definition NETWORK_PREFERENCE_BONUS_SEC :: rat where "NETWORK_PREFERENCE_BONUS_SEC = 10 * 60"
definition NETWORK_AVOID_PENALTY_SEC :: rat where "NETWORK_AVOID_PENALTY_SEC = 10 * 60"
definition VALUE_OF_TIME_PER_HOUR :: rat where "VALUE_OF_TIME_PER_HOUR = 20"
definition MAX_COST_PENALTY_SEC :: rat where "MAX_COST_PENALTY_SEC = 6 * 60"

section \<open>The route\<close>

definition localArrival :: "PlanHost \<Rightarrow> ChargingSite \<Rightarrow> rat \<Rightarrow> LocalArrival" where
  "localArrival host site atMs =
     (let (lng, lat) = siteCoordinates site;
          zone = (case siteTimeZone site of
                    Some z \<Rightarrow> z
                  | None \<Rightarrow> (case hostZoneAt host lat lng of Some z \<Rightarrow> z | None \<Rightarrow> ''UTC''));
          iso = hostIso host atMs zone;
          date = take 10 iso
      in \<lparr>arrDate = date, arrTime = take 5 (drop 11 iso), arrDay = weekday (daysOf date)\<rparr>)"

definition availabilityPenaltySec :: "ChargingSite \<Rightarrow> rat \<Rightarrow> rat" where
  "availabilityPenaltySec site secondsFromNow =
     (if secondsFromNow > AVAILABILITY_HORIZON_SEC then 0
      else case availabilityOf site of
        None \<Rightarrow> 0
      | Some (free, counted) \<Rightarrow>
          if counted = 0 then 0
          else let occupancy = 1 - max 0 (min 1 (of_nat free / of_nat counted));
                   proximity = 1 - max 0 secondsFromNow / AVAILABILITY_HORIZON_SEC
               in OCCUPANCY_PENALTY_SEC * occupancy * proximity)"

fun runningMetres :: "(LngLat \<Rightarrow> LngLat \<Rightarrow> rat) \<Rightarrow> rat \<Rightarrow> LngLat list \<Rightarrow> rat list" where
  "runningMetres metres acc (a # b # rest) = (acc + metres a b) # runningMetres metres (acc + metres a b) (b # rest)"
| "runningMetres metres acc _ = []"

definition buildSampleDistances :: "PlanHost \<Rightarrow> EvRoute \<Rightarrow> nat \<Rightarrow> rat list" where
  "buildSampleDistances host route sampleCount =
     (case (routeElevation route, elevationInterval route) of
        (Some es, Some interval) \<Rightarrow>
          if interval \<noteq> 0 \<and> length es = sampleCount then map (\<lambda>i. of_nat i * interval) [0..<length es]
          else 0 # runningMetres (hostMetres host) 0 (routeGeometry route)
      | _ \<Rightarrow> 0 # runningMetres (hostMetres host) 0 (routeGeometry route))"

fun coordWalk :: "(LngLat \<Rightarrow> LngLat \<Rightarrow> rat) \<Rightarrow> rat \<Rightarrow> rat \<Rightarrow> LngLat list \<Rightarrow> LngLat" where
  "coordWalk metres targetM acc (a # b # rest) =
     (let seg = metres a b
      in if acc + seg \<ge> targetM
         then let t = (if seg = 0 then 0 else (targetM - acc) / seg)
              in (fst a + t * (fst b - fst a), snd a + t * (snd b - snd a))
         else coordWalk metres targetM (acc + seg) (b # rest))"
| "coordWalk metres targetM acc geometry = last geometry"

definition coordAtDistanceM :: "PlanHost \<Rightarrow> LngLat list \<Rightarrow> rat \<Rightarrow> LngLat" where
  "coordAtDistanceM host geometry targetM = coordWalk (hostMetres host) targetM 0 geometry"

text \<open>The samples after the start, as long as the energy to them stays within the budget.\<close>

definition reachOffset :: "rat list \<Rightarrow> nat \<Rightarrow> rat \<Rightarrow> rat \<Rightarrow> nat" where
  "reachOffset cumulativeKwh startIdx socKwh floorKwh =
     length (takeWhile (\<lambda>kwh. kwh - cumulativeKwh ! startIdx \<le> socKwh - floorKwh) (drop (startIdx + 1) cumulativeKwh))"

section \<open>One iteration\<close>

record PlanState =
  curSoc :: rat
  curStart :: nat
  curElapsed :: rat
  curStops :: "PlannedStop list"
  curWarnings :: "PlanWarning list"
  curCalls :: "PlanCall list"

datatype StepOutcome = Go PlanState | Halt PlanState | Throw

text \<open>What is worked out once, before the loop.\<close>

record PlanAxis =
  axisKwh :: "rat list"
  axisMetres :: "rat list"

definition planAxis :: "PlanHost \<Rightarrow> PlanInput \<Rightarrow> PlanAxis" where
  "planAxis host inp =
     (let cumulative = cumulativeEnergy (hostKm host) (planRoute inp) (planVehicle inp) (ambientTempC inp)
                         (if hasElevation inp then 1 else 1.1)
      in \<lparr>axisKwh = cumulative, axisMetres = buildSampleDistances host (planRoute inp) (length cumulative)\<rparr>)"

definition destKwh :: "PlanAxis \<Rightarrow> rat" where
  "destKwh axis = last (axisKwh axis)"

definition totalDistM :: "PlanAxis \<Rightarrow> rat" where
  "totalDistM axis = (let d = last (axisMetres axis) in if d = 0 then 1 else d)"

definition detourReserve :: "PlanInput \<Rightarrow> rat" where
  "detourReserve inp = batteryKwh (planVehicle inp) * DETOUR_RESERVE_KWH_FRAC"

text \<open>Without consumption the division is infinite, and the window the widest.\<close>

definition windowKm :: "PlanInput \<Rightarrow> rat" where
  "windowKm inp =
     (if baseWhPerKm (planVehicle inp) = 0 then MAX_WINDOW_KM
      else min MAX_WINDOW_KM (max 15 (batteryKwh (planVehicle inp) / baseWhPerKm (planVehicle inp) * 1000 * 0.15)))"

definition startsInSec :: "PlanInput \<Rightarrow> rat" where
  "startsInSec inp = (tripStartMs inp - nowMs inp) / 1000"

definition costWeight :: "PlanInput \<Rightarrow> rat" where
  "costWeight inp = (case planCostWeight inp of None \<Rightarrow> 1 | Some w \<Rightarrow> w)"

definition reached :: "PlanInput \<Rightarrow> PlanAxis \<Rightarrow> PlanState \<Rightarrow> bool" where
  "reached inp axis st \<longleftrightarrow>
     curSoc st - (destKwh axis - axisKwh axis ! curStart st) \<ge> socArrivalMinKwh inp - REACH_EPS_KWH"

definition warn :: "PlanWarning list \<Rightarrow> PlanState \<Rightarrow> PlanState" where
  "warn ws st = st\<lparr>curWarnings := curWarnings st @ ws\<rparr>"

definition called :: "PlanCall \<Rightarrow> PlanState \<Rightarrow> PlanState" where
  "called c st = st\<lparr>curCalls := curCalls st @ [c]\<rparr>"

definition unreachable :: "PlanState \<Rightarrow> PlanWarning" where
  "unreachable st = Unreachable (int (length (curStops st)) - 1)"

text \<open>The point to leave the route at: its sample, the energy left there and the time until then.\<close>

record Divert =
  divertIdx :: nat
  divertPoint :: LngLat
  socAtDivert :: rat
  etaBaseSec :: rat

definition divertAt :: "PlanHost \<Rightarrow> PlanInput \<Rightarrow> PlanAxis \<Rightarrow> PlanState \<Rightarrow> Divert" where
  "divertAt host inp axis st =
     (let idx = curStart st + reachOffset (axisKwh axis) (curStart st) (curSoc st) (socArrivalMinKwh inp + detourReserve inp);
          driveToDivertSec = routeDuration (planRoute inp) *
            ((axisMetres axis ! idx - axisMetres axis ! curStart st) / totalDistM axis)
      in \<lparr>divertIdx = idx, divertPoint = coordAtDistanceM host (routeGeometry (planRoute inp)) (axisMetres axis ! idx),
          socAtDivert = curSoc st - (axisKwh axis ! idx - axisKwh axis ! curStart st),
          etaBaseSec = curElapsed st + driveToDivertSec\<rparr>)"

definition arrivalAt :: "PlanHost \<Rightarrow> PlanInput \<Rightarrow> Divert \<Rightarrow> ChargingSite \<Rightarrow> rat \<Rightarrow> LocalArrival" where
  "arrivalAt host inp dv site toSeconds = localArrival host site (tripStartMs inp + (etaBaseSec dv + toSeconds) * 1000)"

definition connCompatible :: "PlanInput \<Rightarrow> ChargingSite list \<Rightarrow> (ChargingSite \<times> EvsePick) list" where
  "connCompatible inp candidates =
     List.map_filter (\<lambda>s. map_option (Pair s) (pickEvse s (planVehicle inp))) candidates"

definition networkAllowed :: "PlanHost \<Rightarrow> PlanInput \<Rightarrow> ChargingSite \<Rightarrow> bool" where
  "networkAllowed host inp site \<longleftrightarrow>
     (case exclusiveNetworkKeys inp of
        None \<Rightarrow> True
      | Some allowed \<Rightarrow> allowed = [] \<or> matchesAnyOperator (hostOperatorKey host (siteOperator site)) (Some allowed))"

definition cellAt :: "MatrixCell option list list \<Rightarrow> nat \<Rightarrow> nat \<Rightarrow> MatrixCell option" where
  "cellAt matrix row col =
     (if row < length matrix \<and> col < length (matrix ! row) then matrix ! row ! col else None)"

record Scored =
  scIndex :: nat
  scToSeconds :: rat
  scDetourSec :: rat
  scReachKwh :: rat
  scApproxCharge :: rat
  scCost :: "SessionCost option"

definition chargeInput :: "PlanInput \<Rightarrow> EvsePick \<Rightarrow> rat \<Rightarrow> rat \<Rightarrow> ChargeInput" where
  "chargeInput inp pick fromKwh toKwh =
     (case powerCaps pick (planVehicle inp) of
        (chargerKw, vehicleKw) \<Rightarrow>
          \<lparr>fromSocKwh = fromKwh, toSocKwh = toKwh, chargeBatteryKwh = batteryKwh (planVehicle inp),
           chargerPowerKw = chargerKw, vehicleMaxKw = vehicleKw, taperSocPct = vehicleTaperSocPct (planVehicle inp)\<rparr>)"

definition sessionFacts :: "PlanInput \<Rightarrow> EvsePick \<Rightarrow> LocalArrival \<Rightarrow> rat \<Rightarrow> rat \<Rightarrow> SessionFacts" where
  "sessionFacts inp pick arrival added seconds =
     (case powerCaps pick (planVehicle inp) of
        (chargerKw, vehicleKw) \<Rightarrow>
          \<lparr>factPowerKw = min chargerKw vehicleKw, factArrival = arrival, factAddedKwh = added, factChargeSeconds = seconds\<rparr>)"

text \<open>One candidate: \<open>Some None\<close> when it is left out.\<close>

definition scoreCandidate ::
  "PlanHost \<Rightarrow> PlanInput \<Rightarrow> Divert \<Rightarrow> nat \<Rightarrow> MatrixCell option list list \<Rightarrow> nat \<times> ChargingSite \<times> EvsePick
   \<Rightarrow> Scored option option"
where
  "scoreCandidate host inp dv count matrix cand =
     (case cand of (i, site, pick) \<Rightarrow>
        case (cellAt matrix 0 i, cellAt matrix (i + 1) count) of
          (Some toCand, Some fromCand) \<Rightarrow>
            let divertEnergy = cellKm toCand * baseWhPerKm (planVehicle inp) * DETOUR_UPLIFT / 1000;
                reachKwh = socAtDivert dv - divertEnergy
            in if reachKwh < 0 then Some None
               else
                 let toSoc = min (socTargetKwh inp) (batteryKwh (planVehicle inp))
                 in (case chargeSecondsFor (chargeInput inp pick (max 0 reachKwh) toSoc) of
                       None \<Rightarrow> None
                     | Some approxCharge \<Rightarrow>
                         Some (Some
                           \<lparr>scIndex = i, scToSeconds = cellSeconds toCand,
                            scDetourSec = cellSeconds toCand + cellSeconds fromCand, scReachKwh = reachKwh,
                            scApproxCharge = approxCharge,
                            scCost = (if costWeight inp > 0
                              then estimateSessionCost site pick
                                (sessionFacts inp pick (arrivalAt host inp dv site (cellSeconds toCand))
                                  (max 0 (toSoc - max 0 reachKwh)) approxCharge)
                              else None)\<rparr>))
        | _ \<Rightarrow> Some None)"

definition scoreAll ::
  "PlanHost \<Rightarrow> PlanInput \<Rightarrow> Divert \<Rightarrow> MatrixCell option list list \<Rightarrow> (ChargingSite \<times> EvsePick) list \<Rightarrow> Scored list option"
where
  "scoreAll host inp dv matrix compatible =
     map_option (List.map_filter id)
       (those (map (scoreCandidate host inp dv (length compatible) matrix) (enumerate 0 compatible)))"

definition minCostByCcy :: "Scored list \<Rightarrow> string \<Rightarrow> rat option" where
  "minCostByCcy scored =
     foldl (\<lambda>m s. case scCost s of
         None \<Rightarrow> m
       | Some c \<Rightarrow> (case m (costCurrency c) of
             None \<Rightarrow> m(costCurrency c \<mapsto> costAmount c)
           | Some cur \<Rightarrow> if costAmount c < cur then m(costCurrency c \<mapsto> costAmount c) else m))
       Map.empty scored"

definition networkBias :: "PlanHost \<Rightarrow> PlanInput \<Rightarrow> ChargingSite \<Rightarrow> rat" where
  "networkBias host inp site =
     (let opKey = hostOperatorKey host (siteOperator site)
      in if matchesAnyOperator opKey (preferredNetworkKeys inp) then - NETWORK_PREFERENCE_BONUS_SEC
         else if matchesAnyOperator opKey (avoidedNetworkKeys inp) then NETWORK_AVOID_PENALTY_SEC else 0)"

definition costPenalty :: "PlanInput \<Rightarrow> (string \<Rightarrow> rat option) \<Rightarrow> Scored \<Rightarrow> rat" where
  "costPenalty inp cheapest s =
     (case scCost s of
        None \<Rightarrow> 0
      | Some c \<Rightarrow>
          if costWeight inp > 0
          then (case cheapest (costCurrency c) of
                  None \<Rightarrow> 0
                | Some minCost \<Rightarrow>
                    min ((costAmount c - minCost) * (3600 / VALUE_OF_TIME_PER_HOUR * costWeight inp)) MAX_COST_PENALTY_SEC)
          else 0)"

definition scoreOf ::
  "PlanHost \<Rightarrow> PlanInput \<Rightarrow> Divert \<Rightarrow> (string \<Rightarrow> rat option) \<Rightarrow> (ChargingSite \<times> EvsePick) list \<Rightarrow> Scored \<Rightarrow> rat"
where
  "scoreOf host inp dv cheapest compatible s =
     (let site = fst (compatible ! scIndex s)
      in scDetourSec s + scApproxCharge s +
         availabilityPenaltySec site (startsInSec inp + etaBaseSec dv + scToSeconds s) +
         networkBias host inp site + costPenalty inp cheapest s)"

definition bestScored :: "(Scored \<Rightarrow> rat) \<Rightarrow> Scored list \<Rightarrow> Scored option" where
  "bestScored score scored =
     foldl (\<lambda>best s. case best of None \<Rightarrow> Some s | Some b \<Rightarrow> if score s < score b then Some s else best) None scored"

definition departKwhFor :: "PlanInput \<Rightarrow> PlanAxis \<Rightarrow> Divert \<Rightarrow> rat \<Rightarrow> rat" where
  "departKwhFor inp axis dv arriveKwh =
     (let battery = batteryKwh (planVehicle inp);
          taperKwh = vehicleTaperSocPct (planVehicle inp) / 100 * battery;
          needForRest = destKwh axis - axisKwh axis ! divertIdx dv + socArrivalMinKwh inp;
          userCapKwh = min (socTargetKwh inp) battery;
          departKwh = (if needForRest \<le> battery then min battery (max needForRest userCapKwh) else min taperKwh userCapKwh)
      in min battery (max (arriveKwh + detourReserve inp) departKwh))"

definition takeStop ::
  "PlanHost \<Rightarrow> PlanInput \<Rightarrow> PlanAxis \<Rightarrow> PlanState \<Rightarrow> Divert \<Rightarrow> ChargingSite \<times> EvsePick \<Rightarrow> Scored \<Rightarrow> StepOutcome option"
where
  "takeStop host inp axis st dv chosen best =
     (case chosen of (site, pick) \<Rightarrow>
        let arriveKwh = max 0 (scReachKwh best);
            departKwh = departKwhFor inp axis dv arriveKwh
        in (case chargeSecondsFor (chargeInput inp pick arriveKwh departKwh) of
              None \<Rightarrow> None
            | Some seconds \<Rightarrow>
                let added = departKwh - arriveKwh;
                    stop = \<lparr>stopSite = site, stopEvse = pickedEvse pick, stopConnector = pickedStandard pick,
                            stopConnectorKey = conKey (pickedConnector pick), stopPowerKw = pickedPowerKw pick,
                            stopCoordinates = siteCoordinates site, arriveSocKwh = arriveKwh, departSocKwh = departKwh,
                            stopChargeSeconds = seconds, stopAddedKwh = added,
                            estimatedCost = estimateSessionCost site pick
                              (sessionFacts inp pick (arrivalAt host inp dv site (scToSeconds best)) added seconds)\<rparr>
                in Some (Go (st\<lparr>curSoc := departKwh, curStart := divertIdx dv,
                                curElapsed := etaBaseSec dv + scToSeconds best + seconds,
                                curStops := curStops st @ [stop]\<rparr>))))"

definition chooseStop ::
  "PlanHost \<Rightarrow> PlanInput \<Rightarrow> PlanAxis \<Rightarrow> nat \<Rightarrow> PlanState \<Rightarrow> Divert \<Rightarrow> (ChargingSite \<times> EvsePick) list \<Rightarrow> StepOutcome option"
where
  "chooseStop host inp axis iter st dv compatible =
     (let sites = map (siteCoordinates \<circ> fst) compatible;
          sources = divertPoint dv # sites;
          targets = sites @ [last (routeGeometry (planRoute inp))];
          asked = called (AskedMatrix iter sources targets) st
      in case hostMatrix host iter sources targets of
           None \<Rightarrow> Some (Halt (warn [unreachable st] asked))
         | Some matrix \<Rightarrow>
             (case scoreAll host inp dv matrix compatible of
                None \<Rightarrow> None
              | Some scored \<Rightarrow>
                  (case bestScored (scoreOf host inp dv (minCostByCcy scored) compatible) scored of
                     None \<Rightarrow> Some (Halt (warn [unreachable st] asked))
                   | Some best \<Rightarrow> takeStop host inp axis asked dv (compatible ! scIndex best) best)))"

definition planStep :: "PlanHost \<Rightarrow> PlanInput \<Rightarrow> PlanAxis \<Rightarrow> nat \<Rightarrow> PlanState \<Rightarrow> StepOutcome option" where
  "planStep host inp axis iter st =
     (if reached inp axis st then Some (Halt st)
      else
        let dv = divertAt host inp axis st
        in if divertIdx dv \<le> curStart st then Some (Halt (warn [unreachable st] st))
           else
             let asked = called (AskedChargers iter (divertPoint dv) (windowKm inp)) st
             in case hostChargers host iter (divertPoint dv) (windowKm inp) of
               ChargersFail \<Rightarrow> Some Throw
             | SourcesUnavailable \<Rightarrow> Some (Halt (warn [SourcesUnavailableWarning, unreachable st] asked))
             | Chargers candidates \<Rightarrow>
                 if candidates = [] then Some (Halt (warn [NoChargerData, unreachable st] asked))
                 else let connectable = connCompatible inp candidates
                      in if connectable = [] then Some (Halt (warn [unreachable st] asked))
                         else let compatible = filter (\<lambda>(s, _). networkAllowed host inp s) connectable
                              in if compatible = []
                                 then Some (Halt (warn [NoAllowedNetwork (int (length (curStops st)) - 1)] asked))
                                 else chooseStop host inp axis iter asked dv compatible)"

section \<open>The plan\<close>

text \<open>The loop, \<open>n\<close> iterations before its end; then the check of a trip that used up its stops.\<close>

fun planLoop :: "PlanHost \<Rightarrow> PlanInput \<Rightarrow> PlanAxis \<Rightarrow> nat \<Rightarrow> PlanState \<Rightarrow> StepOutcome option" where
  "planLoop host inp axis 0 st = Some (Halt st)"
| "planLoop host inp axis (Suc n) st =
     (case planStep host inp axis (MAX_STOPS - Suc n) st of
        Some (Go st') \<Rightarrow> planLoop host inp axis n st'
      | other \<Rightarrow> other)"

definition stopsUsedUp :: "PlanInput \<Rightarrow> PlanAxis \<Rightarrow> PlanState \<Rightarrow> bool" where
  "stopsUsedUp inp axis st \<longleftrightarrow>
     length (curStops st) \<ge> MAX_STOPS \<and>
     curSoc st - (destKwh axis - axisKwh axis ! curStart st) < socArrivalMinKwh inp"

definition planOf :: "PlanInput \<Rightarrow> PlanAxis \<Rightarrow> PlanState \<Rightarrow> ChargePlan" where
  "planOf inp axis st =
     (let st' = (if stopsUsedUp inp axis st then warn [unreachable st] st else st)
      in \<lparr>planStops = curStops st', planWarnings = curWarnings st',
          totalChargeSeconds = sum_list (map stopChargeSeconds (curStops st')), totalEnergyKwh = destKwh axis\<rparr>)"

definition initialState :: "PlanInput \<Rightarrow> PlanState" where
  "initialState inp = \<lparr>curSoc = socStartKwh inp, curStart = 0, curElapsed = 0, curStops = [], curWarnings = [], curCalls = []\<rparr>"

definition planRun :: "PlanHost \<Rightarrow> PlanInput \<Rightarrow> StepOutcome option" where
  "planRun host inp = planLoop host inp (planAxis host inp) MAX_STOPS (initialState inp)"

definition planCharges :: "PlanHost \<Rightarrow> PlanInput \<Rightarrow> PlanOutcome option" where
  "planCharges host inp =
     (case planRun host inp of
        None \<Rightarrow> None
      | Some Throw \<Rightarrow> Some PlanThrows
      | Some (Go st) \<Rightarrow> Some (Planned (planOf inp (planAxis host inp) st))
      | Some (Halt st) \<Rightarrow> Some (Planned (planOf inp (planAxis host inp) st)))"

text \<open>The calls a plan has made when it is returned.\<close>

definition planCalls :: "PlanHost \<Rightarrow> PlanInput \<Rightarrow> PlanCall list" where
  "planCalls host inp =
     (case planRun host inp of Some (Go st) \<Rightarrow> curCalls st | Some (Halt st) \<Rightarrow> curCalls st | _ \<Rightarrow> [])"

end
