(* ===== verification/Ev_Tariff_Properties.thy ===== *)
theory Ev_Tariff_Properties
  imports Ev_Tariffs
begin

text \<open>What the price of a session is: whole steps, within the bounds of its tariff, for the whole session, and the cheapest.\<close>

section \<open>Shares\<close>

definition sharesSum :: "(ComponentRef \<times> rat) list \<Rightarrow> rat" where
  "sharesSum shares = sum_list (map snd shares)"

definition keysDistinct :: "(ComponentRef \<times> rat) list \<Rightarrow> bool" where
  "keysDistinct shares \<longleftrightarrow> distinct (map (fst \<circ> fst) shares)"

lemma bump_sum:
  assumes "distinct (map (fst \<circ> fst) shares)" and "k \<in> set (map (fst \<circ> fst) shares)"
  shows "sum_list (map snd (map (\<lambda>(d, s). if fst d = k then (d, s + amount) else (d, s)) shares)) =
    sum_list (map snd shares) + (amount :: rat)"
  using assms
proof (induction shares)
  case (Cons x shares)
  obtain d s where x: "x = (d, s)" by (cases x)
  show ?case
  proof (cases "fst d = k")
    case True
    with Cons.prems(1) x have "k \<notin> set (map (fst \<circ> fst) shares)" by auto
    then have "map (\<lambda>(d, s). if fst d = k then (d, s + amount) else (d, s)) shares = shares"
      by (intro map_idI) (auto simp: image_iff split: if_splits)
    with True x show ?thesis by simp
  next
    case False
    with Cons x show ?thesis by simp
  qed
qed simp

lemma addShare_facts:
  assumes "keysDistinct shares"
  shows "keysDistinct (addShare c amount shares)" "sharesSum (addShare c amount shares) = sharesSum shares + amount"
proof -
  have keys: "(\<exists>(d, _) \<in> set shares. fst d = fst c) \<longleftrightarrow> fst c \<in> set (map (fst \<circ> fst) shares)" by force
  have same: "map (fst \<circ> fst) (map (\<lambda>(d, s). if fst d = fst c then (d, s + amount) else (d, s)) shares) = map (fst \<circ> fst) shares"
    by (auto split: if_splits)
  show "keysDistinct (addShare c amount shares)"
    using assms unfolding addShare_def keys keysDistinct_def by (auto simp: same simp del: map_map)
  show "sharesSum (addShare c amount shares) = sharesSum shares + amount"
    using bump_sum [of shares "fst c" amount] assms
    unfolding addShare_def keys keysDistinct_def sharesSum_def by (simp del: map_map)
qed

lemma stretchShares_sum:
  assumes "stretchShares pick cuts (shares, u) = (shares', False)" and "keysDistinct shares" and "cuts \<noteq> []"
  shows "\<not> u \<and> sharesSum shares' = sharesSum shares + (last cuts - hd cuts)"
  using assms
proof (induction pick cuts "(shares, u)" arbitrary: shares u rule: stretchShares.induct)
  case (1 pick a b cuts shares u)
  show ?case
  proof (cases "pick ((a + b) / 2)")
    case None
    with 1 show ?thesis by fastforce
  next
    case (Some c)
    from 1(1) [of "addShare c (b - a) shares" u] Some 1(2) addShare_facts [OF 1(3)]
    have "\<not> u \<and> sharesSum shares' = sharesSum (addShare c (b - a) shares) + (last (b # cuts) - b)" by simp
    with addShare_facts(2) [OF 1(3)] show ?thesis by simp
  qed
qed auto

lemma uniq_set: "set (uniq xs) = set xs"
proof -
  have "set (foldl (\<lambda>acc x. setAdd x acc) acc xs) = set acc \<union> set xs" for acc
    by (induction xs arbitrary: acc) auto
  then show ?thesis by (simp add: uniq_def)
qed

lemma costCuts_ends: "hd (costCuts els session) = 0" "last (costCuts els session) = 1" "costCuts els session \<noteq> []"
proof -
  let ?cuts = "costCuts els session"
  have mem: "0 \<in> set ?cuts" "1 \<in> set ?cuts" and range: "\<And>x. x \<in> set ?cuts \<Longrightarrow> 0 \<le> x \<and> x \<le> 1" and sorted: "sorted ?cuts"
    by (auto simp: costCuts_def uniq_set)
  show ne: "?cuts \<noteq> []" using mem(1) by auto
  have "hd ?cuts \<le> 0" using sorted mem(1) by (cases ?cuts) auto
  moreover have "0 \<le> hd ?cuts" using range [OF hd_in_set [OF ne]] by simp
  ultimately show "hd ?cuts = 0" by simp
  have "1 \<le> last ?cuts"
  proof -
    obtain ys y where ys: "?cuts = ys @ [y]" using ne by (cases ?cuts rule: rev_cases) auto
    with sorted mem(2) show ?thesis by (auto simp: sorted_append)
  qed
  with range [OF last_in_set [OF ne]] show "last ?cuts = 1" by simp
qed

lemma foldl_most:
  fixes first :: "'c \<times> rat"
  defines "better \<equiv> \<lambda>a b :: 'c \<times> rat. if snd b > snd a then b else a"
  shows "foldl better first xs \<in> set (first # xs) \<and> (\<forall>b \<in> set (first # xs). snd b \<le> snd (foldl better first xs))"
proof (induction xs rule: rev_induct)
  case (snoc x xs)
  then show ?case by (fastforce simp: better_def)
qed simp

lemma chargeTypes_each:
  assumes "chargeTypes charge tys = Some cs" and "ty \<in> set tys"
  shows "charge ty \<noteq> None"
  using assms by (induction tys arbitrary: cs) (auto split: option.splits)

section \<open>Properties\<close>

text \<open>
  A billed quantity is a whole number of steps, less than one step above what was used and (but for the tolerance) not below it.\<close>

theorem billed_whole_steps:
  assumes "0 < step"
  shows "\<exists>k. billed q (Some step) = of_int k * step \<and> billed q (Some step) < q + step \<and> q - step / 10 ^ 9 \<le> billed q (Some step)"
proof -
  define x where "x = q / step - 1 / 10 ^ 9"
  define k where "k = \<lceil>x\<rceil>"
  have low: "x \<le> of_int k" and high: "of_int k < x + 1" unfolding k_def by linarith+
  have "x * step \<le> of_int k * step" using low assms by (intro mult_right_mono) simp_all
  moreover have "of_int k * step < (x + 1) * step" using high assms by (intro mult_strict_right_mono) simp_all
  moreover have "x * step = q - step / 10 ^ 9"
    using assms by (simp add: x_def left_diff_distrib)
  moreover have "0 \<le> step / 10 ^ 9" using assms by simp
  moreover have "billed q (Some step) = of_int k * step" using assms by (simp add: billed_def k_def x_def)
  ultimately have "billed q (Some step) = of_int k * step" "billed q (Some step) < q + step" "q - step / 10 ^ 9 \<le> billed q (Some step)"
    unfolding distrib_right by linarith+
  then show ?thesis by blast
qed

theorem billed_whole_steps_witness: "\<exists>k. billed 20.5 (Some 1) = of_int k * 1 \<and> billed 20.5 (Some 1) < 21.5"
  using billed_whole_steps [of 1 "20.5"] by auto

text \<open>
  C28. A priced session is priced from plugging in to the end: when a tariff with an energy price (or else a time
  price) gives a cost, the shares its components pay of that price add up to the whole session.
\<close>

theorem whole_session_priced:
  assumes "costOn tariff session connector = Some cost" and "baseType tariff session connector = Some ty"
  shows "\<exists>shares. stretchShares (stretchComponent session connector (pricedElements tariff session) ty)
      (costCuts (pricedElements tariff session) session) ([], False) = (shares, False) \<and> sharesSum shares = 1"
proof -
  have ty: "ty = EnergyType \<or> ty = TimeType" using assms(2) by (auto simp: baseType_def split: if_splits)
  obtain cs where "chargeTypes (chargeType tariff session connector) COSTED = Some cs"
    using assms(1) by (auto simp: costOn_def split: option.splits)
  moreover have "ty \<in> set COSTED" using ty by (auto simp: COSTED_def)
  ultimately have priced: "chargeType tariff session connector ty \<noteq> None" by (rule chargeTypes_each)
  obtain shares uncovered where run: "stretchShares (stretchComponent session connector (pricedElements tariff session) ty)
      (costCuts (pricedElements tariff session) session) ([], False) = (shares, uncovered)"
    by fastforce
  with priced ty assms(2) have "\<not> uncovered" by (auto simp: chargeType_def Let_def)
  with run have run': "stretchShares (stretchComponent session connector (pricedElements tariff session) ty)
      (costCuts (pricedElements tariff session) session) ([], False) = (shares, False)" by simp
  from stretchShares_sum [OF this _ costCuts_ends(3)] have "sharesSum shares = 1"
    by (simp add: keysDistinct_def sharesSum_def costCuts_ends(1,2))
  with run' show ?thesis by blast
qed

text \<open>
  The price stays within the tariff's minimum and maximum, both grossed up by the tax of the component that
  is charged the most.
\<close>

theorem cost_within_bounds:
  assumes "costOn tariff session connector = Some cost" and "minPrice tariff = Some low" and "maxPrice tariff = Some high"
    and "low \<le> high" and "\<And>c. 0 \<le> gross tariff c"
  shows "\<exists>charged c paid. chargeTypes (chargeType tariff session connector) COSTED = Some charged \<and>
    (c, paid) \<in> set charged \<and> list_all (\<lambda>(_, other). other \<le> paid) charged \<and>
    low * gross tariff c \<le> costAmount cost \<and> costAmount cost \<le> high * gross tariff c"
proof -
  obtain first others where charged: "chargeTypes (chargeType tariff session connector) COSTED = Some (first # others)"
    using assms(1) by (auto simp: costOn_def split: option.splits list.splits)
  define most where "most = foldl (\<lambda>a b. if snd b > snd a then b else a) first others"
  have amount: "costAmount cost =
      min (max (sum_list (map snd (first # others))) (low * gross tariff (fst most))) (high * gross tariff (fst most))"
    using assms(1-3) charged by (auto simp: costOn_def Let_def most_def)
  have "low * gross tariff (fst most) \<le> high * gross tariff (fst most)"
    using assms(4,5) by (intro mult_right_mono) simp_all
  then have "low * gross tariff (fst most) \<le> costAmount cost \<and> costAmount cost \<le> high * gross tariff (fst most)"
    unfolding amount by simp
  moreover have "most \<in> set (first # others) \<and> (\<forall>b \<in> set (first # others). snd b \<le> snd most)"
    using foldl_most [where xs = others and first = first] by (simp add: most_def)
  ultimately show ?thesis
    using charged by (intro exI [of _ "first # others"] exI [of _ "fst most"] exI [of _ "snd most"]) (auto simp: list_all_iff)
qed

text \<open>
  The cheapest tariff that prices the session is taken: of the tariffs named by the connector (else those no
  connector names) that price it; when one of them can be paid without a contract, those of another
  stated type are left out, and one without contract wins a tie. Without such a tariff the price is unknown.
\<close>

theorem cheapest_tariff:
  "case estimateSessionCost site pick session of
     None \<Rightarrow> costedTariffs site pick session = []
   | Some cost \<Rightarrow>
       \<exists>t. (t, cost) \<in> set (eligibleTariffs (costedTariffs site pick session)) \<and>
         t \<in> set (candidateTariffs site pick) \<and> costOn t session (pickedConnector pick) = Some cost \<and>
         list_all (\<lambda>(u, other). costAmount cost < costAmount other \<or> costAmount cost = costAmount other \<and> adHoc u \<le> adHoc t)
           (eligibleTariffs (costedTariffs site pick session))"
proof -
  let ?key = "\<lambda>(t, c). (costAmount c, if adHoc t then 0 else 1 :: nat)"
  let ?costed = "costedTariffs site pick session"
  let ?eligible = "eligibleTariffs ?costed"
  have sub: "set ?eligible \<subseteq> set ?costed" by (auto simp: eligibleTariffs_def)
  show ?thesis
  proof (cases "sort_key ?key ?eligible")
    case Nil
    then have "?eligible = []" by (metis length_0_conv length_sort)
    then have "?costed = []"
      by (auto simp: eligibleTariffs_def filter_empty_conv list_ex_iff split: if_splits)
    with Nil show ?thesis by (simp add: estimateSessionCost_def)
  next
    case (Cons p ps)
    obtain t cost where p: "p = (t, cost)" by (cases p)
    have mem: "(t, cost) \<in> set ?eligible" using Cons p by (metis list.set_intros(1) set_sort)
    with sub have "(t, cost) \<in> set ?costed" by blast
    then have made: "t \<in> set (candidateTariffs site pick)" "costOn t session (pickedConnector pick) = Some cost"
      by (auto simp: costedTariffs_def map_filter_def)
    have "sorted (map ?key (p # ps))" using Cons sorted_sort_key [of ?key ?eligible] by simp
    moreover have "set (p # ps) = set ?eligible" using Cons by (metis set_sort)
    ultimately have least: "?key (t, cost) \<le> ?key (u, other)" if "(u, other) \<in> set ?eligible" for u other
      using that p by (metis (no_types, lifting) list.set_map list.simps(9) image_eqI order_refl set_ConsD sorted_simps(2))
    have "costAmount cost < costAmount other \<or> costAmount cost = costAmount other \<and> adHoc u \<le> adHoc t"
      if "(u, other) \<in> set ?eligible" for u other
      using least [OF that] by (auto simp: less_eq_prod_def split: if_splits)
    then have "list_all (\<lambda>(u, other). costAmount cost < costAmount other \<or> costAmount cost = costAmount other \<and> adHoc u \<le> adHoc t) ?eligible"
      by (auto simp: list_all_iff)
    with mem made Cons p show ?thesis by (auto simp: estimateSessionCost_def)
  qed
qed


section \<open>An example\<close>

definition exampleTariff :: EnergyTariff where
  "exampleTariff = \<lparr>tariffId = ''t'', tariffCurrency = ''EUR'', tariffType = None,
     elements = [\<lparr>components = [\<lparr>compType = EnergyType, compPrice = 1 / 2, compVatPct = None, compStepSize = Some 1\<rparr>],
                  restrictions = None\<rparr>],
     minPrice = Some 1, maxPrice = Some 5, priceIncludesVat = True\<rparr>"

definition exampleCharging :: SessionFacts where
  "exampleCharging = \<lparr>factPowerKw = 50, factArrival = \<lparr>arrDate = ''2026-07-15'', arrTime = ''12:30'', arrDay = ''WE''\<rparr>,
     factAddedKwh = 20, factChargeSeconds = 1800\<rparr>"

definition exampleConnector :: ChargingConnector where
  "exampleConnector = \<lparr>conKey = ''1'', conStandard = ''IEC_62196_T2_COMBO'', conCurrent = None, conMaxPowerKw = Some 50,
     conMaxAmperage = None, conTariffIds = [], conStatus = None, conStale = False\<rparr>"

lemma example_cost: "\<exists>cost. costOn exampleTariff exampleCharging exampleConnector = Some cost"
proof -
  have "(case costOn exampleTariff exampleCharging exampleConnector of None \<Rightarrow> False | Some c \<Rightarrow> True)" by code_simp
  then show ?thesis by (auto split: option.splits)
qed

theorem whole_session_priced_witness:
  "\<exists>shares. stretchShares (stretchComponent exampleCharging exampleConnector (pricedElements exampleTariff exampleCharging) EnergyType)
     (costCuts (pricedElements exampleTariff exampleCharging) exampleCharging) ([], False) = (shares, False) \<and> sharesSum shares = 1"
proof -
  obtain cost where "costOn exampleTariff exampleCharging exampleConnector = Some cost" using example_cost by blast
  moreover have "baseType exampleTariff exampleCharging exampleConnector = Some EnergyType" by code_simp
  ultimately show ?thesis by (rule whole_session_priced)
qed

theorem cost_within_bounds_witness:
  "\<exists>cost c. costOn exampleTariff exampleCharging exampleConnector = Some cost \<and>
     1 * gross exampleTariff c \<le> costAmount cost \<and> costAmount cost \<le> 5 * gross exampleTariff c"
proof -
  obtain cost where "costOn exampleTariff exampleCharging exampleConnector = Some cost" using example_cost by blast
  moreover have "\<And>c. 0 \<le> gross exampleTariff c" by (simp add: gross_def exampleTariff_def)
  ultimately show ?thesis
    using cost_within_bounds [of exampleTariff exampleCharging exampleConnector cost 1 5] unfolding exampleTariff_def by simp blast
qed

end
