(* ===== verification/Ev_Planner_Properties.thy ===== *)
theory Ev_Planner_Properties
  imports Ev_Planner Ev_Tariff_Properties
begin

text \<open>
  What a charge plan promises: it is always made, its legs can be driven with the energy the planner counts, its
  stops are charge points the vehicle and the driver accept; and what it leaves out, the way back from a charger.
\<close>

section \<open>Charging always ends\<close>

lemma chargeLoop_ends:
  assumes "toSocKwh inp - e \<le> of_nat n * (chargeBatteryKwh inp / 200)"
  shows "chargeLoop inp peak e seconds \<noteq> None"
  using assms
proof (induction n arbitrary: e seconds)
  case 0
  then show ?case by (subst chargeLoop.simps) simp
next
  case (Suc n)
  from Suc.prems have "toSocKwh inp - (e + chargeBatteryKwh inp / 200) \<le> of_nat n * (chargeBatteryKwh inp / 200)"
    by (simp add: algebra_simps)
  note next_ends = Suc.IH [OF this]
  show ?case by (subst chargeLoop.simps) (use next_ends in \<open>simp add: Let_def\<close>)
qed

lemma chargeSecondsFor_returns:
  assumes "0 \<le> fromSocKwh inp" and "toSocKwh inp \<le> chargeBatteryKwh inp"
  shows "chargeSecondsFor inp \<noteq> None"
proof (cases "toSocKwh inp \<le> fromSocKwh inp")
  case False
  with assms have "0 < chargeBatteryKwh inp / 200" by simp
  from steps_suffice [OF this] obtain n where "toSocKwh inp - fromSocKwh inp \<le> of_nat n * (chargeBatteryKwh inp / 200)"
    by blast
  from chargeLoop_ends [OF this] show ?thesis by (simp add: chargeSecondsFor_def Let_def)
qed (simp add: chargeSecondsFor_def)

lemma planned_charge_returns:
  assumes "0 \<le> fromKwh" and "toKwh \<le> batteryKwh (planVehicle inp)"
  shows "chargeSecondsFor (chargeInput inp pick fromKwh toKwh) \<noteq> None"
  using assms by (intro chargeSecondsFor_returns) (simp_all add: chargeInput_def split: prod.split)

lemma those_some: "(\<forall>x \<in> set xs. f x \<noteq> None) \<Longrightarrow> those (map f xs) \<noteq> None"
  by (induction xs) auto

lemma those_mem: "those xs = Some ys \<Longrightarrow> y \<in> set ys \<Longrightarrow> Some y \<in> set xs"
  by (induction xs arbitrary: ys) (auto split: option.splits)

lemma scoreCandidate_returns: "scoreCandidate host inp dv count matrix cand \<noteq> None"
proof -
  obtain i site pick where cand: "cand = (i, site, pick)" by (cases cand)
  have "chargeSecondsFor (chargeInput inp pick (max 0 r) (min (socTargetKwh inp) (batteryKwh (planVehicle inp)))) \<noteq> None" for r
    by (rule planned_charge_returns) simp_all
  then have "\<forall>r. \<exists>y. chargeSecondsFor (chargeInput inp pick (max 0 r) (min (socTargetKwh inp) (batteryKwh (planVehicle inp)))) = Some y"
    by simp
  then obtain f where
    f: "\<And>r. chargeSecondsFor (chargeInput inp pick (max 0 r) (min (socTargetKwh inp) (batteryKwh (planVehicle inp)))) = Some (f r)"
    by metis
  show ?thesis unfolding cand scoreCandidate_def prod.case Let_def f by (simp split: option.split)
qed

lemma scoreAll_returns: "scoreAll host inp dv matrix compatible \<noteq> None"
  using those_some [of "enumerate 0 compatible" "scoreCandidate host inp dv (length compatible) matrix"] scoreCandidate_returns
  by (simp add: scoreAll_def)

section \<open>The candidates\<close>

lemma scoreAll_mem:
  assumes "scoreAll host inp dv matrix compatible = Some scored" and "s \<in> set scored"
  shows "scIndex s < length compatible"
    "\<exists>cell. cellAt matrix 0 (scIndex s) = Some cell \<and>
      scReachKwh s = socAtDivert dv - cellKm cell * baseWhPerKm (planVehicle inp) * DETOUR_UPLIFT / 1000"
    "0 \<le> scReachKwh s"
proof -
  from assms obtain all where "those (map (scoreCandidate host inp dv (length compatible) matrix) (enumerate 0 compatible)) = Some all"
    "Some s \<in> set all" by (auto simp: scoreAll_def map_filter_def)
  then obtain i c where mem: "(i, c) \<in> set (enumerate 0 compatible)"
    and score: "scoreCandidate host inp dv (length compatible) matrix (i, c) = Some (Some s)"
    by (auto dest!: those_mem)
  from mem have bound: "i < length compatible" by (simp add: in_set_enumerate_eq)
  show "scIndex s < length compatible"
    "\<exists>cell. cellAt matrix 0 (scIndex s) = Some cell \<and>
      scReachKwh s = socAtDivert dv - cellKm cell * baseWhPerKm (planVehicle inp) * DETOUR_UPLIFT / 1000"
    "0 \<le> scReachKwh s"
    using score bound by (auto simp: scoreCandidate_def Let_def split: prod.splits option.splits if_splits)
qed

lemma bestScored_spec:
  "case bestScored score scored of
     None \<Rightarrow> scored = []
   | Some b \<Rightarrow> b \<in> set scored \<and> (\<forall>s \<in> set scored. score b \<le> score s)"
proof (induction scored rule: rev_induct)
  case (snoc s scored)
  then show ?case by (fastforce simp: bestScored_def split: option.splits)
qed (simp add: bestScored_def)

lemma chooseStop_go:
  assumes "chooseStop host inp axis iter st dv compatible = Some (Go st')"
  obtains matrix scored best where
    "hostMatrix host iter (divertPoint dv # map (siteCoordinates \<circ> fst) compatible)
       (map (siteCoordinates \<circ> fst) compatible @ [last (routeGeometry (planRoute inp))]) = Some matrix"
    "scoreAll host inp dv matrix compatible = Some scored" "best \<in> set scored"
    "takeStop host inp axis
       (called (AskedMatrix iter (divertPoint dv # map (siteCoordinates \<circ> fst) compatible)
         (map (siteCoordinates \<circ> fst) compatible @ [last (routeGeometry (planRoute inp))])) st)
       dv (compatible ! scIndex best) best = Some (Go st')"
proof -
  from assms obtain matrix scored best where
    "hostMatrix host iter (divertPoint dv # map (siteCoordinates \<circ> fst) compatible)
       (map (siteCoordinates \<circ> fst) compatible @ [last (routeGeometry (planRoute inp))]) = Some matrix"
    "scoreAll host inp dv matrix compatible = Some scored"
    "bestScored (scoreOf host inp dv (minCostByCcy scored) compatible) scored = Some best"
    "takeStop host inp axis
       (called (AskedMatrix iter (divertPoint dv # map (siteCoordinates \<circ> fst) compatible)
         (map (siteCoordinates \<circ> fst) compatible @ [last (routeGeometry (planRoute inp))])) st)
       dv (compatible ! scIndex best) best = Some (Go st')"
    by (auto simp: chooseStop_def Let_def split: option.splits)
  then show ?thesis
    using that bestScored_spec [where score = "scoreOf host inp dv (minCostByCcy scored) compatible" and scored = scored] by auto
qed

lemma departKwhFor_bounds:
  "departKwhFor inp axis dv arrive \<le> batteryKwh (planVehicle inp)"
  "min (batteryKwh (planVehicle inp)) (arrive + detourReserve inp) \<le> departKwhFor inp axis dv arrive"
proof -
  have "\<exists>d. departKwhFor inp axis dv arrive = min (batteryKwh (planVehicle inp)) (max (arrive + detourReserve inp) d)"
    unfolding departKwhFor_def Let_def by blast
  then show "departKwhFor inp axis dv arrive \<le> batteryKwh (planVehicle inp)"
    "min (batteryKwh (planVehicle inp)) (arrive + detourReserve inp) \<le> departKwhFor inp axis dv arrive"
    by (auto intro: min.mono)
qed

lemma takeStop_returns: "takeStop host inp axis st dv chosen best \<noteq> None"
proof -
  obtain site pick where chosen: "chosen = (site, pick)" by (cases chosen)
  have "chargeSecondsFor (chargeInput inp pick (max 0 r) (departKwhFor inp axis dv (max 0 r))) \<noteq> None" for r
    by (rule planned_charge_returns) (simp_all add: departKwhFor_bounds)
  then show ?thesis unfolding chosen takeStop_def prod.case by (auto simp: Let_def split: option.split)
qed

lemma takeStop_go:
  assumes "takeStop host inp axis st dv (site, pick) best = Some (Go st')"
  obtains stop where
    "curStops st' = curStops st @ [stop]" "curStart st' = divertIdx dv" "curSoc st' = departSocKwh stop"
    "curWarnings st' = curWarnings st" "stopSite stop = site" "stopEvse stop = pickedEvse pick"
    "stopConnector stop = pickedStandard pick" "stopPowerKw stop = pickedPowerKw pick"
    "stopCoordinates stop = siteCoordinates site"
    "arriveSocKwh stop = max 0 (scReachKwh best)" "departSocKwh stop = departKwhFor inp axis dv (arriveSocKwh stop)"
    "chargeSecondsFor (chargeInput inp pick (arriveSocKwh stop) (departSocKwh stop)) = Some (stopChargeSeconds stop)"
proof -
  define arrive where "arrive = max 0 (scReachKwh best)"
  define depart where "depart = departKwhFor inp axis dv arrive"
  from assms obtain seconds where seconds: "chargeSecondsFor (chargeInput inp pick arrive depart) = Some seconds"
    by (cases "chargeSecondsFor (chargeInput inp pick arrive depart)")
      (simp_all add: takeStop_def Let_def arrive_def [symmetric] depart_def [symmetric])
  from assms [unfolded takeStop_def prod.case Let_def, folded arrive_def, folded depart_def, unfolded seconds option.case, symmetric]
  show ?thesis
    by (intro that [of "last (curStops st')"]) (simp_all add: seconds [unfolded depart_def arrive_def] arrive_def depart_def)
qed

section \<open>Reach\<close>

lemma takeWhile_holds: "list_all P (take (length (takeWhile P xs)) xs)"
  by (induction xs) simp_all

lemma reachOffset_within:
  assumes "0 < reachOffset cum i soc low"
  shows "i + reachOffset cum i soc low < length cum" "low \<le> soc - (cum ! (i + reachOffset cum i soc low) - cum ! i)"
proof -
  let ?P = "\<lambda>kwh. kwh - cum ! i \<le> soc - low"
  let ?xs = "drop (i + 1) cum"
  let ?n = "length (takeWhile ?P ?xs)"
  have n: "reachOffset cum i soc low = ?n" by (simp add: reachOffset_def)
  have len: "?n \<le> length ?xs" by (rule length_takeWhile_le)
  then have "?n \<le> length cum - (i + 1)" by (simp only: length_drop)
  moreover have "0 < ?n" using assms unfolding n .
  ultimately show "i + reachOffset cum i soc low < length cum" unfolding n by arith
  obtain k where k: "?n = Suc k" using assms unfolding n by (cases ?n) simp_all
  have short: "k < length (takeWhile ?P ?xs)" by (simp only: k lessI)
  then have "?P (takeWhile ?P ?xs ! k)" using nth_mem [of k "takeWhile ?P ?xs"] set_takeWhileD [of "takeWhile ?P ?xs ! k" ?P ?xs] k by simp
  moreover have "takeWhile ?P ?xs ! k = ?xs ! k" by (rule takeWhile_nth [OF short])
  moreover have "?xs ! k = cum ! (i + ?n)"
  proof -
    have "i + 1 \<le> length cum" using len k by simp
    then have "?xs ! k = cum ! (i + 1 + k)" by (rule nth_drop)
    then show ?thesis by (simp only: k) simp
  qed
  ultimately have "?P (cum ! (i + ?n))" by simp
  then show "low \<le> soc - (cum ! (i + reachOffset cum i soc low) - cum ! i)" unfolding n by linarith
qed

text \<open>
  The point to leave the route at is the furthest the battery allows: every sample up to it leaves at least the
  floor, and the next one, when there is one, does not.
\<close>

theorem divert_is_furthest:
  "list_all (\<lambda>kwh. kwh - cum ! i \<le> soc - low) (take (reachOffset cum i soc low) (drop (i + 1) cum)) \<and>
   (i + 1 + reachOffset cum i soc low < length cum) \<le> (soc - low < cum ! (i + 1 + reachOffset cum i soc low) - cum ! i)"
proof -
  let ?P = "\<lambda>kwh. kwh - cum ! i \<le> soc - low"
  let ?xs = "drop (i + 1) cum"
  have "\<not> ?P (?xs ! length (takeWhile ?P ?xs))" if "i + 1 + length (takeWhile ?P ?xs) < length cum"
    using that by (intro nth_length_takeWhile) simp
  then show ?thesis using takeWhile_holds [of ?P ?xs] by (auto simp: reachOffset_def)
qed

section \<open>The journey\<close>

text \<open>The distance of the approach to a stop, as the matrix gave it for the point the route was left at.\<close>

definition approachKm :: "PlanHost \<Rightarrow> LngLat \<Rightarrow> PlannedStop \<Rightarrow> rat \<Rightarrow> bool" where
  "approachKm host point s km \<longleftrightarrow>
     (\<exists>iter others targets matrix i cell.
        hostMatrix host iter (point # others) targets = Some matrix \<and> i < length targets \<and>
        targets ! i = stopCoordinates s \<and> cellAt matrix 0 i = Some cell \<and> cellKm cell = km)"

definition routePoint :: "PlanHost \<Rightarrow> PlanInput \<Rightarrow> PlanAxis \<Rightarrow> nat \<Rightarrow> LngLat" where
  "routePoint host inp axis d = coordAtDistanceM host (routeGeometry (planRoute inp)) (axisMetres axis ! d)"

text \<open>A journey along the stops: where on the route it is after the last of them, and with how much energy.\<close>

inductive journey :: "PlanHost \<Rightarrow> PlanInput \<Rightarrow> PlanAxis \<Rightarrow> PlannedStop list \<Rightarrow> nat \<Rightarrow> rat \<Rightarrow> bool" for host inp axis where
  departed: "journey host inp axis [] 0 (socStartKwh inp)"
| charged: "journey host inp axis stops i soc \<Longrightarrow> i < d \<Longrightarrow> d < length (axisKwh axis) \<Longrightarrow>
    socArrivalMinKwh inp + detourReserve inp \<le> soc - (axisKwh axis ! d - axisKwh axis ! i) \<Longrightarrow>
    arriveSocKwh s + km * baseWhPerKm (planVehicle inp) * DETOUR_UPLIFT / 1000 = soc - (axisKwh axis ! d - axisKwh axis ! i) \<Longrightarrow>
    approachKm host (routePoint host inp axis d) s km \<Longrightarrow> 0 \<le> arriveSocKwh s \<Longrightarrow> departSocKwh s \<le> batteryKwh (planVehicle inp) \<Longrightarrow>
    min (batteryKwh (planVehicle inp)) (arriveSocKwh s + detourReserve inp) \<le> departSocKwh s \<Longrightarrow>
    journey host inp axis (stops @ [s]) d (departSocKwh s)"

definition acceptedStop :: "PlanHost \<Rightarrow> PlanInput \<Rightarrow> PlannedStop \<Rightarrow> bool" where
  "acceptedStop host inp s \<longleftrightarrow>
     (\<exists>iter point candidates pick.
        hostChargers host iter point (windowKm inp) = Chargers candidates \<and> stopSite s \<in> set candidates \<and>
        pickEvse (stopSite s) (planVehicle inp) = Some pick \<and> stopEvse s = pickedEvse pick \<and>
        stopConnector s = pickedStandard pick \<and> stopPowerKw s = pickedPowerKw pick \<and> networkAllowed host inp (stopSite s) \<and>
        chargeSecondsFor (chargeInput inp pick (arriveSocKwh s) (departSocKwh s)) = Some (stopChargeSeconds s))"

definition underWay :: "PlanHost \<Rightarrow> PlanInput \<Rightarrow> PlanAxis \<Rightarrow> nat \<Rightarrow> PlanState \<Rightarrow> bool" where
  "underWay host inp axis n st \<longleftrightarrow>
     journey host inp axis (curStops st) (curStart st) (curSoc st) \<and> list_all (acceptedStop host inp) (curStops st) \<and>
     length (curStops st) = n \<and> curWarnings st = []"

definition arrivedOrWarned :: "PlanHost \<Rightarrow> PlanInput \<Rightarrow> PlanAxis \<Rightarrow> PlanState \<Rightarrow> bool" where
  "arrivedOrWarned host inp axis st \<longleftrightarrow>
     journey host inp axis (curStops st) (curStart st) (curSoc st) \<and> list_all (acceptedStop host inp) (curStops st) \<and>
     length (curStops st) \<le> MAX_STOPS \<and> (curWarnings st = [] \<longrightarrow> reached inp axis st)"

lemma warn_simps [simp]:
  "curStops (warn ws st) = curStops st" "curStart (warn ws st) = curStart st" "curSoc (warn ws st) = curSoc st"
  "curWarnings (warn ws st) = curWarnings st @ ws"
  by (simp_all add: warn_def)

lemma called_simps [simp]:
  "curStops (called c st) = curStops st" "curStart (called c st) = curStart st" "curSoc (called c st) = curSoc st"
  "curWarnings (called c st) = curWarnings st"
  by (simp_all add: called_def)

text \<open>What a step that goes on has done, and how a step that stops ends.\<close>

lemma planStep_go:
  assumes "planStep host inp axis iter st = Some (Go st')"
  obtains candidates compatible where "curStart st < divertIdx (divertAt host inp axis st)"
    "hostChargers host iter (divertPoint (divertAt host inp axis st)) (windowKm inp) = Chargers candidates"
    "compatible = filter (\<lambda>(s, _). networkAllowed host inp s) (connCompatible inp candidates)"
    "chooseStop host inp axis iter
       (called (AskedChargers iter (divertPoint (divertAt host inp axis st)) (windowKm inp)) st)
       (divertAt host inp axis st) compatible = Some (Go st')"
  using assms that by (auto simp: planStep_def Let_def not_le split: if_splits ChargerAnswer.splits)

lemma planStep_halt:
  assumes "planStep host inp axis iter st = Some (Halt st')"
  shows "curStops st' = curStops st \<and> curStart st' = curStart st \<and> curSoc st' = curSoc st \<and>
    (curWarnings st' = curWarnings st \<and> reached inp axis st \<or> curWarnings st' \<noteq> [])"
proof -
  have choose: "curStops st' = curStops st1 \<and> curStart st' = curStart st1 \<and> curSoc st' = curSoc st1 \<and> curWarnings st' \<noteq> []"
    if "chooseStop host inp axis iter st1 dv compatible = Some (Halt st')" for st1 dv compatible
    using that by (auto simp: chooseStop_def takeStop_def Let_def split: option.splits prod.splits)
  with assms show ?thesis
    by (auto simp: planStep_def Let_def dest!: choose split: if_splits ChargerAnswer.splits)
qed

lemma planStep_underWay:
  assumes "underWay host inp axis n st" and "planStep host inp axis iter st = Some (Go st')"
  shows "underWay host inp axis (Suc n) st'"
proof -
  define dv where "dv = divertAt host inp axis st"
  from assms(2) obtain candidates compatible where on: "curStart st < divertIdx dv"
    and asked: "hostChargers host iter (divertPoint dv) (windowKm inp) = Chargers candidates"
    and compatible: "compatible = filter (\<lambda>(s, _). networkAllowed host inp s) (connCompatible inp candidates)"
    and choose: "chooseStop host inp axis iter (called (AskedChargers iter (divertPoint dv) (windowKm inp)) st) dv compatible =
      Some (Go st')"
    unfolding dv_def by (rule planStep_go)
  from choose obtain matrix scored best where
    matrix: "hostMatrix host iter (divertPoint dv # map (siteCoordinates \<circ> fst) compatible)
       (map (siteCoordinates \<circ> fst) compatible @ [last (routeGeometry (planRoute inp))]) = Some matrix"
    and scored: "scoreAll host inp dv matrix compatible = Some scored" "best \<in> set scored"
    and took: "takeStop host inp axis
       (called (AskedMatrix iter (divertPoint dv # map (siteCoordinates \<circ> fst) compatible)
         (map (siteCoordinates \<circ> fst) compatible @ [last (routeGeometry (planRoute inp))]))
         (called (AskedChargers iter (divertPoint dv) (windowKm inp)) st))
       dv (compatible ! scIndex best) best = Some (Go st')"
    by (rule chooseStop_go)
  note score = scoreAll_mem [OF scored]
  obtain site pick where chosen: "compatible ! scIndex best = (site, pick)" by fastforce
  with score(1) have "(site, pick) \<in> set compatible" by (metis nth_mem)
  then have accepted: "site \<in> set candidates" "pickEvse site (planVehicle inp) = Some pick" "networkAllowed host inp site"
    by (auto simp: compatible connCompatible_def map_filter_def)
  from took obtain stop where stop: "curStops st' = curStops st @ [stop]" "curStart st' = divertIdx dv" "curSoc st' = departSocKwh stop"
    "curWarnings st' = curWarnings st" "stopSite stop = site" "stopEvse stop = pickedEvse pick"
    "stopConnector stop = pickedStandard pick" "stopPowerKw stop = pickedPowerKw pick"
    "stopCoordinates stop = siteCoordinates site"
    "arriveSocKwh stop = max 0 (scReachKwh best)" "departSocKwh stop = departKwhFor inp axis dv (arriveSocKwh stop)"
    "chargeSecondsFor (chargeInput inp pick (arriveSocKwh stop) (departSocKwh stop)) = Some (stopChargeSeconds stop)"
    unfolding chosen by (rule takeStop_go) (simp only: called_simps)
  have idx: "divertIdx dv = curStart st + reachOffset (axisKwh axis) (curStart st) (curSoc st) (socArrivalMinKwh inp + detourReserve inp)"
    and soc: "socAtDivert dv = curSoc st - (axisKwh axis ! divertIdx dv - axisKwh axis ! curStart st)"
    by (simp_all add: dv_def divertAt_def Let_def)
  have reach: "divertIdx dv < length (axisKwh axis)"
    "socArrivalMinKwh inp + detourReserve inp \<le> curSoc st - (axisKwh axis ! divertIdx dv - axisKwh axis ! curStart st)"
    using reachOffset_within [of "axisKwh axis" "curStart st" "curSoc st" "socArrivalMinKwh inp + detourReserve inp"] on
    unfolding idx by simp_all
  from score(2) obtain cell :: MatrixCell where cell: "cellAt matrix 0 (scIndex best) = Some cell"
    and "scReachKwh best = socAtDivert dv - cellKm cell * baseWhPerKm (planVehicle inp) * DETOUR_UPLIFT / 1000" by blast
  with score(3) stop(10) soc have arrive: "0 \<le> arriveSocKwh stop"
    "arriveSocKwh stop + cellKm cell * baseWhPerKm (planVehicle inp) * DETOUR_UPLIFT / 1000 =
      curSoc st - (axisKwh axis ! divertIdx dv - axisKwh axis ! curStart st)" by simp_all
  have "journey host inp axis (curStops st) (curStart st) (curSoc st)" using assms(1) by (simp add: underWay_def)
  moreover have "approachKm host (routePoint host inp axis (divertIdx dv)) stop (cellKm cell)"
  proof -
    have "divertPoint dv = routePoint host inp axis (divertIdx dv)" by (simp add: dv_def divertAt_def routePoint_def Let_def)
    moreover have "(map (siteCoordinates \<circ> fst) compatible @ [last (routeGeometry (planRoute inp))]) ! scIndex best = stopCoordinates stop"
      using score(1) chosen stop(9) by (simp add: nth_append)
    ultimately show ?thesis unfolding approachKm_def using matrix cell score(1)
      by (intro exI [of _ iter] exI [of _ "map (siteCoordinates \<circ> fst) compatible"]
          exI [of _ "map (siteCoordinates \<circ> fst) compatible @ [last (routeGeometry (planRoute inp))]"]
          exI [of _ matrix] exI [of _ "scIndex best"] exI [of _ cell]) simp
  qed
  ultimately have "journey host inp axis (curStops st @ [stop]) (divertIdx dv) (departSocKwh stop)"
    using on reach arrive departKwhFor_bounds [where inp = inp and axis = axis and dv = dv and arrive = "arriveSocKwh stop"]
    by (intro journey.charged) (simp_all only: stop(11))
  then have "journey host inp axis (curStops st') (curStart st') (curSoc st')" by (simp only: stop(1-3))
  moreover have "acceptedStop host inp stop"
    unfolding acceptedStop_def stop(5)
    by (intro exI [of _ iter] exI [of _ "divertPoint dv"] exI [of _ candidates] exI [of _ pick] conjI)
      (rule asked accepted stop(6-8,12))+
  ultimately show ?thesis using assms(1) stop(1,4) by (simp add: underWay_def)
qed

lemma planLoop_ends:
  assumes "underWay host inp axis (MAX_STOPS - n) st" and "n \<le> MAX_STOPS"
    and "planLoop host inp axis n st = Some (Halt st')"
  shows "arrivedOrWarned host inp axis st' \<or> underWay host inp axis MAX_STOPS st'"
  using assms
proof (induction n arbitrary: st)
  case (Suc n)
  show ?case
  proof (cases "planStep host inp axis (MAX_STOPS - Suc n) st")
    case (Some out)
    show ?thesis
    proof (cases out)
      case (Go st1)
      from planStep_underWay [OF Suc.prems(1)] Some Go Suc.prems(2) have "underWay host inp axis (MAX_STOPS - n) st1"
        by (metis Suc_diff_le diff_Suc_Suc)
      with Suc Some Go show ?thesis by simp
    next
      case (Halt st1)
      with Suc.prems(3) Some have "st1 = st'" by simp
      with planStep_halt [of host inp axis "MAX_STOPS - Suc n" st st'] Some Halt Suc.prems(1) show ?thesis
        by (auto simp: underWay_def arrivedOrWarned_def reached_def)
    qed (use Suc.prems(3) Some in simp)
  qed (use Suc.prems(3) in simp)
qed simp

lemma planLoop_shape: "case planLoop host inp axis n st of Some (Go _) \<Rightarrow> False | None \<Rightarrow> False | _ \<Rightarrow> True"
proof (induction n arbitrary: st)
  case (Suc n)
  have choose: "chooseStop host inp axis iter st1 dv compatible \<noteq> None" for iter st1 dv compatible
    by (simp add: chooseStop_def Let_def scoreAll_returns takeStop_returns del: not_None_eq split: option.split)
  have "planStep host inp axis iter st \<noteq> None" for iter
    by (simp add: planStep_def Let_def choose del: not_None_eq split: ChargerAnswer.split)
  then obtain out where "planStep host inp axis (MAX_STOPS - Suc n) st = Some out" by blast
  with Suc.IH show ?case by (cases out) simp_all
qed simp

section \<open>Properties\<close>

text \<open>
  C23. Planning always comes to an end: with a plan of at most twelve stops, or with the failure of the charger search.\<close>

theorem plan_returns:
  "case planCharges host inp of
     None \<Rightarrow> False
   | Some PlanThrows \<Rightarrow> True
   | Some (Planned p) \<Rightarrow> length (planStops p) \<le> 12"
proof -
  have start: "underWay host inp (planAxis host inp) (MAX_STOPS - MAX_STOPS) (initialState inp)"
    by (simp add: underWay_def initialState_def journey.departed)
  note ends = planLoop_ends [OF start order_refl]
  show ?thesis
    using planLoop_shape [of host inp "planAxis host inp" MAX_STOPS "initialState inp"] ends
    by (auto simp: planCharges_def planRun_def planOf_def underWay_def arrivedOrWarned_def MAX_STOPS_def
        split: option.splits StepOutcome.splits)
qed

lemma planCharges_cases:
  assumes "planCharges host inp = Some (Planned p)"
  obtains st where "p = planOf inp (planAxis host inp) st"
    "arrivedOrWarned host inp (planAxis host inp) st \<or> underWay host inp (planAxis host inp) MAX_STOPS st"
proof -
  have start: "underWay host inp (planAxis host inp) (MAX_STOPS - MAX_STOPS) (initialState inp)"
    by (simp add: underWay_def initialState_def journey.departed)
  note ends = planLoop_ends [OF start order_refl]
  show ?thesis
    using assms that ends planLoop_shape [of host inp "planAxis host inp" MAX_STOPS "initialState inp"]
    by (auto simp: planCharges_def planRun_def split: option.splits StepOutcome.splits)
qed

lemma plan_drivable:
  assumes "planCharges host inp = Some (Planned p)"
  shows "\<exists>i soc. journey host inp (planAxis host inp) (planStops p) i soc \<and>
    (planWarnings p = [] \<longrightarrow>
      socArrivalMinKwh inp - REACH_EPS_KWH \<le> soc - (totalEnergyKwh p - axisKwh (planAxis host inp) ! i))"
proof -
  from assms obtain st where p: "p = planOf inp (planAxis host inp) st"
    and st: "arrivedOrWarned host inp (planAxis host inp) st \<or> underWay host inp (planAxis host inp) MAX_STOPS st"
    by (rule planCharges_cases)
  from st have "journey host inp (planAxis host inp) (planStops p) (curStart st) (curSoc st)"
    by (auto simp: p planOf_def Let_def underWay_def arrivedOrWarned_def)
  moreover have "socArrivalMinKwh inp - REACH_EPS_KWH \<le> curSoc st - (totalEnergyKwh p - axisKwh (planAxis host inp) ! curStart st)"
    if "planWarnings p = []"
    using st that
    by (auto simp: p planOf_def Let_def underWay_def arrivedOrWarned_def reached_def stopsUsedUp_def REACH_EPS_KWH_def
        split: if_splits)
  ultimately show ?thesis by blast
qed

text \<open>
  C22. Every leg of a plan can be driven: each stop is ahead of the last, left for with the reserve still in the battery and
  reached with at least nothing left after the approach the matrix gave, and each departure fits the battery.
  A plan without warnings has the wanted energy for the destination, but for the tolerance. The energy of a leg is the
  one along the route from where it was left for the charger: the way back from the charger is not in it
  (\<open>return_leg_uncharged\<close>).
\<close>

theorem plan_legs_drivable:
  "case planCharges host inp of
     Some (Planned p) \<Rightarrow>
       (\<exists>i soc. journey host inp (planAxis host inp) (planStops p) i soc \<and>
          (planWarnings p = []) \<le>
            (socArrivalMinKwh inp - REACH_EPS_KWH \<le>
               soc - (totalEnergyKwh p - axisKwh (planAxis host inp) ! i)))
   | _ \<Rightarrow> True"
  using plan_drivable [of host inp] by (auto split: option.split PlanOutcome.split)

text \<open>
  Every planned stop is acceptable: a site the charger search answered with, with the charge point chosen for the
  vehicle, on a network the driver allows, and charging for as long as the charge takes.
\<close>

theorem plan_stops_acceptable:
  "case planCharges host inp of Some (Planned p) \<Rightarrow> list_all (acceptedStop host inp) (planStops p) | _ \<Rightarrow> True"
proof -
  have "list_all (acceptedStop host inp) (planStops p)" if plan: "planCharges host inp = Some (Planned p)" for p
  proof -
    from plan obtain st where p: "p = planOf inp (planAxis host inp) st"
      and st: "arrivedOrWarned host inp (planAxis host inp) st \<or> underWay host inp (planAxis host inp) MAX_STOPS st"
      by (rule planCharges_cases)
    then show ?thesis by (auto simp: p planOf_def Let_def underWay_def arrivedOrWarned_def)
  qed
  then show ?thesis by (auto split: option.split PlanOutcome.split)
qed

section \<open>The way back from a charger\<close>

text \<open>The matrix answer with the distance from every charger to the destination blanked.\<close>

definition blankOnwardKm :: "nat \<Rightarrow> MatrixCell option list list \<Rightarrow> MatrixCell option list list" where
  "blankOnwardKm col matrix =
     (case matrix of
        [] \<Rightarrow> []
      | approach # rows \<Rightarrow> approach # map (\<lambda>row. row[col := map_option (\<lambda>c. c\<lparr>cellKm := 0\<rparr>) (row ! col)]) rows)"

definition withoutOnwardKm :: "PlanHost \<Rightarrow> PlanHost" where
  "withoutOnwardKm host =
     host\<lparr>hostMatrix := \<lambda>iter sources targets. map_option (blankOnwardKm (length targets - 1)) (hostMatrix host iter sources targets)\<rparr>"

lemma cellAt_blank:
  "cellAt (blankOnwardKm col m) 0 i = cellAt m 0 i"
  "cellAt (blankOnwardKm col m) (Suc i) col = map_option (\<lambda>c. c\<lparr>cellKm := 0\<rparr>) (cellAt m (Suc i) col)"
  by (cases m; auto simp: cellAt_def blankOnwardKm_def)+

lemma withoutOnwardKm_simps [simp]:
  "hostKm (withoutOnwardKm host) = hostKm host" "hostMetres (withoutOnwardKm host) = hostMetres host"
  "hostZoneAt (withoutOnwardKm host) = hostZoneAt host" "hostIso (withoutOnwardKm host) = hostIso host"
  "hostOperatorKey (withoutOnwardKm host) = hostOperatorKey host" "hostChargers (withoutOnwardKm host) = hostChargers host"
  "hostMatrix (withoutOnwardKm host) iter sources targets =
     map_option (blankOnwardKm (length targets - 1)) (hostMatrix host iter sources targets)"
  by (simp_all add: withoutOnwardKm_def)

lemma unblanked:
  "planAxis (withoutOnwardKm host) = planAxis host"
  "divertAt (withoutOnwardKm host) = divertAt host"
  "arrivalAt (withoutOnwardKm host) = arrivalAt host"
  "networkAllowed (withoutOnwardKm host) = networkAllowed host"
  "networkBias (withoutOnwardKm host) = networkBias host"
  unfolding planAxis_def buildSampleDistances_def divertAt_def coordAtDistanceM_def arrivalAt_def localArrival_def
    networkAllowed_def networkBias_def withoutOnwardKm_simps by (rule refl)+

lemma unblanked_steps:
  "scoreOf (withoutOnwardKm host) = scoreOf host"
  "takeStop (withoutOnwardKm host) = takeStop host"
  unfolding scoreOf_def takeStop_def unblanked by (rule refl)+

lemma scoreCandidate_blank:
  "scoreCandidate (withoutOnwardKm host) inp dv count (blankOnwardKm count matrix) cand = scoreCandidate host inp dv count matrix cand"
proof -
  obtain i site pick where cand: "cand = (i, site, pick)" by (cases cand)
  show ?thesis
    unfolding cand scoreCandidate_def prod.case unblanked Suc_eq_plus1 [symmetric] cellAt_blank
    by (cases "cellAt matrix (Suc i) count") (simp_all cong: option.case_cong if_cong)
qed

lemma chooseStop_blank: "chooseStop (withoutOnwardKm host) inp axis iter st dv compatible = chooseStop host inp axis iter st dv compatible"
proof -
  have scored: "scoreAll (withoutOnwardKm host) inp dv (blankOnwardKm (length compatible) m) compatible = scoreAll host inp dv m compatible" for m
    by (simp add: scoreAll_def scoreCandidate_blank cong: map_cong)
  show ?thesis
    unfolding chooseStop_def unblanked_steps withoutOnwardKm_simps Let_def
    by (cases "hostMatrix host iter (divertPoint dv # map (siteCoordinates \<circ> fst) compatible)
        (map (siteCoordinates \<circ> fst) compatible @ [last (routeGeometry (planRoute inp))])") (simp_all add: scored)
qed

text \<open>
  The distance from a charger to the destination, which the planner asks the matrix for, changes nothing: blanking it in every answer
  gives the same plan. So the energy to drive on from a charger is counted from the point the route was left at.
\<close>

theorem onward_distance_ignored: "planCharges (withoutOnwardKm host) inp = planCharges host inp"
proof -
  have step: "planStep (withoutOnwardKm host) inp axis iter st = planStep host inp axis iter st" for axis iter st
    unfolding planStep_def unblanked withoutOnwardKm_simps chooseStop_blank by (rule refl)
  have "planLoop (withoutOnwardKm host) inp axis n st = planLoop host inp axis n st" for axis n st
    by (induction n arbitrary: st) (simp_all add: step cong: option.case_cong StepOutcome.case_cong)
  then show ?thesis unfolding planCharges_def planRun_def unblanked by simp
qed

section \<open>An example\<close>

declare chargeLoop.simps [code]

text \<open>Two hundred kilometres, a charger thirty kilometres off the middle of them.\<close>

definition exampleVehicle :: EvVehicleSpec where
  "exampleVehicle = \<lparr>batteryKwh = 200, baseWhPerKm = 200, massTonnes = 2, maxDcKw = 50, maxAcKw = 11,
     vehicleTaperSocPct = 80, vehicleConnectors = [''ccs2'']\<rparr>"

definition exampleSite :: ChargingSite where
  "exampleSite = \<lparr>siteId = ''s'', siteCoordinates = (1, 1), siteTimeZone = None, siteOperator = None, siteClosed = False,
     sitePlanned = False,
     siteEvses = [\<lparr>evseQuantity = 1, evseLifecycle = None, evseStatus = None, evseStale = False,
                   evseConnectors = [exampleConnector]\<rparr>],
     siteTariffs = []\<rparr>"

definition exampleInput :: PlanInput where
  "exampleInput = \<lparr>planRoute = \<lparr>routeGeometry = [(0, 0), (0, 1), (0, 2)], routeElevation = None, elevationInterval = None,
       routeDuration = 7200\<rparr>,
     planVehicle = exampleVehicle, socStartKwh = 40, socArrivalMinKwh = 5, socTargetKwh = 0, ambientTempC = 20,
     hasElevation = True, nowMs = 0, tripStartMs = 0, preferredNetworkKeys = None, avoidedNetworkKeys = None,
     exclusiveNetworkKeys = None, planCostWeight = None\<rparr>"

definition examplePlanHost :: PlanHost where
  "examplePlanHost = \<lparr>hostKm = \<lambda>_ _. 100, hostMetres = \<lambda>_ _. 100000, hostZoneAt = \<lambda>_ _. None,
     hostIso = \<lambda>_ _. ''2026-07-15T12:30:00+00:00'', hostOperatorKey = \<lambda>_. [],
     hostChargers = \<lambda>_ _ _. Chargers [exampleSite],
     hostMatrix = \<lambda>_ _ _. Some
       [[Some \<lparr>cellSeconds = 1200, cellKm = 30\<rparr>, Some \<lparr>cellSeconds = 3600, cellKm = 100\<rparr>],
        [Some \<lparr>cellSeconds = 0, cellKm = 0\<rparr>, Some \<lparr>cellSeconds = 5000, cellKm = 130\<rparr>]]\<rparr>"

text \<open>
  A plan without warnings can leave the last charger with less than the way to the destination takes: here with
  25 kWh for 130 km at 200 Wh each.
\<close>

theorem return_leg_uncharged:
  "case planCharges examplePlanHost exampleInput of
     Some (Planned p) \<Rightarrow> planWarnings p = [] \<and> map departSocKwh (planStops p) = [25] \<and> 25 < 130 * baseWhPerKm exampleVehicle / 1000
   | _ \<Rightarrow> False"
  by code_simp

end
