(* ===== verification/Ev_Trip.thy ===== *)
theory Ev_Trip
  imports Ev_Planner_Properties "HOL-Library.Multiset"
begin

text \<open>
  A charge plan for a trip (\<open>integrations/routing/ev-plan.ts\<close>, \<open>runEvPlan\<close>): the route, the plan along it, the route
  through the chosen stops, the check of the whole trip and its cost. The routing provider, the site search and
  the vehicle table are parameters; closure exclusions, traffic evidence and the credits are left out. Battery
  capacities are taken to be positive where percentages divide by them.
\<close>

section \<open>Requests and answers\<close>

record EvPlanArgs =
  argWaypoints :: "LngLat list"
  argVehicleId :: "string option"
  argVehicle :: "EvVehicleSpec option"
  argSocStartPct :: rat
  argSocArrivalMinPct :: "rat option"
  argSocTargetPct :: "rat option"
  argAmbientTempC :: "rat option"
  argPreferredNetworks :: "string list option"
  argAvoidedNetworks :: "string list option"
  argExclusiveNetworks :: bool
  argPreferCheaper :: "bool option"
  argHomePricePerKwh :: "rat option"
  argHomeCurrency :: "string option"

text \<open>
  The provider answers with routes and the index of the active one, or fails; the call is numbered. The search
  answers with sites and whether the answer is partial. A matrix the provider has may fail.
\<close>

record TripHost =
  tripGeo :: PlanHost
  tripPreset :: "string \<Rightarrow> EvVehicleSpec option"
  tripNowMs :: rat
  tripInstantMs :: "rat option"
  tripRoutes :: "nat \<Rightarrow> LngLat list \<Rightarrow> (EvRoute list \<times> nat) option"
  tripSearch :: "nat \<Rightarrow> LngLat \<Rightarrow> rat \<Rightarrow> (ChargingSite list \<times> bool) option"
  tripMatrix :: "(nat \<Rightarrow> LngLat list \<Rightarrow> LngLat list \<Rightarrow> MatrixCell option list list option) option"
  tripCircleKm :: "LngLat \<Rightarrow> LngLat \<Rightarrow> rat"
  tripDigits :: "string \<Rightarrow> nat"
  tripCollate :: "string \<Rightarrow> nat"

datatype TripError = UnknownVehicle | RouteFailed | NoBaseRoute | PlanFailed | NoFinalRoute

datatype TripWarning = FromPlan PlanWarning | PartialChargerData | StraightLineDistances

record TripStop =
  tripStation :: string
  tripStopCoordinates :: LngLat
  tripConnector :: string
  tripPowerKw :: rat
  tripOperator :: "string option"
  isPreferredNetwork :: bool
  arriveSocPct :: int
  departSocPct :: int
  tripStopSeconds :: int
  tripAddedKwh :: rat
  tripAvailability :: "(nat \<times> nat) option"
  tariffPrice :: "TariffPrice option"
  contractTariff :: bool
  tripStopCost :: "(rat \<times> string) option"

record TripCost =
  tripCostAmount :: rat
  tripCostCurrency :: string
  homeKwh :: rat
  publicKwh :: rat
  otherCurrencies :: "(string \<times> rat) list"

record TripResponse =
  tripRoute :: EvRoute
  tripStops :: "TripStop list"
  driveSeconds :: int
  tripChargeSeconds :: int
  tripEnergyKwh :: rat
  tripCost :: "TripCost option"
  tripWarnings :: "TripWarning list"

definition TIGHT_MARGIN_BAND_FRACTION :: rat where "TIGHT_MARGIN_BAND_FRACTION = 0.05"

definition roundJs :: "rat \<Rightarrow> int" where
  "roundJs x = \<lfloor>x + 1 / 2\<rfloor>"

definition roundTo :: "rat \<Rightarrow> rat \<Rightarrow> rat" where
  "roundTo scale x = of_int (roundJs (x * scale)) / scale"

section \<open>What the planner asks\<close>

definition greatCircleMatrix :: "TripHost \<Rightarrow> LngLat list \<Rightarrow> LngLat list \<Rightarrow> MatrixCell option list list" where
  "greatCircleMatrix host sources targets =
     map (\<lambda>s. map (\<lambda>t. let d = tripCircleKm host s t in Some \<lparr>cellSeconds = d / 80 * 3600, cellKm = d\<rparr>) targets) sources"

definition corridorChargers :: "TripHost \<Rightarrow> nat \<Rightarrow> LngLat \<Rightarrow> rat \<Rightarrow> ChargerAnswer" where
  "corridorChargers host iter centre radiusKm =
     (case tripSearch host iter centre radiusKm of
        None \<Rightarrow> ChargersFail
      | Some (sites, partial) \<Rightarrow> if partial \<and> sites = [] then SourcesUnavailable else Chargers sites)"

definition providerMatrix :: "TripHost \<Rightarrow> nat \<Rightarrow> LngLat list \<Rightarrow> LngLat list \<Rightarrow> MatrixCell option list list option" where
  "providerMatrix host iter sources targets =
     (case tripMatrix host of None \<Rightarrow> None | Some getMatrix \<Rightarrow> getMatrix iter sources targets)"

definition planMatrix :: "TripHost \<Rightarrow> nat \<Rightarrow> LngLat list \<Rightarrow> LngLat list \<Rightarrow> MatrixCell option list list option" where
  "planMatrix host iter sources targets =
     (case providerMatrix host iter sources targets of
        Some matrix \<Rightarrow> Some matrix
      | None \<Rightarrow> Some (greatCircleMatrix host sources targets))"

definition planHost :: "TripHost \<Rightarrow> PlanHost" where
  "planHost host = (tripGeo host)\<lparr>hostChargers := corridorChargers host, hostMatrix := planMatrix host\<rparr>"

text \<open>The two flags the callbacks set.\<close>

definition partialAnswer :: "TripHost \<Rightarrow> PlanCall \<Rightarrow> bool" where
  "partialAnswer host c =
     (case c of
        AskedChargers iter centre radius \<Rightarrow> (case tripSearch host iter centre radius of None \<Rightarrow> False | Some (_, partial) \<Rightarrow> partial)
      | _ \<Rightarrow> False)"

definition straightLine :: "TripHost \<Rightarrow> PlanCall \<Rightarrow> bool" where
  "straightLine host c =
     (case c of AskedMatrix iter sources targets \<Rightarrow> providerMatrix host iter sources targets = None | _ \<Rightarrow> False)"

definition networkKeys :: "TripHost \<Rightarrow> string list option \<Rightarrow> string list" where
  "networkKeys host networks =
     uniq (filter (\<lambda>k. k \<noteq> []) (map (hostOperatorKey (tripGeo host) \<circ> Some) (case networks of None \<Rightarrow> [] | Some ns \<Rightarrow> ns)))"

definition climbSamples :: "EvRoute \<Rightarrow> bool" where
  "climbSamples route = (case routeElevation route of None \<Rightarrow> False | Some es \<Rightarrow> length es \<ge> 2)"

definition orElse :: "'a option \<Rightarrow> 'a \<Rightarrow> 'a" where
  "orElse x y = (case x of None \<Rightarrow> y | Some v \<Rightarrow> v)"

definition planInput :: "TripHost \<Rightarrow> EvPlanArgs \<Rightarrow> EvVehicleSpec \<Rightarrow> EvRoute \<Rightarrow> PlanInput" where
  "planInput host args vehicle base =
     (let preferred = networkKeys host (argPreferredNetworks args)
      in \<lparr>planRoute = base, planVehicle = vehicle, socStartKwh = argSocStartPct args / 100 * batteryKwh vehicle,
          socArrivalMinKwh = orElse (argSocArrivalMinPct args) 10 / 100 * batteryKwh vehicle,
          socTargetKwh = orElse (argSocTargetPct args) 80 / 100 * batteryKwh vehicle,
          ambientTempC = orElse (argAmbientTempC args) 20, hasElevation = climbSamples base,
          nowMs = tripNowMs host, tripStartMs = orElse (tripInstantMs host) (tripNowMs host),
          preferredNetworkKeys = Some preferred, avoidedNetworkKeys = Some (networkKeys host (argAvoidedNetworks args)),
          exclusiveNetworkKeys = (if argExclusiveNetworks args then Some preferred else None),
          planCostWeight = Some (if argPreferCheaper args = Some False then 0 else 1)\<rparr>)"

section \<open>The trip\<close>

definition activeRoute :: "EvRoute list \<times> nat \<Rightarrow> EvRoute option" where
  "activeRoute answer =
     (case answer of (routes, active) \<Rightarrow>
        if active < length routes then Some (routes ! active) else case routes of [] \<Rightarrow> None | r # _ \<Rightarrow> Some r)"

definition finalArrivalKwh :: "TripHost \<Rightarrow> PlanInput \<Rightarrow> PlannedStop list \<Rightarrow> EvRoute \<Rightarrow> rat" where
  "finalArrivalKwh host inp stops final =
     (let energy = last (cumulativeEnergy (hostKm (tripGeo host)) final (planVehicle inp) (ambientTempC inp)
                           (if climbSamples final then 1 else 1.1));
          charged = sum_list (map stopAddedKwh stops)
      in socStartKwh inp + charged - energy)"

definition revalidationWarnings :: "TripHost \<Rightarrow> PlanInput \<Rightarrow> PlannedStop list \<Rightarrow> EvRoute \<Rightarrow> PlanWarning list" where
  "revalidationWarnings host inp stops final =
     (if stops \<noteq> [] \<and>
         finalArrivalKwh host inp stops final
           < socArrivalMinKwh inp + batteryKwh (planVehicle inp) * TIGHT_MARGIN_BAND_FRACTION
      then [TightMargin (length stops)] else [])"

definition addForeign :: "string \<Rightarrow> rat \<Rightarrow> (string \<times> rat) list \<Rightarrow> (string \<times> rat) list" where
  "addForeign ccy amount foreign =
     (if ccy \<in> set (map fst foreign) then map (\<lambda>(c, a). if c = ccy then (c, a + amount) else (c, a)) foreign
      else foreign @ [(ccy, amount)])"

fun publicCosts :: "string \<Rightarrow> SessionCost list \<Rightarrow> rat \<times> (string \<times> rat) list \<Rightarrow> rat \<times> (string \<times> rat) list" where
  "publicCosts home [] acc = acc"
| "publicCosts home (c # cs) (own, foreign) =
     publicCosts home cs
       (if costCurrency c = home then (own + costAmount c, foreign)
        else (own, addForeign (costCurrency c) (costAmount c) foreign))"

definition estimateTripCost ::
  "TripHost \<Rightarrow> PlannedStop list \<Rightarrow> rat \<Rightarrow> rat option \<Rightarrow> string option \<Rightarrow> TripCost option"
where
  "estimateTripCost host stops totalKwh homePrice homeCurrency =
     (case (homePrice, given homeCurrency, those (map estimatedCost stops)) of
        (Some price, Some home, Some costs) \<Rightarrow>
          let pricedKwh = sum_list (map stopAddedKwh stops);
              (own, foreign) = publicCosts home costs (0, []);
              otherKwh = max 0 (totalKwh - pricedKwh)
          in Some \<lparr>tripCostAmount = roundTo 100 (otherKwh * price + own), tripCostCurrency = home,
                   homeKwh = roundTo 10 otherKwh, publicKwh = roundTo 10 pricedKwh,
                   otherCurrencies = sort_key (\<lambda>(c, _). tripCollate host c) (map (\<lambda>(c, a). (c, roundTo 100 a)) foreign)\<rparr>
      | _ \<Rightarrow> None)"

definition isContractTariff :: "string option \<Rightarrow> bool" where
  "isContractTariff ty \<longleftrightarrow> ty \<noteq> None \<and> ty \<noteq> Some ''ad_hoc''"

definition roundToMinorUnit :: "TripHost \<Rightarrow> rat \<Rightarrow> string \<Rightarrow> rat" where
  "roundToMinorUnit host amount currency = roundTo (10 ^ tripDigits host currency) amount"

definition tripStopOf :: "TripHost \<Rightarrow> PlanInput \<Rightarrow> PlannedStop \<Rightarrow> TripStop" where
  "tripStopOf host inp s =
     (let battery = batteryKwh (planVehicle inp)
      in \<lparr>tripStation = siteId (stopSite s), tripStopCoordinates = siteCoordinates (stopSite s), tripConnector = stopConnector s,
          tripPowerKw = stopPowerKw s, tripOperator = siteOperator (stopSite s),
          isPreferredNetwork = matchesAnyOperator (hostOperatorKey (tripGeo host) (siteOperator (stopSite s))) (preferredNetworkKeys inp),
          arriveSocPct = roundJs (arriveSocKwh s / battery * 100), departSocPct = roundJs (departSocKwh s / battery * 100),
          tripStopSeconds = roundJs (stopChargeSeconds s), tripAddedKwh = roundTo 10 (stopAddedKwh s),
          tripAvailability = availabilityOf (stopSite s), tariffPrice = map_option costPrice (estimatedCost s),
          contractTariff = isContractTariff (Option.bind (estimatedCost s) costTariffType),
          tripStopCost = map_option (\<lambda>c. (roundToMinorUnit host (costAmount c) (costCurrency c), costCurrency c)) (estimatedCost s)\<rparr>)"

definition finalRoute :: "TripHost \<Rightarrow> EvPlanArgs \<Rightarrow> EvRoute \<Rightarrow> PlannedStop list \<Rightarrow> TripError + EvRoute" where
  "finalRoute host args base stops =
     (if stops = [] then Inr base
      else case tripRoutes host 1 (hd (argWaypoints args) # map stopCoordinates stops @ [last (argWaypoints args)]) of
        None \<Rightarrow> Inl RouteFailed
      | Some answer \<Rightarrow> (case activeRoute answer of None \<Rightarrow> Inl NoFinalRoute | Some r \<Rightarrow> Inr r))"

definition tripResponse :: "TripHost \<Rightarrow> EvPlanArgs \<Rightarrow> PlanInput \<Rightarrow> ChargePlan \<Rightarrow> EvRoute \<Rightarrow> TripResponse" where
  "tripResponse host args inp plan final =
     (let calls = planCalls (planHost host) inp
      in \<lparr>tripRoute = final, tripStops = map (tripStopOf host inp) (planStops plan),
          driveSeconds = roundJs (routeDuration final), tripChargeSeconds = roundJs (totalChargeSeconds plan),
          tripEnergyKwh = roundTo 10 (totalEnergyKwh plan),
          tripCost = estimateTripCost host (planStops plan) (totalEnergyKwh plan) (argHomePricePerKwh args) (argHomeCurrency args),
          tripWarnings =
            map FromPlan (planWarnings plan @ revalidationWarnings host inp (planStops plan) final) @
            (if list_ex (partialAnswer host) calls then [PartialChargerData] else []) @
            (if list_ex (straightLine host) calls then [StraightLineDistances] else [])\<rparr>)"

definition tripVehicle :: "TripHost \<Rightarrow> EvPlanArgs \<Rightarrow> EvVehicleSpec option" where
  "tripVehicle host args =
     (case argVehicle args of
        Some v \<Rightarrow> Some v
      | None \<Rightarrow> (case given (argVehicleId args) of None \<Rightarrow> None | Some i \<Rightarrow> tripPreset host i))"

definition runEvPlan :: "TripHost \<Rightarrow> EvPlanArgs \<Rightarrow> (TripError + TripResponse) option" where
  "runEvPlan host args =
     (case tripVehicle host args of
        None \<Rightarrow> Some (Inl UnknownVehicle)
      | Some vehicle \<Rightarrow>
          (case tripRoutes host 0 (argWaypoints args) of
             None \<Rightarrow> Some (Inl RouteFailed)
           | Some answer \<Rightarrow>
               (case activeRoute answer of
                  None \<Rightarrow> Some (Inl NoBaseRoute)
                | Some base \<Rightarrow>
                    let inp = planInput host args vehicle base
                    in (case planCharges (planHost host) inp of
                          None \<Rightarrow> None
                        | Some PlanThrows \<Rightarrow> Some (Inl PlanFailed)
                        | Some (Planned plan) \<Rightarrow>
                            (case finalRoute host args base (planStops plan) of
                               Inl e \<Rightarrow> Some (Inl e)
                             | Inr final \<Rightarrow> Some (Inr (tripResponse host args inp plan final)))))))"

section \<open>Properties\<close>

lemma runEvPlan_ok:
  assumes "runEvPlan host args = Some (Inr r)"
  obtains vehicle answer base plan final where "tripVehicle host args = Some vehicle"
    "tripRoutes host 0 (argWaypoints args) = Some answer" "activeRoute answer = Some base"
    "planCharges (planHost host) (planInput host args vehicle base) = Some (Planned plan)"
    "finalRoute host args base (planStops plan) = Inr final"
    "r = tripResponse host args (planInput host args vehicle base) plan final"
  using assms that by (auto simp: runEvPlan_def Let_def split: option.splits PlanOutcome.splits sum.splits)

text \<open>What a trip without warnings rests on.\<close>

definition soundTrip :: "TripHost \<Rightarrow> PlanInput \<Rightarrow> TripResponse \<Rightarrow> bool" where
  "soundTrip host inp r \<longleftrightarrow>
     (\<exists>plan i soc. planCharges (planHost host) inp = Some (Planned plan) \<and> tripStops r = map (tripStopOf host inp) (planStops plan) \<and>
        journey (planHost host) inp (planAxis (planHost host) inp) (planStops plan) i soc \<and>
        socArrivalMinKwh inp - REACH_EPS_KWH \<le> soc - (totalEnergyKwh plan - axisKwh (planAxis (planHost host) inp) ! i) \<and>
        (planStops plan = [] \<or>
         socArrivalMinKwh inp + batteryKwh (planVehicle inp) / 20 \<le> finalArrivalKwh host inp (planStops plan) (tripRoute r)) \<and>
        list_all (\<lambda>c. \<not> partialAnswer host c \<and> \<not> straightLine host c) (planCalls (planHost host) inp))"

text \<open>
  C24. A trip without warnings is sound: the plan's legs reach the destination in the sense of C22, so with the reserve
  but for the planner's tolerance and without the ways back from the chargers; when it charges at all, the whole
  trip over the final route arrives at least a twentieth of the battery above the reserve; every charger search answered
  in full and every road distance came from the routing provider.
\<close>

theorem quiet_trip_sound:
  "case runEvPlan host args of
     Some (Inr r) \<Rightarrow> (tripWarnings r = []) \<le>
       (\<exists>vehicle answer base. tripVehicle host args = Some vehicle \<and> tripRoutes host 0 (argWaypoints args) = Some answer \<and>
          activeRoute answer = Some base \<and> soundTrip host (planInput host args vehicle base) r)
   | _ \<Rightarrow> True"
proof -
  have "\<exists>vehicle answer base. tripVehicle host args = Some vehicle \<and> tripRoutes host 0 (argWaypoints args) = Some answer \<and>
      activeRoute answer = Some base \<and> soundTrip host (planInput host args vehicle base) r"
    if run: "runEvPlan host args = Some (Inr r)" and quiet: "tripWarnings r = []" for r
  proof -
    from run obtain vehicle answer base plan final where
      made: "tripVehicle host args = Some vehicle" "tripRoutes host 0 (argWaypoints args) = Some answer" "activeRoute answer = Some base"
      and plan: "planCharges (planHost host) (planInput host args vehicle base) = Some (Planned plan)"
      and r: "r = tripResponse host args (planInput host args vehicle base) plan final"
      by (rule runEvPlan_ok)
    define inp where "inp = planInput host args vehicle base"
    note plan = plan [folded inp_def] and r = r [folded inp_def]
    from quiet have none: "planWarnings plan = []" "revalidationWarnings host inp (planStops plan) final = []"
      "list_all (\<lambda>c. \<not> partialAnswer host c \<and> \<not> straightLine host c) (planCalls (planHost host) inp)"
      by (auto simp: r tripResponse_def Let_def list_ex_iff list_all_iff split: if_splits)
    have legs: "\<exists>i soc. journey (planHost host) inp (planAxis (planHost host) inp) (planStops plan) i soc \<and>
        socArrivalMinKwh inp - REACH_EPS_KWH \<le> soc - (totalEnergyKwh plan - axisKwh (planAxis (planHost host) inp) ! i)"
      using plan_drivable [OF plan] none(1) by blast
    have "planStops plan = [] \<or>
        socArrivalMinKwh inp + batteryKwh (planVehicle inp) / 20 \<le> finalArrivalKwh host inp (planStops plan) final"
      using none(2) by (auto simp: revalidationWarnings_def TIGHT_MARGIN_BAND_FRACTION_def not_less split: if_splits)
    with plan legs none(3) have "soundTrip host inp r"
      unfolding soundTrip_def by (auto simp: r tripResponse_def Let_def)
    with made show ?thesis unfolding inp_def by blast
  qed
  then show ?thesis by (auto split: option.split sum.split)
qed

section \<open>The cost of the trip\<close>

lemma those_eq: "those xs = Some ys \<Longrightarrow> xs = map Some ys"
  by (induction xs arbitrary: ys) (auto split: option.splits)

lemma those_map_Some: "those (map Some xs) = Some xs"
  by (induction xs) simp_all

definition currencySum :: "string \<Rightarrow> SessionCost list \<Rightarrow> rat" where
  "currencySum ccy costs = sum_list (map costAmount (filter (\<lambda>c. costCurrency c = ccy) costs))"

lemma addForeign_facts:
  assumes "distinct (map fst foreign)"
  shows "distinct (map fst (addForeign ccy amount foreign))"
    "set (map fst (addForeign ccy amount foreign)) = insert ccy (set (map fst foreign))"
    "map_of (addForeign ccy amount foreign) c =
      (if c = ccy then Some (amount + orElse (map_of foreign c) 0) else map_of foreign c)"
proof -
  have keys: "map fst (map (\<lambda>(c, a). if c = ccy then (c, a + amount) else (c, a)) foreign) = map fst foreign"
    by (auto split: if_splits)
  have "map fst (addForeign ccy amount foreign) =
      (if ccy \<in> set (map fst foreign) then map fst foreign else map fst foreign @ [ccy])"
    by (cases "ccy \<in> set (map fst foreign)") (simp_all only: addForeign_def if_True if_False keys map_append list.map fst_conv)
  with assms show "distinct (map fst (addForeign ccy amount foreign))"
    "set (map fst (addForeign ccy amount foreign)) = insert ccy (set (map fst foreign))" by auto
  have bumped: "map_of (map (\<lambda>(c, a). if c = ccy then (c, a + amount) else (c, a)) foreign) c =
      (if c = ccy then map_option (\<lambda>a. a + amount) (map_of foreign c) else map_of foreign c)"
    by (induction foreign) auto
  show "map_of (addForeign ccy amount foreign) c =
      (if c = ccy then Some (amount + orElse (map_of foreign c) 0) else map_of foreign c)"
  proof (cases "ccy \<in> set (map fst foreign)")
    case True
    then obtain a where "map_of foreign ccy = Some a" by (metis map_of_eq_None_iff not_None_eq image_set list.set_map)
    with True bumped show ?thesis by (simp add: addForeign_def orElse_def)
  next
    case False
    then have "map_of foreign ccy = None" by (simp add: map_of_eq_None_iff)
    with False show ?thesis by (auto simp: addForeign_def orElse_def map_add_def split: option.split)
  qed
qed

lemma publicCosts_facts:
  assumes "publicCosts home costs (own, foreign) = (own', foreign')" and "distinct (map fst foreign)"
  shows "own' = own + currencySum home costs \<and> distinct (map fst foreign') \<and>
    set (map fst foreign') = set (map fst foreign) \<union> (set (map costCurrency costs) - {home}) \<and>
    (\<forall>ccy. ccy \<noteq> home \<longrightarrow> orElse (map_of foreign' ccy) 0 = orElse (map_of foreign ccy) 0 + currencySum ccy costs)"
  using assms
proof (induction home costs "(own, foreign)" arbitrary: own foreign rule: publicCosts.induct)
  case (1 home own foreign)
  then show ?case by (simp add: currencySum_def)
next
  case (2 home c cs own foreign)
  show ?case
  proof (cases "costCurrency c = home")
    case True
    with 2(1) [of "own + costAmount c" foreign] 2(2,3) show ?thesis by (auto simp: currencySum_def)
  next
    case False
    note facts = addForeign_facts [OF 2(3), of "costCurrency c" "costAmount c"]
    from 2(1) [of own "addForeign (costCurrency c) (costAmount c) foreign"] 2(2) False facts(1)
    have "own' = own + currencySum home cs \<and> distinct (map fst foreign') \<and>
      set (map fst foreign') = set (map fst (addForeign (costCurrency c) (costAmount c) foreign)) \<union> (set (map costCurrency cs) - {home}) \<and>
      (\<forall>ccy. ccy \<noteq> home \<longrightarrow> orElse (map_of foreign' ccy) 0 =
        orElse (map_of (addForeign (costCurrency c) (costAmount c) foreign) ccy) 0 + currencySum ccy cs)" by simp
    with False show ?thesis unfolding facts(2,3) by (auto simp: currencySum_def orElse_def)
  qed
qed

lemma roundTo_near:
  assumes "0 < scale"
  shows "\<bar>roundTo scale x - x\<bar> \<le> 1 / (2 * scale)"
proof -
  have "\<bar>of_int \<lfloor>y + 1 / 2\<rfloor> - y\<bar> \<le> 1 / 2" for y :: rat by linarith
  from this [of "x * scale"] have "\<bar>of_int (roundJs (x * scale)) - x * scale\<bar> / scale \<le> (1 / 2) / scale"
    unfolding roundJs_def by (rule divide_right_mono) (use assms in simp)
  moreover have "\<bar>of_int (roundJs (x * scale)) - x * scale\<bar> / scale = \<bar>roundTo scale x - x\<bar>"
    using assms by (simp add: roundTo_def abs_div_pos diff_divide_distrib)
  ultimately show ?thesis by simp
qed

text \<open>
  The trip's cost counts everything once: the amount is, to half a cent, the energy not charged on the way at the home
  price and the sessions in the home currency; the sessions in other currencies are listed, each currency once
  with their sum. There is no cost exactly without a home price or currency or when some stop has no price.
\<close>

theorem trip_cost_complete:
  "case estimateTripCost host stops totalKwh homePrice homeCurrency of
     None \<Rightarrow> homePrice = None \<or> given homeCurrency = None \<or> list_ex (\<lambda>s. estimatedCost s = None) stops
   | Some cost \<Rightarrow>
       (\<exists>price costs. homePrice = Some price \<and> given homeCurrency = Some (tripCostCurrency cost) \<and> map estimatedCost stops = map Some costs \<and>
          \<bar>tripCostAmount cost - (max 0 (totalKwh - sum_list (map stopAddedKwh stops)) * price + currencySum (tripCostCurrency cost) costs)\<bar>
            \<le> 1 / 200 \<and>
          distinct (map fst (otherCurrencies cost)) \<and>
          set (map fst (otherCurrencies cost)) = set (map costCurrency costs) - {tripCostCurrency cost} \<and>
          list_all (\<lambda>(ccy, amount). \<bar>amount - currencySum ccy costs\<bar> \<le> 1 / 200) (otherCurrencies cost))"
proof -
  have rounded: "\<bar>roundTo 100 x - x\<bar> \<le> 1 / 200" for x using roundTo_near [of 100 x] by simp
  have priced: "\<exists>price home costs. homePrice = Some price \<and> given homeCurrency = Some home \<and> map estimatedCost stops = map Some costs"
    if some: "\<not> (homePrice = None \<or> given homeCurrency = None \<or> list_ex (\<lambda>s. estimatedCost s = None) stops)"
  proof -
    have "map estimatedCost stops = map Some (map (the \<circ> estimatedCost) stops)"
      using some by (auto simp: list_ex_iff)
    moreover obtain price where "homePrice = Some price" using some by (cases homePrice) simp_all
    moreover obtain home where "given homeCurrency = Some home" using some by (cases "given homeCurrency") simp_all
    ultimately show ?thesis by blast
  qed
  show ?thesis
  proof (cases "homePrice = None \<or> given homeCurrency = None \<or> list_ex (\<lambda>s. estimatedCost s = None) stops")
    case True
    have "estimateTripCost host stops totalKwh homePrice homeCurrency = None"
    proof (cases "those (map estimatedCost stops)")
      case (Some costs)
      then have "map estimatedCost stops = map Some costs" by (rule those_eq)
      then have "estimatedCost s \<noteq> None" if "s \<in> set stops" for s
        using that by (metis (no_types, lifting) image_eqI image_iff list.set_map option.distinct(1))
      with True show ?thesis by (auto simp: estimateTripCost_def list_ex_iff split: option.split)
    qed (simp add: estimateTripCost_def split: option.split)
    with True show ?thesis by simp
  next
    case False
    with priced obtain price home costs where given: "homePrice = Some price" "given homeCurrency = Some home"
      "map estimatedCost stops = map Some costs" by blast
    then have costs: "those (map estimatedCost stops) = Some costs" by (simp add: those_map_Some)
    obtain own foreign where run: "publicCosts home costs (0, []) = (own, foreign)" by fastforce
    note facts = publicCosts_facts [OF run]
    let ?others = "sort_key (\<lambda>(c, _). tripCollate host c) (map (\<lambda>(c, a). (c, roundTo 100 a)) foreign)"
    have keys: "mset (map fst ?others) = mset (map fst foreign)" by (simp add: multiset.map_comp comp_def case_prod_beta)
    have "own = currencySum home costs" and distinct: "distinct (map fst foreign)"
      and names: "set (map fst foreign) = set (map costCurrency costs) - {home}" using facts by simp_all
    have sums: "amount = currencySum ccy costs" if "(ccy, amount) \<in> set foreign" for ccy amount
    proof -
      have "map_of foreign ccy = Some amount" using distinct that by (rule map_of_is_SomeI)
      moreover have "ccy \<noteq> home" using names that by force
      ultimately show ?thesis using facts by (auto simp: orElse_def split: option.splits)
    qed
    have "list_all (\<lambda>(ccy, amount). \<bar>amount - currencySum ccy costs\<bar> \<le> 1 / 200) ?others"
      using rounded sums by (fastforce simp: list_all_iff)
    moreover have "distinct (map fst ?others)" using distinct keys by (metis mset_eq_imp_distinct_iff)
    moreover have "set (map fst ?others) = set (map costCurrency costs) - {home}" using names keys by (metis mset_eq_setD)
    ultimately show ?thesis
      using given costs run rounded [of "max 0 (totalKwh - sum_list (map stopAddedKwh stops)) * price + own"] \<open>own = currencySum home costs\<close>
      by (simp add: estimateTripCost_def Let_def)
  qed
qed

end
