(* ===== verification/Stream_Budget.thy ===== *)
theory Stream_Budget
  imports Reducer Complex_Main
begin

text \<open>
  Admission of streams (\<open>core/src/rolling-stream-budget.ts\<close>, class \<open>RollingStreamBudget\<close>): byte tokens per key that
  refill with the clock, and limits on the streams of a key and of all keys. A lease keeps a reference to the
  budget object of its key, so the objects are a heap: their identity is the position in \<open>bgObjects\<close>. Clock and
  tokens are rationals.
\<close>

section \<open>State\<close>

record BudgetOptions =
  maxBytesPerKey :: int
  windowMs :: int
  maxConcurrentPerKey :: int
  maxConcurrentGlobal :: int

record KeyBudget =
  kbActive :: nat
  kbLastRefill :: rat
  kbTokens :: rat

record StreamLease =
  leaseKey :: string
  leaseBudget :: nat
  leaseReleased :: bool

record StreamBudget =
  bgKeys :: "(string \<times> nat) list"
  bgObjects :: "KeyBudget list"
  bgActive :: nat
  bgAcquisitions :: nat
  bgLeases :: "StreamLease list"

datatype RejectionReason = KeyConcurrency | GlobalConcurrency | BytesExceeded

datatype Admission = Admitted nat | Rejected RejectionReason int

datatype Consumption = Consumed | ConsumeRejected int | ConsumeThrows

definition safePositive :: "int \<Rightarrow> bool" where
  "safePositive n \<longleftrightarrow> 0 < n \<and> n \<le> 2 ^ 53 - 1"

definition validOptions :: "BudgetOptions \<Rightarrow> bool" where
  "validOptions opts \<longleftrightarrow>
     safePositive (maxBytesPerKey opts) \<and> safePositive (windowMs opts) \<and>
     safePositive (maxConcurrentPerKey opts) \<and> safePositive (maxConcurrentGlobal opts)"

definition newStreamBudget :: "BudgetOptions \<Rightarrow> StreamBudget option" where
  "newStreamBudget opts =
     (if validOptions opts
      then Some \<lparr>bgKeys = [], bgObjects = [], bgActive = 0, bgAcquisitions = 0, bgLeases = []\<rparr> else None)"

definition retryAfterSeconds :: "BudgetOptions \<Rightarrow> int" where
  "retryAfterSeconds opts = max 1 \<lceil>of_int (windowMs opts) / 1000 :: rat\<rceil>"

section \<open>Operations\<close>

definition cleanup :: "BudgetOptions \<Rightarrow> rat \<Rightarrow> StreamBudget \<Rightarrow> StreamBudget" where
  "cleanup opts now st =
     st\<lparr>bgKeys := filter (\<lambda>(_, i).
          \<not> (kbActive (bgObjects st ! i) = 0 \<and> now - kbLastRefill (bgObjects st ! i) > of_int (windowMs opts) * 2))
        (bgKeys st)\<rparr>"

definition countAcquisition :: "BudgetOptions \<Rightarrow> rat \<Rightarrow> StreamBudget \<Rightarrow> StreamBudget" where
  "countAcquisition opts now st =
     (let counted = st\<lparr>bgAcquisitions := bgAcquisitions st + 1\<rparr>
      in if bgAcquisitions counted mod 256 = 0 then cleanup opts now counted else counted)"

definition keyBudget :: "BudgetOptions \<Rightarrow> string \<Rightarrow> rat \<Rightarrow> StreamBudget \<Rightarrow> nat \<times> StreamBudget" where
  "keyBudget opts key now st =
     (case map_of (bgKeys st) key of
        Some i \<Rightarrow> (i, st)
      | None \<Rightarrow>
          (length (bgObjects st),
           st\<lparr>bgKeys := bgKeys st @ [(key, length (bgObjects st))],
              bgObjects := bgObjects st @ [\<lparr>kbActive = 0, kbLastRefill = now, kbTokens = of_int (maxBytesPerKey opts)\<rparr>]\<rparr>))"

definition updateBudget :: "nat \<Rightarrow> (KeyBudget \<Rightarrow> KeyBudget) \<Rightarrow> StreamBudget \<Rightarrow> StreamBudget" where
  "updateBudget i f st = st\<lparr>bgObjects := (bgObjects st)[i := f (bgObjects st ! i)]\<rparr>"

definition tryAcquire :: "BudgetOptions \<Rightarrow> string \<Rightarrow> rat \<Rightarrow> StreamBudget \<Rightarrow> Admission \<times> StreamBudget" where
  "tryAcquire opts key now st =
     (let cleaned = countAcquisition opts now st
      in if int (bgActive cleaned) \<ge> maxConcurrentGlobal opts
         then (Rejected GlobalConcurrency (retryAfterSeconds opts), cleaned)
         else case keyBudget opts key now cleaned of
           (i, found) \<Rightarrow>
             if int (kbActive (bgObjects found ! i)) \<ge> maxConcurrentPerKey opts
             then (Rejected KeyConcurrency (retryAfterSeconds opts), found)
             else (Admitted (length (bgLeases found)),
                   (updateBudget i (\<lambda>b. b\<lparr>kbActive := kbActive b + 1\<rparr>) found)
                     \<lparr>bgActive := bgActive found + 1,
                      bgLeases := bgLeases found @ [\<lparr>leaseKey = key, leaseBudget = i, leaseReleased = False\<rparr>]\<rparr>))"

definition safeBytes :: "int \<Rightarrow> bool" where
  "safeBytes bytes \<longleftrightarrow> 0 \<le> bytes \<and> bytes \<le> 2 ^ 53 - 1"

definition refilled :: "BudgetOptions \<Rightarrow> rat \<Rightarrow> KeyBudget \<Rightarrow> rat" where
  "refilled opts now b =
     min (of_int (maxBytesPerKey opts))
       (kbTokens b + max 0 (now - kbLastRefill b) / of_int (windowMs opts) * of_int (maxBytesPerKey opts))"

definition consumeFrom :: "BudgetOptions \<Rightarrow> int \<Rightarrow> rat \<Rightarrow> KeyBudget \<Rightarrow> Consumption \<times> KeyBudget" where
  "consumeFrom opts bytes now b =
     (if \<not> safeBytes bytes then (ConsumeThrows, b)
      else if bytes > maxBytesPerKey opts then (ConsumeRejected (retryAfterSeconds opts), b)
      else
        let tokens = refilled opts now b;
            filled = b\<lparr>kbLastRefill := now, kbTokens := tokens\<rparr>
        in if tokens \<ge> of_int bytes then (Consumed, filled\<lparr>kbTokens := tokens - of_int bytes\<rparr>)
           else
             let missing = of_int bytes - tokens
             in (ConsumeRejected (max 1 (min (retryAfterSeconds opts)
                   \<lceil>missing / of_int (maxBytesPerKey opts) * of_int (retryAfterSeconds opts)\<rceil>)), filled))"

text \<open>The operations of a lease; the lease is one that was handed out.\<close>

definition leaseConsume :: "BudgetOptions \<Rightarrow> nat \<Rightarrow> int \<Rightarrow> rat \<Rightarrow> StreamBudget \<Rightarrow> Consumption \<times> StreamBudget" where
  "leaseConsume opts l bytes now st =
     (let lease = bgLeases st ! l
      in if leaseReleased lease then (ConsumeThrows, st)
         else case consumeFrom opts bytes now (bgObjects st ! leaseBudget lease) of
           (result, b) \<Rightarrow> (result, updateBudget (leaseBudget lease) (\<lambda>_. b) st))"

definition leaseRefund :: "BudgetOptions \<Rightarrow> nat \<Rightarrow> int \<Rightarrow> StreamBudget \<Rightarrow> bool \<times> StreamBudget" where
  "leaseRefund opts l bytes st =
     (let lease = bgLeases st ! l
      in if leaseReleased lease \<or> \<not> safeBytes bytes then (False, st)
         else (True, updateBudget (leaseBudget lease)
                 (\<lambda>b. b\<lparr>kbTokens := min (of_int (maxBytesPerKey opts)) (kbTokens b + of_int bytes)\<rparr>) st))"

definition leaseRelease :: "nat \<Rightarrow> StreamBudget \<Rightarrow> StreamBudget" where
  "leaseRelease l st =
     (let lease = bgLeases st ! l
      in if leaseReleased lease then st
         else (updateBudget (leaseBudget lease) (\<lambda>b. b\<lparr>kbActive := kbActive b - 1\<rparr>) st)
                \<lparr>bgActive := bgActive st - 1, bgLeases := (bgLeases st)[l := lease\<lparr>leaseReleased := True\<rparr>]\<rparr>)"

section \<open>Runs\<close>

datatype StreamEvent = Acquire string | Consume nat int | Refund nat int | Release nat

definition streamStep :: "BudgetOptions \<Rightarrow> StreamBudget \<Rightarrow> rat \<times> StreamEvent \<Rightarrow> StreamBudget" where
  "streamStep opts st e =
     (case e of (now, ev) \<Rightarrow>
        case ev of
          Acquire key \<Rightarrow> snd (tryAcquire opts key now st)
        | Consume l bytes \<Rightarrow> snd (leaseConsume opts l bytes now st)
        | Refund l bytes \<Rightarrow> snd (leaseRefund opts l bytes st)
        | Release l \<Rightarrow> leaseRelease l st)"

text \<open>Only leases that were handed out are used.\<close>

definition handedOut :: "StreamBudget \<Rightarrow> rat \<times> StreamEvent \<Rightarrow> bool" where
  "handedOut st e \<longleftrightarrow>
     (case snd e of
        Acquire _ \<Rightarrow> True
      | Consume l _ \<Rightarrow> l < length (bgLeases st)
      | Refund l _ \<Rightarrow> l < length (bgLeases st)
      | Release l \<Rightarrow> l < length (bgLeases st))"

section \<open>The invariant\<close>

definition liveOn :: "StreamBudget \<Rightarrow> nat \<Rightarrow> nat" where
  "liveOn st i = length (filter (\<lambda>l. \<not> leaseReleased l \<and> leaseBudget l = i) (bgLeases st))"

definition liveLeases :: "StreamBudget \<Rightarrow> nat" where
  "liveLeases st = length (filter (\<lambda>l. \<not> leaseReleased l) (bgLeases st))"

definition budgetOk :: "BudgetOptions \<Rightarrow> KeyBudget \<Rightarrow> nat \<Rightarrow> bool" where
  "budgetOk opts b live \<longleftrightarrow>
     kbActive b = live \<and> int (kbActive b) \<le> maxConcurrentPerKey opts \<and>
     0 \<le> kbTokens b \<and> kbTokens b \<le> of_int (maxBytesPerKey opts)"

definition streamOk :: "BudgetOptions \<Rightarrow> StreamBudget \<Rightarrow> bool" where
  "streamOk opts st \<longleftrightarrow>
     distinct (map fst (bgKeys st)) \<and> distinct (map snd (bgKeys st)) \<and> (\<forall>i \<in> snd ` set (bgKeys st). i < length (bgObjects st)) \<and>
     (\<forall>l \<in> set (bgLeases st). leaseBudget l < length (bgObjects st)) \<and>
     (\<forall>l \<in> set (bgLeases st). \<not> leaseReleased l \<longrightarrow> map_of (bgKeys st) (leaseKey l) = Some (leaseBudget l)) \<and>
     (\<forall>i < length (bgObjects st). budgetOk opts (bgObjects st ! i) (liveOn st i)) \<and>
     bgActive st = liveLeases st \<and> int (bgActive st) \<le> maxConcurrentGlobal opts"

lemma map_of_filter_key:
  "distinct (map fst xs) \<Longrightarrow> map_of (filter (\<lambda>(_, i). P i) xs) k = (case map_of xs k of None \<Rightarrow> None | Some i \<Rightarrow> if P i then Some i else None)"
  by (induction xs) (auto simp: map_of_eq_None_iff image_iff split: option.splits)

lemma liveOn_pos: "l \<in> set (bgLeases st) \<Longrightarrow> \<not> leaseReleased l \<Longrightarrow> 0 < liveOn st (leaseBudget l)"
  by (auto simp: liveOn_def filter_empty_conv)

lemma cleanup_simps [simp]:
  "bgObjects (cleanup opts now st) = bgObjects st" "bgActive (cleanup opts now st) = bgActive st"
  "bgLeases (cleanup opts now st) = bgLeases st" "liveOn (cleanup opts now st) = liveOn st"
  "liveLeases (cleanup opts now st) = liveLeases st"
  by (simp_all add: cleanup_def liveOn_def liveLeases_def fun_eq_iff)

lemma cleanup_ok:
  assumes "streamOk opts st"
  shows "streamOk opts (cleanup opts now st)"
proof -
  have keys: "distinct (map fst (bgKeys st))" using assms by (simp add: streamOk_def)
  have "map_of (bgKeys (cleanup opts now st)) (leaseKey l) = Some (leaseBudget l)"
    if "l \<in> set (bgLeases st)" "\<not> leaseReleased l" for l
  proof -
    have "map_of (bgKeys st) (leaseKey l) = Some (leaseBudget l)" "kbActive (bgObjects st ! leaseBudget l) = liveOn st (leaseBudget l)"
      using assms that by (auto simp: streamOk_def budgetOk_def)
    with liveOn_pos [OF that] show ?thesis by (simp add: cleanup_def map_of_filter_key [OF keys])
  qed
  moreover have "distinct (map fst (bgKeys (cleanup opts now st)))" "distinct (map snd (bgKeys (cleanup opts now st)))"
    using assms by (auto simp: cleanup_def streamOk_def distinct_map intro: inj_on_subset)
  moreover have "\<forall>i \<in> snd ` set (bgKeys (cleanup opts now st)). i < length (bgObjects st)"
    using assms by (auto simp: cleanup_def streamOk_def)
  ultimately show ?thesis using assms by (auto simp: streamOk_def)
qed

lemma keyBudget_ok:
  assumes "streamOk opts st" and "validOptions opts" and "keyBudget opts key now st = (i, st')"
  shows "streamOk opts st'" "map_of (bgKeys st') key = Some i" "i < length (bgObjects st')"
    "bgLeases st' = bgLeases st" "bgActive st' = bgActive st"
proof -
  show "bgLeases st' = bgLeases st" "bgActive st' = bgActive st"
    using assms(3) by (auto simp: keyBudget_def split: option.splits)
  have "streamOk opts st' \<and> map_of (bgKeys st') key = Some i \<and> i < length (bgObjects st')"
  proof (cases "map_of (bgKeys st) key")
    case (Some j)
    then have "j \<in> snd ` set (bgKeys st)" by (force dest: map_of_SomeD)
    with Some assms(1,3) show ?thesis by (auto simp: keyBudget_def streamOk_def)
  next
    case None
    then have fresh: "key \<notin> fst ` set (bgKeys st)" by (simp add: map_of_eq_None_iff)
    from None assms(3) have i: "i = length (bgObjects st)" and st': "st' = st\<lparr>bgKeys := bgKeys st @ [(key, i)],
        bgObjects := bgObjects st @ [\<lparr>kbActive = 0, kbLastRefill = now, kbTokens = of_int (maxBytesPerKey opts)\<rparr>]\<rparr>"
      by (auto simp: keyBudget_def)
    have live: "liveOn st' = liveOn st" "liveLeases st' = liveLeases st" by (simp_all add: st' liveOn_def liveLeases_def fun_eq_iff)
    have zero: "liveOn st i = 0" using assms(1) by (auto simp: streamOk_def liveOn_def i filter_empty_conv)
    have "budgetOk opts (bgObjects st' ! j) (liveOn st' j)" if "j < length (bgObjects st')" for j
      using that assms(1,2) zero by (auto simp: st' i live nth_append streamOk_def budgetOk_def validOptions_def safePositive_def less_Suc_eq
          liveOn_def)
    moreover have "\<forall>l \<in> set (bgLeases st). \<not> leaseReleased l \<longrightarrow> map_of (bgKeys st') (leaseKey l) = Some (leaseBudget l)"
      using assms(1) by (auto simp: streamOk_def st')
    moreover have "i \<notin> snd ` set (bgKeys st)" using assms(1) by (auto simp: streamOk_def i)
    ultimately show ?thesis
      using assms(1) fresh live None by (auto simp: streamOk_def st' i less_Suc_eq map_add_def)
  qed
  then show "streamOk opts st'" "map_of (bgKeys st') key = Some i" "i < length (bgObjects st')" by simp_all
qed

text \<open>Changing the object of a live lease keeps everything else.\<close>

lemma updateBudget_ok:
  assumes "streamOk opts st" and "i < length (bgObjects st)" and "budgetOk opts (f (bgObjects st ! i)) (liveOn st i)"
  shows "streamOk opts (updateBudget i f st)"
proof -
  have "liveOn (updateBudget i f st) = liveOn st" "liveLeases (updateBudget i f st) = liveLeases st"
    by (simp_all add: updateBudget_def liveOn_def liveLeases_def fun_eq_iff)
  with assms show ?thesis by (auto simp: streamOk_def updateBudget_def nth_list_update)
qed

lemma tryAcquire_ok:
  assumes "streamOk opts st" and "validOptions opts"
  shows "streamOk opts (snd (tryAcquire opts key now st))"
proof -
  define cleaned where "cleaned = countAcquisition opts now st"
  have "streamOk opts (st\<lparr>bgAcquisitions := bgAcquisitions st + 1\<rparr>)"
    using assms(1) by (simp add: streamOk_def liveOn_def liveLeases_def)
  then have cleaned: "streamOk opts cleaned" by (simp add: cleaned_def countAcquisition_def cleanup_ok Let_def)
  obtain i found where found: "keyBudget opts key now cleaned = (i, found)" by fastforce
  note facts = keyBudget_ok [OF cleaned assms(2) found]
  show ?thesis
  proof (cases "int (bgActive cleaned) \<ge> maxConcurrentGlobal opts \<or> int (kbActive (bgObjects found ! i)) \<ge> maxConcurrentPerKey opts")
    case True
    then show ?thesis using cleaned facts(1) found
      by (auto simp: tryAcquire_def Let_def cleaned_def [symmetric])
  next
    case False
    let ?new = "(updateBudget i (\<lambda>b. b\<lparr>kbActive := kbActive b + 1\<rparr>) found)
      \<lparr>bgActive := bgActive found + 1,
       bgLeases := bgLeases found @ [\<lparr>leaseKey = key, leaseBudget = i, leaseReleased = False\<rparr>]\<rparr>"
    have "snd (tryAcquire opts key now st) = ?new"
      using False found by (simp add: tryAcquire_def Let_def cleaned_def [symmetric])
    moreover have "streamOk opts ?new"
    proof -
      have live: "liveOn ?new j = (if j = i then liveOn found j + 1 else liveOn found j)" for j by (simp add: liveOn_def)
      have all: "liveLeases ?new = liveLeases found + 1" by (simp add: liveLeases_def)
      have "budgetOk opts (bgObjects ?new ! j) (liveOn ?new j)" if "j < length (bgObjects found)" for j
        using facts(1,3) that False unfolding live by (auto simp: updateBudget_def streamOk_def budgetOk_def nth_list_update)
      moreover have "int (bgActive found + 1) \<le> maxConcurrentGlobal opts" using False facts(5) by simp
      ultimately show ?thesis using facts(1-3) all by (auto simp: streamOk_def updateBudget_def)
    qed
    ultimately show ?thesis by simp
  qed
qed

lemma refilled_bounds:
  assumes "0 \<le> kbTokens b" and "validOptions opts"
  shows "0 \<le> refilled opts now b" "refilled opts now b \<le> of_int (maxBytesPerKey opts)"
  using assms by (auto simp: refilled_def validOptions_def safePositive_def)

lemma consumeFrom_ok:
  assumes "budgetOk opts b live" and "validOptions opts" and "consumeFrom opts bytes now b = (result, b')"
  shows "budgetOk opts b' live"
proof -
  have "0 \<le> kbTokens b" using assms(1) by (simp add: budgetOk_def)
  from refilled_bounds [OF this assms(2), of now] assms show ?thesis
    by (auto simp: consumeFrom_def budgetOk_def safeBytes_def Let_def split: if_splits)
qed

lemma leaseRelease_ok:
  assumes "streamOk opts st" and "l < length (bgLeases st)"
  shows "streamOk opts (leaseRelease l st)"
proof (cases "leaseReleased (bgLeases st ! l)")
  case True
  with assms(1) show ?thesis by (simp add: leaseRelease_def)
next
  case False
  let ?lease = "bgLeases st ! l"
  let ?i = "leaseBudget ?lease"
  let ?new = "leaseRelease l st"
  have mem: "?lease \<in> set (bgLeases st)" using assms(2) by simp
  have split: "bgLeases st = take l (bgLeases st) @ ?lease # drop (Suc l) (bgLeases st)" by (rule id_take_nth_drop [OF assms(2)])
  have leases: "bgLeases ?new = take l (bgLeases st) @ ?lease\<lparr>leaseReleased := True\<rparr> # drop (Suc l) (bgLeases st)"
    using False assms(2) by (simp add: leaseRelease_def Let_def updateBudget_def upd_conv_take_nth_drop)
  have live: "liveOn st j = (if j = ?i then liveOn ?new j + 1 else liveOn ?new j)" for j
    unfolding liveOn_def leases by (subst split) (use False in simp)
  have all: "liveLeases st = liveLeases ?new + 1"
    unfolding liveLeases_def leases by (subst split) (use False in simp)
  have inside: "?i < length (bgObjects st)" using assms(1) mem by (simp add: streamOk_def)
  have "budgetOk opts (bgObjects ?new ! j) (liveOn ?new j)" if "j < length (bgObjects st)" for j
    using assms(1) that live [of j] False
    by (auto simp: leaseRelease_def Let_def updateBudget_def streamOk_def budgetOk_def nth_list_update split: if_splits)
  moreover have "set (bgLeases ?new) \<subseteq> insert (?lease\<lparr>leaseReleased := True\<rparr>) (set (bgLeases st))"
    unfolding leases by (auto dest: in_set_takeD in_set_dropD)
  moreover have "bgKeys ?new = bgKeys st" "length (bgObjects ?new) = length (bgObjects st)" "bgActive ?new = bgActive st - 1"
    using False by (simp_all add: leaseRelease_def Let_def updateBudget_def)
  ultimately show ?thesis using assms(1) all inside by (auto simp: streamOk_def)
qed

lemma stream_keep:
  assumes "streamOk opts st" and "validOptions opts" and "handedOut st e"
  shows "streamOk opts (streamStep opts st e)"
proof -
  obtain now ev where e: "e = (now, ev)" by (cases e)
  have inside: "leaseBudget (bgLeases st ! l) < length (bgObjects st)" if "l < length (bgLeases st)" for l
    using assms(1) that by (simp add: streamOk_def)
  have obj: "budgetOk opts (bgObjects st ! leaseBudget (bgLeases st ! l)) (liveOn st (leaseBudget (bgLeases st ! l)))"
    if "l < length (bgLeases st)" for l using assms(1) inside [OF that] by (simp add: streamOk_def)
  show ?thesis
  proof (cases ev)
    case (Acquire key)
    with tryAcquire_ok [OF assms(1,2)] show ?thesis by (simp add: e streamStep_def)
  next
    case (Consume l bytes)
    then have l: "l < length (bgLeases st)" using assms(3) by (simp add: e handedOut_def)
    obtain result b where from_b: "consumeFrom opts bytes now (bgObjects st ! leaseBudget (bgLeases st ! l)) = (result, b)" by fastforce
    with updateBudget_ok [OF assms(1) inside [OF l], of "\<lambda>_. b"] consumeFrom_ok [OF obj [OF l] assms(2) from_b] Consume assms(1)
    show ?thesis by (simp add: e streamStep_def leaseConsume_def Let_def)
  next
    case (Refund l bytes)
    then have l: "l < length (bgLeases st)" using assms(3) by (simp add: e handedOut_def)
    have "streamOk opts (updateBudget (leaseBudget (bgLeases st ! l))
        (\<lambda>b. b\<lparr>kbTokens := min (of_int (maxBytesPerKey opts)) (kbTokens b + of_int bytes)\<rparr>) st)" if "safeBytes bytes"
      using updateBudget_ok [OF assms(1) inside [OF l]] obj [OF l] that assms(2)
      by (simp add: budgetOk_def safeBytes_def validOptions_def safePositive_def)
    with Refund assms(1) show ?thesis by (simp add: e streamStep_def leaseRefund_def Let_def)
  next
    case (Release l)
    with leaseRelease_ok [OF assms(1), of l] assms(3) show ?thesis by (simp add: e streamStep_def handedOut_def)
  qed
qed

end
