(* ===== verification/Stream_Budget_Properties.thy ===== *)
theory Stream_Budget_Properties
  imports Stream_Budget
begin

text \<open>What the stream budget guarantees: the limits on streams, the bound on bytes over time, and the wait it asks for.\<close>

section \<open>Interpretation\<close>

definition freshBudget :: StreamBudget where
  "freshBudget = \<lparr>bgKeys = [], bgObjects = [], bgActive = 0, bgAcquisitions = 0, bgLeases = []\<rparr>"

lemma new_fresh: "newStreamBudget opts = Some st \<longleftrightarrow> validOptions opts \<and> st = freshBudget"
  by (auto simp: newStreamBudget_def freshBudget_def)

lemma fresh_budget_ok: "validOptions opts \<Longrightarrow> streamOk opts freshBudget"
  by (simp add: streamOk_def freshBudget_def liveLeases_def validOptions_def safePositive_def)

interpretation stream: reducer "streamStep opts" "\<lambda>st e. validOptions opts \<and> handedOut st e" "streamOk opts" for opts
  by unfold_locales (simp add: stream_keep)

lemma stream_reaches_ok:
  assumes "newStreamBudget opts = Some st0" and "reaches (streamStep opts) handedOut st0 st"
  shows "streamOk opts st" "validOptions opts"
proof -
  from assms(1) have valid: "validOptions opts" and st0: "st0 = freshBudget" by (simp_all add: new_fresh)
  then have "reaches (streamStep opts) (\<lambda>st e. validOptions opts \<and> handedOut st e) st0 st"
    using assms(2) by (simp add: valid)
  from stream.reaches_inv [OF this] st0 fresh_budget_ok [OF valid] show "streamOk opts st" by simp
  show "validOptions opts" by (rule valid)
qed

section \<open>Streams at a time\<close>

definition liveOfKey :: "StreamBudget \<Rightarrow> string \<Rightarrow> nat" where
  "liveOfKey st key = length (filter (\<lambda>l. \<not> leaseReleased l \<and> leaseKey l = key) (bgLeases st))"

lemma filter_length_mono: "(\<And>x. x \<in> set xs \<Longrightarrow> P x \<Longrightarrow> Q x) \<Longrightarrow> length (filter P xs) \<le> length (filter Q xs)"
  by (induction xs) auto

text \<open>
  C26. The limits hold in every run: never more live leases than the global limit, nor for a key than the limit per key,
  although the objects of idle keys are dropped and made again; and the counter of live leases is exact.
\<close>

theorem stream_limits:
  assumes "newStreamBudget opts = Some st0" and "reaches (streamStep opts) handedOut st0 st"
  shows "int (liveLeases st) \<le> maxConcurrentGlobal opts \<and> int (liveOfKey st key) \<le> maxConcurrentPerKey opts \<and>
    bgActive st = liveLeases st"
proof -
  note ok = stream_reaches_ok [OF assms]
  have "int (liveOfKey st key) \<le> maxConcurrentPerKey opts"
  proof (cases "\<exists>l \<in> set (bgLeases st). \<not> leaseReleased l \<and> leaseKey l = key")
    case True
    then obtain l where l: "l \<in> set (bgLeases st)" "\<not> leaseReleased l" "leaseKey l = key" by blast
    let ?i = "leaseBudget l"
    from ok(1) l have i: "?i < length (bgObjects st)" "map_of (bgKeys st) key = Some ?i" by (auto simp: streamOk_def)
    have "leaseBudget m = ?i" if "m \<in> set (bgLeases st)" "\<not> leaseReleased m \<and> leaseKey m = key" for m
      using ok(1) that i(2) by (auto simp: streamOk_def)
    then have "liveOfKey st key \<le> liveOn st ?i" unfolding liveOfKey_def liveOn_def by (intro filter_length_mono) blast
    moreover have "int (liveOn st ?i) \<le> maxConcurrentPerKey opts" using ok(1) i(1) by (auto simp: streamOk_def budgetOk_def)
    ultimately show ?thesis by simp
  next
    case False
    then have "liveOfKey st key = 0" by (auto simp: liveOfKey_def filter_empty_conv)
    with ok(2) show ?thesis by (simp add: validOptions_def safePositive_def)
  qed
  with ok(1) show ?thesis by (simp add: streamOk_def)
qed

section \<open>Bytes over time\<close>

definition availableBytes :: "BudgetOptions \<Rightarrow> StreamBudget \<Rightarrow> string \<Rightarrow> rat \<Rightarrow> rat" where
  "availableBytes opts st key now =
     (case map_of (bgKeys st) key of
        None \<Rightarrow> of_int (maxBytesPerKey opts)
      | Some i \<Rightarrow> refilled opts now (bgObjects st ! i))"

lemma available_same:
  "bgKeys st' = bgKeys st \<Longrightarrow> bgObjects st' = bgObjects st \<Longrightarrow> availableBytes opts st' key now = availableBytes opts st key now"
  by (simp add: availableBytes_def cong: option.case_cong)

text \<open>The bytes an event takes from a key: consumed and not refunded.\<close>

definition spentBy :: "BudgetOptions \<Rightarrow> string \<Rightarrow> StreamBudget \<Rightarrow> rat \<times> StreamEvent \<Rightarrow> rat" where
  "spentBy opts key st e =
     (case e of (now, ev) \<Rightarrow>
        case ev of
          Consume l bytes \<Rightarrow>
            if fst (leaseConsume opts l bytes now st) = Consumed \<and> leaseKey (bgLeases st ! l) = key then of_int bytes else 0
        | Refund l bytes \<Rightarrow>
            if fst (leaseRefund opts l bytes st) \<and> leaseKey (bgLeases st ! l) = key then - of_int bytes else 0
        | _ \<Rightarrow> 0)"

fun meter :: "BudgetOptions \<Rightarrow> string \<Rightarrow> StreamBudget \<times> rat \<times> rat \<Rightarrow> rat \<times> StreamEvent \<Rightarrow> StreamBudget \<times> rat \<times> rat" where
  "meter opts key (st, now, spent) e = (streamStep opts st e, fst e, spent + spentBy opts key st e)"

fun inOrder :: "StreamBudget \<times> rat \<times> rat \<Rightarrow> rat \<times> StreamEvent \<Rightarrow> bool" where
  "inOrder (st, now, spent) e \<longleftrightarrow> handedOut st e \<and> now \<le> fst e"

definition metered :: "BudgetOptions \<Rightarrow> string \<Rightarrow> rat \<Rightarrow> StreamBudget \<times> rat \<times> rat \<Rightarrow> bool" where
  "metered opts key start m \<longleftrightarrow>
     (case m of (st, now, spent) \<Rightarrow>
        streamOk opts st \<and> (\<forall>b \<in> set (bgObjects st). kbLastRefill b \<le> now) \<and>
        spent + availableBytes opts st key now \<le> of_int (maxBytesPerKey opts) * (1 + (now - start) / of_int (windowMs opts)))"

lemma valid_pos:
  assumes "validOptions opts"
  shows "0 < (of_int (windowMs opts) :: rat)" "0 < (of_int (maxBytesPerKey opts) :: rat)"
  using assms by (simp_all add: validOptions_def safePositive_def)

lemma refilled_later:
  assumes "validOptions opts" and "now \<le> later"
  shows "refilled opts later b \<le> refilled opts now b + (later - now) / of_int (windowMs opts) * of_int (maxBytesPerKey opts)"
proof -
  note pos = valid_pos [OF assms(1)]
  have clip: "min m (x + u) \<le> min m (x + v) + w" if "u \<le> v + w" "0 \<le> w" for m x u v w :: rat using that by simp
  have "max 0 (later - kbLastRefill b) \<le> max 0 (now - kbLastRefill b) + (later - now)" using assms(2) by simp
  then have "max 0 (later - kbLastRefill b) / of_int (windowMs opts) * of_int (maxBytesPerKey opts)
    \<le> (max 0 (now - kbLastRefill b) + (later - now)) / of_int (windowMs opts) * of_int (maxBytesPerKey opts)"
    using pos by (intro mult_right_mono divide_right_mono) simp_all
  then have "max 0 (later - kbLastRefill b) / of_int (windowMs opts) * of_int (maxBytesPerKey opts)
    \<le> max 0 (now - kbLastRefill b) / of_int (windowMs opts) * of_int (maxBytesPerKey opts)
      + (later - now) / of_int (windowMs opts) * of_int (maxBytesPerKey opts)"
    by (simp add: add_divide_distrib distrib_right)
  moreover have "0 \<le> (later - now) / of_int (windowMs opts) * of_int (maxBytesPerKey opts)" using pos assms(2) by simp
  ultimately show ?thesis unfolding refilled_def by (rule clip)
qed

lemma available_later:
  assumes "validOptions opts" and "now \<le> later"
  shows "availableBytes opts st key later \<le> availableBytes opts st key now + (later - now) / of_int (windowMs opts) * of_int (maxBytesPerKey opts)"
proof -
  have "0 \<le> (later - now) / of_int (windowMs opts) * (of_int (maxBytesPerKey opts) :: rat)" using valid_pos [OF assms(1)] assms(2) by simp
  then show ?thesis using refilled_later [OF assms] by (simp add: availableBytes_def split: option.split)
qed

lemma refilled_now: "refilled opts now (b\<lparr>kbLastRefill := now, kbTokens := tokens\<rparr>) = min (of_int (maxBytesPerKey opts)) tokens"
  by (simp add: refilled_def)

lemma refilled_active [simp]: "refilled opts now (b\<lparr>kbActive := n\<rparr>) = refilled opts now b"
  by (simp add: refilled_def)

lemma consumeFrom_refilled:
  assumes "validOptions opts" and "consumeFrom opts bytes now b = (result, b')" and "0 \<le> kbTokens b"
  shows "refilled opts now b' + (if result = Consumed then of_int bytes else 0) = refilled opts now b"
proof -
  have twice: "min (of_int (maxBytesPerKey opts)) (refilled opts now b) = refilled opts now b"
    using refilled_bounds(2) [OF assms(3,1)] by simp
  have less: "min (of_int (maxBytesPerKey opts)) (refilled opts now b - of_int bytes) = refilled opts now b - of_int bytes" if "0 \<le> bytes"
    using refilled_bounds(2) [OF assms(3,1), of now] that by simp
  show ?thesis
    using assms(2) twice less by (auto simp: consumeFrom_def safeBytes_def Let_def refilled_now split: if_splits)
qed

lemma refund_refilled:
  assumes "0 \<le> bytes"
  shows "refilled opts now (b\<lparr>kbTokens := min (of_int (maxBytesPerKey opts)) (kbTokens b + of_int bytes)\<rparr>)
    \<le> refilled opts now b + of_int bytes"
proof -
  have "min m (min m (x + y) + u) \<le> min m (x + u) + y" if "0 \<le> y" "0 \<le> u" for m x y u :: rat using that by simp
  then show ?thesis unfolding refilled_def using assms by simp
qed

text \<open>Changing the object of a live lease changes what is available to its key only.\<close>

lemma available_update:
  assumes "streamOk opts st" and "l < length (bgLeases st)" and "\<not> leaseReleased (bgLeases st ! l)"
  shows "availableBytes opts (updateBudget (leaseBudget (bgLeases st ! l)) f st) key now =
    (if leaseKey (bgLeases st ! l) = key then refilled opts now (f (bgObjects st ! leaseBudget (bgLeases st ! l)))
     else availableBytes opts st key now)"
    "availableBytes opts st (leaseKey (bgLeases st ! l)) now = refilled opts now (bgObjects st ! leaseBudget (bgLeases st ! l))"
proof -
  let ?i = "leaseBudget (bgLeases st ! l)" and ?k = "leaseKey (bgLeases st ! l)"
  have facts: "map_of (bgKeys st) ?k = Some ?i" "?i < length (bgObjects st)" "distinct (map fst (bgKeys st))" "distinct (map snd (bgKeys st))"
    using assms by (simp_all add: streamOk_def)
  have other: "j \<noteq> ?i" if "map_of (bgKeys st) key = Some j" "?k \<noteq> key" for j
  proof
    assume "j = ?i"
    with that(1) facts(1) have "(key, ?i) \<in> set (bgKeys st)" "(?k, ?i) \<in> set (bgKeys st)" by (auto dest: map_of_SomeD)
    with facts(4) that(2) show False
      using inj_onD [of snd "set (bgKeys st)" "(key, ?i)" "(?k, ?i)"] by (simp add: distinct_map)
  qed
  show "availableBytes opts (updateBudget ?i f st) key now =
    (if ?k = key then refilled opts now (f (bgObjects st ! ?i)) else availableBytes opts st key now)"
    using facts(1,2) other by (auto simp: availableBytes_def updateBudget_def nth_list_update split: option.split)
  show "availableBytes opts st ?k now = refilled opts now (bgObjects st ! ?i)" using facts(1) by (simp add: availableBytes_def)
qed

lemma available_cleanup:
  assumes "streamOk opts st" and "validOptions opts"
  shows "availableBytes opts (cleanup opts now st) key now = availableBytes opts st key now"
proof -
  note pos = valid_pos [OF assms(2)]
  have keys: "distinct (map fst (bgKeys st))" using assms(1) by (simp add: streamOk_def)
  have full: "refilled opts now b = of_int (maxBytesPerKey opts)"
    if "now - kbLastRefill b > of_int (windowMs opts) * 2" "0 \<le> kbTokens b" for b
  proof -
    have "1 \<le> (now - kbLastRefill b) / of_int (windowMs opts)" using that(1) pos(1) by (simp add: le_divide_eq)
    then have "of_int (maxBytesPerKey opts) \<le> (now - kbLastRefill b) / of_int (windowMs opts) * of_int (maxBytesPerKey opts)"
      using mult_right_mono [of 1 "(now - kbLastRefill b) / of_int (windowMs opts)" "of_int (maxBytesPerKey opts)"] pos(2) by simp
    moreover have "max 0 (now - kbLastRefill b) = now - kbLastRefill b" using that(1) pos(1) by simp
    ultimately show ?thesis unfolding refilled_def using that(2) by simp
  qed
  show ?thesis
  proof (cases "map_of (bgKeys st) key")
    case (Some i)
    then have "i < length (bgObjects st)" using assms(1) by (force simp: streamOk_def dest: map_of_SomeD)
    then have "0 \<le> kbTokens (bgObjects st ! i)" using assms(1) by (simp add: streamOk_def budgetOk_def)
    with full Some show ?thesis by (simp add: availableBytes_def cleanup_def map_of_filter_key [OF keys])
  qed (simp add: availableBytes_def cleanup_def map_of_filter_key [OF keys])
qed

lemma available_counted:
  assumes "streamOk opts st" and "validOptions opts"
  shows "availableBytes opts (countAcquisition opts now st) key now = availableBytes opts st key now"
    "streamOk opts (countAcquisition opts now st)"
proof -
  have "streamOk opts (st\<lparr>bgAcquisitions := bgAcquisitions st + 1\<rparr>)"
    using assms(1) by (simp add: streamOk_def liveOn_def liveLeases_def)
  moreover have "availableBytes opts (st\<lparr>bgAcquisitions := bgAcquisitions st + 1\<rparr>) key now = availableBytes opts st key now"
    by (rule available_same) simp_all
  ultimately show "availableBytes opts (countAcquisition opts now st) key now = availableBytes opts st key now"
    "streamOk opts (countAcquisition opts now st)"
    using available_cleanup [of opts "st\<lparr>bgAcquisitions := bgAcquisitions st + 1\<rparr>" now key] cleanup_ok assms(2)
    by (auto simp: countAcquisition_def Let_def)
qed

lemma available_keyBudget:
  assumes "streamOk opts st" and "validOptions opts" and "keyBudget opts k now st = (i, st')"
  shows "availableBytes opts st' key now = availableBytes opts st key now"
proof (cases "map_of (bgKeys st) k")
  case None
  then have st': "bgKeys st' = bgKeys st @ [(k, length (bgObjects st))]"
    "bgObjects st' = bgObjects st @ [\<lparr>kbActive = 0, kbLastRefill = now, kbTokens = of_int (maxBytesPerKey opts)\<rparr>]"
    using assms(3) by (auto simp: keyBudget_def)
  show ?thesis
  proof (cases "map_of (bgKeys st) key")
    case (Some j)
    then have "j < length (bgObjects st)" using assms(1) by (force simp: streamOk_def dest: map_of_SomeD)
    with Some show ?thesis by (simp add: availableBytes_def st' nth_append)
  next
    case old: None
    with valid_pos(2) [OF assms(2)] show ?thesis by (auto simp: availableBytes_def st' refilled_def map_add_def)
  qed
qed (use assms(3) in \<open>simp add: keyBudget_def\<close>)

lemma available_acquire:
  assumes "streamOk opts st" and "validOptions opts"
  shows "availableBytes opts (snd (tryAcquire opts k now st)) key now = availableBytes opts st key now"
proof -
  define cleaned where "cleaned = countAcquisition opts now st"
  note counted = available_counted [OF assms, of now, folded cleaned_def]
  obtain i found where found: "keyBudget opts k now cleaned = (i, found)" by fastforce
  note same = available_keyBudget [OF counted(2) assms(2) found, of key]
  note facts = keyBudget_ok [OF counted(2) assms(2) found]
  have bump: "availableBytes opts (updateBudget i (\<lambda>b. b\<lparr>kbActive := kbActive b + 1\<rparr>) found) key now = availableBytes opts found key now"
    using facts(3) by (auto simp: availableBytes_def updateBudget_def nth_list_update split: option.split)
  have "availableBytes opts ((updateBudget i (\<lambda>b. b\<lparr>kbActive := kbActive b + 1\<rparr>) found)
      \<lparr>bgActive := a, bgLeases := ls\<rparr>) key now = availableBytes opts found key now" for a ls
    unfolding bump [symmetric] by (rule available_same) simp_all
  then show ?thesis
    using same counted(1) found by (simp add: tryAcquire_def Let_def cleaned_def [symmetric])
qed

lemma available_release:
  assumes "l < length (bgLeases st)" and "leaseBudget (bgLeases st ! l) < length (bgObjects st)"
  shows "availableBytes opts (leaseRelease l st) key now = availableBytes opts st key now"
  using assms by (auto simp: leaseRelease_def availableBytes_def updateBudget_def Let_def nth_list_update split: option.split)

lemma spend_step:
  assumes "streamOk opts st" and "validOptions opts" and "handedOut st (now, ev)"
  shows "spentBy opts key st (now, ev) + availableBytes opts (streamStep opts st (now, ev)) key now \<le> availableBytes opts st key now"
proof (cases ev)
  case (Acquire k)
  with available_acquire [OF assms(1,2)] show ?thesis by (simp add: spentBy_def streamStep_def)
next
  case (Release l)
  then have "l < length (bgLeases st)" "leaseBudget (bgLeases st ! l) < length (bgObjects st)"
    using assms(1,3) by (auto simp: handedOut_def streamOk_def)
  with Release available_release show ?thesis by (simp add: spentBy_def streamStep_def)
next
  case (Consume l bytes)
  then have l: "l < length (bgLeases st)" using assms(3) by (simp add: handedOut_def)
  show ?thesis
  proof (cases "leaseReleased (bgLeases st ! l)")
    case False
    let ?i = "leaseBudget (bgLeases st ! l)"
    obtain result b where from_b: "consumeFrom opts bytes now (bgObjects st ! ?i) = (result, b)" by fastforce
    have "0 \<le> kbTokens (bgObjects st ! ?i)" using assms(1) l by (simp add: streamOk_def budgetOk_def)
    from consumeFrom_refilled [OF assms(2) from_b this]
    show ?thesis
      using Consume False from_b available_update(1) [OF assms(1) l False, of "\<lambda>_. b" key now] available_update(2) [OF assms(1) l False, of now]
      by (auto simp: spentBy_def streamStep_def leaseConsume_def Let_def split: if_splits)
  qed (use Consume in \<open>simp add: spentBy_def streamStep_def leaseConsume_def\<close>)
next
  case (Refund l bytes)
  then have l: "l < length (bgLeases st)" using assms(3) by (simp add: handedOut_def)
  show ?thesis
  proof (cases "leaseReleased (bgLeases st ! l) \<or> \<not> safeBytes bytes")
    case False
    let ?f = "\<lambda>b. b\<lparr>kbTokens := min (of_int (maxBytesPerKey opts)) (kbTokens b + of_int bytes)\<rparr>"
    have live: "\<not> leaseReleased (bgLeases st ! l)" and bytes: "0 \<le> bytes" using False by (simp_all add: safeBytes_def)
    from refund_refilled [OF bytes, of opts now "bgObjects st ! leaseBudget (bgLeases st ! l)"]
    show ?thesis
      using Refund False available_update(1) [OF assms(1) l live, of ?f key now] available_update(2) [OF assms(1) l live, of now]
      by (auto simp: spentBy_def streamStep_def leaseRefund_def Let_def)
  qed (use Refund in \<open>simp add: spentBy_def streamStep_def leaseRefund_def\<close>)
qed

lemma refills_past:
  assumes "\<forall>b \<in> set (bgObjects st). kbLastRefill b \<le> now" and "now \<le> later" and "handedOut st (later, ev)" and "streamOk opts st"
  shows "\<forall>b \<in> set (bgObjects (streamStep opts st (later, ev))). kbLastRefill b \<le> later"
proof -
  have old: "\<forall>b \<in> set (bgObjects st). kbLastRefill b \<le> later" using assms(1,2) by fastforce
  have upd: "\<forall>b \<in> set (bgObjects (updateBudget i f s)). kbLastRefill b \<le> later"
    if "\<forall>b \<in> set (bgObjects s). kbLastRefill b \<le> later" "i < length (bgObjects s)" "kbLastRefill (f (bgObjects s ! i)) \<le> later" for i f s
    using that set_update_subset_insert [of "bgObjects s" i "f (bgObjects s ! i)"] by (auto simp: updateBudget_def)
  have inside: "leaseBudget (bgLeases st ! l) < length (bgObjects st)" if "l < length (bgLeases st)" for l
    using assms(4) that by (simp add: streamOk_def)
  show ?thesis
  proof (cases ev)
    case (Acquire k)
    have counted: "bgObjects (countAcquisition opts later st) = bgObjects st" by (simp add: countAcquisition_def Let_def)
    obtain i found where found: "keyBudget opts k later (countAcquisition opts later st) = (i, found)" by fastforce
    then have made: "\<forall>b \<in> set (bgObjects found). kbLastRefill b \<le> later"
      using old counted by (auto simp: keyBudget_def split: option.splits)
    have "\<forall>b \<in> set (bgObjects (updateBudget i (\<lambda>b. b\<lparr>kbActive := kbActive b + 1\<rparr>) found)). kbLastRefill b \<le> later"
    proof (cases "i < length (bgObjects found)")
      case True
      with made show ?thesis by (intro upd) simp_all
    qed (use made in \<open>simp add: updateBudget_def list_update_beyond\<close>)
    with made found old counted Acquire show ?thesis by (simp add: streamStep_def tryAcquire_def Let_def)
  next
    case (Consume l bytes)
    then have l: "l < length (bgLeases st)" using assms(3) by (simp add: handedOut_def)
    obtain result b where from_b: "consumeFrom opts bytes later (bgObjects st ! leaseBudget (bgLeases st ! l)) = (result, b)" by fastforce
    then have "kbLastRefill b \<le> later"
      using old nth_mem [OF inside [OF l]] by (auto simp: consumeFrom_def Let_def split: if_splits)
    with upd [OF old inside [OF l]] from_b old Consume show ?thesis by (simp add: streamStep_def leaseConsume_def Let_def)
  next
    case (Refund l bytes)
    then have l: "l < length (bgLeases st)" using assms(3) by (simp add: handedOut_def)
    have "kbLastRefill (bgObjects st ! leaseBudget (bgLeases st ! l)) \<le> later" using old nth_mem [OF inside [OF l]] by blast
    then have "\<forall>b \<in> set (bgObjects (updateBudget (leaseBudget (bgLeases st ! l))
        (\<lambda>b. b\<lparr>kbTokens := min (of_int (maxBytesPerKey opts)) (kbTokens b + of_int bytes)\<rparr>) st)). kbLastRefill b \<le> later"
      by (intro upd [OF old inside [OF l]]) simp
    with old Refund show ?thesis by (simp add: streamStep_def leaseRefund_def Let_def)
  next
    case (Release l)
    then have l: "l < length (bgLeases st)" using assms(3) by (simp add: handedOut_def)
    have "kbLastRefill (bgObjects st ! leaseBudget (bgLeases st ! l)) \<le> later" using old nth_mem [OF inside [OF l]] by blast
    then have "\<forall>b \<in> set (bgObjects (updateBudget (leaseBudget (bgLeases st ! l)) (\<lambda>b. b\<lparr>kbActive := kbActive b - 1\<rparr>) st)).
        kbLastRefill b \<le> later"
      by (intro upd [OF old inside [OF l]]) simp
    with old Release show ?thesis by (simp add: streamStep_def leaseRelease_def Let_def)
  qed
qed

interpretation meters: reducer "meter opts key" "\<lambda>m e. validOptions opts \<and> inOrder m e" "metered opts key start" for opts key start
proof
  fix m e
  assume inv: "metered opts key start m" and may: "validOptions opts \<and> inOrder m e"
  obtain st now spent where m: "m = (st, now, spent)" by (cases m)
  obtain later ev where e: "e = (later, ev)" by (cases e)
  have valid: "validOptions opts" and on: "handedOut st (later, ev)" "now \<le> later" using may by (simp_all add: m e)
  have ok: "streamOk opts st" and past: "\<forall>b \<in> set (bgObjects st). kbLastRefill b \<le> now"
    and bound: "spent + availableBytes opts st key now \<le> of_int (maxBytesPerKey opts) * (1 + (now - start) / of_int (windowMs opts))"
    using inv by (simp_all add: m metered_def)
  let ?max = "of_int (maxBytesPerKey opts) :: rat" and ?w = "of_int (windowMs opts) :: rat"
  have split: "?max * (1 + (now - start) / ?w) + (later - now) / ?w * ?max = ?max * (1 + (later - start) / ?w)"
    by (simp add: algebra_simps add_divide_distrib diff_divide_distrib)
  have "spentBy opts key st (later, ev) + availableBytes opts (streamStep opts st (later, ev)) key later \<le> availableBytes opts st key later"
    by (rule spend_step [OF ok valid on(1)])
  also have "\<dots> \<le> availableBytes opts st key now + (later - now) / ?w * ?max" by (rule available_later [OF valid on(2)])
  finally have "spent + spentBy opts key st (later, ev) + availableBytes opts (streamStep opts st (later, ev)) key later
      \<le> ?max * (1 + (later - start) / ?w)"
    using bound unfolding split [symmetric] by linarith
  then show "metered opts key start (meter opts key m e)"
    using stream_keep [OF ok valid on(1)] refills_past [OF past on(2,1) ok] by (simp add: m e metered_def)
qed

text \<open>
  C25. The bytes of a key are bounded over time: while the clock does not go back, what a key consumed and did not give
  back is at most one full budget and the share of the budget that belongs to the time passed, however its
  streams come and go and although idle keys are forgotten.
\<close>

theorem bytes_bounded:
  assumes "newStreamBudget opts = Some st0" and "reaches (meter opts key) inOrder (st0, start, 0) (st, now, spent)"
  shows "spent \<le> of_int (maxBytesPerKey opts) * (1 + (now - start) / of_int (windowMs opts))"
proof -
  from assms(1) have valid: "validOptions opts" and st0: "st0 = freshBudget" by (simp_all add: new_fresh)
  have init: "metered opts key start (st0, start, 0)"
    using fresh_budget_ok [OF valid] by (simp add: st0 metered_def availableBytes_def freshBudget_def)
  have "reaches (meter opts key) (\<lambda>m e. validOptions opts \<and> inOrder m e) (st0, start, 0) (st, now, spent)"
    using assms(2) valid by simp
  from meters.reaches_inv [OF this init] have ok: "streamOk opts st"
    and bound: "spent + availableBytes opts st key now \<le> of_int (maxBytesPerKey opts) * (1 + (now - start) / of_int (windowMs opts))"
    by (simp_all add: metered_def)
  have "0 \<le> availableBytes opts st key now"
  proof (cases "map_of (bgKeys st) key")
    case (Some i)
    then have "i < length (bgObjects st)" using ok by (force simp: streamOk_def dest: map_of_SomeD)
    then have "0 \<le> kbTokens (bgObjects st ! i)" using ok by (simp add: streamOk_def budgetOk_def)
    with Some refilled_bounds(1) [OF _ valid] show ?thesis by (simp add: availableBytes_def)
  qed (use valid_pos(2) [OF valid] in \<open>simp add: availableBytes_def\<close>)
  with bound show ?thesis by linarith
qed

section \<open>Waiting\<close>

text \<open>What may happen between a refusal and the retry: no lease of the key consumes, and the lease itself is not released.\<close>

definition sparesTokens :: "string \<Rightarrow> nat \<Rightarrow> StreamBudget \<Rightarrow> rat \<times> StreamEvent \<Rightarrow> bool" where
  "sparesTokens key l st e \<longleftrightarrow>
     handedOut st e \<and>
     (case snd e of
        Acquire _ \<Rightarrow> True
      | Consume other _ \<Rightarrow> leaseKey (bgLeases st ! other) \<noteq> key
      | Refund _ _ \<Rightarrow> True
      | Release other \<Rightarrow> other \<noteq> l)"

definition saved :: "BudgetOptions \<Rightarrow> string \<Rightarrow> nat \<Rightarrow> nat \<Rightarrow> rat \<Rightarrow> rat \<Rightarrow> StreamBudget \<Rightarrow> bool" where
  "saved opts key l i since tokens st \<longleftrightarrow>
     streamOk opts st \<and> l < length (bgLeases st) \<and>
     bgLeases st ! l = \<lparr>leaseKey = key, leaseBudget = i, leaseReleased = False\<rparr> \<and>
     kbLastRefill (bgObjects st ! i) = since \<and> tokens \<le> kbTokens (bgObjects st ! i)"

lemma saved_inside: "saved opts key l i since tokens st \<Longrightarrow> i < length (bgObjects st)"
  using nth_mem [of l "bgLeases st"] by (auto simp: saved_def streamOk_def)

lemma other_budget:
  assumes "saved opts key l i since tokens st" and "other < length (bgLeases st)" and "\<not> leaseReleased (bgLeases st ! other)"
    and "leaseKey (bgLeases st ! other) \<noteq> key"
  shows "leaseBudget (bgLeases st ! other) \<noteq> i"
proof
  assume same: "leaseBudget (bgLeases st ! other) = i"
  have ok: "streamOk opts st" using assms(1) by (simp add: saved_def)
  have "map_of (bgKeys st) (leaseKey (bgLeases st ! other)) = Some i" "map_of (bgKeys st) key = Some i"
    using assms nth_mem [OF assms(2)] nth_mem [of l "bgLeases st"] ok same by (auto simp: saved_def streamOk_def)
  then have keys: "(leaseKey (bgLeases st ! other), i) \<in> set (bgKeys st)" "(key, i) \<in> set (bgKeys st)" by (auto dest: map_of_SomeD)
  have "inj_on snd (set (bgKeys st))" using ok by (simp add: streamOk_def distinct_map)
  from inj_onD [OF this _ keys] assms(4) show False by simp
qed

lemma acquire_saves:
  assumes "saved opts key l i since tokens st"
  shows "bgObjects (snd (tryAcquire opts k now st)) ! i \<in>
      {bgObjects st ! i, (bgObjects st ! i)\<lparr>kbActive := kbActive (bgObjects st ! i) + 1\<rparr>} \<and>
    l < length (bgLeases (snd (tryAcquire opts k now st))) \<and> bgLeases (snd (tryAcquire opts k now st)) ! l = bgLeases st ! l"
proof -
  have counted: "bgObjects (countAcquisition opts now st) = bgObjects st" "bgLeases (countAcquisition opts now st) = bgLeases st"
    by (simp_all add: countAcquisition_def Let_def)
  obtain j found where found: "keyBudget opts k now (countAcquisition opts now st) = (j, found)" by fastforce
  then have "bgObjects found ! i = bgObjects st ! i" "bgLeases found = bgLeases st" "i < length (bgObjects found)"
    using counted saved_inside [OF assms] by (auto simp: keyBudget_def nth_append split: option.splits)
  with found counted assms show ?thesis
    by (cases "j = i") (auto simp: tryAcquire_def Let_def updateBudget_def nth_append saved_def)
qed

lemma saved_step:
  assumes "saved opts key l i since tokens st" and "validOptions opts" and "tokens \<le> of_int (maxBytesPerKey opts)"
    and "sparesTokens key l st e"
  shows "saved opts key l i since tokens (streamStep opts st e)"
proof -
  obtain now ev where e: "e = (now, ev)" by (cases e)
  have on: "handedOut st (now, ev)" using assms(4) by (simp add: sparesTokens_def e)
  have ok: "streamOk opts (streamStep opts st (now, ev))"
    using assms(1) by (intro stream_keep assms(2) on) (simp add: saved_def)
  note inside = saved_inside [OF assms(1)]
  show ?thesis
  proof (cases ev)
    case (Acquire k)
    with acquire_saves [OF assms(1), of k now] ok assms(1) show ?thesis by (auto simp: e saved_def streamStep_def)
  next
    case (Consume other bytes)
    then have other: "other < length (bgLeases st)" "leaseKey (bgLeases st ! other) \<noteq> key"
      using assms(4) on by (simp_all add: sparesTokens_def e handedOut_def)
    show ?thesis
    proof (cases "leaseReleased (bgLeases st ! other)")
      case False
      with other_budget [OF assms(1) other(1) False other(2)] ok assms(1) Consume show ?thesis
        by (auto simp: e saved_def streamStep_def leaseConsume_def Let_def updateBudget_def split: prod.splits)
    qed (use Consume assms(1) in \<open>simp add: e streamStep_def leaseConsume_def\<close>)
  next
    case (Refund other bytes)
    show ?thesis
    proof (cases "leaseReleased (bgLeases st ! other) \<or> \<not> safeBytes bytes")
      case False
      have "tokens \<le> kbTokens (bgObjects st ! i) + of_int bytes"
        using False assms(1) by (intro add_increasing2) (simp_all add: safeBytes_def saved_def)
      with False ok assms(1,3) inside Refund show ?thesis
        by (cases "leaseBudget (bgLeases st ! other) = i")
          (auto simp: e saved_def streamStep_def leaseRefund_def Let_def updateBudget_def)
    qed (use Refund assms(1) in \<open>simp add: e streamStep_def leaseRefund_def\<close>)
  next
    case (Release other)
    then have "other \<noteq> l" using assms(4) by (simp add: sparesTokens_def e)
    with ok assms(1) inside Release show ?thesis
      by (cases "leaseBudget (bgLeases st ! other) = i")
        (auto simp: e saved_def streamStep_def leaseRelease_def Let_def updateBudget_def)
  qed
qed

interpretation savings: reducer "streamStep opts"
    "\<lambda>st e. validOptions opts \<and> tokens \<le> of_int (maxBytesPerKey opts) \<and> sparesTokens key l st e" "saved opts key l i since tokens"
  for opts key l i since tokens
  by unfold_locales (auto intro: saved_step)

text \<open>The wait asked for brings the missing bytes.\<close>

lemma wait_refills:
  fixes missing :: rat
  assumes "validOptions opts" and "0 \<le> missing" and "missing \<le> of_int (maxBytesPerKey opts)"
    and "r = max 1 (min (retryAfterSeconds opts) \<lceil>missing / of_int (maxBytesPerKey opts) * of_int (retryAfterSeconds opts)\<rceil>)"
    and "now + 1000 * of_int r \<le> later"
  shows "now \<le> later \<and> missing \<le> (later - now) / of_int (windowMs opts) * of_int (maxBytesPerKey opts)"
proof
  note pos = valid_pos [OF assms(1)]
  let ?max = "of_int (maxBytesPerKey opts) :: rat" and ?w = "of_int (windowMs opts) :: rat"
  have "1 \<le> r" by (simp add: assms(4))
  with assms(5) show "now \<le> later" by (simp add: order_trans [of now "now + 1000 * of_int r"])
  have "\<lceil>?w / 1000\<rceil> \<le> retryAfterSeconds opts" unfolding retryAfterSeconds_def by (rule max.cobounded2)
  then have wait: "?w / 1000 \<le> of_int (retryAfterSeconds opts)" by (simp only: ceiling_le_iff)
  have part: "missing / ?max \<le> 1" "0 \<le> missing / ?max" using assms(2,3) pos(2) by simp_all
  then have "missing / ?max * of_int (retryAfterSeconds opts) \<le> of_int (retryAfterSeconds opts)"
    using mult_right_mono [of "missing / ?max" 1 "of_int (retryAfterSeconds opts)"] wait pos(1) by simp
  then have "\<lceil>missing / ?max * of_int (retryAfterSeconds opts)\<rceil> \<le> r" unfolding assms(4) by (simp add: ceiling_le_iff)
  then have "missing / ?max * of_int (retryAfterSeconds opts) \<le> of_int r" by (simp add: ceiling_le_iff)
  moreover have "missing / ?max * (?w / 1000) \<le> missing / ?max * of_int (retryAfterSeconds opts)"
    using wait part(2) by (rule mult_left_mono)
  ultimately have "missing / ?max * (?w / 1000) \<le> (later - now) / 1000" using assms(5) by simp
  then have "missing / ?max * ?w \<le> later - now" by simp
  then show "missing \<le> (later - now) / ?w * ?max" using pos by (simp add: field_simps)
qed

text \<open>
  C27. The wait asked for is enough: a lease that was refused bytes it could ever have gets them when it tries again that many
  seconds later, whatever happened in between, unless the lease was released or another lease of the same
  key consumed (the leases of a key share its bytes).
\<close>

theorem retry_honoured:
  assumes "newStreamBudget opts = Some st0" and "reaches (streamStep opts) handedOut st0 st" and "l < length (bgLeases st)"
    and "leaseConsume opts l bytes now st = (ConsumeRejected r, st1)" and "bytes \<le> maxBytesPerKey opts"
    and "reaches (streamStep opts) (sparesTokens (leaseKey (bgLeases st ! l)) l) st1 st2"
    and "now + 1000 * of_int r \<le> later"
  shows "fst (leaseConsume opts l bytes later st2) = Consumed"
proof -
  note ok = stream_reaches_ok [OF assms(1,2)]
  let ?key = "leaseKey (bgLeases st ! l)" and ?i = "leaseBudget (bgLeases st ! l)"
  let ?b = "bgObjects st ! ?i"
  define R where "R = refilled opts now ?b"
  define missing where "missing = of_int bytes - R"
  have inside: "?i < length (bgObjects st)" using ok(1) assms(3) by (simp add: streamOk_def)
  then have "0 \<le> kbTokens ?b" using ok(1) by (simp add: streamOk_def budgetOk_def)
  note R = refilled_bounds [OF this ok(2), of now, folded R_def]
  have live: "\<not> leaseReleased (bgLeases st ! l)" using assms(4) by (auto simp: leaseConsume_def)
  with assms(4,5) have bytes: "safeBytes bytes" "R < of_int bytes"
    and r: "r = max 1 (min (retryAfterSeconds opts) \<lceil>missing / of_int (maxBytesPerKey opts) * of_int (retryAfterSeconds opts)\<rceil>)"
    and st1: "st1 = updateBudget ?i (\<lambda>_. ?b\<lparr>kbLastRefill := now, kbTokens := R\<rparr>) st"
    by (auto simp: leaseConsume_def consumeFrom_def Let_def R_def missing_def split: if_splits)
  have "streamOk opts (streamStep opts st (now, Consume l bytes))"
    by (rule stream_keep [OF ok]) (simp add: handedOut_def assms(3))
  then have "saved opts ?key l ?i now R st1"
    using assms(3,4) live inside by (auto simp: saved_def streamStep_def st1 updateBudget_def)
  moreover have "R \<le> of_int (maxBytesPerKey opts)" using bytes(2) assms(5) by (simp add: order_trans [of R "of_int bytes"])
  ultimately have kept: "saved opts ?key l ?i now R st2"
    using savings.reaches_inv [of opts R ?key l st1 st2 ?i now] assms(6) ok(2) by simp
  have "0 \<le> missing" "missing \<le> of_int (maxBytesPerKey opts)" using bytes(2) R(1) assms(5) by (simp_all add: missing_def)
  from wait_refills [OF ok(2) this r assms(7)] kept assms(5)
  have "of_int bytes \<le> refilled opts later (bgObjects st2 ! ?i)"
    by (simp add: refilled_def missing_def saved_def)
  with kept bytes(1) assms(5) show ?thesis
    by (simp add: leaseConsume_def consumeFrom_def saved_def Let_def)
qed

section \<open>A clock that goes back\<close>

definition smallOptions :: BudgetOptions where
  "smallOptions = \<lparr>maxBytesPerKey = 100, windowMs = 100, maxConcurrentPerKey = 1, maxConcurrentGlobal = 1\<rparr>"

text \<open>
  A clock that steps back gives its time twice: a key that has used up its budget and consumes nothing while the clock is
  one window back has its whole budget again when the clock returns, twice the budget in no time.
\<close>

theorem clock_back_refills:
  "snd (foldl (meter smallOptions ''k'') (freshBudget, 1000, 0)
     [(1000, Acquire ''k''), (1000, Consume 0 100), (900, Consume 0 0), (1000, Consume 0 100)]) = (1000, 200)"
  by code_simp

theorem stream_limits_witness:
  "int (liveLeases (streamStep smallOptions freshBudget (0, Acquire ''k''))) \<le> 1"
proof -
  have "reaches (streamStep smallOptions) handedOut freshBudget (streamStep smallOptions freshBudget (0, Acquire ''k''))"
    by (intro reaches.event reaches.here) (simp add: handedOut_def)
  moreover have "newStreamBudget smallOptions = Some freshBudget"
    by (simp add: new_fresh validOptions_def safePositive_def smallOptions_def)
  ultimately show ?thesis
    using stream_limits [of smallOptions freshBudget "streamStep smallOptions freshBudget (0, Acquire ''k'')" "''k''"]
    by (simp add: smallOptions_def)
qed

theorem bytes_bounded_witness:
  "\<exists>st now spent. foldl (meter smallOptions ''k'') (freshBudget, 0, 0) [(0, Acquire ''k''), (50, Consume 0 90)] = (st, now, spent) \<and>
     spent \<le> 100 * (1 + now / 100)"
proof -
  let ?m1 = "meter smallOptions ''k'' (freshBudget, 0, 0) (0, Acquire ''k'')"
  let ?m2 = "meter smallOptions ''k'' ?m1 (50, Consume 0 90)"
  have "inOrder (freshBudget, 0, 0) (0, Acquire ''k'')" "inOrder ?m1 (50, Consume 0 90)" by code_simp+
  then have "reaches (meter smallOptions ''k'') inOrder (freshBudget, 0, 0) ?m2" by (intro reaches.event reaches.here)
  moreover obtain st now spent where m2: "?m2 = (st, now, spent)" by (cases ?m2)
  moreover have "newStreamBudget smallOptions = Some freshBudget"
    by (simp add: new_fresh validOptions_def safePositive_def smallOptions_def)
  ultimately have "spent \<le> 100 * (1 + now / 100)"
    using bytes_bounded [of smallOptions freshBudget "''k''" 0 st now spent] by (simp add: smallOptions_def)
  with m2 show ?thesis by auto
qed

theorem retry_honoured_witness:
  "fst (leaseConsume smallOptions 0 100 2000
     (streamStep smallOptions
       (snd (leaseConsume smallOptions 0 100 0 (snd (leaseConsume smallOptions 0 50 0 (streamStep smallOptions freshBudget (0, Acquire ''k''))))))
       (500, Acquire ''other''))) = Consumed"
proof -
  let ?st = "streamStep smallOptions (streamStep smallOptions freshBudget (0, Acquire ''k'')) (0, Consume 0 50)"
  let ?st1 = "snd (leaseConsume smallOptions 0 100 0 ?st)"
  have "handedOut freshBudget (0, Acquire ''k'')" "handedOut (streamStep smallOptions freshBudget (0, Acquire ''k'')) (0, Consume 0 50)"
    by code_simp+
  then have "reaches (streamStep smallOptions) handedOut freshBudget ?st" by (intro reaches.event reaches.here)
  moreover have "newStreamBudget smallOptions = Some freshBudget"
    by (simp add: new_fresh validOptions_def safePositive_def smallOptions_def)
  moreover have "0 < length (bgLeases ?st)" "fst (leaseConsume smallOptions 0 100 0 ?st) = ConsumeRejected 1" by code_simp+
  moreover have "reaches (streamStep smallOptions) (sparesTokens (leaseKey (bgLeases ?st ! 0)) 0) ?st1
      (streamStep smallOptions ?st1 (500, Acquire ''other''))"
    by (intro reaches.event reaches.here) (simp add: sparesTokens_def handedOut_def)
  ultimately show ?thesis
    using retry_honoured [of smallOptions freshBudget ?st 0 100 0 1 ?st1 "streamStep smallOptions ?st1 (500, Acquire ''other'')" 2000]
    by (simp add: streamStep_def smallOptions_def prod_eq_iff)
qed

end
