(* ===== verification/Erasure_Journal.thy ===== *)
theory Erasure_Journal
  imports Service_Types Reducer
begin

text \<open>
  The erasure journal (\<open>core/src/erasure-journal.ts\<close>): a file of lines that outlives the database and
  says which accounts were to be erased, so that a restored backup does not bring them back. The file
  is the list of its lines, a line being the JSON value it holds or text that is not JSON; an
  operation is a function on the disk and returns an error or a value. HMAC, dates and the length of a line are fields of
  the host. A file that changes while it is read, and writes that fail half-way, are not modelled.
\<close>

section \<open>The host and the disk\<close>

record JournalHost =
  hmac :: "string \<Rightarrow> string \<Rightarrow> string"
  isoOf :: "int \<Rightarrow> string"
  parseDate :: "string \<Rightarrow> int option"
  lineBytes :: "json \<Rightarrow> int"
  processUid :: nat

datatype JournalLine = Line json | Garbage int

record JournalFile =
  jfRegular :: bool
  jfLinks :: nat
  jfOwner :: nat
  jfMode :: nat
  jfLines :: "JournalLine list"

record JournalDisk =
  jdParent :: "(nat \<times> nat) option"
  jdFile :: "JournalFile option"
  jdLocked :: bool

datatype JournalError =
    BadJournalKey
  | EmptySubject
  | JournalIsLocked
  | JournalMissing
  | NotRegularFile
  | MoreLinks
  | UnexpectedOwner
  | UnexpectedMode
  | EmptyJournal
  | JournalTooLarge
  | UnprotectedParent
  | BadJson nat
  | BadLine nat
  | BadRecord nat
  | BadKeyBinding nat
  | BadRequest nat
  | BadPhase nat
  | NoCoverageMarker
  | StrayCompletion
  | KeyMismatch
  | BadReceipt
  | BadDate
  | NotBoundedFile
  | JournalFull

text \<open>Dates that have an ISO form.\<close>

definition validTime :: "int \<Rightarrow> bool" where
  "validTime t \<longleftrightarrow> \<bar>t\<bar> \<le> 8640000000000000"

fun onSuccess :: "'e + 'a \<Rightarrow> ('a \<Rightarrow> 'e + 'b) \<Rightarrow> 'e + 'b" where
  "onSuccess (Inl e) k = Inl e"
| "onSuccess (Inr v) k = k v"

fun allResults :: "('e + 'a) list \<Rightarrow> 'e + 'a list" where
  "allResults [] = Inr []"
| "allResults (Inl e # xs) = Inl e"
| "allResults (Inr v # xs) = (case allResults xs of Inl e \<Rightarrow> Inl e | Inr vs \<Rightarrow> Inr (v # vs))"

section \<open>Records\<close>

record ErasureRequest =
  reqReceipt :: string
  reqDigest :: string
  reqAt :: string

record ErasureCompleted =
  cmpReceipt :: string
  cmpAt :: string

datatype ErasureRecord =
    Coverage string string
  | Requested ErasureRequest
  | Completed ErasureCompleted

record ErasureJournal =
  coverageStartedAt :: int
  keyBinding :: string
  requests :: "ErasureRequest list"
  completedReceiptIds :: "string list"
  completionRecords :: "ErasureCompleted list"

definition MAX_JOURNAL_BYTES :: int where
  "MAX_JOURNAL_BYTES = 4 * 1024 * 1024"

definition isLowerHex :: "char \<Rightarrow> bool" where
  "isLowerHex c \<longleftrightarrow> isDigit c \<or> 97 \<le> (of_char c :: nat) \<and> (of_char c :: nat) \<le> 102"

definition isAnyHex :: "char \<Rightarrow> bool" where
  "isAnyHex c \<longleftrightarrow> isLowerHex (lowerChar c)"

definition isSha256 :: "string \<Rightarrow> bool" where
  "isSha256 s \<longleftrightarrow> length s = 64 \<and> list_all isLowerHex s"

definition uuidShape :: "(char \<Rightarrow> bool) list" where
  "uuidShape =
     replicate 8 isAnyHex @ [\<lambda>c. c = CHR ''-''] @ replicate 4 isAnyHex @ [\<lambda>c. c = CHR ''-''] @
     [\<lambda>c. c \<in> set ''12345678''] @ replicate 3 isAnyHex @ [\<lambda>c. c = CHR ''-''] @
     [\<lambda>c. lowerChar c \<in> set ''89ab''] @ replicate 3 isAnyHex @ [\<lambda>c. c = CHR ''-''] @ replicate 12 isAnyHex"

definition isReceipt :: "string \<Rightarrow> bool" where
  "isReceipt s \<longleftrightarrow> list_all2 (\<lambda>p c. p c) uuidShape s"

text \<open>\<open>String(value)\<close>: an array is its elements joined by commas, null in it nothing.\<close>

fun jsText :: "json \<Rightarrow> string" where
  "jsText JNull = ''null''"
| "jsText (JBool b) = (if b then ''true'' else ''false'')"
| "jsText (JNum n) = n"
| "jsText (JStr s) = s"
| "jsText (JArr xs) = join '','' (map (\<lambda>x. if x = JNull then [] else jsText x) xs)"
| "jsText (JObj ps) = ''[object Object]''"

definition propText :: "string \<Rightarrow> json \<Rightarrow> string" where
  "propText p v = (case jsonProp p v of None \<Rightarrow> ''undefined'' | Some j \<Rightarrow> jsText j)"

definition isoDate :: "JournalHost \<Rightarrow> json option \<Rightarrow> string option" where
  "isoDate host v =
     (case v of
        Some (JStr s) \<Rightarrow>
          (case parseDate host s of
             None \<Rightarrow> None
           | Some t \<Rightarrow> if isoOf host t = s then Some s else None)
      | _ \<Rightarrow> None)"

definition parseErasureRecord :: "JournalHost \<Rightarrow> json \<Rightarrow> nat \<Rightarrow> JournalError + ErasureRecord" where
  "parseErasureRecord host v n =
     (case v of
        JNull \<Rightarrow> Inl (BadLine n) | JBool _ \<Rightarrow> Inl (BadLine n) | JNum _ \<Rightarrow> Inl (BadLine n) | JStr _ \<Rightarrow> Inl (BadLine n)
      | _ \<Rightarrow>
         (case (jsonProp ''version'' v = Some (JNum ''2''), isoDate host (jsonProp ''at'' v)) of
            (True, Some d) \<Rightarrow>
              if jsonProp ''phase'' v = Some (JStr ''coverage'')
              then if isSha256 (propText ''keyBinding'' v) then Inr (Coverage d (propText ''keyBinding'' v))
                   else Inl (BadKeyBinding n)
              else if jsonProp ''phase'' v = Some (JStr ''requested'')
              then if isReceipt (propText ''receiptId'' v) \<and> isSha256 (propText ''subjectDigest'' v)
                   then Inr (Requested \<lparr>reqReceipt = propText ''receiptId'' v, reqDigest = propText ''subjectDigest'' v, reqAt = d\<rparr>)
                   else Inl (BadRequest n)
              else if jsonProp ''phase'' v = Some (JStr ''completed'') \<and> isReceipt (propText ''receiptId'' v)
              then Inr (Completed \<lparr>cmpReceipt = propText ''receiptId'' v, cmpAt = d\<rparr>)
              else Inl (BadPhase n)
          | _ \<Rightarrow> Inl (BadRecord n)))"

fun recordJson :: "ErasureRecord \<Rightarrow> json" where
  "recordJson (Coverage d b) =
     JObj [(''version'', JNum ''2''), (''phase'', JStr ''coverage''), (''at'', JStr d), (''keyBinding'', JStr b)]"
| "recordJson (Requested r) =
     JObj [(''version'', JNum ''2''), (''phase'', JStr ''requested''), (''receiptId'', JStr (reqReceipt r)),
           (''subjectDigest'', JStr (reqDigest r)), (''at'', JStr (reqAt r))]"
| "recordJson (Completed r) =
     JObj [(''version'', JNum ''2''), (''phase'', JStr ''completed''), (''receiptId'', JStr (cmpReceipt r)), (''at'', JStr (cmpAt r))]"

section \<open>Keys\<close>

definition goodKey :: "string \<Rightarrow> bool" where
  "goodKey key \<longleftrightarrow> length key = 32"

definition coverageKeyBinding :: "JournalHost \<Rightarrow> string \<Rightarrow> string \<Rightarrow> string" where
  "coverageKeyBinding host key d = hmac host key (''openmapx-erasure-journal-key-binding-v1'' @ [CHR 0x00] @ d)"

definition subjectDigest :: "JournalHost \<Rightarrow> string \<Rightarrow> string \<Rightarrow> JournalError + string" where
  "subjectDigest host key userId =
     (if \<not> goodKey key then Inl BadJournalKey
      else if userId = [] then Inl EmptySubject
      else Inr (hmac host key (''openmapx-user-erasure-v1'' @ [CHR 0x00] @ userId)))"

definition assertErasureJournalKey :: "JournalHost \<Rightarrow> ErasureJournal \<Rightarrow> string \<Rightarrow> JournalError + unit" where
  "assertErasureJournalKey host journal key =
     (if \<not> goodKey key then Inl BadJournalKey
      else if keyBinding journal \<noteq> coverageKeyBinding host key (isoOf host (coverageStartedAt journal)) then Inl KeyMismatch
      else Inr ())"

section \<open>Reading\<close>

definition lineSize :: "JournalHost \<Rightarrow> JournalLine \<Rightarrow> int" where
  "lineSize host l = (case l of Line j \<Rightarrow> lineBytes host j | Garbage n \<Rightarrow> n)"

definition journalSize :: "JournalHost \<Rightarrow> JournalFile \<Rightarrow> int" where
  "journalSize host f = sum_list (map (lineSize host) (jfLines f))"

definition protectedJournalParentUid :: "JournalDisk \<Rightarrow> JournalError + nat" where
  "protectedJournalParentUid d =
     (case jdParent d of
        None \<Rightarrow> Inl UnprotectedParent
      | Some (uid, mode) \<Rightarrow> if mode = 448 then Inr uid else Inl UnprotectedParent)"

definition readBoundedRegularFile ::
  "JournalHost \<Rightarrow> JournalFile option \<Rightarrow> int \<Rightarrow> nat \<Rightarrow> nat \<Rightarrow> JournalError + JournalLine list" where
  "readBoundedRegularFile host file maxBytes mode uid =
     (case file of
        None \<Rightarrow> Inl JournalMissing
      | Some f \<Rightarrow>
          if \<not> jfRegular f then Inl NotRegularFile
          else if jfLinks f \<noteq> 1 then Inl MoreLinks
          else if jfOwner f \<noteq> uid then Inl UnexpectedOwner
          else if jfMode f \<noteq> mode then Inl UnexpectedMode
          else if journalSize host f < 1 then Inl EmptyJournal
          else if journalSize host f > maxBytes then Inl JournalTooLarge
          else Inr (jfLines f))"

definition lineValue :: "nat \<times> JournalLine \<Rightarrow> JournalError + json" where
  "lineValue nl = (case nl of (n, Line j) \<Rightarrow> Inr j | (n, Garbage _) \<Rightarrow> Inl (BadJson n))"

definition isCoverage :: "ErasureRecord \<Rightarrow> bool" where
  "isCoverage r = (case r of Coverage _ _ \<Rightarrow> True | _ \<Rightarrow> False)"

definition requestsOf :: "ErasureRecord list \<Rightarrow> ErasureRequest list" where
  "requestsOf rs = List.map_filter (\<lambda>r. case r of Requested q \<Rightarrow> Some q | _ \<Rightarrow> None) rs"

definition completionsOf :: "ErasureRecord list \<Rightarrow> ErasureCompleted list" where
  "completionsOf rs = List.map_filter (\<lambda>r. case r of Completed c \<Rightarrow> Some c | _ \<Rightarrow> None) rs"

definition journalOf :: "JournalHost \<Rightarrow> string \<Rightarrow> ErasureRecord list \<Rightarrow> JournalError + ErasureJournal" where
  "journalOf host key rs =
     (case rs of
        Coverage d b # rest \<Rightarrow>
          if list_ex isCoverage rest then Inl NoCoverageMarker
          else if \<not> list_all (\<lambda>c. cmpReceipt c \<in> set (map reqReceipt (requestsOf rs))) (completionsOf rs)
          then Inl StrayCompletion
          else
            let journal = \<lparr>coverageStartedAt = the (parseDate host d), keyBinding = b, requests = requestsOf rs,
                  completedReceiptIds = fold setAdd (map cmpReceipt (completionsOf rs)) [],
                  completionRecords = completionsOf rs\<rparr>
            in onSuccess (assertErasureJournalKey host journal key) (\<lambda>_. Inr journal)
      | _ \<Rightarrow> Inl NoCoverageMarker)"

definition readErasureJournalUnlocked :: "JournalHost \<Rightarrow> string \<Rightarrow> JournalDisk \<Rightarrow> JournalError + ErasureJournal" where
  "readErasureJournalUnlocked host key d =
     (if \<not> goodKey key then Inl BadJournalKey
      else onSuccess (protectedJournalParentUid d) (\<lambda>uid.
           onSuccess (readBoundedRegularFile host (jdFile d) MAX_JOURNAL_BYTES 384 uid) (\<lambda>ls.
           onSuccess (allResults (map lineValue (zip [1..<Suc (length ls)] ls))) (\<lambda>vs.
           onSuccess (allResults (map (\<lambda>(n, v). parseErasureRecord host v n) (zip [1..<Suc (length vs)] vs))) (\<lambda>rs.
           journalOf host key rs)))))"

definition isErasedSubject :: "JournalHost \<Rightarrow> ErasureJournal \<Rightarrow> string \<Rightarrow> string \<Rightarrow> JournalError + bool" where
  "isErasedSubject host journal key userId =
     onSuccess (assertErasureJournalKey host journal key) (\<lambda>_.
     onSuccess (subjectDigest host key userId) (\<lambda>candidate.
     Inr (list_ex (\<lambda>q. reqDigest q = candidate) (requests journal))))"

section \<open>Writing\<close>

definition withJournalLock ::
  "JournalDisk \<Rightarrow> (JournalDisk \<Rightarrow> (JournalError + 'a) \<times> JournalDisk) \<Rightarrow> (JournalError + 'a) \<times> JournalDisk" where
  "withJournalLock d action =
     (if jdLocked d then (Inl JournalIsLocked, d)
      else case action (d\<lparr>jdLocked := True\<rparr>) of (r, d') \<Rightarrow> (r, d'\<lparr>jdLocked := False\<rparr>))"

definition appendRecordUnlocked :: "JournalHost \<Rightarrow> ErasureRecord \<Rightarrow> JournalDisk \<Rightarrow> (JournalError + unit) \<times> JournalDisk" where
  "appendRecordUnlocked host r d =
     (case protectedJournalParentUid d of
        Inl e \<Rightarrow> (Inl e, d)
      | Inr uid \<Rightarrow>
          let f = (case jdFile d of
                     Some f \<Rightarrow> f
                   | None \<Rightarrow> \<lparr>jfRegular = True, jfLinks = 1, jfOwner = processUid host, jfMode = 384, jfLines = []\<rparr>);
              opened = d\<lparr>jdFile := Some f\<rparr>
          in if \<not> jfRegular f \<or> jfLinks f \<noteq> 1 \<or> jfOwner f \<noteq> uid \<or> jfMode f \<noteq> 384 \<or> journalSize host f > MAX_JOURNAL_BYTES
             then (Inl NotBoundedFile, opened)
             else if journalSize host f + lineBytes host (recordJson r) > MAX_JOURNAL_BYTES then (Inl JournalFull, opened)
             else (Inr (), d\<lparr>jdFile := Some (f\<lparr>jfLines := jfLines f @ [Line (recordJson r)]\<rparr>)\<rparr>))"

definition coverageRecord :: "JournalHost \<Rightarrow> string \<Rightarrow> int \<Rightarrow> JournalError + ErasureRecord" where
  "coverageRecord host key now =
     (if \<not> validTime now then Inl BadDate
      else if \<not> goodKey key then Inl BadJournalKey
      else Inr (Coverage (isoOf host now) (coverageKeyBinding host key (isoOf host now))))"

definition initializeErasureJournal :: "JournalHost \<Rightarrow> string \<Rightarrow> int \<Rightarrow> JournalDisk \<Rightarrow> (JournalError + unit) \<times> JournalDisk" where
  "initializeErasureJournal host key now d =
     (if \<not> goodKey key then (Inl BadJournalKey, d)
      else withJournalLock d (\<lambda>d.
        if jdFile d \<noteq> None then (onSuccess (readErasureJournalUnlocked host key d) (\<lambda>_. Inr ()), d)
        else case coverageRecord host key now of
               Inl e \<Rightarrow> (Inl e, d)
             | Inr r \<Rightarrow> appendRecordUnlocked host r d))"

definition appendErasureRequest ::
  "JournalHost \<Rightarrow> string \<Rightarrow> string \<Rightarrow> string \<Rightarrow> int \<Rightarrow> JournalDisk \<Rightarrow> (JournalError + string) \<times> JournalDisk" where
  "appendErasureRequest host key userId receipt now d =
     (if \<not> goodKey key then (Inl BadJournalKey, d)
      else withJournalLock d (\<lambda>d.
        case onSuccess (readErasureJournalUnlocked host key d) (\<lambda>_. subjectDigest host key userId) of
          Inl e \<Rightarrow> (Inl e, d)
        | Inr hashed \<Rightarrow>
            if \<not> validTime now then (Inl BadDate, d)
            else
              (case appendRecordUnlocked host
                     (Requested \<lparr>reqReceipt = receipt, reqDigest = hashed, reqAt = isoOf host now\<rparr>) d of
                (Inl e, d') \<Rightarrow> (Inl e, d')
              | (Inr _, d') \<Rightarrow> (Inr receipt, d'))))"

definition appendErasureCompleted ::
  "JournalHost \<Rightarrow> string \<Rightarrow> string \<Rightarrow> int \<Rightarrow> JournalDisk \<Rightarrow> (JournalError + unit) \<times> JournalDisk" where
  "appendErasureCompleted host key receipt now d =
     (if \<not> goodKey key then (Inl BadJournalKey, d)
      else if \<not> isReceipt receipt then (Inl BadReceipt, d)
      else withJournalLock d (\<lambda>d.
        case readErasureJournalUnlocked host key d of
          Inl e \<Rightarrow> (Inl e, d)
        | Inr _ \<Rightarrow>
            if \<not> validTime now then (Inl BadDate, d)
            else appendRecordUnlocked host (Completed \<lparr>cmpReceipt = receipt, cmpAt = isoOf host now\<rparr>) d))"

definition readErasureJournal :: "JournalHost \<Rightarrow> string \<Rightarrow> JournalDisk \<Rightarrow> (JournalError + ErasureJournal) \<times> JournalDisk" where
  "readErasureJournal host key d = withJournalLock d (\<lambda>d. (readErasureJournalUnlocked host key d, d))"

text \<open>The records that stay: the new floor, the requests from the cutoff on, the completions of these.\<close>

definition compactedRecords ::
  "JournalHost \<Rightarrow> string \<Rightarrow> ErasureJournal \<Rightarrow> int \<Rightarrow> JournalError + ErasureRecord list" where
  "compactedRecords host key journal retainAfter =
     (let kept = filter (\<lambda>q. the (parseDate host (reqAt q)) \<ge> retainAfter) (requests journal);
          ids = map reqReceipt kept
      in onSuccess (coverageRecord host key (max (coverageStartedAt journal) retainAfter)) (\<lambda>coverage.
           Inr (coverage # map Requested kept @
                map Completed (filter (\<lambda>c. cmpReceipt c \<in> set ids) (completionRecords journal)))))"

definition compactErasureJournal :: "JournalHost \<Rightarrow> string \<Rightarrow> int \<Rightarrow> JournalDisk \<Rightarrow> (JournalError + unit) \<times> JournalDisk" where
  "compactErasureJournal host key retainAfter d =
     (if \<not> goodKey key then (Inl BadJournalKey, d)
      else if \<not> validTime retainAfter then (Inl BadDate, d)
      else withJournalLock d (\<lambda>d.
        case readErasureJournalUnlocked host key d of
          Inl e \<Rightarrow> (Inl e, d)
        | Inr journal \<Rightarrow>
            (case (compactedRecords host key journal retainAfter, jdFile d) of
               (Inr rs, Some f) \<Rightarrow>
                 (Inr (), d\<lparr>jdFile := Some \<lparr>jfRegular = True, jfLinks = 1, jfOwner = jfOwner f,
                            jfMode = jfMode f mod 512, jfLines = map (Line \<circ> recordJson) rs\<rparr>\<rparr>)
             | (Inl e, _) \<Rightarrow> (Inl e, d)
             | (_, None) \<Rightarrow> (Inl JournalMissing, d))))"

end
