(* ===== verification/Backup_Restore.thy ===== *)
theory Backup_Restore
  imports Erasure_Journal
begin

text \<open>
  What surrounds the erasure journal: the hooks of an account deletion (\<open>apps/api/src/services/user-erasure.ts\<close>), the expiry of
  backups (\<open>core/src/services/backup-retention.ts\<close>) and the restore of a backup (\<open>cli/src/commands/backup.ts\<close>).
  A restore acts on a world: the services that run, the users of each database, the journal and the outcomes of the
  external calls to come. A call that fails may have taken effect. Reading and checking the manifest and the
  archives, and what is in a dump, are fields of the host; \<open>rhTarUsers\<close>
  gives the account databases, by service, that a volume archive overwrites, with the users it brings back.
\<close>

section \<open>Hooks of a deletion\<close>

datatype HookError = RequestFailed JournalError | CleanupFailed

type_synonym PendingReceipts = "string \<Rightarrow> string option"

definition erasureBefore ::
  "JournalHost \<Rightarrow> string \<Rightarrow> string \<Rightarrow> string \<Rightarrow> int \<Rightarrow> bool \<Rightarrow> JournalDisk \<times> PendingReceipts \<Rightarrow>
   HookError option \<times> JournalDisk \<times> PendingReceipts" where
  "erasureBefore host key account receipt now cleanupOk st =
     (case st of (d, pending) \<Rightarrow>
        case appendErasureRequest host key account receipt now d of
          (Inl e, d') \<Rightarrow> (Some (RequestFailed e), d', pending)
        | (Inr receiptId, d') \<Rightarrow>
            let noted = pending(account \<mapsto> receiptId)
            in if cleanupOk then (None, d', noted) else (Some CleanupFailed, d', noted(account := None)))"

definition erasureAfter ::
  "JournalHost \<Rightarrow> string \<Rightarrow> string \<Rightarrow> int \<Rightarrow> JournalDisk \<times> PendingReceipts \<Rightarrow> JournalDisk \<times> PendingReceipts" where
  "erasureAfter host key account now st =
     (case st of (d, pending) \<Rightarrow>
        case pending account of
          None \<Rightarrow> (d, pending)
        | Some receiptId \<Rightarrow>
            if receiptId = [] then (d, pending)
            else (snd (appendErasureCompleted host key receiptId now d), pending(account := None)))"

section \<open>Manifests\<close>

datatype BackupVolumeMode = Tar | PgDump

record BackupVolumeEntry =
  bvName :: string
  bvResolvedName :: "string option"
  bvMode :: BackupVolumeMode
  bvFile :: string
  bvPostgresUser :: "string option"
  bvPostgresDb :: "string option"

record BackupServiceEntry =
  bsId :: string
  bsVolumes :: "BackupVolumeEntry list"

record BackupManifest =
  bmCreatedAt :: string
  bmExpiresAt :: "string option"
  bmVersion :: string
  bmServices :: "BackupServiceEntry list"

datatype RestoreError =
    InvalidBackupName
  | ManifestUnreadable
  | UnknownServices "string list"
  | PrivateVolume
  | VersionMismatch
  | RetentionDaysInvalid
  | CreationInvalid
  | ExpiryInvalid
  | RetentionExceeded
  | JournalProblem JournalError
  | PredatesCoverage
  | MustStop "string list"
  | ExternalFailed
  | ArchiveUnavailable
  | MissingCredentials
  | MissingVolumeName

definition dayMs :: int where
  "dayMs = 24 * 60 * 60 * 1000"

definition backupRetentionExpiry :: "JournalHost \<Rightarrow> string \<Rightarrow> int \<Rightarrow> string option \<Rightarrow> RestoreError + string" where
  "backupRetentionExpiry host createdAt retentionDays expiresAt =
     (if retentionDays < 1 \<or> retentionDays > 36500 then Inl RetentionDaysInvalid
      else case parseDate host createdAt of
        None \<Rightarrow> Inl CreationInvalid
      | Some created \<Rightarrow>
          let expiry = created + retentionDays * dayMs;
              limited = (case expiresAt of
                  None \<Rightarrow> Some expiry
                | Some s \<Rightarrow>
                    (case parseDate host s of
                       None \<Rightarrow> None
                     | Some stamped \<Rightarrow>
                         if stamped < created \<or> stamped > created + 36500 * dayMs then None else Some (min expiry stamped)))
          in case limited of
               None \<Rightarrow> Inl ExpiryInvalid
             | Some t \<Rightarrow> if validTime t then Inr (isoOf host t) else Inl ExpiryInvalid)"

definition containsOpenMapXDatabase :: "BackupManifest \<Rightarrow> bool" where
  "containsOpenMapXDatabase m =
     list_ex (\<lambda>s. list_ex (\<lambda>v. bvMode v = PgDump \<and> bvPostgresDb v = Some ''openmapx'') (bsVolumes s)) (bmServices m)"

definition PRIVATE_SUBJECT_EXPORT_VOLUME :: string where
  "PRIVATE_SUBJECT_EXPORT_VOLUME = ''openmapx-subject-exports''"

definition endsWith :: "string \<Rightarrow> string \<Rightarrow> bool" where
  "endsWith s suffix \<longleftrightarrow> length suffix \<le> length s \<and> drop (length s - length suffix) s = suffix"

definition noPrivateSubjectExport :: "BackupManifest \<Rightarrow> bool" where
  "noPrivateSubjectExport m \<longleftrightarrow>
     \<not> list_ex (\<lambda>v. bvMode v = Tar \<and>
           (bvName v = PRIVATE_SUBJECT_EXPORT_VOLUME \<or> bvResolvedName v = Some PRIVATE_SUBJECT_EXPORT_VOLUME \<or>
            (case bvResolvedName v of None \<Rightarrow> False | Some n \<Rightarrow> endsWith n (CHR ''_'' # PRIVATE_SUBJECT_EXPORT_VOLUME))))
         (concat (map bsVolumes (bmServices m)))"

definition requiredDependentStops :: "BackupManifest \<Rightarrow> string list \<Rightarrow> string list" where
  "requiredDependentStops m running =
     (if containsOpenMapXDatabase m \<and> ''app-api'' \<in> set running then [''app-api''] else [])"

definition filterManifestServices :: "BackupManifest \<Rightarrow> string list \<Rightarrow> RestoreError + BackupManifest" where
  "filterManifestServices m ids =
     (let missing = filter (\<lambda>i. i \<notin> set (map bsId (bmServices m))) ids
      in if missing \<noteq> [] then Inl (UnknownServices missing)
         else Inr (m\<lparr>bmServices := filter (\<lambda>s. bsId s \<in> set ids) (bmServices m)\<rparr>))"

definition nameHead :: "char \<Rightarrow> bool" where
  "nameHead c \<longleftrightarrow> isAlpha c \<or> isDigit c"

definition isValidBackupName :: "string \<Rightarrow> bool" where
  "isValidBackupName name \<longleftrightarrow>
     (case name of
        [] \<Rightarrow> False
      | c # cs \<Rightarrow> nameHead c \<and> list_all (\<lambda>x. nameHead x \<or> x \<in> set ''._-'') cs)"

section \<open>The world\<close>

datatype Outcome = Works | Breaks bool

record RestoreWorld =
  rwRunning :: "string list"
  rwUsers :: "string \<times> string \<Rightarrow> string list"
  rwJournal :: JournalDisk
  rwOutcomes :: "Outcome list"

record RestoreHost =
  rhJournal :: JournalHost
  rhKeyFile :: "JournalError + string"
  rhRetentionDays :: int
  rhNow :: int
  rhNowIsolated :: int
  rhPlatformVersion :: string
  rhNumbers :: "string \<Rightarrow> int option list"
  rhManifest :: "string \<Rightarrow> BackupManifest option"
  rhArchiveOk :: "BackupVolumeEntry \<Rightarrow> bool"
  rhDump :: "string \<Rightarrow> string list"
  rhTarUsers :: "BackupVolumeEntry \<Rightarrow> (string \<times> string list) list"

text \<open>\<open>rhNumbers\<close> is \<open>version.split(".").map(Number)\<close>, which is never empty.\<close>

definition majorMismatch :: "RestoreHost \<Rightarrow> string \<Rightarrow> bool" where
  "majorMismatch host v =
     (case (hd (rhNumbers host v), hd (rhNumbers host (rhPlatformVersion host))) of
        (Some a, Some b) \<Rightarrow> a \<noteq> b
      | _ \<Rightarrow> False)"

definition external :: "(RestoreWorld \<Rightarrow> RestoreWorld) \<Rightarrow> RestoreWorld \<Rightarrow> bool \<times> RestoreWorld" where
  "external effect w =
     (case rwOutcomes w of
        [] \<Rightarrow> (True, effect w)
      | Works # os \<Rightarrow> (True, effect (w\<lparr>rwOutcomes := os\<rparr>))
      | Breaks took # os \<Rightarrow> (False, if took then effect (w\<lparr>rwOutcomes := os\<rparr>) else w\<lparr>rwOutcomes := os\<rparr>))"

definition dockerStop :: "string \<Rightarrow> RestoreWorld \<Rightarrow> bool \<times> RestoreWorld" where
  "dockerStop i = external (\<lambda>w. w\<lparr>rwRunning := removeAll i (rwRunning w)\<rparr>)"

definition dockerStart :: "string \<Rightarrow> RestoreWorld \<Rightarrow> bool \<times> RestoreWorld" where
  "dockerStart i = external (\<lambda>w. w\<lparr>rwRunning := setAdd i (rwRunning w)\<rparr>)"

definition setUsers :: "string \<times> string \<Rightarrow> string list \<Rightarrow> RestoreWorld \<Rightarrow> RestoreWorld" where
  "setUsers db us w = w\<lparr>rwUsers := (rwUsers w)(db := us)\<rparr>"

section \<open>A run\<close>

record RestoreRun =
  rrActive :: "string list"
  rrStopped :: "string list"
  rrStarted :: "string list"
  rrProtected :: "(string \<times> string) list"
  rrSafe :: bool
  rrWorld :: RestoreWorld

type_synonym restoring = "RestoreRun \<Rightarrow> RestoreError option \<times> RestoreRun"

definition andNext :: "restoring \<Rightarrow> restoring \<Rightarrow> restoring" where
  "andNext a b r = (case a r of (Some e, r') \<Rightarrow> (Some e, r') | (None, r') \<Rightarrow> b r')"

fun forEach :: "('x \<Rightarrow> restoring) \<Rightarrow> 'x list \<Rightarrow> restoring" where
  "forEach f [] r = (None, r)"
| "forEach f (x # xs) r = (case f x r of (Some e, r') \<Rightarrow> (Some e, r') | (None, r') \<Rightarrow> forEach f xs r')"

definition skip :: restoring where
  "skip r = (None, r)"

definition refuse :: "RestoreError \<Rightarrow> restoring" where
  "refuse e r = (Some e, r)"

definition change :: "(RestoreRun \<Rightarrow> RestoreRun) \<Rightarrow> restoring" where
  "change f r = (None, f r)"

definition call :: "(RestoreWorld \<Rightarrow> bool \<times> RestoreWorld) \<Rightarrow> restoring" where
  "call f r =
     (case f (rrWorld r) of (ok, w) \<Rightarrow> (if ok then None else Some ExternalFailed, r\<lparr>rrWorld := w\<rparr>))"

definition pgRestoreFromFile :: "RestoreHost \<Rightarrow> string \<Rightarrow> string \<Rightarrow> string \<Rightarrow> restoring" where
  "pgRestoreFromFile host service file db =
     andNext (call (external (setUsers (service, db) [])))
       (andNext (call (external id)) (call (external (setUsers (service, db) (rhDump host file)))))"

definition validateRestoreDataProtection ::
  "RestoreHost \<Rightarrow> BackupManifest \<Rightarrow> int \<Rightarrow> JournalDisk \<Rightarrow> RestoreError option \<times> JournalDisk" where
  "validateRestoreDataProtection host m now d =
     (if rhRetentionDays host \<le> 0 \<or> rhRetentionDays host > 36500 then (Some RetentionDaysInvalid, d)
      else case parseDate (rhJournal host) (bmCreatedAt m) of
        None \<Rightarrow> (Some CreationInvalid, d)
      | Some createdAt \<Rightarrow>
          (case backupRetentionExpiry (rhJournal host) (bmCreatedAt m) (rhRetentionDays host) (bmExpiresAt m) of
             Inl e \<Rightarrow> (Some e, d)
           | Inr expiry \<Rightarrow>
               if the (parseDate (rhJournal host) expiry) < now then (Some RetentionExceeded, d)
               else if \<not> containsOpenMapXDatabase m then (None, d)
               else
                 (case rhKeyFile host of
                    Inl e \<Rightarrow> (Some (JournalProblem e), d)
                  | Inr key \<Rightarrow>
                      (case readErasureJournal (rhJournal host) key d of
                         (Inl e, d') \<Rightarrow> (Some (JournalProblem e), d')
                       | (Inr journal, d') \<Rightarrow>
                           (case assertErasureJournalKey (rhJournal host) journal key of
                              Inl e \<Rightarrow> (Some (JournalProblem e), d')
                            | Inr _ \<Rightarrow>
                                if createdAt < coverageStartedAt journal then (Some PredatesCoverage, d') else (None, d'))))))"

definition validateIsolated :: "RestoreHost \<Rightarrow> BackupManifest \<Rightarrow> restoring" where
  "validateIsolated host m r =
     (case validateRestoreDataProtection host m (rhNowIsolated host) (rwJournal (rrWorld r)) of
        (e, d) \<Rightarrow> (e, r\<lparr>rrWorld := (rrWorld r)\<lparr>rwJournal := d\<rparr>\<rparr>))"

section \<open>Replaying the journal\<close>

definition replayUser :: "RestoreHost \<Rightarrow> ErasureJournal \<Rightarrow> string \<Rightarrow> string \<times> string \<Rightarrow> string \<Rightarrow> restoring" where
  "replayUser host journal key db u =
     (case isErasedSubject (rhJournal host) journal key u of
        Inl e \<Rightarrow> refuse (JournalProblem e)
      | Inr False \<Rightarrow> skip
      | Inr True \<Rightarrow> call (external (\<lambda>w. setUsers db (removeAll u (rwUsers w db)) w)))"

definition replayErasureRequests :: "RestoreHost \<Rightarrow> string \<times> string \<Rightarrow> restoring" where
  "replayErasureRequests host db r =
     (case rhKeyFile host of
        Inl e \<Rightarrow> refuse (JournalProblem e) r
      | Inr key \<Rightarrow>
          (case readErasureJournal (rhJournal host) key (rwJournal (rrWorld r)) of
             (Inl e, d) \<Rightarrow> refuse (JournalProblem e) (r\<lparr>rrWorld := (rrWorld r)\<lparr>rwJournal := d\<rparr>\<rparr>)
           | (Inr journal, d) \<Rightarrow>
               (case assertErasureJournalKey (rhJournal host) journal key of
                  Inl e \<Rightarrow> refuse (JournalProblem e) (r\<lparr>rrWorld := (rrWorld r)\<lparr>rwJournal := d\<rparr>\<rparr>)
                | Inr _ \<Rightarrow>
                    andNext (call (external id)) (\<lambda>r. forEach (replayUser host journal key db) (rwUsers (rrWorld r) db) r)
                      (r\<lparr>rrWorld := (rrWorld r)\<lparr>rwJournal := d\<rparr>\<rparr>))))"

section \<open>The restore\<close>

definition stopDependent :: "string \<Rightarrow> restoring" where
  "stopDependent i =
     andNext (call (dockerStop i)) (change (\<lambda>r. r\<lparr>rrActive := removeAll i (rrActive r), rrStopped := rrStopped r @ [i]\<rparr>))"

definition startForRestore :: "string list \<Rightarrow> string \<Rightarrow> restoring" where
  "startForRestore running i =
     (\<lambda>r. if i \<in> set (rrActive r) then skip r
          else andNext (call (dockerStart i))
                 (change (\<lambda>r. r\<lparr>rrActive := setAdd i (rrActive r),
                    rrStarted := if i \<in> set running then rrStarted r else setAdd i (rrStarted r)\<rparr>)) r)"

definition restorePgVolume :: "RestoreHost \<Rightarrow> string list \<Rightarrow> string \<Rightarrow> BackupVolumeEntry \<Rightarrow> restoring" where
  "restorePgVolume host running i v =
     (if \<not> rhArchiveOk host v then refuse ArchiveUnavailable
      else andNext (startForRestore running i)
        (case (bvPostgresUser v, bvPostgresDb v) of
           (Some pgUser, Some db) \<Rightarrow>
             if pgUser = [] \<or> db = [] then refuse MissingCredentials
             else andNext (change (\<lambda>r. if db = ''openmapx'' then r\<lparr>rrSafe := False\<rparr> else r))
               (andNext (pgRestoreFromFile host i (bvFile v) db)
                  (change (\<lambda>r. if db = ''openmapx'' then r\<lparr>rrProtected := rrProtected r @ [(i, db)]\<rparr> else r)))
         | _ \<Rightarrow> refuse MissingCredentials))"

definition stopForTar :: "string list \<Rightarrow> string \<Rightarrow> BackupVolumeEntry list \<Rightarrow> restoring" where
  "stopForTar running i tarVolumes =
     (\<lambda>r. if tarVolumes \<noteq> [] \<and> i \<in> set (rrActive r)
          then andNext (call (dockerStop i))
                 (change (\<lambda>r. r\<lparr>rrActive := removeAll i (rrActive r),
                    rrStopped := if i \<in> set running then rrStopped r @ [i] else rrStopped r\<rparr>)) r
          else skip r)"

text \<open>
  The container wipes the volume and unpacks the archive into it. It may fail before, between and after, so the two are
  calls of their own.
\<close>

definition overwriteAccounts :: "(string \<times> string list) list \<Rightarrow> RestoreWorld \<Rightarrow> RestoreWorld" where
  "overwriteAccounts dbs w = foldl (\<lambda>w db. setUsers (fst db, ''openmapx'') (snd db) w) w dbs"

definition tarRestoreFromFile :: "RestoreHost \<Rightarrow> BackupVolumeEntry \<Rightarrow> restoring" where
  "tarRestoreFromFile host v =
     andNext (call (external (overwriteAccounts (map (\<lambda>db. (fst db, [])) (rhTarUsers host v)))))
       (call (external (overwriteAccounts (rhTarUsers host v))))"

definition restoreTarVolume :: "RestoreHost \<Rightarrow> BackupVolumeEntry \<Rightarrow> restoring" where
  "restoreTarVolume host v =
     (if \<not> rhArchiveOk host v then refuse ArchiveUnavailable
      else case bvResolvedName v of
        None \<Rightarrow> refuse MissingVolumeName
      | Some n \<Rightarrow> if n = [] then refuse MissingVolumeName else tarRestoreFromFile host v)"

definition restoreService :: "RestoreHost \<Rightarrow> string list \<Rightarrow> BackupServiceEntry \<Rightarrow> restoring" where
  "restoreService host running s =
     (let pgVolumes = filter (\<lambda>v. bvMode v = PgDump) (bsVolumes s); tarVolumes = filter (\<lambda>v. bvMode v = Tar) (bsVolumes s)
      in andNext (forEach (restorePgVolume host running (bsId s)) pgVolumes)
           (andNext (stopForTar running (bsId s) tarVolumes) (forEach (restoreTarVolume host) tarVolumes)))"

definition replayTarget :: "RestoreHost \<Rightarrow> string \<times> string \<Rightarrow> restoring" where
  "replayTarget host db =
     andNext (\<lambda>r. if fst db \<in> set (rrActive r) then skip r
                  else andNext (call (dockerStart (fst db)))
                         (andNext (change (\<lambda>r. r\<lparr>rrActive := setAdd (fst db) (rrActive r)\<rparr>)) (call (external id))) r)
       (andNext (replayErasureRequests host db)
          (\<lambda>r. if fst db \<in> set (rrStarted r)
               then andNext (call (dockerStop (fst db))) (change (\<lambda>r. r\<lparr>rrActive := removeAll (fst db) (rrActive r)\<rparr>)) r
               else skip r))"

definition restartService :: "string \<Rightarrow> restoring" where
  "restartService i =
     (\<lambda>r. if i \<in> set (rrActive r) then skip r
          else andNext (call (dockerStart i)) (change (\<lambda>r. r\<lparr>rrActive := setAdd i (rrActive r)\<rparr>)) r)"

definition restoreSteps :: "RestoreHost \<Rightarrow> BackupManifest \<Rightarrow> string list \<Rightarrow> restoring" where
  "restoreSteps host m running =
     andNext (forEach stopDependent (requiredDependentStops m running))
       (andNext (validateIsolated host m)
          (andNext (forEach (restoreService host running) (bmServices m))
             (andNext (\<lambda>r. forEach (replayTarget host) (rrProtected r) r)
                (andNext (change (\<lambda>r. r\<lparr>rrSafe := True\<rparr>))
                   (\<lambda>r. forEach restartService (rev (rrStopped r)) r)))))"

text \<open>The best-effort restart after a failure; a start that fails is only logged.\<close>

definition restartAfterFailure :: "RestoreRun \<Rightarrow> RestoreWorld" where
  "restartAfterFailure r =
     foldl (\<lambda>w i. if i = ''app-api'' \<and> \<not> rrSafe r then w else snd (dockerStart i w)) (rrWorld r) (rev (rrStopped r))"

definition preflightRestore :: "RestoreHost \<Rightarrow> string \<Rightarrow> string list \<Rightarrow> RestoreError + BackupManifest" where
  "preflightRestore host name serviceIds =
     (if \<not> isValidBackupName name then Inl InvalidBackupName
      else case rhManifest host name of
        None \<Rightarrow> Inl ManifestUnreadable
      | Some full \<Rightarrow>
          onSuccess (if serviceIds \<noteq> [] then filterManifestServices full serviceIds else Inr full) (\<lambda>m.
            if \<not> noPrivateSubjectExport m then Inl PrivateVolume
            else if majorMismatch host (bmVersion m) then Inl VersionMismatch
            else Inr m))"

definition runningTarTargets :: "BackupManifest \<Rightarrow> string list \<Rightarrow> string list" where
  "runningTarTargets m running =
     filter (\<lambda>i. i \<in> set running) (map bsId (filter (\<lambda>s. list_ex (\<lambda>v. bvMode v = Tar) (bsVolumes s)) (bmServices m)))"

definition restoreBackup ::
  "RestoreHost \<Rightarrow> string \<Rightarrow> string list \<Rightarrow> bool \<Rightarrow> RestoreWorld \<Rightarrow> RestoreError option \<times> RestoreWorld" where
  "restoreBackup host name serviceIds stopRunning w =
     (case preflightRestore host name serviceIds of
        Inl e \<Rightarrow> (Some e, w)
      | Inr m \<Rightarrow>
          (case validateRestoreDataProtection host m (rhNow host) (rwJournal w) of
             (Some e, d) \<Rightarrow> (Some e, w\<lparr>rwJournal := d\<rparr>)
           | (None, d) \<Rightarrow>
               (case external id (w\<lparr>rwJournal := d\<rparr>) of
                  (False, w1) \<Rightarrow> (Some ExternalFailed, w1)
                | (True, w1) \<Rightarrow>
                    let running = rwRunning w1;
                        stops = remdups (runningTarTargets m running @ requiredDependentStops m running)
                    in if stops \<noteq> [] \<and> \<not> stopRunning then (Some (MustStop stops), w1)
                       else
                         (case restoreSteps host m running
                                 \<lparr>rrActive = running, rrStopped = [], rrStarted = [], rrProtected = [], rrSafe = True, rrWorld = w1\<rparr> of
                            (None, r) \<Rightarrow> (None, rrWorld r)
                          | (Some e, r) \<Rightarrow> (Some e, restartAfterFailure r)))))"

end
