(* ===== verification/Erasure_Invariants.thy ===== *)
theory Erasure_Invariants
  imports Erasure_Journal
begin

text \<open>
  What the journal keeps: records read back as they were written, the invariant of all runs on the requests it
  remembers, and what breaks it.
\<close>

section \<open>The documented behaviour of the host\<close>

text \<open>Dates round-trip where they have an ISO form, a digest has 64 hexadecimal digits, no line is empty.\<close>

definition journalHostOk :: "JournalHost \<Rightarrow> bool" where
  "journalHostOk host \<longleftrightarrow>
     (\<forall>t. validTime t \<longrightarrow> parseDate host (isoOf host t) = Some t) \<and>
     (\<forall>s t. parseDate host s = Some t \<longrightarrow> validTime t) \<and>
     (\<forall>k m. isSha256 (hmac host k m)) \<and> (\<forall>j. 0 < lineBytes host j)"

lemma host_iso: "journalHostOk host \<Longrightarrow> validTime t \<Longrightarrow> parseDate host (isoOf host t) = Some t"
  by (simp add: journalHostOk_def)

lemma host_valid: "journalHostOk host \<Longrightarrow> parseDate host s = Some t \<Longrightarrow> validTime t"
  by (simp add: journalHostOk_def)

lemma host_hmac: "journalHostOk host \<Longrightarrow> isSha256 (hmac host k m)"
  by (simp add: journalHostOk_def)

section \<open>Records round-trip\<close>

definition goodDate :: "JournalHost \<Rightarrow> string \<Rightarrow> bool" where
  "goodDate host s \<longleftrightarrow> (case parseDate host s of None \<Rightarrow> False | Some t \<Rightarrow> isoOf host t = s)"

fun goodRecord :: "JournalHost \<Rightarrow> ErasureRecord \<Rightarrow> bool" where
  "goodRecord host (Coverage d b) \<longleftrightarrow> goodDate host d \<and> isSha256 b"
| "goodRecord host (Requested q) \<longleftrightarrow> goodDate host (reqAt q) \<and> isReceipt (reqReceipt q) \<and> isSha256 (reqDigest q)"
| "goodRecord host (Completed c) \<longleftrightarrow> goodDate host (cmpAt c) \<and> isReceipt (cmpReceipt c)"

lemma isoDate_good: "isoDate host v = Some s \<longleftrightarrow> v = Some (JStr s) \<and> goodDate host s"
  by (auto simp: isoDate_def goodDate_def split: option.splits json.splits if_splits)

lemma isoDate_str: "isoDate host (Some (JStr s)) = (if goodDate host s then Some s else None)"
  by (auto simp: isoDate_def goodDate_def split: option.splits)

lemma goodDate_iso: "journalHostOk host \<Longrightarrow> validTime t \<Longrightarrow> goodDate host (isoOf host t)"
  by (simp add: goodDate_def host_iso)

lemma parse_recordJson: "goodRecord host r \<Longrightarrow> parseErasureRecord host (recordJson r) n = Inr r"
  by (cases r) (simp_all add: parseErasureRecord_def isoDate_str propText_def)

lemma parse_good:
  assumes "parseErasureRecord host v n = Inr r"
  shows "goodRecord host r"
  using assms by (cases v) (auto simp: parseErasureRecord_def isoDate_good split: option.splits bool.splits if_splits prod.splits)

lemma allResults_lines:
  "length ns = length xs \<Longrightarrow> allResults (map lineValue (zip ns (map (Line \<circ> f) xs))) = Inr (map f xs)"
  by (induction ns xs rule: list_induct2) (simp_all add: lineValue_def)

lemma allResults_records:
  "length ns = length rs \<Longrightarrow> list_all (goodRecord host) rs \<Longrightarrow>
   allResults (map (\<lambda>(n, v). parseErasureRecord host v n) (zip ns (map recordJson rs))) = Inr rs"
  by (induction ns rs rule: list_induct2) (simp_all add: parse_recordJson)

section \<open>What the disk holds\<close>

definition stored :: "JournalHost \<Rightarrow> JournalDisk \<Rightarrow> ErasureRecord list \<Rightarrow> bool" where
  "stored host d rs \<longleftrightarrow>
     (\<exists>f. jdFile d = Some f \<and> jfLines f = map (Line \<circ> recordJson) rs \<and> list_all (goodRecord host) rs)"

lemma stored_lock [simp]: "stored host (d\<lparr>jdLocked := b\<rparr>) rs = stored host d rs"
  by (simp add: stored_def)

lemma onSuccess_Inr: "onSuccess x k = Inr v \<longleftrightarrow> (\<exists>u. x = Inr u \<and> k u = Inr v)"
  by (cases x) auto

lemma onSuccess_Inl: "onSuccess x k = Inl e \<longleftrightarrow> x = Inl e \<or> (\<exists>u. x = Inr u \<and> k u = Inl e)"
  by (cases x) auto

lemma read_stored:
  assumes "stored host d rs" and "readErasureJournalUnlocked host key d = Inr j"
  shows "journalOf host key rs = Inr j"
proof -
  obtain f where f: "jdFile d = Some f" "jfLines f = map (Line \<circ> recordJson) rs" "list_all (goodRecord host) rs"
    using assms(1) by (auto simp: stored_def)
  obtain uid ls vs rs' where run: "readBoundedRegularFile host (jdFile d) MAX_JOURNAL_BYTES 384 uid = Inr ls"
    "allResults (map lineValue (zip [1..<Suc (length ls)] ls)) = Inr vs"
    "allResults (map (\<lambda>(n, v). parseErasureRecord host v n) (zip [1..<Suc (length vs)] vs)) = Inr rs'"
    "journalOf host key rs' = Inr j"
    using assms(2) by (auto simp: readErasureJournalUnlocked_def onSuccess_Inr simp del: upt_Suc One_nat_def split: if_splits)
  have ls: "ls = map (Line \<circ> recordJson) rs" using run(1) f by (auto simp: readBoundedRegularFile_def split: if_splits)
  have vs: "vs = map recordJson rs"
    using run(2) allResults_lines [of "[1..<Suc (length rs)]" rs recordJson] by (simp add: ls del: upt_Suc One_nat_def)
  have "rs' = rs"
    using run(3) allResults_records [OF _ f(3), of "[1..<Suc (length rs)]"] by (simp add: vs del: upt_Suc One_nat_def)
  with run(4) show ?thesis by simp
qed

definition coverageAt :: "JournalHost \<Rightarrow> string \<Rightarrow> int \<Rightarrow> ErasureRecord" where
  "coverageAt host key t = Coverage (isoOf host t) (coverageKeyBinding host key (isoOf host t))"

lemma requestsOf_simps [simp]:
  "requestsOf [] = []" "requestsOf (Coverage d b # rs) = requestsOf rs" "requestsOf (Completed c # rs) = requestsOf rs"
  "requestsOf (Requested q # rs) = q # requestsOf rs" "requestsOf (rs @ rs') = requestsOf rs @ requestsOf rs'"
  "requestsOf (map Requested qs) = qs" "requestsOf (map Completed cs) = []"
  by (simp_all add: requestsOf_def List.map_filter_def comp_def)

lemma completionsOf_simps [simp]:
  "completionsOf [] = []" "completionsOf (Coverage d b # rs) = completionsOf rs" "completionsOf (Completed c # rs) = c # completionsOf rs"
  "completionsOf (Requested q # rs) = completionsOf rs" "completionsOf (rs @ rs') = completionsOf rs @ completionsOf rs'"
  "completionsOf (map Requested qs) = []" "completionsOf (map Completed cs) = cs"
  by (simp_all add: completionsOf_def List.map_filter_def comp_def)

lemma good_coverageAt: "journalHostOk host \<Longrightarrow> validTime t \<Longrightarrow> goodRecord host (coverageAt host key t)"
  by (simp add: coverageAt_def goodDate_iso coverageKeyBinding_def host_hmac)

lemma coverageRecord_Inr: "coverageRecord host key t = Inr r \<longleftrightarrow> validTime t \<and> goodKey key \<and> r = coverageAt host key t"
  by (auto simp: coverageRecord_def coverageAt_def)

lemma journalOf_Inr:
  assumes "journalOf host key (coverageAt host key t # rest) = Inr j" and "journalHostOk host" and "validTime t"
  shows "coverageStartedAt j = t" "requests j = requestsOf rest" "completionRecords j = completionsOf rest"
    "assertErasureJournalKey host j key = Inr ()" "\<not> list_ex isCoverage rest"
  using assms(1) by (auto simp: journalOf_def coverageAt_def Let_def onSuccess_Inr host_iso [OF assms(2,3)] split: if_splits)

section \<open>The invariant\<close>

text \<open>
  The file holds a floor and after it a request for every logged request from the floor on; the log lists who was
  asked to be erased, and when.
\<close>

definition remembered :: "JournalHost \<Rightarrow> string \<Rightarrow> int \<Rightarrow> ErasureRecord list \<Rightarrow> (string \<times> int) list \<Rightarrow> bool" where
  "remembered host key base rest log \<longleftrightarrow>
     (\<forall>(u, t) \<in> set log. base \<le> t \<longrightarrow>
        (\<exists>q \<in> set (requestsOf rest). subjectDigest host key u = Inr (reqDigest q) \<and> parseDate host (reqAt q) = Some t))"

definition journalKeeps :: "JournalHost \<Rightarrow> string \<Rightarrow> JournalDisk \<Rightarrow> (string \<times> int) list \<Rightarrow> bool" where
  "journalKeeps host key d log \<longleftrightarrow>
     jdFile d = None \<and> log = [] \<or> stored host d [] \<and> log = [] \<or>
     (\<exists>base rest. validTime base \<and> stored host d (coverageAt host key base # rest) \<and> remembered host key base rest log)"

lemma remembers_lock [simp]: "journalKeeps host key (d\<lparr>jdLocked := b\<rparr>) log = journalKeeps host key d log"
  by (simp add: journalKeeps_def)

lemma remembers_file: "jdFile d' = jdFile d \<Longrightarrow> journalKeeps host key d' log = journalKeeps host key d log"
  by (simp add: journalKeeps_def stored_def)

lemma remembers_read:
  assumes "journalKeeps host key d log" and "readErasureJournalUnlocked host key d = Inr j"
  obtains base rest where "validTime base" "stored host d (coverageAt host key base # rest)" "remembered host key base rest log"
proof -
  have there: "jdFile d \<noteq> None" using assms(2)
    by (auto simp: readErasureJournalUnlocked_def onSuccess_Inr readBoundedRegularFile_def split: option.splits if_splits)
  have "\<not> stored host d []" using read_stored [OF _ assms(2), of "[]"] by (auto simp: journalOf_def)
  with assms(1) there that show thesis by (auto simp: journalKeeps_def)
qed

lemma append_file:
  assumes "appendRecordUnlocked host r d = (v, d')"
  shows "v \<noteq> Inr () \<Longrightarrow> jdFile d' = jdFile d \<or> jdFile d = None \<and> (\<exists>f. jdFile d' = Some f \<and> jfLines f = [])"
    "v = Inr () \<Longrightarrow> goodRecord host r \<Longrightarrow> jdFile d = None \<Longrightarrow> stored host d' [r]"
    "v = Inr () \<Longrightarrow> goodRecord host r \<Longrightarrow> stored host d rs \<Longrightarrow> stored host d' (rs @ [r])"
  using assms by (auto simp: appendRecordUnlocked_def stored_def Let_def split: sum.splits if_splits option.splits)

lemma append_fails:
  assumes "journalKeeps host key d log" and "appendRecordUnlocked host r d = (Inl e, d')"
  shows "journalKeeps host key d' log"
proof -
  have cases: "jdFile d' = jdFile d \<or> jdFile d = None \<and> (\<exists>f. jdFile d' = Some f \<and> jfLines f = [])"
    by (rule append_file(1) [OF assms(2)]) simp
  show ?thesis
  proof (cases "jdFile d' = jdFile d")
    case True
    from remembers_file [OF this] assms(1) show ?thesis by blast
  next
    case False
    with cases obtain f where f: "jdFile d = None" "jdFile d' = Some f" "jfLines f = []" by blast
    then have fresh: "jdFile d = None" "stored host d' []" by (simp_all add: stored_def)
    then have "\<not> stored host d rs" for rs by (simp add: stored_def)
    with assms(1) have "log = []" unfolding journalKeeps_def by blast
    with fresh(2) show ?thesis by (simp add: journalKeeps_def)
  qed
qed

lemma append_remembers:
  assumes "journalKeeps host key d log" and "readErasureJournalUnlocked host key d = Inr j"
    and "appendRecordUnlocked host r d = (v, d')" and "goodRecord host r"
  shows "journalKeeps host key d' log"
proof (cases v)
  case (Inl e)
  with append_fails [OF assms(1)] assms(3) show ?thesis by simp
next
  case (Inr u)
  obtain base rest where old: "validTime base" "stored host d (coverageAt host key base # rest)" "remembered host key base rest log"
    using remembers_read [OF assms(1,2)] .
  from append_file(3) [OF assms(3) _ assms(4) old(2)] Inr have "stored host d' (coverageAt host key base # rest @ [r])" by simp
  moreover have "remembered host key base (rest @ [r]) log" using old(3) by (fastforce simp: remembered_def)
  ultimately show ?thesis using old(1) by (auto simp: journalKeeps_def)
qed

lemma append_request_remembers:
  assumes "journalKeeps host key d log" and "readErasureJournalUnlocked host key d = Inr j"
    and "appendRecordUnlocked host (Requested q) d = (Inr (), d')" and "goodRecord host (Requested q)"
    and "subjectDigest host key u = Inr (reqDigest q)" and "parseDate host (reqAt q) = Some t"
  shows "journalKeeps host key d' ((u, t) # log)"
proof -
  obtain base rest where old: "validTime base" "stored host d (coverageAt host key base # rest)" "remembered host key base rest log"
    using remembers_read [OF assms(1,2)] .
  from append_file(3) [OF assms(3) _ assms(4) old(2)] have "stored host d' (coverageAt host key base # rest @ [Requested q])" by simp
  moreover have "remembered host key base (rest @ [Requested q]) ((u, t) # log)"
    using old(3) assms(5,6) by (fastforce simp: remembered_def)
  ultimately show ?thesis using old(1) by (auto simp: journalKeeps_def)
qed

lemma initialize_remembers:
  assumes "journalHostOk host" and "journalKeeps host key d log"
  shows "journalKeeps host key (snd (initializeErasureJournal host key now d)) log"
proof -
  have "journalKeeps host key d' log"
    if "coverageRecord host key now = Inr r" "appendRecordUnlocked host r (d\<lparr>jdLocked := True\<rparr>) = (v, d')" "jdFile d = None" for r v d'
  proof (cases v)
    case (Inl e)
    with append_fails [of host key "d\<lparr>jdLocked := True\<rparr>" log r e d'] assms(2) that show ?thesis by simp
  next
    case (Inr u)
    from that(1) have r: "r = coverageAt host key now" "validTime now" by (simp_all add: coverageRecord_Inr)
    with append_file(2) [OF that(2)] that(3) Inr good_coverageAt [OF assms(1)] have "stored host d' [coverageAt host key now]" by simp
    moreover have "log = []" using assms(2) that(3) by (auto simp: journalKeeps_def stored_def)
    ultimately show ?thesis using r(2) by (auto simp: journalKeeps_def remembered_def)
  qed
  then show ?thesis
    using assms(2) by (auto simp: initializeErasureJournal_def withJournalLock_def split: prod.splits sum.splits if_splits)
qed

lemma request_remembers:
  assumes "journalHostOk host" and "journalKeeps host key d log" and "isReceipt receipt"
    and "appendErasureRequest host key u receipt now d = (v, d')"
  shows "journalKeeps host key d' (case v of Inl _ \<Rightarrow> log | Inr _ \<Rightarrow> (u, now) # log)"
proof -
  let ?d = "d\<lparr>jdLocked := True\<rparr>"
  have old: "journalKeeps host key ?d log" using assms(2) by simp
  show ?thesis
  proof (cases "goodKey key \<and> \<not> jdLocked d \<and> validTime now")
    case True
    show ?thesis
    proof (cases "onSuccess (readErasureJournalUnlocked host key ?d) (\<lambda>_. subjectDigest host key u)")
      case (Inl e)
      with True assms(4) have "v = Inl e" "d' = d\<lparr>jdLocked := False\<rparr>" by (simp_all add: appendErasureRequest_def withJournalLock_def)
      with assms(2) show ?thesis by simp
    next
      case (Inr hashed)
      then obtain j where j: "readErasureJournalUnlocked host key ?d = Inr j" and hashed: "subjectDigest host key u = Inr hashed"
        by (auto simp: onSuccess_Inr)
      let ?q = "\<lparr>reqReceipt = receipt, reqDigest = hashed, reqAt = isoOf host now\<rparr>"
      obtain w d1 where append: "appendRecordUnlocked host (Requested ?q) ?d = (w, d1)" by fastforce
      have "isSha256 hashed" using hashed assms(1) by (auto simp: subjectDigest_def host_hmac split: if_splits)
      then have good: "goodRecord host (Requested ?q)" using True assms(1,3) by (simp add: goodDate_iso)
      show ?thesis
      proof (cases w)
        case (Inl e)
        with append_remembers [OF old j append good] True Inr append assms(4) show ?thesis
          by (auto simp: appendErasureRequest_def withJournalLock_def)
      next
        case (Inr _)
        with append have "appendRecordUnlocked host (Requested ?q) ?d = (Inr (), d1)" by simp
        from append_request_remembers [OF old j this good, of u now] hashed host_iso [OF assms(1)] True
        have "journalKeeps host key d1 ((u, now) # log)" by simp
        moreover have "v = Inr receipt" "d' = d1\<lparr>jdLocked := False\<rparr>"
          using True j hashed \<open>appendRecordUnlocked host (Requested ?q) ?d = (Inr (), d1)\<close> assms(4)
          by (auto simp: appendErasureRequest_def withJournalLock_def)
        ultimately show ?thesis by simp
      qed
    qed
  qed (use assms(2,4) in \<open>auto simp: appendErasureRequest_def withJournalLock_def split: sum.splits prod.splits if_splits\<close>)
qed

lemma complete_remembers:
  assumes "journalHostOk host" and "journalKeeps host key d log"
  shows "journalKeeps host key (snd (appendErasureCompleted host key receipt now d)) log"
proof -
  let ?d = "d\<lparr>jdLocked := True\<rparr>"
  have old: "journalKeeps host key ?d log" using assms(2) by simp
  have "journalKeeps host key d' log"
    if "readErasureJournalUnlocked host key ?d = Inr j" "isReceipt receipt" "validTime now"
      "appendRecordUnlocked host (Completed \<lparr>cmpReceipt = receipt, cmpAt = isoOf host now\<rparr>) ?d = (v, d')" for j v d'
    by (rule append_remembers [OF old that(1,4)]) (use that assms(1) in \<open>simp add: goodDate_iso\<close>)
  then show ?thesis
    using assms(2) by (auto simp: appendErasureCompleted_def withJournalLock_def split: prod.splits sum.splits if_splits)
qed

lemma good_requests: "list_all (goodRecord host) rs \<Longrightarrow> q \<in> set (requestsOf rs) \<Longrightarrow> goodRecord host (Requested q)"
  by (induction rs) (auto simp: requestsOf_def List.map_filter_def split: ErasureRecord.splits)

lemma good_completions: "list_all (goodRecord host) rs \<Longrightarrow> c \<in> set (completionsOf rs) \<Longrightarrow> goodRecord host (Completed c)"
  by (induction rs) (auto simp: completionsOf_def List.map_filter_def split: ErasureRecord.splits)

lemma compact_remembers:
  assumes "journalHostOk host" and "journalKeeps host key d log"
  shows "journalKeeps host key (snd (compactErasureJournal host key cutoff d)) log"
proof -
  let ?d = "d\<lparr>jdLocked := True\<rparr>"
  have "journalKeeps host key (?d\<lparr>jdFile := Some f\<rparr>) log"
    if read: "readErasureJournalUnlocked host key ?d = Inr j" and compacted: "compactedRecords host key j cutoff = Inr rs"
      and f: "jfLines f = map (Line \<circ> recordJson) rs" for j rs f
  proof -
    have "journalKeeps host key ?d log" using assms(2) by simp
    from remembers_read [OF this read] obtain base rest where
      old: "validTime base" "stored host ?d (coverageAt host key base # rest)" "remembered host key base rest log" .
    note j = journalOf_Inr [OF read_stored [OF old(2) read] assms(1) old(1)]
    let ?base = "max base cutoff"
    let ?kept = "filter (\<lambda>q. cutoff \<le> the (parseDate host (reqAt q))) (requestsOf rest)"
    let ?done = "filter (\<lambda>c. cmpReceipt c \<in> set (map reqReceipt ?kept)) (completionsOf rest)"
    from compacted have rs: "rs = coverageAt host key ?base # map Requested ?kept @ map Completed ?done" and valid: "validTime ?base"
      by (simp_all add: compactedRecords_def Let_def onSuccess_Inr coverageRecord_Inr j)
    have "list_all (goodRecord host) rest" using old(2) by (auto simp: stored_def)
    then have "list_all (goodRecord host) rs"
      using good_coverageAt [OF assms(1) valid] good_requests good_completions by (fastforce simp: rs list_all_iff)
    then have "stored host (?d\<lparr>jdFile := Some f\<rparr>) rs" using f by (simp add: stored_def)
    moreover have "remembered host key ?base (map Requested ?kept @ map Completed ?done) log"
      using old(3) unfolding remembered_def by fastforce
    ultimately show ?thesis unfolding rs using valid by (auto simp: journalKeeps_def)
  qed
  then have "journalKeeps host key (snd (case readErasureJournalUnlocked host key ?d of
          Inl e \<Rightarrow> (Inl e, ?d)
        | Inr journal \<Rightarrow>
            (case (compactedRecords host key journal cutoff, jdFile ?d) of
               (Inr rs, Some f) \<Rightarrow>
                 (Inr (), ?d\<lparr>jdFile := Some \<lparr>jfRegular = True, jfLinks = 1, jfOwner = jfOwner f,
                            jfMode = jfMode f mod 512, jfLines = map (Line \<circ> recordJson) rs\<rparr>\<rparr>)
             | (Inl e, _) \<Rightarrow> (Inl e, ?d)
             | (_, None) \<Rightarrow> (Inl JournalMissing, ?d)))) log"
    using assms(2) by (auto split: sum.splits option.splits)
  then show ?thesis
    using assms(2) by (auto simp: compactErasureJournal_def withJournalLock_def split: prod.splits)
qed

end
