(* ===== verification/Erasure_Properties.thy ===== *)
theory Erasure_Properties
  imports Erasure_Invariants
begin

text \<open>Runs of the erasure journal: what every run remembers, and how one record too many closes the journal for good.\<close>

section \<open>Runs\<close>

datatype JournalEvent = Initialise int | Request string string int | Complete string int | Compact int

type_synonym JournalRun = "JournalDisk \<times> (string \<times> int) list"

fun journalStep :: "JournalHost \<Rightarrow> string \<Rightarrow> JournalRun \<Rightarrow> JournalEvent \<Rightarrow> JournalRun" where
  "journalStep host key (d, log) (Initialise now) = (snd (initializeErasureJournal host key now d), log)"
| "journalStep host key (d, log) (Request u receipt now) =
     (case appendErasureRequest host key u receipt now d of
        (Inl _, d') \<Rightarrow> (d', log)
      | (Inr _, d') \<Rightarrow> (d', (u, now) # log))"
| "journalStep host key (d, log) (Complete receipt now) = (snd (appendErasureCompleted host key receipt now d), log)"
| "journalStep host key (d, log) (Compact cutoff) = (snd (compactErasureJournal host key cutoff d), log)"

text \<open>\<open>randomUUID\<close> makes the receipts.\<close>

definition uuidReceipts :: "JournalRun \<Rightarrow> JournalEvent \<Rightarrow> bool" where
  "uuidReceipts st e = (case e of Request _ receipt _ \<Rightarrow> isReceipt receipt | _ \<Rightarrow> True)"

interpretation journal: reducer "journalStep host key" "\<lambda>st e. journalHostOk host \<and> uuidReceipts st e"
  "\<lambda>st. journalKeeps host key (fst st) (snd st)" for host key
proof
  fix st e
  assume inv: "journalKeeps host key (fst st) (snd st)" and may: "journalHostOk host \<and> uuidReceipts st e"
  obtain d log where st: "st = (d, log)" by fastforce
  show "journalKeeps host key (fst (journalStep host key st e)) (snd (journalStep host key st e))"
  proof (cases e)
    case (Request u receipt now)
    obtain v d' where v: "appendErasureRequest host key u receipt now d = (v, d')" by fastforce
    from request_remembers [OF _ _ _ v, of log] inv may Request show ?thesis
      by (auto simp: st v uuidReceipts_def split: sum.splits)
  qed (use inv may initialize_remembers complete_remembers compact_remembers in \<open>auto simp: st\<close>)
qed

lemma read_unlocked: "fst (readErasureJournal host key d) = Inr j \<Longrightarrow> readErasureJournalUnlocked host key (d\<lparr>jdLocked := True\<rparr>) = Inr j"
  by (auto simp: readErasureJournal_def withJournalLock_def split: if_splits)

lemma read_lock [simp]: "readErasureJournalUnlocked host key (d\<lparr>jdLocked := b\<rparr>) = readErasureJournalUnlocked host key d"
  by (simp add: readErasureJournalUnlocked_def protectedJournalParentUid_def)

lemma remembers_erased:
  assumes "journalHostOk host" and "journalKeeps host key d log" and "readErasureJournalUnlocked host key d = Inr j"
    and "(u, t) \<in> set log" and "coverageStartedAt j \<le> t"
  shows "isErasedSubject host j key u = Inr True"
proof -
  obtain base rest where old: "validTime base" "stored host d (coverageAt host key base # rest)" "remembered host key base rest log"
    using remembers_read [OF assms(2,3)] .
  note j = journalOf_Inr [OF read_stored [OF old(2) assms(3)] assms(1) old(1)]
  from old(3) assms(4,5) obtain q where "q \<in> set (requestsOf rest)" "subjectDigest host key u = Inr (reqDigest q)"
    by (auto simp: remembered_def j(1))
  then show ?thesis by (auto simp: isErasedSubject_def j(2,4) list_ex_iff)
qed

lemma run_remembers:
  assumes "journalHostOk host" and "jdFile d0 = None" and "reaches (journalStep host key) uuidReceipts (d0, []) (d, log)"
  shows "journalKeeps host key d log"
proof -
  have "journalKeeps host key d0 []" using assms(2) by (simp add: journalKeeps_def)
  moreover have "reaches (journalStep host key) (\<lambda>st e. journalHostOk host \<and> uuidReceipts st e) (d0, []) (d, log)"
    using assms(1,3) by simp
  ultimately show ?thesis using journal.reaches_inv by fastforce
qed

text \<open>
  C21. The journal forgets no request that it says it covers: in every run of initialisations, requests, completions and
  compactions, a user whose erasure was requested at or after the coverage date of the journal is recognised.
\<close>

theorem requests_remembered:
  assumes "journalHostOk host" and "jdFile d0 = None" and "reaches (journalStep host key) uuidReceipts (d0, []) (d, log)"
    and "fst (readErasureJournal host key d) = Inr j" and "(u, t) \<in> set log" and "coverageStartedAt j \<le> t"
  shows "isErasedSubject host j key u = Inr True"
proof -
  have "journalKeeps host key d log" by (rule run_remembers [OF assms(1-3)])
  then show ?thesis
    using read_unlocked [OF assms(4)] assms(5,6) by (intro remembers_erased [OF assms(1)]) simp_all
qed

section \<open>A completion without its request\<close>

definition strayed :: "JournalHost \<Rightarrow> JournalDisk \<Rightarrow> bool" where
  "strayed host d \<longleftrightarrow>
     (\<exists>rs. stored host d rs \<and> \<not> list_all (\<lambda>c. cmpReceipt c \<in> set (map reqReceipt (requestsOf rs))) (completionsOf rs))"

lemma strayed_lock [simp]: "strayed host (d\<lparr>jdLocked := b\<rparr>) = strayed host d"
  by (simp add: strayed_def)

lemma strayed_read:
  assumes "strayed host d"
  obtains e where "readErasureJournalUnlocked host key d = Inl e"
proof (cases "readErasureJournalUnlocked host key d")
  case (Inr j)
  with assms read_stored obtain rs where "journalOf host key rs = Inr j"
    "\<not> list_all (\<lambda>c. cmpReceipt c \<in> set (map reqReceipt (requestsOf rs))) (completionsOf rs)"
    unfolding strayed_def by blast
  then show thesis by (auto simp: journalOf_def split: list.splits ErasureRecord.splits if_splits)
qed (use that in blast)

lemma strayed_file: "strayed host d \<Longrightarrow> jdFile d \<noteq> None"
  by (auto simp: strayed_def stored_def)

lemma strayed_step:
  assumes "strayed host d"
  shows "\<exists>d'. journalStep host key (d, log) e = (d', log) \<and> strayed host d'"
proof -
  obtain err where "readErasureJournalUnlocked host key d = Inl err" by (rule strayed_read [OF assms])
  then show ?thesis
    using assms strayed_file [OF assms]
    by (cases e) (auto simp: initializeErasureJournal_def appendErasureRequest_def appendErasureCompleted_def compactErasureJournal_def
        withJournalLock_def)
qed

lemma strayed_run: "reaches (journalStep host key) allowed (d, log) st \<Longrightarrow> strayed host d \<Longrightarrow> \<exists>d'. st = (d', log) \<and> strayed host d'"
proof (induction rule: reaches.induct)
  case (event s e)
  then obtain d1 where "s = (d1, log)" "strayed host d1" by blast
  with strayed_step show ?case by simp
qed simp

lemma completion_strays:
  assumes "journalHostOk host" and "journalKeeps host key d log" and "fst (readErasureJournal host key d) = Inr j"
    and "appendErasureCompleted host key receipt now d = (Inr (), d')" and "receipt \<notin> set (map reqReceipt (requests j))"
  shows "strayed host d'"
proof -
  let ?d = "d\<lparr>jdLocked := True\<rparr>"
  have read: "readErasureJournalUnlocked host key ?d = Inr j" using read_unlocked [OF assms(3)] by simp
  have "journalKeeps host key ?d log" using assms(2) by simp
  from remembers_read [OF this read] obtain base rest where old: "validTime base" "stored host ?d (coverageAt host key base # rest)" .
  note j = journalOf_Inr [OF read_stored [OF old(2) read] assms(1) old(1)]
  let ?c = "\<lparr>cmpReceipt = receipt, cmpAt = isoOf host now\<rparr>"
  obtain d1 where append: "appendRecordUnlocked host (Completed ?c) ?d = (Inr (), d1)" "d' = d1\<lparr>jdLocked := False\<rparr>"
    and good: "isReceipt receipt" "validTime now"
    using assms(4) read by (auto simp: appendErasureCompleted_def withJournalLock_def split: if_splits prod.splits)
  then have "stored host d1 ((coverageAt host key base # rest) @ [Completed ?c])"
    using append_file(3) [OF append(1) _ _ old(2)] assms(1) by (simp add: goodDate_iso)
  with assms(5) show ?thesis
    by (auto simp: strayed_def append(2) j(2) coverageAt_def intro!: exI [of _ "(coverageAt host key base # rest) @ [Completed ?c]"])
qed

text \<open>
  C39. Completing an erasure that the journal has no request for is not refused, and closes the journal for good:
  from then on no run reads it or records a request.
\<close>

theorem stray_completion_closes:
  assumes "journalHostOk host" and "jdFile d0 = None" and "reaches (journalStep host key) uuidReceipts (d0, []) (d, log)"
    and "fst (readErasureJournal host key d) = Inr j" and "receipt \<notin> set (map reqReceipt (requests j))"
    and "appendErasureCompleted host key receipt now d = (Inr (), d1)"
    and "reaches (journalStep host key) uuidReceipts (d1, log) (d2, log2)"
  shows "log2 = log \<and> isl (fst (readErasureJournal host key d2))"
proof -
  have "journalKeeps host key d log" by (rule run_remembers [OF assms(1-3)])
  from strayed_run [OF assms(7) completion_strays [OF assms(1) this assms(4,6,5)]]
  have closed: "log2 = log" "strayed host d2" by simp_all
  obtain e where "readErasureJournalUnlocked host key d2 = Inl e" by (rule strayed_read [OF closed(2)])
  with closed(1) show ?thesis by (simp add: readErasureJournal_def withJournalLock_def)
qed

section \<open>Witnesses\<close>

definition sampleParse :: "string \<Rightarrow> int" where
  "sampleParse s = (if take 1 s = ''-'' then - int (parseDigits (drop 1 s)) else int (parseDigits s))"

definition sampleJournalHost :: JournalHost where
  "sampleJournalHost =
     \<lparr>hmac = (\<lambda>key m. replicate 64 (digitChar (length m mod 10))),
      isoOf = showInt,
      parseDate = (\<lambda>s. if validTime (sampleParse s) then Some (sampleParse s) else None),
      lineBytes = (\<lambda>j. 200), processUid = 1000\<rparr>"

definition sampleKey :: string where
  "sampleKey = replicate 32 (CHR ''k'')"

definition sampleReceipt :: "string" where
  "sampleReceipt = ''6ee7f3f2-cde2-4ad8-8ebf-72dba5915b51''"

definition emptyDisk :: JournalDisk where
  "emptyDisk = \<lparr>jdParent = Some (1000, 448), jdFile = None, jdLocked = False\<rparr>"

lemma sample_host_ok: "journalHostOk sampleJournalHost"
proof -
  have round: "parseDate sampleJournalHost (isoOf sampleJournalHost t) = Some t" if "validTime t" for t
  proof (cases "t < 0")
    case False
    obtain c cs where digits: "showNat (nat t) = c # cs" by (cases "showNat (nat t)") auto
    then have "isDigit c" using showNat_digits [of "nat t"] by simp
    then have c: "c \<noteq> CHR ''-''" by (auto simp: isDigit_def)
    have "parseDigits (c # cs) = nat t" unfolding digits [symmetric] by simp
    with c have "sampleParse (c # cs) = int (nat t)" by (simp add: sampleParse_def)
    moreover have "showInt t = c # cs" using False digits by (simp add: showInt_def)
    ultimately show ?thesis using False that by (simp add: sampleJournalHost_def)
  qed (use that in \<open>simp add: sampleJournalHost_def showInt_def sampleParse_def\<close>)
  moreover have "validTime t" if "parseDate sampleJournalHost s = Some t" for s t
    using that by (auto simp: sampleJournalHost_def split: if_splits)
  moreover have "isSha256 (hmac sampleJournalHost k m)" for k m
  proof -
    have "isDigit (digitChar (length m mod 10))" by (rule isDigit_digitChar) simp
    then show ?thesis by (simp add: sampleJournalHost_def isSha256_def isLowerHex_def list_all_iff)
  qed
  moreover have "0 < lineBytes sampleJournalHost j" for j by (simp add: sampleJournalHost_def)
  ultimately show ?thesis unfolding journalHostOk_def by blast
qed

text \<open>The disk with a given list of records.\<close>

definition sampleDisk :: "ErasureRecord list \<Rightarrow> JournalDisk" where
  "sampleDisk rs = emptyDisk\<lparr>jdFile := Some \<lparr>jfRegular = True, jfLinks = 1, jfOwner = 1000, jfMode = 384,
     jfLines = map (Line \<circ> recordJson) rs\<rparr>\<rparr>"

definition sampleCoverage :: "int \<Rightarrow> ErasureRecord" where
  "sampleCoverage t = coverageAt sampleJournalHost sampleKey t"

definition sampleRequest :: ErasureRequest where
  "sampleRequest = \<lparr>reqReceipt = sampleReceipt, reqDigest = hmac sampleJournalHost sampleKey
     (''openmapx-user-erasure-v1'' @ [CHR 0x00] @ ''anna''), reqAt = ''5''\<rparr>"

lemma sample_bytes [simp]: "lineBytes sampleJournalHost j = 200"
  by (simp add: sampleJournalHost_def)

lemma processUid_sample [simp]: "processUid sampleJournalHost = 1000"
  by (simp add: sampleJournalHost_def)

lemma sample_size: "sum_list (map (lineSize sampleJournalHost \<circ> (Line \<circ> recordJson)) rs) = 200 * int (length rs)"
  by (induction rs) (simp_all add: lineSize_def)

lemma sample_read:
  assumes "list_all (goodRecord sampleJournalHost) rs" and "rs \<noteq> []" and "length rs < 1000"
  shows "readErasureJournalUnlocked sampleJournalHost sampleKey (sampleDisk rs) = journalOf sampleJournalHost sampleKey rs"
proof -
  have "1 \<le> length rs" using assms(2) by (cases rs) simp_all
  then have "readBoundedRegularFile sampleJournalHost (jdFile (sampleDisk rs)) MAX_JOURNAL_BYTES 384 1000 = Inr (map (Line \<circ> recordJson) rs)"
    using assms(3) by (simp add: readBoundedRegularFile_def sampleDisk_def journalSize_def sample_size MAX_JOURNAL_BYTES_def)
  moreover have "protectedJournalParentUid (sampleDisk rs) = Inr 1000"
    by (simp add: protectedJournalParentUid_def sampleDisk_def emptyDisk_def)
  moreover note allResults_lines [of "[1..<Suc (length rs)]" rs recordJson] allResults_records [OF _ assms(1), of "[1..<Suc (length rs)]"]
  ultimately show ?thesis
    by (simp add: readErasureJournalUnlocked_def sampleKey_def goodKey_def del: upt_Suc One_nat_def)
qed

lemma sample_append:
  assumes "length rs < 1000"
  shows "appendRecordUnlocked sampleJournalHost r (sampleDisk rs\<lparr>jdLocked := b\<rparr>) = (Inr (), sampleDisk (rs @ [r])\<lparr>jdLocked := b\<rparr>)"
proof -
  have "protectedJournalParentUid (sampleDisk rs\<lparr>jdLocked := b\<rparr>) = Inr 1000"
    by (simp add: protectedJournalParentUid_def sampleDisk_def emptyDisk_def)
  then show ?thesis
    using assms by (simp add: appendRecordUnlocked_def sampleDisk_def journalSize_def sample_size MAX_JOURNAL_BYTES_def Let_def)
qed

lemma sample_journalOf:
  assumes "rest = [] \<or> rest = [Requested sampleRequest]" and "validTime t"
  shows "journalOf sampleJournalHost sampleKey (sampleCoverage t # rest) =
    Inr \<lparr>coverageStartedAt = t, keyBinding = coverageKeyBinding sampleJournalHost sampleKey (isoOf sampleJournalHost t),
         requests = requestsOf rest, completedReceiptIds = [], completionRecords = []\<rparr>"
  using assms(1) by (auto simp: journalOf_def sampleCoverage_def coverageAt_def isCoverage_def Let_def assertErasureJournalKey_def
      host_iso [OF sample_host_ok assms(2)] sampleKey_def goodKey_def)

lemma sample_iso5: "isoOf sampleJournalHost 5 = ''5''"
  by code_simp

lemma sample_good:
  "goodRecord sampleJournalHost (sampleCoverage 0)" "goodRecord sampleJournalHost (sampleCoverage 3)"
  "goodRecord sampleJournalHost (Requested sampleRequest)"
proof -
  show "goodRecord sampleJournalHost (sampleCoverage 0)" "goodRecord sampleJournalHost (sampleCoverage 3)"
    unfolding sampleCoverage_def by (rule good_coverageAt [OF sample_host_ok]; simp add: validTime_def)+
  have "goodDate sampleJournalHost (isoOf sampleJournalHost 5)" by (rule goodDate_iso [OF sample_host_ok]) (simp add: validTime_def)
  moreover have "isReceipt sampleReceipt" by code_simp
  ultimately show "goodRecord sampleJournalHost (Requested sampleRequest)"
    by (simp add: sampleRequest_def host_hmac [OF sample_host_ok] sample_iso5)
qed

definition sampleEvents :: "JournalEvent list" where
  "sampleEvents = [Initialise 0, Request ''anna'' sampleReceipt 5, Compact 3]"

lemma sample_steps:
  "journalStep sampleJournalHost sampleKey (emptyDisk, []) (Initialise 0) = (sampleDisk [sampleCoverage 0], [])"
  "journalStep sampleJournalHost sampleKey (sampleDisk [sampleCoverage 0], []) (Request ''anna'' sampleReceipt 5) =
     (sampleDisk [sampleCoverage 0, Requested sampleRequest], [(''anna'', 5)])"
  "journalStep sampleJournalHost sampleKey (sampleDisk [sampleCoverage 0, Requested sampleRequest], [(''anna'', 5)]) (Compact 3) =
     (sampleDisk [sampleCoverage 3, Requested sampleRequest], [(''anna'', 5)])"
proof -
  have key: "goodKey sampleKey" by (simp add: sampleKey_def goodKey_def)
  have valid: "validTime 0" "validTime 3" "validTime 5" by (simp_all add: validTime_def)
  have unlock: "sampleDisk rs\<lparr>jdLocked := False\<rparr> = sampleDisk rs" "\<not> jdLocked (sampleDisk rs)" for rs
    by (simp_all add: sampleDisk_def emptyDisk_def)
  show "journalStep sampleJournalHost sampleKey (emptyDisk, []) (Initialise 0) = (sampleDisk [sampleCoverage 0], [])"
    using key valid(1)
    by (simp add: initializeErasureJournal_def withJournalLock_def coverageRecord_def appendRecordUnlocked_def protectedJournalParentUid_def
        sampleDisk_def emptyDisk_def sampleCoverage_def coverageAt_def journalSize_def MAX_JOURNAL_BYTES_def processUid_sample)
  have same: "\<lparr>reqReceipt = sampleReceipt, reqDigest = reqDigest sampleRequest, reqAt = ''5''\<rparr> = sampleRequest"
    "reqAt sampleRequest = ''5''"
    by (simp_all add: sampleRequest_def)
  have "parseDate sampleJournalHost ''5'' = Some 5" using host_iso [OF sample_host_ok valid(3)] by (simp add: sample_iso5)
  note at_five = this [folded same(2)]
  have "subjectDigest sampleJournalHost sampleKey ''anna'' = Inr (reqDigest sampleRequest)"
    using key by (simp add: subjectDigest_def sampleRequest_def)
  then show "journalStep sampleJournalHost sampleKey (sampleDisk [sampleCoverage 0], []) (Request ''anna'' sampleReceipt 5) =
     (sampleDisk [sampleCoverage 0, Requested sampleRequest], [(''anna'', 5)])"
    using key valid sample_append [of "[sampleCoverage 0]" "Requested sampleRequest" True] sample_good
    by (simp add: appendErasureRequest_def withJournalLock_def unlock sample_read sample_journalOf sample_iso5 same)
  show "journalStep sampleJournalHost sampleKey (sampleDisk [sampleCoverage 0, Requested sampleRequest], [(''anna'', 5)]) (Compact 3) =
     (sampleDisk [sampleCoverage 3, Requested sampleRequest], [(''anna'', 5)])"
    using key valid sample_good
    by (simp add: at_five compactErasureJournal_def withJournalLock_def unlock sample_read sample_journalOf compactedRecords_def coverageRecord_def)
      (simp add: sampleDisk_def emptyDisk_def sampleCoverage_def coverageAt_def)
qed

lemma sample_run:
  "reaches (journalStep sampleJournalHost sampleKey) uuidReceipts (emptyDisk, [])
     (sampleDisk [sampleCoverage 3, Requested sampleRequest], [(''anna'', 5)])"
proof -
  have receipt: "isReceipt sampleReceipt" using sample_good(3) by (simp add: sampleRequest_def)
  show ?thesis
    unfolding sample_steps [symmetric]
    by (intro reaches.event reaches.here) (simp_all add: uuidReceipts_def receipt)
qed

lemma sample_final: "fst (readErasureJournal sampleJournalHost sampleKey (sampleDisk [sampleCoverage 3, Requested sampleRequest])) =
    journalOf sampleJournalHost sampleKey [sampleCoverage 3, Requested sampleRequest]"
  using sample_good by (simp add: readErasureJournal_def withJournalLock_def sample_read) (simp add: sampleDisk_def emptyDisk_def)

theorem requests_remembered_witness:
  "isErasedSubject sampleJournalHost (projr (journalOf sampleJournalHost sampleKey [sampleCoverage 3, Requested sampleRequest]))
     sampleKey ''anna'' = Inr True"
proof -
  have "validTime 3" by (simp add: validTime_def)
  from sample_journalOf [of "[Requested sampleRequest]", OF _ this] show ?thesis
    using requests_remembered [OF sample_host_ok _ sample_run, of _ "''anna''" 5] by (simp add: emptyDisk_def sample_final)
qed

theorem stray_completion_closes_witness:
  "isl (fst (readErasureJournal sampleJournalHost sampleKey
     (snd (appendErasureCompleted sampleJournalHost sampleKey ''00000000-0000-4000-8000-000000000000'' 6
        (sampleDisk [sampleCoverage 3, Requested sampleRequest])))))"
proof -
  let ?r = "''00000000-0000-4000-8000-000000000000''"
  let ?d = "sampleDisk [sampleCoverage 3, Requested sampleRequest]"
  have valid: "validTime 3" "validTime 6" by (simp_all add: validTime_def)
  have key: "goodKey sampleKey" by (simp add: sampleKey_def goodKey_def)
  have r: "isReceipt ?r" "?r \<noteq> reqReceipt sampleRequest" by code_simp+
  have unlocked: "\<not> jdLocked ?d" by (simp add: sampleDisk_def emptyDisk_def)
  note read = sample_journalOf [of "[Requested sampleRequest]", OF _ valid(1)]
  obtain d1 where d1: "appendErasureCompleted sampleJournalHost sampleKey ?r 6 ?d = (Inr (), d1)"
    using key r valid unlocked read sample_good sample_append [of "[sampleCoverage 3, Requested sampleRequest]" _ True]
    by (simp add: appendErasureCompleted_def withJournalLock_def sample_read)
  show ?thesis
    using stray_completion_closes [OF sample_host_ok _ sample_run _ _ d1 reaches.here, of _] read r(2)
    by (simp add: emptyDisk_def sample_final d1)
qed

end
