(* ===== verification/Backup_Restore_Properties.thy ===== *)
theory Backup_Restore_Properties
  imports Backup_Restore Erasure_Properties
begin

text \<open>
  What a restore guarantees: the API never runs over accounts that were restored and not cleared of the erased. The steps are
  reasoned about with triples: from \<open>P\<close> a step that succeeds ends in \<open>Q\<close> and one that fails in \<open>E\<close>.
\<close>

section \<open>Triples\<close>

definition triple :: "(RestoreRun \<Rightarrow> bool) \<Rightarrow> restoring \<Rightarrow> (RestoreRun \<Rightarrow> bool) \<Rightarrow> (RestoreRun \<Rightarrow> bool) \<Rightarrow> bool" where
  "triple P a Q E \<longleftrightarrow> (\<forall>r e r'. P r \<longrightarrow> a r = (e, r') \<longrightarrow> (if e = None then Q r' else E r'))"

lemma triple_andNext: "triple P a R E \<Longrightarrow> triple R b Q E \<Longrightarrow> triple P (andNext a b) Q E"
  unfolding triple_def andNext_def by (fastforce split: prod.splits option.splits)

lemma triple_seq: "triple P a P E \<Longrightarrow> triple P b P E \<Longrightarrow> triple P (andNext a b) P E"
  by (rule triple_andNext)

lemma triple_forEach:
  assumes "\<And>x xs. triple (P (x # xs)) (f x) (P xs) E"
  shows "triple (P xs) (forEach f xs) (P []) E"
proof (induction xs)
  case (Cons x xs)
  have "forEach f (x # xs) = andNext (f x) (forEach f xs)" by (rule ext) (simp add: andNext_def split: prod.splits option.splits)
  with triple_andNext [OF assms Cons] show ?case by simp
qed (simp add: triple_def)

lemma triple_unless: "triple P a Q E \<Longrightarrow> (\<And>r. P r \<Longrightarrow> Q r) \<Longrightarrow> triple P (\<lambda>r. if b r then skip r else a r) Q E"
  unfolding triple_def skip_def by auto

lemma triple_fun: "(\<And>x. triple P (f x) Q E) \<Longrightarrow> triple P (\<lambda>r. f (g r) r) Q E"
  unfolding triple_def by blast

lemma triple_given: "(\<And>x. triple (P x) (f x) Q E) \<Longrightarrow> triple (\<lambda>r. P (g r) r) (\<lambda>r. f (g r) r) Q E"
  unfolding triple_def by blast

lemma triple_each:
  assumes "\<And>x. x \<in> set xs \<Longrightarrow> triple P (f x) P E"
  shows "triple P (forEach f xs) P E"
  using assms
proof (induction xs)
  case (Cons x xs)
  have "forEach f (x # xs) = andNext (f x) (forEach f xs)" by (rule ext) (simp add: andNext_def split: prod.splits option.splits)
  with triple_andNext [of P "f x" P E "forEach f xs" P] Cons show ?case by simp
qed (simp add: triple_def)

lemma triple_skip: "triple P skip P E"
  by (simp add: triple_def skip_def)

lemma triple_refuse: "(\<And>r. P r \<Longrightarrow> E r) \<Longrightarrow> triple P (refuse e) Q E"
  by (simp add: triple_def refuse_def)

lemma triple_change: "(\<And>r. P r \<Longrightarrow> Q (f r)) \<Longrightarrow> triple P (change f) Q E"
  by (simp add: triple_def change_def)

lemma triple_conseq: "triple P a Q E \<Longrightarrow> (\<And>r. P' r \<Longrightarrow> P r) \<Longrightarrow> (\<And>r. Q r \<Longrightarrow> Q' r) \<Longrightarrow> triple P' a Q' E"
  unfolding triple_def by meson

text \<open>An external call: whatever becomes of it, the outcomes are all that differs besides its effect.\<close>

lemma triple_external:
  assumes "\<And>r os. P r \<Longrightarrow> P (r\<lparr>rrWorld := (rrWorld r)\<lparr>rwOutcomes := os\<rparr>\<rparr>)"
    and "\<And>r. P r \<Longrightarrow> Q (r\<lparr>rrWorld := effect (rrWorld r)\<rparr>)"
    and "\<And>r. P r \<Longrightarrow> E r" and "\<And>r. Q r \<Longrightarrow> E r"
  shows "triple P (call (external effect)) Q E"
proof -
  have "if e = None then Q r' else E r'" if r: "P r" and run: "call (external effect) r = (e, r')" for r e r'
  proof (cases "rwOutcomes (rrWorld r)")
    case Nil
    with r run assms(2) [of r] show ?thesis by (auto simp: call_def external_def)
  next
    case (Cons o1 os)
    let ?w = "(rrWorld r)\<lparr>rwOutcomes := os\<rparr>"
    have before: "P (r\<lparr>rrWorld := ?w\<rparr>)" using assms(1) r by blast
    have after: "Q (r\<lparr>rrWorld := effect ?w\<rparr>)" using assms(2) [OF before] by simp
    show ?thesis using Cons run before after assms(3,4) by (cases o1) (auto simp: call_def external_def split: if_splits)
  qed
  then show ?thesis unfolding triple_def by blast
qed

section \<open>The invariant of a restore\<close>

definition accountsOf :: "RestoreRun \<Rightarrow> string \<Rightarrow> string list" where
  "accountsOf r service = rwUsers (rrWorld r) (service, ''openmapx'')"

text \<open>No user of the list is known to the journal.\<close>

definition cleared :: "RestoreHost \<Rightarrow> JournalDisk \<Rightarrow> string list \<Rightarrow> bool" where
  "cleared host d us \<longleftrightarrow>
     (\<exists>key j. rhKeyFile host = Inr key \<and> readErasureJournalUnlocked (rhJournal host) key d = Inr j \<and>
        (\<forall>u \<in> set us. isErasedSubject (rhJournal host) j key u = Inr False))"

text \<open>
  While the database of the accounts is being restored the API does not run; a database that differs from
  before is on the list of databases still to be cleared, or is cleared.
\<close>

definition isolated ::
  "RestoreHost \<Rightarrow> BackupManifest \<Rightarrow> RestoreWorld \<Rightarrow> (string \<times> string) list \<Rightarrow> RestoreRun \<Rightarrow> bool" where
  "isolated host m w todo r \<longleftrightarrow>
     rwJournal (rrWorld r) = rwJournal w \<and>
     (containsOpenMapXDatabase m \<longrightarrow> ''app-api'' \<notin> set (rwRunning (rrWorld r))) \<and>
     (rrSafe r \<longrightarrow> todo = [] \<and> (\<forall>s. accountsOf r s = rwUsers w (s, ''openmapx''))) \<and>
     (\<not> rrSafe r \<longrightarrow> containsOpenMapXDatabase m) \<and>
     (\<forall>db \<in> set todo. snd db = ''openmapx'' \<and> fst db \<noteq> ''app-api'') \<and>
     (\<forall>s. accountsOf r s \<noteq> rwUsers w (s, ''openmapx'') \<longrightarrow>
        (s, ''openmapx'') \<in> set todo \<or> cleared host (rwJournal w) (accountsOf r s))"

definition accountsSettled :: "RestoreHost \<Rightarrow> BackupManifest \<Rightarrow> RestoreWorld \<Rightarrow> RestoreWorld \<Rightarrow> bool" where
  "accountsSettled host m w w' \<longleftrightarrow>
     (\<forall>s. rwUsers w' (s, ''openmapx'') = rwUsers w (s, ''openmapx'') \<or>
          containsOpenMapXDatabase m \<and> cleared host (rwJournal w) (rwUsers w' (s, ''openmapx'')))"

definition failedSafe :: "RestoreHost \<Rightarrow> BackupManifest \<Rightarrow> RestoreWorld \<Rightarrow> RestoreRun \<Rightarrow> bool" where
  "failedSafe host m w r \<longleftrightarrow>
     (if rrSafe r then accountsSettled host m w (rrWorld r) else ''app-api'' \<notin> set (rwRunning (rrWorld r)))"

lemma isolated_safe: "isolated host m w todo r \<Longrightarrow> failedSafe host m w r"
  by (auto simp: isolated_def failedSafe_def accountsSettled_def accountsOf_def)

lemma isolated_outcomes [simp]:
  "isolated host m w todo (r\<lparr>rrWorld := (rrWorld r)\<lparr>rwOutcomes := os\<rparr>\<rparr>) = isolated host m w todo r"
  by (simp add: isolated_def accountsOf_def)

lemma isolated_fields [simp]:
  "isolated host m w todo (r\<lparr>rrActive := a\<rparr>) = isolated host m w todo r"
  "isolated host m w todo (r\<lparr>rrStopped := b\<rparr>) = isolated host m w todo r"
  "isolated host m w todo (r\<lparr>rrStarted := c\<rparr>) = isolated host m w todo r"
  "isolated host m w todo (r\<lparr>rrProtected := p\<rparr>) = isolated host m w todo r"
  by (simp_all add: isolated_def accountsOf_def)

lemma isolated_call:
  assumes "\<And>r. isolated host m w todo r \<Longrightarrow> isolated host m w todo (r\<lparr>rrWorld := effect (rrWorld r)\<rparr>)"
  shows "triple (isolated host m w todo) (call (external effect)) (isolated host m w todo) (failedSafe host m w)"
  by (rule triple_external) (auto intro: assms isolated_safe)

lemma isolated_stop: "triple (isolated host m w todo) (call (dockerStop i)) (isolated host m w todo) (failedSafe host m w)"
  unfolding dockerStop_def by (rule isolated_call) (auto simp: isolated_def accountsOf_def)

lemma isolated_start:
  "i \<noteq> ''app-api'' \<Longrightarrow> triple (isolated host m w todo) (call (dockerStart i)) (isolated host m w todo) (failedSafe host m w)"
  unfolding dockerStart_def by (rule isolated_call) (auto simp: isolated_def accountsOf_def)

lemma isolated_query: "triple (isolated host m w todo) (call (external id)) (isolated host m w todo) (failedSafe host m w)"
  by (rule isolated_call) simp

text \<open>The database of the accounts may be changed while it is on the list.\<close>

lemma isolated_setUsers:
  "triple (\<lambda>r. isolated host m w todo r \<and> (d = ''openmapx'' \<longrightarrow> (s, d) \<in> set todo)) (call (external (setUsers (s, d) us)))
     (\<lambda>r. isolated host m w todo r \<and> (d = ''openmapx'' \<longrightarrow> (s, d) \<in> set todo)) (failedSafe host m w)"
  by (rule triple_external) (auto simp: isolated_safe, auto simp: isolated_def accountsOf_def setUsers_def)

lemma isolated_pgRestore:
  assumes "d = ''openmapx'' \<Longrightarrow> (s, d) \<in> set todo"
  shows "triple (isolated host m w todo) (pgRestoreFromFile host s file d) (isolated host m w todo) (failedSafe host m w)"
proof -
  have set: "triple (isolated host m w todo) (call (external (setUsers (s, d) us))) (isolated host m w todo) (failedSafe host m w)" for us
    using isolated_setUsers [of host m w todo d s us] assms by (simp add: triple_def)
  show ?thesis unfolding pgRestoreFromFile_def by (intro triple_seq set isolated_query)
qed

section \<open>The steps\<close>

text \<open>The accounts of the services \<open>D\<close> were restored from a dump and are on the list.\<close>

definition dumped :: "string list \<Rightarrow> (string \<times> string) list \<Rightarrow> bool" where
  "dumped D todo \<longleftrightarrow> (\<forall>d \<in> set D. (d, ''openmapx'') \<in> set todo)"

definition restoringInv :: "RestoreHost \<Rightarrow> BackupManifest \<Rightarrow> RestoreWorld \<Rightarrow> string list \<Rightarrow> RestoreRun \<Rightarrow> bool" where
  "restoringInv host m w D r \<longleftrightarrow> isolated host m w (rrProtected r) r \<and> dumped D (rrProtected r)"

lemma restoringInv_split:
  "(\<And>ps. dumped D ps \<Longrightarrow> triple (\<lambda>r. rrProtected r = ps \<and> isolated host m w ps r) a Q E) \<Longrightarrow>
     triple (restoringInv host m w D) a Q E"
  unfolding triple_def restoringInv_def by blast

lemma restoringInv_of:
  assumes "\<And>todo. dumped D todo \<Longrightarrow> triple (isolated host m w todo) a (isolated host m w todo) (failedSafe host m w)"
    and "\<And>r e r'. a r = (e, r') \<Longrightarrow> rrProtected r' = rrProtected r"
  shows "triple (restoringInv host m w D) a (restoringInv host m w D) (failedSafe host m w)"
  unfolding triple_def restoringInv_def
proof (intro allI impI)
  fix r e r'
  assume inv: "isolated host m w (rrProtected r) r \<and> dumped D (rrProtected r)" and run: "a r = (e, r')"
  then have "if e = None then isolated host m w (rrProtected r) r' else failedSafe host m w r'"
    using assms(1) [of "rrProtected r"] unfolding triple_def by blast
  with inv assms(2) [OF run]
  show "if e = None then isolated host m w (rrProtected r') r' \<and> dumped D (rrProtected r') else failedSafe host m w r'"
    by simp
qed

lemma protected_call: "call f r = (e, r') \<Longrightarrow> rrProtected r' = rrProtected r"
  by (auto simp: call_def split: prod.splits)

lemma protected_andNext:
  assumes "andNext a b r = (e, r')" and "\<And>r e r'. a r = (e, r') \<Longrightarrow> rrProtected r' = rrProtected r"
    and "\<And>r e r'. b r = (e, r') \<Longrightarrow> rrProtected r' = rrProtected r"
  shows "rrProtected r' = rrProtected r"
  using assms(1) by (auto simp: andNext_def split: prod.splits option.splits dest!: assms(2,3))

lemma start_isolated:
  assumes "i \<noteq> ''app-api''"
  shows "triple (restoringInv host m w D) (startForRestore running i) (restoringInv host m w D) (failedSafe host m w)"
proof -
  let ?go = "andNext (call (dockerStart i)) (change (\<lambda>r. r\<lparr>rrActive := setAdd i (rrActive r),
      rrStarted := if i \<in> set running then rrStarted r else setAdd i (rrStarted r)\<rparr>))"
  have "triple (restoringInv host m w D) ?go (restoringInv host m w D) (failedSafe host m w)"
  proof (rule restoringInv_of)
    show "triple (isolated host m w todo) ?go (isolated host m w todo) (failedSafe host m w)" for todo
      by (intro triple_seq isolated_start assms triple_change) simp
    show "rrProtected r' = rrProtected r" if "?go r = (e, r')" for r e r'
      using that by (rule protected_andNext) (auto simp: change_def protected_call)
  qed
  then show ?thesis by (auto simp: triple_def startForRestore_def skip_def)
qed

lemma stopForTar_isolated: "triple (restoringInv host m w D) (stopForTar running i vs) (restoringInv host m w D) (failedSafe host m w)"
proof -
  let ?go = "andNext (call (dockerStop i)) (change (\<lambda>r. r\<lparr>rrActive := removeAll i (rrActive r),
      rrStopped := if i \<in> set running then rrStopped r @ [i] else rrStopped r\<rparr>))"
  have "triple (restoringInv host m w D) ?go (restoringInv host m w D) (failedSafe host m w)"
  proof (rule restoringInv_of)
    show "triple (isolated host m w todo) ?go (isolated host m w todo) (failedSafe host m w)" for todo
      by (intro triple_seq isolated_stop triple_change) simp
    show "rrProtected r' = rrProtected r" if "?go r = (e, r')" for r e r'
      using that by (rule protected_andNext) (auto simp: change_def protected_call)
  qed
  then show ?thesis by (auto simp: triple_def stopForTar_def skip_def)
qed

lemma restoringInv_safe: "restoringInv host m w D r \<Longrightarrow> failedSafe host m w r"
  by (auto simp: restoringInv_def intro: isolated_safe)

text \<open>A service whose account database is among the dumps of the volumes.\<close>

definition withDump :: "string \<Rightarrow> BackupVolumeEntry list \<Rightarrow> string list \<Rightarrow> string list" where
  "withDump i vs D = (if list_ex (\<lambda>v. bvPostgresDb v = Some ''openmapx'') vs then i # D else D)"

lemma protected_pgRestore: "pgRestoreFromFile host i path db r = (e, r') \<Longrightarrow> rrProtected r' = rrProtected r"
  unfolding pgRestoreFromFile_def by (rule protected_andNext) (auto simp: protected_call dest!: protected_andNext)

lemma protected_tarRestore: "tarRestoreFromFile host v r = (e, r') \<Longrightarrow> rrProtected r' = rrProtected r"
  unfolding tarRestoreFromFile_def by (rule protected_andNext) (auto simp: protected_call)

lemma accountsDump_isolated:
  assumes "i \<noteq> ''app-api''" and "containsOpenMapXDatabase m"
  shows "triple (restoringInv host m w D)
    (andNext (change (\<lambda>r. r\<lparr>rrSafe := False\<rparr>))
       (andNext (pgRestoreFromFile host i path ''openmapx'') (change (\<lambda>r. r\<lparr>rrProtected := rrProtected r @ [(i, ''openmapx'')]\<rparr>))))
    (restoringInv host m w (i # D)) (failedSafe host m w)"
proof (rule restoringInv_split)
  fix ps
  assume D: "dumped D ps"
  let ?R = "\<lambda>r. rrProtected r = ps \<and> isolated host m w (ps @ [(i, ''openmapx'')]) r"
  have "triple (isolated host m w (ps @ [(i, ''openmapx'')])) (pgRestoreFromFile host i path ''openmapx'')
      (isolated host m w (ps @ [(i, ''openmapx'')])) (failedSafe host m w)" by (rule isolated_pgRestore) simp
  then have pg: "triple ?R (pgRestoreFromFile host i path ''openmapx'') ?R (failedSafe host m w)"
    using protected_pgRestore by (auto simp: triple_def)
  have "triple ?R (change (\<lambda>r. r\<lparr>rrProtected := rrProtected r @ [(i, ''openmapx'')]\<rparr>)) (restoringInv host m w (i # D)) (failedSafe host m w)"
    by (rule triple_change) (use D in \<open>auto simp: restoringInv_def dumped_def\<close>)
  with pg have rest: "triple ?R (andNext (pgRestoreFromFile host i path ''openmapx'')
      (change (\<lambda>r. r\<lparr>rrProtected := rrProtected r @ [(i, ''openmapx'')]\<rparr>))) (restoringInv host m w (i # D)) (failedSafe host m w)"
    by (rule triple_andNext)
  have "triple (\<lambda>r. rrProtected r = ps \<and> isolated host m w ps r) (change (\<lambda>r. r\<lparr>rrSafe := False\<rparr>)) ?R (failedSafe host m w)"
    by (rule triple_change) (use assms in \<open>auto simp: isolated_def accountsOf_def\<close>)
  from this rest show "triple (\<lambda>r. rrProtected r = ps \<and> isolated host m w ps r)
      (andNext (change (\<lambda>r. r\<lparr>rrSafe := False\<rparr>))
         (andNext (pgRestoreFromFile host i path ''openmapx'') (change (\<lambda>r. r\<lparr>rrProtected := rrProtected r @ [(i, ''openmapx'')]\<rparr>))))
      (restoringInv host m w (i # D)) (failedSafe host m w)"
    by (rule triple_andNext)
qed

lemma pgVolume_isolated:
  assumes "i \<noteq> ''app-api''" and "bvPostgresDb v = Some ''openmapx'' \<Longrightarrow> containsOpenMapXDatabase m"
  shows "triple (restoringInv host m w D) (restorePgVolume host running i v) (restoringInv host m w (withDump i [v] D)) (failedSafe host m w)"
proof -
  have body: "triple (restoringInv host m w D)
      (andNext (change (\<lambda>r. if db = ''openmapx'' then r\<lparr>rrSafe := False\<rparr> else r))
         (andNext (pgRestoreFromFile host i path db)
            (change (\<lambda>r. if db = ''openmapx'' then r\<lparr>rrProtected := rrProtected r @ [(i, db)]\<rparr> else r))))
      (restoringInv host m w (withDump i [v] D)) (failedSafe host m w)"
    if "bvPostgresDb v = Some db" for path db
  proof (cases "db = ''openmapx''")
    case True
    with that assms(2) have "containsOpenMapXDatabase m" by simp
    from accountsDump_isolated [OF assms(1) this] True that show ?thesis by (simp add: withDump_def)
  next
    case False
    have "triple (restoringInv host m w D) (pgRestoreFromFile host i path db) (restoringInv host m w D) (failedSafe host m w)"
      by (rule restoringInv_of [OF isolated_pgRestore protected_pgRestore]) (use False in simp_all)
    then show ?thesis using False that by (auto simp: withDump_def intro!: triple_seq triple_change)
  qed
  show ?thesis
    unfolding restorePgVolume_def
    by (auto split: option.split intro!: triple_andNext [OF start_isolated] assms(1) body triple_refuse restoringInv_safe)
qed

lemma forEach_Cons: "forEach f (x # xs) = andNext (f x) (forEach f xs)"
  by (rule ext) (simp add: andNext_def split: prod.splits option.splits)

lemma withDump_Cons: "set (withDump i (v # vs) D) = set (withDump i vs (withDump i [v] D))"
  by (simp add: withDump_def)

lemma restoringInv_set: "set D = set D' \<Longrightarrow> restoringInv host m w D = restoringInv host m w D'"
  by (simp add: restoringInv_def dumped_def fun_eq_iff)

lemma pgVolumes_isolated:
  assumes "i \<noteq> ''app-api''" and "\<And>v. v \<in> set vs \<Longrightarrow> bvPostgresDb v = Some ''openmapx'' \<Longrightarrow> containsOpenMapXDatabase m"
  shows "triple (restoringInv host m w D) (forEach (restorePgVolume host running i) vs) (restoringInv host m w (withDump i vs D))
    (failedSafe host m w)"
  using assms(2)
proof (induction vs arbitrary: D)
  case (Cons v vs)
  have head: "triple (restoringInv host m w D) (restorePgVolume host running i v) (restoringInv host m w (withDump i [v] D))
      (failedSafe host m w)"
    by (rule pgVolume_isolated [OF assms(1)]) (use Cons.prems [of v] in simp)
  have tail: "triple (restoringInv host m w (withDump i [v] D)) (forEach (restorePgVolume host running i) vs)
      (restoringInv host m w (withDump i vs (withDump i [v] D))) (failedSafe host m w)"
    by (rule Cons.IH) (auto intro: Cons.prems)
  show ?case
    unfolding forEach_Cons restoringInv_set [OF withDump_Cons] by (rule triple_andNext [OF head tail])
qed (simp add: triple_def withDump_def)

lemma setUsers_isolated:
  "isolated host m w todo r \<Longrightarrow> (s, ''openmapx'') \<in> set todo \<Longrightarrow>
     isolated host m w todo (r\<lparr>rrWorld := setUsers (s, ''openmapx'') us (rrWorld r)\<rparr>)"
  by (auto simp: isolated_def accountsOf_def setUsers_def)

lemma overwrite_isolated:
  assumes "isolated host m w todo r" and "\<And>db. db \<in> set dbs \<Longrightarrow> (fst db, ''openmapx'') \<in> set todo"
  shows "isolated host m w todo (r\<lparr>rrWorld := overwriteAccounts dbs (rrWorld r)\<rparr>)"
  using assms
proof (induction dbs arbitrary: r)
  case (Cons db dbs)
  have "isolated host m w todo (r\<lparr>rrWorld := setUsers (fst db, ''openmapx'') (snd db) (rrWorld r)\<rparr>)"
    by (rule setUsers_isolated) (use Cons.prems in simp_all)
  from Cons.IH [OF this] Cons.prems(2) show ?case by (simp add: overwriteAccounts_def)
qed (simp add: overwriteAccounts_def)

lemma tarVolume_isolated:
  assumes "list_all (\<lambda>db. fst db \<in> set D) (rhTarUsers host v)"
  shows "triple (restoringInv host m w D) (restoreTarVolume host v) (restoringInv host m w D) (failedSafe host m w)"
proof -
  have "triple (restoringInv host m w D) (tarRestoreFromFile host v) (restoringInv host m w D) (failedSafe host m w)"
  proof (rule restoringInv_of [OF _ protected_tarRestore])
    fix todo
    assume "dumped D todo"
    with assms have listed: "(fst db, ''openmapx'') \<in> set todo" if "db \<in> set (rhTarUsers host v)" for db
      using that by (auto simp: dumped_def list_all_iff)
    show "triple (isolated host m w todo) (tarRestoreFromFile host v) (isolated host m w todo) (failedSafe host m w)"
      unfolding tarRestoreFromFile_def
      by (intro triple_seq isolated_call overwrite_isolated) (auto dest: listed)
  qed simp
  then show ?thesis
    unfolding restoreTarVolume_def by (auto split: option.split intro!: triple_refuse restoringInv_safe)
qed

text \<open>The API itself has no database dump; for it no service would be started before its database is cleared.\<close>

definition apiWithoutDump :: "BackupManifest \<Rightarrow> bool" where
  "apiWithoutDump m = list_all (\<lambda>s. bsId s \<noteq> ''app-api'' \<or> list_all (\<lambda>v. bvMode v = Tar) (bsVolumes s)) (bmServices m)"

text \<open>
  The account databases that a volume archive overwrites were restored from a dump before, by the same service or an
  earlier one. Without a dump the restore would neither isolate the API nor replay the journal.
\<close>

definition dumpedBy :: "BackupServiceEntry \<Rightarrow> string list \<Rightarrow> string list" where
  "dumpedBy s D = withDump (bsId s) (filter (\<lambda>v. bvMode v = PgDump) (bsVolumes s)) D"

fun tarsCovered :: "RestoreHost \<Rightarrow> string list \<Rightarrow> BackupServiceEntry list \<Rightarrow> bool" where
  "tarsCovered host D [] \<longleftrightarrow> True"
| "tarsCovered host D (s # ss) \<longleftrightarrow>
     list_all (\<lambda>v. bvMode v = Tar \<longrightarrow> list_all (\<lambda>db. fst db \<in> set (dumpedBy s D)) (rhTarUsers host v)) (bsVolumes s) \<and>
     tarsCovered host (dumpedBy s D) ss"

definition archivesReplayed :: "RestoreHost \<Rightarrow> string \<Rightarrow> string list \<Rightarrow> bool" where
  "archivesReplayed host name serviceIds \<longleftrightarrow>
     (case preflightRestore host name serviceIds of Inl _ \<Rightarrow> True | Inr m \<Rightarrow> tarsCovered host [] (bmServices m))"

lemma service_isolated:
  assumes "apiWithoutDump m" and "s \<in> set (bmServices m)"
    and "list_all (\<lambda>v. bvMode v = Tar \<longrightarrow> list_all (\<lambda>db. fst db \<in> set (dumpedBy s D)) (rhTarUsers host v)) (bsVolumes s)"
  shows "triple (restoringInv host m w D) (restoreService host running s) (restoringInv host m w (dumpedBy s D)) (failedSafe host m w)"
proof -
  have pg: "triple (restoringInv host m w D) (forEach (restorePgVolume host running (bsId s)) (filter (\<lambda>v. bvMode v = PgDump) (bsVolumes s)))
      (restoringInv host m w (dumpedBy s D)) (failedSafe host m w)"
  proof (cases "filter (\<lambda>v. bvMode v = PgDump) (bsVolumes s) = []")
    case True
    then show ?thesis by (simp add: triple_def dumpedBy_def withDump_def)
  next
    case False
    have "bsId s \<noteq> ''app-api''" using assms(1,2) False by (force simp: apiWithoutDump_def list_all_iff filter_empty_conv)
    then show ?thesis
      unfolding dumpedBy_def
      by (rule pgVolumes_isolated) (use assms(2) in \<open>auto simp: containsOpenMapXDatabase_def list_ex_iff\<close>)
  qed
  have tars: "triple (restoringInv host m w (dumpedBy s D)) (forEach (restoreTarVolume host) (filter (\<lambda>v. bvMode v = Tar) (bsVolumes s)))
      (restoringInv host m w (dumpedBy s D)) (failedSafe host m w)"
    by (rule triple_each [OF tarVolume_isolated]) (use assms(3) in \<open>auto simp: list_all_iff\<close>)
  show ?thesis
    unfolding restoreService_def Let_def by (rule triple_andNext [OF pg triple_andNext [OF stopForTar_isolated tars]])
qed

lemma services_isolated:
  assumes "apiWithoutDump m" and "set ss \<subseteq> set (bmServices m)" and "tarsCovered host D ss"
  shows "triple (restoringInv host m w D) (forEach (restoreService host running) ss) (restoringInv host m w []) (failedSafe host m w)"
  using assms(2,3)
proof (induction ss arbitrary: D)
  case (Cons s ss)
  from Cons.prems have head: "triple (restoringInv host m w D) (restoreService host running s) (restoringInv host m w (dumpedBy s D))
      (failedSafe host m w)"
    by (intro service_isolated [OF assms(1)]) simp_all
  from Cons.IH [of "dumpedBy s D"] Cons.prems
  have tail: "triple (restoringInv host m w (dumpedBy s D)) (forEach (restoreService host running) ss) (restoringInv host m w [])
      (failedSafe host m w)" by simp
  from head tail show ?case unfolding forEach_Cons by (rule triple_andNext)
qed (simp add: triple_def restoringInv_def dumped_def)

lemma read_same: "snd (readErasureJournal host key d) = d"
  by (cases d) (simp add: readErasureJournal_def withJournalLock_def)

lemma read_eqD: "readErasureJournal host key d = (v, d') \<Longrightarrow> d' = d"
  using read_same [of host key d] by simp

lemma validate_same: "snd (validateRestoreDataProtection host m now d) = d"
  by (auto simp: validateRestoreDataProtection_def split: option.splits sum.splits prod.splits dest: read_eqD)

lemma validate_isolated:
  "triple (isolated host m w todo) (validateIsolated host m) (isolated host m w todo) (failedSafe host m w)"
proof -
  have "r' = r" if "validateIsolated host m r = (e, r')" for r e r'
  proof -
    obtain e1 d where v: "validateRestoreDataProtection host m (rhNowIsolated host) (rwJournal (rrWorld r)) = (e1, d)" by fastforce
    with validate_same [of host m "rhNowIsolated host" "rwJournal (rrWorld r)"] have "d = rwJournal (rrWorld r)" by simp
    with v that show ?thesis by (auto simp: validateIsolated_def)
  qed
  then show ?thesis using isolated_safe unfolding triple_def by fastforce
qed

definition untouched :: "RestoreWorld \<Rightarrow> RestoreRun \<Rightarrow> bool" where
  "untouched w r \<longleftrightarrow>
     rwJournal (rrWorld r) = rwJournal w \<and> rrSafe r \<and> rrProtected r = [] \<and> (\<forall>s. accountsOf r s = rwUsers w (s, ''openmapx''))"

lemma untouched_isolated:
  "untouched w r \<Longrightarrow> containsOpenMapXDatabase m \<longrightarrow> ''app-api'' \<notin> set (rwRunning (rrWorld r)) \<Longrightarrow> restoringInv host m w [] r"
  by (simp add: untouched_def restoringInv_def isolated_def dumped_def)

lemma untouched_safe: "untouched w r \<Longrightarrow> failedSafe host m w r"
  by (simp add: untouched_def failedSafe_def accountsSettled_def accountsOf_def)

lemma stop_api:
  "triple (untouched w) (stopDependent ''app-api'') (restoringInv host m w []) (failedSafe host m w)"
proof -
  let ?Q = "\<lambda>r. untouched w r \<and> ''app-api'' \<notin> set (rwRunning (rrWorld r))"
  have "triple (untouched w) (call (dockerStop ''app-api'')) ?Q (failedSafe host m w)"
    unfolding dockerStop_def
  proof (rule triple_external)
    show "untouched w r \<Longrightarrow> untouched w (r\<lparr>rrWorld := (rrWorld r)\<lparr>rwOutcomes := os\<rparr>\<rparr>)" for r os
      by (simp add: untouched_def accountsOf_def)
    show "untouched w r \<Longrightarrow> ?Q (r\<lparr>rrWorld := (rrWorld r)\<lparr>rwRunning := removeAll ''app-api'' (rwRunning (rrWorld r))\<rparr>\<rparr>)" for r
      by (simp add: untouched_def accountsOf_def)
  qed (auto intro: untouched_safe)
  then show ?thesis
    unfolding stopDependent_def
  proof (rule triple_andNext, intro triple_change)
    fix r
    assume "?Q r"
    then have "untouched w (r\<lparr>rrActive := removeAll ''app-api'' (rrActive r), rrStopped := rrStopped r @ [''app-api'']\<rparr>)"
      by (simp add: untouched_def accountsOf_def)
    with \<open>?Q r\<close> show "restoringInv host m w [] (r\<lparr>rrActive := removeAll ''app-api'' (rrActive r), rrStopped := rrStopped r @ [''app-api'']\<rparr>)"
      by (intro untouched_isolated) simp_all
  qed
qed

lemma deps_isolated:
  "triple (\<lambda>r. untouched w r \<and> rwRunning (rrWorld r) = running) (forEach stopDependent (requiredDependentStops m running))
     (restoringInv host m w []) (failedSafe host m w)"
proof (cases "containsOpenMapXDatabase m \<and> ''app-api'' \<in> set running")
  case True
  have "forEach stopDependent [''app-api''] = stopDependent ''app-api''"
    by (rule ext) (simp split: prod.splits option.splits)
  with True stop_api show ?thesis by (auto simp: requiredDependentStops_def triple_def)
next
  case False
  then show ?thesis by (auto simp: requiredDependentStops_def triple_def intro: untouched_isolated)
qed

section \<open>Replaying\<close>

definition clearing :: "RestoreHost \<Rightarrow> BackupManifest \<Rightarrow> RestoreWorld \<Rightarrow> (string \<times> string) list \<Rightarrow> ErasureJournal \<Rightarrow> string \<Rightarrow>
    string \<Rightarrow> string list \<Rightarrow> RestoreRun \<Rightarrow> bool" where
  "clearing host m w todo j key s us r \<longleftrightarrow>
     isolated host m w ((s, ''openmapx'') # todo) r \<and>
     (\<forall>u \<in> set (accountsOf r s). u \<in> set us \<or> isErasedSubject (rhJournal host) j key u = Inr False)"

lemma replayUser_clears:
  "triple (clearing host m w todo j key s (u # us)) (replayUser host j key (s, ''openmapx'') u) (clearing host m w todo j key s us)
     (failedSafe host m w)"
proof (cases "isErasedSubject (rhJournal host) j key u")
  case (Inl e)
  then show ?thesis by (simp add: replayUser_def) (rule triple_refuse, auto simp: clearing_def intro: isolated_safe)
next
  case (Inr erased)
  show ?thesis
  proof (cases erased)
    case True
    have "triple (clearing host m w todo j key s (u # us))
        (call (external (\<lambda>w. setUsers (s, ''openmapx'') (removeAll u (rwUsers w (s, ''openmapx''))) w)))
        (clearing host m w todo j key s us) (failedSafe host m w)"
      by (rule triple_external)
        (auto simp: clearing_def isolated_safe, auto simp: clearing_def isolated_def accountsOf_def setUsers_def)
    with Inr True show ?thesis by (simp add: replayUser_def)
  next
    case False
    with Inr show ?thesis by (auto simp: replayUser_def triple_def skip_def clearing_def)
  qed
qed

lemma cleared_done:
  assumes "clearing host m w todo j key s [] r" and "rhKeyFile host = Inr key"
    and "readErasureJournalUnlocked (rhJournal host) key (rwJournal w) = Inr j"
  shows "isolated host m w todo r"
proof -
  have "cleared host (rwJournal w) (accountsOf r s)" using assms by (auto simp: clearing_def cleared_def)
  with assms(1) show ?thesis by (auto simp: clearing_def isolated_def)
qed

lemma replay_isolated:
  "triple (isolated host m w ((s, ''openmapx'') # todo)) (replayErasureRequests host (s, ''openmapx'')) (isolated host m w todo)
     (failedSafe host m w)"
  unfolding triple_def
proof (intro allI impI)
  fix r e r'
  assume r: "isolated host m w ((s, ''openmapx'') # todo) r" and run: "replayErasureRequests host (s, ''openmapx'') r = (e, r')"
  have safe: "failedSafe host m w r" by (rule isolated_safe [OF r])
  show "if e = None then isolated host m w todo r' else failedSafe host m w r'"
  proof (cases "rhKeyFile host")
    case (Inl x)
    with run safe show ?thesis by (auto simp: replayErasureRequests_def refuse_def)
  next
    case key: (Inr key)
    obtain v where v: "readErasureJournal (rhJournal host) key (rwJournal (rrWorld r)) = (v, rwJournal (rrWorld r))"
      using read_same [of "rhJournal host" key "rwJournal (rrWorld r)"] by (metis prod.collapse)
    show ?thesis
    proof (cases v)
      case (Inl x)
      with key v run safe show ?thesis by (auto simp: replayErasureRequests_def refuse_def)
    next
      case (Inr j)
      have same: "rwJournal (rrWorld r) = rwJournal w" using r by (simp add: isolated_def)
      have read: "readErasureJournalUnlocked (rhJournal host) key (rwJournal w) = Inr j"
        using v Inr same read_unlocked [of "rhJournal host" key "rwJournal w" j] by simp
      let ?loop = "andNext (call (external id)) (\<lambda>r. forEach (replayUser host j key (s, ''openmapx'')) (accountsOf r s) r)"
      have "triple (\<lambda>r. accountsOf r s = us \<and> isolated host m w ((s, ''openmapx'') # todo) r)
          (forEach (replayUser host j key (s, ''openmapx'')) us) (isolated host m w todo) (failedSafe host m w)" for us
        by (rule triple_conseq [OF triple_forEach [where P = "clearing host m w todo j key s", OF replayUser_clears]])
          (auto simp: clearing_def intro: cleared_done [OF _ key read])
      then have "triple (isolated host m w ((s, ''openmapx'') # todo))
          (\<lambda>r. forEach (replayUser host j key (s, ''openmapx'')) (accountsOf r s) r) (isolated host m w todo) (failedSafe host m w)"
        by (simp add: triple_def)
      with isolated_query have loop: "triple (isolated host m w ((s, ''openmapx'') # todo)) ?loop (isolated host m w todo) (failedSafe host m w)"
        by (rule triple_andNext)
      show ?thesis
      proof (cases "assertErasureJournalKey (rhJournal host) j key")
        case bad: (Inl x)
        with key v Inr run safe show ?thesis by (auto simp: replayErasureRequests_def refuse_def)
      next
        case good: (Inr x)
        have "?loop r = (e, r')" using run key v Inr good by (simp add: replayErasureRequests_def accountsOf_def)
        with loop r show ?thesis unfolding triple_def by blast
      qed
    qed
  qed
qed

lemma target_isolated:
  "triple (isolated host m w (db # todo)) (replayTarget host db) (isolated host m w todo) (failedSafe host m w)"
proof (cases "snd db = ''openmapx'' \<and> fst db \<noteq> ''app-api''")
  case True
  obtain s where db: "db = (s, ''openmapx'')" "s \<noteq> ''app-api''" using True by (cases db) auto
  let ?start = "andNext (call (dockerStart s)) (andNext (change (\<lambda>r. r\<lparr>rrActive := setAdd s (rrActive r)\<rparr>)) (call (external id)))"
  have "triple (isolated host m w (db # todo)) ?start (isolated host m w (db # todo)) (failedSafe host m w)"
    by (intro triple_seq isolated_start db(2) isolated_query triple_change) simp
  then have start: "triple (isolated host m w (db # todo)) (\<lambda>r. if s \<in> set (rrActive r) then skip r else ?start r)
      (isolated host m w (db # todo)) (failedSafe host m w)"
    by (auto simp: triple_def skip_def)
  let ?stop = "andNext (call (dockerStop s)) (change (\<lambda>r. r\<lparr>rrActive := removeAll s (rrActive r)\<rparr>))"
  have "triple (isolated host m w todo) ?stop (isolated host m w todo) (failedSafe host m w)"
    by (intro triple_seq isolated_stop triple_change) simp
  then have stop: "triple (isolated host m w todo) (\<lambda>r. if s \<in> set (rrStarted r) then ?stop r else skip r)
      (isolated host m w todo) (failedSafe host m w)"
    by (auto simp: triple_def skip_def)
  show ?thesis
    unfolding replayTarget_def db fst_conv
    by (rule triple_andNext [OF start [unfolded db(1)] triple_andNext [OF replay_isolated stop]])
next
  case False
  then have "\<not> isolated host m w (db # todo) r" for r by (auto simp: isolated_def)
  then show ?thesis by (simp add: triple_def)
qed

section \<open>The whole restore\<close>

lemma validate_restoring: "triple (restoringInv host m w []) (validateIsolated host m) (restoringInv host m w []) (failedSafe host m w)"
proof (rule restoringInv_of [OF validate_isolated])
  show "rrProtected r' = rrProtected r" if "validateIsolated host m r = (e, r')" for r e r'
    using that by (auto simp: validateIsolated_def split: prod.splits)
qed

lemma replay_all:
  "triple (restoringInv host m w []) (\<lambda>r. forEach (replayTarget host) (rrProtected r) r) (isolated host m w []) (failedSafe host m w)"
  by (rule triple_conseq [OF triple_given [where P = "isolated host m w" and g = rrProtected, OF triple_forEach [OF target_isolated]]])
    (simp_all add: restoringInv_def)

lemma restart_settled:
  "triple (\<lambda>r. rrSafe r \<and> accountsSettled host m w (rrWorld r)) (restartService i) (\<lambda>r. rrSafe r \<and> accountsSettled host m w (rrWorld r)) (failedSafe host m w)"
proof -
  let ?P = "\<lambda>r. rrSafe r \<and> accountsSettled host m w (rrWorld r)"
  have "triple ?P (call (dockerStart i)) ?P (failedSafe host m w)"
    unfolding dockerStart_def by (rule triple_external) (auto simp: accountsSettled_def failedSafe_def)
  then have "triple ?P (andNext (call (dockerStart i)) (change (\<lambda>r. r\<lparr>rrActive := setAdd i (rrActive r)\<rparr>))) ?P (failedSafe host m w)"
    by (intro triple_seq triple_change) simp_all
  then show ?thesis unfolding restartService_def by (rule triple_unless) simp
qed

lemma steps_settled:
  assumes "apiWithoutDump m" and "tarsCovered host [] (bmServices m)"
  shows "triple (\<lambda>r. untouched w r \<and> rwRunning (rrWorld r) = running) (restoreSteps host m running)
    (\<lambda>r. accountsSettled host m w (rrWorld r)) (failedSafe host m w)"
proof -
  let ?P = "\<lambda>r. rrSafe r \<and> accountsSettled host m w (rrWorld r)"
  have "triple ?P (\<lambda>r. forEach restartService (rev (rrStopped r)) r) ?P (failedSafe host m w)"
    by (rule triple_fun [where g = "\<lambda>r. rev (rrStopped r)"], rule triple_each [OF restart_settled])
  then have restarts: "triple ?P (\<lambda>r. forEach restartService (rev (rrStopped r)) r) (\<lambda>r. accountsSettled host m w (rrWorld r)) (failedSafe host m w)"
    by (rule triple_conseq) simp_all
  have safe: "triple (isolated host m w []) (change (\<lambda>r. r\<lparr>rrSafe := True\<rparr>)) ?P (failedSafe host m w)"
    by (rule triple_change) (auto simp: isolated_def accountsSettled_def accountsOf_def)
  have "triple (restoringInv host m w []) (forEach (restoreService host running) (bmServices m)) (restoringInv host m w []) (failedSafe host m w)"
    by (rule services_isolated [OF assms(1) _ assms(2)]) simp
  then show ?thesis
    unfolding restoreSteps_def
    by (rule triple_andNext [OF deps_isolated triple_andNext [OF validate_restoring triple_andNext [OF _
          triple_andNext [OF replay_all triple_andNext [OF safe restarts]]]]])
qed

lemma dockerStart_world:
  "rwUsers (snd (dockerStart i w)) = rwUsers w" "set (rwRunning (snd (dockerStart i w))) \<subseteq> insert i (set (rwRunning w))"
  by (auto simp: dockerStart_def external_def split: list.splits Outcome.splits)

lemma failure_settled:
  assumes "failedSafe host m w r" and "''app-api'' \<in> set (rwRunning (restartAfterFailure r))"
  shows "accountsSettled host m w (restartAfterFailure r)"
proof (cases "rrSafe r")
  case True
  then have "accountsSettled host m w (rrWorld r)" using assms(1) by (simp add: failedSafe_def)
  then show ?thesis
    unfolding restartAfterFailure_def by (rule foldl_inv) (simp add: accountsSettled_def dockerStart_world)
next
  case False
  then have "''app-api'' \<notin> set (rwRunning (rrWorld r))" using assms(1) by (simp add: failedSafe_def)
  then have "''app-api'' \<notin> set (rwRunning (restartAfterFailure r))"
    unfolding restartAfterFailure_def
    by (rule foldl_inv) (use False dockerStart_world(2) in \<open>auto split: if_splits\<close>)
  with assms(2) show ?thesis by simp
qed

lemma preflight_manifest:
  assumes "preflightRestore host name serviceIds = Inr m"
  obtains full where "rhManifest host name = Some full" "bmCreatedAt m = bmCreatedAt full" "set (bmServices m) \<subseteq> set (bmServices full)"
  using assms
  by (auto simp: preflightRestore_def onSuccess_Inr filterManifestServices_def Let_def split: if_splits option.splits)

lemma restore_settled:
  assumes "restoreBackup host name serviceIds stopRunning w = (e, w')" and "rhManifest host name = Some full" and "apiWithoutDump full"
    and "archivesReplayed host name serviceIds" and "''app-api'' \<in> set (rwRunning w')" and "rwUsers w' (s, ''openmapx'') \<noteq> rwUsers w (s, ''openmapx'')"
  obtains m where "preflightRestore host name serviceIds = Inr m" "containsOpenMapXDatabase m"
    "fst (validateRestoreDataProtection host m (rhNow host) (rwJournal w)) = None"
    "cleared host (rwJournal w) (rwUsers w' (s, ''openmapx''))"
proof -
  obtain m where m: "preflightRestore host name serviceIds = Inr m"
    using assms(1,6) by (cases "preflightRestore host name serviceIds") (auto simp: restoreBackup_def)
  obtain full' where "rhManifest host name = Some full'" "set (bmServices m) \<subseteq> set (bmServices full')"
    using preflight_manifest [OF m] .
  then have api: "apiWithoutDump m" using assms(2,3) by (auto simp: apiWithoutDump_def list_all_iff)
  have tars: "tarsCovered host [] (bmServices m)" using assms(4) m by (simp add: archivesReplayed_def)
  obtain x where valid: "validateRestoreDataProtection host m (rhNow host) (rwJournal w) = (x, rwJournal w)"
    using validate_same [of host m "rhNow host" "rwJournal w"] by (metis prod.collapse)
  have x: "x = None" using assms(1,6) m valid by (cases x) (auto simp: restoreBackup_def)
  obtain ok w1 where w1: "external id w = (ok, w1)" by fastforce
  then have w1_same: "rwUsers w1 = rwUsers w" "rwJournal w1 = rwJournal w" "rwRunning w1 = rwRunning w"
    by (auto simp: external_def split: list.splits Outcome.splits if_splits)
  have ok using assms(1,6) m valid x w1 w1_same(1) by (cases ok) (auto simp: restoreBackup_def)
  let ?r = "\<lparr>rrActive = rwRunning w1, rrStopped = [], rrStarted = [], rrProtected = [], rrSafe = True, rrWorld = w1\<rparr>"
  obtain e2 r where run: "restoreSteps host m (rwRunning w1) ?r = (e2, r)" by fastforce
  have "untouched w ?r" using w1_same by (simp add: untouched_def accountsOf_def)
  with steps_settled [OF api tars, of w "rwRunning w1"] run
  have after: "if e2 = None then accountsSettled host m w (rrWorld r) else failedSafe host m w r" unfolding triple_def by fastforce
  have "w' = w1 \<or> w' = (if e2 = None then rrWorld r else restartAfterFailure r)"
    using assms(1) m valid x w1 \<open>ok\<close> run by (auto simp: restoreBackup_def Let_def split: if_splits option.splits)
  then have "accountsSettled host m w w'"
    using after assms(5,6) w1_same(1) failure_settled [of host m w r] by (auto split: if_splits)
  with that [OF m] assms(6) valid x show thesis by (auto simp: accountsSettled_def)
qed

text \<open>
  C20. Where the manifest gives the API no database dump and a volume archive overwrites only account databases
  that the same restore loaded from a dump before, a restore, whether it succeeds or fails at any step, leaves the API
  running only over account databases that it did not touch or from which every user known to the journal was
  removed. Both conditions are needed (\<open>api_dump_exposes\<close>, \<open>tar_without_dump_exposes\<close>).
\<close>

theorem restore_never_exposes:
  assumes "restoreBackup host name serviceIds stopRunning w = (e, w')" and "rhManifest host name = Some m" and "apiWithoutDump m"
    and "archivesReplayed host name serviceIds" and "''app-api'' \<in> set (rwRunning w')"
  shows "rwUsers w' (s, ''openmapx'') = rwUsers w (s, ''openmapx'') \<or> cleared host (rwJournal w) (rwUsers w' (s, ''openmapx''))"
  using restore_settled [OF assms] by blast

lemma validated_covers:
  assumes "fst (validateRestoreDataProtection host m now d) = None" and "containsOpenMapXDatabase m" and "rhKeyFile host = Inr key"
    and "parseDate (rhJournal host) (bmCreatedAt m) = Some created"
  obtains j where "fst (readErasureJournal (rhJournal host) key d) = Inr j" "coverageStartedAt j \<le> created"
  using assms by (auto simp: validateRestoreDataProtection_def split: option.splits sum.splits prod.splits if_splits)

text \<open>
  C19. Who was erased after a backup was made does not come back with it: over a journal kept by any run of
  requests, completions and compactions, a restore that changed the accounts and has the API running left no user in
  them whose erasure was requested after the backup was created. As in C20 the manifest gives the API no database
  dump, and a volume archive overwrites only account databases loaded from a dump before.
\<close>

theorem erased_stay_erased:
  assumes "journalHostOk (rhJournal host)" and "rhKeyFile host = Inr key" and "jdFile d0 = None"
    and "reaches (journalStep (rhJournal host) key) uuidReceipts (d0, []) (rwJournal w, log)"
    and "restoreBackup host name serviceIds stopRunning w = (e, w')" and "rhManifest host name = Some m" and "apiWithoutDump m"
    and "archivesReplayed host name serviceIds" and "''app-api'' \<in> set (rwRunning w')" and "rwUsers w' (s, ''openmapx'') \<noteq> rwUsers w (s, ''openmapx'')"
    and "parseDate (rhJournal host) (bmCreatedAt m) = Some created" and "(u, t) \<in> set log" and "created \<le> t"
  shows "u \<notin> set (rwUsers w' (s, ''openmapx''))"
proof
  assume u: "u \<in> set (rwUsers w' (s, ''openmapx''))"
  obtain m1 where m1: "preflightRestore host name serviceIds = Inr m1" "containsOpenMapXDatabase m1"
    "fst (validateRestoreDataProtection host m1 (rhNow host) (rwJournal w)) = None"
    "cleared host (rwJournal w) (rwUsers w' (s, ''openmapx''))"
    by (rule restore_settled [OF assms(5-10)])
  have "bmCreatedAt m1 = bmCreatedAt m" using preflight_manifest [OF m1(1)] assms(6) by (metis option.sel)
  with validated_covers [OF m1(3,2) assms(2)] assms(11) obtain j where
    j: "fst (readErasureJournal (rhJournal host) key (rwJournal w)) = Inr j" "coverageStartedAt j \<le> created" by metis
  have read: "readErasureJournalUnlocked (rhJournal host) key (rwJournal w) = Inr j" using read_unlocked [OF j(1)] by simp
  with m1(4) u assms(2) have "isErasedSubject (rhJournal host) j key u = Inr False" by (auto simp: cleared_def)
  moreover have "journalKeeps (rhJournal host) key (rwJournal w) log"
    by (rule run_remembers [OF assms(1,3,4)])
  then have "isErasedSubject (rhJournal host) j key u = Inr True"
    using remembers_erased [OF assms(1) _ read assms(12)] j(2) assms(13) by simp
  ultimately show False by simp
qed

section \<open>Deletions that fail\<close>

text \<open>
  C40. A deletion that fails after its request, and keeps the account, leaves the account marked: the next restore
  removes it.
\<close>

theorem kept_account_marked:
  assumes "journalHostOk host" and "jdFile d0 = None" and "reaches (journalStep host key) uuidReceipts (d0, []) (d, log)"
    and "isReceipt receipt" and "erasureBefore host key u receipt now False (d, pending) = (Some CleanupFailed, d', pending')"
    and "fst (readErasureJournal host key d') = Inr j" and "coverageStartedAt j \<le> now"
  shows "isErasedSubject host j key u = Inr True \<and> pending' u = None"
proof -
  obtain rid where request: "appendErasureRequest host key u receipt now d = (Inr rid, d')" and "pending' u = None"
    using assms(5) by (auto simp: erasureBefore_def Let_def split: prod.splits sum.splits)
  moreover have "journalKeeps host key d' ((u, now) # log)"
    using request_remembers [OF assms(1) run_remembers [OF assms(1-3)] assms(4) request] by simp
  then have "isErasedSubject host j key u = Inr True"
    using remembers_erased [OF assms(1) _ _ _ assms(7), of key d' "(u, now) # log" u] read_unlocked [OF assms(6)] by simp
  ultimately show ?thesis by simp
qed

section \<open>Witnesses\<close>

definition sampleManifest :: BackupManifest where
  "sampleManifest = \<lparr>bmCreatedAt = ''4'', bmExpiresAt = None, bmVersion = ''1.0.0'',
     bmServices = [\<lparr>bsId = ''postgis'', bsVolumes = [\<lparr>bvName = ''pgdata'', bvResolvedName = None, bvMode = PgDump, bvFile = ''dump'',
       bvPostgresUser = Some ''postgres'', bvPostgresDb = Some ''openmapx''\<rparr>,
       \<lparr>bvName = ''state'', bvResolvedName = Some ''openmapx_state'', bvMode = Tar, bvFile = ''state.tar.gz'', bvPostgresUser = None,
         bvPostgresDb = None\<rparr>]\<rparr>]\<rparr>"

definition sampleRestoreHost :: RestoreHost where
  "sampleRestoreHost = \<lparr>rhJournal = sampleJournalHost, rhKeyFile = Inr sampleKey, rhRetentionDays = 30, rhNow = 10, rhNowIsolated = 11,
     rhPlatformVersion = ''1.0.0'', rhNumbers = (\<lambda>_. [Some 1]), rhManifest = (\<lambda>_. Some sampleManifest), rhArchiveOk = (\<lambda>_. True),
     rhDump = (\<lambda>_. [''anna'', ''bob'']), rhTarUsers = (\<lambda>_. [(''postgis'', [''anna'', ''bob''])])\<rparr>"

definition sampleRecords :: "ErasureRecord list" where
  "sampleRecords = [sampleCoverage 3, Requested sampleRequest]"

definition sampleWorld :: RestoreWorld where
  "sampleWorld = \<lparr>rwRunning = [''app-api'', ''postgis''], rwUsers = (\<lambda>_. []), rwJournal = sampleDisk sampleRecords, rwOutcomes = []\<rparr>"

lemma external_nil: "rwOutcomes w = [] \<Longrightarrow> external effect w = (True, effect w)"
  by (simp add: external_def)

lemma sample_parse: "parseDate sampleJournalHost ''4'' = Some 4"
  by code_simp

lemma sample_journal:
  "readErasureJournal sampleJournalHost sampleKey (sampleDisk sampleRecords) =
     (Inr \<lparr>coverageStartedAt = 3, keyBinding = coverageKeyBinding sampleJournalHost sampleKey (isoOf sampleJournalHost 3),
          requests = [sampleRequest], completedReceiptIds = [], completionRecords = []\<rparr>, sampleDisk sampleRecords)"
proof -
  have "validTime 3" by (simp add: validTime_def)
  from sample_journalOf [of "[Requested sampleRequest]", OF _ this] show ?thesis
    using sample_final read_same [of sampleJournalHost sampleKey "sampleDisk sampleRecords"]
    by (simp add: sampleRecords_def prod_eq_iff)
qed

lemma sample_key: "assertErasureJournalKey sampleJournalHost \<lparr>coverageStartedAt = 3,
    keyBinding = coverageKeyBinding sampleJournalHost sampleKey (isoOf sampleJournalHost 3),
    requests = [sampleRequest], completedReceiptIds = [], completionRecords = []\<rparr> sampleKey = Inr ()"
  by (simp add: assertErasureJournalKey_def sampleKey_def goodKey_def)

lemma sample_expiry: "backupRetentionExpiry sampleJournalHost ''4'' 30 None = Inr (isoOf sampleJournalHost (4 + 30 * dayMs))"
  "parseDate sampleJournalHost (isoOf sampleJournalHost (4 + 30 * dayMs)) = Some (4 + 30 * dayMs)"
proof -
  have valid: "validTime (4 + 30 * dayMs)" by (simp add: validTime_def dayMs_def)
  then show "backupRetentionExpiry sampleJournalHost ''4'' 30 None = Inr (isoOf sampleJournalHost (4 + 30 * dayMs))"
    by (simp add: backupRetentionExpiry_def sample_parse Let_def)
  show "parseDate sampleJournalHost (isoOf sampleJournalHost (4 + 30 * dayMs)) = Some (4 + 30 * dayMs)"
    by (rule host_iso [OF sample_host_ok valid])
qed

lemma sample_validate:
  "now \<le> 4 + 30 * dayMs \<Longrightarrow>
   validateRestoreDataProtection sampleRestoreHost sampleManifest now (sampleDisk sampleRecords) = (None, sampleDisk sampleRecords)"
  by (simp add: validateRestoreDataProtection_def sampleRestoreHost_def sampleManifest_def sample_parse sample_expiry
      containsOpenMapXDatabase_def sample_journal sample_key)

lemma sample_preflight: "preflightRestore sampleRestoreHost ''b'' [] = Inr sampleManifest"
  by code_simp

lemma sample_subjects:
  "isErasedSubject sampleJournalHost \<lparr>coverageStartedAt = 3,
    keyBinding = coverageKeyBinding sampleJournalHost sampleKey (isoOf sampleJournalHost 3),
    requests = [sampleRequest], completedReceiptIds = [], completionRecords = []\<rparr> sampleKey ''anna'' = Inr True"
  "isErasedSubject sampleJournalHost \<lparr>coverageStartedAt = 3,
    keyBinding = coverageKeyBinding sampleJournalHost sampleKey (isoOf sampleJournalHost 3),
    requests = [sampleRequest], completedReceiptIds = [], completionRecords = []\<rparr> sampleKey ''bob'' = Inr False"
proof -
  have digest: "hmac sampleJournalHost k x = replicate 64 (digitChar (length x mod 10))" for k x by (simp add: sampleJournalHost_def)
  have digits: "digitChar 9 \<noteq> digitChar 8" by code_simp
  show "isErasedSubject sampleJournalHost \<lparr>coverageStartedAt = 3,
    keyBinding = coverageKeyBinding sampleJournalHost sampleKey (isoOf sampleJournalHost 3),
    requests = [sampleRequest], completedReceiptIds = [], completionRecords = []\<rparr> sampleKey ''anna'' = Inr True"
    by (simp add: isErasedSubject_def sample_key subjectDigest_def) (simp add: sampleRequest_def goodKey_def sampleKey_def)
  show "isErasedSubject sampleJournalHost \<lparr>coverageStartedAt = 3,
    keyBinding = coverageKeyBinding sampleJournalHost sampleKey (isoOf sampleJournalHost 3),
    requests = [sampleRequest], completedReceiptIds = [], completionRecords = []\<rparr> sampleKey ''bob'' = Inr False"
    using digits
    by (simp add: isErasedSubject_def sample_key subjectDigest_def) (simp add: sampleRequest_def digest goodKey_def sampleKey_def)
qed

definition restoredWorld :: RestoreWorld where
  "restoredWorld = \<lparr>rwRunning = [''postgis'', ''app-api''], rwUsers = (\<lambda>_. [])((''postgis'', ''openmapx'') := [''bob'']),
     rwJournal = sampleDisk sampleRecords, rwOutcomes = []\<rparr>"

lemma sample_restore: "restoreBackup sampleRestoreHost ''b'' [] True sampleWorld = (None, restoredWorld)"
proof -
  have days: "10 \<le> 4 + 30 * dayMs" "11 \<le> 4 + 30 * dayMs" by (simp_all add: dayMs_def)
  have host: "rhNow sampleRestoreHost = 10" "rhNowIsolated sampleRestoreHost = 11" "rhKeyFile sampleRestoreHost = Inr sampleKey"
    "rhJournal sampleRestoreHost = sampleJournalHost" "rhArchiveOk sampleRestoreHost v" "rhDump sampleRestoreHost f = [''anna'', ''bob'']"
    "rhTarUsers sampleRestoreHost v = [(''postgis'', [''anna'', ''bob''])]" for v f
    by (simp_all add: sampleRestoreHost_def)
  let ?r = "\<lparr>rrActive = [''app-api'', ''postgis''], rrStopped = [], rrStarted = [], rrProtected = [], rrSafe = True, rrWorld = sampleWorld\<rparr>"
  have "restoreSteps sampleRestoreHost sampleManifest [''app-api'', ''postgis''] ?r =
      (None, \<lparr>rrActive = [''postgis'', ''app-api''], rrStopped = [''app-api'', ''postgis''], rrStarted = [],
        rrProtected = [(''postgis'', ''openmapx'')], rrSafe = True, rrWorld = restoredWorld\<rparr>)"
    by (simp add: restoreSteps_def andNext_def requiredDependentStops_def containsOpenMapXDatabase_def stopDependent_def call_def change_def
        dockerStop_def dockerStart_def external_nil sampleWorld_def validateIsolated_def sample_validate days host
        restoreService_def restorePgVolume_def startForRestore_def skip_def pgRestoreFromFile_def setUsers_def stopForTar_def
        restoreTarVolume_def tarRestoreFromFile_def overwriteAccounts_def replayTarget_def replayErasureRequests_def sample_journal sample_key replayUser_def sample_subjects restartService_def
        restoredWorld_def fun_upd_def setAdd_def sampleManifest_def [THEN arg_cong [where f = bmServices], simplified])
      (rule ext, simp)
  note run = this
  have world: "rwJournal sampleWorld = sampleDisk sampleRecords" "rwOutcomes sampleWorld = []"
    "rwRunning sampleWorld = [''app-api'', ''postgis'']" "sampleWorld\<lparr>rwJournal := sampleDisk sampleRecords\<rparr> = sampleWorld"
    by (simp_all add: sampleWorld_def)
  show ?thesis
    by (simp add: restoreBackup_def sample_preflight sample_validate days host external_nil world run Let_def)
qed

lemma sample_api: "apiWithoutDump sampleManifest"
  by code_simp

lemma sample_archives: "archivesReplayed sampleRestoreHost ''b'' []"
  by code_simp

lemma sample_manifest: "rhManifest sampleRestoreHost ''b'' = Some sampleManifest"
  by (simp add: sampleRestoreHost_def)

theorem restore_never_exposes_witness:
  "cleared sampleRestoreHost (rwJournal sampleWorld) (rwUsers restoredWorld (''postgis'', ''openmapx''))"
  using restore_never_exposes [OF sample_restore sample_manifest sample_api sample_archives, of "''postgis''"]
  by (simp add: restoredWorld_def sampleWorld_def)

theorem erased_stay_erased_witness:
  "''anna'' \<notin> set (rwUsers (snd (restoreBackup sampleRestoreHost ''b'' [] True sampleWorld)) (''postgis'', ''openmapx''))"
proof -
  have host: "rhJournal sampleRestoreHost = sampleJournalHost" "rhKeyFile sampleRestoreHost = Inr sampleKey"
    by (simp_all add: sampleRestoreHost_def)
  have "reaches (journalStep (rhJournal sampleRestoreHost) sampleKey) uuidReceipts (emptyDisk, []) (rwJournal sampleWorld, [(''anna'', 5)])"
    using sample_run by (simp add: host sampleWorld_def sampleRecords_def)
  from erased_stay_erased [OF _ host(2) _ this sample_restore sample_manifest sample_api sample_archives, of "''postgis''" 4 "''anna''" 5]
  show ?thesis
    using sample_host_ok sample_parse
    by (simp add: host emptyDisk_def sample_restore) (simp add: restoredWorld_def sampleWorld_def sampleManifest_def)
qed

theorem kept_account_marked_witness:
  "\<exists>d. erasureBefore sampleJournalHost sampleKey ''anna'' sampleReceipt 5 False (sampleDisk [sampleCoverage 0], \<lambda>_. None) =
      (Some CleanupFailed, d, \<lambda>_. None) \<and>
    isErasedSubject sampleJournalHost (projr (fst (readErasureJournal sampleJournalHost sampleKey d))) sampleKey ''anna'' = Inr True"
proof -
  let ?old = "sampleDisk [sampleCoverage 0]" and ?new = "sampleDisk [sampleCoverage 0, Requested sampleRequest]"
  have valid: "validTime 0" by (simp add: validTime_def)
  have receipt: "isReceipt sampleReceipt" using sample_good(3) by (simp add: sampleRequest_def)
  have run: "reaches (journalStep sampleJournalHost sampleKey) uuidReceipts (emptyDisk, []) (?old, [])"
    using reaches.event [OF reaches.here, of uuidReceipts "(emptyDisk, [])" "Initialise 0" "journalStep sampleJournalHost sampleKey"]
    unfolding sample_steps by (simp add: uuidReceipts_def)
  obtain v where request: "appendErasureRequest sampleJournalHost sampleKey ''anna'' sampleReceipt 5 ?old = (Inr v, ?new)"
    using sample_steps(2) by (auto split: prod.splits sum.splits)
  then have before: "erasureBefore sampleJournalHost sampleKey ''anna'' sampleReceipt 5 False (?old, \<lambda>_. None) =
      (Some CleanupFailed, ?new, \<lambda>_. None)"
    by (simp add: erasureBefore_def)
  have read: "fst (readErasureJournal sampleJournalHost sampleKey ?new) =
      journalOf sampleJournalHost sampleKey [sampleCoverage 0, Requested sampleRequest]"
    using sample_good by (simp add: readErasureJournal_def withJournalLock_def sample_read) (simp add: sampleDisk_def emptyDisk_def)
  note journal = sample_journalOf [of "[Requested sampleRequest]", OF _ valid, simplified]
  show ?thesis
    using kept_account_marked [OF sample_host_ok _ run receipt before, of _] before
    by (simp add: emptyDisk_def read journal)
qed

section \<open>A manifest with a dump of the API\<close>

definition apiDumpManifest :: BackupManifest where
  "apiDumpManifest = sampleManifest\<lparr>bmServices := bmServices sampleManifest @
     [\<lparr>bsId = ''app-api'', bsVolumes = [\<lparr>bvName = ''v'', bvResolvedName = None, bvMode = PgDump, bvFile = ''other'',
         bvPostgresUser = Some ''postgres'', bvPostgresDb = Some ''other''\<rparr>,
        \<lparr>bvName = ''w'', bvResolvedName = None, bvMode = PgDump, bvFile = ''broken'',
         bvPostgresUser = Some ''postgres'', bvPostgresDb = Some ''other''\<rparr>]\<rparr>]\<rparr>"

definition apiDumpHost :: RestoreHost where
  "apiDumpHost = sampleRestoreHost\<lparr>rhManifest := (\<lambda>_. Some apiDumpManifest), rhArchiveOk := (\<lambda>v. bvFile v \<noteq> ''broken'')\<rparr>"

text \<open>
  Why \<open>apiWithoutDump\<close> is needed: a manifest that gives the API a database dump makes the restore start the API to
  load it, and an archive that is then missing leaves the API running over accounts that were not cleared.
\<close>

theorem api_dump_exposes:
  "\<exists>w. restoreBackup apiDumpHost ''b'' [] True sampleWorld = (Some ArchiveUnavailable, w) \<and>
     ''app-api'' \<in> set (rwRunning w) \<and> ''anna'' \<in> set (rwUsers w (''postgis'', ''openmapx''))"
proof -
  have host: "rhNow apiDumpHost = 10" "rhNowIsolated apiDumpHost = 11" "rhDump apiDumpHost f = [''anna'', ''bob'']"
    "rhArchiveOk apiDumpHost = (\<lambda>v. bvFile v \<noteq> ''broken'')"
    "rhTarUsers apiDumpHost v = [(''postgis'', [''anna'', ''bob''])]" for f v
    by (simp_all add: apiDumpHost_def sampleRestoreHost_def)
  have days: "10 \<le> 4 + 30 * dayMs" "11 \<le> 4 + 30 * dayMs" by (simp_all add: dayMs_def)
  have valid: "validateRestoreDataProtection apiDumpHost apiDumpManifest now (sampleDisk sampleRecords) = (None, sampleDisk sampleRecords)"
    if "now \<le> 4 + 30 * dayMs" for now
    using that
    by (simp add: validateRestoreDataProtection_def apiDumpHost_def sampleRestoreHost_def apiDumpManifest_def sampleManifest_def sample_parse
        sample_expiry containsOpenMapXDatabase_def sample_journal sample_key)
  have services: "preflightRestore apiDumpHost ''b'' [] = Inr apiDumpManifest" by code_simp
  have world: "rwJournal sampleWorld = sampleDisk sampleRecords" "rwOutcomes sampleWorld = []"
    "rwRunning sampleWorld = [''app-api'', ''postgis'']" "sampleWorld\<lparr>rwJournal := sampleDisk sampleRecords\<rparr> = sampleWorld"
    by (simp_all add: sampleWorld_def)
  let ?r = "\<lparr>rrActive = [''app-api'', ''postgis''], rrStopped = [], rrStarted = [], rrProtected = [], rrSafe = True, rrWorld = sampleWorld\<rparr>"
  obtain r where run: "restoreSteps apiDumpHost apiDumpManifest [''app-api'', ''postgis''] ?r = (Some ArchiveUnavailable, r)"
    "''app-api'' \<in> set (rwRunning (rrWorld r))" "''anna'' \<in> set (rwUsers (rrWorld r) (''postgis'', ''openmapx''))"
    "rrStopped r = [''app-api'', ''postgis'']" "\<not> rrSafe r" "rwOutcomes (rrWorld r) = []"
    by (simp add: restoreSteps_def andNext_def requiredDependentStops_def containsOpenMapXDatabase_def stopDependent_def call_def change_def
        dockerStop_def dockerStart_def external_nil sampleWorld_def validateIsolated_def valid days host refuse_def
        restoreService_def restorePgVolume_def startForRestore_def skip_def pgRestoreFromFile_def setUsers_def stopForTar_def
        restoreTarVolume_def tarRestoreFromFile_def overwriteAccounts_def setAdd_def apiDumpManifest_def [THEN arg_cong [where f = bmServices], simplified]
        sampleManifest_def [THEN arg_cong [where f = bmServices], simplified])
  then have "restartAfterFailure r = (rrWorld r)\<lparr>rwRunning := setAdd ''postgis'' (rwRunning (rrWorld r))\<rparr>"
    by (simp add: restartAfterFailure_def dockerStart_def external_nil)
  with run show ?thesis
    by (simp add: restoreBackup_def services valid days host external_nil world Let_def)
qed

section \<open>Accounts in a volume archive alone\<close>

definition tarManifest :: BackupManifest where
  "tarManifest = sampleManifest\<lparr>bmServices := [\<lparr>bsId = ''postgis'',
     bsVolumes = filter (\<lambda>v. bvMode v = Tar) (concat (map bsVolumes (bmServices sampleManifest)))\<rparr>]\<rparr>"

definition tarHost :: RestoreHost where
  "tarHost = sampleRestoreHost\<lparr>rhManifest := (\<lambda>_. Some tarManifest)\<rparr>"

text \<open>
  Why \<open>archivesReplayed\<close> is needed: accounts that come back with a volume archive and without a dump are no account
  database for the restore, which succeeds without stopping the API or opening the journal.
\<close>

theorem tar_without_dump_exposes:
  "\<exists>w. restoreBackup tarHost ''b'' [] True sampleWorld = (None, w) \<and>
     ''app-api'' \<in> set (rwRunning w) \<and> ''anna'' \<in> set (rwUsers w (''postgis'', ''openmapx''))"
proof -
  have host: "rhNow tarHost = 10" "rhNowIsolated tarHost = 11" "rhArchiveOk tarHost v"
    "rhTarUsers tarHost v = [(''postgis'', [''anna'', ''bob''])]" for v
    by (simp_all add: tarHost_def sampleRestoreHost_def)
  have days: "10 \<le> 4 + 30 * dayMs" "11 \<le> 4 + 30 * dayMs" by (simp_all add: dayMs_def)
  have valid: "validateRestoreDataProtection tarHost tarManifest now d = (None, d)" if "now \<le> 4 + 30 * dayMs" for now d
    using that
    by (simp add: validateRestoreDataProtection_def tarHost_def sampleRestoreHost_def tarManifest_def sampleManifest_def sample_parse
        sample_expiry containsOpenMapXDatabase_def)
  have services: "preflightRestore tarHost ''b'' [] = Inr tarManifest" by code_simp
  show ?thesis
    by (simp add: restoreBackup_def services valid days host external_nil sampleWorld_def runningTarTargets_def requiredDependentStops_def
        containsOpenMapXDatabase_def restoreSteps_def andNext_def validateIsolated_def restoreService_def stopForTar_def call_def change_def
        dockerStop_def dockerStart_def restoreTarVolume_def tarRestoreFromFile_def overwriteAccounts_def setUsers_def restartService_def
        setAdd_def Let_def tarManifest_def [THEN arg_cong [where f = bmServices], simplified]
        sampleManifest_def [THEN arg_cong [where f = bmServices], simplified])
qed

end
