(* ===== verification/Spec2Isabelle.thy ===== *)
theory Spec2Isabelle
  imports Opening_Hours_Properties Service_Selection Service_Creation Service_Resolver
    Service_Registry Service_Policy Mobile_Permission Mobile_Shell Mobile_Refresh Mobile_Reroute
    Activation Retention_Clock Control_Key Polyline Ndjson_Stream Session_Properties
    Bridge_Properties Bridge_Script Coordinator_Properties Exclusion_Properties Service_Actions
    Ev_Trip Stream_Budget_Properties Backup_Restore_Properties
begin

text \<open>
  A verification development for OpenMapX.

  \<^bold>\<open>The program.\<close> OpenMapX is a self-hosted map platform written in TypeScript: packages with the
  shared logic (\<open>packages/core\<close>, \<open>packages/extension-contracts\<close>), a mobile shell (\<open>apps/mobile\<close>), an
  API, a web client, an operations agent and integrations. This development models the decision logic of
  the packages, of the mobile shell and of parts of the agent and the integrations, the code whose
  answers the rest of the system trusts.

  \<^bold>\<open>Parts and theories.\<close>
  \<^item> \<open>Prelude\<close>: characters, decimal numerals, strings and lists as JavaScript has them, and the
    lemmas on folds, searches and lists that the components share.
  \<^item> \<open>Opening_Hours_Ast\<close>, \<open>Opening_Hours_Parser\<close>, \<open>Opening_Hours_Serializer\<close>: the opening-hours
    grammar of OpenStreetMap, \<open>packages/core/src/utils/osmOpeningHoursAst.ts\<close>, one definition per
    method of the class \<open>Parser\<close> and per serializer function. The parser object is the rest of
    the input with the position; a method returns \<open>Ok\<close>, \<open>Throw\<close> with message and position, or
    \<open>Diverge\<close> when a loop is cut off by its fuel. \<open>Opening_Hours_Logic\<close> holds the specification
    predicate \<open>spec\<close> on results and its rules, \<open>Opening_Hours_Total\<close> one lemma per method, and
    \<open>Opening_Hours_Properties\<close> the theorems: the parser returns, what it accepts is well formed,
    error positions, fuel stability, round trips, and the input on which it never returns.
  \<^item> \<open>Service_Types\<close>: the manifest of a service and the registry's types
    (\<open>extension-contracts/src/service-types.ts\<close>, \<open>core/src/services/types.ts\<close>), JSON values.
  \<^item> \<open>Graph_Closure\<close>: reachability and the locale \<open>graph_search\<close> with the invariant of a worklist
    search, interpreted by \<open>Service_Selection\<close> (\<open>selection.ts\<close>, \<open>presets.ts\<close>,
    \<open>external-proxy.ts\<close>; interpretation \<open>sel\<close>) and \<open>Service_Creation\<close>
    (\<open>creation-dependencies.ts\<close>; interpretation \<open>create\<close>): both loops compute reachability.
  \<^item> \<open>Service_Resolver\<close> (\<open>resolver.ts\<close>, \<open>consumes-dependencies.ts\<close>): requirement resolution and the
    coloured depth-first search for a cycle, proved sound and complete.
  \<^item> \<open>Service_Policy\<close> (\<open>service-policy.ts\<close>, \<open>secret-key.ts\<close>, \<open>capabilities.ts\<close>, the checks of
    \<open>service.ts\<close>, \<open>sandbox-policy.ts\<close>, \<open>security-rating.ts\<close>): the predicate \<open>contained\<close> is the
    envelope of a community service, and the code's rules are proved equivalent to it.
  \<^item> \<open>Service_Registry\<close> (\<open>registry.ts\<close>, \<open>manifest-discovery.ts\<close>): loading, lookup and switching; the
    locale \<open>service_directory\<close> is what clients rely on (interpretation \<open>reg\<close>).
  \<^item> \<open>Reducer\<close>: runs of a state machine under a guard on events and the locales \<open>reducer\<close> and
    \<open>absorbing_reducer\<close>, interpreted by \<open>Mobile_Permission\<close> (\<open>permissionMachine.ts\<close>,
    \<open>permissionController.ts\<close>), \<open>Mobile_Shell\<close> (\<open>ShellState.ts\<close>, \<open>shellReducer.ts\<close>),
    \<open>Mobile_Refresh\<close> (\<open>refreshState.ts\<close>) and \<open>Mobile_Reroute\<close> (\<open>rerouteState.ts\<close>), all under
    \<open>apps/mobile/src\<close>.
  \<^item> \<open>Activation\<close> (\<open>integration-framework/src/activation-transaction.ts\<close>): staged and immediate
    activation with rollback, as a \<open>reducer\<close> whose closed scopes are absorbing.
  \<^item> \<open>Retention_Clock\<close> (\<open>core/src/build-artifacts/retention-clock.ts\<close>): the durable barrier against
    replayed operations; every operation lists the directory states it passes through, so a crash
    is a prefix, and the barrier is an invariant of all runs with crashes.
  \<^item> \<open>Control_Key\<close> (\<open>core/src/ops/control-root-key.ts\<close>), \<open>Polyline\<close>
    (\<open>mobility-core/src/polyline.ts\<close>, 32-bit words): codecs and their round trips.
  \<^item> \<open>Ndjson_Stream\<close> (\<open>core/src/services/bounded-ndjson.ts\<close>): reading JSON lines from a chunked
    stream under a byte limit.
  \<^item> \<open>Session_Types\<close>, \<open>Session_Tables\<close>, \<open>Session_Repository\<close>, \<open>Session_Invariants\<close>,
    \<open>Session_Properties\<close> (\<open>core/src/navigation/mobileSession.ts\<close>, \<open>lifecycle/lifecyclePolicy.ts\<close>,
    \<open>storage/sql.ts\<close>, \<open>storage/SessionRepository.ts\<close>): the durable navigation session. Each SQL
    statement is a function on a record of tables, each repository method a function over them, and
    a run is a sequence of methods. The repository refines an abstract authority; no update is lost,
    critical events survive, and ending a session erases it.
  \<^item> \<open>Mobile_Protocol\<close> (\<open>core/src/navigation/mobileProtocol.ts\<close>), \<open>Bridge\<close>, \<open>Bridge_Properties\<close>,
    \<open>Bridge_Script\<close> (\<open>apps/mobile/src/bridge\<close>, \<open>shell/originPolicy.ts\<close>): what passes between page and
    shell. Awaits split a handler into steps that other events may separate; the invariant of all
    runs says what a page is told before its handshake and which commands are dispatched.
  \<^item> \<open>Raw_Location\<close> (\<open>apps/mobile/src/location/rawLocation.ts\<close>, \<open>sanitiseFixes.ts\<close>): from raw locations
    to fixes whose times only move forward.
  \<^item> \<open>Coordinator\<close>, \<open>Coordinator_Commands\<close>, \<open>Coordinator_Runs\<close>, \<open>Coordinator_Properties\<close>
    (\<open>apps/mobile/src/navigation/NavigationCoordinator.ts\<close>, \<open>effects.ts\<close>, \<open>processor.ts\<close>,
    \<open>startContext.ts\<close>): the authority over the session. Handlers are tasks that pass on the tables of
    the session store and logs of effects, replies and diagnostics, and may throw; processors and ports
    are fields of a host. The locale \<open>task_relation\<close> proves once that every handler only makes
    allowed moves of the store; the properties concern the order of commit and effects, retries, late answers and
    expiry.
  \<^item> \<open>Lifecycle_Exclusion\<close>, \<open>Exclusion_Invariants\<close>, \<open>Exclusion_Properties\<close>
    (\<open>apps/ops-agent/src/lifecycle-exclusion.ts\<close>): who may change which services when. The queue, the
    grants and the durable record of work begun are a state; requests, aborts, ends, deaths and restarts
    are its steps. No two tasks share a service, and an effect of unknown outcome denies its services
    for good.
  \<^item> \<open>Service_Actions\<close> (\<open>apps/ops-agent/src/service-action-policy.ts\<close>, \<open>core/src/ops/service-results.ts\<close>):
    which actions are offered on a service and how they are carried out.
  \<^item> \<open>Ev_Sites\<close>, \<open>Ev_Energy\<close>, \<open>Ev_Tariffs\<close>, \<open>Ev_Tariff_Properties\<close>, \<open>Ev_Planner\<close>,
    \<open>Ev_Planner_Properties\<close> (\<open>packages/ev-charge-planner\<close>, \<open>mobility-core/src/types/ev-charging.ts\<close>):
    where an electric vehicle charges. Charge points, consumption, charging time and tariffs are functions
    on rationals; the planning loop is a step function run at most twelve times, its charging loop a
    \<open>partial_function\<close> proved to return. The relation \<open>journey\<close> is what a plan promises along the route.
  \<^item> \<open>Ev_Trip\<close> (\<open>integrations/routing/ev-plan.ts\<close>): the request around the planner, its warnings and the
    cost of the trip.
  \<^item> \<open>Stream_Budget\<close>, \<open>Stream_Budget_Properties\<close> (\<open>core/src/rolling-stream-budget.ts\<close>): admission of
    streams. A lease refers to the budget of its key in a heap; the properties bound the leases at a time and the
    bytes over time.
  \<^item> \<open>Erasure_Journal\<close>, \<open>Erasure_Invariants\<close>, \<open>Erasure_Properties\<close> (\<open>core/src/erasure-journal.ts\<close>),
    \<open>Backup_Restore\<close>, \<open>Backup_Restore_Properties\<close> (\<open>api/src/services/user-erasure.ts\<close>,
    \<open>cli/src/commands/backup.ts\<close>, \<open>core/src/services/backup-retention.ts\<close>): who was erased and how a restored
    backup is kept from bringing them back. The journal is a file of records on a disk; the invariant says which requests
    it remembers. A restore is a program over services, databases and failing calls, proved with triples, where
    a dump and a volume archive both may bring accounts back. Its guarantees have two conditions on the manifest,
    each with a run that shows why (\<open>api_dump_exposes\<close>, \<open>tar_without_dump_exposes\<close>); the last theorem spans
    journal, hooks and restore.
  \<^item> This theory holds the properties that span components: creation stays within the selection,
    a scan of the community directory adds only contained services, and the two lookups of a
    producer agree.

  \<^bold>\<open>Fuel.\<close> The parser's loops take fuel; one more than the length of the text is enough
  (\<open>parse_returns\<close>), and more changes nothing (\<open>parse_fuel_stable\<close>). The expansion of a selection
  takes one round per installed service (\<open>expand_selection_reachable\<close>), the depth-first search
  a depth of one more than the number of services (\<open>detectConsumesCycle_correct\<close>), and the
  permission flow the transition limit of its own source (\<open>permission_flow_ends\<close>). The charging loop of
  the planner may run for ever on a step of zero and is a partial function; the planner never calls
  it so (\<open>plan_returns\<close>). All other
  loops are structural or have a termination proof.

  \<^bold>\<open>Conventions and bounds.\<close> Strings are lists of characters with code units 0 to 255: the parsers and
  validators treat any character above like one of them that is no letter, digit or white space, but texts with such characters,
  and with them the three and four byte forms of UTF-8, are not modelled. Numbers are exact, which JavaScript is up
  to \<open>2\<^sup>5\<^sup>3\<close>. JavaScript maps and sets are functions to option and lists in insertion order. Error and
  warning texts are constructors with the values the text names, except where the text itself is
  the result. The zod schema (\<open>safeParse\<close>), \<open>JSON.parse\<close>, the file system, the embedded manifests
  and the recorded community services are fields of the record \<open>RegistryHost\<close>; the user's answers
  and the permission snapshots are fields of \<open>PermissionControllerDeps\<close>. What is assumed of the
  schema is \<open>faithfulCast\<close>.

  \<^bold>\<open>Not modelled.\<close> The zod schemas themselves, generated API clients, HTTP routes, database access,
  the operations agent's processes and durable files, map rendering and user interfaces: input
  and output around the modelled core, or code outside the repository.
\<close>

section \<open>Creating services stays within the selection\<close>

lemma dependsOnMap_get:
  "dependsOnMap services i =
     map_option (\<lambda>s. map depService (elems (dependsOn (container (manifest s))))) (byId services i)"
  by (simp add: dependsOnMap_def foldl_upd_get byId_def split: option.splits)

lemma dependency_required:
  assumes "d \<in> set (directDependencies (dependsOnMap services) i)" and "i \<noteq> []"
    and "byId services d \<noteq> None"
  shows "d \<in> set (requiredServices services False opts i)"
  using assms
  by (cases "byId services i")
     (auto simp: directDependencies_def dependsOnMap_get requiredServices_def requirements_def accepted_def)

lemma created_selected:
  assumes "reachable (directDependencies (dependsOnMap services)) targets i"
    and "\<And>j. reachable (directDependencies (dependsOnMap services)) targets j \<Longrightarrow>
          j \<noteq> [] \<and> byId services j \<noteq> None"
    and "targets \<subseteq> {j. reachable (requiredServices services False opts) roots j}"
  shows "reachable (requiredServices services False opts) roots i"
  using assms(1)
proof induction
  case (root x)
  with assms(3) show ?case by blast
next
  case (step x y)
  from step(1,2) have "reachable (directDependencies (dependsOnMap services)) targets y"
    by (rule reachable.step)
  with step assms(2) have "y \<in> set (requiredServices services False opts x)"
    by (intro dependency_required) auto
  with step(3) show ?case by (rule reachable.step)
qed

section \<open>Two readings of a producer\<close>

definition producerKey :: "ServiceProduces \<Rightarrow> bool \<times> string" where
  "producerKey p =
     (case prodInstance p of
        None \<Rightarrow> (False, prodType p)
      | Some i \<Rightarrow> (True, instanceKey (prodType p) i))"

definition uniqueProducers :: "LoadedService list \<Rightarrow> bool" where
  "uniqueProducers services \<longleftrightarrow>
     distinct (map (\<lambda>e. producerKey (entryProduces e)) (producerEntries services))"

lemma find_rev_unique:
  "(\<And>x y. x \<in> set xs \<Longrightarrow> y \<in> set xs \<Longrightarrow> P x \<Longrightarrow> P y \<Longrightarrow> x = y) \<Longrightarrow> find P (rev xs) = find P xs"
proof (induction xs)
  case (Cons x xs)
  then have "find P (rev xs) = find P xs" by simp
  moreover have "find P xs = None \<or> find P xs = Some x" if "P x"
    using Cons.prems [of x] that by (cases "find P xs") (auto dest: find_mem)
  ultimately show ?case by (auto simp: find_append split: option.splits)
qed simp

lemma producedBy_entries:
  "producedBy services = map (\<lambda>e. (producerId e, entryProduces e)) (producerEntries services)"
  by (simp add: producedBy_def producerEntries_def map_concat comp_def)

lemma find_map: "find P (map f xs) = map_option f (find (\<lambda>x. P (f x)) xs)"
  by (induction xs) auto

lemma find_filter: "find P (filter Q xs) = find (\<lambda>x. Q x \<and> P x) xs"
  by (induction xs) auto

lemma last_is_first:
  assumes "uniqueProducers services"
    and "\<And>e. e \<in> set (producerEntries services) \<Longrightarrow> P e \<Longrightarrow> producerKey (entryProduces e) = k"
  shows "find P (rev (producerEntries services)) = find P (producerEntries services)"
proof (rule find_rev_unique)
  fix x y
  assume "x \<in> set (producerEntries services)" "y \<in> set (producerEntries services)" "P x" "P y"
  with assms(2) have "producerKey (entryProduces x) = producerKey (entryProduces y)" by metis
  with assms(1) \<open>x \<in> _\<close> \<open>y \<in> _\<close> show "x = y"
    unfolding uniqueProducers_def distinct_map by (auto dest: inj_onD)
qed

lemma producers_agree_lemma:
  assumes "uniqueProducers services"
  shows "upstreamProducer (producerMaps services) con =
         map_option producerId (resolveProducer con (buildProducerIndex services))"
proof -
  let ?es = "producerEntries services"
  let ?inst = "\<lambda>k e. case prodInstance (entryProduces e) of
      None \<Rightarrow> False | Some j \<Rightarrow> instanceKey (prodType (entryProduces e)) j = k"
  let ?def = "\<lambda>e. prodInstance (entryProduces e) = None \<and> prodType (entryProduces e) = conType con"
  have inst: "find (?inst k) (rev ?es) = find (?inst k) ?es" for k
    by (rule last_is_first [OF assms, where k = "(True, k)"]) (auto simp: producerKey_def split: option.splits)
  have def: "find ?def (rev ?es) = find ?def ?es"
    by (rule last_is_first [OF assms, where k = "(False, conType con)"]) (auto simp: producerKey_def)
  have maps: "defaultProducers (producerMaps services) (conType con) = map_option producerId (find ?def ?es)"
    "instancedProducers (producerMaps services) k = map_option producerId (find (?inst k) ?es)"
    "elems (producersByType (producerMaps services) (conType con)) =
       map producerId (filter (\<lambda>e. prodType (entryProduces e) = conType con) ?es)" for k
    using producerMaps_char [of "producedBy services" "conType con" k] inst [of k] def
    by (simp_all add: producerMaps_def producedBy_entries find_map rev_map filter_map comp_def
        option.map_comp instanceKey_def cong: option.case_cong)
  have swap: "find (\<lambda>e. prodType (entryProduces e) = conType con \<and> prodInstance (entryProduces e) = None) ?es
      = find ?def ?es"
    by (rule arg_cong [where f = "\<lambda>P. find P ?es"]) auto
  show ?thesis
    unfolding upstreamProducer_def resolveProducer_eq producerOf_def Let_def find_filter swap
    using maps by (auto simp: instanceKey_def split: option.splits list.splits)
qed

section \<open>The raw manifest and the parsed one\<close>

text \<open>
  The registry keeps the parsed JSON value itself, read as a manifest, and not the value the schema
  returns. The two differ only where the schema fills in a default, in the \<open>gpu\<close> block of the
  container; every other field of the accepted value is the field of the raw one.
\<close>

definition faithfulCast :: "RegistryHost \<Rightarrow> bool" where
  "faithfulCast host \<longleftrightarrow>
     (\<forall>raw m. safeParse host raw = Inr m \<longrightarrow>
        m = (asManifest host raw)\<lparr>container := (container (asManifest host raw))\<lparr>gpu := gpu (container m)\<rparr>\<rparr>)"

lemma contained_gpu [simp]: "contained (m\<lparr>container := (container m)\<lparr>gpu := g\<rparr>\<rparr>) \<longleftrightarrow> contained m"
  by (simp add: contained_def proxyOn_def schemaProperties_def cong: option.case_cong)

lemma validated_contained:
  assumes "faithfulCast host" and "valid (validateServiceManifest (safeParse host) raw False)"
  shows "contained (asManifest host raw)"
proof -
  from assms(2) obtain m where m: "safeParse host raw = Inr m" "checkManifestSandbox m False = []"
    by (cases "safeParse host raw") (simp_all add: validateServiceManifest_def Let_def)
  from m(2) have "contained m" by (simp add: sandbox_contained)
  moreover from assms(1) m(1) have
    "m = (asManifest host raw)\<lparr>container := (container (asManifest host raw))\<lparr>gpu := gpu (container m)\<rparr>\<rparr>"
    unfolding faithfulCast_def by blast
  ultimately show ?thesis by (metis contained_gpu)
qed

section \<open>Properties that span components\<close>

text \<open>
  Creating services stays within the selection: without an external proxy, when the selection
  expands to \<open>r\<close> and the creation closure of targets among the enabled services is found, every
  service Compose may create is one the selection enabled.
\<close>

theorem creation_within_selection:
  assumes "resolveExternalProxy env (externalProxyNetwork opts) = Inr network"
    and "\<not> externalActive network" and "length services \<le> fuel"
    and "expandServiceSelection fuel env services ids opts = Some (Inr r)"
    and "set targets \<subseteq> set (enabledIds r)"
    and "serviceCreationDependencyIds services targets = Inr created"
  shows "set created \<subseteq> set (enabledIds r)"
proof
  fix i
  assume i: "i \<in> set created"
  let ?deps = "directDependencies (dependsOnMap services)"
  have enabled: "set (enabledIds r) =
      {j. reachable (requiredServices services False opts) (selectionRoots services False ids) j}"
    using expand_search [OF assms(1) _ assms(3), of False ids] assms(2,4) by auto
  have closed: "set created = {j. reachable ?deps (set targets) j}"
    and ok: "\<forall>j \<in> set created. idPattern j \<and> dependsOnMap services j \<noteq> None"
    using assms(6) closure_Inr [of targets "dependsOnMap services" created]
    by (auto simp: serviceCreationDependencyIds_def split: if_splits)
  have "j \<noteq> [] \<and> byId services j \<noteq> None" if "reachable ?deps (set targets) j" for j
    using that ok closed by (auto simp: idPattern_def dependsOnMap_get split: list.splits)
  with i closed enabled assms(5)
    created_selected [of services "set targets" i opts "selectionRoots services False ids"]
  show "i \<in> set (enabledIds r)" by simp
qed

theorem creation_within_selection_witness:
  "\<exists>r. expandServiceSelection 1 Map.empty [blankService ''redis''] [''redis'']
         \<lparr>allowMissingSelected = False, includeProxyForProxiedServices = None,
          externalProxyNetwork = IgnoreEnvironment\<rparr> = Some (Inr r) \<and>
       serviceCreationDependencyIds [blankService ''redis''] [''redis''] = Inr [''redis''] \<and>
       set [''redis''] \<subseteq> set (enabledIds r)"
proof -
  let ?s = "[blankService ''redis'']"
  let ?opts = "\<lparr>allowMissingSelected = False, includeProxyForProxiedServices = None,
      externalProxyNetwork = IgnoreEnvironment\<rparr>"
  have ext: "resolveExternalProxy Map.empty (externalProxyNetwork ?opts) = Inr None"
    by (simp add: resolveExternalProxy_def)
  have created: "serviceCreationDependencyIds ?s [''redis''] = Inr [''redis'']"
    by (simp add: serviceCreationDependencyIds_def closure_def dependsOnMap_def idPattern_def
        isLowerOrDigit_def blankService_def blankManifest_def blankContainer_def)
  have n: "normalizeServiceIds [''redis''] = [''redis'']" by code_simp
  obtain r where r: "expandServiceSelection 1 Map.empty ?s [''redis''] ?opts = Some (Inr r)"
    and "set (enabledIds r) =
      {j. reachable (requiredServices ?s False ?opts) (selectionRoots ?s False [''redis'']) j}"
    using expand_search [OF ext, of False ?s 1 "[''redis'']"] by (auto simp: externalActive_def)
  then have "''redis'' \<in> set (enabledIds r)"
    by (auto simp: selectionRoots_def n accepted_def byId_def intro: reachable.root)
  then have "set [''redis''] \<subseteq> set (enabledIds r)"
    using creation_within_selection [OF ext _ _ r _ created] by (simp add: externalActive_def)
  with r created show ?thesis by blast
qed

text \<open>
  C6. No community manifest found on disk reaches the registry with elevated access: every service a
  scan of the community directory adds is marked third-party, stays within the sandbox, and is
  never rated as one that requires a built-in service.
\<close>

theorem community_scan_contained:
  assumes "faithfulCast host"
  shows "\<exists>new. fst (scanCommunityDir host opts dir st) = fst st @ new \<and>
     list_all (\<lambda>s. contained (manifest s) \<and> \<not> isBuiltIn s \<and>
       (\<forall>raw. \<not> requiresBuiltIn (computeServiceSecurityRating (manifest s) raw))) new"
proof -
  from scan_validated(2) [of opts host st dir] obtain new where
    new: "fst (scanCommunityDir host opts dir st) = fst st @ new"
    and "\<forall>s \<in> set new. \<not> isBuiltIn s \<and>
      (\<exists>raw. valid (validateServiceManifest (safeParse host) raw False) \<and> manifest s = asManifest host raw)"
    by (auto simp: extends_def)
  then have "\<forall>s \<in> set new. contained (manifest s) \<and> \<not> isBuiltIn s"
    using validated_contained [OF assms] by force
  with new show ?thesis using contained_not_elevated by (auto simp: list_all_iff)
qed

definition exampleHost :: RegistryHost where
  "exampleHost =
     \<lparr>treeAt = (\<lambda>p. if p = ''/c'' then Some (DirNode [(''repo'', DirNode [(''service.json'', FileNode ''x'')])])
                   else if p = ''/c/repo'' then Some (DirNode [(''service.json'', FileNode ''x'')]) else None),
      embeddedServices = None, recordedServices = [], jsonParse = (\<lambda>s. Inr (JStr s)),
      safeParse = (\<lambda>raw. Inr (blankManifest ''x'')), asManifest = (\<lambda>raw. blankManifest ''x'')\<rparr>"

definition exampleOptions :: ServiceRegistryOptions where
  "exampleOptions = \<lparr>rootDir = [], servicesDir = None, communityDir = None, builtInServices = None,
     communityServices = None, optEnabledIds = None\<rparr>"

theorem community_scan_contained_witness:
  "fst (scanCommunityDir exampleHost exampleOptions ''/c'' ([], [])) \<noteq> [] \<and>
   list_all (\<lambda>s. contained (manifest s)) (fst (scanCommunityDir exampleHost exampleOptions ''/c'' ([], [])))"
proof
  have "faithfulCast exampleHost"
    by (simp add: faithfulCast_def exampleHost_def blankManifest_def blankContainer_def)
  from community_scan_contained [OF this, of exampleOptions "''/c''" "([], [])"]
  show "list_all (\<lambda>s. contained (manifest s)) (fst (scanCommunityDir exampleHost exampleOptions ''/c'' ([], [])))"
    by (auto simp: list_all_iff)
  have ok: "valid (validateServiceManifest (\<lambda>_. Inr (blankManifest ''x'')) raw False)" for raw
    by (simp add: validateServiceManifest_def sandbox_contained contained_def blankManifest_def
        blankContainer_def truthy_def proxyOn_def schemaProperties_def proxyKeyErrors_def secretKeyErrors_def)
  show "fst (scanCommunityDir exampleHost exampleOptions ''/c'' ([], [])) \<noteq> []"
    by (simp add: scanCommunityDir_def exampleHost_def startsWithDot_def findServiceManifestDirs_def
        MAX_DIRS_def holdsManifest_def joinPath_def tryLoadManifest_def manifestContents_def ok hasId_def Let_def)
qed

text \<open>
  The resolver and the selection agree on who provides a dataset: when no two datasets share a
  type and instance, which the renderer demands, the upstream producer computed from the maps of
  \<open>consumes-dependencies.ts\<close> (last entry wins) is the one the index of \<open>selection.ts\<close> gives
  (first entry wins).
\<close>

theorem producers_agree:
  assumes "uniqueProducers services"
  shows "upstreamProducer (producerMaps services) con =
         map_option producerId (resolveProducer con (buildProducerIndex services))"
  using assms by (rule producers_agree_lemma)

definition exampleProducer :: LoadedService where
  "exampleProducer = (blankService ''a'')\<lparr>manifest := (blankManifest ''a'')\<lparr>produces := Some
     [\<lparr>prodType = ''osm'', prodInstance = None, prodSourceDir = ''/data''\<rparr>]\<rparr>\<rparr>"

definition exampleConsumes :: ServiceConsumes where
  "exampleConsumes = \<lparr>conType = ''osm'', conInstance = None, conMountAt = ''/in'',
     conTargetFilename = None, conReadOnly = None, conRequired = None\<rparr>"

theorem producers_agree_witness:
  "upstreamProducer (producerMaps [exampleProducer, blankService ''b'']) exampleConsumes = Some ''a''"
proof -
  let ?s = "[exampleProducer, blankService ''b'']"
  have unique: "uniqueProducers ?s"
    by (simp add: uniqueProducers_def producerEntries_def exampleProducer_def blankService_def blankManifest_def)
  have "map_option producerId (resolveProducer exampleConsumes (buildProducerIndex ?s)) = Some ''a''"
    by (simp add: resolveProducer_def buildProducerIndex_def producerEntries_def exampleProducer_def
        blankService_def blankManifest_def indexEntry_def emptyIndex_def exampleConsumes_def Let_def)
  with producers_agree [OF unique] show ?thesis by simp
qed

end
